(* ===== verification/Prelude.thy ===== *)
theory Prelude
  imports Complex_Main "HOL-Library.Sublist" "HOL-Library.Char_ord" "HOL-Library.List_Lexorder"
begin

text \<open>
  Shared vocabulary of the development: results with errors as values
  (\<^verbatim>\<open>anyhow::Result\<close>), operations that read and write the store and can fail,
  the transaction combinator, ordered maps (\<^verbatim>\<open>BTreeMap\<close>) and the string
  functions of the Rust standard library that the program calls.
  An error carries the fixed text of the message the code builds; the values that the code
  interpolates into it are dropped. Strings are lists of bytes, so lengths count bytes as
  \<^verbatim>\<open>str::len\<close> does.
\<close>

section \<open>Results\<close>

datatype error = Bail string | Bail_at nat string

type_synonym 'a result = "error + 'a"

abbreviation Err :: "error \<Rightarrow> 'a result" where "Err \<equiv> Inl"
abbreviation Ok :: "'a \<Rightarrow> 'a result" where "Ok \<equiv> Inr"

definition bail :: "string \<Rightarrow> 'a result" where
  "bail m = Err (Bail m)"

text \<open>The question mark operator: continue with the value or return the error.\<close>

definition and_then :: "'a result \<Rightarrow> ('a \<Rightarrow> 'b result) \<Rightarrow> 'b result" where
  "and_then r f = (case r of Inl e \<Rightarrow> Inl e | Inr x \<Rightarrow> f x)"

definition require :: "bool \<Rightarrow> string \<Rightarrow> unit result" where
  "require b m = (if b then Ok () else Err (Bail m))"

definition context_of :: "'a option \<Rightarrow> string \<Rightarrow> 'a result" where
  "context_of x m = (case x of None \<Rightarrow> Err (Bail m) | Some v \<Rightarrow> Ok v)"

definition is_ok :: "'a result \<Rightarrow> bool" where
  "is_ok r = (case r of Inl _ \<Rightarrow> False | Inr _ \<Rightarrow> True)"

text \<open>\<^verbatim>\<open>collect::<Result<Vec<_>>>()\<close>: the first error wins.\<close>

fun map_result :: "('a \<Rightarrow> 'b result) \<Rightarrow> 'a list \<Rightarrow> 'b list result" where
  "map_result f [] = Ok []"
| "map_result f (x # xs) =
     (case f x of Inl e \<Rightarrow> Inl e
      | Inr y \<Rightarrow> (case map_result f xs of Inl e \<Rightarrow> Inl e | Inr ys \<Rightarrow> Inr (y # ys)))"

text \<open>A loop whose body only checks: it stops at the first failing element.\<close>

fun each_result :: "('a \<Rightarrow> unit result) \<Rightarrow> 'a list \<Rightarrow> unit result" where
  "each_result f [] = Ok ()"
| "each_result f (x # xs) = (case f x of Inl e \<Rightarrow> Inl e | Inr _ \<Rightarrow> each_result f xs)"

lemma is_ok_simps [simp]: "is_ok (Ok x)" "\<not> is_ok (Err e)"
  by (simp_all add: is_ok_def)

lemma bail_not_ok [simp]: "\<not> is_ok (bail m)" "bail m \<noteq> Ok x" "Ok x \<noteq> bail m"
  by (simp_all add: bail_def)

lemma and_then_simps [simp]:
  "and_then (Ok x) f = f x" "and_then (Err e) f = Err e" "and_then (bail m) f = bail m"
  by (simp_all add: and_then_def bail_def)

lemma and_then_Ok_iff: "and_then r f = Ok y \<longleftrightarrow> (\<exists>x. r = Ok x \<and> f x = Ok y)"
  by (cases r) simp_all

lemma and_then_unit_Ok: "and_then r f = Ok y \<longleftrightarrow> r = Ok () \<and> f () = Ok y"
  by (cases r) simp_all

lemma require_Ok_iff [simp]: "require b m = Ok u \<longleftrightarrow> b"
  by (simp add: require_def)

lemma require_True [simp]: "require True m = Ok ()"
  by (simp add: require_def)

lemma require_False [simp]: "require False m = Err (Bail m)"
  by (simp add: require_def)

lemma context_of_simps [simp]:
  "context_of (Some x) m = Ok x" "context_of None m = Err (Bail m)"
  by (simp_all add: context_of_def)

lemma context_of_Ok_iff: "context_of x m = Ok v \<longleftrightarrow> x = Some v"
  by (cases x) simp_all

lemma is_ok_iff: "is_ok r \<longleftrightarrow> (\<exists>x. r = Ok x)"
  by (cases r) simp_all

lemma map_result_Ok_iff:
  "map_result f xs = Ok ys \<longleftrightarrow> list_all2 (\<lambda>x y. f x = Ok y) xs ys"
proof (induction xs arbitrary: ys)
  case Nil
  then show ?case by auto
next
  case (Cons x xs)
  then show ?case
    by (cases ys) (auto simp: Cons.IH [symmetric] split: sum.splits)
qed

lemma each_result_Ok_iff: "each_result f xs = Ok u \<longleftrightarrow> (\<forall>x \<in> set xs. f x = Ok ())"
  by (induction xs) (auto split: sum.splits)

lemma each_result_append:
  "each_result f (xs @ ys) = and_then (each_result f xs) (\<lambda>_. each_result f ys)"
  by (induction xs) (auto split: sum.splits)

section \<open>Operations on a state\<close>

text \<open>
  An operation takes the state and returns the new state with its result. An operation that
  fails may have written already; \<open>atomic\<close> is the transaction around a body
  (\<^verbatim>\<open>Store::atomic\<close>): a failing body leaves the state as it was.
\<close>

type_synonym ('s, 'a) oper = "'s \<Rightarrow> 's \<times> 'a result"

definition ret :: "'a \<Rightarrow> ('s, 'a) oper" where
  "ret x = (\<lambda>s. (s, Ok x))"

definition throw :: "string \<Rightarrow> ('s, 'a) oper" where
  "throw m = (\<lambda>s. (s, bail m))"

definition bnd :: "('s, 'a) oper \<Rightarrow> ('a \<Rightarrow> ('s, 'b) oper) \<Rightarrow> ('s, 'b) oper" where
  "bnd m f = (\<lambda>s. case m s of (t, Inl e) \<Rightarrow> (t, Inl e) | (t, Inr x) \<Rightarrow> f x t)"

definition thn :: "('s, 'a) oper \<Rightarrow> ('s, 'b) oper \<Rightarrow> ('s, 'b) oper" where
  "thn m n = bnd m (\<lambda>_. n)"

definition ask_state :: "('s \<Rightarrow> 'a result) \<Rightarrow> ('s, 'a) oper" where
  "ask_state f = (\<lambda>s. (s, f s))"

definition modify :: "('s \<Rightarrow> 's) \<Rightarrow> ('s, unit) oper" where
  "modify f = (\<lambda>s. (f s, Ok ()))"

definition guard :: "bool \<Rightarrow> string \<Rightarrow> ('s, unit) oper" where
  "guard b m = (\<lambda>s. (s, require b m))"

definition when_op :: "bool \<Rightarrow> ('s, unit) oper \<Rightarrow> ('s, unit) oper" where
  "when_op b m = (if b then m else ret ())"

fun each_op :: "('a \<Rightarrow> ('s, unit) oper) \<Rightarrow> 'a list \<Rightarrow> ('s, unit) oper" where
  "each_op f [] = ret ()"
| "each_op f (x # xs) = thn (f x) (each_op f xs)"

definition atomic :: "('s, 'a) oper \<Rightarrow> ('s, 'a) oper" where
  "atomic m = (\<lambda>s. case m s of (t, Inl e) \<Rightarrow> (s, Inl e) | (t, Inr x) \<Rightarrow> (t, Inr x))"

named_theorems oper_defs "unfolding of the operation combinators"

lemmas oper_unfold [oper_defs] =
  ret_def throw_def bnd_def thn_def ask_state_def modify_def guard_def when_op_def atomic_def

lemma bnd_simps [simp]:
  "bnd (ret x) f = f x" "bnd (throw m) f = throw m" "thn (ret x) n = n"
  by (simp_all add: ret_def throw_def bnd_def thn_def bail_def)

lemma ask_then:
  "bnd (ask_state f) g s = (case f s of Inl e \<Rightarrow> (s, Inl e) | Inr x \<Rightarrow> g x s)"
  by (simp add: bnd_def ask_state_def)

lemma bnd_assoc: "bnd (bnd m f) g = bnd m (\<lambda>x. bnd (f x) g)"
  by (rule ext) (simp add: bnd_def split: prod.split sum.split)

lemma each_op_append: "each_op f (xs @ ys) = thn (each_op f xs) (each_op f ys)"
proof (induction xs)
  case Nil
  then show ?case by simp
next
  case (Cons x xs)
  then show ?case by (simp add: thn_def bnd_assoc)
qed

lemma atomic_Err_state: "atomic m s = (t, Err e) \<Longrightarrow> t = s"
  by (auto simp: atomic_def split: prod.splits sum.splits)

lemma atomic_Ok_iff: "atomic m s = (t, Ok x) \<longleftrightarrow> m s = (t, Ok x)"
  by (auto simp: atomic_def split: prod.splits sum.splits)

text \<open>Inversion: what a successful run went through.\<close>

named_theorems run_iffs "inversion of successful runs"

lemma bnd_run [run_iffs]:
  "bnd m f s = (t, Ok y) \<longleftrightarrow> (\<exists>u x. m s = (u, Ok x) \<and> f x u = (t, Ok y))"
  by (auto simp: bnd_def split: prod.splits sum.splits)

lemma thn_run [run_iffs]:
  "thn m n s = (t, Ok y) \<longleftrightarrow> (\<exists>u x. m s = (u, Ok x) \<and> n u = (t, Ok y))"
  by (simp add: thn_def bnd_run)

lemma ret_run [run_iffs]: "ret x s = (t, r) \<longleftrightarrow> t = s \<and> r = Ok x"
  by (auto simp: ret_def)

lemma throw_run [run_iffs]: "throw m s = (t, Ok x) \<longleftrightarrow> False"
  by (simp add: throw_def)

lemma ask_run [run_iffs]: "ask_state f s = (t, r) \<longleftrightarrow> t = s \<and> f s = r"
  by (auto simp: ask_state_def)

lemma modify_run [run_iffs]: "modify f s = (t, r) \<longleftrightarrow> t = f s \<and> r = Ok ()"
  by (auto simp: modify_def)

lemma guard_run [run_iffs]: "guard b m s = (t, Ok u) \<longleftrightarrow> b \<and> t = s"
  by (auto simp: guard_def)

lemmas atomic_run [run_iffs] = atomic_Ok_iff

lemma when_run [run_iffs]: "when_op b m s = (t, Ok u) \<longleftrightarrow> (if b then m s = (t, Ok u) else t = s)"
  by (simp add: when_op_def ret_def eq_commute)

text \<open>
  The same for the shapes the operations are built from, without intermediate states; rewriting
  with these walks a successful run from its first guard to its last write.
\<close>

named_theorems runs "successful runs, step by step"

lemma bnd_ask_runs [runs]:
  "bnd (ask_state f) g s = (t, Ok y) \<longleftrightarrow> (\<exists>x. f s = Ok x \<and> g x s = (t, Ok y))"
  by (simp add: ask_then split: sum.split)

lemma thn_ask_runs [runs]:
  "thn (ask_state f) n s = (t, Ok y) \<longleftrightarrow> (\<exists>x. f s = Ok x) \<and> n s = (t, Ok y)"
  by (auto simp: thn_def ask_then split: sum.splits)

lemma thn_guard_runs [runs]: "thn (guard b m) n s = (t, Ok y) \<longleftrightarrow> b \<and> n s = (t, Ok y)"
  by (auto simp: thn_def bnd_def guard_def require_def)

lemma thn_modify_runs [runs]: "thn (modify f) n s = (t, Ok y) \<longleftrightarrow> n (f s) = (t, Ok y)"
  by (simp add: thn_def bnd_def modify_def)

lemma thn_when_runs [runs]:
  "thn (when_op b m) n s = (t, Ok y) \<longleftrightarrow> (if b then thn m n s = (t, Ok y) else n s = (t, Ok y))"
  by (simp add: when_op_def)

lemma bnd_ret_runs [runs]: "bnd (ret x) f s = r \<longleftrightarrow> f x s = r"
  by simp

lemma thn_throw_runs [runs]: "thn (throw m) n s = (t, Ok y) \<longleftrightarrow> False"
  by (simp add: thn_def bnd_def throw_def bail_def)

lemmas leaf_runs [runs] = ret_run throw_run ask_run modify_run guard_run atomic_Ok_iff when_run

lemma each_op_modify: "each_op (\<lambda>x. modify (g x)) xs = modify (fold g xs)"
  by (induction xs) (auto simp: thn_def bnd_def ret_def modify_def fun_eq_iff)

subsection \<open>Operations that revert\<close>

text \<open>An operation that fails leaves the state as it was.\<close>

definition reverts :: "('s, 'a) oper \<Rightarrow> bool" where
  "reverts m \<longleftrightarrow> (\<forall>s t e. m s = (t, Err e) \<longrightarrow> t = s)"

lemma reverts_ask: "(\<And>x. reverts (g x)) \<Longrightarrow> reverts (bnd (ask_state f) g)"
  by (auto simp: reverts_def ask_then split: sum.splits)

lemma reverts_guard: "reverts m \<Longrightarrow> reverts (thn (guard b e) m)"
  by (auto simp: reverts_def thn_def bnd_def guard_def require_def split: if_splits)

lemma reverts_atomic: "reverts (atomic m)"
  by (auto simp: reverts_def dest: atomic_Err_state)

subsection \<open>Invariants of operations\<close>

text \<open>
  \<open>keeps I m\<close>: the operation keeps the state predicate on every outcome, the failing ones
  included. The rules follow the combinators, so that an operation is proved to keep an
  invariant by the shape of its definition.
\<close>

definition keeps :: "('s \<Rightarrow> bool) \<Rightarrow> ('s, 'a) oper \<Rightarrow> bool" where
  "keeps I m \<longleftrightarrow> (\<forall>s. I s \<longrightarrow> I (fst (m s)))"

named_theorems keeps_rules "rules for operations that keep an invariant"

lemma keepsI: "(\<And>s. I s \<Longrightarrow> I (fst (m s))) \<Longrightarrow> keeps I m"
  by (simp add: keeps_def)

lemma keepsD: "keeps I m \<Longrightarrow> I s \<Longrightarrow> m s = (t, r) \<Longrightarrow> I t"
  by (auto simp: keeps_def dest!: spec [of _ s])

lemma keeps_after: "keeps I m \<Longrightarrow> m s = (t, r) \<Longrightarrow> I s \<Longrightarrow> I t"
  by (rule keepsD)

text \<open>An operation that does not touch what the predicate reads keeps it.\<close>

lemma keeps_frame:
  assumes "\<And>s. f (fst (m s)) = f s" and "\<And>s t. f t = f s \<Longrightarrow> I s \<Longrightarrow> I t"
  shows "keeps I m"
proof (rule keepsI)
  fix s assume "I s"
  with assms(1) [of s] show "I (fst (m s))" by (rule assms(2))
qed

lemma keeps_ret [keeps_rules, simp]: "keeps I (ret x)"
  by (simp add: keeps_def ret_def)

lemma keeps_throw [keeps_rules, simp]: "keeps I (throw m)"
  by (simp add: keeps_def throw_def)

lemma keeps_ask [keeps_rules, simp]: "keeps I (ask_state f)"
  by (simp add: keeps_def ask_state_def)

lemma keeps_guard [keeps_rules, simp]: "keeps I (guard b m)"
  by (simp add: keeps_def guard_def)

lemma keeps_modify [keeps_rules]: "(\<And>s. I s \<Longrightarrow> I (f s)) \<Longrightarrow> keeps I (modify f)"
  by (simp add: keeps_def modify_def)

lemma keeps_bnd [keeps_rules]:
  assumes "keeps I m" and "\<And>x. keeps I (f x)"
  shows "keeps I (bnd m f)"
proof (rule keepsI)
  fix s assume "I s"
  then have "I (fst (m s))" using assms(1) by (simp add: keeps_def)
  then show "I (fst (bnd m f s))"
    using assms(2) by (auto simp: bnd_def keeps_def split: prod.split sum.split)
qed

text \<open>A read whose outcome the rest of the operation depends on.\<close>

lemma keeps_ask_use:
  "(\<And>x. \<exists>u. I u \<and> f u = Ok x \<Longrightarrow> keeps I (g x)) \<Longrightarrow> keeps I (bnd (ask_state f) g)"
  by (auto simp: keeps_def ask_then split: sum.split)

lemma keeps_thn [keeps_rules]: "keeps I m \<Longrightarrow> keeps I n \<Longrightarrow> keeps I (thn m n)"
  by (simp add: thn_def keeps_bnd)

lemma keeps_atomic [keeps_rules]:
  assumes "keeps I m"
  shows "keeps I (atomic m)"
proof (rule keepsI)
  fix s assume s: "I s"
  then have "I (fst (m s))" using assms by (simp add: keeps_def)
  with s show "I (fst (atomic m s))"
    by (cases "m s"; cases "snd (m s)") (simp_all add: atomic_def)
qed

lemma keeps_when [keeps_rules]: "keeps I m \<Longrightarrow> keeps I (when_op b m)"
  by (simp add: when_op_def)

lemma keeps_if [keeps_rules]: "keeps I m \<Longrightarrow> keeps I n \<Longrightarrow> keeps I (if b then m else n)"
  by simp

lemma keeps_option [keeps_rules]:
  "keeps I m \<Longrightarrow> (\<And>x. keeps I (f x)) \<Longrightarrow> keeps I (case v of None \<Rightarrow> m | Some x \<Rightarrow> f x)"
  by (cases v) simp_all

lemma keeps_sum [keeps_rules]:
  "(\<And>e. keeps I (f e)) \<Longrightarrow> (\<And>x. keeps I (g x)) \<Longrightarrow> keeps I (case r of Inl e \<Rightarrow> f e | Inr x \<Rightarrow> g x)"
  by (cases r) simp_all

lemma keeps_prod [keeps_rules]: "(\<And>a b. keeps I (f a b)) \<Longrightarrow> keeps I (case x of (a, b) \<Rightarrow> f a b)"
  by (cases x) simp

lemma keeps_each [keeps_rules]: "(\<And>x. keeps I (f x)) \<Longrightarrow> keeps I (each_op f xs)"
  by (induction xs) (simp_all add: keeps_thn)

subsection \<open>Triples for successful runs\<close>

text \<open>\<open>yields I m J\<close>: from a state with \<open>I\<close>, a run of \<open>m\<close> that succeeds ends in a state with \<open>J\<close>.\<close>

definition yields :: "('s \<Rightarrow> bool) \<Rightarrow> ('s, 'a) oper \<Rightarrow> ('s \<Rightarrow> bool) \<Rightarrow> bool" where
  "yields I m J = (\<forall>s t x. I s \<longrightarrow> m s = (t, Ok x) \<longrightarrow> J t)"

lemma yieldsI: "(\<And>s t x. I s \<Longrightarrow> m s = (t, Ok x) \<Longrightarrow> J t) \<Longrightarrow> yields I m J"
  by (auto simp: yields_def)

lemma yieldsD: "yields I m J \<Longrightarrow> m s = (t, Ok x) \<Longrightarrow> I s \<Longrightarrow> J t"
  by (auto simp: yields_def)

lemma yields_keeps: "keeps I m \<Longrightarrow> yields I m I"
  by (auto simp: yields_def dest: keepsD)

lemma yields_bnd: "yields I m K \<Longrightarrow> (\<And>x. yields K (f x) J) \<Longrightarrow> yields I (bnd m f) J"
  by (rule yieldsI) (auto simp: bnd_run dest: yieldsD)

lemma yields_bnd_value:
  "(\<And>s t x. I s \<Longrightarrow> m s = (t, Ok x) \<Longrightarrow> K x t) \<Longrightarrow> (\<And>x. yields (K x) (f x) J) \<Longrightarrow> yields I (bnd m f) J"
  unfolding yields_def bnd_run by blast

lemma yields_thn: "yields I m K \<Longrightarrow> yields K n J \<Longrightarrow> yields I (thn m n) J"
  unfolding thn_def by (rule yields_bnd)

lemma yields_modify: "(\<And>s. I s \<Longrightarrow> J (f s)) \<Longrightarrow> yields I (modify f) J"
  by (simp add: yields_def modify_run)

lemma yields_atomic: "yields I m J \<Longrightarrow> yields I (atomic m) J"
  unfolding yields_def by (auto simp: atomic_Ok_iff)

lemma yields_ask: "(\<And>x s. I s \<Longrightarrow> f s = Ok x \<Longrightarrow> I' x s) \<Longrightarrow> (\<And>x. yields (I' x) (g x) J) \<Longrightarrow> yields I (bnd (ask_state f) g) J"
  by (rule yieldsI) (auto simp: bnd_ask_runs dest: yieldsD)

section \<open>Ordered maps\<close>

text \<open>
  A \<^verbatim>\<open>BTreeMap\<close> is the list of its entries in key order; \<open>map_of\<close> looks a key up.
\<close>

type_synonym ('k, 'v) btree = "('k \<times> 'v) list"

fun bt_insert :: "'k::linorder \<Rightarrow> 'v \<Rightarrow> ('k, 'v) btree \<Rightarrow> ('k, 'v) btree" where
  "bt_insert k v [] = [(k, v)]"
| "bt_insert k v ((l, w) # m) =
     (if k < l then (k, v) # (l, w) # m
      else if k = l then (k, v) # m
      else (l, w) # bt_insert k v m)"

definition bt_keys :: "('k, 'v) btree \<Rightarrow> 'k list" where
  "bt_keys m = map fst m"

definition bt_has :: "('k, 'v) btree \<Rightarrow> 'k \<Rightarrow> bool" where
  "bt_has m k = (map_of m k \<noteq> None)"

definition bt_ok :: "('k::linorder, 'v) btree \<Rightarrow> bool" where
  "bt_ok m = sorted_wrt (<) (bt_keys m)"

lemma map_of_bt_insert [simp]: "map_of (bt_insert k v m) = (map_of m)(k \<mapsto> v)"
  by (induction k v m rule: bt_insert.induct) (auto simp: fun_eq_iff)

lemma set_keys_bt_insert [simp]: "set (bt_keys (bt_insert k v m)) = insert k (set (bt_keys m))"
  by (induction k v m rule: bt_insert.induct) (auto simp: bt_keys_def)

lemma bt_ok_insert [simp]: "bt_ok m \<Longrightarrow> bt_ok (bt_insert k v m)"
proof (induction k v m rule: bt_insert.induct)
  case (1 k v)
  then show ?case by (simp add: bt_ok_def bt_keys_def)
next
  case (2 k v l w m)
  have keys: "set (map fst (bt_insert k v m)) = insert k (set (map fst m))"
    using set_keys_bt_insert [of k v m] by (simp add: bt_keys_def)
  show ?case
    using 2 keys by (auto simp: bt_ok_def bt_keys_def)
qed

lemma bt_has_iff: "bt_has m k \<longleftrightarrow> k \<in> set (bt_keys m)"
  by (simp add: bt_has_def bt_keys_def map_of_eq_None_iff)

text \<open>Two ordered maps with the same lookups are the same list.\<close>

lemma bt_ok_unique:
  assumes "bt_ok m" "bt_ok n" "map_of m = map_of n"
  shows "m = n"
proof -
  have sm: "sorted (map fst m)" "distinct (map fst m)"
    and sn: "sorted (map fst n)" "distinct (map fst n)"
    using assms(1,2) by (auto simp: bt_ok_def bt_keys_def strict_sorted_iff)
  have "set m = set n"
  proof (rule set_eqI)
    fix e :: "'a \<times> 'b"
    show "e \<in> set m \<longleftrightarrow> e \<in> set n"
      using map_of_eq_Some_iff [OF sm(2), of "fst e" "snd e"]
        map_of_eq_Some_iff [OF sn(2), of "fst e" "snd e"] assms(3) by simp
  qed
  then show ?thesis
    using map_sorted_distinct_set_unique [of fst m n] sm sn
    by (auto simp: distinct_map)
qed

section \<open>Strings\<close>

text \<open>\<^verbatim>\<open>str::find(pat)\<close>: the text before and after the first occurrence.\<close>

fun find_split :: "string \<Rightarrow> string \<Rightarrow> (string \<times> string) option" where
  "find_split pat [] = (if pat = [] then Some ([], []) else None)"
| "find_split pat (c # s) =
     (if prefix pat (c # s) then Some ([], drop (length pat) (c # s))
      else map_option (\<lambda>(a, b). (c # a, b)) (find_split pat s))"

lemma find_split_Some: "find_split pat s = Some (a, b) \<Longrightarrow> s = a @ pat @ b"
proof (induction pat s arbitrary: a b rule: find_split.induct)
  case (1 pat)
  then show ?case by (auto split: if_splits)
next
  case (2 pat c s)
  then show ?case by (auto simp: prefix_def split: if_splits)
qed

lemma find_split_length:
  "find_split pat s = Some (a, b) \<Longrightarrow> length s = length a + length pat + length b"
  by (drule find_split_Some) simp

text \<open>
  \<^verbatim>\<open>str::replace\<close> for the non-empty patterns the program uses; the text put in is not
  searched again.
\<close>

function str_replace :: "string \<Rightarrow> string \<Rightarrow> string \<Rightarrow> string" where
  "str_replace pat to s =
     (if pat = [] then s
      else case find_split pat s of None \<Rightarrow> s | Some (a, b) \<Rightarrow> a @ to @ str_replace pat to b)"
  by pat_completeness auto
termination
  by (relation "measure (\<lambda>(pat, to, s). length s)") (auto dest: find_split_length)

declare str_replace.simps [simp del]

lemma str_replace_id: "find_split pat s = None \<Longrightarrow> str_replace pat to s = s"
  by (simp add: str_replace.simps [of pat to s])

text \<open>\<^verbatim>\<open>str::rsplit_once(c)\<close>: the text before and after the last occurrence.\<close>

definition rsplit_once :: "char \<Rightarrow> string \<Rightarrow> (string \<times> string) option" where
  "rsplit_once c s =
     (if c \<in> set s
      then Some (rev (tl (dropWhile (\<lambda>x. x \<noteq> c) (rev s))), rev (takeWhile (\<lambda>x. x \<noteq> c) (rev s)))
      else None)"

lemma rsplit_once_Some:
  assumes "rsplit_once c s = Some (a, b)"
  shows "s = a @ c # b \<and> c \<notin> set b"
proof -
  let ?p = "\<lambda>x. x \<noteq> c"
  from assms have c: "c \<in> set (rev s)"
    and a: "a = rev (tl (dropWhile ?p (rev s)))" and b: "b = rev (takeWhile ?p (rev s))"
    by (auto simp: rsplit_once_def split: if_splits)
  from c have ne: "dropWhile ?p (rev s) \<noteq> []"
    by (auto simp: dropWhile_eq_Nil_conv)
  then have "hd (dropWhile ?p (rev s)) = c"
    using hd_dropWhile [of ?p "rev s"] by simp
  with ne have "dropWhile ?p (rev s) = c # tl (dropWhile ?p (rev s))"
    by (cases "dropWhile ?p (rev s)") auto
  then have "rev s = takeWhile ?p (rev s) @ c # tl (dropWhile ?p (rev s))"
    by (metis takeWhile_dropWhile_id)
  then have "s = a @ c # b"
    unfolding a b by (metis rev_append rev_rev_ident rev.simps(2) append.assoc append_Cons append_Nil)
  moreover have "c \<notin> set b"
    unfolding b by (auto dest: set_takeWhileD)
  ultimately show ?thesis by simp
qed

lemma takeWhile_none: "c \<notin> set b \<Longrightarrow> takeWhile (\<lambda>x. x \<noteq> c) (rev b @ c # ys) = rev b"
  by (simp add: takeWhile_append)

lemma rsplit_once_join: "c \<notin> set b \<Longrightarrow> rsplit_once c (a @ c # b) = Some (a, b)"
  by (simp add: rsplit_once_def takeWhile_none dropWhile_append)

text \<open>ASCII white space, as \<^verbatim>\<open>str::trim\<close> removes it.\<close>

definition blank :: "string \<Rightarrow> bool" where
  "blank s = list_all (\<lambda>c. c \<in> {CHR '' '', CHR 0x09, CHR 0x0A, CHR 0x0B, CHR 0x0C, CHR 0x0D}) s"

text \<open>Splitting at a separator and joining.\<close>

fun split_on :: "char \<Rightarrow> string \<Rightarrow> string list" where
  "split_on c [] = [[]]"
| "split_on c (x # s) =
     (if x = c then [] # split_on c s
      else case split_on c s of [] \<Rightarrow> [[x]] | p # ps \<Rightarrow> (x # p) # ps)"

fun join_with :: "string \<Rightarrow> string list \<Rightarrow> string" where
  "join_with sep [] = []"
| "join_with sep [p] = p"
| "join_with sep (p # q # ps) = p @ sep @ join_with sep (q # ps)"

lemma split_on_ne [simp]: "split_on c s \<noteq> []"
  by (induction s) (auto split: list.splits)

lemma split_on_free: "p \<in> set (split_on c s) \<Longrightarrow> c \<notin> set p"
proof (induction s arbitrary: p)
  case Nil
  then show ?case by simp
next
  case (Cons x s)
  then show ?case
    by (auto split: if_splits list.splits)
qed

lemma split_on_append:
  "c \<notin> set p \<Longrightarrow> split_on c (p @ c # s) = p # split_on c s"
  by (induction p) auto

lemma split_on_plain: "c \<notin> set p \<Longrightarrow> split_on c p = [p]"
  by (induction p) auto

lemma split_on_join:
  assumes "ps \<noteq> []" and "\<forall>p \<in> set ps. c \<notin> set p"
  shows "split_on c (join_with [c] ps) = ps"
  using assms
  by (induction "[c]" ps rule: join_with.induct) (auto simp: split_on_append split_on_plain)

lemma split_on_join_append:
  assumes "ps \<noteq> []" and "\<forall>p \<in> set ps. c \<notin> set p"
  shows "split_on c (join_with [c] ps @ c # z) = ps @ split_on c z"
  using assms
  by (induction "[c]" ps rule: join_with.induct) (auto simp: split_on_append split_on_plain)

lemma join_with_append:
  "ps \<noteq> [] \<Longrightarrow> qs \<noteq> [] \<Longrightarrow> join_with sep (ps @ qs) = join_with sep ps @ sep @ join_with sep qs"
proof (induction sep ps rule: join_with.induct)
  case (2 sep p)
  then show ?case by (cases qs) simp_all
qed auto

lemma join_split_on: "join_with [c] (split_on c s) = s"
proof (induction s)
  case Nil
  then show ?case by simp
next
  case (Cons x s)
  then show ?case
    by (cases "split_on c s" rule: list.exhaust; cases "tl (split_on c s)") auto
qed

section \<open>List lemmas shared by the tables\<close>

definition first_row :: "('a \<Rightarrow> bool) \<Rightarrow> 'a list \<Rightarrow> 'a option" where
  "first_row p rows = find p rows"

definition update_rows :: "('a \<Rightarrow> bool) \<Rightarrow> ('a \<Rightarrow> 'a) \<Rightarrow> 'a list \<Rightarrow> 'a list" where
  "update_rows p f rows = map (\<lambda>r. if p r then f r else r) rows"

definition exists_row :: "('a \<Rightarrow> bool) \<Rightarrow> 'a list \<Rightarrow> bool" where
  "exists_row p rows = list_ex p rows"

definition count_rows :: "('a \<Rightarrow> bool) \<Rightarrow> 'a list \<Rightarrow> nat" where
  "count_rows p rows = length (filter p rows)"

lemma first_row_Some: "first_row p rows = Some r \<Longrightarrow> r \<in> set rows \<and> p r"
  by (auto simp: first_row_def find_Some_iff)

lemma first_row_None: "first_row p rows = None \<longleftrightarrow> (\<forall>r \<in> set rows. \<not> p r)"
  by (auto simp: first_row_def find_None_iff)

lemma exists_row_iff: "exists_row p rows \<longleftrightarrow> (\<exists>r \<in> set rows. p r)"
  by (auto simp: exists_row_def list_ex_iff)

lemma exists_update_rows: "(\<And>r. p (f r) = p r) \<Longrightarrow> exists_row p (update_rows q f rows) = exists_row p rows"
  by (induction rows) (auto simp: exists_row_def update_rows_def)

lemma find_key: "distinct (map k xs) \<Longrightarrow> x \<in> set xs \<Longrightarrow> find (\<lambda>y. k y = k x) xs = Some x"
  by (induction xs) (auto simp: image_iff)

lemma find_append_old: "find P xs = Some r \<Longrightarrow> find P (xs @ ys) = Some r"
  by (induction xs) auto

lemma find_append_new: "find P xs = None \<Longrightarrow> P x \<Longrightarrow> find P (xs @ [x]) = Some x"
  by (induction xs) (auto split: if_splits)

lemma set_update_rows:
  "set (update_rows p f rows) = (\<lambda>r. if p r then f r else r) ` set rows"
  by (simp add: update_rows_def)

lemma update_rowsE:
  assumes "r \<in> set (update_rows p f rows)"
  obtains (kept) "r \<in> set rows" "\<not> p r" | (changed) q where "q \<in> set rows" "p q" "r = f q"
  using assms by (auto simp: set_update_rows split: if_splits)

lemma length_update_rows [simp]: "length (update_rows p f rows) = length rows"
  by (simp add: update_rows_def)

lemma map_update_rows:
  "(\<And>r. g (f r) = g r) \<Longrightarrow> map g (update_rows p f rows) = map g rows"
  by (simp add: update_rows_def)

lemma update_rows_none: "\<forall>r \<in> set rows. \<not> p r \<Longrightarrow> update_rows p f rows = rows"
  by (induction rows) (auto simp: update_rows_def)

end
