(* ===== verification/Json.thy ===== *)
theory Json
  imports Prelude
begin

text \<open>
  JSON values as \<^verbatim>\<open>serde_json::Value\<close> has them. An object is an ordered map
  (\<^verbatim>\<open>serde_json::Map\<close> without the preserve-order feature is a
  \<^verbatim>\<open>BTreeMap\<close>), so equal objects are equal lists. Integers and floating point numbers
  are separate constructors, as \<^verbatim>\<open>is_i64\<close> tells them apart.
\<close>

datatype json =
    JNull
  | JBool bool
  | JInt int
  | JFloat rat
  | JStr string
  | JArr "json list"
  | JObj "(string \<times> json) list"

text \<open>Indexing with a key never fails: a missing key and a non-object give null.\<close>

fun jget :: "json \<Rightarrow> string \<Rightarrow> json" where
  "jget (JObj m) k = (case map_of m k of None \<Rightarrow> JNull | Some v \<Rightarrow> v)"
| "jget _ k = JNull"

fun jfield :: "json \<Rightarrow> string \<Rightarrow> json option" where
  "jfield (JObj m) k = map_of m k"
| "jfield _ k = None"

fun as_str :: "json \<Rightarrow> string option" where
  "as_str (JStr s) = Some s"
| "as_str _ = None"

fun as_bool :: "json \<Rightarrow> bool option" where
  "as_bool (JBool b) = Some b"
| "as_bool _ = None"

fun as_i64 :: "json \<Rightarrow> int option" where
  "as_i64 (JInt n) = (if - (2 ^ 63) \<le> n \<and> n < 2 ^ 63 then Some n else None)"
| "as_i64 _ = None"

fun as_u64 :: "json \<Rightarrow> int option" where
  "as_u64 (JInt n) = (if 0 \<le> n \<and> n < 2 ^ 64 then Some n else None)"
| "as_u64 _ = None"

fun as_array :: "json \<Rightarrow> json list option" where
  "as_array (JArr xs) = Some xs"
| "as_array _ = None"

fun as_object :: "json \<Rightarrow> (string \<times> json) list option" where
  "as_object (JObj m) = Some m"
| "as_object _ = None"

definition is_null :: "json \<Rightarrow> bool" where
  "is_null v = (v = JNull)"

definition is_integer :: "json \<Rightarrow> bool" where
  "is_integer v = (case v of JInt n \<Rightarrow> - (2 ^ 63) \<le> n \<and> n < 2 ^ 64 | _ \<Rightarrow> False)"

definition is_number :: "json \<Rightarrow> bool" where
  "is_number v = (case v of JInt _ \<Rightarrow> True | JFloat _ \<Rightarrow> True | _ \<Rightarrow> False)"

text \<open>The \<^verbatim>\<open>json!\<close> macro on an object and assignment to a key of an object.\<close>

definition jobj :: "(string \<times> json) list \<Rightarrow> json" where
  "jobj kvs = JObj (fold (\<lambda>(k, v) m. bt_insert k v m) kvs [])"

fun jset :: "string \<Rightarrow> json \<Rightarrow> json \<Rightarrow> json" where
  "jset k v (JObj m) = JObj (bt_insert k v m)"
| "jset k v JNull = JObj [(k, v)]"
| "jset k v w = w"

fun jremove :: "string \<Rightarrow> json \<Rightarrow> json" where
  "jremove k (JObj m) = JObj (filter (\<lambda>(l, _). l \<noteq> k) m)"
| "jremove k w = w"

definition jstr_opt :: "string option \<Rightarrow> json" where
  "jstr_opt x = (case x of None \<Rightarrow> JNull | Some s \<Rightarrow> JStr s)"

lemma jget_jobj:
  "jget (jobj kvs) k = (case map_of (rev kvs) k of None \<Rightarrow> JNull | Some v \<Rightarrow> v)"
proof -
  have "map_of (fold (\<lambda>(k, v) m. bt_insert k v m) kvs m) = map_of m ++ map_of (rev kvs)" for m
    by (induction kvs arbitrary: m) (auto simp: map_add_def fun_eq_iff split: option.splits)
  from this [of "[]"] show ?thesis by (simp add: jobj_def)
qed

lemma jget_jset_obj [simp]:
  "jget (jset k v (JObj m)) l = (if l = k then v else jget (JObj m) l)"
  by simp

end
