(* ===== verification/Paths.thy ===== *)
theory Paths
  imports Prelude
begin

text \<open>
  Repository-relative paths (src/src/store.rs): \<open>scope\<close> checks and normalises a declared
  path, \<open>overlaps\<close> and \<open>contains\<close> compare two of them as strings. The lemmas relate the
  string comparisons to the component lists of normalised paths, and the locale \<open>path_space\<close>
  states the laws that write ownership needs of a path comparison.
\<close>

section \<open>Components and normalisation\<close>

text \<open>
  \<^verbatim>\<open>Path::components\<close> on Unix: a leading slash is the root component, empty parts and
  single dots disappear, and two dots are the parent component. Returns \<open>None\<close> where the loop
  meets a root or parent component.
\<close>

definition path_parts :: "string \<Rightarrow> string list option" where
  "path_parts path =
     (let parts = filter (\<lambda>p. p \<noteq> [] \<and> p \<noteq> ''.'') (split_on (CHR ''/'') path)
      in if prefix ''/'' path \<or> ''..'' \<in> set parts then None else Some parts)"

definition scope :: "string \<Rightarrow> string result" where
  "scope path =
     (if path = [] then bail ''empty path''
      else case path_parts path of
        None \<Rightarrow> bail ''path must be relative without parent traversal''
      | Some parts \<Rightarrow>
          if parts \<noteq> [] \<and> hd parts = ''.git'' then bail ''.git is reserved''
          else Ok (if parts = [] then ''.'' else join_with ''/'' parts))"

definition overlaps :: "string \<Rightarrow> string \<Rightarrow> bool" where
  "overlaps a b =
     (a = ''.'' \<or> b = ''.'' \<or> a = b \<or> prefix (b @ ''/'') a \<or> prefix (a @ ''/'') b)"

definition contains :: "string \<Rightarrow> string \<Rightarrow> bool" where
  "contains pre path = (pre = ''.'' \<or> path = pre \<or> prefix (pre @ ''/'') path)"

section \<open>Comparisons\<close>

lemma overlaps_refl [simp]: "overlaps a a"
  by (simp add: overlaps_def)

lemma overlaps_sym: "overlaps a b \<longleftrightarrow> overlaps b a"
  by (auto simp: overlaps_def)

lemma overlaps_contains: "overlaps a b \<longleftrightarrow> contains a b \<or> contains b a"
  by (auto simp: overlaps_def contains_def)

lemma contains_refl [simp]: "contains a a"
  by (simp add: contains_def)

lemma contains_root [simp]: "contains ''.'' p"
  by (simp add: contains_def)

lemma prefix_common:
  "prefix a c \<Longrightarrow> prefix b c \<Longrightarrow> prefix a b \<or> prefix b a"
  by (meson prefix_same_cases)

text \<open>Two claims that both cover a path overlap: one of them covers the other.\<close>

lemma contains_common:
  assumes a: "contains a p" and b: "contains b p"
  shows "overlaps a b"
proof -
  have dirs: "prefix (x @ ''/'') (y @ ''/'') \<Longrightarrow> contains x y" for x y :: string
  proof -
    assume "prefix (x @ ''/'') (y @ ''/'')"
    then obtain z where z: "y @ ''/'' = x @ CHR ''/'' # z" by (auto simp: prefix_def)
    show "contains x y"
    proof (cases z rule: rev_cases)
      case Nil
      with z show ?thesis by simp
    next
      case (snoc z' c)
      with z have "y = x @ CHR ''/'' # z'" by simp
      then show ?thesis by (simp add: contains_def prefix_def)
    qed
  qed
  show ?thesis
  proof (cases "a = ''.'' \<or> b = ''.'' \<or> p = a \<or> p = b")
    case True
    with a b show ?thesis by (auto simp: overlaps_contains)
  next
    case False
    with a b have "prefix (a @ ''/'') p" "prefix (b @ ''/'') p"
      by (auto simp: contains_def)
    then have "prefix (a @ ''/'') (b @ ''/'') \<or> prefix (b @ ''/'') (a @ ''/'')"
      by (rule prefix_common)
    with dirs show ?thesis by (auto simp: overlaps_contains)
  qed
qed

lemma contains_of_root: "contains a ''.'' \<Longrightarrow> a = ''.''"
  by (auto simp: contains_def prefix_Cons append_eq_Cons_conv)

lemma contains_trans:
  assumes "contains a b" and "contains b c"
  shows "contains a c"
proof (cases "a = ''.'' \<or> a = b \<or> b = c \<or> b = ''.''")
  case True
  with assms show ?thesis by (auto dest: contains_of_root)
next
  case False
  with assms have ab: "prefix (a @ ''/'') b" and bc: "prefix (b @ ''/'') c"
    by (auto simp: contains_def)
  from bc have "prefix b c" by (rule append_prefixD)
  with ab have "prefix (a @ ''/'') c" by (rule prefix_order.trans)
  then show ?thesis by (simp add: contains_def)
qed

lemma contains_overlaps_down: "contains a b \<Longrightarrow> overlaps b c \<Longrightarrow> overlaps a c"
  using contains_common contains_trans by (auto simp: overlaps_contains)

section \<open>Normalised paths\<close>

definition good_part :: "string \<Rightarrow> bool" where
  "good_part p = (p \<noteq> [] \<and> p \<noteq> ''.'' \<and> p \<noteq> ''..'' \<and> CHR ''/'' \<notin> set p)"

text \<open>The component list of a normalised path; the whole repository is the empty list.\<close>

definition parts_of :: "string \<Rightarrow> string list" where
  "parts_of p = (if p = ''.'' then [] else split_on (CHR ''/'') p)"

definition path_of :: "string list \<Rightarrow> string" where
  "path_of ps = (if ps = [] then ''.'' else join_with ''/'' ps)"

lemma scope_Ok:
  assumes "scope path = Ok q"
  obtains ps where "list_all good_part ps" "q = path_of ps" "ps = [] \<or> hd ps \<noteq> ''.git''"
proof -
  from assms obtain ps where ps: "path_parts path = Some ps"
    and git: "\<not> (ps \<noteq> [] \<and> hd ps = ''.git'')" and q: "q = path_of ps"
    by (auto simp: scope_def path_of_def split: if_splits option.splits)
  have "list_all good_part ps"
    using ps by (auto simp: path_parts_def good_part_def Let_def list_all_iff dest: split_on_free
        split: if_splits)
  with q git show ?thesis by (intro that) auto
qed

lemma join_start:
  assumes "list_all good_part ps" "ps \<noteq> []"
  shows "join_with ''/'' ps \<noteq> []" "\<not> prefix ''/'' (join_with ''/'' ps)"
    "join_with ''/'' ps \<noteq> ''.''"
proof -
  obtain p qs where ps: "ps = p # qs" using assms(2) by (cases ps) auto
  have p: "good_part p" using assms(1) ps by simp
  then obtain c cs where c: "p = c # cs" "c \<noteq> CHR ''/''" by (cases p) (auto simp: good_part_def)
  show "join_with ''/'' ps \<noteq> []" "\<not> prefix ''/'' (join_with ''/'' ps)"
    using c ps by (cases qs; simp)+
  show "join_with ''/'' ps \<noteq> ''.''"
    using p ps by (cases qs) (auto simp: good_part_def append_eq_Cons_conv)
qed

lemma path_parts_join:
  assumes "list_all good_part ps" "ps \<noteq> []"
  shows "path_parts (join_with ''/'' ps) = Some ps"
proof -
  have "split_on (CHR ''/'') (join_with ''/'' ps) = ps"
    using assms by (intro split_on_join) (auto simp: list_all_iff good_part_def)
  moreover have "filter (\<lambda>p. p \<noteq> [] \<and> p \<noteq> ''.'') ps = ps" "''..'' \<notin> set ps"
    using assms(1) by (auto simp: filter_id_conv list_all_iff good_part_def)
  ultimately show ?thesis
    using join_start [OF assms] by (simp add: path_parts_def)
qed

lemma parts_of_path_of:
  assumes "list_all good_part ps"
  shows "parts_of (path_of ps) = ps"
proof (cases "ps = []")
  case True
  then show ?thesis by (simp add: parts_of_def path_of_def)
next
  case False
  have "split_on (CHR ''/'') (join_with ''/'' ps) = ps"
    using assms False by (intro split_on_join) (auto simp: list_all_iff good_part_def)
  with False join_start [OF assms False] show ?thesis
    by (simp add: parts_of_def path_of_def)
qed

lemma scope_path_of:
  assumes "list_all good_part ps" "ps = [] \<or> hd ps \<noteq> ''.git''"
  shows "scope (path_of ps) = Ok (path_of ps)"
proof (cases "ps = []")
  case True
  have "path_parts ''.'' = Some []" by (simp add: path_parts_def)
  with True show ?thesis by (simp add: scope_def path_of_def)
next
  case False
  with assms path_parts_join [OF assms(1) False] join_start [OF assms(1) False] show ?thesis
    by (simp add: scope_def path_of_def)
qed

lemma prefix_join:
  assumes ps: "list_all good_part ps" "ps \<noteq> []" and qs: "list_all good_part qs"
  shows "prefix (join_with ''/'' ps @ ''/'') (join_with ''/'' qs) \<longleftrightarrow>
    (\<exists>rs. rs \<noteq> [] \<and> qs = ps @ rs)"
proof
  assume "prefix (join_with ''/'' ps @ ''/'') (join_with ''/'' qs)"
  then obtain z where z: "join_with ''/'' qs = join_with ''/'' ps @ CHR ''/'' # z"
    by (auto simp: prefix_def)
  then have "qs \<noteq> []" by auto
  with qs have "qs = split_on (CHR ''/'') (join_with ''/'' qs)"
    by (intro split_on_join [symmetric]) (auto simp: list_all_iff good_part_def)
  also have "\<dots> = ps @ split_on (CHR ''/'') z"
    unfolding z using ps by (intro split_on_join_append) (auto simp: list_all_iff good_part_def)
  finally show "\<exists>rs. rs \<noteq> [] \<and> qs = ps @ rs" by auto
next
  assume "\<exists>rs. rs \<noteq> [] \<and> qs = ps @ rs"
  then show "prefix (join_with ''/'' ps @ ''/'') (join_with ''/'' qs)"
    using ps(2) by (auto simp: join_with_append)
qed

lemma contains_path_of:
  assumes "list_all good_part ps" "list_all good_part qs"
  shows "contains (path_of ps) (path_of qs) \<longleftrightarrow> prefix ps qs"
proof (cases "ps = []")
  case True
  then show ?thesis by (simp add: path_of_def)
next
  case ne: False
  have inj: "path_of qs = path_of ps \<longleftrightarrow> qs = ps"
    using parts_of_path_of assms by metis
  have "contains (path_of ps) (path_of qs) \<longleftrightarrow>
      qs = ps \<or> prefix (join_with ''/'' ps @ ''/'') (path_of qs)"
    using ne join_start [OF assms(1) ne] inj by (auto simp: contains_def path_of_def)
  also have "prefix (join_with ''/'' ps @ ''/'') (path_of qs) \<longleftrightarrow> (\<exists>rs. rs \<noteq> [] \<and> qs = ps @ rs)"
  proof (cases "qs = []")
    case True
    have "join_with ''/'' ps @ ''/'' \<noteq> []" "join_with ''/'' ps @ ''/'' \<noteq> ''.''"
      by (auto simp: append_eq_Cons_conv)
    with True ne show ?thesis by (auto simp: path_of_def prefix_Cons)
  next
    case False
    with prefix_join [OF assms(1) ne assms(2)] show ?thesis by (simp add: path_of_def)
  qed
  also have "qs = ps \<or> (\<exists>rs. rs \<noteq> [] \<and> qs = ps @ rs) \<longleftrightarrow> prefix ps qs"
    by (auto simp: prefix_def)
  finally show ?thesis .
qed

section \<open>The interface that write ownership relies on\<close>

text \<open>
  Claims only need to know which paths a claim covers and which claims clash; ownership of a
  path is unique because two claims that cover the same path clash.
\<close>

text \<open>A list of claims (path and owner) is exclusive when clashing claims have one owner.\<close>

definition exclusive :: "('p \<Rightarrow> 'p \<Rightarrow> bool) \<Rightarrow> ('p \<times> 'w) list \<Rightarrow> bool" where
  "exclusive clash cs =
     (\<forall>p v q w. (p, v) \<in> set cs \<longrightarrow> (q, w) \<in> set cs \<longrightarrow> clash p q \<longrightarrow> v = w)"

lemma exclusive_Nil [simp]: "exclusive clash []"
  by (simp add: exclusive_def)

lemma exclusive_subset: "exclusive clash cs \<Longrightarrow> set ds \<subseteq> set cs \<Longrightarrow> exclusive clash ds"
  unfolding exclusive_def by (meson subsetD)

locale path_space =
  fixes covers :: "'p \<Rightarrow> 'p \<Rightarrow> bool"
    and clash :: "'p \<Rightarrow> 'p \<Rightarrow> bool"
  assumes covers_refl: "covers p p"
    and clash_sym: "clash p q \<Longrightarrow> clash q p"
    and covers_clash: "covers p q \<Longrightarrow> clash p q"
    and covers_common: "covers p r \<Longrightarrow> covers q r \<Longrightarrow> clash p q"
    and covers_down: "covers p q \<Longrightarrow> clash q r \<Longrightarrow> clash p r"
begin

lemma exclusive_writer:
  assumes "exclusive clash cs" "(p, v) \<in> set cs" "(q, w) \<in> set cs" "covers p r" "covers q r"
  shows "v = w"
  using assms covers_common [of p r q] unfolding exclusive_def by blast

text \<open>Adding claims of one owner, none of which clashes with a claim of another.\<close>

lemma exclusive_add:
  assumes ex: "exclusive clash cs"
    and free: "\<And>p q v. p \<in> set ps \<Longrightarrow> (q, v) \<in> set cs \<Longrightarrow> clash p q \<Longrightarrow> v = w"
    and sub: "set ds \<subseteq> set cs \<union> (\<lambda>p. (p, w)) ` set ps"
  shows "exclusive clash ds"
  unfolding exclusive_def
proof (intro allI impI)
  fix p v q u
  assume "(p, v) \<in> set ds" "(q, u) \<in> set ds" and cl: "clash p q"
  with sub have "(p, v) \<in> set cs \<or> p \<in> set ps \<and> v = w" "(q, u) \<in> set cs \<or> q \<in> set ps \<and> u = w"
    by auto
  with ex cl free [of p q u] free [of q p v] clash_sym [OF cl] show "v = u"
    unfolding exclusive_def by blast
qed

text \<open>
  Handing the claims below \<open>p\<close> from one owner to another keeps exclusivity when no claim that
  clashes with \<open>p\<close> from above belongs to a third party.
\<close>

lemma exclusive_handover:
  assumes ex: "exclusive clash cs"
    and above: "\<And>q u. (q, u) \<in> set cs \<Longrightarrow> clash p q \<Longrightarrow> \<not> covers p q \<Longrightarrow> u = w"
  shows "exclusive clash (map (\<lambda>(q, u). (q, if u = v \<and> covers p q then w else u)) cs)"
proof -
  have "(if u1 = v \<and> covers p q1 then w else u1) = (if u2 = v \<and> covers p q2 then w else u2)"
    if q1: "(q1, u1) \<in> set cs" and q2: "(q2, u2) \<in> set cs" and cl: "clash q1 q2" for q1 q2 u1 u2
  proof -
    have same: "u1 = u2" using ex q1 q2 cl unfolding exclusive_def by blast
    have c1: "u2 = w" if "covers p q1" "\<not> covers p q2"
      using above [OF q2 covers_down [OF that(1) cl] that(2)] .
    have c2: "u1 = w" if "covers p q2" "\<not> covers p q1"
      using above [OF q1 covers_down [OF that(1) clash_sym [OF cl]] that(2)] .
    show ?thesis
      by (cases "covers p q1"; cases "covers p q2") (simp_all add: same c1 c2 [unfolded same])
  qed
  then show ?thesis by (auto simp: exclusive_def)
qed

end

lemma contains_overlaps: "contains a b \<Longrightarrow> overlaps a b"
  by (simp add: overlaps_contains)

interpretation repo: path_space contains overlaps
proof unfold_locales
  fix p q r :: string
  show "contains p p" by simp
  show "overlaps p q \<Longrightarrow> overlaps q p" using overlaps_sym by blast
  show "contains p q \<Longrightarrow> overlaps p q" by (rule contains_overlaps)
  show "contains p r \<Longrightarrow> contains q r \<Longrightarrow> overlaps p q" by (rule contains_common)
  show "contains p q \<Longrightarrow> overlaps q r \<Longrightarrow> overlaps p r" by (rule contains_overlaps_down)
qed

end
