(* ===== verification/Template.thy ===== *)
theory Template
  imports Json Paths
begin

text \<open>
  Workflow templates (src/src/template.rs): the step and plan records, template expansion with
  its recursion guard (\<open>expand\<close>, \<open>compile\<close>), the validation of a step list
  (\<open>validate\<close>), output references in instructions (\<open>resolve_refs\<close>) and declared
  results (\<open>validate_result\<close>).
\<close>

section \<open>Data\<close>

text \<open>
  src/src/environment.rs. A floating point number is a rational, \<open>None\<close> for the values that
  are not finite.
\<close>

record environment =
  en_docker_context :: "string option"
  en_env_file :: "string option"
  en_runner :: string
  en_start :: "string list"
  en_test :: "string list"
  en_browser_test :: "string option"
  en_ready_url :: string
  en_compose_file :: string
  en_services :: "string list"
  en_ready_service :: "string option"
  en_timeout_seconds :: nat
  en_readiness_seconds :: nat
  en_allow_external_resources :: bool
  en_memory_mb :: nat
  en_cpus :: "rat option"

datatype command_workspace = Worktree | Checkout

record condition =
  c_step :: string
  c_status :: string

record step =
  s_ignored_fields :: "string list"
  s_id :: string
  s_step_budget_seconds :: "nat option"
  s_step_budget_exempt :: bool
  s_role :: string
  s_kind :: string
  s_instructions :: string
  s_acceptance :: "string list"
  s_needs :: "string list"
  s_scope :: "string list"
  s_tools :: "string list"
  s_skills :: "string list"
  s_artifacts :: "string list"
  s_output_types :: "(string, string) btree"
  s_workspace :: "command_workspace option"
  s_command :: "string list"
  s_environment :: "environment option"
  s_template :: "string option"
  s_inputs :: "(string, string) btree"
  s_when :: "condition option"
  s_attempts :: nat

record template =
  t_name :: string
  t_version :: string
  t_inputs :: "string list"
  t_outputs :: "(string, string) btree"
  t_steps :: "step list"

record plan =
  p_warnings :: "string list"
  p_steps :: "step list"
  p_pins :: "(string, string) btree"
  p_outputs :: "(string, string) btree"

text \<open>The values \<^verbatim>\<open>serde\<close> fills in for absent fields.\<close>

definition default_step :: "string \<Rightarrow> step" where
  "default_step i =
     \<lparr>s_ignored_fields = [], s_id = i, s_step_budget_seconds = None,
      s_step_budget_exempt = False, s_role = ''worker'', s_kind = ''agent'',
      s_instructions = [], s_acceptance = [], s_needs = [], s_scope = [], s_tools = [],
      s_skills = [], s_artifacts = [], s_output_types = [], s_workspace = None,
      s_command = [], s_environment = None, s_template = None, s_inputs = [],
      s_when = None, s_attempts = 1\<rparr>"

definition default_environment :: environment where
  "default_environment =
     \<lparr>en_docker_context = None, en_env_file = Some ''.env'', en_runner = ''process'',
      en_start = [], en_test = [], en_browser_test = None,
      en_ready_url = ''http://127.0.0.1:${PORT}/'', en_compose_file = ''compose.yaml'',
      en_services = [], en_ready_service = None, en_timeout_seconds = 1800,
      en_readiness_seconds = 60, en_allow_external_resources = False, en_memory_mb = 2048,
      en_cpus = Some 2\<rparr>"

section \<open>Expansion\<close>

definition step_warnings :: "step list \<Rightarrow> string list" where
  "step_warnings steps =
     map (\<lambda>s. ''step '' @ s_id s @ '': ignored unknown fields: '' @
              join_with '', '' (s_ignored_fields s))
       (filter (\<lambda>s. s_ignored_fields s \<noteq> []) steps)"

definition render :: "string \<Rightarrow> (string, string) btree \<Rightarrow> string" where
  "render s inputs = fold (\<lambda>(k, v) t. str_replace (''{{'' @ k @ ''}}'') v t) inputs s"

text \<open>The copy of a template's step under a prefix, with its inputs filled in.\<close>

definition relocate :: "string \<Rightarrow> (string, string) btree \<Rightarrow> step \<Rightarrow> step" where
  "relocate pre inputs original =
     original\<lparr>
       s_id := pre @ s_id original,
       s_needs := map (\<lambda>n. pre @ n) (s_needs original),
       s_when := map_option (\<lambda>c. c\<lparr>c_step := pre @ c_step c\<rparr>) (s_when original),
       s_instructions := str_replace ''${'' (''${'' @ pre) (render (s_instructions original) inputs),
       s_acceptance := map (\<lambda>x. render x inputs) (s_acceptance original),
       s_command := map (\<lambda>x. str_replace ''${'' (''${'' @ pre) (render x inputs)) (s_command original)\<rparr>"

text \<open>What an inclusion step passes on to each step that its template expanded to.\<close>

definition adopt :: "step \<Rightarrow> step \<Rightarrow> step" where
  "adopt s child =
     child\<lparr>
       s_step_budget_seconds :=
         (if s_step_budget_exempt child then s_step_budget_seconds child
          else case s_step_budget_seconds child of
            Some n \<Rightarrow> Some n | None \<Rightarrow> s_step_budget_seconds s),
       s_skills :=
         (if s_kind child = ''agent'' then remdups_adj (sort (s_skills child @ s_skills s))
          else s_skills child),
       s_needs := (if s_needs child = [] then s_needs s else s_needs child)\<rparr>"

definition apply_aliases :: "(string, string list) btree \<Rightarrow> step \<Rightarrow> step" where
  "apply_aliases aliases s =
     s\<lparr>s_needs := concat (map (\<lambda>n. case map_of aliases n of None \<Rightarrow> [n] | Some e \<Rightarrow> e) (s_needs s))\<rparr>"

definition add_output ::
  "string \<Rightarrow> step list \<Rightarrow> (string, string list) btree \<Rightarrow> (string, string) btree \<Rightarrow>
    string \<Rightarrow> string \<Rightarrow> (string, string) btree result" where
  "add_output pre own aliases outputs k v =
     (case rsplit_once (CHR ''.'') v of
        None \<Rightarrow> bail ''output must reference step.field''
      | Some (st, field) \<Rightarrow>
          let i = pre @ st in
          if \<not> list_ex (\<lambda>s. s_id s = i) own \<and> \<not> bt_has aliases i
          then bail ''unknown output step''
          else
            let target = (case map_of aliases i of
                Some e \<Rightarrow> if e = [] then i else last e | None \<Rightarrow> i)
            in Ok (bt_insert (pre @ k) (target @ ''.'' @ field) outputs))"

fun add_outputs ::
  "string \<Rightarrow> step list \<Rightarrow> (string, string list) btree \<Rightarrow> (string, string) btree \<Rightarrow>
    (string \<times> string) list \<Rightarrow> (string, string) btree result" where
  "add_outputs pre own aliases outputs [] = Ok outputs"
| "add_outputs pre own aliases outputs ((k, v) # rest) =
     (case add_output pre own aliases outputs k v of
        Inl e \<Rightarrow> Inl e
      | Inr outputs' \<Rightarrow> add_outputs pre own aliases outputs' rest)"

text \<open>
  The part of \<^verbatim>\<open>expand\<close> after its loop: dependencies on an inclusion become
  dependencies on the ends of its expansion, the ends of this template are the steps that no
  step of it needs, and the outputs are recorded under the prefix.
\<close>

definition finish_expand ::
  "template \<Rightarrow> string \<Rightarrow> nat \<Rightarrow> plan \<Rightarrow> (string, string list) btree \<Rightarrow> (plan \<times> string list) result" where
  "finish_expand t pre start plan aliases =
     (let own = map (apply_aliases aliases) (drop start (p_steps plan));
          referenced = concat (map s_needs own);
          ends = map s_id (filter (\<lambda>s. s_id s \<notin> set referenced) own)
      in case add_outputs pre own aliases (p_outputs plan) (t_outputs t) of
           Inl e \<Rightarrow> Inl e
         | Inr outputs \<Rightarrow>
             Ok (plan\<lparr>p_steps := take start (p_steps plan) @ own, p_outputs := outputs\<rparr>, ends))"

text \<open>
  \<open>digest\<close> stands for the SHA-256 of the serialised template. The stack holds the names of
  the templates being expanded; a name on it is refused, which is why the recursion ends.
\<close>

function expand ::
    "(template \<Rightarrow> string) \<Rightarrow> (string, template) btree \<Rightarrow> string \<Rightarrow> string \<Rightarrow>
      (string, string) btree \<Rightarrow> string list \<Rightarrow> plan \<Rightarrow> (plan \<times> string list) result"
  and expand_steps ::
    "(template \<Rightarrow> string) \<Rightarrow> (string, template) btree \<Rightarrow> string \<Rightarrow> (string, string) btree \<Rightarrow>
      string list \<Rightarrow> step list \<Rightarrow> plan \<Rightarrow> (string, string list) btree \<Rightarrow>
      (plan \<times> (string, string list) btree) result" where
  "expand digest all name pre inputs stack plan =
     (if name \<in> set stack then bail ''recursive template inclusion''
      else case map_of all name of
        None \<Rightarrow> bail ''unknown template''
      | Some t \<Rightarrow>
          if list_ex (\<lambda>i. \<not> bt_has inputs i) (t_inputs t) then bail ''missing input''
          else
            let plan0 = plan\<lparr>
                  p_pins := bt_insert (name @ ''@'' @ t_version t) (digest t) (p_pins plan),
                  p_warnings := p_warnings plan @
                    map (\<lambda>w. ''template '' @ name @ '': '' @ w) (step_warnings (t_steps t))\<rparr>
            in case expand_steps digest all pre inputs (stack @ [name]) (t_steps t) plan0 [] of
                 Inl e \<Rightarrow> Inl e
               | Inr (plan1, aliases) \<Rightarrow>
                   finish_expand t pre (length (p_steps plan)) plan1 aliases)"
| "expand_steps digest all pre inputs stack [] plan aliases = Ok (plan, aliases)"
| "expand_steps digest all pre inputs stack (original # rest) plan aliases =
     (let s = relocate pre inputs original in
      case s_template s of
        None \<Rightarrow>
          expand_steps digest all pre inputs stack rest
            (plan\<lparr>p_steps := p_steps plan @ [s]\<rparr>) aliases
      | Some nested \<Rightarrow>
          if s_workspace s \<noteq> None
          then bail ''set workspace on the command inside the nested template''
          else if s_step_budget_exempt s
          then bail ''set step_budget_exempt on command steps, not template inclusions''
          else if s_when s \<noteq> None
          then bail ''put conditional execution on child steps, not template inclusion''
          else
            (case expand digest all nested (s_id s @ ''.'')
                    (map (\<lambda>(k, v). (k, render v inputs)) (s_inputs s)) stack plan of
               Inl e \<Rightarrow> Inl e
             | Inr (plan', ends) \<Rightarrow>
                 expand_steps digest all pre inputs stack rest
                   (plan'\<lparr>p_steps := take (length (p_steps plan)) (p_steps plan') @
                      map (adopt s) (drop (length (p_steps plan)) (p_steps plan'))\<rparr>)
                   (bt_insert (s_id s) ends aliases)))"
  by pat_completeness auto

termination
proof (relation "measures [
    \<lambda>x. case x of Inl (_, all, _, _, _, stack, _) \<Rightarrow> card (fst ` set all - set stack)
      | Inr (_, all, _, _, stack, _, _, _) \<Rightarrow> card (fst ` set all - set stack),
    \<lambda>x. case x of Inl _ \<Rightarrow> 0 | Inr (_, _, _, _, _, steps, _, _) \<Rightarrow> Suc (length steps)]",
    goal_cases)
  case 1
  then show ?case by simp
next
  case (2 digest all name pre inputs stack plan t)
  have "name \<in> fst ` set all" using 2(2) by (force dest: map_of_SomeD)
  with 2(1) have "card (fst ` set all - set (stack @ [name])) < card (fst ` set all - set stack)"
    by (intro psubset_card_mono) auto
  then show ?case by simp
qed auto

declare expand.simps [simp del] expand_steps.simps [simp del]

definition rename_refs :: "(string, string) btree \<Rightarrow> step \<Rightarrow> step" where
  "rename_refs outputs s =
     (let sub = fold (\<lambda>(a, target) x. str_replace (''${'' @ a @ ''}'') (''${'' @ target @ ''}'') x) outputs
      in s\<lparr>s_instructions := sub (s_instructions s), s_command := map sub (s_command s)\<rparr>)"

section \<open>Validation\<close>

text \<open>\<^verbatim>\<open>Environment::validate\<close>.\<close>

definition validate_environment :: "environment \<Rightarrow> unit result" where
  "validate_environment e =
     and_then (require (en_runner e \<in> {''process'', ''compose''}) ''unsupported app runner'') (\<lambda>_.
     and_then (require (en_timeout_seconds e > 0 \<and> en_timeout_seconds e \<le> 86400 \<and>
        en_readiness_seconds e > 0 \<and> en_readiness_seconds e \<le> en_timeout_seconds e)
        ''invalid app timeout'') (\<lambda>_.
     and_then (require (en_test e \<noteq> []) ''environment requires a test command'') (\<lambda>_.
     and_then (case en_browser_test e of None \<Rightarrow> Ok () | Some path \<Rightarrow>
        and_then (scope path) (\<lambda>_. Ok ())) (\<lambda>_.
     and_then (require (en_runner e \<noteq> ''process'' \<or> en_start e \<noteq> [])
        ''process environment requires a start command'') (\<lambda>_.
     and_then (require (en_memory_mb e \<ge> 64 \<and>
        (case en_cpus e of None \<Rightarrow> False | Some q \<Rightarrow> q > 0))
        ''invalid environment resource limits'') (\<lambda>_.
     and_then (scope (en_compose_file e)) (\<lambda>_. Ok ())))))))"

definition step_kinds :: "string list" where
  "step_kinds = [''agent'', ''command'', ''delivery'', ''simulated'', ''environment'']"

definition output_type_names :: "string list" where
  "output_type_names =
     [''string'', ''number'', ''integer'', ''boolean'', ''array'', ''object'', ''null'']"

definition builtin_fields :: "string list" where
  "builtin_fields = [''result'', ''accepted'', ''artifacts'', ''usage'', ''integration'',
     ''events_artifact'', ''latency_ms'', ''process'']"

text \<open>One output reference: the text between the braces.\<close>

definition check_ref :: "step list \<Rightarrow> step \<Rightarrow> string \<Rightarrow> unit result" where
  "check_ref steps s key =
     (case rsplit_once (CHR ''.'') key of
        None \<Rightarrow> bail ''output reference must be step.field''
      | Some (st, field) \<Rightarrow>
          if field = [] \<or> st \<notin> set (s_needs s)
          then bail ''output reference must name a direct dependency''
          else case find (\<lambda>r. s_id r = st) steps of
              None \<Rightarrow> bail ''output step''
            | Some producer \<Rightarrow>
                if field \<notin> set builtin_fields \<and> \<not> bt_has (s_output_types producer) field
                then bail ''undeclared output''
                else Ok ())"

text \<open>The scan over one text; both validation and substitution walk it the same way.\<close>

function check_refs :: "step list \<Rightarrow> step \<Rightarrow> string \<Rightarrow> unit result" where
  "check_refs steps s rest =
     (case find_split ''${'' rest of
        None \<Rightarrow> Ok ()
      | Some (_, after) \<Rightarrow>
          (case find_split ''}'' after of
             None \<Rightarrow> bail ''unterminated output reference''
           | Some (key, rest') \<Rightarrow>
               (case check_ref steps s key of
                  Inl e \<Rightarrow> Inl e
                | Inr _ \<Rightarrow> check_refs steps s rest')))"
  by pat_completeness auto
termination
  by (relation "measure (\<lambda>(steps, s, rest). length rest)") (auto dest!: find_split_length)

declare check_refs.simps [simp del]

text \<open>
  The body of the loop of \<^verbatim>\<open>validate\<close> for one step; \<open>seen\<close> are the ids of the
  steps before it.
\<close>

definition validate_step :: "step list \<Rightarrow> string list \<Rightarrow> step \<Rightarrow> unit result" where
  "validate_step steps seen s =
     and_then (require (s_id s \<notin> set seen) ''id: duplicate step id'') (\<lambda>_.
     and_then (require (s_id s \<noteq> []) ''id: must not be empty'') (\<lambda>_.
     and_then (require (\<not> (s_attempts s = 0 \<or> s_attempts s > 20))
        ''attempts: must be between 1 and 20'') (\<lambda>_.
     and_then (require (s_kind s \<in> set step_kinds) ''kind: unknown kind'') (\<lambda>_.
     and_then (require (\<not> (s_workspace s \<noteq> None \<and>
        (s_kind s \<noteq> ''command'' \<or> s_environment s \<noteq> None \<or> s_template s \<noteq> None)))
        ''workspace: only plain command steps can select a workspace'') (\<lambda>_.
     and_then (case s_environment s of None \<Rightarrow> Ok () | Some e \<Rightarrow> validate_environment e) (\<lambda>_.
     and_then (require (\<not> (s_step_budget_exempt s \<and> s_kind s \<noteq> ''command''))
        ''step_budget_exempt: only command steps can opt out of the progress budget'') (\<lambda>_.
     and_then (require (\<not> (s_step_budget_exempt s \<and> s_step_budget_seconds s \<noteq> None))
        ''choose step_budget_exempt or step_budget_seconds, not both'') (\<lambda>_.
     and_then (require (s_step_budget_seconds s \<noteq> Some 0)
        ''step_budget_seconds: must be positive'') (\<lambda>_.
     and_then (require (\<not> (s_kind s = ''environment'' \<and> s_environment s = None))
        ''environment: environment step requires environment configuration'') (\<lambda>_.
     and_then (each_result (check_refs steps s) (s_instructions s # s_command s)) (\<lambda>_.
     and_then (require (list_all (\<lambda>(_, ty). ty \<in> set output_type_names) (s_output_types s))
        ''output_types: unknown output type'') (\<lambda>_.
     and_then (each_result (\<lambda>p. and_then (scope p) (\<lambda>_. Ok ())) (s_scope s)) (\<lambda>_.
     and_then (require (list_all (\<lambda>n. n \<in> s_id ` set steps) (s_needs s))
        ''needs: unknown dependency'') (\<lambda>_.
     (case s_when s of None \<Rightarrow> Ok () | Some c \<Rightarrow>
        require (c_step c \<in> set (s_needs s) \<and>
          c_status c \<in> {''succeeded'', ''failed'', ''skipped''})
          ''when: condition must reference a dependency and terminal status'')))))))))))))))"

definition at_step :: "nat \<Rightarrow> 'a result \<Rightarrow> 'a result" where
  "at_step i r = (case r of Inl (Bail m) \<Rightarrow> Inl (Bail_at i m) | _ \<Rightarrow> r)"

fun validate_steps :: "step list \<Rightarrow> nat \<Rightarrow> string list \<Rightarrow> step list \<Rightarrow> unit result" where
  "validate_steps steps i seen [] = Ok ()"
| "validate_steps steps i seen (s # rest) =
     and_then (at_step i (validate_step steps seen s)) (\<lambda>_.
       validate_steps steps (Suc i) (s_id s # seen) rest)"

text \<open>
  The dependency sweep: one pass marks, in list order, every step whose dependencies are all
  marked, and sees the marks it has just made; passes repeat until all steps are marked or a
  pass marks nothing. \<open>done\<close> is the set of marked ids in the order they were added.
\<close>

definition mark :: "step \<Rightarrow> string list \<Rightarrow> string list" where
  "mark s dn =
     (if list_all (\<lambda>n. n \<in> set dn) (s_needs s) \<and> s_id s \<notin> set dn then dn @ [s_id s] else dn)"

definition sweep :: "step list \<Rightarrow> string list \<Rightarrow> string list" where
  "sweep steps dn = fold mark steps dn"

lemma sweep_extends:
  "\<exists>new. sweep steps dn = dn @ new \<and> set new \<subseteq> s_id ` set steps \<and> set new \<inter> set dn = {} \<and> distinct new"
proof (induction steps arbitrary: dn)
  case Nil
  then show ?case by (simp add: sweep_def)
next
  case (Cons s steps)
  let ?d = "mark s dn"
  obtain new where new: "sweep steps ?d = ?d @ new" "set new \<subseteq> s_id ` set steps"
      "set new \<inter> set ?d = {}" "distinct new"
    using Cons [of ?d] by auto
  show ?case
  proof (cases "?d = dn")
    case True
    with new show ?thesis by (auto simp: sweep_def)
  next
    case False
    then have "?d = dn @ [s_id s]" "s_id s \<notin> set dn" by (auto simp: mark_def split: if_splits)
    with new show ?thesis by (intro exI [of _ "s_id s # new"]) (auto simp: sweep_def)
  qed
qed

function sweep_all :: "step list \<Rightarrow> string list \<Rightarrow> unit result" where
  "sweep_all steps dn =
     (let dn' = sweep steps dn in
      if length dn' = length steps then Ok ()
      else if length dn = length dn' then bail ''workflow dependency cycle''
      else sweep_all steps dn')"
  by pat_completeness auto
termination
proof (relation "measure (\<lambda>(steps, dn). card (s_id ` set steps - set dn))", goal_cases)
  case 1
  then show ?case by simp
next
  case (2 steps dn dn')
  obtain new where new: "dn' = dn @ new" "set new \<subseteq> s_id ` set steps" "set new \<inter> set dn = {}"
    using sweep_extends [of steps dn] 2(1) by auto
  with 2(3) have "new \<noteq> []" by auto
  then obtain x where x: "x \<in> set new" by (cases new) auto
  with new have "s_id ` set steps - set dn' \<subset> s_id ` set steps - set dn" by auto
  then show ?case by (simp add: psubset_card_mono)
qed

declare sweep_all.simps [simp del]

definition validate :: "step list \<Rightarrow> unit result" where
  "validate steps =
     (if steps = [] then bail ''workflow must contain steps''
      else and_then (validate_steps steps 0 [] steps) (\<lambda>_. sweep_all steps []))"

definition empty_plan :: plan where
  "empty_plan = \<lparr>p_warnings = [], p_steps = [], p_pins = [], p_outputs = []\<rparr>"

text \<open>\<^verbatim>\<open>compile\<close>: expand, rewrite references to output aliases, validate.\<close>

definition compile ::
  "(template \<Rightarrow> string) \<Rightarrow> string \<Rightarrow> (string, template) btree \<Rightarrow> (string, string) btree \<Rightarrow> plan result" where
  "compile digest name templates inputs =
     and_then (expand digest templates name [] inputs [] empty_plan) (\<lambda>(plan, _).
       let plan' = plan\<lparr>p_steps := map (rename_refs (p_outputs plan)) (p_steps plan)\<rparr>
       in and_then (validate (p_steps plan')) (\<lambda>_. Ok plan'))"

section \<open>References and results at run time\<close>

text \<open>
  \<open>to_text\<close> is the JSON text of a value that is not a string
  (\<^verbatim>\<open>serde_json::Value::to_string\<close>).
\<close>

function resolve_refs ::
  "(json \<Rightarrow> string) \<Rightarrow> string \<Rightarrow> (string, json) btree \<Rightarrow> string result" where
  "resolve_refs to_text rest outputs =
     (case find_split ''${'' rest of
        None \<Rightarrow> Ok rest
      | Some (before, after) \<Rightarrow>
          (case find_split ''}'' after of
             None \<Rightarrow> bail ''unterminated output reference''
           | Some (key, rest') \<Rightarrow>
               (case map_of outputs key of
                  None \<Rightarrow> bail ''missing output''
                | Some value \<Rightarrow>
                    (case resolve_refs to_text rest' outputs of
                       Inl e \<Rightarrow> Inl e
                     | Inr tail \<Rightarrow>
                         Ok (before @ (case as_str value of Some t \<Rightarrow> t | None \<Rightarrow> to_text value) @ tail)))))"
  by pat_completeness auto
termination
  by (relation "measure (\<lambda>(to_text, rest, outputs). length rest)") (auto dest!: find_split_length)

declare resolve_refs.simps [simp del]

text \<open>
  The outputs a step may refer to (runtime.rs, the preparation of an attempt): of the rows of the
  task's steps, a name and the text of its result, those the step needs are read and every field
  of an object result is entered as \<open>name.field\<close>. \<open>parse\<close> reads JSON
  (\<^verbatim>\<open>serde_json::from_str\<close>).
\<close>

fun enter_fields :: "string \<Rightarrow> (string \<times> json) list \<Rightarrow> (string, json) btree \<Rightarrow> (string, json) btree" where
  "enter_fields name [] outputs = outputs"
| "enter_fields name ((k, v) # kvs) outputs =
     enter_fields name kvs (bt_insert (name @ ''.'' @ k) v outputs)"

fun step_outputs ::
  "(string \<Rightarrow> json result) \<Rightarrow> step \<Rightarrow> (string \<times> string option) list \<Rightarrow> (string, json) btree \<Rightarrow>
    (string, json) btree result" where
  "step_outputs parse s [] outputs = Ok outputs"
| "step_outputs parse s ((name, res) # rows) outputs =
     (if name \<notin> set (s_needs s) then step_outputs parse s rows outputs
      else case res of
          None \<Rightarrow> step_outputs parse s rows outputs
        | Some raw \<Rightarrow> and_then (parse raw) (\<lambda>v.
            step_outputs parse s rows
              (case as_object v of None \<Rightarrow> outputs | Some m \<Rightarrow> enter_fields name m outputs)))"

text \<open>The substitution into the instructions and then into every argument of the command.\<close>

fun resolve_all :: "(json \<Rightarrow> string) \<Rightarrow> string list \<Rightarrow> (string, json) btree \<Rightarrow> string list result" where
  "resolve_all to_text [] outputs = Ok []"
| "resolve_all to_text (arg # args) outputs =
     and_then (resolve_refs to_text arg outputs) (\<lambda>a.
     and_then (resolve_all to_text args outputs) (\<lambda>bs. Ok (a # bs)))"

definition resolve_step :: "(json \<Rightarrow> string) \<Rightarrow> step \<Rightarrow> (string, json) btree \<Rightarrow> step result" where
  "resolve_step to_text s outputs =
     and_then (resolve_refs to_text (s_instructions s) outputs) (\<lambda>instructions.
     and_then (resolve_all to_text (s_command s) outputs) (\<lambda>args.
     Ok (s\<lparr>s_instructions := instructions, s_command := args\<rparr>)))"

definition has_type :: "json \<Rightarrow> string \<Rightarrow> bool" where
  "has_type v ty =
     (if ty = ''string'' then as_str v \<noteq> None
      else if ty = ''number'' then is_number v
      else if ty = ''integer'' then is_integer v
      else if ty = ''boolean'' then as_bool v \<noteq> None
      else if ty = ''array'' then as_array v \<noteq> None
      else if ty = ''object'' then as_object v \<noteq> None
      else if ty = ''null'' then is_null v
      else False)"

definition validate_result :: "step \<Rightarrow> json \<Rightarrow> unit result" where
  "validate_result s res =
     each_result (\<lambda>(name, ty).
       case jfield res name of
         None \<Rightarrow> bail ''missing declared output''
       | Some v \<Rightarrow> if has_type v ty then Ok () else bail ''output must be''
       ) (s_output_types s)"

end
