(* ===== verification/Template_Facts.thy ===== *)
theory Template_Facts
  imports Template
begin

text \<open>
  What template compilation promises: an accepted step list has an execution order, the
  expansion only appends steps under its prefix and never includes a template inside itself,
  and references that validation accepted resolve at run time.
\<close>

section \<open>The dependency sweep decides acyclicity\<close>

definition depends :: "step list \<Rightarrow> (string \<times> string) set" where
  "depends steps = {(n, i). \<exists>s \<in> set steps. s_id s = i \<and> n \<in> set (s_needs s)}"

definition closed_needs :: "step list \<Rightarrow> bool" where
  "closed_needs steps = (\<forall>s \<in> set steps. set (s_needs s) \<subseteq> s_id ` set steps)"

text \<open>An order in which every step comes after all its dependencies.\<close>

definition execution_order :: "step list \<Rightarrow> string list \<Rightarrow> bool" where
  "execution_order steps ord =
     (distinct ord \<and> set ord \<subseteq> s_id ` set steps \<and>
      (\<forall>k < length ord. \<exists>s \<in> set steps. s_id s = ord ! k \<and> set (s_needs s) \<subseteq> set (take k ord)))"

lemma execution_order_mark:
  assumes "execution_order steps dn" "s \<in> set steps"
  shows "execution_order steps (mark s dn)"
proof (cases "mark s dn = dn")
  case True
  with assms show ?thesis by simp
next
  case False
  then have m: "mark s dn = dn @ [s_id s]" "set (s_needs s) \<subseteq> set dn" "s_id s \<notin> set dn"
    by (auto simp: mark_def list_all_iff split: if_splits)
  have "\<exists>r \<in> set steps. s_id r = (dn @ [s_id s]) ! k \<and>
      set (s_needs r) \<subseteq> set (take k (dn @ [s_id s]))" if "k < Suc (length dn)" for k
    using that assms m(2) by (cases "k = length dn") (auto simp: execution_order_def nth_append)
  with assms m show ?thesis by (auto simp: execution_order_def)
qed

lemma execution_order_sweep:
  assumes "execution_order steps dn" "set rest \<subseteq> set steps"
  shows "execution_order steps (fold mark rest dn)"
  using assms by (induction rest arbitrary: dn) (auto simp: execution_order_mark)

lemma execution_order_Nil [simp]: "execution_order steps []"
  by (simp add: execution_order_def)

lemma sweep_all_Ok_order:
  "sweep_all steps dn = Ok () \<Longrightarrow> execution_order steps dn \<Longrightarrow>
    \<exists>ord. execution_order steps ord \<and> length ord = length steps"
proof (induction steps dn rule: sweep_all.induct)
  case (1 steps dn)
  have ord: "execution_order steps (sweep steps dn)"
    using execution_order_sweep [OF 1(3)] by (simp add: sweep_def)
  show ?case
    using 1 ord by (auto simp: sweep_all.simps [of steps dn] Let_def split: if_splits)
qed

lemma sweep_stuck:
  assumes "fold mark rest dn = dn" "s \<in> set rest"
  shows "mark s dn = dn"
  using assms
proof (induction rest)
  case Nil
  then show ?case by simp
next
  case (Cons r rest)
  obtain new where new: "fold mark rest (mark r dn) = mark r dn @ new"
    using sweep_extends [of rest "mark r dn"] by (auto simp: sweep_def)
  then have len: "length (fold mark rest (mark r dn)) \<ge> length (mark r dn)" by simp
  have "mark r dn = dn"
  proof (rule ccontr)
    assume "mark r dn \<noteq> dn"
    then have "length (mark r dn) = Suc (length dn)" by (auto simp: mark_def split: if_splits)
    with len Cons.prems show False by simp
  qed
  with Cons show ?case by auto
qed

lemma acyclic_not_stuck:
  assumes ac: "acyclic (depends steps)" and cl: "closed_needs steps"
    and stuck: "sweep steps dn = dn" and sub: "set dn \<subseteq> s_id ` set steps"
  shows "set dn = s_id ` set steps"
proof (rule ccontr)
  assume "set dn \<noteq> s_id ` set steps"
  with sub obtain x where x: "x \<in> s_id ` set steps - set dn" by auto
  have "depends steps \<subseteq> (\<Union>s \<in> set steps. set (s_needs s) \<times> {s_id s})"
    by (auto simp: depends_def)
  then have "finite (depends steps)" by (rule finite_subset) auto
  then have wf: "wf (depends steps)" using ac by (rule finite_acyclic_wf)
  obtain i where i: "i \<in> s_id ` set steps - set dn"
    and least: "\<And>n. (n, i) \<in> depends steps \<Longrightarrow> n \<notin> s_id ` set steps - set dn"
    using wfE_min [OF wf x] by metis
  then obtain s where s: "s \<in> set steps" "s_id s = i" by auto
  have "set (s_needs s) \<subseteq> set dn"
    using least cl s by (force simp: depends_def closed_needs_def)
  with i s have "mark s dn \<noteq> dn" by (auto simp: mark_def list_all_iff)
  moreover have "mark s dn = dn" using sweep_stuck stuck s by (simp add: sweep_def)
  ultimately show False by simp
qed

lemma sweep_all_acyclic:
  "acyclic (depends steps) \<Longrightarrow> closed_needs steps \<Longrightarrow> distinct (map s_id steps) \<Longrightarrow>
    set dn \<subseteq> s_id ` set steps \<Longrightarrow> distinct dn \<Longrightarrow> sweep_all steps dn = Ok ()"
proof (induction steps dn rule: sweep_all.induct)
  case (1 steps dn)
  obtain new where new: "sweep steps dn = dn @ new" "set new \<subseteq> s_id ` set steps"
      "set new \<inter> set dn = {}" "distinct new"
    using sweep_extends [of steps dn] by auto
  show ?case
  proof (cases "length dn = length (sweep steps dn)")
    case True
    with new have "sweep steps dn = dn" by simp
    then have "set dn = s_id ` set steps"
      using acyclic_not_stuck [OF 1(2,3)] 1(5) by blast
    then have "length dn = length steps"
      using 1(4,6) by (metis distinct_card length_map list.set_map)
    with True show ?thesis by (simp add: sweep_all.simps [of steps dn])
  next
    case False
    with 1 new show ?thesis
      by (auto simp: sweep_all.simps [of steps dn] Let_def)
  qed
qed

lemma execution_order_full:
  assumes ord: "execution_order steps ord" and len: "length ord = length steps"
    and dist: "distinct (map s_id steps)"
  shows "set ord = s_id ` set steps"
proof (rule card_subset_eq)
  show "set ord \<subseteq> s_id ` set steps" using ord by (simp add: execution_order_def)
  show "card (set ord) = card (s_id ` set steps)"
    using ord len dist by (metis distinct_card execution_order_def length_map list.set_map)
qed simp

lemma execution_order_acyclic:
  assumes ord: "execution_order steps ord" and len: "length ord = length steps"
    and dist: "distinct (map s_id steps)"
  shows "acyclic (depends steps)"
proof -
  have set_ord: "set ord = s_id ` set steps"
    using ord len dist by (rule execution_order_full)
  define pos where "pos x = (LEAST k. k < length ord \<and> ord ! k = x)" for x
  have pos_le: "pos (ord ! k) \<le> k" if "k < length ord" for k
    unfolding pos_def using that by (intro Least_le) auto
  have "pos n < pos i" if "(n, i) \<in> depends steps" for n i
  proof -
    from that obtain s where s: "s \<in> set steps" "s_id s = i" "n \<in> set (s_needs s)"
      by (auto simp: depends_def)
    then have "\<exists>k. k < length ord \<and> ord ! k = i"
      using set_ord by (metis imageI in_set_conv_nth)
    then have k: "pos i < length ord" "ord ! pos i = i"
      unfolding pos_def by (metis (mono_tags, lifting) LeastI_ex)+
    then obtain r where r: "r \<in> set steps" "s_id r = i" "set (s_needs r) \<subseteq> set (take (pos i) ord)"
      using ord by (auto simp: execution_order_def)
    have "r = s" using dist r s by (metis distinct_map inj_onD)
    with r s have "n \<in> set (take (pos i) ord)" by auto
    then obtain j where "j < length (take (pos i) ord)" "take (pos i) ord ! j = n"
      unfolding in_set_conv_nth by blast
    then have "j < pos i" "j < length ord" "ord ! j = n" by auto
    with pos_le [of j] show "pos n < pos i" by auto
  qed
  then have "depends steps \<subseteq> measure pos" by auto
  then show ?thesis by (metis wf_acyclic wf_measure wf_subset)
qed

section \<open>What a validated step list satisfies\<close>

lemma at_step_Ok [simp]: "at_step i r = Ok x \<longleftrightarrow> r = Ok x"
  by (cases r) (simp_all add: at_step_def split: error.split)

definition step_facts :: "step list \<Rightarrow> step \<Rightarrow> bool" where
  "step_facts steps s =
     (s_id s \<noteq> [] \<and> 1 \<le> s_attempts s \<and> s_attempts s \<le> 20 \<and> s_kind s \<in> set step_kinds \<and>
      set (s_needs s) \<subseteq> s_id ` set steps \<and>
      (\<forall>t \<in> set (s_instructions s # s_command s). check_refs steps s t = Ok ()) \<and>
      (\<forall>p \<in> set (s_scope s). \<exists>q. scope p = Ok q) \<and>
      (s_step_budget_exempt s \<longrightarrow> s_kind s = ''command'' \<and> s_step_budget_seconds s = None) \<and>
      (\<forall>c. s_when s = Some c \<longrightarrow> c_step c \<in> set (s_needs s)))"

lemma validate_step_facts:
  assumes v: "validate_step steps seen s = Ok ()"
  shows "step_facts steps s \<and> s_id s \<notin> set seen"
proof -
  have basic: "s_id s \<notin> set seen" "s_id s \<noteq> []" "\<not> (s_attempts s = 0 \<or> s_attempts s > 20)"
    "s_kind s \<in> set step_kinds"
    "\<not> (s_step_budget_exempt s \<and> s_kind s \<noteq> ''command'')"
    "\<not> (s_step_budget_exempt s \<and> s_step_budget_seconds s \<noteq> None)"
    and refs: "each_result (check_refs steps s) (s_instructions s # s_command s) = Ok ()"
    and scopes: "each_result (\<lambda>p. and_then (scope p) (\<lambda>_. Ok ())) (s_scope s) = Ok ()"
    and needs: "list_all (\<lambda>n. n \<in> s_id ` set steps) (s_needs s)"
    and cond: "(case s_when s of None \<Rightarrow> Ok () | Some c \<Rightarrow>
        require (c_step c \<in> set (s_needs s) \<and>
          c_status c \<in> {''succeeded'', ''failed'', ''skipped''})
          ''when: condition must reference a dependency and terminal status'') = Ok ()"
    using v unfolding validate_step_def and_then_unit_Ok require_Ok_iff by blast+
  have f1: "\<forall>t \<in> set (s_instructions s # s_command s). check_refs steps s t = Ok ()"
    using refs unfolding each_result_Ok_iff .
  have f2: "\<forall>p \<in> set (s_scope s). \<exists>q. scope p = Ok q"
    using scopes unfolding each_result_Ok_iff and_then_Ok_iff by blast
  have f3: "set (s_needs s) \<subseteq> s_id ` set steps"
    using needs unfolding list_all_iff by blast
  have f4: "c_step c \<in> set (s_needs s)" if "s_when s = Some c" for c
    using cond that by simp
  have "1 \<le> s_attempts s" "s_attempts s \<le> 20" using basic(3) by linarith+
  with basic f1 f2 f3 f4 show ?thesis unfolding step_facts_def by blast
qed

lemma validate_steps_facts:
  "validate_steps steps i seen rest = Ok () \<Longrightarrow>
    (\<forall>s \<in> set rest. step_facts steps s) \<and> distinct (map s_id rest) \<and>
    set (map s_id rest) \<inter> set seen = {}"
proof (induction rest arbitrary: i seen)
  case Nil
  then show ?case by simp
next
  case (Cons s rest)
  then have "validate_step steps seen s = Ok ()"
    and "validate_steps steps (Suc i) (s_id s # seen) rest = Ok ()"
    by (auto simp: and_then_Ok_iff)
  with Cons.IH [of "Suc i" "s_id s # seen"] validate_step_facts [of steps seen s] show ?case
    by auto
qed

lemma validate_steps_closed:
  "validate_steps steps 0 [] steps = Ok () \<Longrightarrow> closed_needs steps \<and> distinct (map s_id steps)"
  using validate_steps_facts [of steps 0 "[]" steps] by (auto simp: closed_needs_def step_facts_def)

lemma validate_Ok_iff:
  "validate steps = Ok () \<longleftrightarrow>
    steps \<noteq> [] \<and> validate_steps steps 0 [] steps = Ok () \<and> acyclic (depends steps)"
proof
  assume v: "validate steps = Ok ()"
  then have ne: "steps \<noteq> []" and vs: "validate_steps steps 0 [] steps = Ok ()"
    and sw: "sweep_all steps [] = Ok ()"
    by (auto simp: validate_def and_then_Ok_iff split: if_splits)
  from sweep_all_Ok_order [OF sw] obtain ord where
    "execution_order steps ord" "length ord = length steps" by auto
  with vs have "acyclic (depends steps)"
    using execution_order_acyclic validate_steps_closed by blast
  with ne vs show "steps \<noteq> [] \<and> validate_steps steps 0 [] steps = Ok () \<and> acyclic (depends steps)"
    by simp
next
  assume a: "steps \<noteq> [] \<and> validate_steps steps 0 [] steps = Ok () \<and> acyclic (depends steps)"
  then have "sweep_all steps [] = Ok ()"
    using validate_steps_closed by (intro sweep_all_acyclic) auto
  with a show "validate steps = Ok ()" by (simp add: validate_def)
qed

section \<open>Expansion appends steps under its prefix\<close>

definition appended :: "string \<Rightarrow> plan \<Rightarrow> plan \<Rightarrow> bool" where
  "appended pre plan plan' =
     (\<exists>new. p_steps plan' = p_steps plan @ new \<and>
        (\<forall>s \<in> set new. s_template s = None \<and> prefix pre (s_id s)))"

lemma appended_refl [simp]: "appended pre plan plan"
  by (simp add: appended_def)

lemma appended_trans: "appended pre p q \<Longrightarrow> appended pre q r \<Longrightarrow> appended pre p r"
  unfolding appended_def by (metis UnE append.assoc set_append)

lemma finish_expand_appended:
  assumes "finish_expand t pre (length (p_steps plan)) plan1 aliases = Ok (plan', ends)"
    and "appended pre plan plan1"
  shows "appended pre plan plan'"
  using assms by (auto simp: finish_expand_def appended_def apply_aliases_def Let_def split: sum.splits)

lemma relocate_simps [simp]:
  "s_id (relocate pre inputs s) = pre @ s_id s" "s_template (relocate pre inputs s) = s_template s"
  by (simp_all add: relocate_def)

lemma adopt_simps [simp]: "s_id (adopt s c) = s_id c" "s_template (adopt s c) = s_template c"
  by (simp_all add: adopt_def)

lemma expand_appended:
  "expand digest all name pre inputs stack plan = Ok (plan', ends) \<Longrightarrow> appended pre plan plan'"
  "expand_steps digest all pre inputs stack steps plan aliases = Ok (plan2, aliases2) \<Longrightarrow>
    appended pre plan plan2"
proof (induction digest all name pre inputs stack plan
    and digest all pre inputs stack steps plan aliases
    arbitrary: plan' ends and plan2 aliases2 rule: expand_expand_steps.induct)
  case (1 digest all name pre inputs stack plan)
  from 1(2) obtain t plan0 plan1 aliases where t: "name \<notin> set stack" "map_of all name = Some t"
      "\<not> list_ex (\<lambda>i. \<not> bt_has inputs i) (t_inputs t)"
    and p0: "p_steps plan0 = p_steps plan"
    and p0_def: "plan0 = plan\<lparr>
                  p_pins := bt_insert (name @ ''@'' @ t_version t) (digest t) (p_pins plan),
                  p_warnings := p_warnings plan @
                    map (\<lambda>w. ''template '' @ name @ '': '' @ w) (step_warnings (t_steps t))\<rparr>"
    and e: "expand_steps digest all pre inputs (stack @ [name]) (t_steps t) plan0 [] = Ok (plan1, aliases)"
    and f: "finish_expand t pre (length (p_steps plan)) plan1 aliases = Ok (plan', ends)"
    by (auto simp: expand.simps [of digest all name pre inputs stack plan] Let_def
        split: if_splits option.splits sum.splits)
  from 1(1) [OF t(1,2,3) p0_def e] p0 have "appended pre plan plan1" by (simp add: appended_def)
  with f show ?case by (rule finish_expand_appended)
next
  case (2 digest all pre inputs stack plan aliases)
  then show ?case by (simp add: expand_steps.simps(1))
next
  case (3 digest all pre inputs stack original rest plan aliases)
  let ?s = "relocate pre inputs original"
  show ?case
  proof (cases "s_template original")
    case None
    have "appended pre (plan\<lparr>p_steps := p_steps plan @ [?s]\<rparr>) plan2"
      using "3.IH"(1) [OF refl] None "3.prems"
      by (simp add: expand_steps.simps(2) [of digest all pre inputs stack original rest plan aliases])
    moreover have "appended pre plan (plan\<lparr>p_steps := p_steps plan @ [?s]\<rparr>)"
      using None by (simp add: appended_def)
    ultimately show ?thesis by (rule appended_trans [rotated])
  next
    case (Some nested)
    let ?n = "length (p_steps plan)"
    obtain plan1 ends where ok: "s_workspace ?s = None" "\<not> s_step_budget_exempt ?s" "s_when ?s = None"
      and e: "expand digest all nested (s_id ?s @ ''.'')
           (map (\<lambda>(k, v). (k, render v inputs)) (s_inputs ?s)) stack plan = Ok (plan1, ends)"
      and r: "expand_steps digest all pre inputs stack rest
           (plan1\<lparr>p_steps := take ?n (p_steps plan1) @ map (adopt ?s) (drop ?n (p_steps plan1))\<rparr>)
           (bt_insert (s_id ?s) ends aliases) = Ok (plan2, aliases2)"
      using "3.prems" Some by (auto simp: expand_steps.simps(2) [of digest all pre inputs stack original rest plan aliases]
          Let_def split: if_splits sum.splits)
    have sub: "appended (s_id ?s @ ''.'') plan plan1"
      using "3.IH"(2) [OF refl] Some ok e by simp
    then have "appended pre plan
        (plan1\<lparr>p_steps := take ?n (p_steps plan1) @ map (adopt ?s) (drop ?n (p_steps plan1))\<rparr>)"
      unfolding appended_def by (fastforce simp: prefix_def)
    moreover have "appended pre
        (plan1\<lparr>p_steps := take ?n (p_steps plan1) @ map (adopt ?s) (drop ?n (p_steps plan1))\<rparr>) plan2"
      using "3.IH"(3) [OF refl] Some ok e r by simp
    ultimately show ?thesis by (rule appended_trans)
  qed
qed

section \<open>No template is expanded inside itself\<close>

definition inclusion :: "(string, template) btree \<Rightarrow> (string \<times> string) set" where
  "inclusion all = {(name, nested). \<exists>t s. map_of all name = Some t \<and> s \<in> set (t_steps t) \<and>
     s_template s = Some nested}"

lemma expand_stack:
  "expand digest all name pre inputs stack plan = Ok (plan', ends) \<Longrightarrow>
    (\<forall>m. (name, m) \<in> (inclusion all)\<^sup>* \<longrightarrow> m \<notin> set stack)"
  "expand_steps digest all pre inputs stack steps plan aliases = Ok (plan2, aliases2) \<Longrightarrow>
    (\<forall>s nested m. s \<in> set steps \<longrightarrow> s_template s = Some nested \<longrightarrow>
      (nested, m) \<in> (inclusion all)\<^sup>* \<longrightarrow> m \<notin> set stack)"
proof (induction digest all name pre inputs stack plan
    and digest all pre inputs stack steps plan aliases
    arbitrary: plan' ends and plan2 aliases2 rule: expand_expand_steps.induct)
  case (1 digest all name pre inputs stack plan)
  from 1(2) obtain t plan0 plan1 aliases where t: "name \<notin> set stack" "map_of all name = Some t"
      "\<not> list_ex (\<lambda>i. \<not> bt_has inputs i) (t_inputs t)"
    and p0_def: "plan0 = plan\<lparr>
                  p_pins := bt_insert (name @ ''@'' @ t_version t) (digest t) (p_pins plan),
                  p_warnings := p_warnings plan @
                    map (\<lambda>w. ''template '' @ name @ '': '' @ w) (step_warnings (t_steps t))\<rparr>"
    and e: "expand_steps digest all pre inputs (stack @ [name]) (t_steps t) plan0 [] = Ok (plan1, aliases)"
    by (auto simp: expand.simps [of digest all name pre inputs stack plan] Let_def
        split: if_splits option.splits sum.splits)
  note sub = 1(1) [OF t(1,2,3) p0_def e]
  show ?case
  proof (intro allI impI)
    fix m assume "(name, m) \<in> (inclusion all)\<^sup>*"
    then show "m \<notin> set stack"
    proof (cases rule: converse_rtranclE)
      case base
      with t show ?thesis by simp
    next
      case (step nested)
      then obtain s where "s \<in> set (t_steps t)" "s_template s = Some nested"
        using t(2) by (auto simp: inclusion_def)
      with sub step(2) show ?thesis by auto
    qed
  qed
next
  case (2 digest all pre inputs stack plan aliases)
  then show ?case by (simp add: expand_steps.simps(1))
next
  case (3 digest all pre inputs stack original rest plan aliases)
  let ?s = "relocate pre inputs original"
  have tail: "\<forall>s nested m. s \<in> set rest \<longrightarrow> s_template s = Some nested \<longrightarrow>
      (nested, m) \<in> (inclusion all)\<^sup>* \<longrightarrow> m \<notin> set stack"
    and head: "\<forall>nested m. s_template original = Some nested \<longrightarrow>
      (nested, m) \<in> (inclusion all)\<^sup>* \<longrightarrow> m \<notin> set stack"
  proof (atomize (full), cases "s_template original")
    case None
    with "3.prems" have "expand_steps digest all pre inputs stack rest
        (plan\<lparr>p_steps := p_steps plan @ [?s]\<rparr>) aliases = Ok (plan2, aliases2)"
      by (simp add: expand_steps.simps(2) [of digest all pre inputs stack original rest plan aliases])
    with "3.IH"(1) [OF refl] None show "(\<forall>s nested m. s \<in> set rest \<longrightarrow>
      s_template s = Some nested \<longrightarrow> (nested, m) \<in> (inclusion all)\<^sup>* \<longrightarrow> m \<notin> set stack) \<and>
      (\<forall>nested m. s_template original = Some nested \<longrightarrow>
      (nested, m) \<in> (inclusion all)\<^sup>* \<longrightarrow> m \<notin> set stack)" by simp
  next
    case (Some nested)
    let ?n = "length (p_steps plan)"
    obtain plan1 ends where ok: "s_workspace ?s = None" "\<not> s_step_budget_exempt ?s" "s_when ?s = None"
      and e: "expand digest all nested (s_id ?s @ ''.'')
           (map (\<lambda>(k, v). (k, render v inputs)) (s_inputs ?s)) stack plan = Ok (plan1, ends)"
      and r: "expand_steps digest all pre inputs stack rest
           (plan1\<lparr>p_steps := take ?n (p_steps plan1) @ map (adopt ?s) (drop ?n (p_steps plan1))\<rparr>)
           (bt_insert (s_id ?s) ends aliases) = Ok (plan2, aliases2)"
      using "3.prems" Some by (auto simp: expand_steps.simps(2) [of digest all pre inputs stack original rest plan aliases]
          Let_def split: if_splits sum.splits)
    have "\<forall>m. (nested, m) \<in> (inclusion all)\<^sup>* \<longrightarrow> m \<notin> set stack"
      using "3.IH"(2) [OF refl] Some ok e by simp
    moreover have "\<forall>s nested m. s \<in> set rest \<longrightarrow> s_template s = Some nested \<longrightarrow>
        (nested, m) \<in> (inclusion all)\<^sup>* \<longrightarrow> m \<notin> set stack"
      using "3.IH"(3) [OF refl] Some ok e r by simp
    ultimately show "(\<forall>s nested m. s \<in> set rest \<longrightarrow>
      s_template s = Some nested \<longrightarrow> (nested, m) \<in> (inclusion all)\<^sup>* \<longrightarrow> m \<notin> set stack) \<and>
      (\<forall>nested m. s_template original = Some nested \<longrightarrow>
      (nested, m) \<in> (inclusion all)\<^sup>* \<longrightarrow> m \<notin> set stack)" using Some by simp
  qed
  show ?case
  proof (intro allI impI)
    fix s nested m
    assume "s \<in> set (original # rest)" "s_template s = Some nested" "(nested, m) \<in> (inclusion all)\<^sup>*"
    then show "m \<notin> set stack" using head tail by (cases "s = original") auto
  qed
qed

lemma expand_not_inside:
  assumes "expand digest all name pre inputs stack plan = Ok (plan', ends)"
  shows "(name, name) \<notin> (inclusion all)\<^sup>+"
proof
  assume "(name, name) \<in> (inclusion all)\<^sup>+"
  then obtain nested where n: "(name, nested) \<in> inclusion all" "(nested, name) \<in> (inclusion all)\<^sup>*"
    by (meson tranclD)
  from assms obtain t plan0 plan1 aliases where t: "map_of all name = Some t"
    and e: "expand_steps digest all pre inputs (stack @ [name]) (t_steps t) plan0 [] = Ok (plan1, aliases)"
    by (auto simp: expand.simps [of digest all name pre inputs stack plan] Let_def
        split: if_splits option.splits sum.splits)
  from n(1) t obtain s where "s \<in> set (t_steps t)" "s_template s = Some nested"
    by (auto simp: inclusion_def)
  with expand_stack(2) [OF e] n(2) show False by auto
qed

section \<open>References\<close>

text \<open>The references of a text, in the order both scans meet them.\<close>

function references :: "string \<Rightarrow> string list" where
  "references rest =
     (case find_split ''${'' rest of
        None \<Rightarrow> []
      | Some (_, after) \<Rightarrow>
          (case find_split ''}'' after of
             None \<Rightarrow> []
           | Some (key, rest') \<Rightarrow> key # references rest'))"
  by pat_completeness auto
termination
  by (relation "measure length") (auto dest!: find_split_length)

declare references.simps [simp del]

lemma check_refs_references:
  "check_refs steps s input = Ok () \<Longrightarrow> key \<in> set (references input) \<Longrightarrow> check_ref steps s key = Ok ()"
proof (induction steps s input rule: check_refs.induct)
  case (1 steps s input)
  show ?case
  proof (cases "find_split ''${'' input")
    case None
    with "1.prems" show ?thesis by (simp add: references.simps [of input])
  next
    case (Some p)
    obtain before after where p: "p = (before, after)" by (cases p)
    from "1.prems"(1) Some p obtain k rest' where k: "find_split ''}'' after = Some (k, rest')"
      and ok: "check_ref steps s k = Ok ()" and rest: "check_refs steps s rest' = Ok ()"
      by (auto simp: check_refs.simps [of steps s input] split: option.splits sum.splits)
    from "1.prems"(2) Some p k consider "key = k" | "key \<in> set (references rest')"
      by (auto simp: references.simps [of input])
    then show ?thesis
      using "1.IH" [OF Some p [symmetric] k refl] ok rest by cases auto
  qed
qed

lemma resolve_refs_cases:
  "check_refs steps s input = Ok () \<Longrightarrow>
    (\<exists>r. resolve_refs to_text input outputs = Ok r) \<or>
    resolve_refs to_text input outputs = bail ''missing output'' \<and>
      (\<exists>key \<in> set (references input). \<not> bt_has outputs key)"
proof (induction steps s input rule: check_refs.induct)
  case (1 steps s input)
  show ?case
  proof (cases "find_split ''${'' input")
    case None
    then show ?thesis by (simp add: resolve_refs.simps [of to_text input outputs])
  next
    case (Some p)
    obtain before after where p: "p = (before, after)" by (cases p)
    from "1.prems"(1) Some p obtain key rest' where k: "find_split ''}'' after = Some (key, rest')"
      and ok: "check_ref steps s key = Ok ()" and rest: "check_refs steps s rest' = Ok ()"
      by (auto simp: check_refs.simps [of steps s input] split: option.splits sum.splits)
    have r: "references input = key # references rest'"
      using Some p k by (simp add: references.simps [of input])
    note ih = "1.IH" [OF Some p [symmetric] k refl] 
    show ?thesis
    proof (cases "map_of outputs key")
      case None
      with Some p k r show ?thesis by (simp add: resolve_refs.simps [of to_text input outputs] bt_has_def)
    next
      case (Some v)
      with ih ok rest \<open>find_split ''${'' input = Some p\<close> p k r show ?thesis
        by (auto simp: resolve_refs.simps [of to_text input outputs] bail_def)
    qed
  qed
qed

lemma resolve_all_cases:
  assumes "\<forall>t \<in> set args. check_refs steps s t = Ok ()"
  shows "(\<exists>r. resolve_all to_text args outputs = Ok r) \<or>
    resolve_all to_text args outputs = bail ''missing output'' \<and>
      (\<exists>t \<in> set args. \<exists>key \<in> set (references t). \<not> bt_has outputs key)"
  using assms
proof (induction args)
  case (Cons arg args)
  with resolve_refs_cases [of steps s arg to_text outputs] show ?case by auto
qed simp

lemma resolve_step_cases:
  assumes "\<forall>t \<in> set (s_instructions s # s_command s). check_refs steps s t = Ok ()"
  shows "(\<exists>r. resolve_step to_text s outputs = Ok r) \<or>
    resolve_step to_text s outputs = bail ''missing output'' \<and>
      (\<exists>t \<in> set (s_instructions s # s_command s). \<exists>key \<in> set (references t). \<not> bt_has outputs key)"
  using resolve_refs_cases [of steps s "s_instructions s" to_text outputs]
    resolve_all_cases [of "s_command s" steps s to_text outputs] assms
  by (auto simp: resolve_step_def)

lemma enter_fields_keys:
  "bt_has (enter_fields name m outputs) key \<longleftrightarrow>
    bt_has outputs key \<or> (\<exists>f \<in> fst ` set m. key = name @ ''.'' @ f)"
  by (induction name m outputs rule: enter_fields.induct) (auto simp: bt_has_def)

lemma step_outputs_cons:
  assumes "step_outputs parse s ((name, res) # rows) outputs = Ok outputs'"
  obtains (skipped) "name \<notin> set (s_needs s) \<or> res = None" "step_outputs parse s rows outputs = Ok outputs'"
    | (entered) raw v where "name \<in> set (s_needs s)" "res = Some raw" "parse raw = Ok v"
        "step_outputs parse s rows
          (case as_object v of None \<Rightarrow> outputs | Some m \<Rightarrow> enter_fields name m outputs) = Ok outputs'"
  using assms by (auto simp: and_then_Ok_iff split: if_splits option.splits)

lemma step_outputs_keep:
  "step_outputs parse s rows outputs = Ok outputs' \<Longrightarrow> bt_has outputs key \<Longrightarrow> bt_has outputs' key"
proof (induction rows arbitrary: outputs)
  case (Cons row rows)
  obtain name res where row: "row = (name, res)" by (cases row)
  from Cons.prems(1) [unfolded row] show ?case
  proof (cases rule: step_outputs_cons)
    case skipped
    then show ?thesis using Cons by blast
  next
    case (entered raw v)
    have "bt_has (case as_object v of None \<Rightarrow> outputs | Some m \<Rightarrow> enter_fields name m outputs) key"
      using Cons.prems(2) by (simp add: enter_fields_keys split: option.split)
    with Cons.IH entered(4) show ?thesis by blast
  qed
qed simp

lemma jfield_object: "jfield v f = Some x \<Longrightarrow> \<exists>m. v = JObj m \<and> map_of m f = Some x"
  by (cases v) auto

text \<open>Every field of the result of a needed step is among the outputs.\<close>

lemma step_outputs_field:
  "step_outputs parse s rows outputs = Ok outputs' \<Longrightarrow> (n, Some raw) \<in> set rows \<Longrightarrow>
    n \<in> set (s_needs s) \<Longrightarrow> parse raw = Ok v \<Longrightarrow> jfield v f = Some x \<Longrightarrow>
    bt_has outputs' (n @ ''.'' @ f)"
proof (induction rows arbitrary: outputs)
  case (Cons row rows)
  obtain name res where row: "row = (name, res)" by (cases row)
  from Cons.prems(1) [unfolded row] show ?case
  proof (cases rule: step_outputs_cons)
    case skipped
    then show ?thesis using Cons row by auto
  next
    case (entered raw' v')
    show ?thesis
    proof (cases "row = (n, Some raw)")
      case True
      from jfield_object [OF Cons.prems(5)] obtain m where m: "v = JObj m" "map_of m f = Some x" by blast
      have "v' = JObj m" "name = n" using True row entered(2,3) Cons.prems(4) m(1) by simp_all
      then have "step_outputs parse s rows (enter_fields n m outputs) = Ok outputs'"
        using entered(4) by simp
      moreover have "bt_has (enter_fields n m outputs) (n @ ''.'' @ f)"
        using map_of_SomeD [OF m(2)] by (force simp: enter_fields_keys)
      ultimately show ?thesis by (rule step_outputs_keep)
    next
      case False
      with Cons entered(4) show ?thesis by auto
    qed
  qed
qed simp

lemma validate_result_field:
  assumes "validate_result p v = Ok ()" and "bt_has (s_output_types p) f"
  shows "\<exists>x. jfield v f = Some x"
proof -
  from assms(2) obtain ty where "(f, ty) \<in> set (s_output_types p)"
    by (auto simp: bt_has_def dest: map_of_SomeD)
  with assms(1) show ?thesis
    by (fastforce simp: validate_result_def each_result_Ok_iff split: option.splits)
qed

section \<open>A template set to run\<close>

definition example_templates :: "(string, template) btree" where
  "example_templates =
     [(''inner'', \<lparr>t_name = ''inner'', t_version = ''1'', t_inputs = [''task''],
        t_outputs = [(''out'', ''b.result'')],
        t_steps = [(default_step ''a'')\<lparr>s_instructions := ''do {{task}}''\<rparr>,
                   (default_step ''b'')\<lparr>s_needs := [''a''], s_instructions := ''see ${a.result}''\<rparr>]\<rparr>),
      (''outer'', \<lparr>t_name = ''outer'', t_version = ''2'', t_inputs = [''task''],
        t_outputs = [],
        t_steps = [(default_step ''build'')\<lparr>s_template := Some ''inner'', s_inputs := [(''task'', ''X {{task}}'')]\<rparr>,
                   (default_step ''check'')\<lparr>s_kind := ''command'', s_needs := [''build''],
                      s_command := [''run'', ''${build.b.result}'']\<rparr>]\<rparr>)]"

definition example_result :: "plan result" where
  "example_result = compile (\<lambda>t. ''h'') ''outer'' example_templates [(''task'', ''y'')]"

definition example_plan :: plan where
  "example_plan = (case example_result of Inr p \<Rightarrow> p | Inl _ \<Rightarrow> empty_plan)"

lemma example_compiles:
  "compile (\<lambda>t. ''h'') ''outer'' example_templates [(''task'', ''y'')] = Ok example_plan"
proof -
  have "is_ok example_result" by code_simp
  then obtain p where p: "example_result = Ok p" by (auto simp: is_ok_iff)
  show ?thesis unfolding example_result_def [symmetric] by (simp add: example_plan_def p)
qed

lemma compile_parts:
  assumes "compile digest name ts inputs = Ok plan"
  obtains plan0 ends where "expand digest ts name [] inputs [] empty_plan = Ok (plan0, ends)"
    "p_steps plan = map (rename_refs (p_outputs plan0)) (p_steps plan0)"
    "validate (p_steps plan) = Ok ()"
  using assms by (auto simp: compile_def and_then_Ok_iff Let_def split: prod.splits)

section \<open>Properties\<close>

text \<open>C3. The acceptance test of a workflow decides exactly that its dependency relation has no
  cycle: given that the per-step checks pass, \<open>validate\<close> accepts if and only if the relation is
  acyclic, so it neither lets a deadlocked workflow through nor refuses a runnable one.\<close>

theorem validate_decides_acyclicity:
  "validate steps = Ok () \<longleftrightarrow>
    (steps \<noteq> [] \<and> validate_steps steps 0 [] steps = Ok () \<and> acyclic (depends steps))"
  by (rule validate_Ok_iff)

text \<open>C4. Every compiled plan can be executed: its step ids are distinct and there is an order of
  all of them in which each step comes after every step it needs.\<close>

theorem compile_has_execution_order:
  assumes "compile digest name ts inputs = Ok plan"
  shows "distinct (map s_id (p_steps plan)) \<and>
    (\<exists>ord. execution_order (p_steps plan) ord \<and> set ord = s_id ` set (p_steps plan))"
proof -
  from assms have v: "validate (p_steps plan) = Ok ()" by (rule compile_parts)
  then have dist: "distinct (map s_id (p_steps plan))" and sw: "sweep_all (p_steps plan) [] = Ok ()"
    using validate_steps_closed by (auto simp: validate_Ok_iff validate_def and_then_Ok_iff split: if_splits)
  from sweep_all_Ok_order [OF sw] obtain ord where
    o: "execution_order (p_steps plan) ord" "length ord = length (p_steps plan)" by auto
  have "set ord = s_id ` set (p_steps plan)"
    using o dist by (rule execution_order_full)
  with o dist show ?thesis by blast
qed

theorem compile_has_execution_order_witness:
  "distinct (map s_id (p_steps example_plan)) \<and>
    (\<exists>ord. execution_order (p_steps example_plan) ord \<and> set ord = s_id ` set (p_steps example_plan))"
  using compile_has_execution_order [OF example_compiles] .

text \<open>C10. Template inclusion is guarded against recursion: when a template compiles, no template
  reachable from it through inclusions, the template itself among them, is included within its
  own expansion. The expansion is a total function, so a cyclic set of templates is an error and
  not a loop.\<close>

theorem compile_rejects_recursive_templates:
  assumes "compile digest name ts inputs = Ok plan"
  shows "(name, name) \<notin> (inclusion ts)\<^sup>+"
  using assms by (rule compile_parts) (rule expand_not_inside)

theorem compile_rejects_recursive_templates_witness:
  "(''outer'', ''outer'') \<notin> (inclusion example_templates)\<^sup>+"
  using compile_rejects_recursive_templates [OF example_compiles] .

text \<open>C11. Expansion only appends: whatever was in the plan stays as it is, every new step has the
  expansion's prefix in its id, and no inclusion step is left over.\<close>

theorem expand_appends_under_prefix:
  assumes "expand digest all name pre inputs stack plan = Ok (plan', ends)"
  shows "\<exists>new. p_steps plan' = p_steps plan @ new \<and>
    (\<forall>s \<in> set new. s_template s = None \<and> prefix pre (s_id s))"
  using expand_appended(1) [OF assms] by (simp add: appended_def)

theorem expand_appends_under_prefix_witness:
  "\<exists>plan' ends new. expand (\<lambda>t. ''h'') example_templates ''inner'' ''x.'' [(''task'', ''y'')] []
      empty_plan = Ok (plan', ends) \<and> p_steps plan' = p_steps empty_plan @ new \<and>
    (\<forall>s \<in> set new. s_template s = None \<and> prefix ''x.'' (s_id s))"
proof -
  have "is_ok (expand (\<lambda>t. ''h'') example_templates ''inner'' ''x.'' [(''task'', ''y'')] [] empty_plan)"
    by code_simp
  then obtain plan' ends where
    e: "expand (\<lambda>t. ''h'') example_templates ''inner'' ''x.'' [(''task'', ''y'')] [] empty_plan =
      Ok (plan', ends)" by (auto simp: is_ok_iff)
  from expand_appends_under_prefix [OF e] e show ?thesis by blast
qed

text \<open>C7. References that validation accepted resolve at run time. Let the outputs of a step of
  an accepted workflow be assembled from the recorded results, where every step it needs has a
  result that passes the check of its declared outputs. Then the substitution into the
  instructions and the command succeeds, unless a text refers to a built-in field (of the fixed
  list, such as \<^verbatim>\<open>artifacts\<close>) that the result of the needed step does not
  hold; in that case it fails with the error of a missing output. So a declared output is always
  found, and a reference never fails for its form or for naming a foreign step.\<close>

theorem validated_references_resolve:
  assumes "validate steps = Ok ()" and "s \<in> set steps"
    and "step_outputs parse s rows [] = Ok outputs"
    and "\<And>n p. n \<in> set (s_needs s) \<Longrightarrow> find (\<lambda>r. s_id r = n) steps = Some p \<Longrightarrow>
      \<exists>raw v. (n, Some raw) \<in> set rows \<and> parse raw = Ok v \<and> validate_result p v = Ok ()"
  shows "(\<exists>r. resolve_step to_text s outputs = Ok r) \<or>
    resolve_step to_text s outputs = bail ''missing output'' \<and>
      (\<exists>t \<in> set (s_instructions s # s_command s). \<exists>n field.
        n @ ''.'' @ field \<in> set (references t) \<and> n \<in> set (s_needs s) \<and>
        field \<in> set builtin_fields \<and>
        \<not> (\<exists>raw v x. (n, Some raw) \<in> set rows \<and> parse raw = Ok v \<and> jfield v field = Some x))"
proof -
  from assms(1,2) have "step_facts steps s"
    using validate_steps_facts by (auto simp: validate_Ok_iff)
  then have refs: "\<forall>t \<in> set (s_instructions s # s_command s). check_refs steps s t = Ok ()"
    by (auto simp: step_facts_def)
  have absent: "\<exists>n field. key = n @ ''.'' @ field \<and> n \<in> set (s_needs s) \<and> field \<in> set builtin_fields \<and>
      \<not> (\<exists>raw v x. (n, Some raw) \<in> set rows \<and> parse raw = Ok v \<and> jfield v field = Some x)"
    if "check_ref steps s key = Ok ()" "\<not> bt_has outputs key" for key
  proof -
    from that(1) obtain n field p where k: "rsplit_once (CHR ''.'') key = Some (n, field)"
        "n \<in> set (s_needs s)" "find (\<lambda>r. s_id r = n) steps = Some p"
        "field \<in> set builtin_fields \<or> bt_has (s_output_types p) field"
      by (auto simp: check_ref_def split: option.splits if_splits)
    from rsplit_once_Some [OF k(1)] have key: "key = n @ ''.'' @ field" by simp
    have none: "\<not> (\<exists>raw v x. (n, Some raw) \<in> set rows \<and> parse raw = Ok v \<and> jfield v field = Some x)"
      using step_outputs_field [OF assms(3)] k(2) that(2) key by blast
    moreover have "\<not> bt_has (s_output_types p) field"
      using assms(4) [OF k(2,3)] none validate_result_field by blast
    ultimately show ?thesis using key k(2,4) by blast
  qed
  show ?thesis
    using resolve_step_cases [OF refs, of to_text outputs] check_refs_references refs absent
    by blast
qed

text \<open>The step \<open>b\<close> of the example refers to the declared output of \<open>a\<close>.\<close>

definition producer_step :: step where
  "producer_step = (default_step ''a'')\<lparr>s_output_types := [(''count'', ''integer'')]\<rparr>"

definition consumer_step :: step where
  "consumer_step = (default_step ''b'')\<lparr>s_needs := [''a''], s_instructions := ''use ${a.count}'',
     s_command := [''run'', ''${a.count}'']\<rparr>"

definition count_outputs :: "(string, json) btree" where
  "count_outputs = [(''a.count'', JInt 3), (''a.note'', JStr ''done'')]"

definition count_parse :: "string \<Rightarrow> json result" where
  "count_parse raw = Ok (JObj [(''count'', JInt 3), (''note'', JStr ''done'')])"

theorem validated_references_resolve_witness:
  "\<exists>r. resolve_step (\<lambda>v. ''3'') consumer_step count_outputs = Ok r"
proof -
  have v: "validate [producer_step, consumer_step] = Ok ()" by code_simp
  have o: "step_outputs count_parse consumer_step [(''b'', None), (''a'', Some ''raw'')] [] = Ok count_outputs"
    by code_simp
  have res: "validate_result producer_step (JObj [(''count'', JInt 3), (''note'', JStr ''done'')]) = Ok ()"
    by code_simp
  have rec: "\<exists>raw v. (n, Some raw) \<in> set [(''b'', None), (''a'', Some ''raw'')] \<and>
      count_parse raw = Ok v \<and> validate_result p v = Ok ()"
    if "n \<in> set (s_needs consumer_step)" "find (\<lambda>r. s_id r = n) [producer_step, consumer_step] = Some p"
    for n p
    using that res by (auto simp: consumer_step_def producer_step_def default_step_def count_parse_def)
  have texts: "references ''use ${a.count}'' = [''a.count'']" "references ''${a.count}'' = [''a.count'']"
      "references ''run'' = []" by code_simp+
  have none: "\<not> (n @ ''.'' @ field = ''a.count'' \<and> field \<in> set builtin_fields)" for n field :: string
    by (auto simp: builtin_fields_def append_eq_Cons_conv Cons_eq_append_conv)
  show ?thesis
    using validated_references_resolve [OF v _ o rec, of "\<lambda>v. ''3''"] none
    by (auto simp: consumer_step_def texts)
qed

end
