(* ===== verification/Config.thy ===== *)
theory Config
  imports Json
begin

text \<open>
  Settings (src/src/config.rs) as far as the modelled components read them: named providers,
  executor roles that are resolved against their provider, role fallbacks, delegation limits
  (src/src/delegation.rs) and the notification hooks. A price is a rational.
\<close>

record limits =
  lm_workers :: nat
  lm_children :: nat
  lm_depth :: nat
  lm_environments :: nat

definition default_limits :: limits where
  "default_limits = \<lparr>lm_workers = 4, lm_children = 16, lm_depth = 3, lm_environments = 2\<rparr>"

definition validate_limits :: "limits \<Rightarrow> unit result" where
  "validate_limits l =
     require (1 \<le> lm_workers l \<and> lm_workers l \<le> 64 \<and> lm_children l \<le> 256 \<and> lm_depth l \<le> 8 \<and>
        1 \<le> lm_environments l \<and> lm_environments l \<le> 16) ''invalid delegation limits''"

record provider =
  pv_kind :: string
  pv_auth_mode :: string
  pv_base_url :: string
  pv_api_key_env :: string
  pv_account :: "string option"
  pv_program :: "string option"
  pv_model :: "string option"
  pv_max_price :: "string option"
  pv_max_tokens :: nat
  pv_max_api_cost_usd :: "rat option"
  pv_extra_body :: "(string, json) btree"
  pv_stream :: bool
  pv_network :: bool

record executor =
  ex_step_budget_seconds :: "nat option"
  ex_provider :: "string option"
  ex_account :: "string option"
  ex_program :: "string option"
  ex_model :: "string option"
  ex_max_price :: "string option"
  ex_max_tokens :: "nat option"
  ex_max_api_cost_usd :: "rat option"
  ex_extra_body :: "(string, json) btree"
  ex_network :: "bool option"

record executor_config =
  ec_kind :: string
  ec_project :: "string option"
  ec_account :: "string option"
  ec_auth_mode :: string
  ec_program :: "string option"
  ec_model :: "string option"
  ec_base_url :: string
  ec_api_key_env :: string
  ec_max_price :: "string option"
  ec_max_tokens :: nat
  ec_max_api_cost_usd :: "rat option"
  ec_extra_body :: "(string, json) btree"
  ec_stream :: bool
  ec_network :: bool

record notify =
  nt_webhook :: "string option"
  nt_webhook_env :: "string option"
  nt_command :: "string list"
  nt_events :: "string list"
  nt_timeout_seconds :: nat
  nt_children :: bool

record settings =
  sg_concurrency :: nat
  sg_autonomy :: bool
  sg_default_template :: string
  sg_timeout_seconds :: nat
  sg_step_budget_seconds :: nat
  sg_allow_commands :: bool
  sg_secret_bundles :: "string list"
  sg_skills :: "(string, string) btree"
  sg_providers :: "(string, provider) btree"
  sg_executors :: "(string, executor) btree"
  sg_fallbacks :: "(string, string) btree"
  sg_notify :: notify
  sg_limits :: limits
  sg_knowledge_topics :: "string list"

definition default_provider :: string where
  "default_provider = ''default''"

definition or_else :: "'a option \<Rightarrow> 'a option \<Rightarrow> 'a option" where
  "or_else x y = (case x of None \<Rightarrow> y | Some v \<Rightarrow> Some v)"

definition unwrap_or :: "'a option \<Rightarrow> 'a \<Rightarrow> 'a" where
  "unwrap_or x d = (case x of None \<Rightarrow> d | Some v \<Rightarrow> v)"

definition blank_provider :: provider where
  "blank_provider =
     \<lparr>pv_kind = [], pv_auth_mode = ''login'', pv_base_url = [], pv_api_key_env = [],
      pv_account = None, pv_program = None, pv_model = None, pv_max_price = None,
      pv_max_tokens = 8192, pv_max_api_cost_usd = None, pv_extra_body = [],
      pv_stream = False, pv_network = False\<rparr>"

definition blank_executor :: executor where
  "blank_executor =
     \<lparr>ex_step_budget_seconds = None, ex_provider = None, ex_account = None, ex_program = None,
      ex_model = None, ex_max_price = None, ex_max_tokens = None, ex_max_api_cost_usd = None,
      ex_extra_body = [], ex_network = None\<rparr>"

text \<open>\<^verbatim>\<open>Provider::resolve\<close>: the role's own choices over the provider's.\<close>

definition resolve_executor :: "provider \<Rightarrow> executor \<Rightarrow> executor_config" where
  "resolve_executor p e =
     \<lparr>ec_kind = pv_kind p, ec_project = None,
      ec_account = or_else (ex_account e) (pv_account p),
      ec_auth_mode = pv_auth_mode p,
      ec_program = or_else (ex_program e) (pv_program p),
      ec_model = or_else (ex_model e) (pv_model p),
      ec_base_url = pv_base_url p, ec_api_key_env = pv_api_key_env p,
      ec_max_price = or_else (ex_max_price e) (pv_max_price p),
      ec_max_tokens = unwrap_or (ex_max_tokens e) (pv_max_tokens p),
      ec_max_api_cost_usd = or_else (ex_max_api_cost_usd e) (pv_max_api_cost_usd p),
      ec_extra_body = fold (\<lambda>(k, v) m. bt_insert k v m) (ex_extra_body e)
        (fold (\<lambda>(k, v) m. bt_insert k v m) (pv_extra_body p) []),
      ec_stream = pv_stream p,
      ec_network = unwrap_or (ex_network e) (pv_network p)\<rparr>"

definition executor_provider :: "executor \<Rightarrow> string" where
  "executor_provider e = unwrap_or (ex_provider e) default_provider"

definition executor_of :: "settings \<Rightarrow> string \<Rightarrow> executor_config option" where
  "executor_of s role =
     (case map_of (sg_executors s) role of
        None \<Rightarrow> None
      | Some e \<Rightarrow>
          (case map_of (sg_providers s) (executor_provider e) of
             None \<Rightarrow> None
           | Some p \<Rightarrow> Some (resolve_executor p e)))"

definition provider_of :: "settings \<Rightarrow> string \<Rightarrow> executor_config option" where
  "provider_of s name =
     (case map_of (sg_providers s) name of
        None \<Rightarrow> None | Some p \<Rightarrow> Some (resolve_executor p blank_executor))"

definition resolved :: "settings \<Rightarrow> (string, executor_config) btree" where
  "resolved s =
     List.map_filter (\<lambda>role. map_option (\<lambda>c. (role, c)) (executor_of s role)) (bt_keys (sg_executors s))"

definition notify_hooks :: "string list" where
  "notify_hooks = [''step.finished'', ''task.finished'', ''question.asked'', ''task.blocked'']"

definition notify_enabled :: "notify \<Rightarrow> bool" where
  "notify_enabled n = (nt_webhook n \<noteq> None \<or> nt_webhook_env n \<noteq> None \<or> nt_command n \<noteq> [])"

definition notify_wants :: "notify \<Rightarrow> string \<Rightarrow> bool" where
  "notify_wants n hook = list_ex (\<lambda>e. e = hook) (nt_events n)"

definition validate_notify :: "notify \<Rightarrow> unit result" where
  "validate_notify n =
     (if nt_timeout_seconds n = 0 then bail ''notify.timeout_seconds must be positive''
      else if nt_webhook n = Some [] then bail ''notify.webhook must not be empty''
      else if nt_webhook_env n = Some [] then bail ''notify.webhook_env must not be empty''
      else if (case nt_command n of [] \<Rightarrow> False | p # _ \<Rightarrow> p = [])
      then bail ''notify.command needs a program as its first element''
      else each_result (\<lambda>e. require (e \<in> set notify_hooks) ''notify.events: unknown hook'')
        (nt_events n))"

text \<open>The vocabulary of knowledge records, as \<^verbatim>\<open>Settings::validate\<close> checks it.\<close>

definition validate_topics :: "string list \<Rightarrow> unit result" where
  "validate_topics ts =
     (if length ts > 128 \<or> list_ex (\<lambda>t. blank t \<or> length t > 128) ts
      then bail ''knowledge_topics accepts at most 128 nonempty topics of at most 128 bytes''
      else require (distinct ts) ''knowledge_topics contains duplicates'')"

definition default_notify :: notify where
  "default_notify =
     \<lparr>nt_webhook = None, nt_webhook_env = None, nt_command = [],
      nt_events = [''step.finished'', ''task.finished'', ''question.asked''],
      nt_timeout_seconds = 15, nt_children = False\<rparr>"

text \<open>A small settings value on which the witnesses run.\<close>

definition sample_settings :: settings where
  "sample_settings =
     \<lparr>sg_concurrency = 4, sg_autonomy = True, sg_default_template = ''simulated'',
      sg_timeout_seconds = 5, sg_step_budget_seconds = 5,
      sg_allow_commands = True, sg_secret_bundles = [], sg_skills = [], sg_providers = [], sg_executors = [],
      sg_fallbacks = [], sg_notify = default_notify, sg_limits = default_limits, sg_knowledge_topics = []\<rparr>"

lemma executor_of_role: "executor_of s role = Some c \<Longrightarrow> role \<in> set (bt_keys (sg_executors s))"
  by (auto simp: executor_of_def bt_keys_def map_of_eq_None_iff split: option.splits)
    (metis domI dom_map_of_conv_image_fst)

end
