(* ===== verification/Schema.thy ===== *)
theory Schema
  imports Template Config
begin

text \<open>
  The tables of the store (the \<^verbatim>\<open>CREATE TABLE\<close> statements of src/src/store.rs and of the
  \<^verbatim>\<open>migrate\<close> functions) as lists of rows in row-id order, one record per table. Columns
  that hold serialised JSON of a known type hold the value itself. Integer columns are
  integers, nullable columns options. \<open>message_seq\<close> and \<open>event_seq\<close> are the counters behind
  the two \<^verbatim>\<open>AUTOINCREMENT\<close> keys.
\<close>

record task_row =
  tk_id :: string
  tk_objective :: string
  tk_repo :: string
  tk_status :: string
  tk_settings :: settings
  tk_plan :: plan
  tk_created :: int

record revision_row =
  rv_task :: string
  rv_revision :: int
  rv_plan :: plan

record step_row =
  st_id :: string
  st_task :: string
  st_name :: string
  st_spec :: step
  st_state :: string
  st_result :: "json option"

record attempt_row =
  at_id :: string
  at_step :: string
  at_worker :: "string option"
  at_state :: string
  at_started :: int
  at_finished :: "int option"
  at_pid :: "int option"
  at_result :: "json option"
  at_usage :: "json option"

record worker_row =
  wk_id :: string
  wk_task :: string
  wk_step :: "string option"
  wk_status :: string
  wk_token_hash :: string
  wk_workspace :: "string option"
  wk_updated :: int

record channel_row =
  ch_task :: string
  ch_name :: string
  ch_worker :: string

record message_row =
  ms_seq :: int
  ms_id :: string
  ms_task :: string
  ms_sender :: string
  ms_destination :: string
  ms_body :: string
  ms_refs :: json
  ms_actionable :: bool
  ms_created :: int
  ms_wakeable :: bool

record receipt_row =
  rc_message :: string
  rc_worker :: string
  rc_ack :: bool

record seq_row =
  sq_worker :: string
  sq_seq :: int

record claim_row =
  cl_task :: string
  cl_path :: string
  cl_worker :: string

record event_row =
  ev_seq :: int
  ev_task :: string
  ev_kind :: string
  ev_data :: json
  ev_created :: int

record question_row =
  qu_id :: string
  qu_task :: string
  qu_question :: string
  qu_answer :: "string option"

record question_context_row =
  qc_question :: string
  qc_purpose :: string
  qc_worker :: "string option"

record question_route_row =
  qr_question :: string
  qr_origin :: string
  qr_target :: "string option"
  qr_request_id :: string
  qr_envelope :: json
  qr_answerer :: "string option"
  qr_human_only :: bool

record escalation_row =
  qe_question :: string
  qe_caller :: string
  qe_commentary :: string

record output_row =
  wo_task :: string
  wo_outputs :: json

record external_op_row =
  eo_task :: string
  eo_name :: string
  eo_state :: string
  eo_data :: json

record tree_row =
  tt_task :: string
  tt_root :: string
  tt_parent :: "string option"
  tt_caller_worker :: "string option"
  tt_depth :: int
  tt_version :: int
  tt_limits :: limits
  tt_request_id :: "string option"
  tt_request_hash :: "string option"

record context_row =
  cx_row :: int
  cx_id :: string
  cx_root :: string
  cx_version :: int
  cx_kind :: string
  cx_content :: string
  cx_provenance :: string
  cx_mandatory :: bool

record pin_row =
  pn_attempt :: string
  pn_root :: string
  pn_version :: int

record acceptance_row =
  ca_parent :: string
  ca_child :: string
  ca_version :: int

record link_row =
  rl_task :: string
  rl_peer :: string
  rl_state :: string
  rl_request :: string

record origin_row =
  ro_task :: string
  ro_owner_peer :: string
  ro_owner_task :: string

record event_receipt_row =
  er_task :: string
  er_consumer :: string
  er_seq :: int

record project_row =
  pj_id :: string
  pj_slug :: string
  pj_name :: string
  pj_concurrency :: int
  pj_isolation :: string
  pj_created :: int

record repo_row =
  rp_id :: string
  rp_project :: string
  rp_path :: string
  rp_common :: string

record tenant_row =
  tn_project :: string
  tn_tenant :: string
  tn_explicit :: bool

record task_project_row =
  tp_task :: string
  tp_project :: string
  tp_repository :: "string option"

record queue_row =
  pq_task :: string
  pq_reason :: string
  pq_updated :: int

record binding_row =
  ab_attempt :: string
  ab_project :: string
  ab_runtime :: string
  ab_account :: "string option"
  ab_profile :: "string option"
  ab_version :: "int option"
  ab_isolation :: string

record runtime_row =
  rt_project :: string
  rt_runtime :: string

record lease_row =
  le_step :: string
  le_request_id :: string
  le_peer :: string
  le_owner_task :: string
  le_task :: string
  le_state :: string

record capacity_row =
  ac_account :: string
  ac_window :: string
  ac_provider :: string
  ac_used :: "rat option"
  ac_reset :: "int option"
  ac_observed :: int
  ac_source :: string

record account_row =
  an_id :: string
  an_owner_project :: string
  an_name :: string
  an_provider :: string
  an_auth_mode :: string
  an_base_url :: string
  an_concurrency :: int
  an_authenticated :: bool
  an_state :: string
  an_last_dispatch :: int

record profile_row =
  pf_id :: string
  pf_account :: string
  pf_version :: int
  pf_kind :: "string option"
  pf_expires_at :: "int option"

record grant_row =
  gr_project :: string
  gr_account :: string
  gr_created :: int

record reservation_row =
  rs_step :: string
  rs_project :: string
  rs_account :: string
  rs_profile :: string
  rs_version :: int
  rs_state :: string
  rs_created :: int

record remote_reservation_row =
  rr_request_id :: string
  rr_project :: string
  rr_task :: string
  rr_runtime :: string
  rr_state :: string
  rr_created :: int

record account_remote_row =
  ar_request_id :: string
  ar_project :: string
  ar_account :: string
  ar_runtime :: string
  ar_task :: string
  ar_attempt :: string
  ar_role :: string
  ar_profile :: string
  ar_version :: int
  ar_state :: string
  ar_created :: int

record delivery_row =
  cd_request_id :: string
  cd_project :: string
  cd_account :: string
  cd_runtime :: string
  cd_version :: int
  cd_state :: string
  cd_created :: int

text \<open>The content of a private credential file, one for each account and version.\<close>

record credential =
  cr_kind :: string
  cr_secret :: string
  cr_expires_at :: "int option"
  cr_metadata :: json

record attempt_account_row =
  aa_attempt :: string
  aa_account :: string
  aa_role :: string

record artifact_link_row =
  al_task :: string
  al_step :: "string option"
  al_name :: string
  al_hash :: string
  al_inputs :: json
  al_verified :: bool

section \<open>The store\<close>

record store =
  tasks :: "task_row list"
  revisions :: "revision_row list"
  steps :: "step_row list"
  attempts :: "attempt_row list"
  workers :: "worker_row list"
  channels :: "channel_row list"
  messages :: "message_row list"
  receipts :: "receipt_row list"
  cursors :: "seq_row list"
  notifications :: "seq_row list"
  claims :: "claim_row list"
  events :: "event_row list"
  questions :: "question_row list"
  question_context :: "question_context_row list"
  question_routes :: "question_route_row list"
  question_escalations :: "escalation_row list"
  workflow_outputs :: "output_row list"
  external_ops :: "external_op_row list"
  task_tree :: "tree_row list"
  context_records :: "context_row list"
  context_attempts :: "pin_row list"
  child_acceptance :: "acceptance_row list"
  remote_links :: "link_row list"
  remote_origins :: "origin_row list"
  remote_context :: "(string \<times> json) list"
  knowledge_owners :: "(string \<times> string) list"
  local_child_bases :: "(string \<times> string) list"
  event_receipts :: "event_receipt_row list"
  projects :: "project_row list"
  project_repositories :: "repo_row list"
  project_tenants :: "tenant_row list"
  task_projects :: "task_project_row list"
  project_queue :: "queue_row list"
  attempt_bindings :: "binding_row list"
  runtime_project_bindings :: "runtime_row list"
  project_runtime_revocations :: "runtime_row list"
  project_runtime_grants :: "runtime_row list"
  managed_runtimes :: "string list"
  remote_account_leases :: "lease_row list"
  runtime_settings :: "(string \<times> string) list"
  management_events :: "(string \<times> json) list"
  account_capacity :: "capacity_row list"
  accounts :: "account_row list"
  auth_profiles :: "profile_row list"
  account_grants :: "grant_row list"
  account_grant_revocations :: "grant_row list"
  account_reservations :: "reservation_row list"
  account_remote_reservations :: "account_remote_row list"
  credential_deliveries :: "delivery_row list"
  credential_files :: "((string \<times> int) \<times> credential) list"
  project_remote_reservations :: "remote_reservation_row list"
  attempt_accounts :: "attempt_account_row list"
  artifact_links :: "artifact_link_row list"
  preview_phases :: "string list"
  message_seq :: int
  event_seq :: int

definition empty_store :: store where
  "empty_store =
     \<lparr>tasks = [], revisions = [], steps = [], attempts = [], workers = [], channels = [],
      messages = [], receipts = [], cursors = [], notifications = [], claims = [], events = [],
      questions = [], question_context = [], question_routes = [], question_escalations = [],
      workflow_outputs = [], external_ops = [], task_tree = [], context_records = [],
      context_attempts = [], child_acceptance = [], remote_links = [], remote_origins = [],
      remote_context = [], knowledge_owners = [], local_child_bases = [], event_receipts = [], projects = [], project_repositories = [], project_tenants = [], task_projects = [],
      project_queue = [], attempt_bindings = [], runtime_project_bindings = [],
      project_runtime_revocations = [], project_runtime_grants = [], managed_runtimes = [],
      remote_account_leases = [], runtime_settings = [], management_events = [],
      account_capacity = [], accounts = [], auth_profiles = [], account_grants = [],
      account_grant_revocations = [],
      account_reservations = [], account_remote_reservations = [], credential_deliveries = [], credential_files = [],
      project_remote_reservations = [], attempt_accounts = [], artifact_links = [],
      preview_phases = [], message_seq = 0, event_seq = 0\<rparr>"

end
