(* ===== verification/Numerals.thy ===== *)
theory Numerals
  imports Prelude
begin

text \<open>
  Decimal numerals as the Rust standard library prints and parses them: settings keep numbers
  as text. \<open>parse_u64\<close> is \<^verbatim>\<open>str::parse::<u64>\<close> (and \<^verbatim>\<open>usize\<close>), \<open>parse_i64\<close> is \<^verbatim>\<open>str::parse::<i64>\<close>.
\<close>

definition digit :: "nat \<Rightarrow> char" where
  "digit d = char_of (48 + d)"

definition digit_value :: "char \<Rightarrow> nat option" where
  "digit_value c = (let n = of_char c :: nat in if 48 \<le> n \<and> n \<le> 57 then Some (n - 48) else None)"

fun show_nat :: "nat \<Rightarrow> string" where
  "show_nat n = (if n < 10 then [digit n] else show_nat (n div 10) @ [digit (n mod 10)])"

declare show_nat.simps [simp del]

fun read_digits :: "nat \<Rightarrow> string \<Rightarrow> nat option" where
  "read_digits acc [] = Some acc"
| "read_digits acc (c # cs) =
     (case digit_value c of None \<Rightarrow> None | Some d \<Rightarrow> read_digits (10 * acc + d) cs)"

definition read_nat :: "string \<Rightarrow> nat option" where
  "read_nat s = (if s = [] then None else read_digits 0 s)"

definition show_int :: "int \<Rightarrow> string" where
  "show_int i = (if i < 0 then CHR ''-'' # show_nat (nat (- i)) else show_nat (nat i))"

definition parse_u64 :: "string \<Rightarrow> nat result" where
  "parse_u64 s =
     (case read_nat (case s of c # r \<Rightarrow> if c = CHR ''+'' then r else s | [] \<Rightarrow> s) of
        None \<Rightarrow> bail ''invalid digit found in string''
      | Some n \<Rightarrow> if int n < 2 ^ 64 then Ok n else bail ''number too large to fit in target type'')"

definition parse_i64 :: "string \<Rightarrow> int option" where
  "parse_i64 s =
     (case s of
        [] \<Rightarrow> None
      | c # r \<Rightarrow>
          if c = CHR ''-'' then
            (case read_nat r of None \<Rightarrow> None
             | Some n \<Rightarrow> if int n \<le> 2 ^ 63 then Some (- int n) else None)
          else
            (case read_nat (if c = CHR ''+'' then r else s) of None \<Rightarrow> None
             | Some n \<Rightarrow> if int n < 2 ^ 63 then Some (int n) else None))"

lemma digit_value_digit: "d < 10 \<Longrightarrow> digit_value (digit d) = Some d"
  by (simp add: digit_value_def digit_def Let_def)

lemma read_digits_append:
  "read_digits acc (xs @ ys) = (case read_digits acc xs of None \<Rightarrow> None | Some a \<Rightarrow> read_digits a ys)"
  by (induction xs arbitrary: acc) (auto split: option.splits)

lemma show_nat_ne [simp]: "show_nat n \<noteq> []"
  by (subst show_nat.simps) simp

lemma read_digits_show: "read_digits 0 (show_nat n) = Some n"
proof (induction n rule: less_induct)
  case (less n)
  show ?case
  proof (cases "n < 10")
    case True
    then show ?thesis by (simp add: show_nat.simps [of n] digit_value_digit)
  next
    case False
    then show ?thesis
      using less [of "n div 10"]
      by (simp add: show_nat.simps [of n] read_digits_append digit_value_digit)
  qed
qed

lemma read_nat_show [simp]: "read_nat (show_nat n) = Some n"
  by (simp add: read_nat_def read_digits_show)

lemma digit_plain: "d < 10 \<Longrightarrow> digit d \<noteq> CHR ''+'' \<and> digit d \<noteq> CHR ''-''"
proof -
  assume d: "d < 10"
  have "digit_value CHR ''+'' = None" "digit_value CHR ''-'' = None"
    by (simp_all add: digit_value_def Let_def)
  then show ?thesis using digit_value_digit [OF d] by force
qed

lemma show_nat_head: "\<exists>d r. d < 10 \<and> show_nat n = digit d # r"
proof (induction n rule: less_induct)
  case (less n)
  show ?case
  proof (cases "n < 10")
    case True
    then show ?thesis by (subst show_nat.simps) auto
  next
    case False
    then obtain d r where "d < 10" "show_nat (n div 10) = digit d # r" using less [of "n div 10"] by auto
    then show ?thesis using False by (subst show_nat.simps) auto
  qed
qed

lemma parse_show_u64: "int n < 2 ^ 64 \<Longrightarrow> parse_u64 (show_nat n) = Ok n"
proof -
  assume n: "int n < 2 ^ 64"
  obtain d r where d: "d < 10" "show_nat n = digit d # r" using show_nat_head by blast
  then have "(case show_nat n of c # r \<Rightarrow> if c = CHR ''+'' then r else show_nat n | [] \<Rightarrow> show_nat n) = show_nat n"
    using digit_plain [OF d(1)] by simp
  then show ?thesis using n by (simp add: parse_u64_def)
qed

lemma parse_show_i64: "- (2 ^ 63) \<le> i \<Longrightarrow> i < 2 ^ 63 \<Longrightarrow> parse_i64 (show_int i) = Some i"
proof -
  assume i: "- (2 ^ 63) \<le> i" "i < 2 ^ 63"
  show ?thesis
  proof (cases "i < 0")
    case True
    then show ?thesis using i by (simp add: parse_i64_def show_int_def)
  next
    case False
    obtain d r where d: "d < 10" "show_nat (nat i) = digit d # r" using show_nat_head by blast
    have "read_nat (digit d # r) = Some (nat i)" by (simp add: d(2) [symmetric])
    then show ?thesis using i False digit_plain [OF d(1)] by (simp add: parse_i64_def show_int_def d(2))
  qed
qed

end
