(* ===== verification/Store_Base.thy ===== *)
theory Store_Base
  imports Schema Numerals "HOL-Library.Product_Lexorder"
begin

text \<open>
  What every operation of the store builds on (src/src/store.rs, src/src/secrets.rs and the
  readers of src/src/delegation.rs): lookups that fail on an unknown row, unique inserts, the
  task tree and inherited context, redaction, the event log, authentication and worker
  registration.
\<close>

section \<open>The environment of an operation\<close>

text \<open>
  What an operation takes from outside the store: the clock in seconds and in milliseconds, SHA-256, the size and the text of a
  serialised value and the parser of JSON text (\<^verbatim>\<open>serde_json\<close>), the secret values of a task's bundles (read from
  private files), the directory that identifies a repository (\<^verbatim>\<open>git rev-parse\<close>) and the
  canonical form of a path, the network configuration's runtime id (\<open>None\<close>: no such file),
  UUID parsing, the fleet's capacity policy, the user's settings, the
  concurrency override of the process environment, the CPUs of the host and those reserved
  for virtual machines, and the checked-out commit of a task's workspace.
\<close>

record capacity_policy =
  cp_warn :: rat
  cp_switch :: rat
  cp_stale :: int

record env =
  now :: int
  millis :: int
  sha256 :: "string \<Rightarrow> string"
  json_len :: "json \<Rightarrow> int"
  json_text :: "json \<Rightarrow> string"
  parse_json :: "string \<Rightarrow> json option"
  secret_values :: "string \<Rightarrow> (string, string) btree result"
  common_dir :: "string \<Rightarrow> string result"
  canonical_path :: "string \<Rightarrow> string result"
  network_runtime :: "string result option"
  parse_uuid :: "string \<Rightarrow> string option"
  fleet_policy :: "capacity_policy result"
  user_settings :: "settings result"
  env_concurrency :: "string option"
  host_cpus :: "nat result"
  reserved_cpus :: "nat result"
  observed_head :: "string \<Rightarrow> string option"

definition operator_status :: string where
  "operator_status = ''operator''"

definition operator_id :: "string \<Rightarrow> string" where
  "operator_id oid = ''operator:'' @ oid"

section \<open>Rows\<close>

definition get_task :: "string \<Rightarrow> store \<Rightarrow> task_row result" where
  "get_task oid s = context_of (find (\<lambda>t. tk_id t = oid) (tasks s)) ''unknown task''"

definition get_worker :: "string \<Rightarrow> store \<Rightarrow> worker_row result" where
  "get_worker wid s = context_of (find (\<lambda>w. wk_id w = wid) (workers s)) ''unknown worker''"

definition get_step :: "string \<Rightarrow> store \<Rightarrow> step_row result" where
  "get_step sid s = context_of (find (\<lambda>r. st_id r = sid) (steps s)) ''step''"

definition steps_of :: "string \<Rightarrow> store \<Rightarrow> step_row list" where
  "steps_of oid s = filter (\<lambda>r. st_task r = oid) (steps s)"

definition authenticate :: "env \<Rightarrow> string \<Rightarrow> store \<Rightarrow> worker_row result" where
  "authenticate env token s =
     and_then (context_of (find (\<lambda>w. wk_token_hash w = sha256 env token) (workers s))
        ''invalid worker token'') (\<lambda>w. get_worker (wk_id w) s)"

text \<open>An insert into a table with a unique key.\<close>

definition insert_unique ::
  "('r \<Rightarrow> 'k) \<Rightarrow> (store \<Rightarrow> 'r list) \<Rightarrow> (('r list \<Rightarrow> 'r list) \<Rightarrow> store \<Rightarrow> store) \<Rightarrow> 'r \<Rightarrow>
    (store, unit) oper" where
  "insert_unique key get upd r =
     (\<lambda>s. if key r \<in> key ` set (get s) then (s, bail ''UNIQUE constraint failed'')
          else (upd (\<lambda>rs. rs @ [r]) s, Ok ()))"

text \<open>\<^verbatim>\<open>INSERT OR IGNORE\<close>.\<close>

definition insert_ignore :: "('r \<Rightarrow> 'k) \<Rightarrow> 'r \<Rightarrow> 'r list \<Rightarrow> 'r list" where
  "insert_ignore key r rs = (if key r \<in> key ` set rs then rs else rs @ [r])"

text \<open>\<^verbatim>\<open>INSERT OR REPLACE\<close>: the old row goes, the new row gets a new row id.\<close>

definition insert_replace :: "('r \<Rightarrow> 'k) \<Rightarrow> 'r \<Rightarrow> 'r list \<Rightarrow> 'r list" where
  "insert_replace key r rs = filter (\<lambda>q. key q \<noteq> key r) rs @ [r]"

text \<open>\<^verbatim>\<open>ON CONFLICT DO UPDATE\<close>: the row is changed in place or appended.\<close>

definition upsert :: "('r \<Rightarrow> 'k) \<Rightarrow> ('r \<Rightarrow> 'r) \<Rightarrow> 'r \<Rightarrow> 'r list \<Rightarrow> 'r list" where
  "upsert key f r rs =
     (if key r \<in> key ` set rs then map (\<lambda>q. if key q = key r then f q else q) rs else rs @ [r])"

lemma keeps_insert_unique [keeps_rules]:
  "(\<And>s. I s \<Longrightarrow> I (upd (\<lambda>rs. rs @ [r]) s)) \<Longrightarrow> keeps I (insert_unique key get upd r)"
  by (simp add: keeps_def insert_unique_def)

lemma yields_insert_unique:
  "(\<And>s. I s \<Longrightarrow> key r \<notin> key ` set (get s) \<Longrightarrow> J (upd (\<lambda>rs. rs @ [r]) s)) \<Longrightarrow> yields I (insert_unique key get upd r) J"
  by (auto simp: yields_def insert_unique_def bail_def split: if_splits)

section \<open>Task tree and inherited context\<close>

definition tree :: "string \<Rightarrow> store \<Rightarrow> tree_row result" where
  "tree oid s = context_of (find (\<lambda>t. tt_task t = oid) (task_tree s)) ''task tree missing''"

definition tree_root :: "string \<Rightarrow> store \<Rightarrow> string result" where
  "tree_root oid s = and_then (tree oid s) (\<lambda>t. Ok (tt_root t))"

definition context_json :: "context_row \<Rightarrow> json" where
  "context_json r = jobj [(''id'', JStr (cx_id r)), (''version'', JInt (cx_version r)),
     (''kind'', JStr (cx_kind r)), (''content'', JStr (cx_content r)),
     (''provenance'', JStr (cx_provenance r))]"

definition mandatory_records :: "string \<Rightarrow> store \<Rightarrow> context_row list" where
  "mandatory_records r0 s =
     sort_key (\<lambda>r. (cx_version r, cx_id r))
       (filter (\<lambda>r. cx_root r = r0 \<and> cx_mandatory r) (context_records s))"

text \<open>
  \<^verbatim>\<open>mandatory\<close> as its callers here read it, the pinned version: a federated task takes it from
  the cached packet, otherwise the mandatory records must fit 256 KiB. The tuple order on the
  sort key is the query's \<^verbatim>\<open>ORDER BY version,id\<close>.
\<close>

definition mandatory_version :: "env \<Rightarrow> string \<Rightarrow> store \<Rightarrow> json result" where
  "mandatory_version env oid s =
     (case map_of (remote_context s) oid of
        Some packet \<Rightarrow> Ok (jget (jget packet ''context'') ''version'')
      | None \<Rightarrow>
          and_then (tree oid s) (\<lambda>t.
            if json_len env (JArr (map context_json (mandatory_records (tt_root t) s))) \<le> 256 * 1024
            then Ok (JInt (tt_version t))
            else bail ''mandatory context exceeds 256 KiB''))"

section \<open>Redaction\<close>

definition redact_values :: "string \<Rightarrow> (string, string) btree \<Rightarrow> string" where
  "redact_values str values =
     fold (\<lambda>secret acc. str_replace secret ''[REDACTED]'' acc)
       (sort_key (\<lambda>v. - int (length v)) (filter (\<lambda>v. v \<noteq> []) (map snd values))) str"

fun redact_walk :: "(string, string) btree \<Rightarrow> json \<Rightarrow> json" where
  "redact_walk values (JStr str) = JStr (redact_values str values)"
| "redact_walk values (JArr vs) = JArr (map (redact_walk values) vs)"
| "redact_walk values (JObj m) = JObj (map (\<lambda>(k, v). (k, redact_walk values v)) m)"
| "redact_walk values JNull = JNull"
| "redact_walk values (JBool b) = JBool b"
| "redact_walk values (JInt n) = JInt n"
| "redact_walk values (JFloat q) = JFloat q"

definition redact :: "env \<Rightarrow> string \<Rightarrow> json \<Rightarrow> json" where
  "redact env oid v =
     (case secret_values env oid of
        Inl _ \<Rightarrow> jobj [(''output_withheld'', JStr ''application bundle unavailable or changed'')]
      | Inr values \<Rightarrow> redact_walk values v)"

section \<open>Events\<close>

definition versioned_kinds :: "string list" where
  "versioned_kinds = [''task.submitted'', ''workflow.revised'', ''workflow.proposed'',
     ''step.finished'', ''integration.conflict'', ''integration.validation_failed'',
     ''integration.succeeded'', ''task.finished'']"

text \<open>The event row's task must exist: the table has a foreign key.\<close>

definition event :: "env \<Rightarrow> string \<Rightarrow> string \<Rightarrow> json \<Rightarrow> (store, unit) oper" where
  "event env task kind data = (\<lambda>s.
     let data' =
       (if kind \<in> set versioned_kinds \<and> as_object data \<noteq> None
        then (case mandatory_version env task s of
                Inl _ \<Rightarrow> data
              | Inr v \<Rightarrow> (case as_i64 v of None \<Rightarrow> data | Some n \<Rightarrow> jset ''context_version'' (JInt n) data))
        else data)
     in if task \<notin> tk_id ` set (tasks s) then (s, bail ''FOREIGN KEY constraint failed'')
        else (s\<lparr>events := events s @
                 [\<lparr>ev_seq = event_seq s + 1, ev_task = task, ev_kind = kind,
                   ev_data = redact env task data', ev_created = now env\<rparr>],
               event_seq := event_seq s + 1\<rparr>, Ok ()))"

text \<open>An event only appends to the log.\<close>

lemma keeps_event [keeps_rules]:
  "(\<And>s es n. I s \<Longrightarrow> I (s\<lparr>events := es, event_seq := n\<rparr>)) \<Longrightarrow> keeps I (event env task kind data)"
  by (simp add: keeps_def event_def Let_def)

definition management_event :: "string \<Rightarrow> json \<Rightarrow> (store, unit) oper" where
  "management_event kind data = modify (\<lambda>s. s\<lparr>management_events := management_events s @ [(kind, data)]\<rparr>)"

definition setting :: "string \<Rightarrow> store \<Rightarrow> string option" where
  "setting key s = map_of (runtime_settings s) key"

definition set_setting :: "string \<Rightarrow> string \<Rightarrow> (store, unit) oper" where
  "set_setting key v = modify (\<lambda>s. s\<lparr>runtime_settings := upsert fst (\<lambda>(k, _). (k, v)) (key, v) (runtime_settings s)\<rparr>)"

lemma map_of_set_key:
  "map_of (map (\<lambda>q. if fst q = l then (\<lambda>(k, _). (k, v)) q else q) rows) k =
     (if k = l \<and> map_of rows k \<noteq> None then Some v else map_of rows k)"
  by (induction rows) auto

lemma map_of_upsert: "map_of (upsert fst (\<lambda>(k, _). (k, v)) (l, v) rows) = (map_of rows)(l \<mapsto> v)"
proof (cases "l \<in> fst ` set rows")
  case True
  then have "map_of rows l \<noteq> None" by (simp add: map_of_eq_None_iff)
  with True show ?thesis by (simp add: upsert_def fun_eq_iff map_of_set_key del: split_paired_All)
next
  case False
  then have "map_of rows l = None" by (simp add: map_of_eq_None_iff)
  with False show ?thesis by (auto simp: upsert_def fun_eq_iff map_add_def split: option.splits)
qed

lemma set_setting_run [runs]:
  "set_setting l v s = (t, Ok u) \<longleftrightarrow>
     t = s\<lparr>runtime_settings := upsert fst (\<lambda>(k, _). (k, v)) (l, v) (runtime_settings s)\<rparr>"
  by (auto simp: set_setting_def modify_def)

lemma thn_set_setting_runs [runs]:
  "thn (set_setting l v) n s = (t, Ok u) \<longleftrightarrow>
     n (s\<lparr>runtime_settings := upsert fst (\<lambda>(k, _). (k, v)) (l, v) (runtime_settings s)\<rparr>) = (t, Ok u)"
  by (simp add: set_setting_def runs)

lemma setting_upsert [simp]:
  "setting k (s\<lparr>runtime_settings := upsert fst (\<lambda>(k, _). (k, v)) (l, v) (runtime_settings s)\<rparr>) =
     (if k = l then Some v else setting k s)"
  by (simp add: setting_def map_of_upsert)

definition draining :: "store \<Rightarrow> bool" where
  "draining s = (setting ''draining'' s = Some ''true'')"

section \<open>Updates used by several operations\<close>

definition set_task_status :: "(task_row \<Rightarrow> bool) \<Rightarrow> string \<Rightarrow> store \<Rightarrow> store" where
  "set_task_status p st s = s\<lparr>tasks := update_rows p (\<lambda>t. t\<lparr>tk_status := st\<rparr>) (tasks s)\<rparr>"

definition set_step_state :: "(step_row \<Rightarrow> bool) \<Rightarrow> string \<Rightarrow> store \<Rightarrow> store" where
  "set_step_state p st s = s\<lparr>steps := update_rows p (\<lambda>r. r\<lparr>st_state := st\<rparr>) (steps s)\<rparr>"

definition set_worker_status :: "(worker_row \<Rightarrow> bool) \<Rightarrow> string \<Rightarrow> store \<Rightarrow> store" where
  "set_worker_status p st s = s\<lparr>workers := update_rows p (\<lambda>w. w\<lparr>wk_status := st\<rparr>) (workers s)\<rparr>"

section \<open>Workers\<close>

text \<open>
  \<^verbatim>\<open>Store::register\<close>; \<open>wid\<close> and \<open>token\<close> are the fresh identifiers the code draws. The result is
  the worker's id and the token, which only its hash represents in the store.
\<close>

definition register :: "env \<Rightarrow> string \<Rightarrow> string \<Rightarrow> string \<Rightarrow> string option \<Rightarrow> (store, string \<times> string) oper" where
  "register env wid token oid stp =
     bnd (ask_state (get_task oid)) (\<lambda>_.
     thn (case stp of None \<Rightarrow> ret ()
          | Some t \<Rightarrow>
              bnd (ask_state (\<lambda>s. context_of (find (\<lambda>r. st_id r = t) (steps s)) ''Query returned no rows''))
                (\<lambda>r. guard (st_task r = oid) ''step belongs to another task''))
     (atomic (
       thn (insert_unique wk_id workers workers_update
             \<lparr>wk_id = wid, wk_task = oid, wk_step = stp, wk_status = ''idle'',
              wk_token_hash = sha256 env token, wk_workspace = None, wk_updated = now env\<rparr>)
      (thn (insert_unique sq_worker cursors cursors_update \<lparr>sq_worker = wid, sq_seq = 0\<rparr>)
      (thn (insert_unique sq_worker notifications notifications_update \<lparr>sq_worker = wid, sq_seq = 0\<rparr>)
      (thn (event env oid ''worker.registered'' (jobj [(''worker'', JStr wid), (''step'', jstr_opt stp)]))
      (ret (wid, token))))))))"

section \<open>Lookups under updates that keep ids and tasks\<close>

lemma find_same_keys:
  assumes "map wk_id xs = map wk_id ys" and "map wk_task xs = map wk_task ys"
    and "find (\<lambda>w. wk_id w = i) xs = Some w"
  shows "\<exists>v. find (\<lambda>w. wk_id w = i) ys = Some v \<and> wk_task v = wk_task w"
  using assms
proof (induction xs arbitrary: ys)
  case Nil
  then show ?case by simp
next
  case (Cons x xs)
  then show ?case by (cases ys) (auto split: if_splits)
qed

lemma get_worker_same:
  assumes "map wk_id (workers t) = map wk_id (workers s)" "map wk_task (workers t) = map wk_task (workers s)"
    and "get_worker i s = Ok w"
  shows "\<exists>v. get_worker i t = Ok v \<and> wk_task v = wk_task w"
  using find_same_keys [OF assms(1,2) [symmetric], of i w] assms(3)
  by (auto simp: get_worker_def context_of_Ok_iff)

section \<open>A concrete environment\<close>

definition sample_env :: env where
  "sample_env = \<lparr>now = 100, millis = 100000, sha256 = (\<lambda>x. ''#'' @ x), json_len = (\<lambda>_. 0), json_text = (\<lambda>_. ''json''), parse_json = (\<lambda>_. None), secret_values = (\<lambda>_. Ok []),
     common_dir = Ok, canonical_path = Ok, network_runtime = None, parse_uuid = (\<lambda>_. None),
     fleet_policy = Ok \<lparr>cp_warn = 80, cp_switch = 90, cp_stale = 300\<rparr>, user_settings = Ok sample_settings,
     env_concurrency = None, host_cpus = Ok 8, reserved_cpus = Ok 0, observed_head = (\<lambda>_. None)\<rparr>"

definition sample_task :: "string \<Rightarrow> task_row" where
  "sample_task oid = \<lparr>tk_id = oid, tk_objective = ''work'', tk_repo = ''.'', tk_status = ''running'',
     tk_settings = sample_settings, tk_plan = empty_plan, tk_created = 0\<rparr>"

definition sample_worker :: "string \<Rightarrow> string \<Rightarrow> worker_row" where
  "sample_worker oid wid = \<lparr>wk_id = wid, wk_task = oid, wk_step = None, wk_status = ''idle'',
     wk_token_hash = ''#'' @ wid, wk_workspace = Some ''ws'', wk_updated = 0\<rparr>"

end
