(* ===== verification/Metrics.thy ===== *)
theory Metrics
  imports Json "HOL-Library.Word"
begin

text \<open>
  The usage that a provider reports for an attempt (src/src/metrics.rs): token counts are 64-bit
  words, whose sum wraps as in a release build, costs are rationals. A report may hold a list of
  requests or a nested provider report.
\<close>

record usage =
  us_input :: "64 word"
  us_output :: "64 word"
  us_cached :: "64 word"
  us_cost :: rat
  us_reported :: bool
  us_cost_reported :: bool

definition no_usage :: usage where
  "no_usage = \<lparr>us_input = 0, us_output = 0, us_cached = 0, us_cost = 0, us_reported = False, us_cost_reported = False\<rparr>"

fun as_f64 :: "json \<Rightarrow> rat option" where
  "as_f64 (JInt n) = Some (of_int n)"
| "as_f64 (JFloat r) = Some r"
| "as_f64 _ = None"

definition first_of :: "('a \<Rightarrow> 'b option) \<Rightarrow> 'a list \<Rightarrow> 'b option" where
  "first_of f xs = (case List.map_filter f xs of [] \<Rightarrow> None | y # _ \<Rightarrow> Some y)"

definition add_usage :: "usage \<Rightarrow> usage \<Rightarrow> usage" where
  "add_usage r u = \<lparr>us_input = us_input r + us_input u, us_output = us_output r + us_output u,
     us_cached = us_cached r + us_cached u, us_cost = us_cost r + us_cost u,
     us_reported = (us_reported r \<or> us_reported u), us_cost_reported = (us_cost_reported r \<or> us_cost_reported u)\<rparr>"

text \<open>The counts that the report itself states, on top of its parts.\<close>

definition own_usage :: "json \<Rightarrow> usage \<Rightarrow> usage" where
  "own_usage v r =
     (let i = first_of as_u64 [jget v ''input_tokens'', jget v ''prompt_tokens''];
          out = first_of as_u64 [jget v ''output_tokens'', jget v ''completion_tokens''];
          cached = first_of as_u64 [jget v ''cached_input_tokens'', jget v ''cache_read_input_tokens'',
            jget (jget v ''prompt_tokens_details'') ''cached_tokens''];
          cost = first_of as_f64 [jget v ''api_cost_usd'', jget v ''total_cost_usd'']
      in \<lparr>us_input = us_input r + (case i of None \<Rightarrow> 0 | Some n \<Rightarrow> word_of_int n),
          us_output = us_output r + (case out of None \<Rightarrow> 0 | Some n \<Rightarrow> word_of_int n),
          us_cached = us_cached r + (case cached of None \<Rightarrow> 0 | Some n \<Rightarrow> word_of_int n),
          us_cost = (case cost of None \<Rightarrow> us_cost r | Some c \<Rightarrow> c),
          us_reported = (us_reported r \<or> i \<noteq> None \<or> out \<noteq> None),
          us_cost_reported = (us_cost_reported r \<or> cost \<noteq> None)\<rparr>)"

lemma member_smaller: "(k, v) \<in> set m \<Longrightarrow> size v < size (JObj m)"
  by (induction m) auto

lemma jget_smaller: "jget v k \<noteq> JNull \<Longrightarrow> size (jget v k) < size v"
  by (cases v) (auto split: option.splits dest!: map_of_SomeD member_smaller)

lemma array_smaller: "as_array (jget v k) = Some xs \<Longrightarrow> x \<in> set xs \<Longrightarrow> size x < size v"
proof -
  assume a: "as_array (jget v k) = Some xs" and x: "x \<in> set xs"
  then obtain ys where "jget v k = JArr ys" "ys = xs" by (cases "jget v k") auto
  moreover have "size x < size (JArr xs)" using x by (induction xs) auto
  ultimately show ?thesis using jget_smaller [of v k] by simp
qed

function usage_of :: "json \<Rightarrow> usage" where
  "usage_of v =
     (let parts = (case as_array (jget v ''requests'') of None \<Rightarrow> no_usage
        | Some rs \<Rightarrow> fold (\<lambda>r acc. add_usage acc (usage_of r)) rs no_usage)
      in own_usage v (if as_object (jget v ''provider'') = None then parts else usage_of (jget v ''provider'')))"
  by pat_completeness auto

termination usage_of
proof (relation "measure size", goal_cases)
  case 1
  then show ?case by simp
next
  case (2 v rs r)
  then show ?case using array_smaller by fastforce
next
  case (3 v)
  then show ?case using jget_smaller [of v "''provider''"] by (cases "jget v ''provider''") auto
qed

declare usage_of.simps [simp del]

definition totals :: "json \<Rightarrow> 64 word option \<times> rat option" where
  "totals v = (let u = usage_of v in
     (if us_reported u then Some (us_input u + us_output u) else None,
      if us_cost_reported u then Some (us_cost u) else None))"

text \<open>\<^verbatim>\<open>u64::saturating_add\<close>.\<close>

definition saturating_add :: "64 word \<Rightarrow> 64 word \<Rightarrow> 64 word" where
  "saturating_add a b = (if a + b < a then - 1 else a + b)"

lemma saturating_add_nat: "unat (saturating_add a b) = min (2 ^ 64 - 1) (unat a + unat b)"
proof (cases "unat a + unat b < 2 ^ 64")
  case True
  then have "unat (a + b) = unat a + unat b" by (simp add: unat_word_ariths)
  with True show ?thesis by (simp add: saturating_add_def word_less_nat_alt)
next
  case False
  have "unat a < 2 ^ 64" "unat b < 2 ^ 64" using unsigned_less [of a] unsigned_less [of b] by simp_all
  with False have "(unat a + unat b) mod 2 ^ 64 = unat a + unat b - 2 ^ 64"
    by (simp add: mod_if)
  then have "unat (a + b) = unat a + unat b - 2 ^ 64" by (simp add: unat_word_ariths)
  then have "unat (a + b) < unat a" using False \<open>unat b < 2 ^ 64\<close> by linarith
  with False show ?thesis by (simp add: saturating_add_def word_less_nat_alt unsigned_minus_1_eq_mask mask_eq_exp_minus_1)
qed

end
