(* ===== verification/Budget.thy ===== *)
theory Budget
  imports Store_Base Metrics
begin

text \<open>
  Progress budgets of attempts (src/src/budget.rs). The events of an attempt carry its timing:
  when the budget started, when the worker last made progress, and when storage pressure
  suspended it. Times are milliseconds (64-bit words in the code, whose differences saturate),
  durations are rationals.
\<close>

definition budget_seconds :: "settings \<Rightarrow> step \<Rightarrow> string \<Rightarrow> nat" where
  "budget_seconds sg stp role =
     unwrap_or (or_else (s_step_budget_seconds stp)
       (Option.bind (map_of (sg_executors sg) role) ex_step_budget_seconds)) (sg_step_budget_seconds sg)"

section \<open>The timing of an attempt\<close>

record budget_scan =
  bs_started :: "json option"
  bs_last :: int
  bs_pauses :: "(int \<times> int) list"
  bs_paused_at :: "int option"

definition budget_kinds :: "string list" where
  "budget_kinds = [''step.budget_started'', ''step.progress'', ''step.budget_finished'', ''storage.paused'', ''storage.resumed'']"

definition at_ms :: "json \<Rightarrow> int \<Rightarrow> int" where
  "at_ms data d = unwrap_or (as_u64 (jget data ''at_ms'')) d"

definition end_pause :: "json \<Rightarrow> budget_scan \<Rightarrow> budget_scan" where
  "end_pause data c =
     (case bs_paused_at c of None \<Rightarrow> c
      | Some t0 \<Rightarrow> c\<lparr>bs_paused_at := None, bs_pauses := bs_pauses c @ [(t0, at_ms data t0)]\<rparr>)"

text \<open>The loop over the events; \<open>Inl\<close> is the timing that a finished budget has recorded.\<close>

fun scan_budget :: "event_row list \<Rightarrow> budget_scan \<Rightarrow> json + budget_scan" where
  "scan_budget [] c = Inr c"
| "scan_budget (e # es) c =
     (let data = ev_data e; kind = ev_kind e in
      if kind = ''step.budget_started'' then scan_budget es (c\<lparr>bs_last := at_ms data 0, bs_started := Some data\<rparr>)
      else if kind = ''step.progress'' then scan_budget es (c\<lparr>bs_last := max (bs_last c) (at_ms data 0)\<rparr>)
      else if kind = ''step.budget_finished'' then Inl (jget data ''timing'')
      else if kind = ''storage.paused''
      then scan_budget es (c\<lparr>bs_paused_at := Some (case bs_paused_at c of None \<Rightarrow> at_ms data 0 | Some t0 \<Rightarrow> t0)\<rparr>)
      else if kind = ''storage.resumed'' then scan_budget es (end_pause data c)
      else scan_budget es c)"

text \<open>\<^verbatim>\<open>u64::saturating_sub\<close> and the suspended time since a moment, a sum of 64-bit words.\<close>

definition minus_sat :: "int \<Rightarrow> int \<Rightarrow> int" where
  "minus_sat a b = max 0 (a - b)"

definition paused_since :: "(int \<times> int) list \<Rightarrow> int \<Rightarrow> int \<Rightarrow> int" where
  "paused_since pauses stop since =
     sum_list (map (\<lambda>(a, b). minus_sat (min b stop) (max a since)) pauses) mod 2 ^ 64"

definition seconds_of :: "int \<Rightarrow> rat" where
  "seconds_of ms = of_int ms / 1000"

definition exempt_timing :: "rat \<Rightarrow> rat \<Rightarrow> json" where
  "exempt_timing elapsed paused = jobj [(''elapsed_s'', JFloat elapsed), (''paused_s'', JFloat paused), (''idle_s'', JNull),
     (''budget_s'', JNull), (''remaining_s'', JNull), (''budget_exempt'', JBool True)]"

definition budget_end :: "env \<Rightarrow> string \<Rightarrow> store \<Rightarrow> int" where
  "budget_end env attempt s =
     (case Option.bind (find (\<lambda>a. at_id a = attempt) (attempts s)) at_finished of
        None \<Rightarrow> millis env
      | Some n \<Rightarrow> if 0 \<le> n then min (2 ^ 64 - 1) (n * 1000) else millis env)"

definition budget_timing :: "int \<Rightarrow> json \<Rightarrow> budget_scan \<Rightarrow> json" where
  "budget_timing stop started c =
     (let t0 = at_ms started stop;
          elapsed = seconds_of (minus_sat stop t0);
          pauses = (case bs_paused_at c of None \<Rightarrow> bs_pauses c | Some a \<Rightarrow> bs_pauses c @ [(a, stop)]);
          paused = seconds_of (paused_since pauses stop t0) in
      if jget started ''budget_exempt'' = JBool True then exempt_timing elapsed paused
      else
        let idle = seconds_of (minus_sat (minus_sat stop (bs_last c)) (paused_since pauses stop (bs_last c)));
            budget = unwrap_or (as_u64 (jget started ''budget_s'')) 0
        in jobj [(''elapsed_s'', JFloat elapsed), (''paused_s'', JFloat paused), (''idle_s'', JFloat idle),
             (''budget_s'', JInt budget), (''remaining_s'', JFloat (max 0 (of_int budget - idle)))])"

definition budget_events :: "string \<Rightarrow> store \<Rightarrow> event_row list" where
  "budget_events attempt s =
     filter (\<lambda>e. ev_kind e \<in> set budget_kinds \<and> jget (ev_data e) ''attempt'' = JStr attempt) (events s)"

definition budget_status :: "env \<Rightarrow> string \<Rightarrow> store \<Rightarrow> json" where
  "budget_status env attempt s =
     (case scan_budget (budget_events attempt s) \<lparr>bs_started = None, bs_last = 0, bs_pauses = [], bs_paused_at = None\<rparr> of
        Inl timing \<Rightarrow> timing
      | Inr c \<Rightarrow> (case bs_started c of None \<Rightarrow> JNull | Some started \<Rightarrow> budget_timing (budget_end env attempt s) started c))"

section \<open>Progress\<close>

text \<open>The latest running attempt of a worker with its step.\<close>

definition running_attempt :: "string \<Rightarrow> store \<Rightarrow> (attempt_row \<times> step_row) option" where
  "running_attempt worker s =
     (case sort_key (\<lambda>(a, t). - at_started a)
         [(a, t). a \<leftarrow> attempts s, t \<leftarrow> steps s, st_id t = at_step a \<and> at_worker a = Some worker \<and> at_state a = ''running''] of
        [] \<Rightarrow> None | x # _ \<Rightarrow> Some x)"

definition last_progress :: "string \<Rightarrow> string \<Rightarrow> store \<Rightarrow> json option" where
  "last_progress attempt reason s =
     (case rev (filter (\<lambda>e. ev_kind e = ''step.progress'' \<and> jget (ev_data e) ''attempt'' = JStr attempt \<and>
          jget (ev_data e) ''reason'' = JStr reason) (events s)) of
        [] \<Rightarrow> None | e # _ \<Rightarrow> Some (ev_data e))"

text \<open>
  A repeated fingerprint is no progress. The deadline of the supervising process, which the code
  moves as well, is not part of the store.
\<close>

definition record_progress :: "env \<Rightarrow> attempt_row \<times> step_row \<Rightarrow> string \<Rightarrow> string \<Rightarrow> string \<Rightarrow> (store, unit) oper" where
  "record_progress env cur worker reason fingerprint =
     bnd (ask_state (\<lambda>s. Ok (budget_status env (at_id (fst cur)) s, last_progress (at_id (fst cur)) reason s))) (\<lambda>(timing, prev).
     if (case prev of None \<Rightarrow> False | Some v \<Rightarrow> jget v ''fingerprint'' = JStr fingerprint) then ret ()
     else event env (st_task (snd cur)) ''step.progress''
       (jobj [(''step'', JStr (st_id (snd cur))), (''attempt'', JStr (at_id (fst cur))), (''worker'', JStr worker),
          (''reason'', JStr reason), (''fingerprint'', JStr fingerprint), (''at_ms'', JInt (millis env)),
          (''elapsed_s'', jget timing ''elapsed_s''), (''budget_s'', jget timing ''budget_s''),
          (''remaining_s'', jget timing ''budget_s'')]))"

definition budget_left :: "json \<Rightarrow> bool" where
  "budget_left timing = (timing \<noteq> JNull \<and> unwrap_or (as_f64 (jget timing ''remaining_s'')) 0 > 0)"

definition progress :: "env \<Rightarrow> string \<Rightarrow> string \<Rightarrow> string \<Rightarrow> (store, unit) oper" where
  "progress env worker reason fingerprint =
     bnd (ask_state (\<lambda>s. Ok (running_attempt worker s))) (\<lambda>r.
     case r of None \<Rightarrow> ret ()
     | Some cur \<Rightarrow>
         bnd (ask_state (\<lambda>s. Ok (budget_status env (at_id (fst cur)) s))) (\<lambda>timing.
         if budget_left timing then record_progress env cur worker reason fingerprint else ret ()))"

definition observed_change :: "env \<Rightarrow> string \<Rightarrow> string \<Rightarrow> (store, unit) oper" where
  "observed_change env worker fingerprint =
     bnd (ask_state (\<lambda>s. Ok (running_attempt worker s))) (\<lambda>r.
     case r of None \<Rightarrow> ret () | Some cur \<Rightarrow> record_progress env cur worker ''workspace_changed'' fingerprint)"

text \<open>\<^verbatim>\<open>annotate\<close>: the timing of an attempt without a budget is its age in seconds.\<close>

definition annotated_timing :: "env \<Rightarrow> attempt_row \<Rightarrow> store \<Rightarrow> json" where
  "annotated_timing env a s =
     (let timing = budget_status env (at_id a) s in
      if timing \<noteq> JNull then timing
      else jobj [(''elapsed_s'', JInt (max 0 (unwrap_or (at_finished a) (now env) - at_started a))), (''idle_s'', JNull),
             (''budget_s'', JNull), (''remaining_s'', JNull)])"

end
