(* ===== verification/Strings.thy ===== *)
theory Strings
  imports Numerals
begin

text \<open>
  The functions of the Rust standard library on strings and characters that the checks of
  identifiers and headers use. They work on ASCII bytes; \<open>has_control\<close> also knows the two-byte
  encoding of the other control characters.
\<close>

section \<open>Characters\<close>

definition ascii_alnum :: "char \<Rightarrow> bool" where
  "ascii_alnum c = (let n = of_char c :: nat in
     48 \<le> n \<and> n \<le> 57 \<or> 65 \<le> n \<and> n \<le> 90 \<or> 97 \<le> n \<and> n \<le> 122)"

definition ascii_lower_or_digit :: "char \<Rightarrow> bool" where
  "ascii_lower_or_digit c = (let n = of_char c :: nat in 48 \<le> n \<and> n \<le> 57 \<or> 97 \<le> n \<and> n \<le> 122)"

definition ascii_digit :: "char \<Rightarrow> bool" where
  "ascii_digit c = (let n = of_char c :: nat in 48 \<le> n \<and> n \<le> 57)"

definition ascii_graphic :: "char \<Rightarrow> bool" where
  "ascii_graphic c = (let n = of_char c :: nat in 33 \<le> n \<and> n \<le> 126)"

definition ascii_lower :: "char \<Rightarrow> char" where
  "ascii_lower c = (let n = of_char c :: nat in if 65 \<le> n \<and> n \<le> 90 then char_of (n + 32) else c)"

definition same_ignoring_case :: "string \<Rightarrow> string \<Rightarrow> bool" where
  "same_ignoring_case a b = (map ascii_lower a = map ascii_lower b)"

definition ascii_control :: "char \<Rightarrow> bool" where
  "ascii_control c = (let n = of_char c :: nat in n < 32 \<or> n = 127)"

text \<open>\<^verbatim>\<open>chars().any(char::is_control)\<close> on the bytes of a string.\<close>

fun has_control :: "string \<Rightarrow> bool" where
  "has_control [] = False"
| "has_control (c # cs) =
     (ascii_control c \<or>
      ((of_char c :: nat) = 0xC2 \<and> (case cs of [] \<Rightarrow> False | d # _ \<Rightarrow> (of_char d :: nat) \<in> {0x80..0x9F})) \<or>
      has_control cs)"

definition white :: "char \<Rightarrow> bool" where
  "white c = (c \<in> {CHR '' '', CHR 0x09, CHR 0x0A, CHR 0x0B, CHR 0x0C, CHR 0x0D})"

section \<open>Trimming and splitting\<close>

definition trim_start :: "string \<Rightarrow> string" where
  "trim_start s = dropWhile white s"

definition trim_end :: "string \<Rightarrow> string" where
  "trim_end s = rev (dropWhile white (rev s))"

definition trim :: "string \<Rightarrow> string" where
  "trim s = trim_end (trim_start s)"

definition split_once :: "char \<Rightarrow> string \<Rightarrow> (string \<times> string) option" where
  "split_once c s = find_split [c] s"

definition strip_prefix :: "string \<Rightarrow> string \<Rightarrow> string option" where
  "strip_prefix p s = (if prefix p s then Some (drop (length p) s) else None)"

lemma split_once_Some: "split_once c s = Some (a, b) \<Longrightarrow> s = a @ c # b"
  unfolding split_once_def by (drule find_split_Some) simp

lemma split_once_join: "c \<notin> set a \<Longrightarrow> split_once c (a @ c # b) = Some (a, b)"
  unfolding split_once_def by (induction a) (auto simp: prefix_def)

lemma strip_prefix_Some: "strip_prefix p s = Some t \<longleftrightarrow> s = p @ t"
  by (auto simp: strip_prefix_def prefix_def)

lemma trim_start_nonwhite: "s = [] \<or> \<not> white (hd s) \<Longrightarrow> trim_start s = s"
  unfolding trim_start_def by (cases s) auto

lemma trim_end_nonwhite: "s = [] \<or> \<not> white (last s) \<Longrightarrow> trim_end s = s"
  unfolding trim_end_def by (cases s rule: rev_cases) auto

lemma length_trim_start: "length (trim_start s) \<le> length s"
  by (simp add: trim_start_def length_dropWhile_le)

lemma graphic_not_white: "ascii_graphic c \<Longrightarrow> \<not> white c"
  by (auto simp: ascii_graphic_def white_def)

lemma alnum_graphic: "ascii_alnum c \<Longrightarrow> ascii_graphic c"
  by (auto simp: ascii_alnum_def ascii_graphic_def Let_def)

lemma same_ignoring_case_refl [simp]: "same_ignoring_case a a"
  by (simp add: same_ignoring_case_def)

end
