(* ===== verification/Projects.thy ===== *)
theory Projects
  imports Store_Base Strings
begin

text \<open>
  Project ownership (src/src/projects.rs): resolving projects, repositories and tasks with one
  immutable owner, tenants, and which runtime may run a project's work, including the runtimes
  dedicated to one project. Paths are inspected by \<open>common_dir\<close>, the git call of the source.
\<close>

section \<open>Projects, repositories and tasks\<close>

definition default_project :: string where
  "default_project = ''default''"

definition resolve_project :: "string \<Rightarrow> store \<Rightarrow> string result" where
  "resolve_project project s =
     and_then (context_of (find (\<lambda>p. pj_id p = project \<or> pj_slug p = project) (projects s)) ''unknown project'')
       (\<lambda>p. Ok (pj_id p))"

definition task_project :: "string \<Rightarrow> store \<Rightarrow> string result" where
  "task_project task s =
     and_then (context_of (find (\<lambda>r. tp_task r = task) (task_projects s)) ''task project not found'')
       (\<lambda>r. Ok (tp_project r))"

definition tenant :: "string \<Rightarrow> store \<Rightarrow> string result" where
  "tenant project s =
     and_then (resolve_project project s) (\<lambda>p.
       Ok (case find (\<lambda>r. tn_project r = p) (project_tenants s) of
             None \<Rightarrow> p | Some r \<Rightarrow> tn_tenant r))"

definition validate_tenant :: "string \<Rightarrow> unit result" where
  "validate_tenant v =
     require (v \<noteq> [] \<and> length v \<le> 128 \<and> list_all (\<lambda>c. ascii_alnum c \<or> c = CHR ''-'' \<or> c = CHR ''_'') v)
       ''tenant_id must contain 1..128 letters, digits, hyphens or underscores''"

definition authorize_task :: "string \<Rightarrow> string \<Rightarrow> store \<Rightarrow> unit result" where
  "authorize_task project task s =
     and_then (resolve_project project s) (\<lambda>p.
       require (task_project task s = Ok p) ''task not found in project'')"

text \<open>\<^verbatim>\<open>infer\<close>: the owner of the repository that a path belongs to.\<close>

definition infer_project :: "env \<Rightarrow> string \<Rightarrow> store \<Rightarrow> string option result" where
  "infer_project env repo s =
     and_then (common_dir env repo) (\<lambda>common.
       Ok (map_option rp_project (find (\<lambda>r. rp_common r = common) (project_repositories s))))"

text \<open>\<open>fresh\<close> is the identifier the code draws for a new repository.\<close>

definition register_repository_identity :: "env \<Rightarrow> string \<Rightarrow> string \<Rightarrow> string \<Rightarrow> string \<Rightarrow> (store, string) oper" where
  "register_repository_identity env fresh project repo common =
     bnd (ask_state (\<lambda>s. Ok (find (\<lambda>r. rp_common r = common) (project_repositories s)))) (\<lambda>existing.
       case existing of
         Some r \<Rightarrow>
           thn (guard (rp_project r = project) ''repository or its worktrees already belong to another project'')
               (ret (rp_id r))
       | None \<Rightarrow>
           bnd (ask_state (\<lambda>_. canonical_path env repo)) (\<lambda>path.
           thn (insert_unique rp_id project_repositories project_repositories_update
                  \<lparr>rp_id = fresh, rp_project = project, rp_path = path, rp_common = common\<rparr>)
               (ret fresh)))"

definition register_repository :: "env \<Rightarrow> string \<Rightarrow> string \<Rightarrow> string \<Rightarrow> (store, string) oper" where
  "register_repository env fresh project repo =
     bnd (ask_state (resolve_project project)) (\<lambda>p.
     bnd (ask_state (\<lambda>_. common_dir env repo)) (\<lambda>common.
       register_repository_identity env fresh p repo common))"

definition bind_task :: "env \<Rightarrow> string \<Rightarrow> string \<Rightarrow> string \<Rightarrow> string \<Rightarrow> (store, unit) oper" where
  "bind_task env fresh task project repo =
     bnd (ask_state (resolve_project project)) (\<lambda>p.
     atomic (
       bnd (ask_state (\<lambda>s. Ok (find (\<lambda>r. tp_task r = task) (task_projects s)))) (\<lambda>owner.
         case owner of
           Some r \<Rightarrow>
             thn (guard (tp_project r = p) ''task project ownership is immutable'')
                 (case tp_repository r of
                    None \<Rightarrow> ret ()
                  | Some existing \<Rightarrow>
                      bnd (register_repository env fresh p repo) (\<lambda>id.
                        guard (id = existing) ''task repository ownership is immutable''))
         | None \<Rightarrow>
             bnd (register_repository env fresh p repo) (\<lambda>id.
               insert_unique tp_task task_projects task_projects_update
                 \<lparr>tp_task = task, tp_project = p, tp_repository = Some id\<rparr>))))"

section \<open>Runtimes\<close>

definition local_runtime_identity :: "env \<Rightarrow> store \<Rightarrow> string result" where
  "local_runtime_identity env s =
     (let cached = setting ''runtime.identity'' s in
      case network_runtime env of
        Some (Inr identity) \<Rightarrow> Ok identity
      | Some (Inl e) \<Rightarrow> (case cached of Some c \<Rightarrow> Ok c | None \<Rightarrow> Inl e)
      | None \<Rightarrow> Ok (unwrap_or cached ''local''))"

definition local_runtime :: "env \<Rightarrow> (store, string) oper" where
  "local_runtime env =
     bnd (ask_state (local_runtime_identity env)) (\<lambda>identity.
     bnd (ask_state (\<lambda>s. Ok (setting ''runtime.identity'' s))) (\<lambda>cached.
     thn (when_op (cached \<noteq> Some identity) (set_setting ''runtime.identity'' identity))
         (ret identity)))"

text \<open>The second name of a runtime: the local runtime is known by its identity and as \<^verbatim>\<open>local\<close>.\<close>

definition runtime_alias :: "string \<Rightarrow> string \<Rightarrow> string" where
  "runtime_alias runtime lcl =
     (if runtime = ''local'' then lcl else if runtime = lcl then ''local'' else runtime)"

definition foreign_binding :: "string \<Rightarrow> string list \<Rightarrow> store \<Rightarrow> bool" where
  "foreign_binding project names s =
     exists_row (\<lambda>r. rt_runtime r \<in> set names \<and> rt_project r \<noteq> project) (runtime_project_bindings s)"

definition has_row :: "string \<Rightarrow> string list \<Rightarrow> runtime_row list \<Rightarrow> bool" where
  "has_row project names rows = exists_row (\<lambda>r. rt_project r = project \<and> rt_runtime r \<in> set names) rows"

definition drop_rows :: "string \<Rightarrow> string list \<Rightarrow> runtime_row list \<Rightarrow> runtime_row list" where
  "drop_rows project names rows = filter (\<lambda>r. \<not> (rt_project r = project \<and> rt_runtime r \<in> set names)) rows"

definition runtime_key :: "runtime_row \<Rightarrow> string \<times> string" where
  "runtime_key r = (rt_project r, rt_runtime r)"

definition add_row :: "string \<Rightarrow> string \<Rightarrow> runtime_row list \<Rightarrow> runtime_row list" where
  "add_row project runtime rows = insert_ignore runtime_key \<lparr>rt_project = project, rt_runtime = runtime\<rparr> rows"

definition bind_runtime :: "env \<Rightarrow> string \<Rightarrow> string \<Rightarrow> (store, unit) oper" where
  "bind_runtime env project runtime =
     bnd (ask_state (resolve_project project)) (\<lambda>p.
     thn (guard (runtime \<noteq> [] \<and> length runtime \<le> 256) ''invalid runtime identity'')
    (bnd (local_runtime env) (\<lambda>lcl.
     let names = [runtime, runtime_alias runtime lcl] in
     atomic (
       bnd (ask_state (\<lambda>s. Ok (foreign_binding p names s \<or>
              exists_row (\<lambda>r. rt_runtime r \<in> set names \<and> rt_project r \<noteq> p) (project_runtime_grants s)))) (\<lambda>conflict.
       thn (guard (\<not> conflict) ''runtime is already bound or granted to another project'')
      (thn (modify (\<lambda>s. s\<lparr>runtime_project_bindings := insert_ignore rt_runtime
              \<lparr>rt_project = p, rt_runtime = (if runtime = lcl then ''local'' else runtime)\<rparr>
              (runtime_project_bindings s)\<rparr>))
      (thn (modify (\<lambda>s. s\<lparr>project_runtime_revocations := drop_rows p names (project_runtime_revocations s)\<rparr>))
           (modify (\<lambda>s. s\<lparr>project_runtime_grants := add_row p runtime (project_runtime_grants s)\<rparr>)))))))))"

text \<open>The decision of \<^verbatim>\<open>runtime_allowed\<close> for a resolved project and the names of the runtime.\<close>

definition allowed_names :: "string \<Rightarrow> string list \<Rightarrow> store \<Rightarrow> bool" where
  "allowed_names p names s =
     (if foreign_binding p names s then False
      else if has_row p names (project_runtime_revocations s) then False
      else if p = default_project \<and> \<not> list_ex (\<lambda>n. n \<in> set (managed_runtimes s)) names then True
      else has_row p names (project_runtime_grants s))"

definition runtime_allowed :: "env \<Rightarrow> string \<Rightarrow> string \<Rightarrow> (store, bool) oper" where
  "runtime_allowed env project runtime =
     bnd (ask_state (resolve_project project)) (\<lambda>p.
     bnd (local_runtime env) (\<lambda>lcl.
     ask_state (\<lambda>s. Ok (allowed_names p [runtime, runtime_alias runtime lcl] s))))"

section \<open>Commands\<close>

definition required :: "json \<Rightarrow> string \<Rightarrow> string result" where
  "required args key =
     context_of (case as_str (jget args key) of None \<Rightarrow> None | Some v \<Rightarrow> if blank v then None else Some v)
       (key @ '' is required'')"

lemma required_Ok_iff: "required args key = Ok v \<longleftrightarrow> as_str (jget args key) = Some v \<and> \<not> blank v"
  by (auto simp: required_def context_of_Ok_iff split: option.splits)

definition validate_slug :: "env \<Rightarrow> string \<Rightarrow> unit result" where
  "validate_slug env slug =
     and_then (require (parse_uuid env slug = None) ''project slug cannot be a UUID'') (\<lambda>_.
     require (slug \<noteq> [] \<and> length slug \<le> 64 \<and>
         list_all (\<lambda>c. ascii_lower_or_digit c \<or> c = CHR ''-'' \<or> c = CHR ''_'') slug)
       ''project slug must contain 1..64 lowercase letters, digits, hyphens or underscores'')"

definition project_options :: "json \<Rightarrow> int \<Rightarrow> string \<Rightarrow> (int \<times> string) result" where
  "project_options args concurrency isolation =
     and_then (case jfield args ''concurrency'' of None \<Rightarrow> Ok concurrency
        | Some v \<Rightarrow> context_of (as_u64 v) ''concurrency must be an integer'') (\<lambda>c.
     and_then (require (1 \<le> c \<and> c \<le> 64) ''concurrency must be between 1 and 64'') (\<lambda>_.
     and_then (case jfield args ''isolation'' of None \<Rightarrow> Ok isolation
        | Some v \<Rightarrow> context_of (as_str v) ''isolation must be a string'') (\<lambda>i.
     and_then (require (i = ''native'' \<or> i = ''vm'') ''isolation must be native or vm'') (\<lambda>_.
     Ok (c, i)))))"

definition require_state :: "(store \<Rightarrow> bool) \<Rightarrow> string \<Rightarrow> (store, unit) oper" where
  "require_state p m = ask_state (\<lambda>s. require (p s) m)"

text \<open>\<^verbatim>\<open>project_create\<close>; \<open>fresh\<close> is the identifier drawn when none is requested.\<close>

definition project_create :: "env \<Rightarrow> string \<Rightarrow> json \<Rightarrow> (store, string) oper" where
  "project_create env fresh args =
     bnd (ask_state (\<lambda>_. context_of (or_else (as_str (jget args ''slug'')) (as_str (jget args ''name'')))
            ''slug is required'')) (\<lambda>slug.
     bnd (ask_state (\<lambda>_. validate_slug env slug)) (\<lambda>_.
     let name = unwrap_or (as_str (jget args ''name'')) slug in
     thn (guard (\<not> blank name \<and> length name \<le> 256) ''invalid project name'')
    (bnd (ask_state (\<lambda>_. project_options args 4 ''native'')) (\<lambda>(concurrency, isolation).
     bnd (ask_state (\<lambda>_. case as_str (jget args ''id'') of
            None \<Rightarrow> Ok fresh
          | Some requested \<Rightarrow> context_of (parse_uuid env requested) ''project id must be a UUID'')) (\<lambda>pid.
     let tenant_id = unwrap_or (as_str (jget args ''tenant_id'')) pid in
     bnd (ask_state (\<lambda>_. validate_tenant tenant_id)) (\<lambda>_.
     thn (atomic (
            thn (require_state (\<lambda>s. slug \<notin> pj_slug ` set (projects s)) ''UNIQUE constraint failed'')
           (thn (insert_unique pj_id projects projects_update
                  \<lparr>pj_id = pid, pj_slug = slug, pj_name = name, pj_concurrency = concurrency,
                   pj_isolation = isolation, pj_created = now env\<rparr>)
                (insert_unique tn_project project_tenants project_tenants_update
                  \<lparr>tn_project = pid, tn_tenant = tenant_id, tn_explicit = True\<rparr>))))
         (ret pid)))))))"

definition project_update :: "env \<Rightarrow> json \<Rightarrow> (store, unit) oper" where
  "project_update env args =
     bnd (ask_state (\<lambda>s. and_then (required args ''project'') (\<lambda>p. resolve_project p s))) (\<lambda>p.
     bnd (ask_state (\<lambda>s. context_of (find (\<lambda>r. pj_id r = p) (projects s)) ''removal index'')) (\<lambda>old.
     bnd (ask_state (\<lambda>_. project_options args (pj_concurrency old) (pj_isolation old))) (\<lambda>(concurrency, isolation).
     bnd (ask_state (tenant p)) (\<lambda>existing.
     let tenant_id = unwrap_or (as_str (jget args ''tenant_id'')) existing in
     bnd (ask_state (\<lambda>_. validate_tenant tenant_id)) (\<lambda>_.
     thn (when_op (tenant_id \<noteq> existing)
            (thn (require_state (\<lambda>s. \<not> exists_row (\<lambda>r. tp_project r = p) (task_projects s))
                    ''project tenant binding is immutable after its first task'')
                 (require_state (\<lambda>s. map_option tn_explicit (find (\<lambda>r. tn_project r = p) (project_tenants s)) \<noteq> Some True)
                    ''project tenant binding is immutable'')))
         (atomic (
            thn (modify (\<lambda>s. s\<lparr>projects := update_rows (\<lambda>r. pj_id r = p)
                   (\<lambda>r. r\<lparr>pj_concurrency := concurrency, pj_isolation := isolation\<rparr>) (projects s)\<rparr>))
                (when_op (tenant_id \<noteq> existing)
                   (modify (\<lambda>s. s\<lparr>project_tenants := upsert tn_project
                      (\<lambda>r. r\<lparr>tn_tenant := tenant_id, tn_explicit := True\<rparr>)
                      \<lparr>tn_project = p, tn_tenant = tenant_id, tn_explicit = True\<rparr> (project_tenants s)\<rparr>))))))))))"

definition project_repo_add :: "env \<Rightarrow> string \<Rightarrow> json \<Rightarrow> (store, string) oper" where
  "project_repo_add env fresh args =
     bnd (ask_state (\<lambda>s. and_then (required args ''project'') (\<lambda>p. resolve_project p s))) (\<lambda>p.
     atomic (
       bnd (ask_state (\<lambda>_. required args ''path'')) (\<lambda>path.
         register_repository env fresh p path)))"

definition project_runtime_grant :: "env \<Rightarrow> json \<Rightarrow> (store, unit) oper" where
  "project_runtime_grant env args =
     bnd (ask_state (\<lambda>s. and_then (required args ''project'') (\<lambda>p. resolve_project p s))) (\<lambda>p.
     bnd (ask_state (\<lambda>_. required args ''runtime'')) (\<lambda>runtime.
     thn (guard (length runtime \<le> 256) ''runtime identity too long'')
    (bnd (local_runtime env) (\<lambda>lcl.
     let names = [runtime, runtime_alias runtime lcl] in
     atomic (
       thn (when_op (jget args ''dedicated'' = JBool True) (bind_runtime env p runtime))
      (thn (require_state (\<lambda>s. \<not> foreign_binding p names s) ''runtime belongs exclusively to another project'')
      (thn (modify (\<lambda>s. s\<lparr>project_runtime_revocations := drop_rows p names (project_runtime_revocations s)\<rparr>))
           (modify (\<lambda>s. s\<lparr>project_runtime_grants := add_row p runtime (project_runtime_grants s)\<rparr>)))))))))"

text \<open>The writes of \<^verbatim>\<open>project_runtime_revoke\<close>, which it makes in one transaction.\<close>

definition revoke_runtime :: "string \<Rightarrow> string \<Rightarrow> string list \<Rightarrow> store \<Rightarrow> store" where
  "revoke_runtime p runtime names s =
     s\<lparr>project_runtime_grants := drop_rows p names (project_runtime_grants s),
       project_runtime_revocations := add_row p runtime (project_runtime_revocations s),
       credential_deliveries := update_rows
         (\<lambda>d. cd_project d = p \<and> cd_runtime d \<in> set names \<and> cd_state d \<in> {''delivered'', ''replacement_pending''})
         (\<lambda>d. d\<lparr>cd_state := ''revocation_pending''\<rparr>) (credential_deliveries s),
       project_remote_reservations := update_rows
         (\<lambda>r. rr_project r = p \<and> rr_runtime r \<in> set names \<and> rr_state r = ''active'')
         (\<lambda>r. r\<lparr>rr_state := ''revoked''\<rparr>) (project_remote_reservations s),
       account_remote_reservations := update_rows
         (\<lambda>r. ar_project r = p \<and> ar_runtime r \<in> set names \<and> ar_state r = ''active'')
         (\<lambda>r. r\<lparr>ar_state := ''revoked''\<rparr>) (account_remote_reservations s)\<rparr>"

definition project_runtime_revoke :: "env \<Rightarrow> json \<Rightarrow> (store, unit) oper" where
  "project_runtime_revoke env args =
     bnd (ask_state (\<lambda>s. and_then (required args ''project'') (\<lambda>p. resolve_project p s))) (\<lambda>p.
     bnd (ask_state (\<lambda>_. required args ''runtime'')) (\<lambda>runtime.
     thn (guard (length runtime \<le> 256) ''runtime identity too long'')
    (bnd (local_runtime env) (\<lambda>lcl.
       atomic (modify (revoke_runtime p runtime [runtime, runtime_alias runtime lcl]))))))"

end
