(* ===== verification/Capacity.thy ===== *)
theory Capacity
  imports Projects Metrics
begin

text \<open>
  Account capacity (src/src/capacity.rs): observations of provider quotas and local budgets, the
  credential generation they belong to, holds after a usage limit, and the decision whether an
  account may take new work, along the chain of fallback roles. Percentages are rationals, the
  headers of a response a partial map, and the number format of a header a parameter.
\<close>

section \<open>Accounts and credential generations\<close>

record snapshot =
  sn_account :: string
  sn_provider :: string
  sn_window :: string
  sn_used :: "rat option"
  sn_reset :: "int option"
  sn_observed :: int
  sn_source :: string

definition capacity_account :: "executor_config \<Rightarrow> string" where
  "capacity_account c =
     (case ec_account c of
        Some a \<Rightarrow> a
      | None \<Rightarrow>
          if ec_auth_mode c \<in> {''api'', ''adc''}
          then ec_kind c @ '':'' @ ec_auth_mode c @ '':'' @ ec_base_url c @ '':'' @ ec_api_key_env c
          else ec_kind c @ '':login'')"

definition generation_key :: "string \<Rightarrow> string" where
  "generation_key account = ''capacity.credentials_generation:'' @ account"

definition profile_of :: "string \<Rightarrow> store \<Rightarrow> profile_row option" where
  "profile_of account s = find (\<lambda>p. pf_account p = account) (auth_profiles s)"

definition account_generation :: "string \<Rightarrow> store \<Rightarrow> string option" where
  "account_generation account s =
     (case profile_of account s of
        Some p \<Rightarrow> Some (''managed:'' @ show_int (pf_version p))
      | None \<Rightarrow> setting (generation_key account) s)"

definition credential_generation :: "executor_config \<Rightarrow> store \<Rightarrow> string option" where
  "credential_generation c = account_generation (capacity_account c)"

text \<open>An attempt bound to the current version of the account's profile, for the task's project.\<close>

definition bound_invocation :: "string \<Rightarrow> executor_config \<Rightarrow> store \<Rightarrow> bool" where
  "bound_invocation attempt c s =
     exists_row (\<lambda>b. ab_attempt b = attempt \<and> ab_account b = Some (capacity_account c) \<and>
       (ec_project c = None \<or> ec_project c = Some (ab_project b)) \<and>
       exists_row (\<lambda>p. Some (pf_id p) = ab_profile b \<and> Some (pf_account p) = ab_account b \<and>
         ab_version b = Some (pf_version p)) (auth_profiles s) \<and>
       exists_row (\<lambda>a. at_id a = ab_attempt b \<and> exists_row (\<lambda>r. st_id r = at_step a \<and>
         exists_row (\<lambda>t. tp_task t = st_task r \<and> tp_project t = ab_project b) (task_projects s)) (steps s)) (attempts s))
       (attempt_bindings s)"

definition is_managed :: "string \<Rightarrow> bool" where
  "is_managed generation = (take 8 generation = ''managed:'')"

definition invocation_generation :: "string \<Rightarrow> executor_config \<Rightarrow> store \<Rightarrow> string option result" where
  "invocation_generation attempt c s =
     (let generation = credential_generation c s in
      and_then (require ((case generation of None \<Rightarrow> False | Some g \<Rightarrow> is_managed g) \<longrightarrow> bound_invocation attempt c s)
        ''managed credential no longer matches persisted invocation binding; retry before launch'') (\<lambda>_. Ok generation))"

definition ensure_generation :: "executor_config \<Rightarrow> string option \<Rightarrow> store \<Rightarrow> unit result" where
  "ensure_generation c expected s =
     require (credential_generation c s = expected)
       ''credential changed while resolving invocation binding; retry before launch''"

definition if_current :: "executor_config \<Rightarrow> string option \<Rightarrow> (store, unit) oper \<Rightarrow> (store, unit) oper" where
  "if_current c generation ingest =
     atomic (bnd (ask_state (\<lambda>s. Ok (credential_generation c s = generation))) (\<lambda>current.
       when_op current ingest))"

text \<open>
  \<^verbatim>\<open>credentials_changed\<close>: every unmanaged account that the replaced credential serves, in the
  user's settings and in those of the default project's tasks, gets a new generation
  (\<open>fresh\<close> draws it) and forgets what the provider reported.
\<close>

definition same_store :: "string list \<Rightarrow> executor_config \<Rightarrow> executor_config \<Rightarrow> bool" where
  "same_store managed changed c =
     (capacity_account c \<notin> set managed \<and> ec_auth_mode c = ec_auth_mode changed \<and>
      (if ec_auth_mode changed = ''api'' then ec_api_key_env c = ec_api_key_env changed
       else ec_kind c = ec_kind changed))"

definition served_accounts :: "string list \<Rightarrow> executor_config \<Rightarrow> settings \<Rightarrow> string list" where
  "served_accounts managed changed sg =
     map capacity_account (filter (same_store managed changed)
       (List.map_filter (provider_of sg) (bt_keys (sg_providers sg)) @
        List.map_filter (executor_of sg) (bt_keys (sg_executors sg))))"

definition default_settings_of :: "store \<Rightarrow> settings list" where
  "default_settings_of s =
     [tk_settings t. t \<leftarrow> tasks s, exists_row (\<lambda>p. tp_task p = tk_id t \<and> tp_project p = ''default'') (task_projects s)]"

definition credentials_changed :: "env \<Rightarrow> (string \<Rightarrow> string) \<Rightarrow> executor_config \<Rightarrow> (store, unit) oper" where
  "credentials_changed env fresh changed =
     bnd (ask_state (\<lambda>s. Ok (map an_id (accounts s)))) (\<lambda>managed.
     thn (guard ((ec_project changed = None \<or> ec_project changed = Some default_project) \<and>
            capacity_account changed \<notin> set managed)
            ''legacy credential replacement cannot change managed account quota'')
    (bnd (ask_state (\<lambda>_. user_settings env)) (\<lambda>user.
     bnd (ask_state (\<lambda>s. Ok (default_settings_of s))) (\<lambda>held.
     let served = remdups_adj (sort (capacity_account changed #
           concat (map (served_accounts managed changed) (user # held)))) in
     atomic (
       thn (each_op (\<lambda>a. thn (set_setting (generation_key a) (fresh a))
              (modify (\<lambda>s. s\<lparr>account_capacity :=
                 filter (\<lambda>r. \<not> (ac_account r = a \<and> ac_source r = ''provider'')) (account_capacity s)\<rparr>))) served)
           (management_event ''account.credentials_changed'' (jobj [(''accounts'', JArr (map JStr served)),
              (''capacity'', JStr ''unknown''), (''local_budgets'', JStr ''preserved'')])))))))"

section \<open>Observations\<close>

definition window_key :: "capacity_row \<Rightarrow> string \<times> string" where
  "window_key r = (ac_account r, ac_window r)"

definition snapshot_row :: "snapshot \<Rightarrow> capacity_row" where
  "snapshot_row x = \<lparr>ac_account = sn_account x, ac_window = sn_window x, ac_provider = sn_provider x,
     ac_used = sn_used x, ac_reset = sn_reset x, ac_observed = sn_observed x, ac_source = sn_source x\<rparr>"

definition snapshot_json :: "snapshot \<Rightarrow> json" where
  "snapshot_json x = jobj [(''account'', JStr (sn_account x)), (''provider'', JStr (sn_provider x)),
     (''window'', JStr (sn_window x)), (''used_percent'', case sn_used x of None \<Rightarrow> JNull | Some u \<Rightarrow> JFloat u),
     (''reset_at'', case sn_reset x of None \<Rightarrow> JNull | Some n \<Rightarrow> JInt n),
     (''observed_at'', JInt (sn_observed x)), (''source'', JStr (sn_source x))]"

definition capacity_level :: "capacity_policy \<Rightarrow> rat \<Rightarrow> int" where
  "capacity_level p v = (if v \<ge> 100 then 3 else if v \<ge> cp_switch p then 2 else if v \<ge> cp_warn p then 1 else 0)"

definition level_before :: "capacity_policy \<Rightarrow> snapshot \<Rightarrow> capacity_row option \<Rightarrow> int" where
  "level_before p x old =
     (case old of None \<Rightarrow> 0
      | Some r \<Rightarrow> if ac_reset r \<noteq> sn_reset x then 0
          else case ac_used r of None \<Rightarrow> 0 | Some u \<Rightarrow> capacity_level p u)"

definition level_after :: "capacity_policy \<Rightarrow> snapshot \<Rightarrow> int" where
  "level_after p x = (case sn_used x of None \<Rightarrow> 0 | Some u \<Rightarrow> capacity_level p u)"

definition observe :: "env \<Rightarrow> snapshot \<Rightarrow> (store, unit) oper" where
  "observe env x =
     thn (guard (sn_account x \<noteq> [] \<and> sn_provider x \<noteq> [] \<and> sn_window x \<noteq> []) ''account, provider and window required'')
    (thn (guard (sn_source x \<in> {''provider'', ''local_budget''}) ''invalid capacity source'')
    (thn (guard (case sn_used x of None \<Rightarrow> True | Some v \<Rightarrow> 0 \<le> v \<and> v \<le> 100) ''invalid usage percentage'')
    (thn (guard (sn_observed x \<le> now env + 60 \<and> sn_observed x \<ge> 0) ''invalid observation time'')
    (bnd (ask_state (\<lambda>_. fleet_policy env)) (\<lambda>policy.
     atomic (
       bnd (ask_state (\<lambda>s. Ok (find (\<lambda>r. window_key r = (sn_account x, sn_window x)) (account_capacity s)))) (\<lambda>old.
       if (case old of None \<Rightarrow> False | Some r \<Rightarrow> ac_observed r > sn_observed x) then ret ()
       else
         thn (modify (\<lambda>s. s\<lparr>account_capacity :=
                upsert window_key (\<lambda>_. snapshot_row x) (snapshot_row x) (account_capacity s)\<rparr>))
             (when_op (level_after policy x > level_before policy x old)
                (management_event ''account.capacity''
                   (jobj [(''snapshot'', snapshot_json x), (''level'', JInt (level_after policy x))]))))))))))"

section \<open>The decision\<close>

definition credit_key :: "string \<Rightarrow> string" where
  "credit_key account = ''capacity.credits:'' @ account"

definition credits_available :: "env \<Rightarrow> string \<Rightarrow> int \<Rightarrow> store \<Rightarrow> bool result" where
  "credits_available env account stale s =
     (case setting (credit_key account) s of
        None \<Rightarrow> Ok False
      | Some saved \<Rightarrow> and_then (context_of (parse_json env saved) ''invalid JSON'') (\<lambda>v.
          Ok (jget v ''available'' = JBool True \<and>
            (case as_i64 (jget v ''observed_at'') of None \<Rightarrow> False | Some t0 \<Rightarrow> t0 + stale \<ge> now env) \<and>
            jget v ''generation'' = jstr_opt (account_generation account s))))"

definition hold_key :: "string \<Rightarrow> string" where
  "hold_key account = ''chatgpt.usage_hold:'' @ account"

definition usage_hold :: "env \<Rightarrow> string \<Rightarrow> store \<Rightarrow> int option" where
  "usage_hold env account s =
     (case setting (hold_key account) s of
        None \<Rightarrow> None
      | Some v \<Rightarrow> (case parse_i64 v of None \<Rightarrow> None
          | Some deadline \<Rightarrow> if deadline > now env then Some deadline else None))"

text \<open>A window that keeps an account from taking work.\<close>

definition window_blocks :: "env \<Rightarrow> capacity_policy \<Rightarrow> bool \<Rightarrow> capacity_row \<Rightarrow> bool" where
  "window_blocks env policy credits r =
     (let used = unwrap_or (ac_used r) 0 in
      \<not> (case ac_reset r of None \<Rightarrow> False | Some v \<Rightarrow> v \<le> now env) \<and>
      \<not> (ac_observed r + cp_stale policy < now env \<and> \<not> (used \<ge> 100 \<and> ac_reset r \<noteq> None)) \<and>
      \<not> (credits \<and> ac_provider r = ''codex'' \<and> ac_source r = ''provider'' \<and> ac_window r \<in> {''primary'', ''secondary''}) \<and>
      used \<ge> cp_switch policy)"

definition available :: "env \<Rightarrow> string \<Rightarrow> store \<Rightarrow> bool result" where
  "available env account s =
     (if usage_hold env account s \<noteq> None then Ok False
      else and_then (fleet_policy env) (\<lambda>policy.
        and_then (credits_available env account (cp_stale policy) s) (\<lambda>credits.
        Ok (\<not> exists_row (\<lambda>r. ac_account r = account \<and> window_blocks env policy credits r) (account_capacity s)))))"

definition hold_usage :: "env \<Rightarrow> executor_config \<Rightarrow> string option \<Rightarrow> (store, unit) oper" where
  "hold_usage env c generation =
     if_current c generation (
       thn (set_setting (hold_key (capacity_account c)) (show_int (now env + 300)))
           (management_event ''account.usage_limit'' (jobj [(''account'', JStr (capacity_account c)),
              (''provider'', JStr ''chatgpt''), (''code'', JStr ''subscription_sharing_usage_limit_exceeded''),
              (''used_percent'', JNull), (''reset_at'', JNull),
              (''settings_url'', JStr ''https://chatgpt.com/settings/usage'')])))"

section \<open>Fallback roles\<close>

text \<open>
  The loop over a role and its fallbacks, which stops at the first role \<open>f\<close> accepts, at a role
  without a fallback and at a role it has seen.
\<close>

function along_fallbacks :: "(string, string) btree \<Rightarrow> (string \<Rightarrow> 'a option result) \<Rightarrow> string list \<Rightarrow> string \<Rightarrow> 'a option result" where
  "along_fallbacks m f seen role =
     (if role \<in> set seen then Ok None
      else and_then (f role) (\<lambda>r. case r of
          Some x \<Rightarrow> Ok (Some x)
        | None \<Rightarrow> (case map_of m role of None \<Rightarrow> Ok None | Some next \<Rightarrow> along_fallbacks m f (role # seen) next)))"
  by pat_completeness auto

termination along_fallbacks
proof (relation "measure (\<lambda>(m, f, seen, role). card (set (bt_keys m) - set seen))", goal_cases)
  case 1
  then show ?case by simp
next
  case prems: (2 m f seen role)
  then have "role \<in> set (bt_keys m) - set seen"
    by (force simp: bt_keys_def dest: map_of_SomeD)
  then have "set (bt_keys m) - set (role # seen) \<subset> set (bt_keys m) - set seen" by auto
  then show ?case by (simp add: psubset_card_mono)
qed

declare along_fallbacks.simps [simp del]

definition capacity_select :: "env \<Rightarrow> settings \<Rightarrow> string \<Rightarrow> store \<Rightarrow> string option result" where
  "capacity_select env sg role s =
     along_fallbacks (sg_fallbacks sg) (\<lambda>current.
       case executor_of sg current of
         None \<Rightarrow> Ok (Some current)
       | Some c \<Rightarrow> and_then (available env (capacity_account c) s) (\<lambda>ok. Ok (if ok then Some current else None))) [] role"

section \<open>Ingesting provider reports\<close>

definition provider_snapshot :: "env \<Rightarrow> executor_config \<Rightarrow> string \<Rightarrow> rat \<Rightarrow> int option \<Rightarrow> snapshot" where
  "provider_snapshot env c window used reset = \<lparr>sn_account = capacity_account c, sn_provider = ec_kind c,
     sn_window = window, sn_used = Some used, sn_reset = reset, sn_observed = now env, sn_source = ''provider''\<rparr>"

definition limits_credits :: "json \<Rightarrow> bool" where
  "limits_credits l =
     ((jget (jget l ''credits'') ''has_credits'' = JBool True \<or> jget (jget l ''credits'') ''hasCredits'' = JBool True \<or>
       jget (jget l ''credits'') ''unlimited'' = JBool True) \<and>
      jget l ''spend_control_reached'' \<noteq> JBool True \<and> jget l ''spendControlReached'' \<noteq> JBool True)"

definition ingest :: "env \<Rightarrow> executor_config \<Rightarrow> json \<Rightarrow> (store, unit) oper" where
  "ingest env c e =
     (case or_else (jfield e ''rate_limits'') (jfield e ''rateLimits'') of
        None \<Rightarrow> ret ()
      | Some l \<Rightarrow>
          thn (when_op (ec_kind c = ''codex'' \<and> ec_auth_mode c = ''login'')
            (bnd (ask_state (\<lambda>s. Ok (credential_generation c s))) (\<lambda>g.
               set_setting (credit_key (capacity_account c)) (json_text env (jobj [(''available'', JBool (limits_credits l)),
                 (''observed_at'', JInt (now env)), (''generation'', jstr_opt g)])))))
          (each_op (\<lambda>window. let w = jget l window in
             case first_of as_f64 [jget w ''used_percent'', jget w ''usedPercent''] of
               None \<Rightarrow> ret ()
             | Some used \<Rightarrow> observe env (provider_snapshot env c window used
                 (first_of as_i64 [jget w ''resets_at'', jget w ''resetsAt'']))) [''primary'', ''secondary'']))"

text \<open>The pair of limit and remainder under the two header conventions.\<close>

definition rate_header :: "string \<Rightarrow> string \<Rightarrow> string \<Rightarrow> string" where
  "rate_header convention kind part =
     (if convention = ''x-ratelimit-'' then convention @ part @ ''-'' @ kind else convention @ kind @ ''-'' @ part)"

definition ingest_rate :: "env \<Rightarrow> (string \<Rightarrow> rat option) \<Rightarrow> executor_config \<Rightarrow> string \<times> string \<Rightarrow> (store, unit) oper" where
  "ingest_rate env number c ck =
     (case (number (rate_header (fst ck) (snd ck) ''limit''), number (rate_header (fst ck) (snd ck) ''remaining'')) of
        (Some cap, Some remaining) \<Rightarrow>
          when_op (cap > 0 \<and> remaining \<ge> 0 \<and> remaining \<le> cap)
            (observe env (provider_snapshot env c (''api-rate-'' @ snd ck) (100 * (1 - remaining / cap)) None))
      | _ \<Rightarrow> ret ())"

definition ingest_headers :: "env \<Rightarrow> (string \<Rightarrow> rat option) \<Rightarrow> (string \<Rightarrow> string option) \<Rightarrow> executor_config \<Rightarrow> nat \<Rightarrow>
    (store, unit) oper" where
  "ingest_headers env parse_f64 headers c status =
     thn (each_op (ingest_rate env (\<lambda>name. Option.bind (headers name) parse_f64) c)
            [(''x-ratelimit-'', ''requests''), (''x-ratelimit-'', ''tokens''),
             (''anthropic-ratelimit-'', ''requests''), (''anthropic-ratelimit-'', ''tokens'')])
         (case headers ''retry-after'' of None \<Rightarrow> ret ()
          | Some v \<Rightarrow> (case parse_u64 v of Inl _ \<Rightarrow> ret ()
              | Inr seconds \<Rightarrow> when_op (status = 429 \<and> int seconds < 2 ^ 32)
                  (observe env (provider_snapshot env c ''api-throttle'' 100 (Some (now env + int seconds))))))"

definition ingest_current :: "env \<Rightarrow> executor_config \<Rightarrow> string option \<Rightarrow> json \<Rightarrow> (store, unit) oper" where
  "ingest_current env c generation e = if_current c generation (ingest env c e)"

definition ingest_headers_current :: "env \<Rightarrow> (string \<Rightarrow> rat option) \<Rightarrow> (string \<Rightarrow> string option) \<Rightarrow> executor_config \<Rightarrow>
    string option \<Rightarrow> nat \<Rightarrow> (store, unit) oper" where
  "ingest_headers_current env parse_f64 headers c generation status =
     if_current c generation (ingest_headers env parse_f64 headers c status)"

section \<open>Local budgets\<close>

record account_budget =
  bu_account :: string
  bu_since :: int
  bu_reset :: int
  bu_tokens :: "64 word option"
  bu_usd :: "rat option"

text \<open>Tokens, whether some are unknown, cost, and whether some is unknown.\<close>

definition budget_usage :: "account_budget \<Rightarrow> store \<Rightarrow> 64 word \<times> bool \<times> rat \<times> bool" where
  "budget_usage b s =
     fold (\<lambda>u (tokens, ut, usd, uc). let (t, c) = totals u in
         ((case t of None \<Rightarrow> tokens | Some n \<Rightarrow> saturating_add tokens n), ut \<or> t = None,
          (case c of None \<Rightarrow> usd | Some x \<Rightarrow> usd + x), uc \<or> c = None))
       [unwrap_or (at_usage a) JNull. a \<leftarrow> attempts s, bu_since b \<le> at_started a \<and> at_started a < bu_reset b,
          x \<leftarrow> attempt_accounts s, aa_attempt x = at_id a \<and> aa_account x = bu_account b]
       (0, False, 0, False)"

definition budget_snapshot :: "env \<Rightarrow> account_budget \<Rightarrow> string \<Rightarrow> rat option \<Rightarrow> snapshot" where
  "budget_snapshot env b kind used = \<lparr>sn_account = bu_account b, sn_provider = ''configured'',
     sn_window = ''local-budget-'' @ kind @ ''-'' @ show_int (bu_since b), sn_used = map_option (min 100) used,
     sn_reset = Some (bu_reset b), sn_observed = now env, sn_source = ''local_budget''\<rparr>"

definition token_share :: "64 word \<Rightarrow> bool \<Rightarrow> 64 word \<Rightarrow> rat option" where
  "token_share tokens unknown cap =
     (if unknown \<and> tokens < cap then None else Some (100 * rat_of_int (uint tokens) / rat_of_int (uint cap)))"

definition cost_share :: "rat \<Rightarrow> bool \<Rightarrow> rat \<Rightarrow> rat option" where
  "cost_share usd unknown cap = (if unknown \<and> usd < cap then None else Some (100 * usd / cap))"

definition apply_budget :: "env \<Rightarrow> account_budget \<Rightarrow> (store, unit) oper" where
  "apply_budget env b =
     (if bu_reset b \<le> now env then ret ()
      else bnd (ask_state (\<lambda>s. Ok (budget_usage b s))) (\<lambda>(tokens, ut, usd, uc).
        thn (case bu_tokens b of None \<Rightarrow> ret ()
             | Some cap \<Rightarrow> observe env (budget_snapshot env b ''tokens'' (token_share tokens ut cap)))
            (case bu_usd b of None \<Rightarrow> ret ()
             | Some cap \<Rightarrow> observe env (budget_snapshot env b ''usd'' (cost_share usd uc cap)))))"

definition budgets :: "env \<Rightarrow> account_budget list \<Rightarrow> (store, unit) oper" where
  "budgets env bs = each_op (apply_budget env) bs"

end
