(* ===== verification/Project_Runtime.thy ===== *)
theory Project_Runtime
  imports Projects
begin

text \<open>
  Scheduling decisions per project (src/src/project_runtime.rs, \<^verbatim>\<open>limit\<close> of
  src/src/management.rs): the order in which running tasks get a turn, admission of a task, the
  record of a dispatch, revocation of running work, and the leases a remote task takes from its
  controller. The controller is reached through \<open>call\<close>, the federation call of the source.
\<close>

section \<open>Host limits\<close>

definition concurrency_limit :: "env \<Rightarrow> store \<Rightarrow> nat result" where
  "concurrency_limit env s =
     (case setting ''concurrency'' s of
        Some v \<Rightarrow> parse_u64 v
      | None \<Rightarrow>
          (case env_concurrency env of
             Some v \<Rightarrow> and_then (parse_u64 v) (\<lambda>n.
               and_then (require (1 \<le> n \<and> n \<le> 64) ''invalid HORDE_CONCURRENCY'') (\<lambda>_. Ok n))
           | None \<Rightarrow> and_then (user_settings env) (\<lambda>u. Ok (sg_concurrency u))))"

definition host_limit :: "env \<Rightarrow> store \<Rightarrow> nat result" where
  "host_limit env s =
     and_then (concurrency_limit env s) (\<lambda>lim.
     and_then (reserved_cpus env) (\<lambda>reserved.
       if reserved = 0 then Ok lim
       else and_then (host_cpus env) (\<lambda>cpus. Ok (min lim (cpus - reserved)))))"

definition live_state :: "string \<Rightarrow> bool" where
  "live_state st = (st = ''running'' \<or> st = ''uncertain'')"

definition busy_phases :: "string list" where
  "busy_phases = [''preparing'', ''validating'', ''publishing'', ''checkpointing'', ''publishing_branch'']"

definition host_active :: "store \<Rightarrow> nat" where
  "host_active s =
     count_rows (\<lambda>a. live_state (at_state a)) (attempts s) +
     count_rows (\<lambda>ph. ph \<in> set busy_phases) (preview_phases s)"

section \<open>Turns\<close>

lemma tails_shorter:
  "concat (map (take 1) qs) \<noteq> [] \<Longrightarrow> sum_list (map length (map tl qs)) < sum_list (map length qs)"
proof (induction qs)
  case (Cons q qs)
  have le: "sum_list (map length (map tl qs)) \<le> sum_list (map length qs)" for qs :: "'a list list"
    by (induction qs) auto
  show ?case
  proof (cases q)
    case Nil
    with Cons show ?thesis by simp
  next
    case (Cons x r)
    then show ?thesis using le [of qs] by (simp add: less_Suc_eq_le)
  qed
qed simp

text \<open>
  The queues in the order in which projects are visited; one round takes the head of every
  queue that is not empty.
\<close>

function interleave :: "'r list list \<Rightarrow> 'r list" where
  "interleave qs =
     (let heads = concat (map (take 1) qs) in
      if heads = [] then [] else heads @ interleave (map tl qs))"
  by pat_completeness auto

termination interleave
  by (relation "measure (\<lambda>qs. sum_list (map length qs))") (simp, metis in_measure tails_shorter)

declare interleave.simps [simp del]

text \<open>Running tasks without a remote link, oldest first, each with its project.\<close>

definition running_rows :: "store \<Rightarrow> (string \<times> string) list" where
  "running_rows s =
     [(tk_id t, tp_project p). t \<leftarrow> sort_key tk_created (filter (\<lambda>t. tk_status t = ''running'' \<and>
          \<not> exists_row (\<lambda>l. rl_task l = tk_id t) (remote_links s)) (tasks s)),
        p \<leftarrow> task_projects s, tp_task p = tk_id t]"

definition visit_order :: "string option \<Rightarrow> (string \<times> string) list \<Rightarrow> string list" where
  "visit_order prev rows =
     (let keys = remdups_adj (sort (map snd rows)) in
      case prev of None \<Rightarrow> keys
      | Some l \<Rightarrow> rotate (length (filter (\<lambda>p. p \<le> l) keys)) keys)"

definition ordered_tasks :: "store \<Rightarrow> (string \<times> string) list" where
  "ordered_tasks s =
     (let rows = running_rows s in
      interleave (map (\<lambda>p. filter (\<lambda>r. snd r = p) rows)
        (visit_order (setting ''scheduler.last_project'' s) rows)))"

section \<open>Admission\<close>

definition project_of_step :: "string \<Rightarrow> store \<Rightarrow> string list" where
  "project_of_step stp s =
     [tp_project p. r \<leftarrow> steps s, st_id r = stp, p \<leftarrow> task_projects s, tp_task p = st_task r]"

definition active :: "string \<Rightarrow> store \<Rightarrow> nat" where
  "active project s =
     count_rows (\<lambda>a. live_state (at_state a) \<and> project \<in> set (project_of_step (at_step a) s)) (attempts s) +
     count_rows (\<lambda>r. rr_project r = project \<and> rr_state r \<in> {''active'', ''revoked'', ''uncertain''})
       (project_remote_reservations s)"

definition queue_task :: "env \<Rightarrow> string \<Rightarrow> string \<Rightarrow> (store, unit) oper" where
  "queue_task env task reason =
     bnd (ask_state (\<lambda>s. Ok (\<not> exists_row (\<lambda>q. pq_task q = task \<and> pq_reason q = reason) (project_queue s)))) (\<lambda>changed.
     when_op changed
       (thn (modify (\<lambda>s. s\<lparr>project_queue := upsert pq_task
               (\<lambda>q. q\<lparr>pq_reason := reason, pq_updated := now env\<rparr>)
               \<lparr>pq_task = task, pq_reason = reason, pq_updated = now env\<rparr> (project_queue s)\<rparr>))
            (event env task ''task.queued'' (jobj [(''reason'', JStr reason)]))))"

definition refuse :: "env \<Rightarrow> string \<Rightarrow> string \<Rightarrow> (store, bool) oper" where
  "refuse env task reason = thn (queue_task env task reason) (ret False)"

definition eligible :: "env \<Rightarrow> string \<Rightarrow> (store, bool) oper" where
  "eligible env task =
     bnd (ask_state (task_project task)) (\<lambda>project.
     bnd (ask_state (\<lambda>s. context_of (find (\<lambda>p. pj_id p = project) (projects s)) ''Query returned no rows'')) (\<lambda>row.
     bnd (local_runtime env) (\<lambda>runtime.
     bnd (runtime_allowed env project runtime) (\<lambda>allowed.
     if \<not> allowed then refuse env task ''runtime is not granted to this project''
     else
     bnd (ask_state (\<lambda>s. Ok (unwrap_or (setting ''isolation'' s) ''native''))) (\<lambda>mode.
     if pj_isolation row = ''vm'' \<and> mode \<notin> {''vm'', ''lima''}
     then refuse env task ''project requires an isolated VM runtime''
     else
     bnd (ask_state (\<lambda>s. Ok (int (active project s)))) (\<lambda>n.
     if n \<ge> pj_concurrency row then refuse env task ''project concurrency limit reached''
     else ret True))))))"

text \<open>The account binding of a dispatch (\<^verbatim>\<open>accounts::Binding\<close>).\<close>

record binding =
  bi_role :: string
  bi_account :: "string option"
  bi_profile :: "string option"
  bi_version :: "int option"

definition record_dispatch :: "env \<Rightarrow> string \<Rightarrow> string \<Rightarrow> binding option \<Rightarrow> (store, unit) oper" where
  "record_dispatch env task attempt b =
     bnd (ask_state (task_project task)) (\<lambda>project.
     bnd (local_runtime env) (\<lambda>runtime.
     bnd (ask_state (\<lambda>s. Ok (unwrap_or (setting ''isolation'' s) ''native''))) (\<lambda>isolation.
     thn (insert_unique ab_attempt attempt_bindings attempt_bindings_update
            \<lparr>ab_attempt = attempt, ab_project = project, ab_runtime = runtime,
             ab_account = Option.bind b bi_account, ab_profile = Option.bind b bi_profile,
             ab_version = Option.bind b bi_version, ab_isolation = isolation\<rparr>)
    (thn (modify (\<lambda>s. s\<lparr>project_queue := filter (\<lambda>q. pq_task q \<noteq> task) (project_queue s)\<rparr>))
         (set_setting ''scheduler.last_project'' project)))))"

definition is_remote :: "string \<Rightarrow> store \<Rightarrow> bool" where
  "is_remote task s = exists_row (\<lambda>r. ro_task r = task) (remote_origins s)"

definition multiple_projects :: "store \<Rightarrow> bool" where
  "multiple_projects s =
     (length (remdups [tp_project p. p \<leftarrow> task_projects s, t \<leftarrow> tasks s, tk_id t = tp_task p,
        tk_status t = ''running'']) > 1)"

definition granted_account :: "string \<Rightarrow> executor_config \<Rightarrow> store \<Rightarrow> bool" where
  "granted_account project c s =
     exists_row (\<lambda>a. an_provider a = ec_kind c \<and> an_auth_mode a = ec_auth_mode c \<and> an_base_url a = ec_base_url c \<and>
       exists_row (\<lambda>g. gr_account g = an_id a \<and> gr_project g = project) (account_grants s)) (accounts s)"

definition managed_remote :: "string \<Rightarrow> settings \<Rightarrow> string \<Rightarrow> store \<Rightarrow> bool result" where
  "managed_remote task settings role s =
     (if \<not> is_remote task s then Ok False
      else case executor_of settings role of
        None \<Rightarrow> Ok False
      | Some c \<Rightarrow>
          if ec_kind c = ''simulated'' then Ok False
          else and_then (task_project task s) (\<lambda>project.
            if project \<noteq> default_project then Ok True
            else if exists_row (\<lambda>(t, packet). t = task \<and> jget packet ''managed_accounts'' = JBool True) (remote_context s)
            then Ok True
            else Ok (granted_account project c s)))"

section \<open>Revocation\<close>

definition live_bindings :: "string \<Rightarrow> store \<Rightarrow> binding_row list" where
  "live_bindings stp s =
     [b. b \<leftarrow> attempt_bindings s, a \<leftarrow> attempts s, at_id a = ab_attempt b,
        at_step a = stp \<and> live_state (at_state a)]"

text \<open>A profile that is still usable: the account is active, granted and owns the profile.\<close>

definition profile_granted :: "binding_row \<Rightarrow> store \<Rightarrow> bool" where
  "profile_granted b s =
     exists_row (\<lambda>c. Some (an_id c) = ab_account b \<and> an_state c = ''active'' \<and>
       exists_row (\<lambda>g. gr_account g = an_id c \<and> gr_project g = ab_project b) (account_grants s) \<and>
       exists_row (\<lambda>p. pf_account p = an_id c \<and> Some (pf_id p) = ab_profile b) (auth_profiles s)) (accounts s)"

fun any_disallowed :: "env \<Rightarrow> binding_row list \<Rightarrow> (store, bool) oper" where
  "any_disallowed env [] = ret False"
| "any_disallowed env (b # bs) =
     bnd (runtime_allowed env (ab_project b) (ab_runtime b)) (\<lambda>ok.
       if \<not> ok then ret True else any_disallowed env bs)"

definition revoked :: "env \<Rightarrow> string \<Rightarrow> (store, bool) oper" where
  "revoked env stp =
     bnd (ask_state (\<lambda>s. Ok (live_bindings stp s))) (\<lambda>bs.
     bnd (any_disallowed env bs) (\<lambda>bad.
     if bad then ret True
     else ask_state (\<lambda>s. Ok (
       exists_row (\<lambda>r. rs_step r = stp \<and> rs_state r = ''revoked'') (account_reservations s) \<or>
       list_ex (\<lambda>b. ab_profile b \<noteq> None \<and> \<not> profile_granted b s) (live_bindings stp s)))))"

section \<open>Leases from the controller\<close>

type_synonym caller = "string \<Rightarrow> string \<Rightarrow> json \<Rightarrow> json result"

definition set_lease :: "string \<Rightarrow> string \<Rightarrow> (store, unit) oper" where
  "set_lease stp st = modify (\<lambda>s. s\<lparr>remote_account_leases :=
     update_rows (\<lambda>l. le_step l = stp) (\<lambda>l. l\<lparr>le_state := st\<rparr>) (remote_account_leases s)\<rparr>)"

definition release_lease :: "caller \<Rightarrow> lease_row \<Rightarrow> (store, unit) oper" where
  "release_lease call lease =
     bnd (ask_state (task_project (le_task lease))) (\<lambda>project.
     let payload = jobj [(''project'', JStr project), (''task'', JStr (le_owner_task lease)),
           (''remote_task'', JStr (le_task lease)), (''request_id'', JStr (le_request_id lease))];
         answer = and_then (call (le_peer lease) ''account_release'' payload)
           (\<lambda>_. call (le_peer lease) ''project_release'' payload)
     in set_lease (le_step lease) (if is_ok answer then ''released'' else ''release_pending''))"

definition live_step :: "string \<Rightarrow> store \<Rightarrow> bool" where
  "live_step stp s = exists_row (\<lambda>a. at_step a = stp \<and> live_state (at_state a)) (attempts s)"

definition release_remote :: "caller \<Rightarrow> string \<Rightarrow> (store, unit) oper" where
  "release_remote call stp =
     bnd (ask_state (\<lambda>s. Ok (live_step stp s))) (\<lambda>live.
     if live then ret ()
     else bnd (ask_state (\<lambda>s. Ok (filter (\<lambda>l. le_step l = stp \<and> le_state l \<noteq> ''released'')
            (remote_account_leases s)))) (\<lambda>leases.
          each_op (release_lease call) leases))"

text \<open>Every release that is due: no live attempt, and the task stopped or the step moved on.\<close>

definition release_due :: "store \<Rightarrow> lease_row \<Rightarrow> bool" where
  "release_due s l =
     (le_state l \<in> {''pending'', ''active''} \<and> \<not> live_step (le_step l) s \<and>
      (exists_row (\<lambda>t. tk_id t = le_task l \<and> tk_status t \<noteq> ''running'') (tasks s) \<or>
       exists_row (\<lambda>r. st_id r = le_step l \<and> st_state r \<noteq> ''pending'') (steps s)))"

definition reconcile_releases :: "caller \<Rightarrow> (store, unit) oper" where
  "reconcile_releases call =
     thn (modify (\<lambda>s. s\<lparr>remote_account_leases :=
            update_rows (release_due s) (\<lambda>l. l\<lparr>le_state := ''release_pending''\<rparr>) (remote_account_leases s)\<rparr>))
    (bnd (ask_state (\<lambda>s. Ok (map le_step (filter (\<lambda>l. le_state l = ''release_pending'') (remote_account_leases s))))) (\<lambda>steps.
       each_op (release_remote call) steps))"

text \<open>A refused or failed acquisition queues the task, gives the lease back and reports false.\<close>

definition give_back :: "env \<Rightarrow> caller \<Rightarrow> string \<Rightarrow> string \<Rightarrow> string \<Rightarrow> json \<Rightarrow> (store, bool \<times> json) oper" where
  "give_back env call task stp reason row =
     thn (queue_task env task reason) (thn (release_remote call stp) (ret (False, row)))"

text \<open>
  \<^verbatim>\<open>acquire_remote\<close>: \<open>receive\<close> is the delivery of a managed credential, \<open>fresh\<close> the request
  identifier; the row of the step comes back with its account binding.
\<close>

definition acquire_remote :: "env \<Rightarrow> caller \<Rightarrow> (json \<Rightarrow> (store, unit) oper) \<Rightarrow> string \<Rightarrow> json \<Rightarrow>
    (store, bool \<times> json) oper" where
  "acquire_remote env call receive fresh row =
     bnd (ask_state (\<lambda>_. context_of (as_str (jget row ''task'')) ''task'')) (\<lambda>task.
     bnd (ask_state (\<lambda>_. context_of (as_str (jget row ''id'')) ''step'')) (\<lambda>stp.
     bnd (ask_state (\<lambda>s. Ok (find (\<lambda>r. ro_task r = task) (remote_origins s)))) (\<lambda>origin.
     case origin of None \<Rightarrow> ret (True, row)
     | Some o1 \<Rightarrow>
     bnd (ask_state (task_project task)) (\<lambda>project.
     bnd (ask_state (\<lambda>s. Ok (exists_row (\<lambda>l. le_step l = stp \<and> le_state l = ''release_pending'') (remote_account_leases s)))) (\<lambda>releasing.
     if releasing then
       thn (queue_task env task ''previous remote reservation release pending reconciliation'') (ret (False, row))
     else
     thn (modify (\<lambda>s. s\<lparr>remote_account_leases := upsert le_step
            (\<lambda>l. if le_state l = ''released'' then l\<lparr>le_request_id := fresh, le_state := ''pending''\<rparr> else l)
            \<lparr>le_step = stp, le_request_id = fresh, le_peer = ro_owner_peer o1,
             le_owner_task = ro_owner_task o1, le_task = task, le_state = ''pending''\<rparr> (remote_account_leases s)\<rparr>))
    (bnd (ask_state (\<lambda>s. context_of (map_option le_request_id (find (\<lambda>l. le_step l = stp) (remote_account_leases s)))
            ''Query returned no rows'')) (\<lambda>request.
     let ids = [(''project'', JStr project), (''task'', JStr (ro_owner_task o1)),
           (''remote_task'', JStr task), (''request_id'', JStr request)] in
     case call (ro_owner_peer o1) ''project_acquire'' (jobj ids) of
       Inl _ \<Rightarrow> give_back env call task stp
         ''controller project reservation pending reconciliation or reconnect'' row
     | Inr response \<Rightarrow>
     if jget response ''granted'' \<noteq> JBool True then
       thn (queue_task env task ''project concurrency limit reached across fleet'') (ret (False, row))
     else if jget row ''managed_remote_account'' \<noteq> JBool True then
       thn (set_lease stp ''active'') (ret (True, row))
     else case call (ro_owner_peer o1) ''account_acquire''
            (jobj (ids @ [(''role'', jget row ''dispatch_role''), (''attempt'', JStr request)])) of
       Inl _ \<Rightarrow> give_back env call task stp
         ''controller account reservation pending reconciliation or reconnect'' row
     | Inr response \<Rightarrow>
     if jget response ''binding'' = JNull then
       give_back env call task stp ''no eligible authorized account capacity at controller'' row
     else (\<lambda>s.
       case (if jget response ''provision'' = JNull then (s, Ok ()) else receive (jget response ''provision'') s) of
         (t, Inl _) \<Rightarrow> give_back env call task stp
           ''controller credential delivery rejected; reservation cleanup pending'' row t
       | (t, Inr _) \<Rightarrow>
           thn (set_lease stp ''active'')
             (ret (True, jset ''dispatch_role'' (jget (jget response ''binding'') ''role'')
                (jset ''account_binding'' (jget response ''binding'') row))) t))))))))"

end
