(* ===== verification/Accounts.thy ===== *)
theory Accounts
  imports Capacity Project_Runtime
begin

text \<open>
  Managed accounts (src/src/accounts.rs, src/src/accounts/remote.rs): grants of accounts to
  projects, the choice of an account for a step along its fallback roles, and reservations of
  account capacity by local steps and by remote invocations of the controller.
\<close>

section \<open>Grants\<close>

definition resource_identifier :: "string \<Rightarrow> unit result" where
  "resource_identifier v =
     require (v \<noteq> [] \<and> length v \<le> 128 \<and> list_all (\<lambda>c. ascii_alnum c \<or> c = CHR ''_'' \<or> c = CHR ''-'') v)
       ''invalid resource identifier''"

definition granted :: "string \<Rightarrow> string \<Rightarrow> store \<Rightarrow> bool" where
  "granted project account s =
     exists_row (\<lambda>g. gr_project g = project \<and> gr_account g = account) (account_grants s)"

definition authorized :: "string \<Rightarrow> string \<Rightarrow> store \<Rightarrow> unit result" where
  "authorized project account s =
     require (length [g. g \<leftarrow> account_grants s, a \<leftarrow> accounts s,
         an_id a = gr_account g \<and> gr_project g = project \<and> gr_account g = account \<and> an_state a = ''active''] = 1)
       ''account is not granted to this project''"

definition account_row_of :: "string \<Rightarrow> store \<Rightarrow> account_row option" where
  "account_row_of account s = find (\<lambda>a. an_id a = account) (accounts s)"

definition matches_config :: "executor_config \<Rightarrow> account_row \<Rightarrow> bool" where
  "matches_config c a = (an_provider a = ec_kind c \<and> an_auth_mode a = ec_auth_mode c \<and> an_base_url a = ec_base_url c)"

definition validate_account :: "string \<Rightarrow> executor_config \<Rightarrow> store \<Rightarrow> bool result" where
  "validate_account project c s =
     (case ec_account c of
        None \<Rightarrow> and_then (require (project = ''default'' \<or> ec_kind c = ''simulated'')
            ''project requires an explicit managed account'') (\<lambda>_. Ok False)
      | Some i \<Rightarrow>
          (case account_row_of i s of
             None \<Rightarrow> and_then (require (project = ''default'') ''unknown account'') (\<lambda>_. Ok False)
           | Some a \<Rightarrow>
               and_then (authorized project i s) (\<lambda>_.
               and_then (require (matches_config c a) ''account provider does not match executor configuration'') (\<lambda>_.
               Ok True))))"

definition argument :: "json \<Rightarrow> string \<Rightarrow> string result" where
  "argument args key =
     context_of (case as_str (jget args key) of None \<Rightarrow> None | Some v \<Rightarrow> if v = [] then None else Some v)
       (key @ '' required'')"

section \<open>Allocations\<close>

text \<open>The view \<^verbatim>\<open>account_allocations\<close>, counted over the states that hold capacity.\<close>

definition holds_capacity :: "string \<Rightarrow> bool" where
  "holds_capacity st = (st \<in> {''active'', ''revoked'', ''uncertain''})"

definition allocated :: "string \<Rightarrow> store \<Rightarrow> nat" where
  "allocated account s =
     count_rows (\<lambda>r. rs_account r = account \<and> holds_capacity (rs_state r)) (account_reservations s) +
     count_rows (\<lambda>r. ar_account r = account \<and> holds_capacity (ar_state r)) (account_remote_reservations s)"

definition credential_version :: "string \<Rightarrow> store \<Rightarrow> int result" where
  "credential_version account s =
     context_of (map_option pf_version (profile_of account s)) ''Query returned no rows''"

text \<open>The protected file of a credential version.\<close>

definition credential_json :: "credential \<Rightarrow> json" where
  "credential_json c = jobj [(''kind'', JStr (cr_kind c)), (''secret'', JStr (cr_secret c)),
     (''expires_at'', case cr_expires_at c of None \<Rightarrow> JNull | Some n \<Rightarrow> JInt n), (''metadata'', cr_metadata c)]"

definition read_version :: "env \<Rightarrow> string \<Rightarrow> int \<Rightarrow> store \<Rightarrow> credential result" where
  "read_version env account version s =
     and_then (require (version > 0) ''account has no credential'') (\<lambda>_.
     and_then (resource_identifier account) (\<lambda>_.
     and_then (context_of (map_of (credential_files s) (account, version)) ''account credential unavailable'') (\<lambda>c.
     and_then (require (json_len env (credential_json c) \<le> 64 * 1024) ''credential payload too large'') (\<lambda>_. Ok c))))"

definition credential_with_version :: "env \<Rightarrow> string \<Rightarrow> string \<Rightarrow> store \<Rightarrow> (credential \<times> int) result" where
  "credential_with_version env project account s =
     and_then (authorized project account s) (\<lambda>_.
     and_then (credential_version account s) (\<lambda>version.
     and_then (read_version env account version s) (\<lambda>c.
     and_then (require (case cr_expires_at c of None \<Rightarrow> True | Some t \<Rightarrow> t > now env)
        ''account authentication expired; renewal required'') (\<lambda>_. Ok (c, version)))))"

definition credential_of :: "env \<Rightarrow> string \<Rightarrow> string \<Rightarrow> store \<Rightarrow> credential result" where
  "credential_of env project account s = and_then (credential_with_version env project account s) (\<lambda>cv. Ok (fst cv))"

section \<open>Account commands\<close>

text \<open>What \<^verbatim>\<open>reqwest::Url::parse\<close> finds in an endpoint.\<close>

record url =
  ur_scheme :: string
  ur_username :: string
  ur_password :: bool
  ur_query :: bool
  ur_fragment :: bool

definition jopt_int :: "int option \<Rightarrow> json" where
  "jopt_int x = (case x of None \<Rightarrow> JNull | Some n \<Rightarrow> JInt n)"

definition account_json :: "account_row \<Rightarrow> profile_row \<Rightarrow> nat \<Rightarrow> json" where
  "account_json a p n = jobj [(''id'', JStr (an_id a)), (''owner_project'', JStr (an_owner_project a)),
     (''name'', JStr (an_name a)), (''provider'', JStr (an_provider a)), (''auth_mode'', JStr (an_auth_mode a)),
     (''base_url'', JStr (an_base_url a)), (''concurrency'', JInt (an_concurrency a)),
     (''authenticated'', JInt (if an_authenticated a then 1 else 0)), (''state'', JStr (an_state a)),
     (''last_dispatch'', JInt (an_last_dispatch a)), (''profile'', JStr (pf_id p)),
     (''credential_version'', JInt (pf_version p)), (''credential_kind'', jstr_opt (pf_kind p)),
     (''expires_at'', jopt_int (pf_expires_at p)), (''active'', JInt (int n))]"

definition chatgpt_fields :: "env \<Rightarrow> string \<Rightarrow> account_row \<Rightarrow> store \<Rightarrow> (string \<times> json) list" where
  "chatgpt_fields env project a s =
     (''usage_hold_until'', jopt_int (usage_hold env (an_id a) s)) #
     (''usage_settings_url'', JStr ''https://chatgpt.com/settings/usage'') #
     (if an_authenticated a then
        (case credential_of env project (an_id a) s of
           Inr c \<Rightarrow> [(''identity_signed_in'', jget (cr_metadata c) ''identity_signed_in''),
             (''plan_usage_enabled'', jget (cr_metadata c) ''plan_usage_enabled''), (''credential_material'', JStr ''local'')]
         | Inl _ \<Rightarrow> [(''identity_signed_in'', JNull), (''plan_usage_enabled'', JNull), (''credential_material'', JStr ''not_local'')])
      else [(''identity_signed_in'', JBool False), (''plan_usage_enabled'', JBool False)])"

definition account_inspect :: "env \<Rightarrow> string \<Rightarrow> string \<Rightarrow> store \<Rightarrow> json result" where
  "account_inspect env project account s =
     and_then (authorized project account s) (\<lambda>_.
     and_then (context_of (account_row_of account s) ''account missing'') (\<lambda>a.
     and_then (context_of (profile_of account s) ''account missing'') (\<lambda>p.
       let v = account_json a p (allocated account s) in
       Ok (if an_provider a = ''chatgpt'' then fold (\<lambda>(k, x). jset k x) (chatgpt_fields env project a s) v else v))))"

definition check_endpoint :: "(string \<Rightarrow> url result) \<Rightarrow> string \<Rightarrow> unit result" where
  "check_endpoint parse_url base =
     (if base = [] then Ok ()
      else and_then (parse_url base) (\<lambda>u.
        require (ur_scheme u \<in> {''http'', ''https''} \<and> ur_username u = [] \<and> \<not> ur_password u \<and> \<not> ur_query u \<and> \<not> ur_fragment u)
          ''invalid account endpoint''))"

definition grant_key :: "grant_row \<Rightarrow> string \<times> string" where
  "grant_key g = (gr_project g, gr_account g)"

text \<open>\<open>fresh\<close> and \<open>profile\<close> are the identifiers drawn for the account and its profile.\<close>

definition account_create :: "env \<Rightarrow> (string \<Rightarrow> url result) \<Rightarrow> string \<Rightarrow> string \<Rightarrow> string \<Rightarrow> json \<Rightarrow> (store, json) oper" where
  "account_create env parse_url fresh profile project args =
     bnd (ask_state (\<lambda>_. argument args ''name'')) (\<lambda>name.
     bnd (ask_state (\<lambda>_. resource_identifier name)) (\<lambda>_.
     bnd (ask_state (\<lambda>_. argument args ''provider'')) (\<lambda>provider.
     bnd (ask_state (\<lambda>_. resource_identifier provider)) (\<lambda>_.
     let auth_mode = unwrap_or (as_str (jget args ''auth_mode'')) ''api'';
         cap = unwrap_or (as_u64 (jget args ''concurrency'')) 1;
         base = unwrap_or (as_str (jget args ''base_url'')) '''' in
     thn (guard (auth_mode \<in> {''api'', ''login''}) ''unsupported authentication mode'')
    (thn (guard (cap > 0 \<and> cap \<le> 4096) ''invalid account concurrency'')
    (thn (guard (provider = ''chatgpt'' \<longrightarrow> auth_mode = ''login'' \<and> base = ''https://api.openai.com/v1'')
            ''ChatGPT accounts require login at https://api.openai.com/v1'')
    (bnd (ask_state (\<lambda>_. check_endpoint parse_url base)) (\<lambda>_.
     thn (atomic (
            thn (require_state (\<lambda>s. \<not> exists_row (\<lambda>a. an_owner_project a = project \<and> an_name a = name) (accounts s))
                   ''UNIQUE constraint failed'')
           (thn (insert_unique an_id accounts accounts_update
                   \<lparr>an_id = fresh, an_owner_project = project, an_name = name, an_provider = provider,
                    an_auth_mode = auth_mode, an_base_url = base, an_concurrency = cap, an_authenticated = False,
                    an_state = ''active'', an_last_dispatch = 0\<rparr>)
           (thn (insert_unique pf_account auth_profiles auth_profiles_update
                   \<lparr>pf_id = profile, pf_account = fresh, pf_version = 0, pf_kind = None, pf_expires_at = None\<rparr>)
                (insert_unique grant_key account_grants account_grants_update
                   \<lparr>gr_project = project, gr_account = fresh, gr_created = now env\<rparr>)))))
         (ask_state (account_inspect env project fresh))))))))))"

text \<open>A regrant is newer than the revocation it undoes.\<close>

definition grant_generation :: "env \<Rightarrow> string \<Rightarrow> string \<Rightarrow> store \<Rightarrow> int" where
  "grant_generation env project account s =
     max (now env) (case find (\<lambda>r. grant_key r = (project, account)) (account_grant_revocations s) of
       None \<Rightarrow> 0 | Some r \<Rightarrow> gr_created r + 1)"

definition account_grant :: "env \<Rightarrow> string \<Rightarrow> json \<Rightarrow> (store, json) oper" where
  "account_grant env project args =
     bnd (ask_state (\<lambda>_. argument args ''account'')) (\<lambda>account.
     thn (atomic (
            bnd (ask_state (\<lambda>s. Ok (grant_generation env project account s))) (\<lambda>generation.
            thn (modify (\<lambda>s. s\<lparr>account_grant_revocations :=
                   filter (\<lambda>r. grant_key r \<noteq> (project, account)) (account_grant_revocations s)\<rparr>))
           (thn (require_state (\<lambda>s. account_row_of account s \<noteq> None) ''FOREIGN KEY constraint failed'')
                (modify (\<lambda>s. s\<lparr>account_grants := insert_ignore grant_key
                   \<lparr>gr_project = project, gr_account = account, gr_created = generation\<rparr> (account_grants s)\<rparr>))))))
         (ask_state (account_inspect env project account)))"

text \<open>The tables of a revocation: the grant moves to the revocations, live rows lose their right.\<close>

definition drop_grant :: "string \<Rightarrow> string \<Rightarrow> store \<Rightarrow> store" where
  "drop_grant project account s =
     s\<lparr>account_grant_revocations :=
         fold (insert_replace grant_key) (filter (\<lambda>g. grant_key g = (project, account)) (account_grants s))
           (account_grant_revocations s),
       account_grants := filter (\<lambda>g. grant_key g \<noteq> (project, account)) (account_grants s)\<rparr>"

definition revoke_reservations :: "string \<Rightarrow> string \<Rightarrow> string list \<Rightarrow> store \<Rightarrow> store" where
  "revoke_reservations project account states s =
     s\<lparr>account_reservations := update_rows (\<lambda>r. rs_project r = project \<and> rs_account r = account \<and> rs_state r \<in> set states)
         (\<lambda>r. r\<lparr>rs_state := ''revoked''\<rparr>) (account_reservations s)\<rparr>"

definition revoke_remote_reservations :: "string \<Rightarrow> string \<Rightarrow> store \<Rightarrow> store" where
  "revoke_remote_reservations project account s =
     s\<lparr>account_remote_reservations :=
         update_rows (\<lambda>r. ar_project r = project \<and> ar_account r = account \<and> ar_state r = ''active'')
           (\<lambda>r. r\<lparr>ar_state := ''revoked''\<rparr>) (account_remote_reservations s),
       credential_deliveries :=
         update_rows (\<lambda>d. cd_project d = project \<and> cd_account d = account \<and> cd_state d = ''delivered'')
           (\<lambda>d. d\<lparr>cd_state := ''revocation_pending''\<rparr>) (credential_deliveries s)\<rparr>"

definition account_revoke :: "string \<Rightarrow> json \<Rightarrow> (store, json) oper" where
  "account_revoke project args =
     bnd (ask_state (\<lambda>_. argument args ''account'')) (\<lambda>account.
     bnd (ask_state (authorized project account)) (\<lambda>_.
     thn (atomic (
            thn (modify (drop_grant project account))
           (thn (modify (revoke_reservations project account [''active'']))
                (modify (revoke_remote_reservations project account)))))
         (ret (jobj [(''project'', JStr project), (''account'', JStr account), (''revoked'', JBool True),
            (''reconciliation'', JStr ''required'')]))))"

section \<open>Choosing an account\<close>

definition candidate_rows :: "string \<Rightarrow> executor_config \<Rightarrow> store \<Rightarrow> (account_row \<times> profile_row) list" where
  "candidate_rows project c s =
     [(a, p). a \<leftarrow> accounts s, g \<leftarrow> account_grants s, gr_account g = an_id a \<and> gr_project g = project,
        p \<leftarrow> auth_profiles s, pf_account p = an_id a \<and> matches_config c a \<and> an_state a = ''active'' \<and>
          an_authenticated a \<and> pf_version p > 0]"

text \<open>Least loaded first, then least recently used, then by id.\<close>

definition load_order :: "store \<Rightarrow> account_row \<times> profile_row \<Rightarrow> rat \<times> int \<times> string" where
  "load_order s ap = (of_nat (allocated (an_id (fst ap)) s) / of_int (an_concurrency (fst ap)), an_last_dispatch (fst ap), an_id (fst ap))"

definition passes_over :: "env \<Rightarrow> string \<Rightarrow> executor_config \<Rightarrow> store \<Rightarrow> account_row \<times> profile_row \<Rightarrow> bool" where
  "passes_over env project c s ap =
     (let a = fst ap; p = snd ap in
      (case ec_account c of None \<Rightarrow> False | Some i \<Rightarrow> i \<noteq> an_id a) \<or>
      (case pf_expires_at p of None \<Rightarrow> False | Some t \<Rightarrow> t \<le> now env) \<or>
      int (allocated (an_id a) s) \<ge> an_concurrency a \<or>
      (ec_kind c = ''chatgpt'' \<and> (case credential_of env project (an_id a) s of
         Inl _ \<Rightarrow> False | Inr cr \<Rightarrow> jget (cr_metadata cr) ''plan_usage_enabled'' \<noteq> JBool True)))"

fun first_available :: "env \<Rightarrow> store \<Rightarrow> (account_row \<times> profile_row) list \<Rightarrow> string option result" where
  "first_available env s [] = Ok None"
| "first_available env s (ap # aps) =
     and_then (available env (an_id (fst ap)) s) (\<lambda>ok.
       if ok then Ok (Some (an_id (fst ap))) else first_available env s aps)"

definition select_account :: "env \<Rightarrow> string \<Rightarrow> executor_config \<Rightarrow> store \<Rightarrow> string option result" where
  "select_account env project c s =
     first_available env s (filter (\<lambda>ap. \<not> passes_over env project c s ap)
       (sort_key (load_order s) (candidate_rows project c s)))"

text \<open>The role after as many fallbacks as the step has failed attempts.\<close>

fun fall_back :: "(string, string) btree \<Rightarrow> nat \<Rightarrow> string \<Rightarrow> string" where
  "fall_back m 0 role = role"
| "fall_back m (Suc n) role = (case map_of m role of None \<Rightarrow> role | Some nxt \<Rightarrow> fall_back m n nxt)"

definition failures :: "string \<Rightarrow> store \<Rightarrow> nat" where
  "failures stp s = count_rows (\<lambda>a. at_step a = stp \<and> at_state a = ''failed'') (attempts s)"

definition managed_account :: "string \<Rightarrow> executor_config \<Rightarrow> store \<Rightarrow> bool" where
  "managed_account project c s =
     exists_row (\<lambda>a. (an_owner_project a = project \<or> granted project (an_id a) s) \<and> matches_config c a) (accounts s)"

definition unbound :: "string \<Rightarrow> string option \<Rightarrow> binding" where
  "unbound role account = \<lparr>bi_role = role, bi_account = account, bi_profile = None, bi_version = None\<rparr>"

definition bind_account :: "string \<Rightarrow> string \<Rightarrow> store \<Rightarrow> binding result" where
  "bind_account role account s =
     and_then (context_of (profile_of account s) ''Query returned no rows'') (\<lambda>p.
       Ok \<lparr>bi_role = role, bi_account = Some account, bi_profile = Some (pf_id p), bi_version = Some (pf_version p)\<rparr>)"

definition choose_role :: "env \<Rightarrow> string \<Rightarrow> settings \<Rightarrow> store \<Rightarrow> string \<Rightarrow> binding option result" where
  "choose_role env project sg s role =
     (case executor_of sg role of
        None \<Rightarrow> Ok (Some (unbound role None))
      | Some c \<Rightarrow>
          and_then (select_account env project c s) (\<lambda>sel. case sel of
            Some account \<Rightarrow> and_then (bind_account role account s) (\<lambda>b. Ok (Some b))
          | None \<Rightarrow>
              let pinned = (case ec_account c of None \<Rightarrow> False | Some i \<Rightarrow> account_row_of i s \<noteq> None) in
              if ec_kind c = ''simulated'' then Ok (Some (unbound role (ec_account c)))
              else if project = ''default'' \<and> ec_kind c \<noteq> ''chatgpt'' \<and> \<not> managed_account project c s \<and> \<not> pinned
              then and_then (available env (capacity_account c) s) (\<lambda>ok.
                Ok (if ok then Some (unbound role (ec_account c)) else None))
              else Ok None))"

definition choose_for_step :: "env \<Rightarrow> string \<Rightarrow> settings \<Rightarrow> string \<Rightarrow> string \<Rightarrow> store \<Rightarrow> binding option result" where
  "choose_for_step env task sg role stp s =
     and_then (task_project task s) (\<lambda>project.
       along_fallbacks (sg_fallbacks sg) (choose_role env project sg s) []
         (fall_back (sg_fallbacks sg) (failures stp s) role))"

section \<open>Reservations of local steps\<close>

definition reservable :: "env \<Rightarrow> string \<Rightarrow> string \<Rightarrow> int \<Rightarrow> store \<Rightarrow> bool result" where
  "reservable env account profile version s =
     and_then (context_of (account_row_of account s) ''Query returned no rows'') (\<lambda>a.
     and_then (context_of (find (\<lambda>p. pf_account p = account \<and> pf_id p = profile) (auth_profiles s)) ''Query returned no rows'') (\<lambda>p.
     Ok (an_authenticated a \<and> pf_version p = version \<and>
         (case pf_expires_at p of None \<Rightarrow> True | Some t \<Rightarrow> t > now env) \<and>
         int (allocated account s) < an_concurrency a)))"

definition touch_account :: "env \<Rightarrow> string \<Rightarrow> store \<Rightarrow> store" where
  "touch_account env account s =
     s\<lparr>accounts := update_rows (\<lambda>a. an_id a = account) (\<lambda>a. a\<lparr>an_last_dispatch := now env\<rparr>) (accounts s)\<rparr>"

definition reserve_tx :: "env \<Rightarrow> string \<Rightarrow> string \<Rightarrow> string \<Rightarrow> string \<Rightarrow> int \<Rightarrow> (store, unit) oper" where
  "reserve_tx env stp project account profile version =
     thn (ask_state (authorized project account))
    (bnd (ask_state (\<lambda>s. Ok (find (\<lambda>r. rs_step r = stp) (account_reservations s)))) (\<lambda>existing.
     if (case existing of None \<Rightarrow> False | Some r \<Rightarrow> rs_state r = ''active'')
     then guard (case existing of None \<Rightarrow> False | Some r \<Rightarrow>
            rs_account r = account \<and> rs_profile r = profile \<and> rs_version r = version) ''reservation already exists''
     else
       thn (guard (case existing of None \<Rightarrow> True | Some r \<Rightarrow> rs_state r = ''released'')
              ''revoked reservation requires reconciliation'')
      (bnd (ask_state (reservable env account profile version)) (\<lambda>eligible.
       bnd (if eligible then ask_state (available env account) else ret False) (\<lambda>ok.
       thn (guard ok ''account capacity or authentication unavailable'')
      (thn (modify (\<lambda>s. s\<lparr>account_reservations :=
              (let r = \<lparr>rs_step = stp, rs_project = project, rs_account = account, rs_profile = profile,
                  rs_version = version, rs_state = ''active'', rs_created = now env\<rparr>
               in upsert rs_step (\<lambda>_. r) r (account_reservations s))\<rparr>))
           (modify (touch_account env account))))))))"

definition reserve :: "env \<Rightarrow> string \<Rightarrow> binding \<Rightarrow> (store, unit) oper" where
  "reserve env stp b =
     (case (bi_account b, bi_profile b, bi_version b) of
        (Some account, Some profile, Some version) \<Rightarrow>
          bnd (ask_state (\<lambda>s. context_of (find (\<lambda>r. st_id r = stp) (steps s)) ''Query returned no rows'')) (\<lambda>row.
          bnd (ask_state (task_project (st_task row))) (\<lambda>project.
            atomic (reserve_tx env stp project account profile version)))
      | _ \<Rightarrow> ret ())"

definition release_step :: "string \<Rightarrow> (store, unit) oper" where
  "release_step stp =
     thn (require_state (\<lambda>s. \<not> live_step stp s) ''cannot release a running or uncertain account reservation'')
         (modify (\<lambda>s. s\<lparr>account_reservations := update_rows (\<lambda>r. rs_step r = stp)
            (\<lambda>r. r\<lparr>rs_state := ''released''\<rparr>) (account_reservations s)\<rparr>))"

definition apply_binding :: "executor_config \<Rightarrow> binding \<Rightarrow> executor_config" where
  "apply_binding c b = c\<lparr>ec_account := bi_account b\<rparr>"

section \<open>Reservations of remote invocations\<close>

text \<open>
  The configuration of a remote invocation; \<open>policy\<close> is the task's execution policy, which
  \<^verbatim>\<open>execution_selection\<close> keeps.
\<close>

definition selected_account :: "env \<Rightarrow> string \<Rightarrow> json \<Rightarrow> string \<Rightarrow> string \<Rightarrow> store \<Rightarrow> (string \<times> string) result" where
  "selected_account env project selected kind account s =
     and_then (authorized project account s) (\<lambda>_.
     and_then (context_of (account_row_of account s) ''Query returned no rows'') (\<lambda>a.
     and_then (require (an_provider a = kind) ''selected account does not match remote provider kind'') (\<lambda>_.
     and_then (require (jget selected ''auth_mode'' = JNull \<or> jget selected ''auth_mode'' = JStr (an_auth_mode a))
        ''selected account authentication differs from remote capability'') (\<lambda>_.
     and_then (require (jget selected ''base_url'' = JNull \<or> jget selected ''base_url'' = JStr (an_base_url a))
        ''selected account endpoint differs from remote capability'') (\<lambda>_.
     and_then (require (jget selected ''endpoint_hash'' = JNull \<or> jget selected ''endpoint_hash'' = JStr (sha256 env (an_base_url a)))
        ''selected account endpoint differs from remote capability'') (\<lambda>_.
     Ok (an_auth_mode a, an_base_url a)))))))"

definition selected_endpoint :: "env \<Rightarrow> string \<Rightarrow> json \<Rightarrow> string \<Rightarrow> store \<Rightarrow> (string \<times> string) result" where
  "selected_endpoint env project selected kind s =
     and_then (context_of (as_str (jget selected ''auth_mode''))
        ''remote capability lacks authentication metadata; refresh its capabilities'') (\<lambda>auth_mode.
     and_then (case as_str (jget selected ''endpoint_hash'') of
         Some h \<Rightarrow> context_of (find (\<lambda>u. sha256 env u = h)
             [an_base_url a. a \<leftarrow> accounts s, granted project (an_id a) s \<and> an_provider a = kind \<and> an_auth_mode a = auth_mode])
             ''no granted account matches the remote provider endpoint''
       | None \<Rightarrow> context_of (as_str (jget selected ''base_url''))
             ''remote capability lacks endpoint metadata; refresh its capabilities'') (\<lambda>base.
     Ok (auth_mode, base)))"

definition remote_config :: "env \<Rightarrow> (string \<Rightarrow> store \<Rightarrow> json option result) \<Rightarrow> string \<Rightarrow> string \<Rightarrow> string \<Rightarrow>
    settings \<Rightarrow> string \<Rightarrow> store \<Rightarrow> executor_config result" where
  "remote_config env policy project task runtime sg role s =
     and_then (context_of (executor_of sg role) ''unknown executor role'') (\<lambda>c.
     and_then (policy task s) (\<lambda>pol.
     let selected = (case pol of None \<Rightarrow> JNull | Some p \<Rightarrow> jget p ''selected'') in
     if selected = JNull then Ok c
     else
     and_then (require (jget selected ''runtime'' = JStr runtime) ''account request targets a different selected runtime'') (\<lambda>_.
     and_then (context_of (as_str (jget selected ''kind'')) ''selected remote provider kind missing'') (\<lambda>kind.
     let model = as_str (jget selected ''model'') in
     if kind = ''simulated'' then Ok (c\<lparr>ec_kind := kind, ec_account := None, ec_model := model\<rparr>)
     else
     and_then (case as_str (jget selected ''account'') of
         Some account \<Rightarrow> selected_account env project selected kind account s
       | None \<Rightarrow> selected_endpoint env project selected kind s) (\<lambda>(auth_mode, base).
     Ok (c\<lparr>ec_kind := kind, ec_auth_mode := auth_mode, ec_base_url := base,
           ec_account := as_str (jget selected ''account''), ec_model := model\<rparr>))))))"

definition retry_remote :: "string \<Rightarrow> string \<Rightarrow> string \<Rightarrow> string \<Rightarrow> string \<Rightarrow> account_remote_row \<Rightarrow> store \<Rightarrow> binding option result" where
  "retry_remote project task runtime attempt role old s =
     and_then (require (ar_project old = project \<and> ar_task old = task \<and> ar_runtime old = runtime \<and>
        ar_attempt old = attempt \<and> ar_role old = role) ''remote reservation identity changed'') (\<lambda>_.
     and_then (require (ar_state old = ''active'') ''remote reservation no longer active; reconciliation required'') (\<lambda>_.
     and_then (authorized project (ar_account old) s) (\<lambda>_.
     and_then (credential_version (ar_account old) s) (\<lambda>version.
     and_then (require (ar_version old = version) ''credential replaced; reconcile remote reservation'') (\<lambda>_.
     Ok (Some \<lparr>bi_role = role, bi_account = Some (ar_account old), bi_profile = Some (ar_profile old),
          bi_version = Some (ar_version old)\<rparr>))))))"

definition check_remote :: "env \<Rightarrow> string \<Rightarrow> string \<Rightarrow> string \<Rightarrow> string list \<Rightarrow> (store, unit) oper" where
  "check_remote env project task runtime names =
     thn (ask_state (\<lambda>_. each_result resource_identifier names))
    (thn (ask_state (authorize_task project task))
    (bnd (runtime_allowed env project runtime) (\<lambda>ok. guard ok ''runtime is not granted to project'')))"

definition reserve_remote :: "env \<Rightarrow> (string \<Rightarrow> store \<Rightarrow> json option result) \<Rightarrow> string \<Rightarrow> string \<Rightarrow> string \<Rightarrow>
    string \<Rightarrow> string \<Rightarrow> settings \<Rightarrow> string \<Rightarrow> (store, binding option) oper" where
  "reserve_remote env policy project task runtime attempt request sg role =
     thn (check_remote env project task runtime [runtime, attempt, request])
    (atomic (
       bnd (ask_state (\<lambda>s. Ok (find (\<lambda>r. ar_request_id r = request) (account_remote_reservations s)))) (\<lambda>old.
       case old of
         Some o1 \<Rightarrow> ask_state (retry_remote project task runtime attempt role o1)
       | None \<Rightarrow>
           bnd (ask_state (remote_config env policy project task runtime sg role)) (\<lambda>c.
           if ec_kind c = ''simulated'' then ret (Some (unbound role None))
           else
           bnd (ask_state (select_account env project c)) (\<lambda>sel.
           case sel of None \<Rightarrow> ret None
           | Some account \<Rightarrow>
               bnd (ask_state (bind_account role account)) (\<lambda>b.
               thn (require_state (\<lambda>s. \<not> exists_row (\<lambda>r. ar_runtime r = runtime \<and> ar_attempt r = attempt)
                      (account_remote_reservations s)) ''UNIQUE constraint failed'')
              (thn (insert_unique ar_request_id account_remote_reservations account_remote_reservations_update
                      \<lparr>ar_request_id = request, ar_project = project, ar_account = account, ar_runtime = runtime,
                       ar_task = task, ar_attempt = attempt, ar_role = role, ar_profile = unwrap_or (bi_profile b) '''',
                       ar_version = unwrap_or (bi_version b) 0, ar_state = ''active'', ar_created = now env\<rparr>)
              (thn (modify (touch_account env account))
                   (ret (Some b))))))))))"

definition remote_changed :: "string \<Rightarrow> string \<Rightarrow> account_remote_row \<Rightarrow> bool" where
  "remote_changed runtime request r = (ar_runtime r = runtime \<and> ar_request_id r = request)"

definition release_remote_account :: "string \<Rightarrow> string \<Rightarrow> (store, unit) oper" where
  "release_remote_account runtime request =
     bnd (ask_state (\<lambda>s. Ok (count_rows (remote_changed runtime request) (account_remote_reservations s)))) (\<lambda>changed.
     thn (modify (\<lambda>s. s\<lparr>account_remote_reservations := update_rows (remote_changed runtime request)
            (\<lambda>r. r\<lparr>ar_state := ''released''\<rparr>) (account_remote_reservations s)\<rparr>))
         (guard (changed = 1) ''remote reservation missing or belongs to another runtime''))"

definition remote_reservation :: "string \<Rightarrow> string \<Rightarrow> store \<Rightarrow> account_remote_row result" where
  "remote_reservation runtime request s =
     context_of (find (remote_changed runtime request) (account_remote_reservations s)) ''remote reservation missing''"

definition mark_runtime_uncertain :: "string \<Rightarrow> (store, unit) oper" where
  "mark_runtime_uncertain runtime =
     thn (modify (\<lambda>s. s\<lparr>project_remote_reservations :=
            update_rows (\<lambda>r. rr_runtime r = runtime \<and> rr_state r = ''active'') (\<lambda>r. r\<lparr>rr_state := ''uncertain''\<rparr>)
              (project_remote_reservations s)\<rparr>))
         (modify (\<lambda>s. s\<lparr>account_remote_reservations :=
            update_rows (\<lambda>r. ar_runtime r = runtime \<and> ar_state r = ''active'') (\<lambda>r. r\<lparr>ar_state := ''uncertain''\<rparr>)
              (account_remote_reservations s)\<rparr>))"

definition same_request :: "string \<Rightarrow> string \<Rightarrow> string \<Rightarrow> remote_reservation_row \<Rightarrow> bool" where
  "same_request project task runtime r = (rr_project r = project \<and> rr_task r = task \<and> rr_runtime r = runtime)"

definition reserve_project_remote :: "env \<Rightarrow> string \<Rightarrow> string \<Rightarrow> string \<Rightarrow> string \<Rightarrow> (store, bool) oper" where
  "reserve_project_remote env project task runtime request =
     thn (check_remote env project task runtime [runtime, request])
    (atomic (
       bnd (ask_state (\<lambda>s. Ok (find (\<lambda>r. rr_request_id r = request) (project_remote_reservations s)))) (\<lambda>old.
       case old of
         Some o1 \<Rightarrow>
           thn (guard (same_request project task runtime o1) ''project reservation identity changed'')
          (thn (guard (rr_state o1 = ''active'') ''project reservation is no longer active; reconcile before retrying'')
               (ret True))
       | None \<Rightarrow>
           bnd (ask_state (\<lambda>s. context_of (find (\<lambda>p. pj_id p = project) (projects s)) ''Query returned no rows'')) (\<lambda>row.
           bnd (ask_state (\<lambda>s. Ok (int (active project s)))) (\<lambda>n.
           if n \<ge> pj_concurrency row then ret False
           else
             thn (insert_unique rr_request_id project_remote_reservations project_remote_reservations_update
                    \<lparr>rr_request_id = request, rr_project = project, rr_task = task, rr_runtime = runtime,
                     rr_state = ''active'', rr_created = now env\<rparr>)
                 (ret True))))))"

definition release_project_remote :: "env \<Rightarrow> string \<Rightarrow> string \<Rightarrow> string \<Rightarrow> string \<Rightarrow> (store, unit) oper" where
  "release_project_remote env project task runtime request =
     thn (ask_state (\<lambda>_. each_result resource_identifier [runtime, request]))
    (thn (ask_state (authorize_task project task))
    (atomic (
       bnd (ask_state (\<lambda>s. Ok (find (\<lambda>r. rr_request_id r = request) (project_remote_reservations s)))) (\<lambda>old.
       case old of
         Some o1 \<Rightarrow>
           thn (guard (same_request project task runtime o1) ''project reservation identity mismatch'')
               (modify (\<lambda>s. s\<lparr>project_remote_reservations := update_rows (\<lambda>r. rr_request_id r = request)
                  (\<lambda>r. r\<lparr>rr_state := ''released''\<rparr>) (project_remote_reservations s)\<rparr>))
       | None \<Rightarrow>
           insert_unique rr_request_id project_remote_reservations project_remote_reservations_update
             \<lparr>rr_request_id = request, rr_project = project, rr_task = task, rr_runtime = runtime,
              rr_state = ''released'', rr_created = now env\<rparr>))))"

end
