(* ===== verification/Credentials.thy ===== *)
theory Credentials
  imports Accounts
begin

text \<open>
  Credentials of managed accounts (src/src/accounts/credentials.rs): replacement by the owner,
  the envelope a controller sends to a worker runtime, its installation there, and the removal of
  received material; and what the ChatGPT accounts do to the same tables (src/src/chatgpt_auth,
  src/src/account_auth.rs): the sign-out in its two halves, the saving and refreshing of a registration,
  and the adoption of a controller's version. The private files are the table \<open>credential_files\<close>; a failed transaction
  leaves at most a file of a version that no profile names, which the model drops. The
  verification of a ChatGPT token (src/src/chatgpt_auth) is a parameter.
\<close>

section \<open>Replacing a credential\<close>

definition kind_matches :: "string \<Rightarrow> string \<Rightarrow> string \<Rightarrow> bool" where
  "kind_matches kind provider mode =
     (if kind = ''api_key'' then mode = ''api''
      else if kind = ''claude_setup_token'' then mode = ''login'' \<and> provider = ''claude''
      else if kind \<in> {''codex_refresh_token'', ''codex_access_token''} then mode = ''login'' \<and> provider = ''codex''
      else kind = ''chatgpt_oauth'' \<and> mode = ''login'' \<and> provider = ''chatgpt'')"

definition validate_credential :: "env \<Rightarrow> (credential \<Rightarrow> unit result) \<Rightarrow> credential \<Rightarrow> string \<Rightarrow> string \<Rightarrow> unit result" where
  "validate_credential env check_oauth c provider mode =
     and_then (require (cr_secret c \<noteq> [] \<and> int (length (cr_secret c)) \<le> 48 * 1024 \<and> CHR 0x00 \<notin> set (cr_secret c))
        ''invalid credential size or encoding'') (\<lambda>_.
     and_then (require (case cr_expires_at c of None \<Rightarrow> True | Some t \<Rightarrow> t > now env) ''credential has expired'') (\<lambda>_.
     and_then (require (kind_matches (cr_kind c) provider mode)
        ''credential kind does not match account provider and authentication mode'') (\<lambda>_.
     if cr_kind c = ''chatgpt_oauth'' then check_oauth c else Ok ())))"

definition write_credential :: "string \<Rightarrow> int \<Rightarrow> credential \<Rightarrow> store \<Rightarrow> store" where
  "write_credential account version c s =
     s\<lparr>credential_files := upsert fst (\<lambda>_. ((account, version), c)) ((account, version), c) (credential_files s)\<rparr>"

definition set_profile :: "string \<Rightarrow> int \<Rightarrow> string \<Rightarrow> int option \<Rightarrow> store \<Rightarrow> store" where
  "set_profile account version kind expires s =
     s\<lparr>auth_profiles := update_rows (\<lambda>p. pf_account p = account)
         (\<lambda>p. p\<lparr>pf_version := version, pf_kind := Some kind, pf_expires_at := expires\<rparr>) (auth_profiles s)\<rparr>"

definition set_authenticated :: "string \<Rightarrow> bool \<Rightarrow> store \<Rightarrow> store" where
  "set_authenticated account b s =
     s\<lparr>accounts := update_rows (\<lambda>a. an_id a = account) (\<lambda>a. a\<lparr>an_authenticated := b\<rparr>) (accounts s)\<rparr>"

definition set_credential :: "env \<Rightarrow> (credential \<Rightarrow> unit result) \<Rightarrow> string \<Rightarrow> string \<Rightarrow> credential \<Rightarrow> (store, int) oper" where
  "set_credential env check_oauth project account c =
     bnd (ask_state (authorized project account)) (\<lambda>_.
     bnd (ask_state (\<lambda>s. context_of (account_row_of account s) ''Query returned no rows'')) (\<lambda>a.
     thn (guard (an_owner_project a = project) ''only account owner may replace credentials'')
    (bnd (ask_state (\<lambda>_. validate_credential env check_oauth c (an_provider a) (an_auth_mode a))) (\<lambda>_.
     atomic (
       bnd (ask_state (credential_version account)) (\<lambda>old.
       let version = old + 1 in
       thn (ask_state (\<lambda>_. resource_identifier account))
      (thn (guard (json_len env (credential_json c) \<le> 64 * 1024) ''credential payload too large'')
      (thn (modify (write_credential account version c))
      (thn (modify (set_profile account version (cr_kind c) (cr_expires_at c)))
      (thn (modify (set_authenticated account True))
      (thn (modify (\<lambda>s. s\<lparr>credential_deliveries :=
              update_rows (\<lambda>d. cd_account d = account \<and> cd_state d = ''delivered'')
                (\<lambda>d. d\<lparr>cd_state := ''replacement_pending''\<rparr>) (credential_deliveries s)\<rparr>))
           (ret version))))))))))))"

section \<open>Delivery to a runtime\<close>

record provision =
  po_granted_at :: int
  po_project :: string
  po_account :: string
  po_profile :: string
  po_version :: int
  po_provider :: string
  po_auth_mode :: string
  po_base_url :: string
  po_name :: string
  po_concurrency :: int
  po_kind :: string
  po_expires_at :: "int option"
  po_credential :: "credential option"

text \<open>Refresh material stays with the controller.\<close>

definition refresh_material :: "string \<Rightarrow> bool" where
  "refresh_material kind = (kind \<in> {''codex_refresh_token'', ''chatgpt_oauth''})"

definition delivery_matches :: "string \<Rightarrow> string \<Rightarrow> string \<Rightarrow> int \<Rightarrow> delivery_row \<Rightarrow> bool" where
  "delivery_matches project account runtime version d =
     (cd_project d = project \<and> cd_account d = account \<and> cd_runtime d = runtime \<and> cd_version d = version \<and>
      cd_state d = ''delivered'')"

definition leased :: "string \<Rightarrow> string \<Rightarrow> string \<Rightarrow> string \<Rightarrow> int \<Rightarrow> store \<Rightarrow> bool" where
  "leased request project account runtime version s =
     exists_row (\<lambda>r. ar_request_id r = request \<and> ar_project r = project \<and> ar_account r = account \<and>
       ar_runtime r = runtime \<and> ar_version r = version \<and> ar_state r = ''active'') (account_remote_reservations s)"

definition envelope :: "env \<Rightarrow> string \<Rightarrow> string \<Rightarrow> int \<Rightarrow> store \<Rightarrow> provision result" where
  "envelope env project account version s =
     and_then (credential_of env project account s) (\<lambda>c.
     and_then (context_of (profile_of account s) ''Query returned no rows'') (\<lambda>p.
     and_then (context_of (account_row_of account s) ''Query returned no rows'') (\<lambda>a.
     and_then (context_of (find (\<lambda>g. grant_key g = (project, account)) (account_grants s)) ''Query returned no rows'') (\<lambda>g.
     Ok \<lparr>po_granted_at = gr_created g, po_project = project, po_account = account, po_profile = pf_id p,
         po_version = version, po_provider = an_provider a, po_auth_mode = an_auth_mode a, po_base_url = an_base_url a,
         po_name = an_name a, po_concurrency = an_concurrency a, po_kind = cr_kind c, po_expires_at = cr_expires_at c,
         po_credential = (if refresh_material (cr_kind c) then None else Some c)\<rparr>))))"

definition provision_account :: "env \<Rightarrow> string \<Rightarrow> string \<Rightarrow> string \<Rightarrow> string \<Rightarrow> (store, provision) oper" where
  "provision_account env project account runtime request =
     thn (ask_state (\<lambda>_. each_result resource_identifier [request, runtime]))
    (thn (ask_state (authorized project account))
    (thn (bnd (runtime_allowed env project runtime) (\<lambda>ok. guard ok ''runtime is not granted to project''))
    (atomic (
       bnd (ask_state (credential_version account)) (\<lambda>version.
       thn (require_state (\<lambda>s. runtime = ''local'' \<or> leased request project account runtime version s)
              ''credential delivery requires an active account reservation'')
      (bnd (ask_state (\<lambda>s. Ok (find (\<lambda>d. cd_request_id d = request) (credential_deliveries s)))) (\<lambda>old.
       thn (case old of
              Some d \<Rightarrow> guard (delivery_matches project account runtime version d)
                ''credential delivery identity changed or revoked''
            | None \<Rightarrow> insert_unique cd_request_id credential_deliveries credential_deliveries_update
                \<lparr>cd_request_id = request, cd_project = project, cd_account = account, cd_runtime = runtime,
                 cd_version = version, cd_state = ''delivered'', cd_created = now env\<rparr>)
           (ask_state (envelope env project account version)))))))))"

section \<open>Installation\<close>

definition check_envelope :: "env \<Rightarrow> (credential \<Rightarrow> unit result) \<Rightarrow> provision \<Rightarrow> unit result" where
  "check_envelope env check_oauth e =
     and_then (each_result resource_identifier [po_account e, po_profile e, po_project e]) (\<lambda>_.
     and_then (require (po_version e > 0 \<and> po_concurrency e > 0 \<and> po_concurrency e \<le> 4096) ''invalid credential envelope'') (\<lambda>_.
     and_then (require (po_credential e \<noteq> None \<or> refresh_material (po_kind e)) ''credential material missing'') (\<lambda>_.
     case po_credential e of None \<Rightarrow> Ok ()
     | Some c \<Rightarrow>
         and_then (require (cr_kind c = po_kind e \<and> cr_expires_at c = po_expires_at e) ''credential metadata mismatch'') (\<lambda>_.
         and_then (validate_credential env check_oauth c (po_provider e) (po_auth_mode e)) (\<lambda>_.
         require (\<not> refresh_material (cr_kind c)) ''controller refresh material must never be transferred'')))))"

definition install_grant :: "provision \<Rightarrow> store \<Rightarrow> store" where
  "install_grant e s =
     s\<lparr>account_grants := insert_ignore grant_key
         \<lparr>gr_project = po_project e, gr_account = po_account e, gr_created = po_granted_at e\<rparr> (account_grants s)\<rparr>"

definition install_file :: "provision \<Rightarrow> store \<Rightarrow> store" where
  "install_file e s = (case po_credential e of None \<Rightarrow> s | Some c \<Rightarrow> write_credential (po_account e) (po_version e) c s)"

text \<open>A repeated version must repeat the material; lost material comes back after a regrant.\<close>

definition same_version :: "env \<Rightarrow> provision \<Rightarrow> int option \<Rightarrow> account_row \<Rightarrow> profile_row \<Rightarrow> (store, unit) oper" where
  "same_version env e prior a p =
     thn (guard (pf_kind p = Some (po_kind e) \<and> pf_expires_at p = po_expires_at e)
            ''credential version reused with changed metadata'')
    (thn (case po_credential e of None \<Rightarrow> ret ()
          | Some incoming \<Rightarrow> (\<lambda>s. case read_version env (po_account e) (po_version e) s of
              Inr current \<Rightarrow> guard (current = incoming) ''credential version reused with changed material'' s
            | Inl err \<Rightarrow>
                if \<not> an_authenticated a \<and> (case prior of None \<Rightarrow> False | Some v \<Rightarrow> v < po_granted_at e)
                then modify (\<lambda>s. set_authenticated (po_account e) True (install_file e s)) s
                else (s, Inl err)))
    (thn (modify (install_grant e))
         (ask_state (authorized (po_project e) (po_account e)))))"

definition received_name :: "provision \<Rightarrow> store \<Rightarrow> string" where
  "received_name e s =
     (if exists_row (\<lambda>a. an_owner_project a = po_project e \<and> an_name a = po_name e) (accounts s)
      then ''received:'' @ po_account e else po_name e)"

definition install_account :: "provision \<Rightarrow> (store, unit) oper" where
  "install_account e =
     bnd (ask_state (\<lambda>s. Ok (received_name e s))) (\<lambda>name.
     thn (require_state (\<lambda>s. \<not> exists_row (\<lambda>a. an_owner_project a = po_project e \<and> an_name a = name) (accounts s))
            ''UNIQUE constraint failed'')
    (thn (insert_unique an_id accounts accounts_update
            \<lparr>an_id = po_account e, an_owner_project = po_project e, an_name = name, an_provider = po_provider e,
             an_auth_mode = po_auth_mode e, an_base_url = po_base_url e, an_concurrency = po_concurrency e,
             an_authenticated = False, an_state = ''active'', an_last_dispatch = 0\<rparr>)
    (thn (require_state (\<lambda>s. po_account e \<notin> pf_account ` set (auth_profiles s)) ''UNIQUE constraint failed'')
         (insert_unique pf_id auth_profiles auth_profiles_update
            \<lparr>pf_id = po_profile e, pf_account = po_account e, pf_version = 0, pf_kind = None, pf_expires_at = None\<rparr>))))"

definition install_version :: "provision \<Rightarrow> (store, unit) oper" where
  "install_version e =
     thn (modify (install_file e))
    (thn (modify (set_profile (po_account e) (po_version e) (po_kind e) (po_expires_at e)))
    (thn (modify (set_authenticated (po_account e) True))
         (modify (install_grant e))))"

definition known_account :: "string \<Rightarrow> store \<Rightarrow> (account_row \<times> profile_row) option" where
  "known_account account s =
     Option.bind (account_row_of account s) (\<lambda>a. map_option (Pair a) (profile_of account s))"

definition receive :: "env \<Rightarrow> (credential \<Rightarrow> unit result) \<Rightarrow> provision \<Rightarrow> (store, unit) oper" where
  "receive env check_oauth e =
     thn (ask_state (\<lambda>_. check_envelope env check_oauth e))
    (atomic (
       bnd (ask_state (\<lambda>s. Ok (map_option gr_created
              (find (\<lambda>r. grant_key r = (po_project e, po_account e)) (account_grant_revocations s))))) (\<lambda>prior.
       thn (guard (case prior of None \<Rightarrow> True | Some v \<Rightarrow> v < po_granted_at e)
              ''account grant was revoked; explicit regrant required'')
      (bnd (ask_state (\<lambda>s. Ok (known_account (po_account e) s))) (\<lambda>old.
       case old of
         None \<Rightarrow> thn (install_account e) (install_version e)
       | Some (a, p) \<Rightarrow>
           thn (guard (pf_id p = po_profile e \<and> an_provider a = po_provider e \<and> an_auth_mode a = po_auth_mode e \<and>
                  an_base_url a = po_base_url e) ''account identity changed'')
          (thn (guard (pf_version p \<le> po_version e) ''credential version regressed'')
               (if pf_version p = po_version e then same_version env e prior a p else install_version e)))))))"

section \<open>Removal\<close>

definition acknowledge_removal :: "string \<Rightarrow> string \<Rightarrow> string \<Rightarrow> (store, unit) oper" where
  "acknowledge_removal project account runtime =
     modify (\<lambda>s. s\<lparr>credential_deliveries :=
       update_rows (\<lambda>d. cd_project d = project \<and> cd_account d = account \<and> cd_runtime d = runtime \<and>
           cd_state d \<in> {''revocation_pending'', ''replacement_pending''})
         (\<lambda>d. d\<lparr>cd_state := ''removed''\<rparr>) (credential_deliveries s)\<rparr>)"

text \<open>An attempt that runs, or may still run, on the account.\<close>

definition uses_account :: "string \<Rightarrow> attempt_row \<Rightarrow> store \<Rightarrow> bool" where
  "uses_account account a s =
     (live_state (at_state a) \<and>
      (exists_row (\<lambda>c. aa_attempt c = at_id a \<and> aa_account c = account) (attempt_accounts s) \<or>
       exists_row (\<lambda>b. ab_attempt b = at_id a \<and> ab_account b = Some account) (attempt_bindings s)))"

definition live_uses :: "string \<Rightarrow> string \<Rightarrow> store \<Rightarrow> nat" where
  "live_uses project account s =
     length [a. a \<leftarrow> attempts s, r \<leftarrow> steps s, st_id r = at_step a, p \<leftarrow> task_projects s,
       tp_task p = st_task r \<and> tp_project p = project \<and> uses_account account a s]"

definition account_live_uses :: "string \<Rightarrow> store \<Rightarrow> nat" where
  "account_live_uses account s = count_rows (\<lambda>a. uses_account account a s) (attempts s)"

definition drop_files :: "(string \<times> int \<Rightarrow> bool) \<Rightarrow> store \<Rightarrow> store" where
  "drop_files p s = s\<lparr>credential_files := filter (\<lambda>f. \<not> p (fst f)) (credential_files s)\<rparr>"

definition remove_received :: "string \<Rightarrow> string \<Rightarrow> (store, json) oper" where
  "remove_received project account =
     thn (ask_state (\<lambda>_. each_result resource_identifier [project, account]))
    (thn (atomic (
            thn (modify (drop_grant project account))
                (modify (revoke_reservations project account [''active'', ''uncertain'']))))
    (bnd (ask_state (\<lambda>s. Ok (live_uses project account s))) (\<lambda>n.
     if n > 0 then ret (jobj [(''removed'', JBool False), (''state'', JStr ''revocation_pending''), (''active'', JInt (int n))])
     else
       thn (modify (\<lambda>s. if exists_row (\<lambda>g. gr_account g = account) (account_grants s) then s
              else set_authenticated account False (drop_files (\<lambda>k. fst k = account) s)))
      (thn (modify (\<lambda>s. s\<lparr>account_reservations :=
              update_rows (\<lambda>r. rs_project r = project \<and> rs_account r = account \<and> rs_state r = ''revoked'')
                (\<lambda>r. r\<lparr>rs_state := ''released''\<rparr>) (account_reservations s)\<rparr>))
           (ret (jobj [(''removed'', JBool True), (''state'', JStr ''removed'')]))))))"

definition retire_received :: "string \<Rightarrow> string \<Rightarrow> int \<Rightarrow> (store, json) oper" where
  "retire_received project account version =
     thn (ask_state (authorized project account))
    (thn (guard (version > 0) ''invalid credential version'')
    (bnd (ask_state (\<lambda>s. Ok (account_live_uses account s))) (\<lambda>n.
     if n > 0 then ret (jobj [(''removed'', JBool False), (''state'', JStr ''replacement_pending''), (''active'', JInt (int n))])
     else
       thn (modify (drop_files (\<lambda>k. fst k = account \<and> snd k \<le> version)))
      (bnd (ask_state (credential_version account)) (\<lambda>current.
       thn (when_op (current \<le> version) (modify (set_authenticated account False)))
           (ret (jobj [(''removed'', JBool True), (''state'', JStr ''removed'')])))))))"

text \<open>
  \<^verbatim>\<open>cleanup_ungranted\<close>: accounts without a grant, an allocation and a live attempt lose their
  material; \<open>locked\<close> tells whether another process holds the refresh lock of an account.
\<close>

definition ungranted :: "store \<Rightarrow> string list" where
  "ungranted s =
     [an_id a. a \<leftarrow> accounts s, \<not> exists_row (\<lambda>g. gr_account g = an_id a) (account_grants s) \<and> allocated (an_id a) s = 0]"

definition cleanup_account :: "(string \<Rightarrow> bool) \<Rightarrow> string \<Rightarrow> (store, unit) oper" where
  "cleanup_account locked account =
     thn (ask_state (\<lambda>_. resource_identifier account))
    (bnd (ask_state (\<lambda>s. Ok (account_live_uses account s))) (\<lambda>n.
     when_op (n = 0 \<and> \<not> locked account)
       (atomic (modify (\<lambda>s. if exists_row (\<lambda>g. gr_account g = account) (account_grants s) then s
          else set_authenticated account False (drop_files (\<lambda>k. fst k = account) s))))))"

definition cleanup_ungranted :: "(string \<Rightarrow> bool) \<Rightarrow> (store, unit) oper" where
  "cleanup_ungranted locked =
     bnd (ask_state (\<lambda>s. Ok (ungranted s))) (\<lambda>ids. each_op (cleanup_account locked) ids)"

section \<open>Signing out and following the controller\<close>

text \<open>The owner check of a ChatGPT account (src/src/chatgpt_auth/storage.rs).\<close>

definition account_owner :: "string \<Rightarrow> string \<Rightarrow> store \<Rightarrow> unit result" where
  "account_owner project account s =
     and_then (resource_identifier project) (\<lambda>_.
     and_then (resource_identifier account) (\<lambda>_.
     and_then (authorized project account s) (\<lambda>_.
     and_then (context_of (account_row_of account s) ''Query returned no rows'') (\<lambda>a.
     require (an_owner_project a = project \<and> an_provider a = ''chatgpt'' \<and> an_auth_mode a = ''login'')
       ''ChatGPT connection requires its account owner''))))"

definition open_state :: "string \<Rightarrow> bool" where
  "open_state st = (st = ''active'' \<or> st = ''uncertain'')"

definition revoke_all_reservations :: "string \<Rightarrow> store \<Rightarrow> store" where
  "revoke_all_reservations account s =
     s\<lparr>account_reservations := update_rows (\<lambda>r. rs_account r = account \<and> open_state (rs_state r))
         (\<lambda>r. r\<lparr>rs_state := ''revoked''\<rparr>) (account_reservations s)\<rparr>"

definition revoke_all_remote :: "string \<Rightarrow> store \<Rightarrow> store" where
  "revoke_all_remote account s =
     s\<lparr>account_remote_reservations := update_rows (\<lambda>r. ar_account r = account \<and> open_state (ar_state r))
         (\<lambda>r. r\<lparr>ar_state := ''revoked''\<rparr>) (account_remote_reservations s)\<rparr>"

definition withdraw_deliveries :: "string \<Rightarrow> store \<Rightarrow> store" where
  "withdraw_deliveries account s =
     s\<lparr>credential_deliveries := update_rows (\<lambda>d. cd_account d = account \<and> cd_state d = ''delivered'')
         (\<lambda>d. d\<lparr>cd_state := ''revocation_pending''\<rparr>) (credential_deliveries s)\<rparr>"

definition clear_profile :: "string \<Rightarrow> store \<Rightarrow> store" where
  "clear_profile account s =
     s\<lparr>auth_profiles := update_rows (\<lambda>p. pf_account p = account)
         (\<lambda>p. p\<lparr>pf_version := pf_version p + 1, pf_kind := None, pf_expires_at := None\<rparr>) (auth_profiles s)\<rparr>"

text \<open>\<^verbatim>\<open>clear_local\<close>; the private directory of the account is emptied after the transaction.\<close>

definition clear_local :: "string \<Rightarrow> (store, unit) oper" where
  "clear_local account =
     thn (atomic (
            thn (modify (set_authenticated account False))
           (thn (modify (clear_profile account))
           (thn (modify (revoke_all_reservations account))
           (thn (modify (revoke_all_remote account))
                (modify (withdraw_deliveries account)))))))
         (modify (drop_files (\<lambda>k. fst k = account)))"

text \<open>
  \<^verbatim>\<open>sign_out\<close>: the calls of the account are stopped at once, then the provider is asked to
  revoke the session, then the material is removed. \<open>admin\<close> is the operator check of the
  process; \<open>ask_provider\<close> is the wait for the provider, during which other operations may
  change the tables, with its answer.
\<close>

definition begin_sign_out :: "unit result \<Rightarrow> string \<Rightarrow> string \<Rightarrow> (store, unit) oper" where
  "begin_sign_out admin project account =
     thn (ask_state (\<lambda>_. admin))
    (thn (ask_state (account_owner project account))
    (thn (modify (set_authenticated account False))
    (thn (modify (revoke_all_reservations account))
         (modify (revoke_all_remote account)))))"

definition finish_sign_out :: "string \<Rightarrow> bool \<Rightarrow> (store, json) oper" where
  "finish_sign_out account confirmed =
     thn (clear_local account)
    (thn (modify (withdraw_deliveries account))
         (ret (jobj [(''account'', JStr account), (''signed_out'', JBool True),
            (''remote_revocation_confirmed'', JBool confirmed), (''registration_retained'', JBool True)])))"

definition sign_out :: "unit result \<Rightarrow> (store, bool) oper \<Rightarrow> string \<Rightarrow> string \<Rightarrow> (store, json) oper" where
  "sign_out admin ask_provider project account =
     thn (begin_sign_out admin project account)
    (bnd ask_provider (finish_sign_out account))"

text \<open>The rows that follow a new version of the material: running attempts and active reservations.\<close>

definition adopt_bindings :: "string \<Rightarrow> int \<Rightarrow> int \<Rightarrow> store \<Rightarrow> store" where
  "adopt_bindings account old version s =
     s\<lparr>attempt_bindings := update_rows (\<lambda>b. ab_account b = Some account \<and> ab_version b = Some old \<and>
           exists_row (\<lambda>a. at_id a = ab_attempt b \<and> at_state a = ''running'') (attempts s))
         (\<lambda>b. b\<lparr>ab_version := Some version\<rparr>) (attempt_bindings s)\<rparr>"

definition adopt_reservations :: "string \<Rightarrow> int \<Rightarrow> int \<Rightarrow> store \<Rightarrow> store" where
  "adopt_reservations account old version s =
     s\<lparr>account_reservations := update_rows (\<lambda>r. rs_account r = account \<and> rs_version r = old \<and> rs_state r = ''active'')
         (\<lambda>r. r\<lparr>rs_version := version\<rparr>) (account_reservations s)\<rparr>"

definition adopt_remote :: "string \<Rightarrow> int \<Rightarrow> int \<Rightarrow> store \<Rightarrow> store" where
  "adopt_remote account old version s =
     s\<lparr>account_remote_reservations :=
         update_rows (\<lambda>r. ar_account r = account \<and> ar_version r = old \<and> ar_state r = ''active'')
           (\<lambda>r. r\<lparr>ar_version := version\<rparr>) (account_remote_reservations s)\<rparr>"

text \<open>
  \<^verbatim>\<open>save\<close>: new material of a ChatGPT registration replaces the version it was made from. \<open>saved\<close> is
  the client, the subject and the host that the private mapping file has, if there is one.
\<close>

definition version_is :: "string \<Rightarrow> int \<Rightarrow> store \<Rightarrow> unit result" where
  "version_is account expected s =
     and_then (credential_version account s) (\<lambda>v.
     require (v = expected) ''account credentials changed during authorization'')"

definition save_registration ::
  "env \<Rightarrow> (credential \<Rightarrow> unit result) \<Rightarrow> (string \<times> string \<times> string) option result \<Rightarrow> string \<times> string \<times> string \<Rightarrow>
    string \<Rightarrow> string \<Rightarrow> credential \<Rightarrow> int \<Rightarrow> (store, int) oper" where
  "save_registration env check_oauth saved ids project account c expected =
     thn (ask_state (account_owner project account))
    (thn (ask_state (version_is account expected))
    (bnd (ask_state (\<lambda>_. saved)) (\<lambda>m.
     thn (guard (m = None \<or> m = Some ids) ''ChatGPT registration does not match selected account'')
    (atomic (
       thn (ask_state (version_is account expected))
           (set_credential env check_oauth project account c))))))"

text \<open>The transaction of \<^verbatim>\<open>access_token\<close> after the provider has answered a refresh.\<close>

definition refresh_registration ::
  "env \<Rightarrow> (credential \<Rightarrow> unit result) \<Rightarrow> (string \<times> string \<times> string) option result \<Rightarrow> string \<times> string \<times> string \<Rightarrow>
    string \<Rightarrow> string \<Rightarrow> credential \<Rightarrow> int \<Rightarrow> (store, unit) oper" where
  "refresh_registration env check_oauth saved ids owner account c old =
     atomic (
       bnd (save_registration env check_oauth saved ids owner account c old) (\<lambda>version.
       thn (modify (adopt_reservations account old version))
      (thn (modify (adopt_remote account old version))
           (modify (adopt_bindings account old version)))))"

text \<open>
  A worker runtime that asked its controller for an access token adopts the version the
  controller has (\<^verbatim>\<open>invocation_chatgpt_token\<close> in src/src/account_auth.rs, from the answer on).
\<close>

definition follow_controller :: "string \<Rightarrow> string \<Rightarrow> int \<Rightarrow> (store, unit) oper" where
  "follow_controller project account version =
     thn (guard (version > 0) ''invalid controller credential version'')
    (thn (ask_state (authorized project account))
    (atomic (
       bnd (ask_state (credential_version account)) (\<lambda>old.
       thn (guard (version \<ge> old) ''controller credential version regressed'')
      (when_op (version > old) (
         thn (modify (\<lambda>s. s\<lparr>auth_profiles :=
                update_rows (\<lambda>p. pf_account p = account \<and> pf_kind p = Some ''chatgpt_oauth'' \<and> pf_version p = old)
                  (\<lambda>p. p\<lparr>pf_version := version\<rparr>) (auth_profiles s)\<rparr>))
        (thn (modify (adopt_bindings account old version))
             (modify (adopt_reservations account old version)))))))))"

end
