(* ===== verification/Submission.thy ===== *)
theory Submission
  imports Projects
begin

text \<open>
  Submitting a task and publishing artifacts (src/src/store.rs \<^verbatim>\<open>submit_pinned_project\<close>, \<^verbatim>\<open>artifact\<close>;
  \<^verbatim>\<open>initialize\<close> of src/src/delegation.rs). Skills and secret bundles keep their own tables and
  files; what they do to a submission is a parameter.
\<close>

section \<open>Context records\<close>

definition next_row :: "context_row list \<Rightarrow> int" where
  "next_row rs = fold max (map cx_row rs) 0 + 1"

definition add_context :: "string \<Rightarrow> string \<Rightarrow> int \<Rightarrow> string \<Rightarrow> string \<Rightarrow> string \<Rightarrow> bool \<Rightarrow> (store, unit) oper" where
  "add_context cid r0 version kind content provenance mandatory =
     bnd (ask_state (\<lambda>s. Ok (next_row (context_records s)))) (\<lambda>n.
     insert_unique cx_id context_records context_records_update
       \<lparr>cx_row = n, cx_id = cid, cx_root = r0, cx_version = version, cx_kind = kind, cx_content = content,
        cx_provenance = provenance, cx_mandatory = mandatory\<rparr>)"

section \<open>Submitting\<close>

text \<open>
  The parts of a submission outside this model: the check of the skill packet against the plan,
  its binding to the task, and the selection of secret bundles.
\<close>

record submit_deps =
  sd_check_skills :: "plan \<Rightarrow> unit result"
  sd_bind_skills :: "string \<Rightarrow> (store, unit) oper"
  sd_select_bundles :: "string \<Rightarrow> string list \<Rightarrow> (store, unit) oper"

definition initialize :: "submit_deps \<Rightarrow> string \<Rightarrow> string \<Rightarrow> settings \<Rightarrow> (store, unit) oper" where
  "initialize D oid objective settings =
     bnd (ask_state (\<lambda>_. validate_limits (sg_limits settings))) (\<lambda>_.
     thn (insert_unique tt_task task_tree task_tree_update
            \<lparr>tt_task = oid, tt_root = oid, tt_parent = None, tt_caller_worker = None, tt_depth = 0,
             tt_version = 1, tt_limits = sg_limits settings, tt_request_id = None, tt_request_hash = None\<rparr>)
    (thn (add_context (''objective:'' @ oid) oid 1 ''objective'' objective ''original submission'' True)
         (sd_select_bundles D oid (sg_secret_bundles settings))))"

text \<open>
  The identifiers a submission draws: the task, its repository, its question and its steps, and
  the repository row of a delegated child's clone.
\<close>

record fresh_ids =
  fi_task :: string
  fi_repository :: string
  fi_clone :: string
  fi_question :: string
  fi_step :: "nat \<Rightarrow> string"

fun insert_steps :: "fresh_ids \<Rightarrow> nat \<Rightarrow> string \<Rightarrow> step list \<Rightarrow> (store, unit) oper" where
  "insert_steps F i oid [] = ret ()"
| "insert_steps F i oid (p # ps) =
     thn (require_state (\<lambda>s. \<not> exists_row (\<lambda>r. st_task r = oid \<and> st_name r = s_id p) (steps s)) ''UNIQUE constraint failed'')
    (thn (insert_unique st_id steps steps_update
            \<lparr>st_id = fi_step F i, st_task = oid, st_name = s_id p, st_spec = p, st_state = ''pending'', st_result = None\<rparr>)
         (insert_steps F (Suc i) oid ps))"

text \<open>The transaction of \<^verbatim>\<open>submit_pinned_project\<close>.\<close>

definition submit_tx :: "env \<Rightarrow> submit_deps \<Rightarrow> fresh_ids \<Rightarrow> string \<Rightarrow> string \<Rightarrow> string \<Rightarrow>
    settings \<Rightarrow> plan \<Rightarrow> (store, unit) oper" where
  "submit_tx env D F p objective repo settings plan =
     thn (insert_unique tk_id tasks tasks_update
            \<lparr>tk_id = fi_task F, tk_objective = objective, tk_repo = repo,
             tk_status = (if sg_autonomy settings then ''running'' else ''waiting''),
             tk_settings = settings, tk_plan = plan, tk_created = now env\<rparr>)
    (thn (bind_task env (fi_repository F) (fi_task F) p repo)
    (thn (insert_unique (\<lambda>r. (rv_task r, rv_revision r)) revisions revisions_update
            \<lparr>rv_task = fi_task F, rv_revision = 1, rv_plan = plan\<rparr>)
    (thn (insert_steps F 0 (fi_task F) (p_steps plan))
    (thn (when_op (\<not> sg_autonomy settings)
            (insert_unique qu_id questions questions_update
              \<lparr>qu_id = fi_question F, qu_task = fi_task F,
               qu_question = ''Start this task? Answer yes to authorize execution.'', qu_answer = None\<rparr>))
    (thn (initialize D (fi_task F) objective settings)
    (thn (sd_bind_skills D (fi_task F))
         (event env (fi_task F) ''task.submitted'' (jobj [(''objective'', JStr objective),
            (''integrated_head'', JNull), (''revision'', JInt 1)]))))))))"

definition submit_pinned_project :: "env \<Rightarrow> submit_deps \<Rightarrow> fresh_ids \<Rightarrow> string \<Rightarrow> string \<Rightarrow> string \<Rightarrow>
    settings \<Rightarrow> plan \<Rightarrow> (store, string) oper" where
  "submit_pinned_project env D F project objective repo settings plan =
     bnd (ask_state (resolve_project project)) (\<lambda>p.
     bnd (ask_state (\<lambda>_. sd_check_skills D plan)) (\<lambda>_.
     thn (guard (\<not> blank objective) ''task must not be empty'')
    (thn (atomic (submit_tx env D F p objective repo settings plan))
         (ret (fi_task F)))))"

text \<open>\<^verbatim>\<open>submit_project\<close>: the repository must not belong to another project.\<close>

definition submit_project :: "env \<Rightarrow> submit_deps \<Rightarrow> fresh_ids \<Rightarrow> string \<Rightarrow> string \<Rightarrow> string \<Rightarrow>
    settings \<Rightarrow> plan \<Rightarrow> (store, string) oper" where
  "submit_project env D F project objective repo settings plan =
     bnd (ask_state (resolve_project project)) (\<lambda>p.
     bnd (ask_state (infer_project env repo)) (\<lambda>owner.
     thn (guard (owner = None \<or> owner = Some p) ''repository belongs to another project'')
         (submit_pinned_project env D F p objective repo settings plan)))"

definition submit :: "env \<Rightarrow> submit_deps \<Rightarrow> fresh_ids \<Rightarrow> string \<Rightarrow> string \<Rightarrow> settings \<Rightarrow> plan \<Rightarrow>
    (store, string) oper" where
  "submit env D F objective repo settings plan =
     bnd (ask_state (infer_project env repo)) (\<lambda>owner.
       submit_project env D F (unwrap_or owner default_project) objective repo settings plan)"

section \<open>Artifacts\<close>

text \<open>
  \<^verbatim>\<open>artifact\<close>: the bytes go to a file named by their hash; the link row is replaced. The unique
  key does not hold for a null step, which SQLite never finds equal.
\<close>

definition artifact_link :: "artifact_link_row \<Rightarrow> artifact_link_row \<Rightarrow> bool" where
  "artifact_link a b = (al_step a \<noteq> None \<and> al_task a = al_task b \<and> al_step a = al_step b \<and>
     al_name a = al_name b \<and> al_hash a = al_hash b)"

definition artifact :: "env \<Rightarrow> (string \<Rightarrow> unit result) \<Rightarrow> string \<Rightarrow> string option \<Rightarrow> string \<Rightarrow> string \<Rightarrow> json \<Rightarrow>
    bool \<Rightarrow> (store, string) oper" where
  "artifact env write_file oid stp name bytes inputs verified =
     bnd (ask_state (get_task oid)) (\<lambda>_.
     thn (case stp of None \<Rightarrow> ret ()
          | Some i \<Rightarrow> bnd (ask_state (\<lambda>s. context_of (find (\<lambda>r. st_id r = i) (steps s)) ''Query returned no rows''))
              (\<lambda>r. guard (st_task r = oid) ''artifact step belongs to another task''))
    (thn (ask_state (\<lambda>_. write_file bytes))
    (thn (atomic (modify (\<lambda>s. s\<lparr>artifact_links :=
            filter (\<lambda>a. \<not> artifact_link a \<lparr>al_task = oid, al_step = stp, al_name = name,
              al_hash = sha256 env bytes, al_inputs = inputs, al_verified = verified\<rparr>) (artifact_links s) @
            [\<lparr>al_task = oid, al_step = stp, al_name = name, al_hash = sha256 env bytes,
              al_inputs = inputs, al_verified = verified\<rparr>]\<rparr>)))
         (ret (sha256 env bytes)))))"

end
