(* ===== verification/Delegation.thy ===== *)
theory Delegation
  imports Submission
begin

text \<open>
  Delegation trees (src/src/delegation.rs): inherited context and its version, pins on attempts,
  capacity of a tree, delegating a child task, questions that travel up the tree, acceptance of
  children and event cursors.
\<close>

section \<open>Inherited context\<close>

definition visible_source :: "string \<Rightarrow> store \<Rightarrow> context_row \<Rightarrow> bool" where
  "visible_source oid s r = (\<not> exists_row (\<lambda>(k, task). k = cx_id r \<and> task \<noteq> oid) (knowledge_owners s))"

definition context_row_json :: "context_row \<Rightarrow> json" where
  "context_row_json r = jobj [(''cursor'', JInt (cx_row r)), (''id'', JStr (cx_id r)), (''root'', JStr (cx_root r)),
     (''version'', JInt (cx_version r)), (''kind'', JStr (cx_kind r)), (''content'', JStr (cx_content r)),
     (''provenance'', JStr (cx_provenance r)), (''mandatory'', JBool (cx_mandatory r))]"

text \<open>\<^verbatim>\<open>contract\<close>: one page of the context of a tree.\<close>

definition contract_page :: "string \<Rightarrow> tree_row \<Rightarrow> int \<Rightarrow> int \<Rightarrow> store \<Rightarrow> context_row list" where
  "contract_page oid t after limit s =
     take (nat (max 1 (min 100 limit)))
       (sort_key cx_row (filter (\<lambda>r. cx_root r = tt_root t \<and> cx_row r > after \<and> visible_source oid s r)
          (context_records s)))"

definition contract :: "string \<Rightarrow> int \<Rightarrow> int \<Rightarrow> store \<Rightarrow> json result" where
  "contract oid after limit s =
     and_then (tree oid s) (\<lambda>t.
       let entries = contract_page oid t after limit s in
       Ok (jobj [(''root'', JStr (tt_root t)), (''parent'', jstr_opt (tt_parent t)),
            (''version'', JInt (tt_version t)), (''records'', JArr (map context_row_json entries)),
            (''next'', if entries = [] then JNull else JInt (cx_row (last entries)))]))"

text \<open>Entries of a cached packet that stay: private knowledge only of the owner task.\<close>

definition retain_source :: "env \<Rightarrow> string \<Rightarrow> json \<Rightarrow> bool" where
  "retain_source env owner source =
     (if jget source ''kind'' \<notin> {JStr ''supporting_fact'', JStr ''supporting_decision'', JStr ''supporting_evidence''}
      then True
      else case Option.bind (Option.bind (as_str (jget source ''provenance'')) (parse_json env))
             (\<lambda>p. as_str (jget p ''source_task'')) of
        None \<Rightarrow> True | Some task \<Rightarrow> task = owner)"

definition cached_context :: "env \<Rightarrow> string \<Rightarrow> json \<Rightarrow> store \<Rightarrow> json" where
  "cached_context env oid packet s =
     (let ctx = jget packet ''context'';
          owner = (case find (\<lambda>r. ro_task r = oid) (remote_origins s) of None \<Rightarrow> oid | Some r \<Rightarrow> ro_owner_task r)
      in case as_array (jget ctx ''supporting_sources'') of
           None \<Rightarrow> ctx
         | Some sources \<Rightarrow> jset ''supporting_sources'' (JArr (filter (retain_source env owner) sources)) ctx)"

definition source_json :: "context_row \<Rightarrow> json" where
  "source_json r = jobj [(''id'', JStr (cx_id r)), (''kind'', JStr (cx_kind r)), (''provenance'', JStr (cx_provenance r))]"

definition mandatory :: "env \<Rightarrow> string \<Rightarrow> store \<Rightarrow> json result" where
  "mandatory env oid s =
     (case map_of (remote_context s) oid of
        Some packet \<Rightarrow> Ok (cached_context env oid packet s)
      | None \<Rightarrow>
          and_then (tree oid s) (\<lambda>t.
            let records = JArr (map context_json (mandatory_records (tt_root t) s)) in
            if json_len env records \<le> 256 * 1024 then
              Ok (jobj [(''root'', JStr (tt_root t)), (''parent'', jstr_opt (tt_parent t)),
                (''version'', JInt (tt_version t)), (''records'', records), (''sources_tool'', JStr ''read_context''),
                (''supporting_sources'', JArr (map source_json (take 100 (sort_key cx_row
                   (filter (\<lambda>r. cx_root r = tt_root t \<and> \<not> cx_mandatory r \<and> visible_source oid s r) (context_records s))))))])
            else bail ''mandatory context exceeds 256 KiB''))"

definition bump_version :: "string \<Rightarrow> int \<Rightarrow> store \<Rightarrow> store" where
  "bump_version r0 version s =
     s\<lparr>task_tree := update_rows (\<lambda>t. tt_root t = r0) (\<lambda>t. t\<lparr>tt_version := version\<rparr>) (task_tree s)\<rparr>"

text \<open>Completed tasks of the tree need verification again.\<close>

definition block_succeeded :: "string \<Rightarrow> store \<Rightarrow> store" where
  "block_succeeded r0 s =
     set_task_status (\<lambda>t. tk_status t = ''succeeded'' \<and> exists_row (\<lambda>r. tt_root r = r0 \<and> tt_task r = tk_id t) (task_tree s))
       ''blocked'' s"

definition supersede :: "string \<Rightarrow> json \<Rightarrow> (store, unit) oper" where
  "supersede oid old =
     bnd (ask_state (\<lambda>_. context_of (as_str old) ''source ID'')) (\<lambda>i.
     thn (require_state (\<lambda>s. exists_row (\<lambda>r. cx_id r = i \<and> cx_root r = oid \<and> cx_kind r \<noteq> ''objective'') (context_records s))
            ''superseded source missing or original objective is protected'')
         (modify (\<lambda>s. s\<lparr>context_records := update_rows (\<lambda>r. cx_id r = i \<and> cx_root r = oid \<and> cx_kind r \<noteq> ''objective'')
            (\<lambda>r. r\<lparr>cx_mandatory := False\<rparr>) (context_records s)\<rparr>)))"

definition update_context :: "env \<Rightarrow> string \<Rightarrow> string \<Rightarrow> json \<Rightarrow> (store, json) oper" where
  "update_context env fresh oid args =
     bnd (ask_state (tree_root oid)) (\<lambda>r0.
     thn (guard (r0 = oid) ''only the root caller may revise inherited context'')
    (bnd (ask_state (\<lambda>_. context_of (as_str (jget args ''content'')) ''content'')) (\<lambda>content.
     bnd (ask_state (\<lambda>_. context_of (as_str (jget args ''provenance'')) ''provenance'')) (\<lambda>provenance.
     thn (guard (\<not> blank content \<and> \<not> blank provenance \<and> int (length content) \<le> 65536)
            ''context requires content and provenance, at most 64 KiB'')
    (atomic (
       bnd (ask_state (tree oid)) (\<lambda>t.
       let version = tt_version t + 1; cid = unwrap_or (as_str (jget args ''id'')) fresh in
       thn (each_op (supersede oid) (unwrap_or (as_array (jget args ''supersedes'')) []))
      (thn (add_context cid oid version (unwrap_or (as_str (jget args ''kind'')) ''requirement'') content provenance
              (unwrap_or (as_bool (jget args ''mandatory'')) True))
      (thn (modify (bump_version oid version))
      (thn (modify (block_succeeded oid))
      (thn (event env oid ''context.updated'' (jobj [(''id'', JStr cid), (''version'', JInt version),
              (''requires_revalidation'', JBool True)]))
           (ret (jobj [(''id'', JStr cid), (''version'', JInt version)])))))))))))))"

definition pin :: "string \<Rightarrow> string \<Rightarrow> (store, unit) oper" where
  "pin oid attempt =
     bnd (ask_state (tree oid)) (\<lambda>t.
     insert_unique pn_attempt context_attempts context_attempts_update
       \<lparr>pn_attempt = attempt, pn_root = tt_root t, pn_version = tt_version t\<rparr>)"

definition check_pin :: "string \<Rightarrow> string \<Rightarrow> store \<Rightarrow> unit result" where
  "check_pin oid attempt s =
     (case find (\<lambda>p. pn_attempt p = attempt) (context_attempts s) of
        None \<Rightarrow> Ok ()
      | Some p \<Rightarrow> and_then (tree oid s) (\<lambda>t.
          require (pn_version p = tt_version t) ''context changed during execution; result requires revalidation''))"

section \<open>Capacity of a tree\<close>

definition in_tree :: "string \<Rightarrow> string \<Rightarrow> store \<Rightarrow> bool" where
  "in_tree r0 task s = exists_row (\<lambda>t. tt_task t = task \<and> tt_root t = r0) (task_tree s)"

definition step_in_tree :: "string \<Rightarrow> string \<Rightarrow> store \<Rightarrow> bool" where
  "step_in_tree r0 stp s = exists_row (\<lambda>r. st_id r = stp \<and> in_tree r0 (st_task r) s) (steps s)"

definition tree_load :: "string \<Rightarrow> store \<Rightarrow> nat" where
  "tree_load r0 s =
     count_rows (\<lambda>a. at_state a \<in> {''running'', ''uncertain''} \<and> step_in_tree r0 (at_step a) s) (attempts s) +
     count_rows (\<lambda>l. rl_state l \<in> {''sending'', ''running''} \<and> in_tree r0 (rl_task l) s) (remote_links s)"

definition tree_capacity :: "string \<Rightarrow> store \<Rightarrow> bool result" where
  "tree_capacity oid s =
     and_then (tree oid s) (\<lambda>t. Ok (tree_load (tt_root t) s < lm_workers (tt_limits t)))"

section \<open>Delegating\<close>

text \<open>
  What delegation takes from outside this model: the submission's parameters, the choice of the
  target runtime, the workspace of a task, whether a checkout has uncommitted work, the template
  files of a repository with their digests, the selection of skills, the maintenance budget of
  upstream work, the inheritance of the execution policy and of the secret bundles, the clone
  of a local child's repository with its base commit, the packed source of a caller, the file
  writer of artifacts and the peers approved for delegation.
\<close>

record delegate_deps =
  dd_submit :: submit_deps
  dd_target :: "json \<Rightarrow> store \<Rightarrow> json result"
  dd_workspace :: "string \<Rightarrow> store \<Rightarrow> string result"
  dd_dirty :: "string \<Rightarrow> bool result"
  dd_templates :: "string \<Rightarrow> (string, template) btree result"
  dd_digest :: "template \<Rightarrow> string"
  dd_skills :: "string \<Rightarrow> json \<Rightarrow> store \<Rightarrow> string list result"
  dd_check_budget :: "string \<Rightarrow> store \<Rightarrow> unit result"
  dd_budgeted :: "string \<Rightarrow> store \<Rightarrow> bool result"
  dd_inherit :: "string \<Rightarrow> string \<Rightarrow> json \<Rightarrow> (store, unit) oper"
  dd_allocate :: "string \<Rightarrow> string \<Rightarrow> json \<Rightarrow> (store, string \<times> string) oper"
  dd_bundles :: "string \<Rightarrow> string \<Rightarrow> json \<Rightarrow> (store, unit) oper"
  dd_pack :: "string \<Rightarrow> json result"
  dd_write_file :: "string \<Rightarrow> unit result"
  dd_peers :: "string list result"

text \<open>What a delegation works on, before the transaction: project, repository, source and plan.\<close>

record prepared =
  pd_project :: string
  pd_repo :: string
  pd_source :: string
  pd_plan :: plan

text \<open>The checkout that the child starts from.\<close>

definition delegation_source :: "delegate_deps \<Rightarrow> string \<Rightarrow> json \<Rightarrow> store \<Rightarrow> string result" where
  "delegation_source D oid args s =
     (case as_str (jget args ''repo'') of
        Some repo \<Rightarrow> Ok repo
      | None \<Rightarrow>
          (case as_str (jget args ''worker'') of
             None \<Rightarrow> dd_workspace D oid s
           | Some w \<Rightarrow> and_then (get_worker w s) (\<lambda>row.
               and_then (dd_workspace D oid s) (\<lambda>shared. Ok (unwrap_or (wk_workspace row) shared)))))"

definition ownership_repo :: "string \<Rightarrow> json \<Rightarrow> store \<Rightarrow> string result" where
  "ownership_repo oid args s =
     (case as_str (jget args ''repo'') of
        Some repo \<Rightarrow> Ok repo
      | None \<Rightarrow> context_of (Option.bind (find (\<lambda>t. tp_task t = oid) (task_projects s))
          (\<lambda>t. map_option rp_path (find (\<lambda>r. tp_repository t = Some (rp_id r)) (project_repositories s))))
          ''Query returned no rows'')"

definition add_skills :: "string list \<Rightarrow> step \<Rightarrow> step" where
  "add_skills names st =
     (if s_kind st = ''agent'' then st\<lparr>s_skills := remdups_adj (sort (s_skills st @ names))\<rparr> else st)"

definition prepare :: "env \<Rightarrow> delegate_deps \<Rightarrow> string \<Rightarrow> json \<Rightarrow> task_row \<Rightarrow> store \<Rightarrow> (prepared \<times> tree_row \<times> string) result" where
  "prepare env D oid args parent s =
     and_then (task_project oid s) (\<lambda>project.
     let given = as_str (jget args ''repo''); repo = unwrap_or given (tk_repo parent) in
     and_then (case given of None \<Rightarrow> Ok ()
        | Some path \<Rightarrow> and_then (infer_project env path s) (\<lambda>owner.
            require (owner = Some project) ''delegation repository must be registered in the parent project'')) (\<lambda>_.
     and_then (delegation_source D oid args s) (\<lambda>source.
     and_then (and_then (dd_dirty D source) (\<lambda>dirty. require (\<not> dirty) ''commit parent work before delegating'')) (\<lambda>_.
     and_then (tree oid s) (\<lambda>t.
     and_then (context_of (as_str (jget args ''objective'')) ''objective'') (\<lambda>objective.
     and_then (ownership_repo oid args s) (\<lambda>owned.
     and_then (dd_templates D repo) (\<lambda>templates.
     and_then (compile (dd_digest D) (unwrap_or (as_str (jget args ''template'')) (sg_default_template (tk_settings parent)))
        templates [(''task'', objective)]) (\<lambda>plan.
     and_then (dd_skills D oid (jget args ''skills'') s) (\<lambda>names.
     and_then (dd_check_budget D oid s) (\<lambda>_.
     and_then (dd_budgeted D oid s) (\<lambda>budgeted.
     and_then (require (budgeted \<longrightarrow> jget args ''peer'' = JNull)
        ''remote maintenance delegation is not budget-qualified'') (\<lambda>_.
     Ok (\<lparr>pd_project = project, pd_repo = owned, pd_source = source,
          pd_plan = (if as_array (jget args ''skills'') = None then plan
                     else plan\<lparr>p_steps := map (add_skills names) (p_steps plan)\<rparr>)\<rparr>, t, objective))))))))))))))"

definition tree_size :: "string \<Rightarrow> store \<Rightarrow> nat" where
  "tree_size r0 s = count_rows (\<lambda>t. tt_root t = r0) (task_tree s)"

text \<open>The child's row: it joins the caller's tree one level below it.\<close>

definition adopt_child :: "string \<Rightarrow> tree_row \<Rightarrow> json \<Rightarrow> string \<Rightarrow> string \<Rightarrow> string \<Rightarrow> store \<Rightarrow> store" where
  "adopt_child oid t args request hash child s =
     s\<lparr>task_tree := update_rows (\<lambda>r. tt_task r = child)
         (\<lambda>r. r\<lparr>tt_root := tt_root t, tt_parent := Some oid, tt_caller_worker := as_str (jget args ''worker''),
                tt_depth := tt_depth t + 1, tt_request_id := Some request, tt_request_hash := Some hash,
                tt_version := tt_version t, tt_limits := tt_limits t\<rparr>) (task_tree s)\<rparr>"

definition save_snapshot :: "env \<Rightarrow> delegate_deps \<Rightarrow> string \<Rightarrow> json \<Rightarrow> (store, unit) oper" where
  "save_snapshot env D child v =
     bnd (artifact env (dd_write_file D) child None ''caller-snapshot'' (json_text env v) (jobj []) False) (\<lambda>_. ret ())"

text \<open>A local child gets a repository of its own.\<close>

definition allocate_local :: "env \<Rightarrow> delegate_deps \<Rightarrow> fresh_ids \<Rightarrow> prepared \<Rightarrow> json \<Rightarrow> string \<Rightarrow> (store, unit) oper" where
  "allocate_local env D F prep args child =
     bnd (dd_allocate D (pd_source prep) child args) (\<lambda>tb.
     bnd (register_repository env (fi_clone F) (pd_project prep) (fst tb)) (\<lambda>_.
     thn (modify (\<lambda>s. s\<lparr>tasks := update_rows (\<lambda>k. tk_id k = child) (\<lambda>k. k\<lparr>tk_repo := fst tb\<rparr>) (tasks s)\<rparr>))
         (insert_unique fst local_child_bases local_child_bases_update (child, snd tb))))"

text \<open>A child for another runtime waits for its peer with the packed source of the caller.\<close>

definition link_remote :: "env \<Rightarrow> delegate_deps \<Rightarrow> prepared \<Rightarrow> json \<Rightarrow> string \<Rightarrow> string \<Rightarrow> string \<Rightarrow> (store, unit) oper" where
  "link_remote env D prep args request peer child =
     thn (when_op (jfield args ''_snapshot'' = None)
            (bnd (ask_state (\<lambda>_. dd_pack D (pd_source prep))) (\<lambda>v. save_snapshot env D child v)))
    (bnd (ask_state (\<lambda>_. dd_peers D)) (\<lambda>peers.
     thn (guard (peer \<in> set peers) ''remote runtime is not approved for delegation'')
    (thn (insert_unique rl_task remote_links remote_links_update
            \<lparr>rl_task = child, rl_peer = peer, rl_state = ''pending'', rl_request = request\<rparr>)
         (modify (set_task_status (\<lambda>k. tk_id k = child) ''remote'')))))"

text \<open>The transaction after the child has been submitted.\<close>

definition attach_child :: "env \<Rightarrow> delegate_deps \<Rightarrow> fresh_ids \<Rightarrow> string \<Rightarrow> string \<Rightarrow> json \<Rightarrow> string \<Rightarrow> string \<Rightarrow>
    prepared \<Rightarrow> tree_row \<Rightarrow> string \<Rightarrow> (store, json) oper" where
  "attach_child env D F oid objective args request hash prep t child =
     thn (dd_inherit D oid child args)
    (thn (when_op (jget args ''peer'' = JNull) (allocate_local env D F prep args child))
    (thn (modify (\<lambda>s. s\<lparr>context_records := filter (\<lambda>r. cx_root r \<noteq> child) (context_records s)\<rparr>))
    (thn (modify (adopt_child oid t args request hash child))
    (thn (dd_bundles D oid child args)
    (thn (case jfield args ''_snapshot'' of None \<Rightarrow> ret () | Some v \<Rightarrow> save_snapshot env D child v)
    (thn (case as_str (jget args ''peer'') of None \<Rightarrow> ret ()
          | Some peer \<Rightarrow> link_remote env D prep args request peer child)
    (thn (modify (set_task_status (\<lambda>k. tk_id k = oid \<and> tk_status k = ''succeeded'') ''running''))
    (thn (event env oid ''child.submitted'' (jobj [(''child'', JStr child), (''id'', JStr request),
            (''assignment'', JStr objective)]))
         (ret (jobj [(''id'', JStr child), (''root'', JStr (tt_root t)), (''parent'', JStr oid)]))))))))))"

definition delegate_tx :: "env \<Rightarrow> delegate_deps \<Rightarrow> fresh_ids \<Rightarrow> string \<Rightarrow> string \<Rightarrow> json \<Rightarrow> string \<Rightarrow> string \<Rightarrow>
    settings \<Rightarrow> prepared \<Rightarrow> tree_row \<Rightarrow> (store, json) oper" where
  "delegate_tx env D F oid objective args request hash settings prep t =
     thn (require_state (\<lambda>s. int (tree_size (tt_root t) s) - 1 < int (lm_children (tt_limits t)) \<and>
            max 0 (tt_depth t) < int (lm_depth (tt_limits t))) ''delegation tree limit reached'')
    (bnd (submit_pinned_project env (dd_submit D) F (pd_project prep) objective (pd_repo prep)
            (settings\<lparr>sg_secret_bundles := [], sg_skills := []\<rparr>) (pd_plan prep))
       (attach_child env D F oid objective args request hash prep t))"

definition delegate :: "env \<Rightarrow> delegate_deps \<Rightarrow> fresh_ids \<Rightarrow> string \<Rightarrow> json \<Rightarrow> (store, json) oper" where
  "delegate env D F oid args0 =
     bnd (ask_state (\<lambda>_. context_of (as_str (jget args0 ''id'')) ''delegation requires id for deduplication'')) (\<lambda>request.
     let hash = sha256 env (json_text env args0) in
     bnd (ask_state (\<lambda>s. Ok (find (\<lambda>t. tt_parent t = Some oid \<and> tt_request_id t = Some request) (task_tree s)))) (\<lambda>old.
     case old of
       Some o1 \<Rightarrow>
         thn (guard (tt_request_hash o1 = Some hash) ''delegation ID reused with different assignment'')
             (ret (jobj [(''id'', JStr (tt_task o1)), (''duplicate'', JBool True)]))
     | None \<Rightarrow>
         bnd (ask_state (dd_target D args0)) (\<lambda>args.
         bnd (ask_state (get_task oid)) (\<lambda>parent.
         bnd (ask_state (prepare env D oid args parent)) (\<lambda>(prep, t, objective).
         atomic (delegate_tx env D F oid objective args request hash (tk_settings parent) prep t))))))"

section \<open>Questions\<close>

definition set_status_of :: "string \<Rightarrow> string \<Rightarrow> string \<Rightarrow> store \<Rightarrow> store" where
  "set_status_of oid old st = set_task_status (\<lambda>t. tk_id t = oid \<and> tk_status t = old) st"

definition question_envelope :: "string \<Rightarrow> json \<Rightarrow> json" where
  "question_envelope q args = jobj [(''question'', JStr q), (''worker'', jget args ''worker''),
     (''evidence'', jget args ''evidence''), (''recommendation'', jget args ''recommendation''),
     (''human_only'', JBool (unwrap_or (as_bool (jget args ''human_only'')) False))]"

definition ask_instruction :: string where
  "ask_instruction = ''Finish this invocation with accepted=false. Only dependent work waits; the caller may answer or escalate.''"

text \<open>\<open>qid\<close> and \<open>rid\<close> are the identifiers drawn for the question and, if needed, the request.\<close>

definition ask :: "env \<Rightarrow> string \<Rightarrow> string \<Rightarrow> string \<Rightarrow> json \<Rightarrow> (store, json) oper" where
  "ask env qid rid oid args =
     bnd (ask_state (\<lambda>_. context_of (as_str (jget args ''question'')) ''question'')) (\<lambda>q.
     thn (guard (\<not> blank q) ''question cannot be empty'')
    (let request = unwrap_or (as_str (jget args ''id'')) rid; envelope = question_envelope q args in
     atomic (
       bnd (ask_state (\<lambda>s. Ok (find (\<lambda>r. qr_origin r = oid \<and> qr_request_id r = request) (question_routes s)))) (\<lambda>old.
       case old of
         Some o1 \<Rightarrow>
           thn (guard (qr_envelope o1 = envelope) ''question ID reused with different content'')
               (ret (jobj [(''id'', JStr (qr_question o1)), (''duplicate'', JBool True)]))
       | None \<Rightarrow>
           bnd (ask_state (tree oid)) (\<lambda>t.
           thn (insert_unique qu_id questions questions_update
                  \<lparr>qu_id = qid, qu_task = oid, qu_question = q, qu_answer = None\<rparr>)
          (thn (insert_unique qc_question question_context question_context_update
                  \<lparr>qc_question = qid, qc_purpose = ''input'', qc_worker = as_str (jget args ''worker'')\<rparr>)
          (thn (insert_unique qr_question question_routes question_routes_update
                  \<lparr>qr_question = qid, qr_origin = oid, qr_target = tt_parent t, qr_request_id = request,
                   qr_envelope = envelope, qr_answerer = None,
                   qr_human_only = (jget envelope ''human_only'' = JBool True)\<rparr>)
          (thn (when_op (jget args ''worker'' = JNull) (modify (set_status_of oid ''running'' ''waiting'')))
          (thn (case tt_caller_worker t of None \<Rightarrow> ret ()
                | Some w \<Rightarrow> modify (set_worker_status (\<lambda>r. wk_id r = w \<and> wk_status r = ''idle'') ''notified''))
          (thn (event env (unwrap_or (tt_parent t) oid) ''question.pending''
                  (jobj [(''id'', JStr qid), (''origin'', JStr oid), (''envelope'', envelope)]))
               (ret (jobj [(''id'', JStr qid), (''waiting'', JBool True), (''instruction'', JStr ask_instruction)]))))))))))))"

text \<open>
  The loop of \<^verbatim>\<open>question_action\<close> that climbs from the origin to the child of the caller. The
  fuel bounds the length of the walk; \<open>Delegation_Facts\<close> shows that one more than the depth of
  the origin is enough in every store that the operations build.
\<close>

fun climb :: "nat \<Rightarrow> string \<Rightarrow> tree_row \<Rightarrow> store \<Rightarrow> tree_row result" where
  "climb 0 caller branch s = bail ''out of fuel''"
| "climb (Suc n) caller branch s =
     (if tt_parent branch = Some caller then Ok branch
      else case tt_parent branch of
        None \<Rightarrow> bail ''question caller ancestry''
      | Some up \<Rightarrow> and_then (tree up s) (\<lambda>b. climb n caller b s))"

definition check_worker :: "string \<Rightarrow> question_route_row \<Rightarrow> json \<Rightarrow> bool \<Rightarrow> store \<Rightarrow> unit result" where
  "check_worker caller route args escalate s =
     (case as_str (jget args ''worker'') of
        None \<Rightarrow> Ok ()
      | Some worker \<Rightarrow>
          and_then (require (qr_target route \<noteq> None) ''external caller must answer this question'') (\<lambda>_.
          and_then (tree (qr_origin route) s) (\<lambda>b.
          and_then (climb (Suc (nat (tt_depth b))) caller b s) (\<lambda>branch.
          and_then (require (tt_caller_worker branch = Some worker) ''question belongs to another calling worker'') (\<lambda>_.
          require (escalate \<or> \<not> qr_human_only route) ''question requires an external human answer'')))))"

definition escalate_tx :: "env \<Rightarrow> string \<Rightarrow> question_route_row \<Rightarrow> string option \<Rightarrow> json \<Rightarrow> (store, json) oper" where
  "escalate_tx env caller route answered args =
     thn (guard (answered = None) ''question already answered'')
    (bnd (ask_state (tree caller)) (\<lambda>t.
     thn (insert_unique (\<lambda>e. (qe_question e, qe_caller e)) question_escalations question_escalations_update
            \<lparr>qe_question = qr_question route, qe_caller = caller,
             qe_commentary = unwrap_or (as_str (jget args ''commentary'')) ''''\<rparr>)
    (thn (modify (\<lambda>s. s\<lparr>question_routes := update_rows (\<lambda>r. qr_question r = qr_question route)
            (\<lambda>r. r\<lparr>qr_target := tt_parent t\<rparr>) (question_routes s)\<rparr>))
    (thn (event env (unwrap_or (tt_parent t) caller) ''question.escalated''
            (jobj [(''id'', JStr (qr_question route)), (''origin'', JStr (qr_origin route)),
               (''original'', JStr (json_text env (qr_envelope route))), (''commentary'', jget args ''commentary'')]))
         (ret (jobj [(''escalated'', JBool True), (''target'', jstr_opt (tt_parent t))]))))))"

text \<open>The steps that wait for an answer become pending again.\<close>

definition wake_steps :: "string \<Rightarrow> store \<Rightarrow> store" where
  "wake_steps qid s =
     set_step_state (\<lambda>r. st_state r \<in> {''waiting'', ''failed''} \<and>
       exists_row (\<lambda>w. wk_step w = Some (st_id r) \<and>
         exists_row (\<lambda>c. qc_question c = qid \<and> qc_worker c = Some (wk_id w)) (question_context s)) (workers s))
       ''pending'' s"

definition resume_origin :: "string \<Rightarrow> store \<Rightarrow> store" where
  "resume_origin origin s =
     (if exists_row (\<lambda>q. qu_task q = origin \<and> qu_answer q = None) (questions s) then s
      else set_status_of origin ''waiting'' ''running'' s)"

definition answer_tx :: "env \<Rightarrow> string \<Rightarrow> question_route_row \<Rightarrow> string option \<Rightarrow> json \<Rightarrow> (store, json) oper" where
  "answer_tx env caller route answered args =
     bnd (ask_state (\<lambda>_. context_of (as_str (jget args ''answer'')) ''answer'')) (\<lambda>ans.
     case answered of
       Some old \<Rightarrow>
         thn (guard (old = ans) ''question already has a different answer'')
             (ret (jobj [(''answered'', JBool True), (''duplicate'', JBool True)]))
     | None \<Rightarrow>
         (let qid = qr_question route; author = unwrap_or (as_str (jget args ''worker'')) ''external caller'' in
          thn (when_op (qr_human_only route)
                 (guard (jget args ''human'' = JBool True \<and> jget args ''worker'' = JNull)
                    ''human-only question requires caller attestation''))
         (thn (modify (\<lambda>s. s\<lparr>questions := update_rows (\<lambda>q. qu_id q = qid) (\<lambda>q. q\<lparr>qu_answer := Some ans\<rparr>) (questions s)\<rparr>))
         (thn (modify (\<lambda>s. s\<lparr>question_routes := update_rows (\<lambda>r. qr_question r = qid)
                 (\<lambda>r. r\<lparr>qr_answerer := Some author\<rparr>) (question_routes s)\<rparr>))
         (thn (modify (\<lambda>s. s\<lparr>question_context := update_rows (\<lambda>c. qc_question c = qid)
                 (\<lambda>c. c\<lparr>qc_purpose := ''input_answered''\<rparr>) (question_context s)\<rparr>))
         (thn (modify (wake_steps qid))
         (thn (modify (resume_origin (qr_origin route)))
         (bnd (ask_state (tree_root (qr_origin route))) (\<lambda>r0.
          bnd (ask_state (tree r0)) (\<lambda>rt.
          let version = tt_version rt + 1 in
          thn (modify (bump_version r0 version))
         (thn (modify (block_succeeded r0))
         (thn (add_context (''answer:'' @ qid) r0 version ''answer''
                 (json_text env (jobj [(''question'', JStr (json_text env (qr_envelope route))), (''answer'', JStr ans)]))
                 (json_text env (jobj [(''question'', JStr qid), (''author'', JStr author), (''caller'', JStr caller)])) True)
         (thn (event env r0 ''question.answered'' (jobj [(''id'', JStr qid), (''origin'', JStr (qr_origin route)),
                 (''answer'', JStr ans), (''author'', JStr author), (''version'', JInt version)]))
              (ret (jobj [(''answered'', JBool True), (''version'', JInt version)])))))))))))))))"

definition question_action :: "env \<Rightarrow> string \<Rightarrow> json \<Rightarrow> bool \<Rightarrow> (store, json) oper" where
  "question_action env caller args escalate =
     bnd (ask_state (\<lambda>_. context_of (as_str (jget args ''question'')) ''question ID'')) (\<lambda>qid.
     bnd (ask_state (\<lambda>s. context_of (find (\<lambda>r. qr_question r = qid) (question_routes s)) ''routed question missing'')) (\<lambda>route.
     bnd (ask_state (\<lambda>s. context_of (find (\<lambda>q. qu_id q = qid) (questions s)) ''routed question missing'')) (\<lambda>q.
     bnd (ask_state (\<lambda>s. Ok (if escalate
            then find (\<lambda>e. qe_question e = qid \<and> qe_caller e = caller) (question_escalations s) else None))) (\<lambda>old.
     case old of
       Some e \<Rightarrow>
         thn (guard (qe_commentary e = unwrap_or (as_str (jget args ''commentary'')) '''') ''escalation retry changed commentary'')
             (ret (jobj [(''escalated'', JBool True), (''duplicate'', JBool True)]))
     | None \<Rightarrow>
         thn (if qr_target route = Some caller then ret ()
              else if qr_target route = None
              then bnd (ask_state (tree_root (qr_origin route))) (\<lambda>r0.
                guard (caller = r0) ''question is addressed to another caller'')
              else throw ''question is addressed to another caller'')
        (thn (ask_state (check_worker caller route args escalate))
             (atomic (if escalate then escalate_tx env caller route (qu_answer q) args
                      else answer_tx env caller route (qu_answer q) args)))))))"

definition has_question :: "string \<Rightarrow> store \<Rightarrow> bool" where
  "has_question worker s =
     exists_row (\<lambda>c. qc_worker c = Some worker \<and>
       exists_row (\<lambda>q. qu_id q = qc_question c \<and> qu_answer q = None) (questions s)) (question_context s)"

section \<open>Event cursors and acceptance\<close>

definition last_event :: "string \<Rightarrow> store \<Rightarrow> int" where
  "last_event oid s = fold max (map ev_seq (filter (\<lambda>e. ev_task e = oid) (events s))) 0"

definition ack_events :: "string \<Rightarrow> json \<Rightarrow> (store, unit) oper" where
  "ack_events oid args =
     bnd (ask_state (\<lambda>_. context_of (as_str (jget args ''consumer'')) ''consumer'')) (\<lambda>consumer.
     bnd (ask_state (\<lambda>_. context_of (as_i64 (jget args ''seq'')) ''seq'')) (\<lambda>n.
     thn (require_state (\<lambda>s. 0 \<le> n \<and> n \<le> last_event oid s) ''event cursor out of range'')
         (modify (\<lambda>s. s\<lparr>event_receipts := upsert (\<lambda>r. (er_task r, er_consumer r))
            (\<lambda>r. r\<lparr>er_seq := max (er_seq r) n\<rparr>)
            \<lparr>er_task = oid, er_consumer = consumer, er_seq = n\<rparr> (event_receipts s)\<rparr>))))"

definition children_of :: "string \<Rightarrow> store \<Rightarrow> string list" where
  "children_of oid s = map tt_task (filter (\<lambda>t. tt_parent t = Some oid) (task_tree s))"

definition pending_questions :: "string \<Rightarrow> store \<Rightarrow> question_route_row list" where
  "pending_questions oid s =
     filter (\<lambda>r. exists_row (\<lambda>q. qu_id q = qr_question r \<and> qu_answer q = None) (questions s) \<and>
       (qr_target r = Some oid \<or> qr_target r = None \<and> in_tree oid (qr_origin r) s)) (question_routes s)"

text \<open>
  The recursive query: the task and its ancestors; \<^verbatim>\<open>UNION ALL\<close> walks the parent chain, which
  the depth of the task bounds.
\<close>

fun ancestors :: "nat \<Rightarrow> string \<Rightarrow> store \<Rightarrow> string list" where
  "ancestors 0 i s = [i]"
| "ancestors (Suc n) i s =
     i # concat (map (\<lambda>t. case tt_parent t of None \<Rightarrow> [] | Some p \<Rightarrow> ancestors n p s)
           (filter (\<lambda>t. tt_task t = i) (task_tree s)))"

definition ancestor_list :: "string \<Rightarrow> store \<Rightarrow> string list" where
  "ancestor_list oid s = ancestors (case tree oid s of Inl _ \<Rightarrow> 0 | Inr t \<Rightarrow> nat (tt_depth t)) oid s"

definition invalidate_acceptance :: "string \<Rightarrow> (store, unit) oper" where
  "invalidate_acceptance oid =
     thn (modify (\<lambda>s. s\<lparr>child_acceptance := filter (\<lambda>a. ca_child a \<notin> set (ancestor_list oid s)) (child_acceptance s)\<rparr>))
         (modify (\<lambda>s. set_task_status (\<lambda>t. tk_id t \<in> set (ancestor_list oid s) \<and> tk_status t = ''succeeded'') ''running'' s))"

definition child_completion :: "string \<Rightarrow> store \<Rightarrow> bool" where
  "child_completion oid s =
     (let statuses = [tk_status k. t \<leftarrow> task_tree s, tt_parent t = Some oid, k \<leftarrow> tasks s, tk_id k = tt_task t];
          accepted = count_rows (\<lambda>a. ca_parent a = oid \<and>
            exists_row (\<lambda>t. tt_task t = oid \<and> tt_version t = ca_version a) (task_tree s)) (child_acceptance s)
      in list_all (\<lambda>st. st = ''succeeded'') statuses \<and> accepted = length statuses)"

end
