(* ===== verification/Mailbox.thy ===== *)
theory Mailbox
  imports Store_Base
begin

text \<open>
  Messages between the workers of a task (src/src/store.rs \<^verbatim>\<open>send\<close>, \<^verbatim>\<open>recipients\<close>, \<^verbatim>\<open>steer\<close>,
  \<^verbatim>\<open>messages\<close>, \<^verbatim>\<open>actionable_notifications\<close>, \<^verbatim>\<open>acknowledge\<close>; src/src/store_feedback.rs): delivery
  receipts, wake-ups, the operator identity and the acknowledged-prefix cursor.
\<close>

section \<open>Sending\<close>

definition contains_text :: "string \<Rightarrow> string \<Rightarrow> bool" where
  "contains_text pat str = (find_split pat str \<noteq> None)"

text \<open>\<^verbatim>\<open>Store::recipients\<close>: the ids of the workers that get the message.\<close>

definition recipients :: "string \<Rightarrow> string \<Rightarrow> string \<Rightarrow> bool \<Rightarrow> store \<Rightarrow> string list result" where
  "recipients oid sender destination operator s =
     (if destination = ''task'' then
        (let peers = map wk_id (sort_key wk_updated
               (filter (\<lambda>w. wk_task w = oid \<and> wk_id w \<noteq> sender \<and> wk_status w \<noteq> operator_status) (workers s)))
         in if operator \<and> peers = [] then bail ''task has no workers to steer''
            else if peers \<noteq> [] then Ok peers
            else Ok [sender])
      else if prefix ''group:'' destination then
        (let grp = drop (length ''group:'') destination;
             members = [wk_id w. c \<leftarrow> channels s, w \<leftarrow> workers s, wk_id w = ch_worker c,
               ch_task c = oid \<and> ch_name c = grp \<and> ch_worker c \<noteq> sender \<and> wk_status w \<noteq> operator_status]
         in if members = [] then bail ''group has no other recipients'' else Ok members)
      else
        and_then (get_worker destination s) (\<lambda>target.
          if wk_task target \<noteq> oid then bail ''recipient belongs to another task''
          else if wk_status target = operator_status
          then bail ''the operator identity does not receive messages''
          else Ok [wk_id target]))"

definition receipt_key :: "receipt_row \<Rightarrow> string \<times> string" where
  "receipt_key r = (rc_message r, rc_worker r)"

text \<open>A follow-up worker's broadcast to the whole task.\<close>

definition recursive_broadcast :: "worker_row \<Rightarrow> string \<Rightarrow> store \<Rightarrow> bool" where
  "recursive_broadcast w destination s =
     (destination = ''task'' \<and> wk_status w \<noteq> operator_status \<and>
      (case find (\<lambda>r. Some (st_id r) = wk_step w) (steps s) of
         None \<Rightarrow> False | Some r \<Rightarrow> contains_text ''.followup-'' (st_name r)))"

definition same_payload :: "message_row \<Rightarrow> string \<Rightarrow> string \<Rightarrow> string \<Rightarrow> json \<Rightarrow> bool \<Rightarrow> bool" where
  "same_payload m sender destination body refs actionable =
     (ms_sender m = sender \<and> ms_body m = body \<and> ms_destination m = destination \<and>
      ms_refs m = refs \<and> ms_actionable m = actionable)"

definition wake_idle :: "env \<Rightarrow> string \<Rightarrow> store \<Rightarrow> store" where
  "wake_idle env wid s = s\<lparr>workers :=
     update_rows (\<lambda>w. wk_id w = wid \<and> wk_status w = ''idle'')
       (\<lambda>w. w\<lparr>wk_status := ''notified'', wk_updated := now env\<rparr>) (workers s)\<rparr>"

definition append_message :: "message_row \<Rightarrow> (store, unit) oper" where
  "append_message m = (\<lambda>s.
     if ms_id m \<in> ms_id ` set (messages s) then (s, bail ''UNIQUE constraint failed'')
     else (s\<lparr>messages := messages s @ [m\<lparr>ms_seq := message_seq s + 1\<rparr>],
             message_seq := message_seq s + 1\<rparr>, Ok ()))"

definition deliver :: "env \<Rightarrow> string \<Rightarrow> bool \<Rightarrow> string \<Rightarrow> (store, unit) oper" where
  "deliver env mid wake wid =
     thn (insert_unique receipt_key receipts receipts_update
            \<lparr>rc_message = mid, rc_worker = wid, rc_ack = False\<rparr>)
         (when_op wake (modify (wake_idle env wid)))"

text \<open>The part of \<^verbatim>\<open>send\<close> for a message id that is not in the log yet.\<close>

definition post_message :: "env \<Rightarrow> worker_row \<Rightarrow> string \<Rightarrow> string \<Rightarrow> string \<Rightarrow> string \<Rightarrow> string \<Rightarrow> json \<Rightarrow> bool \<Rightarrow>
    (store, json) oper" where
  "post_message env w oid sender mid destination body refs actionable =
     bnd (ask_state (\<lambda>s. Ok (recursive_broadcast w destination s))) (\<lambda>recursive.
     bnd (ask_state (recipients oid sender destination (wk_status w = operator_status))) (\<lambda>rs.
     thn (append_message \<lparr>ms_seq = 0, ms_id = mid, ms_task = oid, ms_sender = sender,
            ms_destination = destination, ms_body = body, ms_refs = refs,
            ms_actionable = actionable, ms_created = now env,
            ms_wakeable = (actionable \<and> \<not> recursive)\<rparr>)
    (thn (each_op (deliver env mid (actionable \<and> \<not> recursive)) rs)
    (thn (event env oid ''message.sent'' (jobj [(''id'', JStr mid), (''sender'', JStr sender),
            (''destination'', JStr destination), (''recipients'', JInt (int (length rs))),
            (''operator'', JBool (wk_status w = operator_status)),
            (''self_delivery'', JBool (sender \<in> set rs))]))
         (ret (jobj [(''id'', JStr mid), (''recipients'', JInt (int (length rs))),
            (''duplicate'', JBool False)]))))))"

definition send :: "env \<Rightarrow> string \<Rightarrow> string \<Rightarrow> string \<Rightarrow> string \<Rightarrow> string \<Rightarrow> json \<Rightarrow> bool \<Rightarrow>
    (store, json) oper" where
  "send env oid sender mid destination body refs actionable =
     thn (guard (\<not> (int (length body) > 262144 \<or> mid = [])) ''invalid message size or id'')
     (atomic (
       bnd (ask_state (get_worker sender)) (\<lambda>w.
       thn (guard (wk_task w = oid) ''wrong task'')
      (bnd (ask_state (\<lambda>s. Ok (find (\<lambda>m. ms_id m = mid) (messages s)))) (\<lambda>old.
       case old of
         Some m \<Rightarrow>
           thn (guard (same_payload m sender destination body refs actionable)
                  ''message id reused with different payload'')
               (ret (jobj [(''id'', JStr mid), (''duplicate'', JBool True)]))
       | None \<Rightarrow> post_message env w oid sender mid destination body refs actionable)))))"

text \<open>\<^verbatim>\<open>Store::steer\<close>; \<open>secret\<close> is the identifier whose hash becomes the row's token hash.\<close>

definition steer :: "env \<Rightarrow> string \<Rightarrow> string \<Rightarrow> string \<Rightarrow> string \<Rightarrow> json \<Rightarrow> bool \<Rightarrow> string option \<Rightarrow>
    (store, json) oper" where
  "steer env secret oid mid body refs actionable destination =
     bnd (ask_state (get_task oid)) (\<lambda>task.
     thn (guard (tk_status task \<noteq> ''cancelled'') ''task is cancelled'')
     (atomic (
       bnd (ask_state (\<lambda>s. Ok (operator_id oid \<notin> wk_id ` set (workers s)))) (\<lambda>created.
       thn (modify (\<lambda>s. s\<lparr>workers := insert_ignore wk_id
              \<lparr>wk_id = operator_id oid, wk_task = oid, wk_step = None, wk_status = operator_status,
               wk_token_hash = sha256 env secret, wk_workspace = None, wk_updated = now env\<rparr> (workers s)\<rparr>))
      (thn (modify (\<lambda>s. s\<lparr>cursors := insert_ignore sq_worker \<lparr>sq_worker = operator_id oid, sq_seq = 0\<rparr> (cursors s)\<rparr>))
      (thn (modify (\<lambda>s. s\<lparr>notifications :=
              insert_ignore sq_worker \<lparr>sq_worker = operator_id oid, sq_seq = 0\<rparr> (notifications s)\<rparr>))
      (thn (when_op created (event env oid ''operator.registered'' (jobj [(''worker'', JStr (operator_id oid))])))
      (bnd (send env oid (operator_id oid) mid (unwrap_or destination ''task'') body refs actionable) (\<lambda>result.
       ret (jset ''sender'' (JStr (operator_id oid)) result))))))))))"

section \<open>Reading and acknowledging\<close>

text \<open>The messages with an unacknowledged receipt of the worker, in row order.\<close>

definition unread :: "string \<Rightarrow> store \<Rightarrow> message_row list" where
  "unread wid s = filter (\<lambda>m. \<exists>r \<in> set (receipts s).
     rc_message r = ms_id m \<and> rc_worker r = wid \<and> \<not> rc_ack r) (messages s)"

definition messages_after :: "string \<Rightarrow> int \<Rightarrow> int \<Rightarrow> store \<Rightarrow> message_row list result" where
  "messages_after wid after limit s =
     and_then (get_worker wid s) (\<lambda>_.
       Ok (take (nat (max 1 (min 1000 limit)))
             (sort_key ms_seq (filter (\<lambda>m. ms_seq m > after) (unread wid s)))))"

definition seq_of :: "string \<Rightarrow> seq_row list \<Rightarrow> int option" where
  "seq_of wid rows = map_option sq_seq (find (\<lambda>q. sq_worker q = wid) rows)"

text \<open>\<^verbatim>\<open>Store::actionable_notifications\<close>: new actionable mail, and the part that wakes the worker.\<close>

definition actionable_notifications :: "string \<Rightarrow> store \<Rightarrow> nat \<times> nat" where
  "actionable_notifications wid s =
     (let mail = filter (\<lambda>m. ms_actionable m \<and> ms_seq m > unwrap_or (seq_of wid (notifications s)) 0) (unread wid s)
      in (length mail, length (filter ms_wakeable mail)))"

definition acknowledged_seq :: "string \<Rightarrow> store \<Rightarrow> int" where
  "acknowledged_seq wid s =
     (case map ms_seq (unread wid s) of
        [] \<Rightarrow> fold max (map ms_seq (messages s)) 0
      | q # qs \<Rightarrow> fold min qs q - 1)"

definition acknowledge_one :: "env \<Rightarrow> string \<Rightarrow> string \<Rightarrow> string \<Rightarrow> (store, unit) oper" where
  "acknowledge_one env task wid mid =
     bnd (ask_state (\<lambda>s. Ok (filter (\<lambda>r. rc_worker r = wid \<and> rc_message r = mid) (receipts s)))) (\<lambda>rows.
       if list_ex (\<lambda>r. \<not> rc_ack r) rows then
         thn (modify (\<lambda>s. s\<lparr>receipts :=
                update_rows (\<lambda>r. rc_worker r = wid \<and> rc_message r = mid) (\<lambda>r. r\<lparr>rc_ack := True\<rparr>) (receipts s)\<rparr>))
             (event env task ''message.acknowledged'' (jobj [(''message'', JStr mid), (''worker'', JStr wid)]))
       else if rows = [] then throw ''message not in worker mailbox''
       else ret ())"

definition acknowledge :: "env \<Rightarrow> string \<Rightarrow> string list \<Rightarrow> (store, unit) oper" where
  "acknowledge env wid ids =
     atomic (
       bnd (ask_state (get_worker wid)) (\<lambda>w.
       thn (each_op (acknowledge_one env (wk_task w) wid) ids)
           (modify (\<lambda>s. s\<lparr>cursors := update_rows (\<lambda>q. sq_worker q = wid)
              (\<lambda>q. q\<lparr>sq_seq := acknowledged_seq wid s\<rparr>) (cursors s)\<rparr>))))"

section \<open>Feedback for a retried step\<close>

definition min_seq :: "int list \<Rightarrow> int option" where
  "min_seq qs = (case qs of [] \<Rightarrow> None | q # r \<Rightarrow> Some (fold min r q))"

definition event_seqs :: "string \<Rightarrow> string \<Rightarrow> (json \<Rightarrow> bool) \<Rightarrow> store \<Rightarrow> int list" where
  "event_seqs task kind p s =
     map ev_seq (filter (\<lambda>e. ev_task e = task \<and> ev_kind e = kind \<and> p (ev_data e)) (events s))"

text \<open>When this worker first acknowledged the message after the step had first started.\<close>

definition first_ack :: "string \<Rightarrow> string \<Rightarrow> string \<Rightarrow> string \<Rightarrow> store \<Rightarrow> int option" where
  "first_ack task stp wid mid s =
     (case min_seq (event_seqs task ''step.started'' (\<lambda>d. jget d ''step'' = JStr stp) s) of
        None \<Rightarrow> None
      | Some start \<Rightarrow>
          min_seq (filter (\<lambda>q. q > start)
            (event_seqs task ''message.acknowledged''
               (\<lambda>d. jget d ''worker'' = JStr wid \<and> jget d ''message'' = JStr mid) s)))"

definition retried_attempt :: "string \<Rightarrow> string \<Rightarrow> string \<Rightarrow> store \<Rightarrow> bool" where
  "retried_attempt stp wid attempt s =
     exists_row (\<lambda>a. at_step a = stp \<and> at_worker a = Some wid \<and> at_id a \<noteq> attempt \<and>
       at_state a \<in> {''failed'', ''interrupted'', ''uncertain'', ''cancelled'', ''waiting''}) (attempts s)"

definition feedback_record :: "message_row \<Rightarrow> int \<Rightarrow> json" where
  "feedback_record m ack = jobj [(''id'', JStr (ms_id m)), (''seq'', JInt (ms_seq m)),
     (''sender'', JStr (ms_sender m)), (''body'', JStr (ms_body m)), (''created'', JInt (ms_created m)),
     (''ack_seq'', JInt ack)]"

definition retry_operator_feedback :: "env \<Rightarrow> string \<Rightarrow> string \<Rightarrow> string \<Rightarrow> string \<Rightarrow> store \<Rightarrow>
    json list result" where
  "retry_operator_feedback env task stp wid attempt s =
     and_then (require (exists_row (\<lambda>a. at_id a = attempt \<and> at_step a = stp \<and> at_worker a = Some wid \<and>
         exists_row (\<lambda>r. st_id r = stp \<and> st_task r = task) (steps s) \<and>
         exists_row (\<lambda>w. wk_id w = wid \<and> wk_task w = task) (workers s)) (attempts s))
       ''retry feedback invocation ownership mismatch'') (\<lambda>_.
     let records =
       (if retried_attempt stp wid attempt s then
          take 101 [feedback_record m ack. m \<leftarrow> sort_key ms_seq
              (filter (\<lambda>m. ms_task m = task \<and> ms_actionable m \<and> ms_sender m = operator_id task \<and>
                 exists_row (\<lambda>r. rc_message r = ms_id m \<and> rc_worker r = wid \<and> rc_ack r) (receipts s)) (messages s)),
            ack \<leftarrow> (case first_ack task stp wid (ms_id m) s of None \<Rightarrow> [] | Some q \<Rightarrow> [q])]
        else [])
     in and_then (require (length records \<le> 100)
          ''retry operator feedback exceeds 100 messages; consolidate feedback before retrying'') (\<lambda>_.
        and_then (require (json_len env (JArr records) \<le> 256 * 1024)
          ''retry operator feedback exceeds 256 KiB; consolidate feedback before retrying'') (\<lambda>_.
        Ok records)))"

end
