(* ===== verification/Attempts.thy ===== *)
theory Attempts
  imports Budget Credentials Delegation Mailbox
begin

text \<open>
  The life of an attempt of a step: its launch (\<^verbatim>\<open>begin\<close> of src/src/runtime.rs), the record of its
  result (\<^verbatim>\<open>finish_ref\<close> of src/src/store.rs) and the recovery of attempts that a stopped daemon
  left behind (\<^verbatim>\<open>recover\<close>). The disk admission and the preview tables are parameters.
\<close>

section \<open>The result of an attempt\<close>

text \<open>The errors that the record of a result tells apart, with the text of the others.\<close>

datatype failure =
    RepeatedToolCall string
  | RefreshOwnerRequired string
  | Exhausted json
  | CapacityFailure json
  | OtherFailure string

type_synonym outcome = "failure + json"

fun failure_value :: "failure \<Rightarrow> json" where
  "failure_value (Exhausted v) = v"
| "failure_value (CapacityFailure v) = v"
| "failure_value (RepeatedToolCall m) = jobj [(''error'', JStr m)]"
| "failure_value (RefreshOwnerRequired m) = jobj [(''error'', JStr m)]"
| "failure_value (OtherFailure m) = jobj [(''error'', JStr m)]"

definition outcome_value :: "outcome \<Rightarrow> json" where
  "outcome_value r = (case r of Inl e \<Rightarrow> failure_value e | Inr v \<Rightarrow> v)"

definition loop_detected :: "outcome \<Rightarrow> bool" where
  "loop_detected r = (case r of Inl (RepeatedToolCall _) \<Rightarrow> True | _ \<Rightarrow> False)"

definition failure_code :: "outcome \<Rightarrow> json" where
  "failure_code r = (case r of Inl (RefreshOwnerRequired _) \<Rightarrow> JStr ''credential_refresh_required'' | _ \<Rightarrow> JNull)"

definition current_revision :: "string \<Rightarrow> store \<Rightarrow> int result" where
  "current_revision task s =
     (case map rv_revision (filter (\<lambda>r. rv_task r = task) (revisions s)) of
        [] \<Rightarrow> bail ''Invalid column type Null''
      | n # ns \<Rightarrow> Ok (fold max ns n))"

definition finished_state :: "string \<Rightarrow> bool \<Rightarrow> bool \<Rightarrow> string" where
  "finished_state current waiting success =
     (if current = ''cancelled'' then ''cancelled'' else if waiting then ''waiting''
      else if success then ''succeeded'' else ''failed'')"

definition close_attempt :: "env \<Rightarrow> string \<Rightarrow> string \<Rightarrow> json \<Rightarrow> store \<Rightarrow> store" where
  "close_attempt env attempt state v s =
     s\<lparr>attempts := update_rows (\<lambda>a. at_id a = attempt)
         (\<lambda>a. a\<lparr>at_state := state, at_finished := Some (now env), at_result := Some v,
            at_usage := or_else (jfield v ''usage'') (at_usage a)\<rparr>) (attempts s)\<rparr>"

definition set_step_result :: "string \<Rightarrow> string \<Rightarrow> json \<Rightarrow> store \<Rightarrow> store" where
  "set_step_result stp state v s =
     s\<lparr>steps := update_rows (\<lambda>r. st_id r = stp) (\<lambda>r. r\<lparr>st_state := state, st_result := Some v\<rparr>) (steps s)\<rparr>"

text \<open>\<^verbatim>\<open>UPDATE workers SET status=?,updated=?\<close>\<close>

definition touch_worker :: "env \<Rightarrow> string \<Rightarrow> string \<Rightarrow> store \<Rightarrow> store" where
  "touch_worker env worker status s =
     s\<lparr>workers := update_rows (\<lambda>w. wk_id w = worker) (\<lambda>w. w\<lparr>wk_status := status, wk_updated := now env\<rparr>) (workers s)\<rparr>"

definition rest_worker :: "env \<Rightarrow> string \<Rightarrow> bool \<Rightarrow> store \<Rightarrow> store" where
  "rest_worker env worker success s =
     touch_worker env worker
       (if success then if snd (actionable_notifications worker s) > 0 then ''notified'' else ''idle'' else ''failed'') s"

definition answered_input :: "string \<Rightarrow> store \<Rightarrow> bool" where
  "answered_input worker s =
     exists_row (\<lambda>c. qc_worker c = Some worker \<and> qc_purpose c = ''input_answered'') (question_context s)"

text \<open>An answer that arrived while the worker ran sends the step back to the queue.\<close>

definition consume_answers :: "string \<Rightarrow> string \<Rightarrow> bool \<Rightarrow> string \<Rightarrow> store \<Rightarrow> store" where
  "consume_answers stp worker success state s =
     (if \<not> answered_input worker s then s
      else (if \<not> success \<and> state \<noteq> ''cancelled'' then set_step_state (\<lambda>r. st_id r = stp) ''pending'' s else s)
        \<lparr>question_context := update_rows (\<lambda>c. qc_worker c = Some worker \<and> qc_purpose c = ''input_answered'')
           (\<lambda>c. c\<lparr>qc_purpose := ''input_consumed''\<rparr>) (question_context s)\<rparr>)"

definition finish_tx :: "env \<Rightarrow> string \<Rightarrow> string \<Rightarrow> string \<Rightarrow> string \<Rightarrow> outcome \<Rightarrow> json \<Rightarrow> bool \<Rightarrow> bool \<Rightarrow> string option \<Rightarrow>
    (store, unit) oper" where
  "finish_tx env oid stp attempt worker result v waiting success head =
     bnd (ask_state (\<lambda>s. context_of (map_option st_state (find (\<lambda>r. st_id r = stp) (steps s))) ''Query returned no rows'')) (\<lambda>current.
     let state = finished_state current waiting success in
     thn (modify (set_step_result stp state v))
    (thn (modify (close_attempt env attempt state v))
    (thn (modify (rest_worker env worker success))
    (thn (modify (consume_answers stp worker success state))
    (thn (when_op (loop_detected result \<and> state = ''failed'')
            (thn (modify (set_task_status (\<lambda>t. tk_id t = oid \<and> tk_status t = ''running'') ''blocked''))
                 (event env oid ''task.blocked'' (jobj [(''reason'', JStr ''repeated_tool_call''), (''step'', JStr stp),
                    (''attempt'', JStr attempt)]))))
    (thn (when_op success (modify (\<lambda>s. s\<lparr>claims := filter (\<lambda>c. cl_worker c \<noteq> worker) (claims s)\<rparr>)))
    (bnd (ask_state (\<lambda>s. Ok (budget_status env attempt s))) (\<lambda>timing.
     bnd (ask_state (current_revision oid)) (\<lambda>revision.
     event env oid ''step.finished''
       (jobj [(''step'', JStr stp), (''attempt'', JStr attempt), (''state'', JStr state), (''failure_code'', failure_code result),
          (''result'', v), (''timing'', timing), (''integrated_head'', jstr_opt head), (''revision'', JInt revision)]))))))))))"

definition finish_ref :: "env \<Rightarrow> string \<Rightarrow> string \<Rightarrow> string \<Rightarrow> outcome \<Rightarrow> (store, unit) oper" where
  "finish_ref env stp attempt worker result =
     bnd (ask_state (get_step stp)) (\<lambda>row.
     let oid = st_task row; v = redact env oid (outcome_value result) in
     bnd (ask_state (\<lambda>s. Ok (has_question worker s))) (\<lambda>waiting.
     atomic (finish_tx env oid stp attempt worker result v waiting (\<not> isl result \<and> \<not> waiting)
       (observed_head env oid))))"

section \<open>The launch of an attempt\<close>

definition first_record :: "'a list \<Rightarrow> 'a option" where
  "first_record xs = (case xs of [] \<Rightarrow> None | x # _ \<Rightarrow> Some x)"

definition previous_worker :: "string \<Rightarrow> store \<Rightarrow> worker_row option" where
  "previous_worker stp s = first_record (sort_key (\<lambda>w. - wk_updated w) (filter (\<lambda>w. wk_step w = Some stp) (workers s)))"

text \<open>
  The worker of a launch: the previous worker of the step with a new token, or a new worker.
  \<open>wid\<close> and \<open>token\<close> are the identifiers drawn. This part is not in the transaction of the launch.
\<close>

definition take_worker :: "env \<Rightarrow> string \<Rightarrow> string \<Rightarrow> string \<Rightarrow> string \<Rightarrow> (store, string) oper" where
  "take_worker env wid token oid stp =
     bnd (ask_state (\<lambda>s. Ok (previous_worker stp s))) (\<lambda>prev.
     case prev of
       Some w \<Rightarrow>
         thn (modify (\<lambda>s. s\<lparr>workers := update_rows (\<lambda>r. wk_id r = wk_id w)
                (\<lambda>r. r\<lparr>wk_token_hash := sha256 env token\<rparr>) (workers s)\<rparr>))
             (ret (wk_id w))
     | None \<Rightarrow> bnd (register env wid token oid (Some stp)) (\<lambda>w. ret (fst w)))"

definition mark_dispatched :: "string \<Rightarrow> store \<Rightarrow> store" where
  "mark_dispatched worker s =
     s\<lparr>notifications := update_rows (\<lambda>q. sq_worker q = worker)
         (\<lambda>q. q\<lparr>sq_seq := fold max [ms_seq m. m \<leftarrow> messages s,
            exists_row (\<lambda>r. rc_message r = ms_id m \<and> rc_worker r = worker) (receipts s)] 0\<rparr>) (notifications s)\<rparr>"

text \<open>The disk admission and the row of a preview review that an attempt belongs to.\<close>

record launch_deps =
  ld_admission :: "string \<Rightarrow> (store, bool) oper"
  ld_bind_review :: "string \<Rightarrow> string \<Rightarrow> (store, unit) oper"

definition take_step :: "string \<Rightarrow> (store, unit) oper" where
  "take_step stp =
     thn (require_state (\<lambda>s. exists_row (\<lambda>r. st_id r = stp \<and> st_state r = ''pending'') (steps s)) ''step already dispatched'')
         (modify (set_step_state (\<lambda>r. st_id r = stp \<and> st_state r = ''pending'') ''running''))"

definition begin_tx :: "env \<Rightarrow> launch_deps \<Rightarrow> string \<Rightarrow> string \<Rightarrow> string \<Rightarrow> string \<Rightarrow> binding option \<Rightarrow> (store, unit) oper" where
  "begin_tx env D attempt worker oid stp b =
     thn (bnd (eligible env oid) (\<lambda>ok. guard ok ''project admission changed before launch''))
    (thn (bnd (ask_state (host_limit env)) (\<lambda>cap.
            require_state (\<lambda>s. host_active s < cap) ''host capacity changed before launch''))
    (thn (case b of None \<Rightarrow> ret ()
          | Some x \<Rightarrow> bnd (ask_state (\<lambda>s. Ok (is_remote oid s))) (\<lambda>remote. if remote then ret () else reserve env stp x))
    (thn (take_step stp)
    (thn (insert_unique at_id attempts attempts_update
            \<lparr>at_id = attempt, at_step = stp, at_worker = Some worker, at_state = ''running'', at_started = now env,
             at_finished = None, at_pid = None, at_result = None, at_usage = None\<rparr>)
    (thn (modify (touch_worker env worker ''working''))
    (thn (modify (mark_dispatched worker))
    (thn (pin oid attempt)
    (thn (record_dispatch env oid attempt b)
    (thn (ld_bind_review D stp attempt)
         (event env oid ''step.started'' (jobj [(''step'', JStr stp), (''worker'', JStr worker), (''attempt'', JStr attempt)])))))))))))"

definition begin_attempt :: "env \<Rightarrow> launch_deps \<Rightarrow> string \<Rightarrow> string \<Rightarrow> string \<Rightarrow> string \<Rightarrow> string \<Rightarrow> binding option \<Rightarrow>
    (store, string) oper" where
  "begin_attempt env D attempt wid token oid stp b =
     thn (bnd (ld_admission D oid) (\<lambda>ok. guard ok ''disk admission unavailable''))
    (bnd (take_worker env wid token oid stp) (\<lambda>worker.
     thn (atomic (begin_tx env D attempt worker oid stp b)) (ret worker)))"

section \<open>Recovery\<close>

definition interrupted :: "store \<Rightarrow> (attempt_row \<times> string) list" where
  "interrupted s = [(a, st_task t). a \<leftarrow> attempts s, t \<leftarrow> steps s, st_id t = at_step a \<and> at_state a = ''running'']"

definition interrupt :: "env \<Rightarrow> attempt_row \<times> string \<Rightarrow> (store, unit) oper" where
  "interrupt env cur =
     thn (modify (\<lambda>s. s\<lparr>attempts := update_rows (\<lambda>a. at_id a = at_id (fst cur)) (\<lambda>a. a\<lparr>at_state := ''uncertain''\<rparr>) (attempts s)\<rparr>))
    (thn (modify (set_step_state (\<lambda>r. st_id r = at_step (fst cur) \<and> st_state r \<noteq> ''cancelled'') ''uncertain''))
    (thn (modify (set_task_status (\<lambda>t. tk_id t = snd cur \<and> tk_status t \<noteq> ''cancelled'') ''blocked''))
    (thn (modify (set_worker_status (\<lambda>w. Some (wk_id w) = at_worker (fst cur)) ''unresponsive''))
         (event env (snd cur) ''attempt.interrupted'' (jobj [(''id'', JStr (at_id (fst cur))),
            (''worker'', jstr_opt (at_worker (fst cur))), (''step'', JStr (at_step (fst cur))), (''task'', JStr (snd cur))])))))"

definition recover :: "env \<Rightarrow> (store, nat) oper" where
  "recover env =
     bnd (ask_state (\<lambda>s. Ok (interrupted s))) (\<lambda>rows.
     thn (atomic (each_op (interrupt env) rows)) (ret (length rows)))"

end
