(* ===== verification/Revisions.thy ===== *)
theory Revisions
  imports Attempts
begin

text \<open>
  Operations that change a workflow while it runs (src/src/protocol.rs): additional steps of the
  operator and of a planner, cancellation, and the reconciliation of an interrupted worker; and the
  resumption of failed work (src/src/protocol/resume.rs), and the review that the pass over previews
  appends (src/src/preview/review.rs). The skill packet and the
  federation with a child's remote runtime are parameters.
\<close>

section \<open>Additional steps\<close>

text \<open>
  The check of the pinned skill packet and the revision of a child that runs on another runtime,
  which gives the answer of that runtime, or none for a local child.
\<close>

record revision_deps =
  rd_check_skills :: "string \<Rightarrow> step list \<Rightarrow> store \<Rightarrow> unit result"
  rd_revise_child :: "string \<Rightarrow> step list \<Rightarrow> (store, json option) oper"

definition next_revision :: "string \<Rightarrow> store \<Rightarrow> int" where
  "next_revision oid s = fold max (map rv_revision (filter (\<lambda>r. rv_task r = oid) (revisions s))) 0 + 1"

definition set_plan :: "string \<Rightarrow> plan \<Rightarrow> bool \<Rightarrow> store \<Rightarrow> store" where
  "set_plan oid plan reopen s =
     s\<lparr>tasks := update_rows (\<lambda>t. tk_id t = oid)
         (\<lambda>t. t\<lparr>tk_plan := plan, tk_status := (if reopen \<and> tk_status t = ''succeeded'' then ''running'' else tk_status t)\<rparr>)
         (tasks s)\<rparr>"

definition json_strs :: "string list \<Rightarrow> json" where
  "json_strs xs = JArr (map JStr xs)"

definition save_revision :: "string \<Rightarrow> int \<Rightarrow> plan \<Rightarrow> (store, unit) oper" where
  "save_revision oid n plan =
     insert_unique (\<lambda>r. (rv_task r, rv_revision r)) revisions revisions_update
       \<lparr>rv_task = oid, rv_revision = n, rv_plan = plan\<rparr>"

definition add_steps_tx :: "env \<Rightarrow> fresh_ids \<Rightarrow> string \<Rightarrow> step list \<Rightarrow> string list \<Rightarrow> plan \<Rightarrow> (store, json) oper" where
  "add_steps_tx env F oid added warnings plan =
     thn (invalidate_acceptance oid)
    (thn (insert_steps F 0 oid added)
    (bnd (ask_state (\<lambda>s. Ok (next_revision oid s))) (\<lambda>rev.
     thn (save_revision oid rev plan)
    (thn (modify (set_plan oid plan True))
    (thn (event env oid ''workflow.revised'' (jobj [(''revision'', JInt rev), (''warnings'', json_strs warnings),
            (''integrated_head'', jstr_opt (observed_head env oid))]))
         (ret (jobj [(''revision'', JInt rev), (''warnings'', json_strs warnings)])))))))"

definition add_steps :: "env \<Rightarrow> revision_deps \<Rightarrow> fresh_ids \<Rightarrow> string \<Rightarrow> step list \<Rightarrow> (store, json) oper" where
  "add_steps env D F oid added =
     (let warnings = step_warnings added in
      bnd (rd_revise_child D oid added) (\<lambda>remote.
      case remote of Some result \<Rightarrow> ret (jset ''warnings'' (json_strs warnings) result)
      | None \<Rightarrow>
          bnd (ask_state (get_task oid)) (\<lambda>task.
          let plan = (tk_plan task)\<lparr>p_warnings := p_warnings (tk_plan task) @ warnings,
                p_steps := p_steps (tk_plan task) @ added\<rparr> in
          thn (ask_state (\<lambda>_. validate (p_steps plan)))
         (thn (ask_state (rd_check_skills D oid (p_steps plan)))
              (atomic (add_steps_tx env F oid added warnings plan))))))"

section \<open>Proposals of a planner\<close>

definition check_proposal :: "settings \<Rightarrow> nat \<times> step \<Rightarrow> unit result" where
  "check_proposal sg proposal =
     (let stp = snd proposal; place = ''steps['' @ show_nat (fst proposal) @ '']'' in
      and_then (require (s_template stp = None)
        (place @ ''.template: planner proposals must be expanded coding or verification steps; omit template'')) (\<lambda>_.
      and_then (require (s_kind stp \<noteq> ''delivery'')
        (place @ ''.kind: planner proposals cannot request delivery; use agent, command, simulated, or environment'')) (\<lambda>_.
      and_then (require (bt_has (sg_executors sg) (s_role stp))
        (place @ ''.role: unknown executor role '' @ s_role stp @ ''; choose one of: '' @
           join_with '', '' (bt_keys (sg_executors sg)))) (\<lambda>_.
      require (sg_allow_commands sg \<or> s_kind stp \<noteq> ''command'') (place @ ''.kind: commands are disabled'')))))"

definition after_planner :: "string \<Rightarrow> step \<Rightarrow> step" where
  "after_planner planner stp = (if planner \<in> set (s_needs stp) then stp else stp\<lparr>s_needs := s_needs stp @ [planner]\<rparr>)"

text \<open>A pending step that waits for the planner also waits for the proposed steps.\<close>

definition waits_for :: "string \<Rightarrow> step_row list \<Rightarrow> step \<Rightarrow> bool" where
  "waits_for planner existing stp =
     (planner \<in> set (s_needs stp) \<and> exists_row (\<lambda>r. st_name r = s_id stp \<and> st_state r = ''pending'') existing)"

definition extend_waiting :: "string \<Rightarrow> step_row list \<Rightarrow> string list \<Rightarrow> step \<Rightarrow> step" where
  "extend_waiting planner existing ids stp =
     (if waits_for planner existing stp then stp\<lparr>s_needs := s_needs stp @ ids\<rparr> else stp)"

definition respec :: "string \<Rightarrow> step \<Rightarrow> store \<Rightarrow> store" where
  "respec oid stp s =
     s\<lparr>steps := update_rows (\<lambda>r. st_task r = oid \<and> st_name r = s_id stp \<and> st_state r = ''pending'')
         (\<lambda>r. r\<lparr>st_spec := stp\<rparr>) (steps s)\<rparr>"

definition propose_tx :: "env \<Rightarrow> fresh_ids \<Rightarrow> string \<Rightarrow> string \<Rightarrow> step list \<Rightarrow> step list \<Rightarrow> string list \<Rightarrow> plan \<Rightarrow>
    (store, json) oper" where
  "propose_tx env F oid wid added updated warnings plan =
     thn (invalidate_acceptance oid)
    (thn (insert_steps F 0 oid added)
    (thn (each_op (\<lambda>p. modify (respec oid p)) updated)
    (bnd (ask_state (\<lambda>s. and_then (current_revision oid s) (\<lambda>n. Ok (n + 1)))) (\<lambda>rev.
     thn (save_revision oid rev plan)
    (thn (modify (set_plan oid plan False))
    (thn (event env oid ''workflow.proposed'' (jobj [(''worker'', JStr wid), (''revision'', JInt rev),
            (''steps'', json_strs (map s_id added)), (''warnings'', json_strs warnings),
            (''integrated_head'', jstr_opt (observed_head env oid))]))
    (thn (progress env wid ''proposal_accepted'' (show_int rev))
         (ret (jobj [(''revision'', JInt rev), (''steps'', json_strs (map s_id added)), (''warnings'', json_strs warnings)])))))))))"

text \<open>The planner of the call: the worker's step, which must run as a planner.\<close>

definition active_planner :: "string \<Rightarrow> store \<Rightarrow> step result" where
  "active_planner wid s =
     and_then (get_worker wid s) (\<lambda>w.
     and_then (context_of (wk_step w) ''planner requires an assigned step'') (\<lambda>stp.
     and_then (context_of (find (\<lambda>r. st_id r = stp) (steps s)) ''planner step'') (\<lambda>row.
     and_then (require (s_role (st_spec row) = ''planner'' \<and> st_state row = ''running'')
        ''only an actively assigned planner may propose workflow changes'') (\<lambda>_. Ok (st_spec row)))))"

definition propose_steps :: "env \<Rightarrow> revision_deps \<Rightarrow> fresh_ids \<Rightarrow> string \<Rightarrow> string \<Rightarrow> step list \<Rightarrow> (store, json) oper" where
  "propose_steps env D F oid wid proposed =
     bnd (ask_state (active_planner wid)) (\<lambda>planner.
     bnd (ask_state (get_task oid)) (\<lambda>task.
     let warnings = step_warnings proposed in
     thn (guard (proposed \<noteq> [] \<and> length proposed \<le> 32) ''propose between 1 and 32 steps'')
    (thn (ask_state (\<lambda>_. each_result (check_proposal (tk_settings task)) (enumerate 0 proposed)))
    (bnd (ask_state (\<lambda>s. Ok (steps_of oid s))) (\<lambda>existing.
     let added = map (after_planner (s_id planner)) proposed;
         plan0 = tk_plan task;
         updated = map (extend_waiting (s_id planner) existing (map s_id added))
           (filter (waits_for (s_id planner) existing) (p_steps plan0));
         plan = plan0\<lparr>p_warnings := p_warnings plan0 @ warnings,
           p_steps := map (extend_waiting (s_id planner) existing (map s_id added)) (p_steps plan0) @ added\<rparr> in
     thn (ask_state (\<lambda>_. validate (p_steps plan)))
    (thn (ask_state (rd_check_skills D oid (p_steps plan)))
         (atomic (propose_tx env F oid wid added updated warnings plan))))))))"

section \<open>Cancellation\<close>

text \<open>
  The recursive query over the tree: the task and everything below it, level by level. A chain of
  children is never longer than the table.
\<close>

fun subtree_levels :: "nat \<Rightarrow> string list \<Rightarrow> store \<Rightarrow> string list" where
  "subtree_levels 0 ids s = ids"
| "subtree_levels (Suc n) ids s =
     ids @ subtree_levels n [tt_task t. i \<leftarrow> ids, t \<leftarrow> task_tree s, tt_parent t = Some i] s"

definition subtree :: "string \<Rightarrow> store \<Rightarrow> string list" where
  "subtree oid s = subtree_levels (length (task_tree s)) [oid] s"

definition cancel_tasks :: "string \<Rightarrow> store \<Rightarrow> store" where
  "cancel_tasks oid s = set_task_status (\<lambda>t. tk_id t \<in> set (subtree oid s)) ''cancelled'' s"

definition cancel_steps :: "store \<Rightarrow> store" where
  "cancel_steps s =
     set_step_state (\<lambda>r. exists_row (\<lambda>t. tk_id t = st_task r \<and> tk_status t = ''cancelled'') (tasks s) \<and>
       st_state r \<in> {''pending'', ''running'', ''waiting''}) ''cancelled'' s"

definition cancel :: "env \<Rightarrow> string \<Rightarrow> (store, json) oper" where
  "cancel env oid =
     thn (atomic (
            thn (modify (cancel_tasks oid))
           (thn (modify cancel_steps)
                (event env oid ''task.cancelled'' (jobj [])))))
         (ret (jobj [(''cancelled'', JBool True)]))"

section \<open>Workers and channels\<close>

definition join_channel :: "string \<Rightarrow> string \<Rightarrow> string \<Rightarrow> (store, json) oper" where
  "join_channel oid wid channel =
     thn (guard (channel \<noteq> [] \<and> channel \<noteq> ''task'') ''invalid channel name'')
    (thn (modify (\<lambda>s. s\<lparr>channels := insert_ignore (\<lambda>c. (ch_task c, ch_name c, ch_worker c))
            \<lparr>ch_task = oid, ch_name = channel, ch_worker = wid\<rparr> (channels s)\<rparr>))
         (ret (jobj [(''joined'', JBool True)])))"

definition change_worker_status :: "env \<Rightarrow> string \<Rightarrow> string \<Rightarrow> string \<Rightarrow> json \<Rightarrow> (store, json) oper" where
  "change_worker_status env oid wid status args =
     thn (guard (status \<in> {''idle'', ''working'', ''blocked'', ''stopped''}) ''invalid worker status'')
    (bnd (ask_state (get_worker wid)) (\<lambda>w.
     thn (guard (wk_status w \<noteq> operator_status) ''the operator identity has no worker status'')
    (thn (modify (touch_worker env wid status))
    (thn (event env oid ''worker.status'' args)
         (ret (jobj [(''status'', JStr status)]))))))"

text \<open>\<open>alive\<close> tells whether a process still exists.\<close>

definition uncertain_attempts :: "string \<Rightarrow> store \<Rightarrow> attempt_row list" where
  "uncertain_attempts wid s = filter (\<lambda>a. at_worker a = Some wid \<and> at_state a = ''uncertain'') (attempts s)"

definition close_uncertain :: "env \<Rightarrow> string \<Rightarrow> store \<Rightarrow> store" where
  "close_uncertain env wid s =
     s\<lparr>attempts := update_rows (\<lambda>a. at_worker a = Some wid \<and> at_state a = ''uncertain'')
         (\<lambda>a. a\<lparr>at_state := ''interrupted'', at_finished := Some (now env)\<rparr>) (attempts s)\<rparr>"

definition give_up_step :: "string \<Rightarrow> (store, unit) oper" where
  "give_up_step stp =
     thn (release_step stp)
         (modify (\<lambda>s. s\<lparr>remote_account_leases := update_rows (\<lambda>l. le_step l = stp \<and> le_state l \<noteq> ''released'')
            (\<lambda>l. l\<lparr>le_state := ''release_pending''\<rparr>) (remote_account_leases s)\<rparr>))"

definition reconcile_worker :: "env \<Rightarrow> (int \<Rightarrow> bool) \<Rightarrow> string \<Rightarrow> string \<Rightarrow> (store, json) oper" where
  "reconcile_worker env alive oid wid =
     bnd (ask_state (get_worker wid)) (\<lambda>w.
     thn (guard (wk_status w \<noteq> operator_status) ''the operator identity has no worker status'')
    (bnd (ask_state (\<lambda>s. Ok (uncertain_attempts wid s))) (\<lambda>rows.
     thn (guard (\<not> list_ex (\<lambda>a. case at_pid a of None \<Rightarrow> False | Some p \<Rightarrow> alive p) rows)
            ''process still exists; stop it and inspect its effects before reconciliation'')
    (thn (atomic (
            thn (require_state (\<lambda>s. \<not> exists_row (\<lambda>a. at_worker a = Some wid \<and> at_state a = ''running'') (attempts s))
                   ''worker has a running attempt; cannot reconcile it'')
           (thn (modify (close_uncertain env wid))
           (thn (each_op (\<lambda>a. give_up_step (at_step a)) rows)
           (thn (modify (set_worker_status (\<lambda>r. wk_id r = wid) ''stopped''))
                (event env oid ''worker.reconciled'' (jobj [(''worker'', JStr wid)])))))))
         (ret (jobj [(''reconciled'', JBool True), (''claims_preserved'', JBool True)]))))))"

section \<open>Administrative questions\<close>

definition says_yes :: "string \<Rightarrow> bool" where
  "says_yes answer = (map ascii_lower answer = ''yes'')"

definition requeue_asker :: "string \<Rightarrow> store \<Rightarrow> store" where
  "requeue_asker qid s =
     set_step_state (\<lambda>r. st_state r = ''failed'' \<and>
       exists_row (\<lambda>w. wk_step w = Some (st_id r) \<and>
         exists_row (\<lambda>c. qc_question c = qid \<and> qc_worker c = Some (wk_id w)) (question_context s)) (workers s)) ''pending'' s"

definition close_question :: "string \<Rightarrow> string \<Rightarrow> string \<Rightarrow> store \<Rightarrow> store" where
  "close_question oid qid answer s =
     (let input = (case find (\<lambda>c. qc_question c = qid) (question_context s) of None \<Rightarrow> False | Some c \<Rightarrow> qc_purpose c = ''input'');
          pending = exists_row (\<lambda>q. qu_task q = oid \<and> qu_answer q = None) (questions s) in
      if \<not> pending \<and> (input \<or> says_yes answer) then
        let t = set_status_of oid ''waiting'' ''running'' s in
        if input then requeue_asker qid (t\<lparr>question_context :=
            update_rows (\<lambda>c. qc_question c = qid) (\<lambda>c. c\<lparr>qc_purpose := ''input_answered''\<rparr>) (question_context t)\<rparr>)
        else t
      else if \<not> input \<and> \<not> says_yes answer then set_status_of oid ''waiting'' ''paused'' s else s)"

definition answer_question :: "env \<Rightarrow> string \<Rightarrow> bool \<Rightarrow> json \<Rightarrow> (store, json) oper" where
  "answer_question env oid by_worker args =
     bnd (ask_state (\<lambda>s. Ok (exists_row (\<lambda>r. Some (qr_question r) = as_str (jget args ''question'')) (question_routes s)))) (\<lambda>routed.
     if routed then question_action env oid args False
     else
     thn (guard (\<not> by_worker) ''workers cannot answer administrative questions'')
    (bnd (ask_state (\<lambda>_. context_of (as_str (jget args ''answer'')) ''missing string answer'')) (\<lambda>answer.
     bnd (ask_state (\<lambda>_. context_of (as_str (jget args ''question'')) ''missing string question'')) (\<lambda>qid.
     atomic (
       thn (require_state (\<lambda>s. exists_row (\<lambda>q. qu_id q = qid \<and> qu_task q = oid \<and> qu_answer q = None) (questions s))
              ''unknown or answered question'')
      (thn (modify (\<lambda>s. s\<lparr>questions := update_rows (\<lambda>q. qu_id q = qid \<and> qu_task q = oid \<and> qu_answer q = None)
              (\<lambda>q. q\<lparr>qu_answer := Some answer\<rparr>) (questions s)\<rparr>))
      (thn (modify (close_question oid qid answer))
      (thn (event env oid ''question.answered'' args)
           (ret (jobj [(''answered'', JBool True)]))))))))))"

section \<open>Resuming\<close>

text \<open>
  The names to retry: the failed, cancelled and uncertain steps, and the skipped steps that need
  one of them, directly or through other skipped steps.
\<close>

definition skipped_next :: "step_row list \<Rightarrow> string list \<Rightarrow> string list" where
  "skipped_next rows retry =
     [s_id (st_spec r). r \<leftarrow> rows, st_state r = ''skipped'' \<and> list_ex (\<lambda>n. n \<in> set retry) (s_needs (st_spec r))]"

function retry_names :: "step_row list \<Rightarrow> string list \<Rightarrow> string list" where
  "retry_names rows retry =
     (let more = filter (\<lambda>n. n \<notin> set retry) (skipped_next rows retry)
      in if more = [] then retry else retry_names rows (retry @ more))"
  by pat_completeness auto

termination retry_names
proof (relation "measure (\<lambda>(rows, retry). card (set (map (\<lambda>r. s_id (st_spec r)) rows) - set retry))", goal_cases)
  case 1
  then show ?case by simp
next
  case prems: (2 rows retry more)
  then obtain n where n: "n \<in> set more" by (metis list.set_sel(1))
  then have "n \<in> set (map (\<lambda>r. s_id (st_spec r)) rows) - set retry" "n \<in> set (retry @ more)"
    using prems(1) by (auto simp: skipped_next_def split: if_splits)
  then have "set (map (\<lambda>r. s_id (st_spec r)) rows) - set (retry @ more) \<subset> set (map (\<lambda>r. s_id (st_spec r)) rows) - set retry"
    by auto
  then show ?case by (simp add: psubset_card_mono)
qed

declare retry_names.simps [simp del]

definition to_retry :: "step_row \<Rightarrow> bool" where
  "to_retry r = (st_state r \<in> {''failed'', ''cancelled'', ''uncertain''})"

definition retry_steps :: "string \<Rightarrow> store \<Rightarrow> step_row list" where
  "retry_steps task s =
     (let rows = steps_of task s; names = retry_names rows (map st_name (filter to_retry rows))
      in filter (\<lambda>r. st_name r \<in> set names) rows)"

definition reset_step :: "string \<Rightarrow> step_row \<Rightarrow> (store, unit) oper" where
  "reset_step task r =
     (let p = (\<lambda>q. st_task q = task \<and> st_id q = st_id r \<and> st_state q = st_state r) in
      bnd (ask_state (\<lambda>s. Ok (count_rows p (steps s)))) (\<lambda>changed.
      thn (modify (set_step_state p ''pending''))
          (guard (changed = 1) ''step changed during resume; inspect the Run before retrying'')))"

text \<open>\<^verbatim>\<open>char::is_control\<close> on the ASCII characters.\<close>

definition control_char :: "char \<Rightarrow> bool" where
  "control_char c = (let n = of_char c :: nat in n < 32 \<or> n = 127)"

definition check_request :: "json \<Rightarrow> string option result" where
  "check_request args =
     (case jfield args ''request_id'' of
        None \<Rightarrow> Ok None
      | Some v \<Rightarrow> and_then (context_of (as_str v) ''request_id must be a string'') (\<lambda>i.
          and_then (require (\<not> blank i \<and> length i \<le> 256 \<and> list_all (\<lambda>c. \<not> control_char c) i)
            ''request_id must contain 1..256 bytes without control characters'') (\<lambda>_. Ok (Some i))))"

definition resumable :: "string \<Rightarrow> store \<Rightarrow> unit result" where
  "resumable task s =
     and_then (require (\<not> exists_row (\<lambda>l. rl_task l = task) (remote_links s))
       ''this task runs on a remote runtime and cannot resume locally; submit a new task with --on targeting that runtime'') (\<lambda>_.
     and_then (get_task task s) (\<lambda>row.
     and_then (require (\<not> (tk_status row = ''blocked'' \<and>
          list_all (\<lambda>r. st_state r = ''succeeded'' \<or> st_state r = ''skipped'') (steps_of task s)))
       ''completed result needs revalidation; add a verification step before resuming'') (\<lambda>_.
     and_then (require (\<not> exists_row (\<lambda>a. live_state (at_state a) \<and>
          exists_row (\<lambda>r. st_id r = at_step a \<and> st_task r = task) (steps s)) (attempts s))
       ''reconcile interrupted workers or wait for running attempts before resuming'') (\<lambda>_.
     require (\<not> exists_row (\<lambda>q. qu_task q = task \<and> qu_answer q = None) (questions s))
       ''answer pending questions before resuming''))))"

definition resume_live :: "env \<Rightarrow> string \<Rightarrow> string option \<Rightarrow> (store, json) oper" where
  "resume_live env task request =
     thn (ask_state (resumable task))
    (bnd (ask_state (\<lambda>s. Ok (retry_steps task s))) (\<lambda>retry.
     thn (each_op (reset_step task) retry)
    (thn (modify (set_task_status (\<lambda>t. tk_id t = task) ''running''))
    (thn (event env task ''task.resumed'' (jobj [(''steps'', json_strs (map st_name retry)), (''request_id'', jstr_opt request)]))
         (ret (jobj [(''resumed'', JBool True)]))))))"

definition resume_key :: "env \<Rightarrow> string \<Rightarrow> string" where
  "resume_key env i = ''resume-request:'' @ sha256 env i"

definition op_key :: "external_op_row \<Rightarrow> string \<times> string" where
  "op_key e = (eo_task e, eo_name e)"

definition resume :: "env \<Rightarrow> string \<Rightarrow> json \<Rightarrow> (store, json) oper" where
  "resume env task args =
     bnd (ask_state (\<lambda>_. check_request args)) (\<lambda>request.
     let hash = sha256 env (json_text env args) in
     atomic (
       bnd (ask_state (\<lambda>s. Ok (case request of None \<Rightarrow> None
          | Some i \<Rightarrow> find (\<lambda>e. op_key e = (task, resume_key env i)) (external_ops s)))) (\<lambda>receipt.
       case receipt of
         Some e \<Rightarrow>
           thn (guard (jget (eo_data e) ''request_hash'' = JStr hash) ''resume request_id reused with different request'')
               (ret (jget (eo_data e) ''response''))
       | None \<Rightarrow>
           bnd (resume_live env task request) (\<lambda>response.
           case request of None \<Rightarrow> ret response
           | Some i \<Rightarrow>
               thn (insert_unique op_key external_ops external_ops_update
                      \<lparr>eo_task = task, eo_name = resume_key env i, eo_state = ''succeeded'',
                       eo_data = jobj [(''request_hash'', JStr hash), (''response'', response)]\<rparr>)
                   (ret response)))))"

section \<open>The review before a preview\<close>

text \<open>
  \<^verbatim>\<open>schedule_review\<close> of src/src/preview/review.rs: the pass over finished tasks appends a copy
  of the configured review step. \<open>like\<close> is the pattern match of the database, \<open>salt\<close> the first
  eight characters of a new identifier.
\<close>

definition schedule_review ::
  "env \<Rightarrow> revision_deps \<Rightarrow> (string \<Rightarrow> string \<Rightarrow> bool) \<Rightarrow> string \<Rightarrow> fresh_ids \<Rightarrow> string \<Rightarrow> string \<Rightarrow> (store, unit) oper" where
  "schedule_review env D like salt F oid review_step =
     bnd (ask_state (\<lambda>s. context_of (find (\<lambda>r. st_task r = oid \<and> st_name r = review_step) (steps s))
            ''preview pipeline requires its configured review agent step'')) (\<lambda>base.
     thn (guard (s_kind (st_spec base) = ''agent'') ''preview review must use agent executor'')
    (bnd (ask_state (\<lambda>s. Ok (count_rows (\<lambda>r. st_task r = oid \<and> like (review_step @ ''.preview-%'') (st_name r)) (steps s)))) (\<lambda>n.
     thn (guard (n < 12) ''preview review retry limit reached; operator reconciliation required'')
    (bnd (ask_state (\<lambda>s. Ok (map st_name (filter (\<lambda>r. st_state r = ''succeeded'') (steps_of oid s))))) (\<lambda>needs.
     let spec = (st_spec base)\<lparr>s_id := review_step @ ''.preview-'' @ salt, s_needs := needs, s_when := None,
           s_attempts := 1, s_instructions :=
             ''Review the exact integrated Run tree after main integration and any feedback revision. '' @
             ''Do not accept stale prior evidence. Verify the requested behavior and report accepted:true '' @
             ''only when current work meets all acceptance criteria. '' @ s_instructions (st_spec base)\<rparr> in
     thn (add_steps env D F oid [spec])
         (event env oid ''run.preview_review_queued'' (jobj [(''step'', JStr (s_id spec))])))))))"

end
