(* ===== verification/Scheduler.thy ===== *)
theory Scheduler
  imports Revisions
begin

text \<open>
  The scheduler of the daemon (src/src/runtime.rs): which steps of a task are ready, when a task
  retries, finishes and tells its caller, which idle workers get follow-up work, and one round of
  the scheduler over its running attempts and the tasks in turn. An executing attempt is a handle
  that becomes done. Maintenance bindings, placement on other runtimes, the selection of an
  execution and previews are parameters.
\<close>

section \<open>Ready steps\<close>

definition terminal_step :: "string \<Rightarrow> bool" where
  "terminal_step st = (st \<in> {''succeeded'', ''failed'', ''skipped'', ''cancelled''})"

definition step_states :: "step_row list \<Rightarrow> string \<Rightarrow> string option" where
  "step_states rows = map_of (rev (map (\<lambda>r. (st_name r, st_state r)) rows))"

datatype verdict = Wait | Skip | Run

definition judge :: "(string \<Rightarrow> string option) \<Rightarrow> step \<Rightarrow> verdict" where
  "judge states spec =
     (if \<not> list_all (\<lambda>n. case states n of None \<Rightarrow> False | Some st \<Rightarrow> terminal_step st) (s_needs spec) then Wait
      else if (case s_when spec of None \<Rightarrow> False | Some c \<Rightarrow> states (c_step c) \<noteq> Some (c_status c)) then Skip
      else if list_ex (\<lambda>n. states n \<noteq> Some ''succeeded'' \<and>
                (case s_when spec of None \<Rightarrow> True | Some c \<Rightarrow> c_step c \<noteq> n)) (s_needs spec) then Skip
      else Run)"

fun ready_loop :: "(string \<Rightarrow> string option) \<Rightarrow> step_row list \<Rightarrow> (store, step_row list) oper" where
  "ready_loop states [] = ret []"
| "ready_loop states (r # rs) =
     (if st_state r \<noteq> ''pending'' then ready_loop states rs
      else case judge states (st_spec r) of
        Wait \<Rightarrow> ready_loop states rs
      | Skip \<Rightarrow> thn (modify (set_step_state (\<lambda>q. st_id q = st_id r) ''skipped'')) (ready_loop states rs)
      | Run \<Rightarrow> bnd (ready_loop states rs) (\<lambda>xs. ret (r # xs)))"

text \<open>What surrounds the scheduler: \<open>hold\<close> is the reason that a maintenance binding no longer holds.\<close>

definition ready :: "env \<Rightarrow> (string \<Rightarrow> store \<Rightarrow> string option) \<Rightarrow> string \<Rightarrow> (store, step_row list) oper" where
  "ready env hold oid =
     bnd (ask_state (\<lambda>s. Ok (hold oid s))) (\<lambda>held.
     case held of
       Some reason \<Rightarrow>
         bnd (ask_state (\<lambda>s. Ok (exists_row (\<lambda>t. tk_id t = oid \<and> tk_status t = ''running'') (tasks s)))) (\<lambda>changed.
         thn (modify (set_status_of oid ''running'' ''blocked''))
        (thn (when_op changed (event env oid ''maintenance.held'' (jobj [(''reason'', JStr reason)])))
             (ret [])))
     | None \<Rightarrow>
         bnd (ask_state (\<lambda>s. Ok (exists_row (\<lambda>l. rl_task l = oid) (remote_links s)))) (\<lambda>remote.
         if remote then ret []
         else bnd (ask_state (\<lambda>s. Ok (steps_of oid s))) (\<lambda>rows. ready_loop (step_states rows) rows)))"

section \<open>Settling a task\<close>

text \<open>The hops along the fallbacks of a role, at most \<open>n\<close> and none to a role seen before.\<close>

fun hops_from :: "(string, string) btree \<Rightarrow> nat \<Rightarrow> string list \<Rightarrow> string \<Rightarrow> nat" where
  "hops_from m 0 seen current = 0"
| "hops_from m (Suc n) seen current =
     (case map_of m current of None \<Rightarrow> 0
      | Some nxt \<Rightarrow> if nxt \<in> set seen then 0 else Suc (hops_from m n (nxt # seen) nxt))"

definition fallback_hops :: "settings \<Rightarrow> string \<Rightarrow> nat" where
  "fallback_hops sg role = hops_from (sg_fallbacks sg) 8 [] role"

definition capacity_failure :: "attempt_row \<Rightarrow> bool" where
  "capacity_failure a =
     (at_state a = ''failed'' \<and>
      (case at_result a of None \<Rightarrow> False
       | Some v \<Rightarrow> jget v ''capacity'' \<in> {JBool True, JInt 1, JFloat 1}))"

text \<open>The attempts that count against the limit of a step.\<close>

definition counted_attempts :: "settings \<Rightarrow> step_row \<Rightarrow> store \<Rightarrow> int" where
  "counted_attempts sg r s =
     int (count_rows (\<lambda>a. at_step a = st_id r) (attempts s)) -
     min (int (count_rows (\<lambda>a. at_step a = st_id r \<and> capacity_failure a) (attempts s)))
         (int (fallback_hops sg (s_role (st_spec r))))"

fun retry_failed :: "env \<Rightarrow> string \<Rightarrow> settings \<Rightarrow> step_row list \<Rightarrow> (store, bool) oper" where
  "retry_failed env oid sg [] = ret False"
| "retry_failed env oid sg (r # rs) =
     bnd (ask_state (\<lambda>s. Ok (counted_attempts sg r s))) (\<lambda>n.
     if n < int (s_attempts (st_spec r)) then
       thn (modify (set_step_state (\<lambda>q. st_id q = st_id r) ''pending''))
      (thn (event env oid ''step.retry'' (jobj [(''step'', JStr (st_id r)), (''attempts'', JInt n)]))
      (bnd (retry_failed env oid sg rs) (\<lambda>_. ret True)))
     else retry_failed env oid sg rs)"

text \<open>A failed step is recovered by a succeeded step that runs when it has failed.\<close>

definition recovered :: "step_row list \<Rightarrow> step_row \<Rightarrow> bool" where
  "recovered rows t =
     list_ex (\<lambda>r. st_state r = ''succeeded'' \<and>
       (case s_when (st_spec r) of None \<Rightarrow> False
        | Some c \<Rightarrow> c_step c = st_name t \<and> c_status c = ''failed'')) rows"

definition run_failed :: "step_row list \<Rightarrow> bool" where
  "run_failed rows = list_ex (\<lambda>t. st_state t = ''failed'' \<and> \<not> recovered rows t) rows"

definition plan_output :: "step_row list \<Rightarrow> string \<Rightarrow> json option" where
  "plan_output rows reference =
     (case rsplit_once CHR ''.'' reference of None \<Rightarrow> None
      | Some (stp, field) \<Rightarrow>
          map_option (\<lambda>t. jget (unwrap_or (st_result t) JNull) field)
            (find (\<lambda>t. st_name t = stp \<and> st_state t = ''succeeded'') rows))"

definition plan_outputs :: "step_row list \<Rightarrow> (string, string) btree \<Rightarrow> json" where
  "plan_outputs rows outs =
     jobj (List.map_filter (\<lambda>(name, reference). map_option (Pair name) (plan_output rows reference)) outs)"

definition finish_task :: "env \<Rightarrow> string \<Rightarrow> string \<Rightarrow> (store, unit) oper" where
  "finish_task env oid status =
     bnd (ask_state (\<lambda>s. Ok (exists_row (\<lambda>t. tk_id t = oid \<and> tk_status t = ''running'') (tasks s)))) (\<lambda>changed.
     thn (modify (set_status_of oid ''running'' status))
         (when_op changed
           (bnd (ask_state (current_revision oid)) (\<lambda>revision.
              event env oid ''task.finished'' (jobj [(''status'', JStr status),
                (''integrated_head'', jstr_opt (observed_head env oid)), (''revision'', JInt revision)])))))"

definition save_outputs :: "string \<Rightarrow> step_row list \<Rightarrow> (store, unit) oper" where
  "save_outputs oid rows =
     bnd (ask_state (get_task oid)) (\<lambda>task.
       modify (\<lambda>s. s\<lparr>workflow_outputs := insert_replace wo_task
         \<lparr>wo_task = oid, wo_outputs = plan_outputs rows (p_outputs (tk_plan task))\<rparr> (workflow_outputs s)\<rparr>))"

definition settle :: "env \<Rightarrow> string \<Rightarrow> (store, unit) oper" where
  "settle env oid =
     bnd (ask_state (\<lambda>s. Ok (steps_of oid s))) (\<lambda>rows.
     bnd (ask_state (get_task oid)) (\<lambda>task.
     bnd (retry_failed env oid (tk_settings task) (filter (\<lambda>t. st_state t = ''failed'') rows)) (\<lambda>retrying.
     if retrying then ret ()
     else
     bnd (ask_state (\<lambda>s. Ok (child_completion oid s))) (\<lambda>complete.
     when_op (complete \<and> list_all (\<lambda>t. terminal_step (st_state t)) rows)
       (thn (when_op (\<not> run_failed rows) (save_outputs oid rows))
            (finish_task env oid (if run_failed rows then ''failed'' else ''succeeded'')))))))"

section \<open>Notices of finished children\<close>

definition limits_json :: "limits \<Rightarrow> json" where
  "limits_json l = jobj [(''workers'', JInt (int (lm_workers l))), (''children'', JInt (int (lm_children l))),
     (''depth'', JInt (int (lm_depth l))), (''environments'', JInt (int (lm_environments l)))]"

definition last_revision :: "string \<Rightarrow> store \<Rightarrow> int" where
  "last_revision oid s = fold max (map rv_revision (filter (\<lambda>r. rv_task r = oid) (revisions s))) 0"

definition child_json :: "env \<Rightarrow> tree_row \<Rightarrow> string \<Rightarrow> int \<Rightarrow> json" where
  "child_json env t status revision = jobj [(''task'', JStr (tt_task t)), (''root'', JStr (tt_root t)),
     (''parent'', jstr_opt (tt_parent t)), (''caller_worker'', jstr_opt (tt_caller_worker t)), (''depth'', JInt (tt_depth t)),
     (''version'', JInt (tt_version t)), (''limits'', JStr (json_text env (limits_json (tt_limits t)))),
     (''request_id'', jstr_opt (tt_request_id t)), (''request_hash'', jstr_opt (tt_request_hash t)),
     (''status'', JStr status), (''revision'', JInt revision)]"

definition local_children :: "env \<Rightarrow> store \<Rightarrow> json list" where
  "local_children env s =
     [child_json env t (tk_status k) (last_revision (tt_task t) s). t \<leftarrow> task_tree s, k \<leftarrow> tasks s,
        tk_id k = tt_task t \<and> tt_parent t \<noteq> None \<and> tt_caller_worker t \<noteq> None]"

text \<open>A child of a remote task's packet is known by the caller that the task has recorded for it.\<close>

definition remote_child :: "store \<Rightarrow> string \<Rightarrow> json \<Rightarrow> json list result" where
  "remote_child s task child =
     and_then (context_of (as_str (jget child ''task'')) ''remote child'') (\<lambda>i.
     Ok (case find (\<lambda>e. op_key e = (task, ''delegation.caller:'' @ i)) (external_ops s) of
           None \<Rightarrow> []
         | Some e \<Rightarrow> [jset ''caller_worker'' (jget (eo_data e) ''worker'') (jset ''parent'' (JStr task) child)]))"

definition remote_children :: "store \<Rightarrow> json list result" where
  "remote_children s =
     and_then (map_result (\<lambda>(task, packet). and_then (map_result (remote_child s task)
         (unwrap_or (as_array (jget packet ''children'')) [])) (\<lambda>xs. Ok (concat xs))) (remote_context s)) (\<lambda>xss.
     Ok (concat xss))"

definition terminal_note :: string where
  "terminal_note = ''Delegated child reached a terminal state. Inspect its result; integrate and validate successful changes, or handle its failure.''"

definition terminal_key :: "env \<Rightarrow> string \<Rightarrow> json \<Rightarrow> string" where
  "terminal_key env i child = ''delegation.terminal:'' @ i @ '':'' @ json_text env (jget child ''version'') @ '':'' @
     json_text env (jget child ''revision'') @ '':'' @ json_text env (jget child ''status'')"

text \<open>The receipt and the message commit together; \<open>mid\<close> draws the identifier of the message.\<close>

definition notify_child :: "env \<Rightarrow> (string \<Rightarrow> string) \<Rightarrow> json \<Rightarrow> (store, unit) oper" where
  "notify_child env mid child =
     (if \<not> list_ex (\<lambda>st. as_str (jget child ''status'') = Some st) [''succeeded'', ''failed'', ''cancelled''] then ret ()
      else case as_str (jget child ''caller_worker'') of None \<Rightarrow> ret ()
      | Some worker \<Rightarrow>
          bnd (ask_state (\<lambda>_. context_of (as_str (jget child ''parent'')) ''parent'')) (\<lambda>parent.
          bnd (ask_state (\<lambda>_. context_of (as_str (jget child ''task'')) ''child'')) (\<lambda>i.
          let key = terminal_key env i child in
          atomic (
            bnd (ask_state (\<lambda>s. Ok (exists_row (\<lambda>e. op_key e = (parent, key)) (external_ops s)))) (\<lambda>known.
            if known then ret ()
            else
              thn (modify (\<lambda>s. s\<lparr>external_ops := external_ops s @
                     [\<lparr>eo_task = parent, eo_name = key, eo_state = ''notified'', eo_data = child\<rparr>]\<rparr>))
             (bnd (send env parent worker (mid key) worker terminal_note (jobj [(''child'', child)]) True) (\<lambda>_. ret ())))))))"

definition notify_completed_children :: "env \<Rightarrow> (string \<Rightarrow> string) \<Rightarrow> (store, unit) oper" where
  "notify_completed_children env mid =
     bnd (ask_state (\<lambda>s. and_then (remote_children s) (\<lambda>rs. Ok (local_children env s @ rs)))) (\<lambda>children.
       each_op (notify_child env mid) children)"

section \<open>Follow-up work\<close>

definition followup_note :: string where
  "followup_note = ''Read pending_questions and child results as well as unread coordination messages, acknowledge messages, and act on actionable requests within the assigned scope. Verify and commit any changes. Escalate unresolved disagreements in the task channel.''"

definition followup :: "string \<Rightarrow> step \<Rightarrow> step" where
  "followup tag stp =
     stp\<lparr>s_needs := [s_id stp], s_id := s_id stp @ ''.followup-'' @ tag, s_instructions := followup_note,
       s_when := None, s_output_types := [], s_artifacts := []\<rparr>"

definition notified_workers :: "store \<Rightarrow> worker_row list" where
  "notified_workers s =
     [w. w \<leftarrow> workers s, t \<leftarrow> tasks s, tk_id t = wk_task w \<and> wk_status w = ''notified'' \<and>
        tk_status t \<in> {''running'', ''succeeded''} \<and> exists_row (\<lambda>a. at_worker a = Some (wk_id w)) (attempts s)]"

definition assign_followup :: "string \<Rightarrow> string \<Rightarrow> string \<Rightarrow> store \<Rightarrow> store" where
  "assign_followup oid name wid s =
     s\<lparr>workers := update_rows (\<lambda>w. wk_id w = wid)
         (\<lambda>w. w\<lparr>wk_step := map_option st_id (find (\<lambda>r. st_task r = oid \<and> st_name r = name) (steps s)), wk_status := ''idle''\<rparr>)
         (workers s)\<rparr>"

text \<open>\<open>fresh\<close> draws the suffix of the name and the identifiers of the added step.\<close>

definition wake_worker :: "env \<Rightarrow> revision_deps \<Rightarrow> (string \<Rightarrow> string \<times> fresh_ids) \<Rightarrow> worker_row \<Rightarrow> (store, unit) oper" where
  "wake_worker env D fresh w =
     bnd (ask_state (\<lambda>s. Ok (find (\<lambda>r. Some (st_id r) = wk_step w \<and> st_state r = ''succeeded'') (steps s)))) (\<lambda>old.
     case old of None \<Rightarrow> ret ()
     | Some r \<Rightarrow>
         if s_kind (st_spec r) = ''environment'' then ret ()
         else
           let spec = followup (fst (fresh (wk_id w))) (st_spec r) in
           bnd (add_steps env D (snd (fresh (wk_id w))) (wk_task w) [spec]) (\<lambda>_.
             modify (assign_followup (wk_task w) (s_id spec) (wk_id w))))"

definition wake_notified :: "env \<Rightarrow> revision_deps \<Rightarrow> (string \<Rightarrow> string \<times> fresh_ids) \<Rightarrow> (store, unit) oper" where
  "wake_notified env D fresh =
     bnd (ask_state (\<lambda>s. Ok (notified_workers s))) (\<lambda>ws. each_op (wake_worker env D fresh) ws)"

end
