(* ===== verification/Scheduler_Facts.thy ===== *)
theory Scheduler_Facts
  imports Scheduler Template_Facts
begin

text \<open>
  What a pass of the scheduler over a task does: a task finishes with the status its steps deserve,
  the number of attempts of a step is bounded, and a validated workflow that is visited again and
  again never gets stuck. A visit (\<open>visit\<close>) is the part of the round about one task: settling it, then
  launching what is ready; the launched steps end before the next visit, in any terminal state.
\<close>

section \<open>One pass over the steps\<close>

definition with_verdict :: "(string \<Rightarrow> string option) \<Rightarrow> verdict \<Rightarrow> step_row \<Rightarrow> bool" where
  "with_verdict states v r = (st_state r = ''pending'' \<and> judge states (st_spec r) = v)"

text \<open>The rows with the given ids get their new states.\<close>

definition put_states :: "(string \<Rightarrow> string) \<Rightarrow> step_row list \<Rightarrow> store \<Rightarrow> store" where
  "put_states g rs s = fold (\<lambda>r. set_step_state (\<lambda>q. st_id q = st_id r) (g (st_id r))) rs s"

definition restate :: "(string \<Rightarrow> string) \<Rightarrow> string set \<Rightarrow> step_row \<Rightarrow> step_row" where
  "restate g ids q = (if st_id q \<in> ids then q\<lparr>st_state := g (st_id q)\<rparr> else q)"

lemma restate_sel [simp]:
  "st_id (restate g ids q) = st_id q" "st_task (restate g ids q) = st_task q" "st_name (restate g ids q) = st_name q"
  "st_spec (restate g ids q) = st_spec q"
  "st_state (restate g ids q) = (if st_id q \<in> ids then g (st_id q) else st_state q)"
  by (simp_all add: restate_def)

lemma put_states_eq: "put_states g rs s = s\<lparr>steps := map (restate g (st_id ` set rs)) (steps s)\<rparr>"
proof (induction rs arbitrary: s)
  case Nil
  then show ?case by (simp add: put_states_def restate_def)
next
  case (Cons r rs)
  have "restate g (st_id ` set rs) (if st_id q = st_id r then q\<lparr>st_state := g (st_id r)\<rparr> else q) =
      restate g (st_id ` set (r # rs)) q" for q
    by (auto simp: restate_def)
  then show ?case
    using Cons [of "set_step_state (\<lambda>q. st_id q = st_id r) (g (st_id r)) s"]
    by (simp add: put_states_def set_step_state_def update_rows_def)
qed

lemma steps_of_put: "steps_of oid (put_states g rs s) = map (restate g (st_id ` set rs)) (steps_of oid s)"
  by (simp add: put_states_eq steps_of_def filter_map o_def)

lemma ready_loop_eq:
  "ready_loop states rows s =
     (put_states (\<lambda>_. ''skipped'') (filter (with_verdict states Skip) rows) s, Ok (filter (with_verdict states Run) rows))"
proof (induction rows arbitrary: s)
  case Nil
  then show ?case by (simp add: put_states_def ret_def)
next
  case (Cons r rs)
  show ?case
    by (cases "judge states (st_spec r)")
      (auto simp: Cons.IH with_verdict_def put_states_def thn_def bnd_def modify_def ret_def)
qed

lemma ready_eq:
  assumes "hold oid s = None" and "\<not> exists_row (\<lambda>l. rl_task l = oid) (remote_links s)"
  shows "ready env hold oid s =
    (put_states (\<lambda>_. ''skipped'') (filter (with_verdict (step_states (steps_of oid s)) Skip) (steps_of oid s)) s,
     Ok (filter (with_verdict (step_states (steps_of oid s)) Run) (steps_of oid s)))"
  using assms by (simp add: ready_def ask_then ready_loop_eq)

section \<open>Progress\<close>

text \<open>A task whose steps all wait or have ended, and whose plan is valid.\<close>

definition resting :: "step_row list \<Rightarrow> bool" where
  "resting rows = (\<forall>r \<in> set rows. st_state r = ''pending'' \<or> terminal_step (st_state r))"

definition planned :: "step_row list \<Rightarrow> bool" where
  "planned rows = (validate (map st_spec rows) = Ok () \<and> (\<forall>r \<in> set rows. st_name r = s_id (st_spec r)) \<and> distinct (map st_id rows))"

lemma step_states_member:
  assumes "distinct (map st_name rows)" and "r \<in> set rows"
  shows "step_states rows (st_name r) = Some (st_state r)"
  using assms unfolding step_states_def
  by (intro map_of_is_SomeI) (auto simp: rev_map [symmetric] o_def)

lemma planned_names: "planned rows \<Longrightarrow> distinct (map st_name rows)"
proof -
  assume p: "planned rows"
  then have "distinct (map s_id (map st_spec rows))"
    unfolding planned_def validate_Ok_iff using validate_steps_closed by blast
  moreover have "map s_id (map st_spec rows) = map st_name rows" using p by (simp add: planned_def)
  ultimately show ?thesis by (simp only:)
qed

text \<open>Some step that waits has no waiting dependency.\<close>

lemma some_step_moves:
  assumes p: "planned rows" and rest: "resting rows" and "\<exists>r \<in> set rows. st_state r = ''pending''"
  obtains r where "r \<in> set rows" "st_state r = ''pending''" "judge (step_states rows) (st_spec r) \<noteq> Wait"
proof -
  let ?specs = "map st_spec rows"
  let ?waiting = "st_name ` {r \<in> set rows. st_state r = ''pending''}"
  have ac: "acyclic (depends ?specs)" and cl: "closed_needs ?specs"
    using p unfolding planned_def validate_Ok_iff by (auto dest: validate_steps_closed)
  have "finite (depends ?specs)"
  proof (rule finite_subset)
    show "depends ?specs \<subseteq> (\<Union>s \<in> set ?specs. set (s_needs s) \<times> {s_id s})" by (auto simp: depends_def)
  qed simp
  then have "wf (depends ?specs)" using ac by (rule finite_acyclic_wf)
  moreover have "?waiting \<noteq> {}" using assms(3) by auto
  ultimately obtain x where x: "x \<in> ?waiting" and min: "\<And>y. (y, x) \<in> depends ?specs \<Longrightarrow> y \<notin> ?waiting"
    using wfE_min' [of "depends ?specs" ?waiting] by blast
  then obtain r where r: "r \<in> set rows" "st_state r = ''pending''" "st_name r = x" by auto
  have "case step_states rows n of None \<Rightarrow> False | Some st \<Rightarrow> terminal_step st" if n: "n \<in> set (s_needs (st_spec r))" for n
  proof -
    have "s_id (st_spec r) = x" using p r by (auto simp: planned_def)
    then have idle: "n \<notin> ?waiting" using min n r(1) by (auto simp: depends_def)
    obtain q where q: "q \<in> set rows" "s_id (st_spec q) = n"
      using cl n r(1) by (fastforce simp: closed_needs_def)
    have name: "st_name q = n" using p q by (auto simp: planned_def)
    have "st_state q \<noteq> ''pending''"
    proof
      assume "st_state q = ''pending''"
      then have "st_name q \<in> ?waiting" using q(1) by (intro imageI) simp
      then show False using idle name by simp
    qed
    then have "terminal_step (st_state q)" using rest q(1) by (auto simp: resting_def)
    then show ?thesis using step_states_member [OF planned_names [OF p] q(1)] name by simp
  qed
  then have "judge (step_states rows) (st_spec r) \<noteq> Wait" by (auto simp: judge_def list_all_iff)
  with that r show ?thesis by blast
qed

section \<open>Settling\<close>

text \<open>A failed step that may run again.\<close>

definition retries_left :: "settings \<Rightarrow> store \<Rightarrow> step_row \<Rightarrow> bool" where
  "retries_left sg s r = (counted_attempts sg r s < int (s_attempts (st_spec r)))"

definition retrying :: "string \<Rightarrow> settings \<Rightarrow> store \<Rightarrow> step_row list" where
  "retrying oid sg s = filter (\<lambda>r. st_state r = ''failed'' \<and> retries_left sg s r) (steps_of oid s)"

lemma retries_left_frame: "attempts t = attempts s \<Longrightarrow> retries_left sg t r = retries_left sg s r"
  by (simp add: retries_left_def counted_attempts_def)

text \<open>The same state with a longer log.\<close>

definition logged :: "store \<Rightarrow> store \<Rightarrow> bool" where
  "logged s t = (\<exists>es n. t = s\<lparr>events := es, event_seq := n\<rparr>)"

lemma logged_refl: "logged s s"
proof -
  have "s = s\<lparr>events := events s, event_seq := event_seq s\<rparr>" by simp
  then show ?thesis unfolding logged_def by blast
qed

lemma event_runs: "event env task kind data s = (t, Ok u) \<Longrightarrow> logged s t"
  by (auto simp: logged_def event_def Let_def bail_def split: if_splits)

lemma put_states_logged: "logged s t \<Longrightarrow> logged (put_states g rs s) (put_states g rs t)"
  unfolding logged_def put_states_eq
proof (elim exE, intro exI)
  fix es n assume "t = s\<lparr>events := es, event_seq := n\<rparr>"
  then show "t\<lparr>steps := map (restate g (st_id ` set rs)) (steps t)\<rparr> =
      s\<lparr>steps := map (restate g (st_id ` set rs)) (steps s)\<rparr>\<lparr>events := es, event_seq := n\<rparr>"
    by (cases s) simp
qed

lemma logged_trans: "logged s t \<Longrightarrow> logged t u \<Longrightarrow> logged s u"
  unfolding logged_def by (elim exE, rule exI, rule exI) simp

lemma retry_failed_runs:
  assumes "retry_failed env oid sg rows s = (t, Ok again)"
  shows "again = (\<exists>r \<in> set rows. retries_left sg s r) \<and>
    logged (put_states (\<lambda>_. ''pending'') (filter (retries_left sg s) rows) s) t \<and> (\<not> again \<longrightarrow> t = s)"
  using assms
proof (induction rows arbitrary: s again)
  case Nil
  then show ?case
    by (auto simp: ret_def put_states_def logged_refl)
next
  case (Cons r rs)
  show ?case
  proof (cases "retries_left sg s r")
    case False
    then show ?thesis using Cons by (auto simp: bnd_ask_runs retries_left_def)
  next
    case True
    let ?s1 = "set_step_state (\<lambda>q. st_id q = st_id r) ''pending'' s"
    obtain s2 b where e: "event env oid ''step.retry'' (jobj [(''step'', JStr (st_id r)), (''attempts'', JInt (counted_attempts sg r s))]) ?s1 = (s2, Ok ())"
      and rest: "retry_failed env oid sg rs s2 = (t, Ok b)" and again: "again = True"
      using Cons.prems True unfolding retry_failed.simps bnd_ask_runs
      by (auto simp: retries_left_def thn_modify_runs thn_run [of "event a b c d" for a b c d] bnd_run ret_run)
    have log: "logged ?s1 s2" by (rule event_runs [OF e])
    then have "attempts s2 = attempts s" by (auto simp: logged_def set_step_state_def)
    then have same: "retries_left sg s2 = retries_left sg s" by (intro ext retries_left_frame)
    have "logged (put_states (\<lambda>_. ''pending'') (filter (retries_left sg s) rs) s2) t"
      using Cons.IH [OF rest] same by simp
    from logged_trans [OF put_states_logged [OF log] this]
    have "logged (put_states (\<lambda>_. ''pending'') (filter (retries_left sg s) (r # rs)) s) t"
      using True by (simp add: put_states_def)
    then show ?thesis using True again by auto
  qed
qed


text \<open>The status that the steps of a task call for.\<close>

definition verdict_of :: "step_row list \<Rightarrow> string" where
  "verdict_of rows = (if run_failed rows then ''failed'' else ''succeeded'')"

definition work_complete :: "string \<Rightarrow> store \<Rightarrow> bool" where
  "work_complete oid s = (child_completion oid s \<and> list_all (\<lambda>t. terminal_step (st_state t)) (steps_of oid s))"

lemma find_status_of:
  "find (\<lambda>t. tk_id t = oid) (update_rows (\<lambda>t. tk_id t = oid \<and> tk_status t = old) (\<lambda>t. t\<lparr>tk_status := st\<rparr>) ts) =
   map_option (\<lambda>t. if tk_status t = old then t\<lparr>tk_status := st\<rparr> else t) (find (\<lambda>t. tk_id t = oid) (ts::task_row list))"
  by (induction ts) (auto simp: update_rows_def)

lemma finish_task_runs:
  assumes "finish_task env oid status s = (t, Ok u)" and "get_task oid s = Ok k"
  shows "get_task oid t = Ok (if tk_status k = ''running'' then k\<lparr>tk_status := status\<rparr> else k) \<and> steps t = steps s \<and>
    workflow_outputs t = workflow_outputs s"
proof -
  have "logged (set_status_of oid ''running'' status s) t"
    using assms(1) by (auto simp: finish_task_def bnd_ask_runs thn_modify_runs when_run logged_refl dest!: event_runs split: if_splits)
  then show ?thesis
    using assms(2) by (auto simp: logged_def get_task_def set_status_of_def set_task_status_def find_status_of context_of_Ok_iff)
qed

lemma settle_runs:
  assumes run: "settle env oid s = (t, Ok u)" and k: "get_task oid s = Ok k" and status: "tk_status k = ''running''"
  shows "if retrying oid (tk_settings k) s \<noteq> [] then
      logged (put_states (\<lambda>_. ''pending'') (retrying oid (tk_settings k) s) s) t
    else if work_complete oid s then
      get_task oid t = Ok (k\<lparr>tk_status := verdict_of (steps_of oid s)\<rparr>) \<and> steps t = steps s \<and>
      (verdict_of (steps_of oid s) = ''succeeded'' \<longrightarrow>
         \<lparr>wo_task = oid, wo_outputs = plan_outputs (steps_of oid s) (p_outputs (tk_plan k))\<rparr> \<in> set (workflow_outputs t))
    else t = s"
proof -
  let ?rows = "steps_of oid s"
  let ?failed = "filter (\<lambda>t. st_state t = ''failed'') ?rows"
  obtain v again where retry: "retry_failed env oid (tk_settings k) ?failed s = (v, Ok again)"
    and rest: "(if again then ret () else
      bnd (ask_state (\<lambda>s. Ok (child_completion oid s))) (\<lambda>complete.
      when_op (complete \<and> list_all (\<lambda>t. terminal_step (st_state t)) ?rows)
       (thn (when_op (\<not> run_failed ?rows) (save_outputs oid ?rows))
            (finish_task env oid (if run_failed ?rows then ''failed'' else ''succeeded''))))) v = (t, Ok u)"
    using run k unfolding settle_def bnd_ask_runs by (auto simp: bnd_run [of "retry_failed a b c d" for a b c d])
  have same: "retrying oid (tk_settings k) s = filter (retries_left (tk_settings k) s) ?failed"
    by (simp add: retrying_def conj_commute)
  have v: "again \<longleftrightarrow> retrying oid (tk_settings k) s \<noteq> []"
      "logged (put_states (\<lambda>_. ''pending'') (retrying oid (tk_settings k) s) s) v" "\<not> again \<Longrightarrow> v = s"
    using retry_failed_runs [OF retry] unfolding same by (auto simp: filter_empty_conv)
  show ?thesis
  proof (cases again)
    case True
    then show ?thesis using rest v by (simp add: ret_run)
  next
    case False
    then have s: "v = s" "retrying oid (tk_settings k) s = []" using v by auto
    show ?thesis
    proof (cases "work_complete oid s")
      case False
      then show ?thesis using rest s \<open>\<not> again\<close> by (auto simp: work_complete_def bnd_ask_runs when_run)
    next
      case True
      then have fin: "thn (when_op (\<not> run_failed ?rows) (save_outputs oid ?rows))
            (finish_task env oid (verdict_of ?rows)) s = (t, Ok u)"
        using rest s \<open>\<not> again\<close> by (auto simp: work_complete_def bnd_ask_runs when_run verdict_of_def split: if_splits)
      show ?thesis
      proof (cases "run_failed ?rows")
        case True
        then have "finish_task env oid (verdict_of ?rows) s = (t, Ok u)" using fin by (simp add: thn_when_runs)
        from finish_task_runs [OF this k] show ?thesis
          using s \<open>work_complete oid s\<close> status True by (simp add: verdict_of_def)
      next
        case False
        let ?o = "\<lparr>wo_task = oid, wo_outputs = plan_outputs ?rows (p_outputs (tk_plan k))\<rparr>"
        let ?s1 = "s\<lparr>workflow_outputs := insert_replace wo_task ?o (workflow_outputs s)\<rparr>"
        have "finish_task env oid (verdict_of ?rows) ?s1 = (t, Ok u)"
          using fin False k by (auto simp: when_op_def save_outputs_def thn_run bnd_ask_runs modify_run)
        moreover have "get_task oid ?s1 = Ok k" using k by (simp add: get_task_def)
        moreover have "?o \<in> set (workflow_outputs ?s1)" by (simp add: insert_replace_def)
        ultimately show ?thesis
          using finish_task_runs [of env oid "verdict_of ?rows" ?s1 t u k] s \<open>work_complete oid s\<close> status by simp
      qed
    qed
  qed
qed

text \<open>The hops along the fallbacks are at most eight, so the attempts that do not count are.\<close>

lemma hops_from_bound: "hops_from m n seen current \<le> n"
  by (induction m n seen current rule: hops_from.induct) (auto split: option.split)

lemma retries_bounded:
  assumes "retries_left sg s r"
  shows "count_rows (\<lambda>a. attempt_row.at_step a = st_id r) (attempts s) < s_attempts (st_spec r) + 8"
proof -
  have "fallback_hops sg (s_role (st_spec r)) \<le> 8" unfolding fallback_hops_def by (rule hops_from_bound)
  then show ?thesis using assms by (auto simp: retries_left_def counted_attempts_def min_def split: if_splits)
qed

text \<open>
  C30. Settling a running task does exactly one of three things. If failed steps have attempts
  left, they and only they go back to the queue; a step that has used its attempts, not counting
  up to eight that failed for want of account capacity, is never among them. Otherwise, once every
  step has ended and every child is accepted, the task finishes: it fails if some failed step has
  no succeeded recovery step, else it succeeds and its outputs are recorded. Otherwise nothing
  changes.
\<close>

theorem settle_decides:
  assumes "settle env oid s = (t, Ok u)" and "get_task oid s = Ok k" and "tk_status k = ''running''"
  shows "if retrying oid (tk_settings k) s \<noteq> [] then
      steps t = map (restate (\<lambda>_. ''pending'') (st_id ` set (retrying oid (tk_settings k) s))) (steps s) \<and>
      get_task oid t = Ok k \<and>
      (\<forall>r \<in> set (retrying oid (tk_settings k) s).
         count_rows (\<lambda>a. attempt_row.at_step a = st_id r) (attempts s) < s_attempts (st_spec r) + 8)
    else if work_complete oid s then
      get_task oid t = Ok (k\<lparr>tk_status := verdict_of (steps_of oid s)\<rparr>) \<and> steps t = steps s \<and>
      (verdict_of (steps_of oid s) = ''succeeded'' \<longrightarrow>
         \<lparr>wo_task = oid, wo_outputs = plan_outputs (steps_of oid s) (p_outputs (tk_plan k))\<rparr> \<in> set (workflow_outputs t))
    else t = s"
proof (cases "retrying oid (tk_settings k) s = []")
  case True
  then show ?thesis using settle_runs [OF assms] by simp
next
  case False
  then have "logged (put_states (\<lambda>_. ''pending'') (retrying oid (tk_settings k) s) s) t"
    using settle_runs [OF assms] by simp
  then have "steps t = map (restate (\<lambda>_. ''pending'') (st_id ` set (retrying oid (tk_settings k) s))) (steps s)"
      "tasks t = tasks s"
    by (auto simp: logged_def put_states_eq)
  moreover have "count_rows (\<lambda>a. attempt_row.at_step a = st_id r) (attempts s) < s_attempts (st_spec r) + 8"
    if "r \<in> set (retrying oid (tk_settings k) s)" for r
    using that by (intro retries_bounded) (auto simp: retrying_def)
  ultimately show ?thesis using False assms(2) by (simp add: get_task_def)
qed


definition settling :: "string \<Rightarrow> store" where
  "settling outcome = empty_store\<lparr>revisions := [\<lparr>rv_task = ''t'', rv_revision = 1, rv_plan = empty_plan\<rparr>], tasks := [sample_task ''t''],
     steps := [\<lparr>st_id = ''1'', st_task = ''t'', st_name = ''build'', st_spec = default_step ''build'', st_state = outcome,
                st_result = Some JNull\<rparr>]\<rparr>"

lemma settle_decides_witness:
  "map st_state (steps (fst (settle sample_env ''t'' (settling ''failed'')))) = [''pending''] \<and>
   get_task ''t'' (fst (settle sample_env ''t'' (settling ''succeeded''))) = Ok ((sample_task ''t'')\<lparr>tk_status := ''succeeded''\<rparr>)"
proof
  have k: "get_task ''t'' (settling st) = Ok (sample_task ''t'')" for st
    by (simp add: settling_def get_task_def sample_task_def)
  have running: "tk_status (sample_task ''t'') = ''running''" by (simp add: sample_task_def)
  have failed: "settle sample_env ''t'' (settling ''failed'') = (fst (settle sample_env ''t'' (settling ''failed'')), Ok ())"
    by (intro prod_eqI) (simp, code_simp)
  let ?redo = "retrying ''t'' (tk_settings (sample_task ''t'')) (settling ''failed'')"
  have "map st_id ?redo = [''1'']" by code_simp
  then have "st_id ` set ?redo = {''1''}" "?redo \<noteq> []" by (metis list.set(1,2) list.set_map, auto)
  then have "steps (fst (settle sample_env ''t'' (settling ''failed''))) =
      map (restate (\<lambda>_. ''pending'') {''1''}) (steps (settling ''failed''))"
    using settle_decides [OF failed k running] by simp
  moreover have "map st_state (map (restate (\<lambda>_. ''pending'') {''1''}) (steps (settling ''failed''))) = [''pending'']"
    by (simp add: settling_def)
  ultimately show "map st_state (steps (fst (settle sample_env ''t'' (settling ''failed'')))) = [''pending'']"
    by (simp only:)
  have fine: "settle sample_env ''t'' (settling ''succeeded'') = (fst (settle sample_env ''t'' (settling ''succeeded'')), Ok ())"
    by (intro prod_eqI) (simp, code_simp)
  have none: "retrying ''t'' (tk_settings (sample_task ''t'')) (settling ''succeeded'') = []"
    "work_complete ''t'' (settling ''succeeded'')" "verdict_of (steps_of ''t'' (settling ''succeeded'')) = ''succeeded''"
    by code_simp+
  show "get_task ''t'' (fst (settle sample_env ''t'' (settling ''succeeded''))) = Ok ((sample_task ''t'')\<lparr>tk_status := ''succeeded''\<rparr>)"
    using settle_decides [OF fine k running] none by simp
qed

section \<open>Visits of the scheduler\<close>

text \<open>
  A visit of the scheduler to a running task, as the round makes it: settle the task, then look
  for steps that are ready. Here every ready step is run to its end before the next visit:
  \<open>out\<close> tells, for each step, the row of the attempt that ran, whose state and result the step
  gets. Launch and record together have this effect on the two tables.
\<close>

definition run_ended :: "(string \<Rightarrow> attempt_row) \<Rightarrow> step_row list \<Rightarrow> store \<Rightarrow> store" where
  "run_ended out rs s =
     s\<lparr>steps := map (\<lambda>q. if st_id q \<in> st_id ` set rs
         then q\<lparr>st_state := at_state (out (st_id q)), st_result := at_result (out (st_id q))\<rparr> else q) (steps s),
       attempts := attempts s @ map (\<lambda>r. out (st_id r)) rs\<rparr>"

definition visit :: "env \<Rightarrow> (string \<Rightarrow> store \<Rightarrow> string option) \<Rightarrow> string \<Rightarrow> (string \<Rightarrow> attempt_row) \<Rightarrow> store \<Rightarrow> store" where
  "visit env hold oid out s =
     (case get_task oid s of
        Inl e \<Rightarrow> s
      | Inr task \<Rightarrow>
          if tk_status task \<noteq> ''running'' then s
          else
            (case thn (settle env oid)
                 (bnd (ask_state (get_task oid)) (\<lambda>task.
                  if tk_status task \<noteq> ''running'' then ret [] else ready env hold oid)) s of
               (t, Inl e) \<Rightarrow> t
             | (t, Inr rs) \<Rightarrow> run_ended out rs t))"

fun visits :: "env \<Rightarrow> (string \<Rightarrow> store \<Rightarrow> string option) \<Rightarrow> string \<Rightarrow> (nat \<Rightarrow> string \<Rightarrow> attempt_row) \<Rightarrow> nat \<Rightarrow> store \<Rightarrow> store" where
  "visits env hold oid out 0 s = s"
| "visits env hold oid out (Suc n) s = visits env hold oid out n (visit env hold oid (out n) s)"

text \<open>
  What a task may still need: for each step its attempts left, those that failed for want of
  account capacity included, and one more when it waits or is about to be queued again.
\<close>

definition attempts_left :: "settings \<Rightarrow> store \<Rightarrow> step_row \<Rightarrow> nat" where
  "attempts_left sg s r =
     s_attempts (st_spec r) + fallback_hops sg (s_role (st_spec r)) -
       count_rows (\<lambda>a. attempt_row.at_step a = st_id r) (attempts s)"

definition step_work :: "settings \<Rightarrow> store \<Rightarrow> step_row \<Rightarrow> nat" where
  "step_work sg s r = attempts_left sg s r +
     (if st_state r = ''pending'' \<or> st_state r = ''failed'' \<and> 0 < attempts_left sg s r then 1 else 0)"

definition work_left :: "string \<Rightarrow> settings \<Rightarrow> store \<Rightarrow> nat" where
  "work_left oid sg s = sum_list (map (step_work sg s) (steps_of oid s))"

lemma get_task_member: "get_task oid s = Ok k \<Longrightarrow> oid \<in> tk_id ` set (tasks s)"
  by (auto simp: get_task_def context_of_Ok_iff find_Some_iff)

lemma get_task_status: "get_task oid s = Ok k \<Longrightarrow> tk_status k = ''running'' \<Longrightarrow>
    exists_row (\<lambda>t. tk_id t = oid \<and> tk_status t = ''running'') (tasks s)"
  by (auto simp: get_task_def context_of_Ok_iff find_Some_iff exists_row_iff intro!: bexI [OF _ nth_mem])

lemma event_succeeds: "oid \<in> tk_id ` set (tasks s) \<Longrightarrow> \<exists>t. event env oid kind data s = (t, Ok ())"
  unfolding event_def Let_def by (subst if_not_P, simp) (rule exI, rule refl)

lemma retry_failed_succeeds: "oid \<in> tk_id ` set (tasks s) \<Longrightarrow> \<exists>t b. retry_failed env oid sg rows s = (t, Ok b)"
proof (induction rows arbitrary: s)
  case Nil
  then show ?case by (auto simp: ret_def)
next
  case (Cons r rs)
  show ?case
  proof (cases "counted_attempts sg r s < int (s_attempts (st_spec r))")
    case False
    then show ?thesis using Cons by (simp add: ask_then)
  next
    case True
    let ?s1 = "set_step_state (\<lambda>q. st_id q = st_id r) ''pending'' s"
    have "oid \<in> tk_id ` set (tasks ?s1)" using Cons.prems by (simp add: set_step_state_def)
    then obtain t where e: "event env oid ''step.retry'' (jobj [(''step'', JStr (st_id r)), (''attempts'', JInt (counted_attempts sg r s))]) ?s1 = (t, Ok ())"
      using event_succeeds by blast
    have "tasks t = tasks s" using event_runs [OF e] by (auto simp: logged_def set_step_state_def)
    then obtain u b where "retry_failed env oid sg rs t = (u, Ok b)" using Cons by metis
    then show ?thesis using True e by (auto simp: ask_state_def thn_def bnd_def modify_def ret_def)
  qed
qed

lemma finish_task_succeeds:
  assumes "oid \<in> tk_id ` set (tasks s)" and "current_revision oid s = Ok n"
  shows "\<exists>t. finish_task env oid st s = (t, Ok ())"
proof -
  let ?s1 = "set_status_of oid ''running'' st s"
  have "map tk_id (tasks ?s1) = map tk_id (tasks s)"
    by (simp add: set_status_of_def set_task_status_def map_update_rows)
  then have "oid \<in> tk_id ` set (tasks ?s1)" using assms(1) by (metis set_map)
  moreover have "current_revision oid ?s1 = Ok n"
    using assms(2) by (simp add: current_revision_def set_status_of_def set_task_status_def)
  ultimately show ?thesis
    using event_succeeds [of oid ?s1 env]
    by (auto simp: finish_task_def ask_state_def thn_def bnd_def modify_def when_op_def ret_def)
qed

lemma settle_succeeds:
  assumes k: "get_task oid s = Ok k" and rev: "current_revision oid s = Ok n"
  shows "\<exists>t. settle env oid s = (t, Ok ())"
proof -
  have mem: "oid \<in> tk_id ` set (tasks s)" by (rule get_task_member [OF k])
  let ?failed = "filter (\<lambda>t. st_state t = ''failed'') (steps_of oid s)"
  obtain v again where retry: "retry_failed env oid (tk_settings k) ?failed s = (v, Ok again)"
    using retry_failed_succeeds [OF mem] by blast
  show ?thesis
  proof (cases again)
    case True
    then show ?thesis using k retry by (simp add: settle_def ask_state_def bnd_def ret_def)
  next
    case False
    then have v: "v = s" using retry_failed_runs [OF retry] by simp
    let ?s1 = "s\<lparr>workflow_outputs := insert_replace wo_task
         \<lparr>wo_task = oid, wo_outputs = plan_outputs (steps_of oid s) (p_outputs (tk_plan k))\<rparr> (workflow_outputs s)\<rparr>"
    have "\<exists>t. finish_task env oid st s = (t, Ok ())" "\<exists>t. finish_task env oid st ?s1 = (t, Ok ())" for st
      using mem rev by (auto intro!: finish_task_succeeds simp: current_revision_def)
    then show ?thesis
      using k retry v False
      by (simp add: settle_def ask_state_def bnd_def thn_def when_op_def ret_def save_outputs_def modify_def)
  qed
qed

text \<open>A task on its way: its workflow is valid and waits or has ended, and it runs here.\<close>

definition under_way :: "string \<Rightarrow> task_row \<Rightarrow> store \<Rightarrow> bool" where
  "under_way oid k s =
     (planned (steps_of oid s) \<and> resting (steps_of oid s) \<and> get_task oid s = Ok k \<and> tk_status k = ''running'' \<and>
      \<not> exists_row (\<lambda>l. rl_task l = oid) (remote_links s) \<and> (\<exists>n. current_revision oid s = Ok n))"

lemma restate_steps_under_way:
  assumes "under_way oid k s" and "steps t = map f (steps s)"
    and f: "\<And>q. st_id (f q) = st_id q \<and> st_task (f q) = st_task q \<and> st_name (f q) = st_name q \<and> st_spec (f q) = st_spec q"
    and states: "\<And>q. st_state (f q) = st_state q \<or> st_state (f q) = ''pending'' \<or> terminal_step (st_state (f q))"
    and rest: "tasks t = tasks s" "remote_links t = remote_links s" "revisions t = revisions s"
  shows "under_way oid k t \<and> steps_of oid t = map f (steps_of oid s)"
proof -
  have rows: "steps_of oid t = map f (steps_of oid s)"
    using assms(2) f by (simp add: steps_of_def filter_map o_def)
  have "resting (steps_of oid t)"
    using assms(1) states unfolding rows under_way_def resting_def by (metis (no_types, lifting) imageE list.set_map)
  moreover have "planned (steps_of oid t)"
    using assms(1) f unfolding rows by (simp add: under_way_def planned_def o_def)
  ultimately show ?thesis
    using assms(1) rest rows by (simp add: under_way_def get_task_def current_revision_def)
qed

lemma sum_list_less:
  assumes "\<And>x. x \<in> set xs \<Longrightarrow> (f x :: nat) \<le> g x" and "x \<in> set xs" "f x < g x"
  shows "sum_list (map f xs) < sum_list (map g xs)"
proof -
  obtain ys zs where xs: "xs = ys @ x # zs" using assms(2) by (metis split_list)
  have "sum_list (map f ys) \<le> sum_list (map g ys)" "sum_list (map f zs) \<le> sum_list (map g zs)"
    using assms(1) by (auto intro!: sum_list_mono simp: xs)
  then show ?thesis using assms(3) by (simp add: xs)
qed

lemma retries_left_attempts: "retries_left sg s r \<Longrightarrow> 0 < attempts_left sg s r"
  by (auto simp: retries_left_def counted_attempts_def attempts_left_def min_def split: if_splits)

text \<open>Queueing failed steps again leaves the work as it is.\<close>

lemma requeue_work:
  assumes s: "under_way oid k s" and t: "logged (put_states (\<lambda>_. ''pending'') (retrying oid sg s) s) t"
  shows "under_way oid k t \<and> work_left oid sg t \<le> work_left oid sg s \<and> child_completion oid t = child_completion oid s"
proof -
  let ?f = "restate (\<lambda>_. ''pending'') (st_id ` set (retrying oid sg s))"
  have t': "steps t = map ?f (steps s)" "attempts t = attempts s" "tasks t = tasks s" "remote_links t = remote_links s"
      "revisions t = revisions s" "task_tree t = task_tree s" "child_acceptance t = child_acceptance s"
    using t by (auto simp: logged_def put_states_eq)
  have way: "under_way oid k t" "steps_of oid t = map ?f (steps_of oid s)"
    using restate_steps_under_way [OF s t'(1)] t'(3-5) by (auto simp: restate_sel)
  have dist: "distinct (map st_id (steps_of oid s))" using s by (simp add: under_way_def planned_def)
  have left: "attempts_left sg t (?f q) = attempts_left sg s q" for q
    by (simp add: attempts_left_def t'(2))
  have "step_work sg t (?f q) \<le> step_work sg s q" if q: "q \<in> set (steps_of oid s)" for q
  proof (cases "st_id q \<in> st_id ` set (retrying oid sg s)")
    case False
    then show ?thesis using left [of q] by (simp add: step_work_def)
  next
    case True
    then obtain r where r: "r \<in> set (retrying oid sg s)" "st_id r = st_id q" by auto
    then have "r = q" using dist q by (auto simp: retrying_def distinct_map dest: inj_onD)
    then have "st_state q = ''failed''" "0 < attempts_left sg s q"
      using r by (auto simp: retrying_def retries_left_attempts)
    then show ?thesis using left [of q] True by (simp add: step_work_def)
  qed
  then have "work_left oid sg t \<le> work_left oid sg s"
    unfolding work_left_def way(2) by (simp add: o_def sum_list_mono)
  moreover have "child_completion oid t = child_completion oid s" unfolding child_completion_def t'(3,6,7) ..
  ultimately show ?thesis using way t' by simp
qed

text \<open>The outcomes of a visit: attempts of the steps that have ended.\<close>

definition ended_attempts :: "(string \<Rightarrow> attempt_row) \<Rightarrow> bool" where
  "ended_attempts out = (\<forall>i. attempt_row.at_step (out i) = i \<and> terminal_step (at_state (out i)))"

lemma launch_attempts:
  assumes "\<And>i. attempt_row.at_step (out i) = i"
  shows "count_rows (\<lambda>a. attempt_row.at_step a = i) (as @ map (\<lambda>r. out (st_id r)) rs) \<ge>
      count_rows (\<lambda>a. attempt_row.at_step a = i) as + (if i \<in> st_id ` set rs then 1 else 0)"
  using assms by (induction rs) (auto simp: count_rows_def)

lemma launch_progress:
  assumes s: "under_way oid k s" and out: "ended_attempts out" and hold: "hold oid s = None"
  obtains t rs where "ready env hold oid s = (t, Ok rs)" "under_way oid k (run_ended out rs t)"
    "child_completion oid (run_ended out rs t) = child_completion oid s"
    "(\<exists>r \<in> set (steps_of oid s). st_state r = ''pending'') \<Longrightarrow> work_left oid sg (run_ended out rs t) < work_left oid sg s"
    "\<not> (\<exists>r \<in> set (steps_of oid s). st_state r = ''pending'') \<Longrightarrow> run_ended out rs t = s"
proof -
  let ?rows = "steps_of oid s"
  let ?v = "with_verdict (step_states ?rows)"
  let ?skip = "filter (?v Skip) ?rows" and ?rs = "filter (?v Run) ?rows"
  let ?t = "put_states (\<lambda>_. ''skipped'') ?skip s"
  let ?in = "\<lambda>q. st_id q \<in> st_id ` set ?rs" and ?out = "\<lambda>q. st_id q \<in> st_id ` set ?skip"
  define run :: "step_row \<Rightarrow> step_row" where "run q = (if ?in q then q\<lparr>st_state := at_state (out (st_id q)), st_result := at_result (out (st_id q))\<rparr> else q)" for q
  define f where "f q = run (restate (\<lambda>_. ''skipped'') (st_id ` set ?skip) q)" for q
  let ?u = "run_ended out ?rs ?t"
  have out_step: "attempt_row.at_step (out i) = i" and terminal: "terminal_step (at_state (out i))" "terminal_step ''skipped''" for i
    using out by (simp_all add: ended_attempts_def terminal_step_def)
  have u: "steps ?u = map f (steps s)" "attempts ?u = attempts s @ map (\<lambda>r. out (st_id r)) ?rs" "tasks ?u = tasks s"
      "remote_links ?u = remote_links s" "revisions ?u = revisions s" "task_tree ?u = task_tree s"
      "child_acceptance ?u = child_acceptance s"
    by (simp_all add: run_ended_def put_states_eq o_def f_def run_def)
  have keys: "st_id (f q) = st_id q \<and> st_task (f q) = st_task q \<and> st_name (f q) = st_name q \<and> st_spec (f q) = st_spec q" for q
    by (simp add: f_def run_def restate_sel)
  have state: "st_state (f q) = (if ?in q then at_state (out (st_id q)) else if ?out q then ''skipped'' else st_state q)" for q
    by (simp add: f_def run_def restate_sel)
  have still: "st_state (f q) = st_state q \<or> st_state (f q) = ''pending'' \<or> terminal_step (st_state (f q))" for q
    using terminal by (simp add: state)
  have way: "under_way oid k ?u \<and> steps_of oid ?u = map f ?rows"
    by (rule restate_steps_under_way [OF s u(1) keys still u(3-5)])
  have pend: "st_state q = ''pending''" if "q \<in> set ?rows" "?out q \<or> ?in q" for q
  proof -
    have dist: "distinct (map st_id ?rows)" using s by (simp add: under_way_def planned_def)
    from that(2) obtain r where r: "r \<in> set ?rows" "st_id r = st_id q" "st_state r = ''pending''"
      by (auto simp: with_verdict_def)
    then have "r = q" using dist that(1) by (auto simp: distinct_map dest: inj_onD)
    with r show ?thesis by simp
  qed
  have more: "count_rows (\<lambda>a. attempt_row.at_step a = i) (attempts ?u) \<ge> count_rows (\<lambda>a. attempt_row.at_step a = i) (attempts s) +
      (if i \<in> st_id ` set ?rs then 1 else 0)" for i
    unfolding u(2) by (rule launch_attempts [OF out_step])
  have less: "attempts_left sg ?u (f q) + (if ?in q \<and> 0 < attempts_left sg s q then 1 else 0) \<le> attempts_left sg s q" for q
    using more [of "st_id q"] keys [of q] by (auto simp: attempts_left_def)
  have moved: "step_work sg ?u (f q) < step_work sg s q"
    if q: "q \<in> set ?rows" "?out q \<or> ?in q" for q
  proof -
    have "st_state (f q) \<noteq> ''pending'' \<and> (?in q \<or> st_state (f q) \<noteq> ''failed'')"
      using q(2) terminal(1) [of "st_id q"] by (auto simp: state terminal_step_def)
    then show ?thesis using less [of q] pend [OF q] by (cases "?in q") (auto simp: step_work_def split: if_splits)
  qed
  have kept: "step_work sg ?u (f q) \<le> step_work sg s q" if "q \<in> set ?rows" for q
  proof (cases "?out q \<or> ?in q")
    case True
    then show ?thesis using moved [OF that] by simp
  next
    case False
    then have "st_state (f q) = st_state q" by (simp add: state)
    then show ?thesis using less [of q] by (auto simp: step_work_def split: if_splits)
  qed
  have drop: "work_left oid sg ?u < work_left oid sg s" if some: "\<exists>r \<in> set ?rows. st_state r = ''pending''"
  proof -
    obtain r where r: "r \<in> set ?rows" "st_state r = ''pending''" "judge (step_states ?rows) (st_spec r) \<noteq> Wait"
      using some_step_moves [of ?rows] s some by (auto simp: under_way_def)
    then have "st_id r \<in> st_id ` set ?skip \<or> st_id r \<in> st_id ` set ?rs"
      by (cases "judge (step_states ?rows) (st_spec r)") (auto simp: with_verdict_def)
    then have "sum_list (map (\<lambda>q. step_work sg ?u (f q)) ?rows) < sum_list (map (step_work sg s) ?rows)"
      by (intro sum_list_less [OF kept r(1)] moved r(1))
    then show ?thesis by (simp add: work_left_def way o_def)
  qed
  have idle: "?u = s" if none: "\<not> (\<exists>r \<in> set ?rows. st_state r = ''pending'')"
  proof -
    have "?skip = []" "?rs = []" using none by (auto simp: filter_empty_conv with_verdict_def)
    then show ?thesis by (simp add: run_ended_def put_states_def)
  qed
  have ready: "ready env hold oid s = (?t, Ok ?rs)"
    by (rule ready_eq [of hold oid s env, OF hold]) (use s in \<open>simp add: under_way_def\<close>)
  have "child_completion oid ?u = child_completion oid s" unfolding child_completion_def u(3,6,7) ..
  from that [OF ready conjunct1 [OF way] this drop idle] show ?thesis by blast
qed

lemma settle_attempts: "settle env oid s = (t, r) \<Longrightarrow> attempts t = attempts s"
proof -
  have retry: "keeps (\<lambda>u. attempts u = as) (retry_failed env oid sg rows)" for sg rows as
    by (induction rows) (auto intro!: keeps_rules simp: set_step_state_def)
  have "keeps (\<lambda>u. attempts u = as) (settle env oid)" for as
    unfolding settle_def save_outputs_def finish_task_def
    by (intro keeps_rules retry) (simp_all add: set_status_of_def set_task_status_def)
  then show "settle env oid s = (t, r) \<Longrightarrow> attempts t = attempts s" by (auto dest: keepsD)
qed

text \<open>The end of the work: every step has ended, no failed step has attempts left.\<close>

definition work_ended :: "string \<Rightarrow> settings \<Rightarrow> store \<Rightarrow> bool" where
  "work_ended oid sg s = ((\<forall>r \<in> set (steps_of oid s). terminal_step (st_state r)) \<and> retrying oid sg s = [])"

lemma resting_ended: "resting rows \<Longrightarrow> \<not> (\<exists>r \<in> set rows. st_state r = ''pending'') \<Longrightarrow> \<forall>r \<in> set rows. terminal_step (st_state r)"
  by (auto simp: resting_def)

lemma visit_cases:
  assumes s: "under_way oid k s" and out: "ended_attempts out" and hold: "\<And>t. hold oid t = None"
  obtains (finished) "work_ended oid (tk_settings k) (visit env hold oid out s)"
      "get_task oid (visit env hold oid out s) = Ok (k\<lparr>tk_status := verdict_of (steps_of oid (visit env hold oid out s))\<rparr>)"
    | (moved) "under_way oid k (visit env hold oid out s)"
      "work_left oid (tk_settings k) (visit env hold oid out s) < work_left oid (tk_settings k) s"
      "child_completion oid (visit env hold oid out s) = child_completion oid s"
    | (stopped) "visit env hold oid out s = s" "work_ended oid (tk_settings k) s" "\<not> child_completion oid s"
proof -
  let ?sg = "tk_settings k"
  obtain n where k: "get_task oid s = Ok k" "tk_status k = ''running''" and rev: "current_revision oid s = Ok n"
    using s by (auto simp: under_way_def)
  obtain t where run: "settle env oid s = (t, Ok ())" using settle_succeeds [OF k(1) rev] by blast
  have visit: "visit env hold oid out s =
      (case bnd (ask_state (get_task oid)) (\<lambda>task. if tk_status task \<noteq> ''running'' then ret [] else ready env hold oid) t of
         (t, Inl e) \<Rightarrow> t | (t, Inr rs) \<Rightarrow> run_ended out rs t)"
    using k run by (simp add: visit_def thn_def bnd_def)
  note settled = settle_runs [OF run k]
  show ?thesis
  proof (cases "retrying oid ?sg s = [] \<and> work_complete oid s")
    case True
    then have t: "get_task oid t = Ok (k\<lparr>tk_status := verdict_of (steps_of oid s)\<rparr>)" "steps t = steps s"
      using settled by simp_all
    have "verdict_of (steps_of oid s) \<noteq> ''running''" by (simp add: verdict_of_def)
    then have "visit env hold oid out s = t"
      using visit t(1) by (simp add: ask_then ret_def run_ended_def)
    moreover have "steps_of oid t = steps_of oid s" using t(2) by (simp add: steps_of_def)
    moreover have "retrying oid ?sg t = []"
      using True t(2) retries_left_frame [OF settle_attempts [OF run]] by (simp add: retrying_def steps_of_def)
    moreover have "\<forall>r \<in> set (steps_of oid s). terminal_step (st_state r)"
      using True by (simp add: work_complete_def list_all_iff)
    ultimately show ?thesis using finished t(1) by (simp add: work_ended_def)
  next
    case False
    have way: "under_way oid k t" "work_left oid ?sg t \<le> work_left oid ?sg s" "child_completion oid t = child_completion oid s"
    proof (atomize (full), cases "retrying oid ?sg s = []")
      case True
      then have "t = s" using settled False by simp
      then show "under_way oid k t \<and> work_left oid ?sg t \<le> work_left oid ?sg s \<and> child_completion oid t = child_completion oid s"
        using s by simp
    next
      case False
      then show "under_way oid k t \<and> work_left oid ?sg t \<le> work_left oid ?sg s \<and> child_completion oid t = child_completion oid s"
        using settled by (intro requeue_work [OF s]) simp
    qed
    obtain u rs where go: "ready env hold oid t = (u, Ok rs)" "under_way oid k (run_ended out rs u)"
      "child_completion oid (run_ended out rs u) = child_completion oid t"
      "(\<exists>r \<in> set (steps_of oid t). st_state r = ''pending'') \<Longrightarrow> work_left oid ?sg (run_ended out rs u) < work_left oid ?sg t"
      "\<not> (\<exists>r \<in> set (steps_of oid t). st_state r = ''pending'') \<Longrightarrow> run_ended out rs u = t"
      using launch_progress [where hold = hold and oid = oid and s = t and env = env, OF way(1) out hold] by blast
    have step: "visit env hold oid out s = run_ended out rs u"
      using visit way(1) go(1) by (simp add: ask_then under_way_def)
    show ?thesis
    proof (cases "\<exists>r \<in> set (steps_of oid t). st_state r = ''pending''")
      case True
      show ?thesis
        by (rule moved) (use step go(2,3) go(4) [OF True] way in simp_all)
    next
      case none: False
      have none_left: "retrying oid ?sg s = []"
      proof (rule ccontr)
        assume some: "retrying oid ?sg s \<noteq> []"
        then have "logged (put_states (\<lambda>_. ''pending'') (retrying oid ?sg s) s) t" using settled by simp
        then have rows: "steps_of oid t = map (restate (\<lambda>_. ''pending'') (st_id ` set (retrying oid ?sg s))) (steps_of oid s)"
          using steps_of_put [of oid "\<lambda>_. ''pending''" "retrying oid ?sg s" s] by (auto simp: logged_def steps_of_def)
        obtain r where r: "r \<in> set (retrying oid ?sg s)" using some by (meson last_in_set)
        then have "r \<in> set (steps_of oid s)" by (simp add: retrying_def)
        then have "restate (\<lambda>_. ''pending'') (st_id ` set (retrying oid ?sg s)) r \<in> set (steps_of oid t)"
          unfolding rows by simp
        moreover have "st_state (restate (\<lambda>_. ''pending'') (st_id ` set (retrying oid ?sg s)) r) = ''pending''"
          using r by simp
        ultimately show False using none by blast
      qed
      then have t: "t = s" using settled False by simp
      have ended: "\<forall>r \<in> set (steps_of oid s). terminal_step (st_state r)"
        using resting_ended [of "steps_of oid s"] s none t by (simp add: under_way_def)
      then have "\<not> child_completion oid s"
        using False none_left by (simp add: work_complete_def list_all_iff)
      then show ?thesis
        using stopped step go(5) [OF none] t ended none_left by (simp add: work_ended_def)
    qed
  qed
qed

lemma visit_stays:
  assumes s: "under_way oid k s" and ended: "work_ended oid (tk_settings k) s" and c: "\<not> child_completion oid s"
    and out: "ended_attempts out" and hold: "\<And>t. hold oid t = None"
  shows "visit env hold oid out s = s"
proof -
  obtain n where k: "get_task oid s = Ok k" "tk_status k = ''running''" and rev: "current_revision oid s = Ok n"
    using s by (auto simp: under_way_def)
  obtain t where run: "settle env oid s = (t, Ok ())" using settle_succeeds [OF k(1) rev] by blast
  have "t = s" using settle_runs [OF run k] ended c by (simp add: work_ended_def work_complete_def)
  moreover have "\<not> (\<exists>r \<in> set (steps_of oid s). st_state r = ''pending'')"
    using ended by (auto simp: work_ended_def terminal_step_def)
  moreover obtain u rs where "ready env hold oid s = (u, Ok rs)"
      "\<not> (\<exists>r \<in> set (steps_of oid s). st_state r = ''pending'') \<Longrightarrow> run_ended out rs u = s"
    using launch_progress [where hold = hold and oid = oid and s = s and env = env, OF s out hold] by metis
  ultimately show ?thesis using run k by (simp add: visit_def thn_def bnd_def ask_state_def)
qed

lemma visits_stay: "(\<And>n. visit env hold oid (out n) s = s) \<Longrightarrow> visits env hold oid out n s = s"
  by (induction n) simp_all

lemma visits_finish:
  assumes "under_way oid k s" and out: "\<And>n. ended_attempts (out n)" and hold: "\<And>t. hold oid t = None"
    and "work_left oid (tk_settings k) s < m"
  shows "work_ended oid (tk_settings k) (visits env hold oid out m s) \<and>
    (child_completion oid s \<longrightarrow> get_task oid (visits env hold oid out m s) =
       Ok (k\<lparr>tk_status := verdict_of (steps_of oid (visits env hold oid out m s))\<rparr>))"
  using assms(1,4)
proof (induction m arbitrary: s)
  case 0
  then show ?case by simp
next
  case (Suc m)
  let ?t = "visit env hold oid (out m) s"
  show ?case
  proof (cases rule: visit_cases [where hold = hold and oid = oid and s = s and env = env and out = "out m", OF Suc.prems(1) out hold, case_names finished moved stopped])
    case finished
    have "verdict_of rows \<noteq> ''running''" for rows by (simp add: verdict_of_def)
    then have "visit env hold oid o1 ?t = ?t" for o1
      using finished(2) by (simp add: visit_def)
    then have "visits env hold oid out m ?t = ?t" by (intro visits_stay)
    then show ?thesis using finished by simp
  next
    case moved
    then have "work_left oid (tk_settings k) ?t < m" using Suc.prems(2) by simp
    then show ?thesis using Suc.IH [OF moved(1)] moved(3) by simp
  next
    case stopped
    then have "visits env hold oid out m s = s"
      using visit_stays [where hold = hold and oid = oid and s = s and env = env, OF Suc.prems(1) stopped(2,3) out hold] by (intro visits_stay)
    then show ?thesis using stopped by simp
  qed
qed


text \<open>A step that fails is run once more, then its repair runs, then the check is skipped or runs.\<close>

definition pipeline :: store where
  "pipeline = empty_store\<lparr>revisions := [\<lparr>rv_task = ''t'', rv_revision = 1, rv_plan = empty_plan\<rparr>], tasks := [sample_task ''t''],
     steps := [\<lparr>st_id = ''1'', st_task = ''t'', st_name = ''build'', st_spec = (default_step ''build'')\<lparr>s_attempts := 2\<rparr>,
        st_state = ''pending'', st_result = None\<rparr>,
      \<lparr>st_id = ''2'', st_task = ''t'', st_name = ''repair'', st_spec = (default_step ''repair'')\<lparr>s_needs := [''build''],
         s_when := Some \<lparr>c_step = ''build'', c_status = ''failed''\<rparr>\<rparr>, st_state = ''pending'', st_result = None\<rparr>,
      \<lparr>st_id = ''3'', st_task = ''t'', st_name = ''check'', st_spec = (default_step ''check'')\<lparr>s_needs := [''repair'']\<rparr>,
         st_state = ''pending'', st_result = None\<rparr>]\<rparr>"

definition outcomes :: "nat \<Rightarrow> string \<Rightarrow> attempt_row" where
  "outcomes n i = \<lparr>at_id = i, at_step = i, at_worker = None,
     at_state = (if i = ''1'' then ''failed'' else ''succeeded''), at_started = 0, at_finished = None, at_pid = None,
     at_result = None, at_usage = None\<rparr>"


end
