(* ===== verification/Payment.thy ===== *)
theory Payment
  imports Config Strings
begin

text \<open>
  Payment challenges and receipts of the funding provider (src/src/provider_signup/wire.rs and
  topup_wire.rs) and the spend requests of the wallet (wallet.rs). The HTTP client, the base64
  and JSON decoders, the parsers of times and URLs and the wallet program are parameters.
\<close>

section \<open>The attributes of a challenge\<close>

text \<open>The length of a text as an integer, which the limits are compared with.\<close>

definition len :: "'a list \<Rightarrow> int" where
  "len s = int (length s)"

definition size_limit :: int where
  "size_limit = 65536"

definition invalid_response :: "'a result" where
  "invalid_response = bail ''Tuara returned an invalid or unsupported signup payment response''"

text \<open>The scan of a quoted value: the decoded text and what follows the closing quote.\<close>

fun quoted :: "bool \<Rightarrow> string \<Rightarrow> string \<Rightarrow> (string \<times> string) result" where
  "quoted escaped acc [] = invalid_response"
| "quoted escaped acc (c # cs) =
     (if ascii_control c then bail ''invalid Tuara payment challenge attribute''
      else if escaped then quoted False (acc @ [c]) cs
      else if c = CHR 0x5C then quoted True acc cs
      else if c = CHR 0x22 then Ok (acc, cs)
      else quoted False (acc @ [c]) cs)"

definition attribute_char :: "char \<Rightarrow> bool" where
  "attribute_char c = (ascii_alnum c \<or> c = CHR ''-'' \<or> c = CHR ''_'')"

definition has_attribute :: "string \<Rightarrow> (string, string) btree \<Rightarrow> bool" where
  "has_attribute n m = list_ex (\<lambda>(k, _). same_ignoring_case k n) m"

lemma quoted_shorter: "quoted escaped acc s = Ok (v, r) \<Longrightarrow> length r < length s"
  by (induction escaped acc s rule: quoted.induct) (auto simp: invalid_response_def bail_def split: if_splits)

text \<open>One attribute of the rest of the header.\<close>

definition one_attribute :: "(string, string) btree \<Rightarrow> string \<Rightarrow> (string \<times> string \<times> string) result" where
  "one_attribute found s =
     and_then (context_of (split_once (CHR ''='') (trim_start s))
        ''Tuara returned an invalid or unsupported signup payment response'') (\<lambda>(n, v).
      let name = trim_end n in
      and_then (require (name \<noteq> [] \<and> list_all attribute_char name) ''invalid Tuara payment challenge attribute'') (\<lambda>_.
      and_then (require (\<not> has_attribute name found) ''duplicate Tuara payment challenge attribute'') (\<lambda>_.
      and_then (context_of (strip_prefix [CHR 0x22] (trim_start v))
        ''Tuara returned an invalid or unsupported signup payment response'') (\<lambda>w.
      and_then (quoted False [] w) (\<lambda>(decoded, r).
      Ok (name, decoded, trim_start r))))))"

lemma one_attribute_shorter:
  assumes "one_attribute found s = Ok (n, v, r)"
  shows "length r < length s"
proof -
  obtain a b w q where sp: "split_once (CHR ''='') (trim_start s) = Some (a, b)" and w: "trim_start b = CHR 0x22 # w"
    and q: "quoted False [] w = Ok (v, q)" and r: "r = trim_start q"
    using assms unfolding one_attribute_def
    by (auto simp: and_then_Ok_iff context_of_Ok_iff Let_def strip_prefix_Some)
  have "length q < length w" using quoted_shorter [OF q] .
  moreover have "length w < length (trim_start b)" using w by simp
  moreover have "length b < length (trim_start s)" using split_once_Some [OF sp] by simp
  ultimately show ?thesis
    using length_trim_start [of b] length_trim_start [of s] length_trim_start [of q] unfolding r by linarith
qed

function attribute_list :: "(string, string) btree \<Rightarrow> string \<Rightarrow> (string, string) btree result" where
  "attribute_list found s =
     (case one_attribute found s of Inl e \<Rightarrow> Inl e
      | Inr (n, v, r) \<Rightarrow>
          let m = bt_insert n v found in
          if r = [] then Ok m
          else case strip_prefix '','' r of
              None \<Rightarrow> invalid_response
            | Some q \<Rightarrow> attribute_list m q)"
  by pat_completeness auto
termination
  by (relation "measure (\<lambda>(_, s). length s)")
    (auto simp: strip_prefix_Some dest!: one_attribute_shorter)

declare attribute_list.simps [simp del]

text \<open>The header is visible ASCII (\<^verbatim>\<open>HeaderValue::to_str\<close>).\<close>

definition attributes_of :: "string \<Rightarrow> (string, string) btree result" where
  "attributes_of header =
     and_then (require (len header \<le> size_limit) ''Tuara payment challenge exceeded its size limit'') (\<lambda>_.
     and_then (context_of (split_once (CHR '' '') (trim header))
        ''Tuara returned an invalid or unsupported signup payment response'') (\<lambda>(scheme, r).
     and_then (require (same_ignoring_case scheme ''Payment'') ''unsupported Tuara payment challenge'') (\<lambda>_.
     attribute_list [] r)))"

definition find_attribute :: "(string, string) btree \<Rightarrow> string \<Rightarrow> string option" where
  "find_attribute m key = map_option snd (find (\<lambda>(n, _). same_ignoring_case n key) m)"

definition attribute_of :: "(string, string) btree \<Rightarrow> string \<Rightarrow> string result" where
  "attribute_of m key =
     (case find_attribute m key of
        None \<Rightarrow> invalid_response
      | Some v \<Rightarrow> if v = [] then invalid_response else Ok v)"

section \<open>Values of a reply\<close>

text \<open>A conjunction of tests that can fail, evaluated from the left.\<close>

fun all_of :: "bool result list \<Rightarrow> bool result" where
  "all_of [] = Ok True"
| "all_of (r # rs) = and_then r (\<lambda>b. if b then all_of rs else Ok False)"

definition ensure_all :: "bool result list \<Rightarrow> string \<Rightarrow> unit result" where
  "ensure_all rs m = and_then (all_of rs) (\<lambda>b. require b m)"

definition same_value :: "'a result \<Rightarrow> 'a result \<Rightarrow> bool result" where
  "same_value a b = and_then a (\<lambda>x. and_then b (\<lambda>y. Ok (x = y)))"

definition field_text :: "json \<Rightarrow> string \<Rightarrow> string result" where
  "field_text v key =
     (case Option.bind (jfield v key) as_str of
        None \<Rightarrow> invalid_response
      | Some s \<Rightarrow> if s \<noteq> [] \<and> len s \<le> 4096 then Ok s else invalid_response)"

definition field_number :: "json \<Rightarrow> string \<Rightarrow> int result" where
  "field_number v key = context_of (Option.bind (jfield v key) as_u64)
     ''Tuara returned an invalid or unsupported signup payment response''"

definition checked :: "int \<Rightarrow> int result" where
  "checked n = (if n < 2 ^ 64 then Ok n else invalid_response)"

definition div_ceil :: "int \<Rightarrow> int \<Rightarrow> int" where
  "div_ceil n d = n div d + (if n mod d > 0 then 1 else 0)"

text \<open>An answer of the HTTP client: the chunks of the body arrive one by one and may fail.\<close>

record http_reply =
  hr_status :: int
  hr_challenges :: "string option list"
  hr_length :: "int option"
  hr_chunks :: "string result list"

fun read_chunks :: "string \<Rightarrow> string result list \<Rightarrow> string result" where
  "read_chunks acc [] = Ok acc"
| "read_chunks acc (r # rs) =
     (case r of
        Inl e \<Rightarrow> bail ''Tuara signup response could not be read; do not retry payment automatically''
      | Inr chunk \<Rightarrow>
          if len acc + len chunk \<le> size_limit then read_chunks (acc @ chunk) rs
          else bail ''Tuara signup response exceeded its size limit'')"

definition bounded_body :: "http_reply \<Rightarrow> string result" where
  "bounded_body r =
     and_then (require (case hr_length r of None \<Rightarrow> True | Some n \<Rightarrow> n \<le> size_limit)
       ''Tuara signup response exceeded its size limit'') (\<lambda>_. read_chunks [] (hr_chunks r))"

section \<open>Challenges\<close>

text \<open>
  The decoders of the libraries: JSON, the unpadded base64 of a JSON value, its encoder, the
  parser of RFC 3339 times, and the clock.
\<close>

record payment_lib =
  pl_json :: "string \<Rightarrow> json option"
  pl_decode :: "string \<Rightarrow> json option"
  pl_encode :: "json \<Rightarrow> string"
  pl_rfc3339 :: "string \<Rightarrow> int option"
  pl_now :: int

record challenge =
  cg_wire :: "(string, string) btree"
  cg_charge_cents :: int
  cg_credit_units :: int
  cg_fee_units :: int
  cg_network_id :: string
  cg_expires_at :: int

definition challenge_request :: "payment_lib \<Rightarrow> (string, string) btree \<Rightarrow> json result" where
  "challenge_request L wire =
     and_then (attribute_of wire ''request'') (\<lambda>r. case pl_decode L r of None \<Rightarrow> invalid_response | Some v \<Rightarrow> Ok v)"

definition given :: "'a option \<Rightarrow> 'a list" where
  "given x = (case x of None \<Rightarrow> [] | Some v \<Rightarrow> [v])"

definition min_expiry :: "payment_lib \<Rightarrow> int \<Rightarrow> string list \<Rightarrow> int result" where
  "min_expiry L start ts =
     fold (\<lambda>t r. and_then r (\<lambda>e.
       case pl_rfc3339 L t of None \<Rightarrow> invalid_response
       | Some n \<Rightarrow> and_then (require (n > pl_now L) ''Tuara payment challenge has expired'') (\<lambda>_. Ok (min e n)))) ts (Ok start)"

definition request_expiry :: "json \<Rightarrow> string option result" where
  "request_expiry request =
     (case jfield request ''expires'' of
        None \<Rightarrow> Ok None
      | Some v \<Rightarrow> (case as_str v of None \<Rightarrow> invalid_response | Some s \<Rightarrow> Ok (Some s)))"

text \<open>The amounts of the quote: the credit, the fee on it and the charge in whole cents.\<close>

definition quote_amounts :: "json \<Rightarrow> json \<Rightarrow> int \<Rightarrow> int \<Rightarrow> (int \<times> int \<times> int) result" where
  "quote_amounts request body amount cap =
     and_then (field_text request ''amount'') (\<lambda>amount_text.
     and_then (require (list_all ascii_digit amount_text) ''invalid Tuara payment amount'') (\<lambda>_.
     and_then (case parse_u64 amount_text of Inl e \<Rightarrow> invalid_response | Inr n \<Rightarrow> Ok (int n)) (\<lambda>charge.
     and_then (checked (amount * 1000000)) (\<lambda>credit.
     and_then (field_number body ''fee_basis_points'') (\<lambda>points.
     and_then (checked (credit * points)) (\<lambda>scaled.
     let fee = div_ceil scaled 10000 in
     and_then (ensure_all [same_value (field_number body ''credit_units'') (Ok credit),
         same_value (field_number body ''fee_units'') (Ok fee)]
       ''Tuara payment credit or fee does not match its declared terms'') (\<lambda>_.
     and_then (ensure_all [same_value (Ok charge) (field_number body ''charge_cents''),
         and_then (checked (credit + fee)) (\<lambda>total. Ok (charge = div_ceil total 1000000)), Ok (charge \<le> cap)]
       ''Tuara payment charge exceeds its cap or disagrees with the quoted amount'') (\<lambda>_.
     Ok (charge, credit, fee)))))))))"

definition challenge_network :: "json \<Rightarrow> string result" where
  "challenge_network request =
     and_then (case jfield request ''methodDetails'' of None \<Rightarrow> invalid_response | Some d \<Rightarrow> Ok d) (\<lambda>details.
     and_then (field_text details ''networkId'') (\<lambda>network.
     and_then (require (len network \<le> 256 \<and> list_all (\<lambda>c. ascii_alnum c \<or> c = CHR ''_'') network)
       ''invalid Tuara Stripe network identifier'') (\<lambda>_.
     and_then (require (jfield details ''paymentMethodTypes'' = Some (JArr [JStr ''card'']))
       ''Tuara signup requires a card payment challenge'') (\<lambda>_. Ok network))))"

definition parse_challenge_kind :: "payment_lib \<Rightarrow> string \<Rightarrow> json \<Rightarrow> int \<Rightarrow> int \<Rightarrow> string \<Rightarrow> bool \<Rightarrow> challenge result" where
  "parse_challenge_kind L header body amount cap terms topup =
     and_then (require (500 \<le> amount \<and> amount \<le> 1000000) ''Tuara signup credit must be between $5 and $10,000'') (\<lambda>_.
     and_then (attributes_of header) (\<lambda>wire.
     and_then (ensure_all [same_value (attribute_of wire ''method'') (Ok ''stripe''),
         same_value (attribute_of wire ''intent'') (Ok ''charge'')]
       ''Tuara signup requires a Stripe charge challenge'') (\<lambda>_.
     and_then (attribute_of wire ''realm'') (\<lambda>_.
     and_then (attribute_of wire ''id'') (\<lambda>_.
     and_then (case attribute_of wire ''header'' of
         Inl e \<Rightarrow> Ok ()
       | Inr f \<Rightarrow> require (same_ignoring_case f ''Authorization'') ''unsupported Tuara payment credential header'') (\<lambda>_.
     and_then (challenge_request L wire) (\<lambda>request.
     and_then (ensure_all [same_value (field_text request ''currency'') (Ok ''usd''),
         Ok (jfield request ''decimals'' = None \<or> field_number request ''decimals'' = Ok 2),
         same_value (field_text request ''externalId'') (field_text body ''challenge_id'')]
       ''Tuara signup requires a matching USD-cents challenge'') (\<lambda>_.
     and_then (quote_amounts request body amount cap) (\<lambda>(charge, credit, fee).
     and_then (if \<not> topup \<or> (case jfield body ''terms_version'' of None \<Rightarrow> False | Some v \<Rightarrow> v \<noteq> JNull)
         then ensure_all [same_value (field_text body ''terms_version'') (Ok terms)]
           ''Tuara payment terms version changed; review and prepare again''
         else Ok ()) (\<lambda>_.
     and_then (challenge_network request) (\<lambda>network.
     and_then (request_expiry request) (\<lambda>expiry.
     and_then (min_expiry L (pl_now L + 900)
         (given (find_attribute wire ''expires'') @ given expiry)) (\<lambda>expires.
     Ok \<lparr>cg_wire = wire, cg_charge_cents = charge, cg_credit_units = credit, cg_fee_units = fee,
         cg_network_id = network, cg_expires_at = expires\<rparr>)))))))))))))"

definition challenge_response :: "payment_lib \<Rightarrow> http_reply \<Rightarrow> int \<Rightarrow> int \<Rightarrow> string \<Rightarrow> bool \<Rightarrow> challenge result" where
  "challenge_response L r amount cap terms topup =
     and_then (require (hr_status r = 402) ''Tuara did not return a signup payment challenge'') (\<lambda>_.
     case hr_challenges r of
       [h] \<Rightarrow>
         and_then (case h of None \<Rightarrow> invalid_response | Some v \<Rightarrow> Ok v) (\<lambda>v.
         and_then (bounded_body r) (\<lambda>bytes.
         and_then (case pl_json L bytes of None \<Rightarrow> invalid_response | Some j \<Rightarrow> Ok j) (\<lambda>economics.
         parse_challenge_kind L v economics amount cap terms topup)))
     | _ \<Rightarrow> bail ''Tuara must return exactly one payment challenge'')"

section \<open>Paying\<close>

text \<open>The credential of a paid request: the challenge with the token of the wallet.\<close>

definition payment_authorization :: "payment_lib \<Rightarrow> challenge \<Rightarrow> string \<Rightarrow> string result" where
  "payment_authorization L c spt =
     and_then (require (cg_expires_at c > pl_now L) ''Tuara signup payment challenge expired; prepare a new signup'') (\<lambda>_.
     and_then (require (prefix ''spt_'' spt \<and> len spt \<le> 4096 \<and> list_all ascii_graphic spt)
       ''invalid shared payment token'') (\<lambda>_.
     and_then (challenge_request L (cg_wire c)) (\<lambda>request.
     and_then (field_text request ''externalId'') (\<lambda>external.
     Ok (''Payment '' @ pl_encode L (jobj
       [(''challenge'', JObj (map (\<lambda>(k, v). (k, JStr v)) (cg_wire c))),
        (''payload'', jobj [(''spt'', JStr spt), (''externalId'', JStr external)])]))))))"

text \<open>The header of an authenticated request: no key can add another scheme.\<close>

definition authorization :: "string \<Rightarrow> string option \<Rightarrow> string result" where
  "authorization key payment =
     and_then (require (key \<noteq> [] \<and> len key \<le> 4096 \<and> list_all (\<lambda>c. ascii_graphic c \<and> c \<noteq> CHR '','') key)
       ''invalid Tuara account credential'') (\<lambda>_.
     Ok (case payment of None \<Rightarrow> ''Bearer '' @ key | Some p \<Rightarrow> p @ '', Bearer '' @ key))"

definition invalid_topup :: "'a result" where
  "invalid_topup = bail ''Tuara returned an invalid top-up response''"

definition short_text :: "json \<Rightarrow> string \<Rightarrow> string result" where
  "short_text v key =
     (case Option.bind (jfield v key) as_str of
        None \<Rightarrow> invalid_topup
      | Some s \<Rightarrow> if s \<noteq> [] \<and> len s \<le> 256 \<and> \<not> has_control s then Ok s else invalid_topup)"

definition amount_field :: "json \<Rightarrow> string \<Rightarrow> int result" where
  "amount_field v key = context_of (Option.bind (jfield v key) as_u64) ''Tuara returned an invalid top-up response''"

definition signed_field :: "json \<Rightarrow> string \<Rightarrow> int result" where
  "signed_field v key = context_of (Option.bind (jfield v key) as_i64) ''Tuara returned an invalid top-up response''"

definition required_field :: "json \<Rightarrow> string \<Rightarrow> json result" where
  "required_field v key = context_of (jfield v key) ''Tuara returned an invalid top-up response''"

text \<open>\<^verbatim>\<open>balance\<close>: the identity of the key and the balance, from two authenticated reads.\<close>

definition read_balance :: "(string \<Rightarrow> json result) \<Rightarrow> (string \<times> int) result" where
  "read_balance get =
     and_then (get ''/account/api/v1/auth/introspect'') (\<lambda>identity.
     and_then (required_field identity ''data'') (\<lambda>data.
     and_then (require (jget data ''kind'' = JStr ''api'') ''Tuara automatic top-up requires an API key'') (\<lambda>_.
     and_then (short_text data ''organizationId'') (\<lambda>organization.
     and_then (require (case Option.bind (jfield data ''scopes'') as_array of None \<Rightarrow> False
         | Some xs \<Rightarrow> list_ex (\<lambda>x. as_str x = Some ''agent:manage'') xs)
       ''Tuara automatic top-up requires an agent:manage credential'') (\<lambda>_.
     and_then (get ''/api/v1/buy/account'') (\<lambda>account.
     and_then (short_text account ''buyer_id'') (\<lambda>_.
     and_then (each_result (\<lambda>k. require (Option.bind (jfield account k) as_i64 \<noteq> None) ''invalid Tuara account balance'')
         [''balance_units'', ''pending_units'']) (\<lambda>_.
     and_then (signed_field account ''available_units'') (\<lambda>available.
     Ok (organization, available))))))))))"

definition validate_topup_response :: "payment_lib \<Rightarrow> string \<Rightarrow> challenge \<Rightarrow> json result" where
  "validate_topup_response L bytes c =
     and_then (require (len bytes \<le> size_limit) ''Tuara top-up response exceeded its size limit'') (\<lambda>_.
     and_then (context_of (pl_json L bytes) ''Tuara returned an invalid top-up response'') (\<lambda>v.
     and_then (required_field v ''payment'') (\<lambda>payment.
     and_then (ensure_all [same_value (amount_field payment ''charge_cents'') (Ok (cg_charge_cents c)),
         same_value (amount_field payment ''credit_units'') (Ok (cg_credit_units c)),
         same_value (amount_field payment ''fee_units'') (Ok (cg_fee_units c))]
       ''Tuara top-up receipt differs from the authorized charge and credit'') (\<lambda>_.
     and_then (required_field v ''funding_event'') (\<lambda>ev.
     and_then (ensure_all [same_value (amount_field ev ''credit_units'') (Ok (cg_credit_units c)),
         same_value (amount_field ev ''fee_units'') (Ok (cg_fee_units c)),
         same_value (amount_field ev ''charge_units'')
           (if cg_credit_units c + cg_fee_units c < 2 ^ 64 then Ok (cg_credit_units c + cg_fee_units c) else invalid_topup),
         same_value (short_text ev ''payment_intent_id'') (short_text payment ''payment_intent_id''),
         same_value (short_text ev ''channel'') (Ok ''machine''),
         same_value (short_text ev ''rail'') (Ok ''card'')]
       ''Tuara top-up funding event differs from its payment receipt'') (\<lambda>_.
     and_then (short_text ev ''provider_namespace'') (\<lambda>_.
     and_then (required_field v ''balance'') (\<lambda>balance.
     and_then (signed_field balance ''available_units'') (\<lambda>available.
     and_then (signed_field balance ''balance_units'') (\<lambda>total.
     Ok (jobj [(''charge_cents'', JInt (cg_charge_cents c)), (''credit_units'', JInt (cg_credit_units c)),
        (''fee_units'', JInt (cg_fee_units c)), (''currency'', JStr ''usd''), (''available_units'', JInt available),
        (''balance_units'', JInt total)])))))))))))"

text \<open>The key that a successful signup returns, and its summary.\<close>

definition signup_credential :: "payment_lib \<Rightarrow> string \<Rightarrow> challenge \<Rightarrow> string \<Rightarrow> (string \<times> json) result" where
  "signup_credential L bytes c terms =
     and_then (require (len bytes \<le> size_limit) ''Tuara signup response exceeded its size limit'') (\<lambda>_.
     and_then (case pl_json L bytes of None \<Rightarrow> invalid_response | Some v \<Rightarrow> Ok v) (\<lambda>v.
     and_then (case jfield v ''key'' of None \<Rightarrow> invalid_response | Some k \<Rightarrow> Ok k) (\<lambda>key.
     and_then (field_text key ''raw_key'') (\<lambda>raw.
     and_then (require (list_all ascii_graphic raw) ''invalid Tuara inference key'') (\<lambda>_.
     and_then (require (case Option.bind (jfield key ''scopes'') as_array of None \<Rightarrow> False
         | Some xs \<Rightarrow> list_ex (\<lambda>x. as_str x = Some ''router:invoke'') xs) ''Tuara signup key lacks inference access'') (\<lambda>_.
     and_then (case jfield v ''organization'' of None \<Rightarrow> invalid_response | Some org \<Rightarrow> field_text org ''id'') (\<lambda>organization.
     and_then (require (len organization \<le> 256) ''invalid Tuara organization identifier'') (\<lambda>_.
     and_then (case jfield v ''payment'' of None \<Rightarrow> invalid_response | Some p \<Rightarrow> Ok p) (\<lambda>payment.
     and_then (ensure_all [same_value (field_number payment ''charge_cents'') (Ok (cg_charge_cents c))]
       ''Tuara payment receipt charge differs from its challenge'') (\<lambda>_.
     and_then (ensure_all [same_value (case jfield v ''terms'' of None \<Rightarrow> invalid_response | Some t \<Rightarrow> field_text t ''version'') (Ok terms)]
       ''Tuara signup terms receipt differs from accepted terms'') (\<lambda>_.
     Ok (raw, jobj [(''organization_id'', JStr organization), (''charge_cents'', JInt (cg_charge_cents c)),
        (''currency'', JStr ''usd''), (''terms_version'', JStr terms)]))))))))))))"

section \<open>The wallet\<close>

record spend_request =
  sr_id :: string
  sr_status :: string
  sr_approval_url :: "string option"
  sr_token :: "string option"
  sr_amount :: "int option"
  sr_currency :: "string option"
  sr_network_id :: "string option"
  sr_credential_type :: "string option"

text \<open>The parts of a parsed URL that the wallet's check reads.\<close>

record url_parts =
  ur_scheme :: string
  ur_host :: "string option"
  ur_username :: string
  ur_password :: bool
  ur_port :: "nat option"
  ur_fragment :: bool

text \<open>The lock of the wallet program, the check that it is installed, and a run of it.\<close>

record wallet_lib =
  wl_lock :: "unit result"
  wl_command :: "unit result"
  wl_run :: "string list \<Rightarrow> string result"
  wl_json :: "string \<Rightarrow> json option"
  wl_url :: "string \<Rightarrow> url_parts option"

definition wallet_identifier :: "string \<Rightarrow> string \<Rightarrow> int \<Rightarrow> bool" where
  "wallet_identifier v p n =
     (length v > length p \<and> len v \<le> n \<and> prefix p v \<and> ascii_alnum (hd v) \<and>
      list_all (\<lambda>c. ascii_alnum c \<or> c = CHR ''_'' \<or> c = CHR ''-'') v)"

definition validate_binding :: "spend_request \<Rightarrow> string \<Rightarrow> int \<Rightarrow> unit result" where
  "validate_binding r network charge =
     require (sr_amount r = Some charge \<and> sr_currency r = Some ''usd'' \<and> sr_network_id r = Some network \<and>
       sr_credential_type r = Some ''shared_payment_token'')
       ''Link wallet authorization does not match the approved signup quote''"

definition invalid_wallet :: "'a result" where
  "invalid_wallet = bail ''Link wallet returned an invalid private response''"

definition wallet_row :: "json \<Rightarrow> json result" where
  "wallet_row v =
     (case v of JArr [JObj m] \<Rightarrow> Ok (JObj m) | JObj m \<Rightarrow> Ok (JObj m) | _ \<Rightarrow> invalid_wallet)"

definition approval_url_ok :: "url_parts \<Rightarrow> bool" where
  "approval_url_ok u =
     (ur_scheme u = ''https'' \<and> (ur_host u = Some ''app.link.com'' \<or> ur_host u = Some ''link.com'') \<and>
      ur_username u = [] \<and> \<not> ur_password u \<and> ur_port u = Some 443 \<and> \<not> ur_fragment u)"

definition non_null :: "json option \<Rightarrow> json option" where
  "non_null x = (case x of None \<Rightarrow> None | Some v \<Rightarrow> if v = JNull then None else Some v)"

definition parse_approval_url :: "wallet_lib \<Rightarrow> json \<Rightarrow> string option result" where
  "parse_approval_url W row =
     (case non_null (jfield row ''approval_url'') of
        None \<Rightarrow> Ok None
      | Some v \<Rightarrow>
          (case as_str v of
             None \<Rightarrow> invalid_wallet
           | Some t \<Rightarrow>
               if len t \<le> 2048 \<and> \<not> has_control t then
                 (case wl_url W t of
                    None \<Rightarrow> invalid_wallet
                  | Some u \<Rightarrow> and_then (require (approval_url_ok u) ''Link wallet returned an invalid approval URL'') (\<lambda>_. Ok (Some t)))
               else invalid_wallet))"

definition parse_token :: "json \<Rightarrow> string \<Rightarrow> string option result" where
  "parse_token row status =
     (case non_null (jfield row ''shared_payment_token'') of
        None \<Rightarrow> Ok None
      | Some v \<Rightarrow>
          and_then (require (status = ''approved'' \<and>
              Option.bind (jfield row ''credential_type'') as_str = Some ''shared_payment_token'')
            ''Link wallet returned an invalid payment credential'') (\<lambda>_.
          case (case as_str v of Some t \<Rightarrow> Some t | None \<Rightarrow> Option.bind (jfield v ''id'') as_str) of
            None \<Rightarrow> invalid_wallet
          | Some t \<Rightarrow> if wallet_identifier t ''spt_'' 512 then Ok (Some t) else invalid_wallet))"

definition parse_spend :: "wallet_lib \<Rightarrow> string \<Rightarrow> spend_request result" where
  "parse_spend W bytes =
     and_then (require (len bytes \<le> 65536) ''Link wallet response exceeded its private output limit'') (\<lambda>_.
     and_then (context_of (wl_json W bytes) ''Link wallet returned an invalid private response'') (\<lambda>v.
     and_then (wallet_row v) (\<lambda>row.
     and_then (case Option.bind (jfield row ''id'') as_str of
         None \<Rightarrow> invalid_wallet
       | Some i \<Rightarrow> if wallet_identifier i ''lsrq_'' 128 then Ok i else invalid_wallet) (\<lambda>i.
     and_then (context_of (Option.bind (jfield row ''status'') as_str)
         ''Link wallet returned an invalid private response'') (\<lambda>status.
     and_then (require (status \<in> {''created'', ''pending_approval'', ''expired'', ''approved'', ''denied'', ''submitted'',
         ''succeeded'', ''failed'', ''canceled'', ''requires_action''})
       ''Link wallet returned an unsupported spend status'') (\<lambda>_.
     and_then (parse_approval_url W row) (\<lambda>url.
     and_then (parse_token row status) (\<lambda>token.
     Ok \<lparr>sr_id = i, sr_status = status, sr_approval_url = url, sr_token = token,
         sr_amount = Option.bind (jfield row ''amount'') as_u64,
         sr_currency = Option.bind (jfield row ''currency'') as_str,
         sr_network_id = Option.bind (jfield row ''network_id'') as_str,
         sr_credential_type = Option.bind (jfield row ''credential_type'') as_str\<rparr>))))))))"

definition wallet_run :: "wallet_lib \<Rightarrow> string list \<Rightarrow> spend_request result" where
  "wallet_run W args =
     and_then (wl_lock W) (\<lambda>_. and_then (wl_command W) (\<lambda>_. and_then (wl_run W args) (parse_spend W)))"

definition create_args :: "string \<Rightarrow> string \<Rightarrow> int \<Rightarrow> bool \<Rightarrow> bool \<Rightarrow> string list" where
  "create_args operation network charge topup test =
     [''spend-request'', ''create'', ''--credential-type'', ''shared_payment_token'', ''--network-id'', network,
      ''--amount'', show_int charge, ''--currency'', ''usd'', ''--idempotency-key'', operation, ''--context'',
      if topup
      then ''Top up the existing Tuara organization used by Horde because its verified balance is below the operator'' @ [CHR 0x27] @
        ''s threshold. This payment is within the explicitly authorized per-charge and monthly automatic top-up limits.''
      else ''Fund a new Tuara organization for Horde inference with the explicitly approved initial credit and card '' @
        ''funding fee. This authorizes one signup payment only, with no automatic top-ups.'',
      ''--format'', ''json''] @ (if test then [''--test''] else [])"

definition create_for :: "wallet_lib \<Rightarrow> string \<Rightarrow> string \<Rightarrow> int \<Rightarrow> bool \<Rightarrow> bool \<Rightarrow> spend_request result" where
  "create_for W operation network charge topup test =
     and_then (require (wallet_identifier operation [] 128) ''invalid signup operation ID'') (\<lambda>_.
     and_then (require (wallet_identifier network [] 200) ''invalid payment network ID'') (\<lambda>_.
     and_then (require (1 \<le> charge \<and> charge \<le> 50000) ''Link wallet charge must be between 1 and 50000 cents'') (\<lambda>_.
     and_then (wallet_run W (create_args operation network charge topup test)) (\<lambda>r.
     and_then (validate_binding r network charge) (\<lambda>_. Ok r)))))"

definition retrieve_spend :: "wallet_lib \<Rightarrow> string \<Rightarrow> string \<Rightarrow> string \<Rightarrow> int \<Rightarrow> spend_request result" where
  "retrieve_spend W operation spend network charge =
     and_then (require (wallet_identifier operation [] 128) ''invalid signup operation ID'') (\<lambda>_.
     and_then (require (wallet_identifier spend ''lsrq_'' 128) ''invalid Link spend request ID'') (\<lambda>_.
     and_then (wallet_run W [''spend-request'', ''retrieve'', spend, ''--include'', ''shared_payment_token'', ''--format'', ''json'']) (\<lambda>r.
     and_then (validate_binding r network charge) (\<lambda>_.
     and_then (require (sr_id r = spend) ''Link wallet returned a different spend request'') (\<lambda>_. Ok r)))))"

definition cancel_spend :: "wallet_lib \<Rightarrow> string \<Rightarrow> string \<Rightarrow> unit result" where
  "cancel_spend W operation spend =
     and_then (require (wallet_identifier operation [] 128) ''invalid signup operation ID'') (\<lambda>_.
     and_then (require (wallet_identifier spend ''lsrq_'' 128) ''invalid Link spend request ID'') (\<lambda>_.
     and_then (wallet_run W [''spend-request'', ''cancel'', spend, ''--format'', ''json'']) (\<lambda>r.
     and_then (require (sr_id r = spend) ''Link wallet returned a different spend request'') (\<lambda>_.
     require (sr_status r = ''canceled'') ''Link wallet did not cancel the spend request''))))"

end
