(* ===== verification/Topup.thy ===== *)
theory Topup
  imports Payment
begin

text \<open>
  Automatic funding of a provider account (src/src/provider_signup/topup.rs and topup/state.rs):
  policies, the durable state of a charge, the ledger of the month, and the check that the
  daemon makes. The state is the private directory; the trail of a run holds the directory after
  each durable write and each payment request, which is where a crash can leave it. The clock is
  read in a fixed order and \<open>te_clock\<close> numbers the readings. The texts of the messages to the
  operator are left out.
\<close>

section \<open>Policies\<close>

record fund_settings =
  fs_provider :: string
  fs_threshold_cents :: int
  fs_amount_cents :: int
  fs_max_charge_cents :: int
  fs_monthly_limit_cents :: int
  fs_terms_version :: string
  fs_accept_terms :: bool
  fs_test_mode :: bool

definition bounded_text :: "string \<Rightarrow> int \<Rightarrow> bool" where
  "bounded_text v n = (\<not> blank v \<and> len v \<le> n \<and> \<not> has_control v)"

definition validate_funding :: "fund_settings \<Rightarrow> unit result" where
  "validate_funding f =
     and_then (require (bounded_text (fs_provider f) 48) ''invalid provider name'') (\<lambda>_.
     and_then (require (1 \<le> fs_threshold_cents f \<and> fs_threshold_cents f \<le> 50000)
       ''balance threshold must be between 1 and 50000 cents'') (\<lambda>_.
     and_then (require (500 \<le> fs_amount_cents f \<and> fs_amount_cents f \<le> 50000)
       ''top-up credit must be at least 500 cents and at most 50000 cents'') (\<lambda>_.
     and_then (require (fs_amount_cents f \<le> fs_max_charge_cents f \<and> fs_max_charge_cents f \<le> 50000)
       ''authorize the credit plus fees, at most 50000 cents per charge'') (\<lambda>_.
     and_then (require (fs_max_charge_cents f \<le> fs_monthly_limit_cents f \<and> fs_monthly_limit_cents f \<le> 100000000)
       ''monthly charge limit must cover one maximum charge and be at most 100000000 cents'') (\<lambda>_.
     require (fs_accept_terms f \<and> bounded_text (fs_terms_version f) 32)
       ''explicit acceptance of a specific terms version and recurring charge limits is required'')))))"

text \<open>The product is taken modulo 2 to the 64 and read as a signed number.\<close>

definition low :: "fund_settings \<Rightarrow> int \<Rightarrow> bool" where
  "low f units = (units < signed_take_bit 63 (fs_threshold_cents f * 1000000))"

datatype phase = Wallet | Approval | Submitting | Received | Uncertain

record funding =
  pa_id :: string
  pa_body :: json
  pa_challenge :: challenge
  pa_phase :: phase
  pa_spend_id :: "string option"
  pa_approval_url :: "string option"
  pa_wallet_status :: "string option"
  pa_submitted_at :: "int option"

record policy =
  fp_version :: int
  fp_id :: string
  fp_root :: string
  fp_settings :: fund_settings
  fp_config :: executor_config
  fp_credential_hash :: string
  fp_organization_id :: string
  fp_enabled :: bool
  fp_pending :: "funding option"
  fp_next_check_at :: int
  fp_balance_units :: "int option"
  fp_status :: string
  fp_last_payment :: "json option"

record charge =
  lg_id :: string
  lg_submitted_at :: int
  lg_cents :: int

section \<open>The private directory\<close>

text \<open>
  The files of the directory, by name: policies by their id, responses by the id of the attempt,
  the charges of a policy by theirs. \<open>dw_posts\<close> is what the provider sees, the payment requests
  that were sent, each with the limits in force.
\<close>

record post =
  ps_policy :: string
  ps_attempt :: string
  ps_cents :: int
  ps_at :: int
  ps_limit :: int
  ps_cap :: int

record drawer =
  dw_policies :: "policy list"
  dw_responses :: "(string \<times> string) list"
  dw_ledger :: "(string \<times> charge) list"
  dw_posts :: "post list"

definition put_file :: "('a \<Rightarrow> 'k) \<Rightarrow> 'a \<Rightarrow> 'a list \<Rightarrow> 'a list" where
  "put_file key row rows = filter (\<lambda>r. key r \<noteq> key row) rows @ [row]"

record till =
  tl_drawer :: drawer
  tl_trail :: "drawer list"
  tl_policy :: policy
  tl_writes :: nat

text \<open>A write reaches the disk, fails, or reaches it and then fails to report so.\<close>

datatype disk = Stored | Failed | Unsynced

text \<open>What a check needs from outside: the disk, the clock, the calendar, the configuration and
  credential files, the wallet program and the provider.\<close>

record till_env =
  te_disk :: "nat \<Rightarrow> disk"
  te_clock :: "nat \<Rightarrow> int"
  te_month_start :: "int \<Rightarrow> int result"
  te_lib :: payment_lib
  te_wallet :: wallet_lib
  te_lock :: "unit result"
  te_configuration :: "string \<Rightarrow> executor_config result"
  te_key_hash :: "executor_config \<Rightarrow> string option result"
  te_credential :: "string \<Rightarrow> string result"
  te_sha256 :: "string \<Rightarrow> string"
  te_origin :: "executor_config \<Rightarrow> string result"
  te_origin_id :: "string \<Rightarrow> string"
  te_topup_url :: "string \<Rightarrow> string result"
  te_get :: "string \<Rightarrow> string \<Rightarrow> string \<Rightarrow> json result"
  te_quote :: "string \<Rightarrow> string \<Rightarrow> json \<Rightarrow> http_reply result"
  te_pay :: "string \<Rightarrow> string \<Rightarrow> json \<Rightarrow> http_reply result"
  te_attempt_id :: "string \<Rightarrow> string"

definition stored :: "(drawer \<Rightarrow> drawer) \<Rightarrow> till \<Rightarrow> till" where
  "stored f s = (let d = f (tl_drawer s) in s\<lparr>tl_drawer := d, tl_trail := tl_trail s @ [d]\<rparr>)"

definition durable :: "till_env \<Rightarrow> (drawer \<Rightarrow> drawer) \<Rightarrow> (till, unit) oper" where
  "durable E f = (\<lambda>s.
     let t = s\<lparr>tl_writes := Suc (tl_writes s)\<rparr> in
     case te_disk E (tl_writes s) of
       Stored \<Rightarrow> (stored f t, Ok ())
     | Failed \<Rightarrow> (t, bail ''disk'')
     | Unsynced \<Rightarrow> (stored f t, bail ''disk''))"

definition policy_of :: "(till, policy) oper" where
  "policy_of = ask_state (\<lambda>s. Ok (tl_policy s))"

definition set_policy :: "(policy \<Rightarrow> policy) \<Rightarrow> (till, unit) oper" where
  "set_policy f = modify (\<lambda>s. s\<lparr>tl_policy := f (tl_policy s)\<rparr>)"

text \<open>\<^verbatim>\<open>receipts.write(&policy.id, policy)\<close>\<close>

definition write_policy :: "till_env \<Rightarrow> (till, unit) oper" where
  "write_policy E =
     bnd policy_of (\<lambda>p. durable E (\<lambda>d. d\<lparr>dw_policies := put_file fp_id p (dw_policies d)\<rparr>))"

definition has_response :: "string \<Rightarrow> drawer \<Rightarrow> bool" where
  "has_response i d = (map_of (dw_responses d) i \<noteq> None)"

section \<open>The ledger of the month\<close>

definition checked_sum :: "int list \<Rightarrow> int result" where
  "checked_sum ns = (if sum_list ns < 2 ^ 64 then Ok (sum_list ns) else bail ''top-up charge total overflow'')"

definition charges_of :: "string \<Rightarrow> drawer \<Rightarrow> charge list" where
  "charges_of i d = map snd (filter (\<lambda>(p, _). p = i) (dw_ledger d))"

definition spent :: "till_env \<Rightarrow> drawer \<Rightarrow> policy \<Rightarrow> int \<Rightarrow> int result" where
  "spent E d p moment =
     and_then (te_month_start E moment) (\<lambda>start.
     let rows = charges_of (fp_id p) d;
         recorded = (case fp_pending p of None \<Rightarrow> False | Some a \<Rightarrow> list_ex (\<lambda>c. lg_id c = pa_id a) rows) in
     checked_sum (map lg_cents (filter (\<lambda>c. lg_submitted_at c \<ge> start) rows) @
       (case fp_pending p of
          None \<Rightarrow> []
        | Some a \<Rightarrow> if \<not> recorded \<and> (case pa_submitted_at a of None \<Rightarrow> False | Some t \<Rightarrow> t \<ge> start)
                    then [cg_charge_cents (pa_challenge a)] else [])))"

definition room :: "till_env \<Rightarrow> int \<Rightarrow> int \<Rightarrow> (till, bool) oper" where
  "room E cents moment = ask_state (\<lambda>s.
     and_then (spent E (tl_drawer s) (tl_policy s) moment) (\<lambda>n.
       Ok (n + cents < 2 ^ 64 \<and> n + cents \<le> fs_monthly_limit_cents (fp_settings (tl_policy s)))))"

definition settle_charge :: "till_env \<Rightarrow> (till, unit) oper" where
  "settle_charge E =
     bnd policy_of (\<lambda>p.
     bnd (ask_state (\<lambda>_. context_of (fp_pending p) ''top-up receipt missing'')) (\<lambda>a.
     bnd (ask_state (\<lambda>_. context_of (pa_submitted_at a) ''top-up submission time missing'')) (\<lambda>t.
     durable E (\<lambda>d. d\<lparr>dw_ledger := put_file (\<lambda>(i, c). (i, lg_id c))
       (fp_id p, \<lparr>lg_id = pa_id a, lg_submitted_at = t, lg_cents = cg_charge_cents (pa_challenge a)\<rparr>) (dw_ledger d)\<rparr>))))"

section \<open>Recovery\<close>

definition set_phase :: "phase \<Rightarrow> policy \<Rightarrow> policy" where
  "set_phase h p = p\<lparr>fp_pending := map_option (\<lambda>a. a\<lparr>pa_phase := h\<rparr>) (fp_pending p)\<rparr>"

definition in_phase :: "phase \<Rightarrow> policy \<Rightarrow> bool" where
  "in_phase h p = (case fp_pending p of None \<Rightarrow> False | Some a \<Rightarrow> pa_phase a = h)"

definition recover_policy :: "till_env \<Rightarrow> (till, unit) oper" where
  "recover_policy E =
     bnd policy_of (\<lambda>p.
     case fp_pending p of
       None \<Rightarrow> ret ()
     | Some a \<Rightarrow>
         when_op (pa_phase a = Submitting \<or> pa_phase a = Uncertain)
          (bnd (ask_state (\<lambda>s. Ok (has_response (pa_id a) (tl_drawer s)))) (\<lambda>found.
           thn (set_policy (\<lambda>p. if found then (set_phase Received p)\<lparr>fp_status := ''payment_received''\<rparr>
                                else (set_phase Uncertain p)\<lparr>fp_status := ''uncertain''\<rparr>))
               (write_policy E))))"

section \<open>A check\<close>

definition same_target :: "executor_config \<Rightarrow> executor_config \<Rightarrow> bool" where
  "same_target a b = (ec_kind a = ec_kind b \<and> ec_auth_mode a = ec_auth_mode b \<and> ec_base_url a = ec_base_url b \<and>
     ec_api_key_env a = ec_api_key_env b \<and> ec_account a = ec_account b)"

definition policy_key :: "till_env \<Rightarrow> policy \<Rightarrow> string result" where
  "policy_key E p =
     and_then (te_configuration E (fs_provider (fp_settings p))) (\<lambda>config.
     and_then (require (same_target config (fp_config p)) ''top-up provider configuration changed'') (\<lambda>_.
     and_then (te_key_hash E config) (\<lambda>h.
     and_then (require (h = Some (fp_credential_hash p)) ''top-up credential changed; explicitly configure the new identity'') (\<lambda>_.
     te_credential E (ec_api_key_env config)))))"

definition authorized_balance :: "till_env \<Rightarrow> string \<Rightarrow> string \<Rightarrow> (string \<times> int) result" where
  "authorized_balance E origin key =
     read_balance (\<lambda>path. and_then (authorization key None) (\<lambda>_. te_get E origin key path))"

definition check_balance :: "till_env \<Rightarrow> string \<Rightarrow> (till, int) oper" where
  "check_balance E key =
     bnd policy_of (\<lambda>p.
     bnd (ask_state (\<lambda>_. te_origin E (fp_config p))) (\<lambda>origin.
     bnd (ask_state (\<lambda>_. authorized_balance E origin key)) (\<lambda>(organization, units).
     thn (guard (organization = fp_organization_id p) ''top-up organization changed'')
    (thn (set_policy (\<lambda>p. p\<lparr>fp_balance_units := Some units\<rparr>))
         (ret units)))))"

definition prepare_topup :: "till_env \<Rightarrow> string \<Rightarrow> string \<Rightarrow> json \<Rightarrow> int \<Rightarrow> int \<Rightarrow> string \<Rightarrow> challenge result" where
  "prepare_topup E url key body amount cap terms =
     and_then (authorization key None) (\<lambda>header.
     and_then (te_quote E url header body) (\<lambda>r. challenge_response (te_lib E) r amount cap terms True))"

text \<open>
  \<^verbatim>\<open>pay_topup\<close>: the request is sent once its two headers are made. What comes back is the body, or
  an error after which the outcome is unknown.
\<close>

definition pay_topup :: "till_env \<Rightarrow> string \<Rightarrow> string \<Rightarrow> string \<Rightarrow> (till, string) oper" where
  "pay_topup E url key spt =
     bnd policy_of (\<lambda>p.
     bnd (ask_state (\<lambda>_. context_of (fp_pending p) ''top-up operation missing'')) (\<lambda>a.
     bnd (ask_state (\<lambda>_. payment_authorization (te_lib E) (pa_challenge a) spt)) (\<lambda>payment.
     bnd (ask_state (\<lambda>_. authorization key (Some payment))) (\<lambda>header.
     thn (modify (stored (\<lambda>d. d\<lparr>dw_posts := dw_posts d @
            [\<lparr>ps_policy = fp_id p, ps_attempt = pa_id a, ps_cents = cg_charge_cents (pa_challenge a),
              ps_at = unwrap_or (pa_submitted_at a) 0, ps_limit = fs_monthly_limit_cents (fp_settings p),
              ps_cap = fs_max_charge_cents (fp_settings p)\<rparr>]\<rparr>)))
         (bnd (ask_state (\<lambda>_. te_pay E url header (pa_body a))) (\<lambda>r.
          thn (guard (hr_status r = 200) ''Tuara top-up payment did not return success; do not retry automatically'')
              (ask_state (\<lambda>_. bounded_body r))))))))"

definition attempted :: "(till, 'a) oper \<Rightarrow> (till, 'a result) oper" where
  "attempted m = (\<lambda>s. case m s of (t, r) \<Rightarrow> (t, Ok r))"

text \<open>\<^verbatim>\<open>cancel_unsubmitted_wallet\<close>\<close>

definition cancel_unsubmitted :: "till_env \<Rightarrow> policy \<Rightarrow> unit result" where
  "cancel_unsubmitted E p =
     (case fp_pending p of
        None \<Rightarrow> Ok ()
      | Some a \<Rightarrow>
          if pa_submitted_at a \<noteq> None then Ok ()
          else case pa_spend_id a of None \<Rightarrow> Ok () | Some i \<Rightarrow> cancel_spend (te_wallet E) (pa_id a) i)"

text \<open>Cancel the wallet's authorization, forget the attempt and go on with the given status.\<close>

definition abandon :: "till_env \<Rightarrow> string \<Rightarrow> (till, unit) oper" where
  "abandon E status =
     bnd policy_of (\<lambda>p.
     thn (ask_state (\<lambda>_. cancel_unsubmitted E p))
         (set_policy (\<lambda>p. p\<lparr>fp_pending := None, fp_status := status\<rparr>)))"

definition finish_charge :: "till_env \<Rightarrow> (till, unit) oper" where
  "finish_charge E =
     bnd policy_of (\<lambda>p.
     bnd (ask_state (\<lambda>_. context_of (fp_pending p) ''saved top-up missing'')) (\<lambda>a.
     bnd (ask_state (\<lambda>s. context_of (map_of (dw_responses (tl_drawer s)) (pa_id a)) ''No such file or directory'')) (\<lambda>bytes.
     case validate_topup_response (te_lib E) bytes (pa_challenge a) of
       Inl e \<Rightarrow> set_policy (\<lambda>p. p\<lparr>fp_status := ''needs_attention''\<rparr>)
     | Inr summary \<Rightarrow>
         thn (settle_charge E)
             (set_policy (\<lambda>p. p\<lparr>fp_last_payment := Some summary, fp_pending := None,
                fp_status := (if fp_enabled p then ''watching'' else ''disabled''),
                fp_next_check_at := te_clock E 7 + 300\<rparr>)))))"

text \<open>A new quote, when the balance is low and the month has room for it.\<close>

definition new_attempt :: "till_env \<Rightarrow> string \<Rightarrow> string \<Rightarrow> (till, unit) oper" where
  "new_attempt E url key =
     bnd (check_balance E key) (\<lambda>available.
     bnd policy_of (\<lambda>p.
     if \<not> low (fp_settings p) available then set_policy (\<lambda>p. p\<lparr>fp_status := ''watching''\<rparr>)
     else
       bnd (room E (fs_amount_cents (fp_settings p)) (te_clock E 1)) (\<lambda>fits.
       if \<not> fits then set_policy (\<lambda>p. p\<lparr>fp_status := ''budget_exhausted''\<rparr>)
       else
         let body = jobj [(''amount_dollars'', JFloat (of_int (fs_amount_cents (fp_settings p)) / 100))] in
         bnd (ask_state (\<lambda>_. prepare_topup E url key body (fs_amount_cents (fp_settings p))
            (fs_max_charge_cents (fp_settings p)) (fs_terms_version (fp_settings p)))) (\<lambda>quote.
         bnd (room E (cg_charge_cents quote) (te_clock E 2)) (\<lambda>fits.
         if \<not> fits then set_policy (\<lambda>p. p\<lparr>fp_status := ''budget_exhausted''\<rparr>)
         else set_policy (\<lambda>p. p\<lparr>fp_pending := Some \<lparr>pa_id = te_attempt_id E (fp_id p), pa_body = body, pa_challenge = quote,
                pa_phase = Wallet, pa_spend_id = None, pa_approval_url = None, pa_wallet_status = None,
                pa_submitted_at = None\<rparr>, fp_status := ''awaiting_wallet''\<rparr>))))))"

definition update_pending :: "(funding \<Rightarrow> funding) \<Rightarrow> policy \<Rightarrow> policy" where
  "update_pending f p = p\<lparr>fp_pending := map_option f (fp_pending p)\<rparr>"

definition ask_wallet :: "till_env \<Rightarrow> funding \<Rightarrow> (till, unit) oper" where
  "ask_wallet E a =
     bnd policy_of (\<lambda>p.
     bnd (ask_state (\<lambda>_. create_for (te_wallet E) (pa_id a) (cg_network_id (pa_challenge a))
         (cg_charge_cents (pa_challenge a)) True (fs_test_mode (fp_settings p)))) (\<lambda>r.
     set_policy (\<lambda>p. (update_pending (\<lambda>a. a\<lparr>pa_spend_id := Some (sr_id r), pa_approval_url := sr_approval_url r,
       pa_wallet_status := Some (sr_status r), pa_phase := Approval\<rparr>) p)\<lparr>fp_status := ''awaiting_approval''\<rparr>)))"

text \<open>The charge itself: the submission is on the disk before the request is sent.\<close>

definition submit_charge :: "till_env \<Rightarrow> string \<Rightarrow> string \<Rightarrow> string \<Rightarrow> (till, unit) oper" where
  "submit_charge E url key spt =
     thn (set_policy (\<lambda>p. (update_pending (\<lambda>a. a\<lparr>pa_phase := Submitting, pa_submitted_at := Some (te_clock E 6)\<rparr>) p)
            \<lparr>fp_status := ''submitting''\<rparr>))
    (thn (write_policy E)
         (bnd (attempted (pay_topup E url key spt)) (\<lambda>reply.
          case reply of
            Inr bytes \<Rightarrow>
              bnd policy_of (\<lambda>p.
              thn (durable E (\<lambda>d. d\<lparr>dw_responses := put_file fst
                     (case fp_pending p of None \<Rightarrow> [] | Some a \<Rightarrow> pa_id a, bytes) (dw_responses d)\<rparr>))
                  (set_policy (\<lambda>p. (set_phase Received p)\<lparr>fp_status := ''payment_received''\<rparr>)))
          | Inl e \<Rightarrow> set_policy (\<lambda>p. (set_phase Uncertain p)\<lparr>fp_status := ''uncertain''\<rparr>))))"

definition approved_charge :: "till_env \<Rightarrow> string \<Rightarrow> string \<Rightarrow> string \<Rightarrow> (till, unit) oper" where
  "approved_charge E url key spt =
     bnd (check_balance E key) (\<lambda>available.
     bnd policy_of (\<lambda>p.
     if \<not> low (fp_settings p) available then abandon E ''watching''
     else
       bnd (ask_state (\<lambda>_. policy_key E p)) (\<lambda>again.
       thn (guard (again = key) ''top-up key changed before payment'')
      (bnd (ask_state (\<lambda>_. context_of (fp_pending p) ''top-up operation missing'')) (\<lambda>a.
       if cg_expires_at (pa_challenge a) \<le> te_clock E 4 then abandon E ''watching''
       else
         bnd (room E (cg_charge_cents (pa_challenge a)) (te_clock E 5)) (\<lambda>fits.
         if \<not> fits then abandon E ''budget_exhausted'' else submit_charge E url key spt))))))"

definition check_approval :: "till_env \<Rightarrow> string \<Rightarrow> string \<Rightarrow> funding \<Rightarrow> (till, unit) oper" where
  "check_approval E url key a =
     bnd (ask_state (\<lambda>_. context_of (pa_spend_id a) ''top-up wallet request missing'')) (\<lambda>spend.
     bnd (ask_state (\<lambda>_. retrieve_spend (te_wallet E) (pa_id a) spend (cg_network_id (pa_challenge a))
         (cg_charge_cents (pa_challenge a)))) (\<lambda>r.
     thn (set_policy (update_pending (\<lambda>a. a\<lparr>pa_approval_url := sr_approval_url r, pa_wallet_status := Some (sr_status r)\<rparr>)))
         (if sr_status r \<in> {''denied'', ''expired'', ''failed'', ''canceled''}
          then set_policy (\<lambda>p. p\<lparr>fp_enabled := False, fp_pending := None, fp_status := ''disabled''\<rparr>)
          else case (if sr_status r = ''approved'' then sr_token r else None) of
            None \<Rightarrow> ret ()
          | Some spt \<Rightarrow> approved_charge E url key spt)))"

definition advance :: "till_env \<Rightarrow> (till, unit) oper" where
  "advance E =
     bnd (ask_state (\<lambda>_. te_lock E)) (\<lambda>_.
     bnd policy_of (\<lambda>p.
     if in_phase Received p then finish_charge E
     else if \<not> fp_enabled p \<or> in_phase Uncertain p then ret ()
     else
       bnd (ask_state (\<lambda>_. policy_key E p)) (\<lambda>key.
       bnd (ask_state (\<lambda>_. te_origin E (fp_config p))) (\<lambda>origin.
       bnd (ask_state (\<lambda>_. te_topup_url E origin)) (\<lambda>url.
       case fp_pending p of
         None \<Rightarrow> new_attempt E url key
       | Some a \<Rightarrow>
           if cg_expires_at (pa_challenge a) \<le> te_clock E 3 then abandon E ''watching''
           else if pa_phase a = Wallet then ask_wallet E a
           else check_approval E url key a)))))"

definition checked_advance :: "till_env \<Rightarrow> (till, unit) oper" where
  "checked_advance E =
     thn (set_policy (\<lambda>p. p\<lparr>fp_next_check_at := te_clock E 0 + 60\<rparr>))
    (bnd (attempted (advance E)) (\<lambda>outcome.
     thn (when_op (\<not> is_ok outcome)
           (thn (recover_policy E)
                (set_policy (\<lambda>p. if in_phase Uncertain p \<or> in_phase Received p then p
                   else p\<lparr>fp_status := ''needs_attention''\<rparr>))))
         (write_policy E)))"

section \<open>Requests of the operator and ticks of the daemon\<close>

datatype request = Configure fund_settings | Status string | Disable string | Check string

definition load_policy :: "policy \<Rightarrow> (till, unit) oper" where
  "load_policy p = set_policy (\<lambda>_. p)"

definition saved_policies :: "drawer \<Rightarrow> policy list result" where
  "saved_policies d =
     and_then (require (list_all (\<lambda>p. fp_version p = 1) (dw_policies d)) ''unsupported top-up policy'') (\<lambda>_. Ok (dw_policies d))"

definition find_policy :: "till_env \<Rightarrow> string \<Rightarrow> string \<Rightarrow> drawer \<Rightarrow> policy result" where
  "find_policy E root_dir provider d =
     and_then (require (bounded_text provider 48) ''invalid provider name'') (\<lambda>_.
     let config = (case te_configuration E provider of Inl e \<Rightarrow> None | Inr c \<Rightarrow> Some c) in
     and_then (saved_policies d) (\<lambda>ps.
     case filter (\<lambda>p. fs_provider (fp_settings p) = provider \<or>
            (case config of None \<Rightarrow> False
             | Some c \<Rightarrow> ec_api_key_env c = ec_api_key_env (fp_config p) \<and> ec_base_url c = ec_base_url (fp_config p))) ps of
       [] \<Rightarrow> bail ''no automatic top-up policy; configure this provider first''
     | [p] \<Rightarrow> and_then (require (fp_root p = root_dir) ''top-up policy belongs to another runtime'') (\<lambda>_. Ok p)
     | _ \<Rightarrow> bail ''ambiguous provider top-up policies; use their configured names''))"

definition disable_policy :: "till_env \<Rightarrow> (till, unit) oper" where
  "disable_policy E =
     thn (set_policy (\<lambda>p. p\<lparr>fp_enabled := False\<rparr>))
    (bnd policy_of (\<lambda>p.
     thn (when_op (case fp_pending p of None \<Rightarrow> False | Some a \<Rightarrow> pa_submitted_at a = None)
           (case cancel_unsubmitted E p of
              Inr _ \<Rightarrow> set_policy (\<lambda>p. p\<lparr>fp_pending := None\<rparr>)
            | Inl e \<Rightarrow> set_policy (\<lambda>p. p\<lparr>fp_status := ''needs_attention''\<rparr>)))
    (thn (set_policy (\<lambda>p. if fp_pending p = None then p\<lparr>fp_status := ''disabled''\<rparr> else p))
         (write_policy E))))"

text \<open>The identity of a policy is the hash of the origin and the organization.\<close>

definition identity :: "till_env \<Rightarrow> string \<Rightarrow> string \<Rightarrow> string" where
  "identity E origin organization = te_sha256 E (te_origin_id E origin @ [CHR 0x0A] @ organization)"

definition unchanged_policy :: "policy \<Rightarrow> fund_settings \<Rightarrow> string \<Rightarrow> executor_config \<Rightarrow> bool" where
  "unchanged_policy p f fingerprint config =
     (fp_settings p = f \<and> fp_credential_hash p = fingerprint \<and> fp_enabled p \<and> same_target (fp_config p) config)"

text \<open>
  The policy that the identity has already: nothing to do when it is the same, else its last
  payment, provided that it has no unresolved charge.
\<close>

definition previous_policy :: "till_env \<Rightarrow> string \<Rightarrow> fund_settings \<Rightarrow> executor_config \<Rightarrow> string \<Rightarrow> string \<Rightarrow>
    (till, json option option) oper" where
  "previous_policy E root_dir f config fingerprint i =
     bnd (ask_state (\<lambda>s. Ok (find (\<lambda>q. fp_id q = i) (dw_policies (tl_drawer s))))) (\<lambda>found.
     case found of
       None \<Rightarrow> ret (Some None)
     | Some q \<Rightarrow>
         thn (guard (fp_version q = 1 \<and> fp_root q = root_dir) ''this organization policy belongs to another runtime'')
        (thn (load_policy q)
        (thn (recover_policy E)
        (bnd policy_of (\<lambda>q.
         if unchanged_policy q f fingerprint config then ret None
         else thn (guard (fp_pending q = None) ''an unresolved top-up already owns this organization'')
                  (ret (Some (fp_last_payment q))))))))"

definition configure :: "till_env \<Rightarrow> string \<Rightarrow> fund_settings \<Rightarrow> (till, unit) oper" where
  "configure E root_dir f =
     bnd (ask_state (\<lambda>_. validate_funding f)) (\<lambda>_.
     bnd (ask_state (\<lambda>_. te_configuration E (fs_provider f))) (\<lambda>config.
     thn (guard (ec_kind config = ''tuara'' \<and> ec_auth_mode config = ''api'' \<and> ec_account config = None)
            ''automatic top-ups require an unmanaged Tuara API provider'')
    (bnd (ask_state (\<lambda>_. te_origin E config)) (\<lambda>origin.
     bnd (ask_state (\<lambda>_. te_credential E (ec_api_key_env config))) (\<lambda>key.
     let fingerprint = te_sha256 E key in
     bnd (ask_state (\<lambda>_. te_key_hash E config)) (\<lambda>h.
     thn (guard (h = Some fingerprint) ''provider credential changed'')
    (bnd (ask_state (\<lambda>_. authorized_balance E origin key)) (\<lambda>(organization, units).
     let i = identity E origin organization in
     bnd (ask_state (\<lambda>s. saved_policies (tl_drawer s))) (\<lambda>ps.
     thn (guard (list_all (\<lambda>q. fp_id q = i \<or> (\<not> fp_enabled q \<and> fp_pending q = None) \<or>
              ec_api_key_env (fp_config q) \<noteq> ec_api_key_env config) ps)
            ''disable the old provider top-up policy before changing its organization'')
    (bnd (previous_policy E root_dir f config fingerprint i) (\<lambda>previous.
     case previous of
       None \<Rightarrow> ret ()
     | Some paid \<Rightarrow>
         thn (load_policy \<lparr>fp_version = 1, fp_id = i, fp_root = root_dir, fp_settings = f, fp_config = config,
                fp_credential_hash = fingerprint, fp_organization_id = organization, fp_enabled = True, fp_pending = None,
                fp_next_check_at = te_clock E 0, fp_balance_units = Some units, fp_status = ''watching'',
                fp_last_payment = paid\<rparr>)
             (write_policy E))))))))))))"

definition run_request :: "till_env \<Rightarrow> string \<Rightarrow> request \<Rightarrow> (till, unit) oper" where
  "run_request E root_dir r =
     (let on = (\<lambda>provider m.
            bnd (ask_state (\<lambda>s. find_policy E root_dir provider (tl_drawer s))) (\<lambda>p.
            thn (load_policy p) (thn (recover_policy E) m))) in
      case r of
        Configure f \<Rightarrow> configure E root_dir f
      | Status provider \<Rightarrow> on provider (ret ())
      | Disable provider \<Rightarrow> on provider (disable_policy E)
      | Check provider \<Rightarrow> on provider (checked_advance E))"

definition tick_policy :: "till_env \<Rightarrow> string \<Rightarrow> policy \<Rightarrow> (till, unit) oper" where
  "tick_policy E root_dir p =
     (if fp_root p \<noteq> root_dir \<or> fp_next_check_at p > te_clock E 8 then ret ()
      else
        thn (load_policy p)
       (thn (recover_policy E)
       (bnd policy_of (\<lambda>p.
        when_op (fp_enabled p \<or> in_phase Received p) (checked_advance E)))))"

definition topup_tick :: "till_env \<Rightarrow> string \<Rightarrow> (till, unit) oper" where
  "topup_tick E root_dir =
     bnd (ask_state (\<lambda>s. saved_policies (tl_drawer s))) (each_op (tick_policy E root_dir))"

end
