(* ===== verification/Payment_Facts.thy ===== *)
theory Payment_Facts
  imports Payment
begin

text \<open>
  The parser of payment challenges reads back what a provider prints, and an accepted challenge
  charges what its quote says, within the cap of the operator.
\<close>

section \<open>Round trip of the attributes\<close>

definition escape :: "string \<Rightarrow> string" where
  "escape v = concat (map (\<lambda>c. if c = CHR 0x22 \<or> c = CHR 0x5C then [CHR 0x5C, c] else [c]) v)"

definition print_attribute :: "string \<times> string \<Rightarrow> string" where
  "print_attribute a = fst a @ ''='' @ [CHR 0x22] @ escape (snd a) @ [CHR 0x22]"

definition print_challenge :: "(string \<times> string) list \<Rightarrow> string" where
  "print_challenge kvs = ''Payment '' @ join_with '', '' (map print_attribute kvs)"

lemma quoted_escape:
  "list_all (\<lambda>c. \<not> ascii_control c) v \<Longrightarrow> quoted False acc (escape v @ CHR 0x22 # r) = Ok (acc @ v, r)"
proof (induction v arbitrary: acc)
  case Nil
  then show ?case by (simp add: escape_def ascii_control_def)
next
  case (Cons c v)
  have "\<not> ascii_control (CHR 0x5C)" by (simp add: ascii_control_def)
  then show ?case using Cons by (auto simp: escape_def)
qed

lemma attribute_char_facts: "attribute_char c \<Longrightarrow> \<not> white c \<and> c \<noteq> CHR ''='' \<and> c \<noteq> CHR 0x22 \<and> c \<noteq> CHR '' '' \<and> c \<noteq> CHR '',''"
  by (auto simp: attribute_char_def white_def ascii_alnum_def Let_def)

definition plain_attribute :: "string \<times> string \<Rightarrow> bool" where
  "plain_attribute a = (fst a \<noteq> [] \<and> list_all attribute_char (fst a) \<and> list_all (\<lambda>c. \<not> ascii_control c) (snd a))"

lemma white_not_quote: "\<not> white (CHR 0x22)" "\<not> white (CHR '','')" "white (CHR '' '')"
  by (simp_all add: white_def)

lemma trim_start_white: "white c \<Longrightarrow> trim_start (c # s) = trim_start s"
  by (simp add: trim_start_def)

lemma one_attribute_print:
  assumes p: "plain_attribute a" and new: "\<not> has_attribute (fst a) found" and ws: "list_all white ws"
  shows "one_attribute found (ws @ print_attribute a @ r) = Ok (fst a, snd a, trim_start r)"
proof -
  have n: "fst a \<noteq> []" "list_all attribute_char (fst a)" using p by (auto simp: plain_attribute_def)
  have "trim_start (ws @ print_attribute a @ r) = trim_start (print_attribute a @ r)"
    using ws by (induction ws) (auto simp: trim_start_white)
  also have "\<dots> = print_attribute a @ r"
    using n by (intro trim_start_nonwhite) (cases "fst a", auto simp: print_attribute_def attribute_char_facts)
  also have "\<dots> = fst a @ CHR ''='' # CHR 0x22 # escape (snd a) @ CHR 0x22 # r" by (simp add: print_attribute_def)
  finally have s: "trim_start (ws @ print_attribute a @ r) = fst a @ CHR ''='' # CHR 0x22 # escape (snd a) @ CHR 0x22 # r" .
  have "CHR ''='' \<notin> set (fst a)" using n by (auto simp: list_all_iff dest: attribute_char_facts)
  note sp = split_once_join [OF this]
  have "trim_end (fst a) = fst a"
    using n by (intro trim_end_nonwhite) (auto simp: list_all_iff attribute_char_facts)
  moreover have "trim_start (CHR 0x22 # escape (snd a) @ CHR 0x22 # r) = CHR 0x22 # escape (snd a) @ CHR 0x22 # r"
    by (intro trim_start_nonwhite) (simp add: white_not_quote)
  moreover have "quoted False [] (escape (snd a) @ CHR 0x22 # r) = Ok (snd a, r)"
    using quoted_escape [of "snd a" "[]" r] p by (simp add: plain_attribute_def)
  ultimately show ?thesis using n new by (simp add: one_attribute_def s sp Let_def strip_prefix_def)
qed

fun unlike :: "(string \<times> string) list \<Rightarrow> bool" where
  "unlike [] = True"
| "unlike (a # as) = (list_all (\<lambda>b. \<not> same_ignoring_case (fst a) (fst b)) as \<and> unlike as)"

lemma set_bt_insert_keys: "fst ` set (bt_insert k v m) \<subseteq> insert k (fst ` set m)"
  by (induction k v m rule: bt_insert.induct) auto

lemma has_attribute_iff: "has_attribute n m = (\<exists>k \<in> fst ` set m. same_ignoring_case k n)"
  by (simp add: has_attribute_def list_ex_iff case_prod_beta)

lemma has_attribute_insert:
  "\<not> has_attribute n m \<Longrightarrow> \<not> same_ignoring_case k n \<Longrightarrow> \<not> has_attribute n (bt_insert k v m)"
  unfolding has_attribute_iff using set_bt_insert_keys [of k v m] by blast

lemma attribute_list_print:
  assumes "kvs \<noteq> []" and "list_all plain_attribute kvs" and "unlike kvs"
    and "list_all (\<lambda>a. \<not> has_attribute (fst a) found) kvs" and "list_all white ws"
  shows "attribute_list found (ws @ join_with '', '' (map print_attribute kvs)) = Ok (fold (\<lambda>(n, v) m. bt_insert n v m) kvs found)"
  using assms
proof (induction kvs arbitrary: found ws)
  case Nil
  then show ?case by simp
next
  case (Cons a kvs)
  note first = one_attribute_print [of a found ws]
  let ?m = "bt_insert (fst a) (snd a) found"
  show ?case
  proof (cases kvs)
    case Nil
    have "attribute_list found (ws @ print_attribute a) = Ok ?m"
      using first [of "[]"] Cons.prems by (subst attribute_list.simps) (simp add: trim_start_def Let_def)
    then show ?thesis using Nil by (simp add: case_prod_beta)
  next
    case (Cons b rest)
    let ?r = "'', '' @ join_with '', '' (map print_attribute kvs)"
    have "one_attribute found (ws @ print_attribute a @ ?r) = Ok (fst a, snd a, ?r)"
      using first [of ?r] Cons.prems by (simp add: trim_start_nonwhite white_not_quote)
    then have "attribute_list found (ws @ print_attribute a @ ?r) =
        attribute_list ?m ('' '' @ join_with '', '' (map print_attribute kvs))"
      by (subst attribute_list.simps) (simp add: strip_prefix_def Let_def)
    also have "\<dots> = Ok (fold (\<lambda>(n, v) m. bt_insert n v m) kvs ?m)"
    proof (rule Cons.IH)
      show "list_all (\<lambda>q. \<not> has_attribute (fst q) ?m) kvs"
        unfolding list_all_iff
      proof
        fix q assume q: "q \<in> set kvs"
        then have "\<not> has_attribute (fst q) found" "\<not> same_ignoring_case (fst a) (fst q)"
          using Cons.prems by (simp_all add: list_all_iff)
        then show "\<not> has_attribute (fst q) ?m" by (rule has_attribute_insert)
      qed
    qed (use Cons.prems Cons in \<open>auto simp: white_not_quote\<close>)
    finally show ?thesis using Cons by (simp add: split_def)
  qed
qed

lemma find_attribute_unlike:
  assumes "map_of m = map_of kvs" and "unlike kvs" and "(n, v) \<in> set kvs"
    and "\<And>k w. (k, w) \<in> set m \<Longrightarrow> map_of m k = Some w"
  shows "find_attribute m n = Some v"
proof -
  have uniq: "k = n \<and> w = v" if "(k, w) \<in> set kvs" "same_ignoring_case k n" for k w
    using assms(2,3) that by (induction kvs) (auto simp: list_all_iff same_ignoring_case_def)
  have same: "k = n \<and> w = v" if "(k, w) \<in> set m" "same_ignoring_case k n" for k w
    using uniq [of k w] map_of_SomeD [of kvs k w] that assms(1,4) by auto
  have "map_of kvs n = Some v"
    using assms(3) uniq map_of_SomeD [of kvs n] weak_map_of_SomeI [of n v kvs] by (metis option.exhaust same_ignoring_case_refl not_None_eq)
  then have "(n, v) \<in> set m" using assms(1) map_of_SomeD by metis
  then obtain a where "find (\<lambda>(k, _). same_ignoring_case k n) m = Some a"
    by (cases "find (\<lambda>(k, _). same_ignoring_case k n) m") (auto simp: find_None_iff)
  moreover from this have "a \<in> set m \<and> same_ignoring_case (fst a) n"
    by (auto simp: find_Some_iff split_def)
  ultimately show ?thesis using same [of "fst a" "snd a"] by (simp add: find_attribute_def)
qed

lemma fold_insert_facts:
  "bt_ok m \<Longrightarrow> distinct (map fst kvs) \<Longrightarrow> (\<And>k. k \<in> fst ` set kvs \<Longrightarrow> map_of m k = None) \<Longrightarrow>
   bt_ok (fold (\<lambda>(n, v) m. bt_insert n v m) kvs m) \<and>
   map_of (fold (\<lambda>(n, v) m. bt_insert n v m) kvs m) = map_of m ++ map_of kvs"
proof (induction kvs arbitrary: m)
  case Nil
  then show ?case by simp
next
  case (Cons a kvs)
  let ?m = "bt_insert (fst a) (snd a) m"
  have "bt_ok (fold (\<lambda>(n, v) m. bt_insert n v m) kvs ?m) \<and>
      map_of (fold (\<lambda>(n, v) m. bt_insert n v m) kvs ?m) = map_of ?m ++ map_of kvs"
    by (rule Cons.IH) (use Cons.prems in \<open>auto simp: bt_ok_insert image_iff\<close>)
  moreover have "map_of ?m ++ map_of kvs = map_of m ++ map_of (a # kvs)"
  proof -
    have "map_of kvs (fst a) = None" using Cons.prems(2) by (simp add: map_of_eq_None_iff)
    then show ?thesis by (cases a) (auto simp: map_add_def fun_eq_iff split: option.split)
  qed
  ultimately show ?case by (simp only: fold_simps split_def)
qed

lemma unlike_distinct: "unlike kvs \<Longrightarrow> distinct (map fst kvs)"
proof (induction kvs)
  case Nil
  then show ?case by simp
next
  case (Cons a kvs)
  then have "fst a \<noteq> fst b" if "b \<in> set kvs" for b
    using that by (auto simp: list_all_iff same_ignoring_case_def)
  then show ?case using Cons by auto
qed

lemma trim_print: "kvs \<noteq> [] \<Longrightarrow> trim (print_challenge kvs) = print_challenge kvs"
proof -
  assume "kvs \<noteq> []"
  then have "\<exists>s. join_with '', '' (map print_attribute kvs) = s @ [CHR 0x22]"
  proof (induction kvs)
    case (Cons a kvs)
    then show ?case by (cases kvs) (auto simp: print_attribute_def)
  qed simp
  then obtain s where s: "print_challenge kvs = ''Payment '' @ s @ [CHR 0x22]" by (auto simp: print_challenge_def)
  have "trim_start (print_challenge kvs) = print_challenge kvs"
    by (rule trim_start_nonwhite) (simp add: s white_def)
  moreover have "trim_end (print_challenge kvs) = print_challenge kvs"
    by (rule trim_end_nonwhite) (simp add: s white_not_quote)
  ultimately show ?thesis by (simp add: trim_def)
qed

text \<open>
  C33. What a provider prints, the parser reads. A payment challenge printed from any list of
  attributes with well-formed names that differ when case is ignored, and with values free of
  control characters (quotes and backslashes escaped), parses to a map that gives every
  attribute its value, whatever the case of the name asked for.
\<close>

theorem challenge_round_trip:
  assumes "kvs \<noteq> []" and "list_all plain_attribute kvs" and "unlike kvs"
    and "len (print_challenge kvs) \<le> size_limit"
  shows "\<exists>m. attributes_of (print_challenge kvs) = Ok m \<and> map_of m = map_of kvs \<and>
    (\<forall>(n, v) \<in> set kvs. find_attribute m n = Some v)"
proof -
  let ?m = "fold (\<lambda>(n, v) m. bt_insert n v m) kvs []"
  have "split_once (CHR '' '') (print_challenge kvs) = Some (''Payment'', join_with '', '' (map print_attribute kvs))"
    unfolding print_challenge_def using split_once_join [of "CHR '' ''" "''Payment''"] by simp
  moreover have "attribute_list [] (join_with '', '' (map print_attribute kvs)) = Ok ?m"
    using attribute_list_print [of kvs "[]" "[]"] assms by (simp add: has_attribute_def list_all_iff)
  ultimately have "attributes_of (print_challenge kvs) = Ok ?m"
    using assms(4) by (simp add: attributes_of_def trim_print [OF assms(1)])
  moreover have f: "bt_ok ?m" "map_of ?m = map_of kvs"
    using fold_insert_facts [of "[]" kvs] unlike_distinct [OF assms(3)] by (auto simp: bt_ok_def bt_keys_def)
  moreover have "map_of ?m k = Some w" if "(k, w) \<in> set ?m" for k w
    using f(1) that by (intro map_of_is_SomeI) (auto simp: bt_ok_def bt_keys_def simp: strict_sorted_iff)
  then have "\<forall>(n, v) \<in> set kvs. find_attribute ?m n = Some v"
    using find_attribute_unlike [of ?m kvs] assms(3) f(2) by blast
  ultimately show ?thesis by blast
qed

lemma challenge_round_trip_witness:
  "\<exists>m. attributes_of (print_challenge [(''id'', ''a'' @ [CHR 0x22, CHR 0x5C]), (''Realm'', ''tuara.com, x=y'')]) = Ok m \<and>
     find_attribute m ''id'' = Some (''a'' @ [CHR 0x22, CHR 0x5C]) \<and> find_attribute m ''Realm'' = Some ''tuara.com, x=y''"
  using challenge_round_trip [of "[(''id'', ''a'' @ [CHR 0x22, CHR 0x5C]), (''Realm'', ''tuara.com, x=y'')]"]
  by (fastforce simp: plain_attribute_def attribute_char_def ascii_alnum_def ascii_control_def same_ignoring_case_def
      ascii_lower_def print_challenge_def print_attribute_def escape_def size_limit_def len_def Let_def)

section \<open>Amounts\<close>

lemma div_ceil_bounds: "0 < d \<Longrightarrow> n \<le> div_ceil n d * d \<and> div_ceil n d * d < n + d"
proof -
  assume d: "0 < d"
  have "n div d * d = n - n mod d" "0 \<le> n mod d" "n mod d < d" using d by (simp_all add: minus_mod_eq_div_mult)
  then show ?thesis by (auto simp: div_ceil_def distrib_right)
qed

lemma ensure_all_Ok: "ensure_all rs m = Ok u \<longleftrightarrow> (\<forall>r \<in> set rs. r = Ok True)"
proof -
  have "all_of rs = Ok True \<longleftrightarrow> (\<forall>r \<in> set rs. r = Ok True)"
    by (induction rs) (auto simp: and_then_Ok_iff)
  then show ?thesis by (auto simp: ensure_all_def and_then_Ok_iff)
qed

lemma same_value_Ok: "same_value a b = Ok True \<longleftrightarrow> (\<exists>x. a = Ok x \<and> b = Ok x)"
  by (auto simp: same_value_def and_then_Ok_iff)

lemma quote_amounts_Ok:
  assumes "quote_amounts request body amount cap = Ok (charge, credit, fee)"
  shows "\<exists>points. field_number body ''fee_basis_points'' = Ok points \<and> credit = amount * 1000000 \<and>
    fee = div_ceil (credit * points) 10000 \<and> charge = div_ceil (credit + fee) 1000000 \<and> charge \<le> cap \<and>
    field_number body ''charge_cents'' = Ok charge"
  using assms
  by (auto simp: quote_amounts_def and_then_Ok_iff ensure_all_Ok same_value_Ok Let_def checked_def invalid_response_def
      split: if_splits sum.splits)

lemma parse_challenge_kind_Ok:
  assumes "parse_challenge_kind L header body amount cap terms topup = Ok c"
  shows "\<exists>request. quote_amounts request body amount cap = Ok (cg_charge_cents c, cg_credit_units c, cg_fee_units c)"
  using assms by (auto simp: parse_challenge_kind_def and_then_Ok_iff)

lemma challenge_response_Ok:
  assumes "challenge_response L r amount cap terms topup = Ok c"
  shows "\<exists>v body. parse_challenge_kind L v body amount cap terms topup = Ok c"
proof (cases "hr_challenges r")
  case Nil
  then show ?thesis using assms by (simp add: challenge_response_def and_then_Ok_iff)
next
  case (Cons h hs)
  then show ?thesis using assms by (cases hs) (auto simp: challenge_response_def and_then_Ok_iff)
qed

text \<open>
  C34. An accepted challenge charges what the quote says. Its credit is the amount asked for, its
  fee is the declared percentage of the credit rounded up, its charge is credit and fee rounded
  up to whole cents, less than a cent above them, and never above the cap of the operator.
\<close>

theorem charge_within_cap:
  assumes "challenge_response L r amount cap terms topup = Ok c"
  shows "\<exists>body points. field_number body ''fee_basis_points'' = Ok points \<and> cg_credit_units c = amount * 1000000 \<and>
    cg_credit_units c * points \<le> cg_fee_units c * 10000 \<and> cg_fee_units c * 10000 < cg_credit_units c * points + 10000 \<and>
    cg_credit_units c + cg_fee_units c \<le> cg_charge_cents c * 1000000 \<and>
    cg_charge_cents c * 1000000 < cg_credit_units c + cg_fee_units c + 1000000 \<and> cg_charge_cents c \<le> cap"
proof -
  obtain v body where "parse_challenge_kind L v body amount cap terms topup = Ok c"
    using challenge_response_Ok [OF assms] by blast
  from parse_challenge_kind_Ok [OF this] obtain request
    where "quote_amounts request body amount cap = Ok (cg_charge_cents c, cg_credit_units c, cg_fee_units c)" ..
  from quote_amounts_Ok [OF this] obtain points where q: "field_number body ''fee_basis_points'' = Ok points" "cg_credit_units c = amount * 1000000"
      "cg_fee_units c = div_ceil (cg_credit_units c * points) 10000"
      "cg_charge_cents c = div_ceil (cg_credit_units c + cg_fee_units c) 1000000" "cg_charge_cents c \<le> cap"
    by blast
  show ?thesis
  proof (intro exI conjI)
    show "cg_credit_units c * points \<le> cg_fee_units c * 10000" "cg_fee_units c * 10000 < cg_credit_units c * points + 10000"
      using div_ceil_bounds [of 10000 "cg_credit_units c * points"] unfolding q(3) by simp_all
    show "cg_credit_units c + cg_fee_units c \<le> cg_charge_cents c * 1000000"
      "cg_charge_cents c * 1000000 < cg_credit_units c + cg_fee_units c + 1000000"
      using div_ceil_bounds [of 1000000 "cg_credit_units c + cg_fee_units c"] unfolding q(4) by simp_all
  qed (use q in auto)
qed

definition quoted_reply :: http_reply where
  "quoted_reply = \<lparr>hr_status = 402,
     hr_challenges = [Some (print_challenge [(''id'', ''c1''), (''realm'', ''tuara''), (''method'', ''stripe''), (''intent'', ''charge''), (''request'', ''r'')])],
     hr_length = None, hr_chunks = [Ok ''body'']\<rparr>"

definition quoting :: payment_lib where
  "quoting = \<lparr>pl_json = (\<lambda>_. Some (JObj [(''challenge_id'', JStr ''x''), (''charge_cents'', JInt 2048), (''credit_units'', JInt 2000000000),
       (''fee_basis_points'', JInt 240), (''fee_units'', JInt 48000000)])),
     pl_decode = (\<lambda>_. Some (JObj [(''amount'', JStr ''2048''), (''currency'', JStr ''usd''), (''externalId'', JStr ''x''),
       (''methodDetails'', JObj [(''networkId'', JStr ''profile_test''), (''paymentMethodTypes'', JArr [JStr ''card''])])])),
     pl_encode = (\<lambda>_. ''e''), pl_rfc3339 = (\<lambda>_. None), pl_now = 100\<rparr>"

lemma charge_within_cap_witness:
  "\<exists>c. challenge_response quoting quoted_reply 2000 2048 ''terms'' True = Ok c \<and> cg_charge_cents c \<le> 2048 \<and>
     cg_credit_units c = 2000000000"
proof -
  have "is_ok (challenge_response quoting quoted_reply 2000 2048 ''terms'' True)" by code_simp
  then obtain c where "challenge_response quoting quoted_reply 2000 2048 ''terms'' True = Ok c" by (auto simp: is_ok_iff)
  with charge_within_cap [OF this] show ?thesis by auto
qed

end
