(* ===== verification/Topup_Facts.thy ===== *)
theory Topup_Facts
  imports Topup Payment_Facts
begin

text \<open>
  No charge is sent twice and the month's limit holds, whatever the requests, the replies of the
  provider and the wallet, the failures of the disk and the moments at which the program stops.
\<close>

section \<open>Ranges\<close>

text \<open>\<open>upto P Q m\<close>: from a state with \<open>P\<close>, every outcome of \<open>m\<close> leaves a state with \<open>Q\<close>.\<close>

definition upto :: "('s \<Rightarrow> bool) \<Rightarrow> ('s \<Rightarrow> bool) \<Rightarrow> ('s, 'a) oper \<Rightarrow> bool" where
  "upto P Q m = (\<forall>s. P s \<longrightarrow> Q (fst (m s)))"

lemma uptoI: "(\<And>s. P s \<Longrightarrow> Q (fst (m s))) \<Longrightarrow> upto P Q m"
  by (simp add: upto_def)

lemma upto_bnd:
  assumes "upto P R m" and "\<And>s. R s \<Longrightarrow> Q s" and "\<And>x. upto R Q (f x)"
  shows "upto P Q (bnd m f)"
  using assms unfolding upto_def bnd_def
  by (fastforce split: prod.split sum.split)

lemma upto_keeps: "keeps P m \<Longrightarrow> (\<And>s. P s \<Longrightarrow> Q s) \<Longrightarrow> upto P Q m"
  by (simp add: upto_def keeps_def)

lemma upto_weaken: "upto P Q m \<Longrightarrow> (\<And>s. P' s \<Longrightarrow> P s) \<Longrightarrow> (\<And>s. Q s \<Longrightarrow> Q' s) \<Longrightarrow> upto P' Q' m"
  by (simp add: upto_def)

lemma upto_thn: "upto P R m \<Longrightarrow> (\<And>s. R s \<Longrightarrow> Q s) \<Longrightarrow> upto R Q n \<Longrightarrow> upto P Q (thn m n)"
  unfolding thn_def by (rule upto_bnd)

lemma upto_ask: "(\<And>s. P s \<Longrightarrow> Q s) \<Longrightarrow> (\<And>x. upto (\<lambda>s. P s \<and> f s = Ok x) Q (g x)) \<Longrightarrow> upto P Q (bnd (ask_state f) g)"
  by (auto simp: upto_def ask_then split: sum.split)

lemma upto_thn_ask: "(\<And>s. P s \<Longrightarrow> Q s) \<Longrightarrow> (\<And>x. upto (\<lambda>s. P s \<and> f s = Ok x) Q n) \<Longrightarrow> upto P Q (thn (ask_state f) n)"
  unfolding thn_def by (rule upto_ask)

lemma upto_guard: "(\<And>s. P s \<Longrightarrow> Q s) \<Longrightarrow> (b \<Longrightarrow> upto P Q n) \<Longrightarrow> upto P Q (thn (guard b m) n)"
  by (auto simp: upto_def thn_def bnd_def guard_def require_def)

lemma upto_if: "(b \<Longrightarrow> upto P Q m) \<Longrightarrow> (\<not> b \<Longrightarrow> upto P Q n) \<Longrightarrow> upto P Q (if b then m else n)"
  by simp

lemma upto_prod: "(\<And>a b. upto P Q (f a b)) \<Longrightarrow> upto P Q (case x of (a, b) \<Rightarrow> f a b)"
  by (cases x) simp

lemma upto_ret: "(\<And>s. P s \<Longrightarrow> Q s) \<Longrightarrow> upto P Q (ret x)"
  by (simp add: upto_def ret_def)

lemma upto_modify: "(\<And>s. P s \<Longrightarrow> Q (f s)) \<Longrightarrow> upto P Q (modify f)"
  by (simp add: upto_def modify_def)

section \<open>Safe directories\<close>

definition in_ledger :: "drawer \<Rightarrow> post \<Rightarrow> bool" where
  "in_ledger d q = ((ps_policy q, \<lparr>lg_id = ps_attempt q, lg_submitted_at = ps_at q, lg_cents = ps_cents q\<rparr>) \<in> set (dw_ledger d))"

definition attempts_posted :: "drawer \<Rightarrow> string set" where
  "attempts_posted d = ps_attempt ` set (dw_posts d)"

definition pending_id :: "policy \<Rightarrow> string option" where
  "pending_id p = map_option pa_id (fp_pending p)"

text \<open>A payment request of a policy is its pending charge or is in the ledger.\<close>

definition accounted :: "drawer \<Rightarrow> policy \<Rightarrow> bool" where
  "accounted d p = (\<forall>q \<in> set (dw_posts d). ps_policy q = fp_id p \<longrightarrow>
     (case fp_pending p of
        None \<Rightarrow> in_ledger d q
      | Some a \<Rightarrow> if pa_id a = ps_attempt q
                  then pa_submitted_at a = Some (ps_at q) \<and> cg_charge_cents (pa_challenge a) = ps_cents q
                  else in_ledger d q))"

text \<open>A pending charge has been submitted in the last three phases only, and within its cap.\<close>

definition pending_ok :: "drawer \<Rightarrow> policy \<Rightarrow> bool" where
  "pending_ok d p = (\<forall>a. fp_pending p = Some a \<longrightarrow>
     (pa_submitted_at a = None \<longleftrightarrow> pa_phase a = Wallet \<or> pa_phase a = Approval) \<and>
     (pa_submitted_at a = None \<longrightarrow> pa_id a \<notin> attempts_posted d) \<and>
     0 \<le> cg_charge_cents (pa_challenge a) \<and> cg_charge_cents (pa_challenge a) \<le> fs_max_charge_cents (fp_settings p))"

definition policy_safe :: "drawer \<Rightarrow> policy \<Rightarrow> bool" where
  "policy_safe d p = (accounted d p \<and> pending_ok d p)"

text \<open>The limit of the month at the time of a request, over the requests up to it.\<close>

definition within_limit :: "(int \<Rightarrow> int result) \<Rightarrow> post list \<Rightarrow> post \<Rightarrow> bool" where
  "within_limit ms before q =
     (ps_cents q \<le> ps_cap q \<and>
      (\<forall>start. ms (ps_at q) = Ok start \<longrightarrow>
         sum_list (map ps_cents (filter (\<lambda>r. ps_policy r = ps_policy q \<and> start \<le> ps_at r) (before @ [q]))) \<le> ps_limit q))"

definition limits_hold :: "(int \<Rightarrow> int result) \<Rightarrow> post list \<Rightarrow> bool" where
  "limits_hold ms ps = (\<forall>n < length ps. within_limit ms (take n ps) (ps ! n))"

lemma limits_hold_snoc: "limits_hold ms (ps @ [q]) \<longleftrightarrow> limits_hold ms ps \<and> within_limit ms ps q"
  by (auto simp: limits_hold_def nth_append less_Suc_eq)

definition apart :: "policy \<Rightarrow> policy \<Rightarrow> bool" where
  "apart p q = (fp_id p \<noteq> fp_id q \<longrightarrow> pending_id p = None \<or> pending_id p \<noteq> pending_id q)"

definition safe :: "(int \<Rightarrow> int result) \<Rightarrow> drawer \<Rightarrow> bool" where
  "safe ms d =
     ((\<forall>p \<in> set (dw_policies d). policy_safe d p) \<and> distinct (map fp_id (dw_policies d)) \<and>
      (\<forall>p \<in> set (dw_policies d). \<forall>q \<in> set (dw_policies d). apart p q) \<and>
      distinct (map ps_attempt (dw_posts d)) \<and>
      (\<forall>q \<in> set (dw_posts d). ps_policy q \<in> fp_id ` set (dw_policies d) \<and> 0 \<le> ps_cents q) \<and>
      (\<forall>(i, c) \<in> set (dw_ledger d). 0 \<le> lg_cents c) \<and>
      limits_hold ms (dw_posts d))"

section \<open>Safe runs\<close>

text \<open>The ids that a run can draw for new attempts are unused.\<close>

definition drawn :: "till_env \<Rightarrow> string set" where
  "drawn E = range (te_attempt_id E)"

definition tagged :: "till_env \<Rightarrow> policy \<Rightarrow> bool" where
  "tagged E p = (\<forall>i. pending_id p = Some i \<longrightarrow> i \<in> drawn E \<longrightarrow> i = te_attempt_id E (fp_id p))"

definition old_pending :: "till_env \<Rightarrow> policy \<Rightarrow> bool" where
  "old_pending E p = (\<forall>i. pending_id p = Some i \<longrightarrow> i \<notin> drawn E)"

definition loaded :: "till_env \<Rightarrow> drawer \<Rightarrow> policy \<Rightarrow> bool" where
  "loaded E d p = (policy_safe d p \<and> (\<forall>q \<in> set (dw_policies d). apart p q) \<and> tagged E p)"

definition calm :: "(int \<Rightarrow> int result) \<Rightarrow> till_env \<Rightarrow> till \<Rightarrow> bool" where
  "calm ms E s =
     (safe ms (tl_drawer s) \<and> (\<forall>e \<in> set (tl_trail s). safe ms e) \<and> attempts_posted (tl_drawer s) \<inter> drawn E = {} \<and>
      (\<forall>q \<in> set (dw_policies (tl_drawer s)). tagged E q))"

definition steady_till :: "(int \<Rightarrow> int result) \<Rightarrow> till_env \<Rightarrow> till \<Rightarrow> bool" where
  "steady_till ms E s = (calm ms E s \<and> loaded E (tl_drawer s) (tl_policy s))"

definition sound_env :: "(int \<Rightarrow> int result) \<Rightarrow> till_env \<Rightarrow> bool" where
  "sound_env ms E =
     (te_month_start E = ms \<and> te_clock E 5 \<le> te_clock E 6 \<and> inj (te_attempt_id E) \<and>
      (\<forall>a b m n. a \<le> b \<longrightarrow> ms a = Ok m \<longrightarrow> ms b = Ok n \<longrightarrow> m \<le> n))"

lemma loaded_cong:
  "fp_id q = fp_id p \<Longrightarrow> fp_pending q = fp_pending p \<Longrightarrow> fp_settings q = fp_settings p \<Longrightarrow> loaded E d q = loaded E d p"
  by (simp add: loaded_def policy_safe_def accounted_def pending_ok_def apart_def tagged_def pending_id_def)

lemma keeps_set_policy:
  assumes "\<And>d p. loaded E d p \<Longrightarrow> loaded E d (f p)"
  shows "keeps (steady_till ms E) (set_policy f)"
  unfolding set_policy_def by (rule keeps_modify) (use assms in \<open>auto simp: steady_till_def calm_def\<close>)

lemma put_file_facts:
  "set (put_file key row rows) = insert row {r \<in> set rows. key r \<noteq> key row}"
  "distinct (map key rows) \<Longrightarrow> distinct (map key (put_file key row rows))"
  by (auto simp: put_file_def distinct_map inj_on_def)

lemma put_file_keys: "key ` set (put_file key row rows) = insert (key row) (key ` set rows)"
  by (auto simp: put_file_def)

lemma apart_refl [simp]: "apart p p"
  by (simp add: apart_def)

lemma apart_sym: "apart p q \<longleftrightarrow> apart q p"
  by (auto simp: apart_def)

text \<open>Writing the loaded policy.\<close>

lemma policy_safe_policies [simp]: "policy_safe (d\<lparr>dw_policies := ps\<rparr>) p = policy_safe d p"
  by (simp add: policy_safe_def accounted_def pending_ok_def in_ledger_def attempts_posted_def cong: option.case_cong)

lemma safe_write:
  assumes "safe ms d" and "loaded E d p"
  shows "safe ms (d\<lparr>dw_policies := put_file fp_id p (dw_policies d)\<rparr>)"
proof -
  have "\<forall>x \<in> set (put_file fp_id p (dw_policies d)). \<forall>y \<in> set (put_file fp_id p (dw_policies d)). apart x y"
    using assms by (auto simp: safe_def loaded_def put_file_facts apart_sym)
  then show ?thesis
    using assms unfolding safe_def loaded_def
    by (simp add: put_file_keys put_file_facts(2)) (simp add: put_file_facts(1))
qed

lemma loaded_write: "loaded E d p \<Longrightarrow> loaded E (d\<lparr>dw_policies := put_file fp_id p (dw_policies d)\<rparr>) p"
  by (auto simp: loaded_def put_file_facts apart_def)

lemma attempts_posted_update [simp]:
  "attempts_posted (d\<lparr>dw_policies := ps\<rparr>) = attempts_posted d" "attempts_posted (d\<lparr>dw_ledger := l\<rparr>) = attempts_posted d"
  "attempts_posted (d\<lparr>dw_responses := r\<rparr>) = attempts_posted d"
  by (simp_all add: attempts_posted_def)

lemma steady_stored:
  assumes "steady_till ms E s" and "safe ms (f (tl_drawer s))" and "loaded E (f (tl_drawer s)) (tl_policy s)"
    and "attempts_posted (f (tl_drawer s)) \<inter> drawn E = {}" and "\<forall>q \<in> set (dw_policies (f (tl_drawer s))). tagged E q"
  shows "steady_till ms E (stored f s)"
  using assms by (auto simp: steady_till_def calm_def stored_def Let_def)

lemma durable_upto:
  assumes "\<And>s n. P s \<Longrightarrow> Q (s\<lparr>tl_writes := n\<rparr>)" and "\<And>s n. P s \<Longrightarrow> Q (stored f (s\<lparr>tl_writes := n\<rparr>))"
  shows "upto P Q (durable E f)"
  by (rule uptoI) (auto simp: durable_def Let_def assms split: disk.split)

lemma steady_writes [simp]: "steady_till ms E (s\<lparr>tl_writes := n\<rparr>) = steady_till ms E s"
  by (simp add: steady_till_def calm_def)

lemma keeps_durable:
  assumes "\<And>s. steady_till ms E s \<Longrightarrow> steady_till ms E (stored f s)"
  shows "keeps (steady_till ms E) (durable E' f)"
proof -
  have "upto (steady_till ms E) (steady_till ms E) (durable E' f)"
    by (rule durable_upto) (simp, rule assms, simp)
  then show ?thesis by (simp add: upto_def keeps_def)
qed

lemma steady_write:
  assumes "steady_till ms E s"
  shows "steady_till ms E (stored (\<lambda>d. d\<lparr>dw_policies := put_file fp_id (tl_policy s) (dw_policies d)\<rparr>) s)"
proof (rule steady_stored [OF assms])
  have p: "loaded E (tl_drawer s) (tl_policy s)" and d: "safe ms (tl_drawer s)"
    using assms by (simp_all add: steady_till_def calm_def)
  let ?d = "(tl_drawer s)\<lparr>dw_policies := put_file fp_id (tl_policy s) (dw_policies (tl_drawer s))\<rparr>"
  show "safe ms ?d" by (rule safe_write [OF d p])
  show "loaded E ?d (tl_policy s)" by (rule loaded_write [OF p])
  show "attempts_posted ?d \<inter> drawn E = {}" using assms by (simp add: steady_till_def calm_def)
  show "\<forall>q \<in> set (dw_policies ?d). tagged E q"
    using assms by (auto simp: put_file_facts(1) steady_till_def calm_def loaded_def)
qed

lemma keeps_write_policy [keeps_rules]: "keeps (steady_till ms E) (write_policy E')"
proof (rule keepsI)
  fix s assume "steady_till ms E s"
  then have s: "steady_till ms E (s\<lparr>tl_writes := n\<rparr>)" for n by simp
  show "steady_till ms E (fst (write_policy E' s))"
    using steady_write [OF s] s
    by (simp add: write_policy_def policy_of_def ask_then durable_def Let_def split: disk.split)
qed

lemma upto_set_policy: "(\<And>s. P s \<Longrightarrow> Q (s\<lparr>tl_policy := f (tl_policy s)\<rparr>)) \<Longrightarrow> upto P Q (set_policy f)"
  unfolding set_policy_def by (rule upto_modify)

lemma calm_policy [simp]: "calm ms E (s\<lparr>tl_policy := p\<rparr>) = calm ms E s"
  by (simp add: calm_def)

lemma steady_policy [simp]: "steady_till ms E (s\<lparr>tl_policy := p\<rparr>) \<longleftrightarrow> calm ms E s \<and> loaded E (tl_drawer s) p"
  by (simp add: steady_till_def calm_def)

lemma upto_bnd_Ok:
  "upto P Q m \<Longrightarrow> (\<And>x. yields P (bnd m (\<lambda>y. if y = x then ret () else throw [])) (R x)) \<Longrightarrow> (\<And>x. upto (R x) Q (f x)) \<Longrightarrow> upto P Q (bnd m f)"
  unfolding upto_def yields_def bnd_def
  by (fastforce split: prod.split prod.splits sum.split sum.splits simp: ret_def throw_def bail_def)

lemma upto_thn_Ok: "upto P Q m \<Longrightarrow> yields P m R \<Longrightarrow> upto R Q n \<Longrightarrow> upto P Q (thn m n)"
  unfolding upto_def yields_def thn_def bnd_def by (fastforce split: prod.split prod.splits sum.split sum.splits)

lemma upto_attempted: "upto P Q m \<Longrightarrow> upto P Q (attempted m)"
  by (simp add: upto_def attempted_def case_prod_beta)

lemma durable_yields:
  "(\<And>s n. P s \<Longrightarrow> R (stored f (s\<lparr>tl_writes := n\<rparr>))) \<Longrightarrow> yields P (durable E f) R"
  by (rule yieldsI) (auto simp: durable_def Let_def bail_def split: disk.splits)

lemma upto_policy_of:
  "(\<And>p. upto (\<lambda>s. P s \<and> tl_policy s = p) Q (f p)) \<Longrightarrow> upto P Q (bnd policy_of f)"
  by (simp add: upto_def policy_of_def ask_then)

section \<open>Recovery and the ledger\<close>

lemma loaded_phase:
  assumes "loaded E d p" and "fp_pending p = Some a" and "pa_submitted_at a \<noteq> None" and "h \<noteq> Wallet" "h \<noteq> Approval"
  shows "loaded E d (set_phase h p)"
  using assms by (auto simp: loaded_def policy_safe_def accounted_def pending_ok_def apart_def tagged_def pending_id_def set_phase_def)

lemma loaded_submitted:
  "loaded E d p \<Longrightarrow> fp_pending p = Some a \<Longrightarrow> pa_phase a \<noteq> Wallet \<Longrightarrow> pa_phase a \<noteq> Approval \<Longrightarrow> pa_submitted_at a \<noteq> None"
  by (auto simp: loaded_def policy_safe_def pending_ok_def)

definition not_submitting :: "till \<Rightarrow> bool" where
  "not_submitting s = (\<not> in_phase Submitting (tl_policy s))"

lemma recover_upto: "upto (steady_till ms E) (steady_till ms E) (recover_policy E')"
  unfolding recover_policy_def
proof (rule upto_policy_of)
  fix p
  show "upto (\<lambda>s. steady_till ms E s \<and> tl_policy s = p) (steady_till ms E)
     (case fp_pending p of None \<Rightarrow> ret () | Some a \<Rightarrow> when_op (pa_phase a = Submitting \<or> pa_phase a = Uncertain)
        (bnd (ask_state (\<lambda>s. Ok (has_response (pa_id a) (tl_drawer s)))) (\<lambda>found.
         thn (set_policy (\<lambda>p. if found then (set_phase Received p)\<lparr>fp_status := ''payment_received''\<rparr>
                else (set_phase Uncertain p)\<lparr>fp_status := ''uncertain''\<rparr>)) (write_policy E'))))"
  proof (cases "fp_pending p")
    case None
    then show ?thesis by (simp add: upto_def ret_def)
  next
    case (Some a)
    have "upto (\<lambda>s. steady_till ms E s \<and> tl_policy s = p) (steady_till ms E)
        (set_policy (\<lambda>p. if found then (set_phase Received p)\<lparr>fp_status := ''payment_received''\<rparr>
                else (set_phase Uncertain p)\<lparr>fp_status := ''uncertain''\<rparr>))"
      if "pa_phase a = Submitting \<or> pa_phase a = Uncertain" for found
    proof (rule upto_set_policy)
      fix s assume s: "steady_till ms E s \<and> tl_policy s = p"
      then have l: "loaded E (tl_drawer s) p" and c: "calm ms E s" by (auto simp: steady_till_def)
      have "pa_submitted_at a \<noteq> None" using loaded_submitted [OF l Some] that by auto
      then have "loaded E (tl_drawer s) (set_phase h p)" if "h = Received \<or> h = Uncertain" for h
        using loaded_phase [OF l Some] that by auto
      then have "loaded E (tl_drawer s) ((set_phase h p)\<lparr>fp_status := st\<rparr>)" if "h = Received \<or> h = Uncertain" for h st
        using that by (subst loaded_cong [of _ "set_phase h p"]) auto
      then show "steady_till ms E (s\<lparr>tl_policy := if found then (set_phase Received (tl_policy s))\<lparr>fp_status := ''payment_received''\<rparr>
                else (set_phase Uncertain (tl_policy s))\<lparr>fp_status := ''uncertain''\<rparr>\<rparr>)"
        using s c by auto
    qed
    note store = upto_thn [OF this _ upto_keeps [OF keeps_write_policy [of ms E E']]]
    show ?thesis
      unfolding Some option.case when_op_def
      by (intro upto_if upto_ask upto_weaken [OF store]; auto simp: upto_def ret_def)
  qed
qed

text \<open>After a recovery no charge is being submitted.\<close>

lemma recover_quiet: "yields (steady_till ms E) (recover_policy E') (\<lambda>s. steady_till ms E s \<and> not_submitting s)"
proof (rule yieldsI)
  fix s t x assume s: "steady_till ms E s" and run: "recover_policy E' s = (t, Ok x)"
  have "steady_till ms E t" using recover_upto [of ms E E'] s run by (auto simp: upto_def)
  moreover have "not_submitting t"
    using run unfolding recover_policy_def
    by (auto simp: policy_of_def bnd_ask_runs when_run ret_run not_submitting_def in_phase_def set_policy_def write_policy_def
        thn_modify_runs durable_def Let_def stored_def set_phase_def bail_def split: option.splits if_splits disk.splits)
  ultimately show "steady_till ms E t \<and> not_submitting t" ..
qed

lemma in_ledger_put:
  assumes "in_ledger d q" and "(fp_id p, pa_id a) = (ps_policy q, ps_attempt q) \<Longrightarrow>
      t = ps_at q \<and> cg_charge_cents (pa_challenge a) = ps_cents q"
  shows "in_ledger (d\<lparr>dw_ledger := put_file (\<lambda>(i, c). (i, lg_id c))
       (fp_id p, \<lparr>lg_id = pa_id a, lg_submitted_at = t, lg_cents = cg_charge_cents (pa_challenge a)\<rparr>) (dw_ledger d)\<rparr>) q"
  using assms by (cases "(fp_id p, pa_id a) = (ps_policy q, ps_attempt q)") (auto simp: in_ledger_def put_file_facts)

lemma settle_put:
  assumes l: "loaded E d p" and a: "fp_pending p = Some a" and t: "pa_submitted_at a = Some t"
    and d': "d' = d\<lparr>dw_ledger := put_file (\<lambda>(i, c). (i, lg_id c))
       (fp_id p, \<lparr>lg_id = pa_id a, lg_submitted_at = t, lg_cents = cg_charge_cents (pa_challenge a)\<rparr>) (dw_ledger d)\<rparr>"
  shows "safe ms d \<Longrightarrow> safe ms d'" and "loaded E d' p" and "loaded E d' (p\<lparr>fp_pending := None\<rparr>)"
proof -
  have own: "(fp_id p, pa_id a) = (ps_policy q, ps_attempt q) \<Longrightarrow>
      t = ps_at q \<and> cg_charge_cents (pa_challenge a) = ps_cents q" if "q \<in> set (dw_posts d)" for q
    using l a t that by (auto simp: loaded_def policy_safe_def accounted_def)
  have keep: "in_ledger d' q" if "q \<in> set (dw_posts d)" "in_ledger d q" for q
    unfolding d' using own [OF that(1)] that(2) by (intro in_ledger_put) auto
  have acc: "accounted d' x" if "accounted d x" for x
    using that keep by (auto simp: accounted_def d' split: option.splits)
  have pen: "pending_ok d' x = pending_ok d x" for x by (simp add: pending_ok_def d')
  show "safe ms d \<Longrightarrow> safe ms d'"
  proof -
    assume s: "safe ms d"
    have c: "0 \<le> cg_charge_cents (pa_challenge a)" using l a by (auto simp: loaded_def policy_safe_def pending_ok_def)
    have "\<forall>(i, c) \<in> set (dw_ledger d'). 0 \<le> lg_cents c" using s c by (auto simp: safe_def d' put_file_facts)
    then show "safe ms d'"
      using s acc pen by (simp add: safe_def policy_safe_def d')
  qed
  show "loaded E d' p" using l acc pen by (simp add: loaded_def policy_safe_def d')
  have "in_ledger d' q" if "q \<in> set (dw_posts d)" "ps_policy q = fp_id p" for q
  proof (cases "pa_id a = ps_attempt q")
    case True
    then show ?thesis using own [OF that(1)] that(2) by (simp add: d' in_ledger_def put_file_facts)
  next
    case False
    then have "in_ledger d q" using l a that by (auto simp: loaded_def policy_safe_def accounted_def)
    then show ?thesis by (rule keep [OF that(1)])
  qed
  then show "loaded E d' (p\<lparr>fp_pending := None\<rparr>)"
    using l by (auto simp: loaded_def policy_safe_def accounted_def pending_ok_def d' apart_def tagged_def pending_id_def)
qed

text \<open>A state in which the pending charge of the loaded policy is in the ledger.\<close>

definition settled_till :: "(int \<Rightarrow> int result) \<Rightarrow> till_env \<Rightarrow> till \<Rightarrow> bool" where
  "settled_till ms E s = (calm ms E s \<and> loaded E (tl_drawer s) ((tl_policy s)\<lparr>fp_pending := None\<rparr>))"

lemma steady_charge:
  assumes s: "steady_till ms E s" and a: "fp_pending (tl_policy s) = Some a" and t: "pa_submitted_at a = Some t"
    and u: "u = stored (\<lambda>d. d\<lparr>dw_ledger := put_file (\<lambda>(i, c). (i, lg_id c))
       (fp_id (tl_policy s), \<lparr>lg_id = pa_id a, lg_submitted_at = t, lg_cents = cg_charge_cents (pa_challenge a)\<rparr>) (dw_ledger d)\<rparr>) s"
  shows "steady_till ms E u \<and> settled_till ms E u"
proof -
  have l: "loaded E (tl_drawer s) (tl_policy s)" and d: "safe ms (tl_drawer s)"
    using s by (simp_all add: steady_till_def calm_def)
  note put = settle_put [OF l a t refl]
  have "steady_till ms E u"
    unfolding u
  proof (rule steady_stored [OF s])
  qed (use s put(1) [OF d] put(2) in \<open>auto simp: steady_till_def calm_def\<close>)
  then show ?thesis using put(3) by (simp add: steady_till_def settled_till_def u stored_def Let_def)
qed

lemma settle_upto:
  "upto (steady_till ms E) (steady_till ms E) (settle_charge E')"
  "yields (steady_till ms E) (settle_charge E') (settled_till ms E)"
proof -
  have "steady_till ms E (fst (settle_charge E' s)) \<and> (snd (settle_charge E' s) = Ok () \<longrightarrow> settled_till ms E (fst (settle_charge E' s)))"
    if s: "steady_till ms E s" for s
  proof (cases "fp_pending (tl_policy s)")
    case None
    then show ?thesis using s by (simp add: settle_charge_def policy_of_def ask_then)
  next
    case (Some a)
    show ?thesis
    proof (cases "pa_submitted_at a")
      case None
      then show ?thesis using s Some by (simp add: settle_charge_def policy_of_def ask_then)
    next
      fix t assume t: "pa_submitted_at a = Some t"
      have "steady_till ms E (s\<lparr>tl_writes := n\<rparr>)" for n using s by simp
      from steady_charge [OF this _ t refl] Some
      show ?thesis using s t
        by (auto simp: settle_charge_def policy_of_def ask_then durable_def Let_def bail_def split: disk.splits)
    qed
  qed
  then show "upto (steady_till ms E) (steady_till ms E) (settle_charge E')"
    "yields (steady_till ms E) (settle_charge E') (settled_till ms E)"
    by (auto simp: upto_def yields_def) (metis fst_conv snd_conv old.unit.exhaust)+
qed

lemma finish_upto: "upto (steady_till ms E) (steady_till ms E) (finish_charge E')"
proof -
  have "upto (settled_till ms E) (steady_till ms E) (set_policy (\<lambda>p. p\<lparr>fp_last_payment := v, fp_pending := None,
      fp_status := (if fp_enabled p then ''watching'' else ''disabled''), fp_next_check_at := n\<rparr>))" for v n
  proof (rule upto_set_policy)
    fix s assume s: "settled_till ms E s"
    then have "loaded E (tl_drawer s) ((tl_policy s)\<lparr>fp_pending := None\<rparr>)" by (simp add: settled_till_def)
    then have "loaded E (tl_drawer s) ((tl_policy s)\<lparr>fp_last_payment := v, fp_pending := None,
      fp_status := (if fp_enabled (tl_policy s) then ''watching'' else ''disabled''), fp_next_check_at := n\<rparr>)"
      by (subst loaded_cong [of _ "(tl_policy s)\<lparr>fp_pending := None\<rparr>"]) auto
    then show "steady_till ms E (s\<lparr>tl_policy := (tl_policy s)\<lparr>fp_last_payment := v, fp_pending := None,
      fp_status := (if fp_enabled (tl_policy s) then ''watching'' else ''disabled''), fp_next_check_at := n\<rparr>\<rparr>)"
      using s by (simp add: settled_till_def)
  qed
  note pay = upto_thn_Ok [OF settle_upto this]
  have status: "upto (steady_till ms E) (steady_till ms E) (set_policy (\<lambda>p. p\<lparr>fp_status := st\<rparr>))" for st
    by (rule upto_set_policy) (simp add: steady_till_def loaded_cong [of "_\<lparr>fp_status := _\<rparr>"])
  show ?thesis
    unfolding finish_charge_def policy_of_def
    by (intro upto_ask) (auto split: sum.split intro!: upto_weaken [OF pay] upto_weaken [OF status])
qed

section \<open>Posting a charge\<close>

lemma sum_subset_list:
  fixes f :: "'a \<Rightarrow> int"
  shows "distinct xs \<Longrightarrow> set xs \<subseteq> set ys \<Longrightarrow> (\<And>y. y \<in> set ys \<Longrightarrow> 0 \<le> f y) \<Longrightarrow> sum_list (map f xs) \<le> sum_list (map f ys)"
proof -
  assume d: "distinct xs" and sub: "set xs \<subseteq> set ys" and nn: "\<And>y. y \<in> set ys \<Longrightarrow> 0 \<le> f y"
  have "sum_list (map f xs) = sum f (set xs)" using d by (simp add: sum_list_distinct_conv_sum_set)
  also have "\<dots> \<le> sum f (set ys)" using sub nn by (intro sum_mono2) auto
  also have "\<dots> \<le> sum_list (map f ys)"
    using nn
  proof (induction ys)
    case (Cons y ys)
    have "sum f (set (y # ys)) \<le> f y + sum f (set ys)"
      using Cons.prems by (cases "y \<in> set ys") (auto simp: insert_absorb)
    then show ?case using Cons by fastforce
  qed simp
  finally show ?thesis .
qed

lemma later_charges:
  assumes "\<And>c. c \<in> set cs \<Longrightarrow> 0 \<le> lg_cents c" and "a \<le> b"
  shows "sum_list (map lg_cents (filter (\<lambda>c. b \<le> lg_submitted_at c) cs)) \<le>
    sum_list (map lg_cents (filter (\<lambda>c. a \<le> lg_submitted_at c) cs))"
  using assms by (induction cs) (auto intro: add_mono order_trans simp: add_increasing)

definition charge_of :: "post \<Rightarrow> charge" where
  "charge_of q = \<lparr>lg_id = ps_attempt q, lg_submitted_at = ps_at q, lg_cents = ps_cents q\<rparr>"

text \<open>The ledger covers the requests of a policy whose pending charge has not been sent.\<close>

lemma ledger_covers:
  assumes "safe ms d" and acc: "accounted d p" and a: "fp_pending p = Some a" and new: "pa_id a \<notin> attempts_posted d"
  shows "sum_list (map ps_cents (filter (\<lambda>r. ps_policy r = fp_id p \<and> start \<le> ps_at r) (dw_posts d)))
    \<le> sum_list (map lg_cents (filter (\<lambda>c. start \<le> lg_submitted_at c) (charges_of (fp_id p) d)))"
proof -
  let ?ps = "filter (\<lambda>r. ps_policy r = fp_id p \<and> start \<le> ps_at r) (dw_posts d)"
  have "distinct (map ps_attempt ?ps)" using assms(1) by (auto simp: safe_def intro: distinct_map_filter)
  then have "distinct (map charge_of ?ps)" by (auto simp: distinct_map inj_on_def charge_of_def)
  moreover have "set (map charge_of ?ps) \<subseteq> set (filter (\<lambda>c. start \<le> lg_submitted_at c) (charges_of (fp_id p) d))"
  proof -
    have "in_ledger d q" if "q \<in> set (dw_posts d)" "ps_policy q = fp_id p" for q
      using that acc a new by (fastforce simp: accounted_def attempts_posted_def split: if_splits)
    then show ?thesis by (force simp: in_ledger_def charges_of_def charge_of_def)
  qed
  moreover have "0 \<le> lg_cents c" if "c \<in> set (filter (\<lambda>c. start \<le> lg_submitted_at c) (charges_of (fp_id p) d))" for c
    using that assms(1) by (auto simp: safe_def charges_of_def)
  ultimately have "sum_list (map lg_cents (map charge_of ?ps)) \<le>
      sum_list (map lg_cents (filter (\<lambda>c. start \<le> lg_submitted_at c) (charges_of (fp_id p) d)))"
    by (rule sum_subset_list)
  moreover have "map lg_cents (map charge_of ?ps) = map ps_cents ?ps" by (simp add: charge_of_def)
  ultimately show ?thesis by (simp only:)
qed

definition room_for :: "(int \<Rightarrow> int result) \<Rightarrow> till_env \<Rightarrow> drawer \<Rightarrow> policy \<Rightarrow> funding \<Rightarrow> bool" where
  "room_for ms E d p a = (\<exists>start. ms (te_clock E 5) = Ok start \<and>
     sum_list (map lg_cents (filter (\<lambda>c. start \<le> lg_submitted_at c) (charges_of (fp_id p) d))) +
     cg_charge_cents (pa_challenge a) \<le> fs_monthly_limit_cents (fp_settings p))"

definition post_of :: "policy \<Rightarrow> funding \<Rightarrow> post" where
  "post_of p a = \<lparr>ps_policy = fp_id p, ps_attempt = pa_id a, ps_cents = cg_charge_cents (pa_challenge a),
     ps_at = unwrap_or (pa_submitted_at a) 0, ps_limit = fs_monthly_limit_cents (fp_settings p),
     ps_cap = fs_max_charge_cents (fp_settings p)\<rparr>"

lemma post_safe:
  assumes E: "sound_env ms E" and d: "safe ms d" and l: "loaded E d p" and a: "fp_pending p = Some a"
    and t: "pa_submitted_at a = Some (te_clock E 6)" and new: "pa_id a \<notin> attempts_posted d"
    and saved: "p \<in> set (dw_policies d)" and fits: "room_for ms E d p a"
    and d': "d' = d\<lparr>dw_posts := dw_posts d @ [post_of p a]\<rparr>"
  shows "safe ms d'" and "loaded E d' p"
proof -
  let ?q = "post_of p a"
  have q: "ps_policy ?q = fp_id p" "ps_attempt ?q = pa_id a" "ps_at ?q = te_clock E 6"
      "ps_cents ?q = cg_charge_cents (pa_challenge a)" "ps_limit ?q = fs_monthly_limit_cents (fp_settings p)"
      "ps_cap ?q = fs_max_charge_cents (fp_settings p)"
    using t by (simp_all add: post_of_def unwrap_or_def)
  have pe: "0 \<le> cg_charge_cents (pa_challenge a)" "cg_charge_cents (pa_challenge a) \<le> fs_max_charge_cents (fp_settings p)"
    using l a by (auto simp: loaded_def policy_safe_def pending_ok_def)
  have posts: "set (dw_posts d') = insert ?q (set (dw_posts d))" "in_ledger d' = in_ledger d"
      "attempts_posted d' = insert (pa_id a) (attempts_posted d)"
    by (auto simp: d' in_ledger_def fun_eq_iff attempts_posted_def q)
  have acc: "accounted d' p" using l a t by (auto simp: loaded_def policy_safe_def accounted_def posts q)
  have self: "policy_safe d' p"
    using l a t acc by (auto simp: loaded_def policy_safe_def pending_ok_def)
  have others: "policy_safe d' x" if "x \<in> set (dw_policies d)" for x
  proof (cases "fp_id x = fp_id p")
    case True
    then have "x = p" using that saved d by (auto simp: safe_def distinct_map inj_on_def)
    then show ?thesis using self by simp
  next
    case False
    have "policy_safe d x" using d that by (simp add: safe_def)
    moreover have "pa_id b \<noteq> pa_id a" if "fp_pending x = Some b" for b
      using l \<open>x \<in> _\<close> False a that by (auto simp: loaded_def apart_def pending_id_def)
    ultimately show ?thesis using False by (cases "fp_pending x") (auto simp: policy_safe_def accounted_def pending_ok_def posts q)
  qed
  have "within_limit ms (dw_posts d) ?q"
    unfolding within_limit_def
  proof (intro conjI allI impI)
    show "ps_cents ?q \<le> ps_cap ?q" using pe by (simp add: q)
    fix start assume "ms (ps_at ?q) = Ok start"
    moreover obtain begun where begun: "ms (te_clock E 5) = Ok begun"
        "sum_list (map lg_cents (filter (\<lambda>c. begun \<le> lg_submitted_at c) (charges_of (fp_id p) d))) +
         cg_charge_cents (pa_challenge a) \<le> fs_monthly_limit_cents (fp_settings p)"
      using fits by (auto simp: room_for_def)
    moreover have "te_clock E 5 \<le> te_clock E 6"
        "\<And>m n. ms (te_clock E 5) = Ok m \<Longrightarrow> ms (te_clock E 6) = Ok n \<Longrightarrow> m \<le> n"
      using E unfolding sound_env_def by blast+
    ultimately have le: "begun \<le> start" unfolding q by blast
    have "sum_list (map ps_cents (filter (\<lambda>r. ps_policy r = fp_id p \<and> start \<le> ps_at r) (dw_posts d)))
        \<le> sum_list (map lg_cents (filter (\<lambda>c. start \<le> lg_submitted_at c) (charges_of (fp_id p) d)))"
      using ledger_covers [OF d _ a new] l by (simp add: loaded_def policy_safe_def)
    also have "\<dots> \<le> sum_list (map lg_cents (filter (\<lambda>c. begun \<le> lg_submitted_at c) (charges_of (fp_id p) d)))"
    proof -
      have "\<And>c. c \<in> set (charges_of (fp_id p) d) \<Longrightarrow> 0 \<le> lg_cents c" using d by (auto simp: safe_def charges_of_def)
      then show ?thesis using le by (intro later_charges)
    qed
    finally show "sum_list (map ps_cents (filter (\<lambda>r. ps_policy r = ps_policy ?q \<and> start \<le> ps_at r) (dw_posts d @ [?q]))) \<le> ps_limit ?q"
      using begun(2) pe(1) by (auto simp: q)
  qed
  then show "safe ms d'"
    using d others saved new pe by (auto simp: safe_def d' limits_hold_snoc q attempts_posted_def)
  show "loaded E d' p" using l self by (simp add: loaded_def d')
qed

text \<open>The stages of a submission: approved, marked, on the disk, sent.\<close>

definition approved_till :: "(int \<Rightarrow> int result) \<Rightarrow> till_env \<Rightarrow> till \<Rightarrow> bool" where
  "approved_till ms E s = (steady_till ms E s \<and> (\<exists>a. fp_pending (tl_policy s) = Some a \<and> pa_submitted_at a = None \<and>
     pa_id a \<notin> drawn E \<and> room_for ms E (tl_drawer s) (tl_policy s) a))"

definition marked_till :: "(int \<Rightarrow> int result) \<Rightarrow> till_env \<Rightarrow> till \<Rightarrow> bool" where
  "marked_till ms E s = (steady_till ms E s \<and> (\<exists>a. fp_pending (tl_policy s) = Some a \<and>
     pa_submitted_at a = Some (te_clock E 6) \<and> pa_id a \<notin> attempts_posted (tl_drawer s) \<and>
     pa_id a \<notin> drawn E \<and> room_for ms E (tl_drawer s) (tl_policy s) a))"

definition sent_till :: "(int \<Rightarrow> int result) \<Rightarrow> till_env \<Rightarrow> till \<Rightarrow> bool" where
  "sent_till ms E s = (steady_till ms E s \<and> (\<exists>a. fp_pending (tl_policy s) = Some a \<and> pa_submitted_at a \<noteq> None))"

lemma mark_upto:
  "upto (approved_till ms E) (marked_till ms E)
     (set_policy (\<lambda>p. (update_pending (\<lambda>a. a\<lparr>pa_phase := Submitting, pa_submitted_at := Some (te_clock E 6)\<rparr>) p)
            \<lparr>fp_status := ''submitting''\<rparr>))"
proof (rule upto_set_policy)
  fix s assume "approved_till ms E s"
  then obtain a where s: "steady_till ms E s" and a: "fp_pending (tl_policy s) = Some a" "pa_submitted_at a = None"
      "pa_id a \<notin> drawn E" "room_for ms E (tl_drawer s) (tl_policy s) a"
    by (auto simp: approved_till_def)
  let ?p = "tl_policy s" and ?a = "a\<lparr>pa_phase := Submitting, pa_submitted_at := Some (te_clock E 6)\<rparr>"
  let ?q = "(update_pending (\<lambda>a. a\<lparr>pa_phase := Submitting, pa_submitted_at := Some (te_clock E 6)\<rparr>) ?p)\<lparr>fp_status := ''submitting''\<rparr>"
  have l: "loaded E (tl_drawer s) ?p" using s by (simp add: steady_till_def)
  then have new: "pa_id a \<notin> attempts_posted (tl_drawer s)" using a by (auto simp: loaded_def policy_safe_def pending_ok_def)
  have q: "fp_pending ?q = Some ?a" "fp_id ?q = fp_id ?p" "fp_settings ?q = fp_settings ?p" by (simp_all add: update_pending_def a)
  have "accounted (tl_drawer s) ?q"
    using l new q a by (fastforce simp: loaded_def policy_safe_def accounted_def attempts_posted_def split: if_splits)
  moreover have "pending_ok (tl_drawer s) ?q"
    using l a(1) q by (auto simp: loaded_def policy_safe_def pending_ok_def)
  ultimately have "loaded E (tl_drawer s) ?q"
    using l a(1) q by (auto simp: loaded_def policy_safe_def apart_def tagged_def pending_id_def)
  moreover have "room_for ms E (tl_drawer s) ?q ?a" using a(4) q by (simp add: room_for_def)
  ultimately show "marked_till ms E (s\<lparr>tl_policy := ?q\<rparr>)"
    using s new a(3) q by (simp add: marked_till_def steady_till_def)
qed

lemma marked_saved:
  "yields (marked_till ms E) (write_policy E') (\<lambda>s. marked_till ms E s \<and> tl_policy s \<in> set (dw_policies (tl_drawer s)))"
proof (rule yieldsI)
  fix s t x assume s: "marked_till ms E s" and run: "write_policy E' s = (t, Ok x)"
  have "steady_till ms E t" using keeps_write_policy [of ms E E'] s run by (auto simp: keeps_def marked_till_def)
  moreover have "t = stored (\<lambda>d. d\<lparr>dw_policies := put_file fp_id (tl_policy s) (dw_policies d)\<rparr>) (s\<lparr>tl_writes := Suc (tl_writes s)\<rparr>)"
    using run by (auto simp: write_policy_def policy_of_def bnd_ask_runs durable_def Let_def bail_def split: disk.splits)
  ultimately show "marked_till ms E t \<and> tl_policy t \<in> set (dw_policies (tl_drawer t))"
    using s by (auto simp: marked_till_def stored_def Let_def room_for_def charges_of_def put_file_facts)
qed

lemma pay_upto:
  assumes E: "sound_env ms E"
  shows "upto (\<lambda>s. marked_till ms E s \<and> tl_policy s \<in> set (dw_policies (tl_drawer s))) (sent_till ms E) (pay_topup E url key spt)"
proof (rule uptoI)
  fix s assume s: "marked_till ms E s \<and> tl_policy s \<in> set (dw_policies (tl_drawer s))"
  then obtain a where st: "steady_till ms E s" and a: "fp_pending (tl_policy s) = Some a"
     "pa_submitted_at a = Some (te_clock E 6)" "pa_id a \<notin> attempts_posted (tl_drawer s)"
     "pa_id a \<notin> drawn E" "room_for ms E (tl_drawer s) (tl_policy s) a"
    by (auto simp: marked_till_def)
  let ?f = "\<lambda>d. d\<lparr>dw_posts := dw_posts d @ [post_of (tl_policy s) a]\<rparr>"
  have l: "loaded E (tl_drawer s) (tl_policy s)" and d: "safe ms (tl_drawer s)"
    using st by (simp_all add: steady_till_def calm_def)
  note safe = post_safe [OF E d l a(1,2,3) conjunct2 [OF s] a(5) refl]
  have "steady_till ms E (stored ?f s)"
  proof (rule steady_stored [OF st])
    show "attempts_posted (?f (tl_drawer s)) \<inter> drawn E = {}"
      using st a(4) by (auto simp: steady_till_def calm_def attempts_posted_def post_of_def)
  qed (use safe st in \<open>auto simp: steady_till_def calm_def\<close>)
  then have sent: "sent_till ms E (stored ?f s)" "sent_till ms E s"
    using st a by (auto simp: sent_till_def stored_def Let_def)
  show "sent_till ms E (fst (pay_topup E url key spt s))"
    using a(1) sent
    by (auto simp: pay_topup_def policy_of_def ask_then thn_def bnd_def modify_def guard_def ask_state_def post_of_def require_def
        split: sum.split)
qed

lemma response_upto:
  "upto (sent_till ms E) (sent_till ms E) (durable E' (\<lambda>d. d\<lparr>dw_responses := put_file fst r (dw_responses d)\<rparr>))"
proof (rule durable_upto)
  fix s n assume s: "sent_till ms E s"
  have eq: "safe ms (d\<lparr>dw_responses := x\<rparr>) = safe ms d" "loaded E (d\<lparr>dw_responses := x\<rparr>) p = loaded E d p" for d x p
    by (simp_all add: safe_def loaded_def policy_safe_def accounted_def pending_ok_def in_ledger_def attempts_posted_def cong: option.case_cong)
  show "sent_till ms E (s\<lparr>tl_writes := n\<rparr>)" using s by (simp add: sent_till_def)
  then show "sent_till ms E (stored (\<lambda>d. d\<lparr>dw_responses := put_file fst r (dw_responses d)\<rparr>) (s\<lparr>tl_writes := n\<rparr>))"
    by (auto simp: sent_till_def stored_def Let_def steady_till_def calm_def eq)
qed

lemma outcome_upto:
  "h = Received \<or> h = Uncertain \<Longrightarrow>
   upto (sent_till ms E) (steady_till ms E) (set_policy (\<lambda>p. (set_phase h p)\<lparr>fp_status := st\<rparr>))"
proof (rule upto_set_policy)
  fix s assume h: "h = Received \<or> h = Uncertain" and "sent_till ms E s"
  then obtain a where s: "steady_till ms E s" "fp_pending (tl_policy s) = Some a" "pa_submitted_at a \<noteq> None"
    by (auto simp: sent_till_def)
  then have "loaded E (tl_drawer s) (set_phase h (tl_policy s))"
    using loaded_phase [of E "tl_drawer s" "tl_policy s" a h] h by (auto simp: steady_till_def)
  then have "loaded E (tl_drawer s) ((set_phase h (tl_policy s))\<lparr>fp_status := st\<rparr>)"
    by (subst loaded_cong [of _ "set_phase h (tl_policy s)"]) auto
  then show "steady_till ms E (s\<lparr>tl_policy := (set_phase h (tl_policy s))\<lparr>fp_status := st\<rparr>\<rparr>)"
    using s by (simp add: steady_till_def)
qed

lemma submit_upto:
  assumes E: "sound_env ms E"
  shows "upto (approved_till ms E) (steady_till ms E) (submit_charge E url key spt)"
proof -
  have sent: "steady_till ms E s" if "sent_till ms E s" for s using that by (simp add: sent_till_def)
  have marked: "steady_till ms E s" if "marked_till ms E s" for s using that by (simp add: marked_till_def)
  have reply: "upto (sent_till ms E) (steady_till ms E)
      (case reply of
            Inr bytes \<Rightarrow>
              bnd policy_of (\<lambda>p.
              thn (durable E (\<lambda>d. d\<lparr>dw_responses := put_file fst
                     (case fp_pending p of None \<Rightarrow> [] | Some a \<Rightarrow> pa_id a, bytes) (dw_responses d)\<rparr>))
                  (set_policy (\<lambda>p. (set_phase Received p)\<lparr>fp_status := ''payment_received''\<rparr>)))
          | Inl e \<Rightarrow> set_policy (\<lambda>p. (set_phase Uncertain p)\<lparr>fp_status := ''uncertain''\<rparr>))" for reply :: "string result"
  proof (cases reply)
    case (Inl e)
    then show ?thesis using outcome_upto [of Uncertain ms E "''uncertain''"] by simp
  next
    case (Inr bytes)
    note store = upto_thn [OF response_upto [of ms E E] sent outcome_upto [of Received ms E "''payment_received''"]]
    show ?thesis unfolding Inr sum.case
      by (rule upto_policy_of, rule upto_weaken [OF store]) auto
  qed
  have paid: "upto (\<lambda>s. marked_till ms E s \<and> tl_policy s \<in> set (dw_policies (tl_drawer s))) (steady_till ms E)
      (bnd (attempted (pay_topup E url key spt)) (\<lambda>reply.
          case reply of
            Inr bytes \<Rightarrow>
              bnd policy_of (\<lambda>p.
              thn (durable E (\<lambda>d. d\<lparr>dw_responses := put_file fst
                     (case fp_pending p of None \<Rightarrow> [] | Some a \<Rightarrow> pa_id a, bytes) (dw_responses d)\<rparr>))
                  (set_policy (\<lambda>p. (set_phase Received p)\<lparr>fp_status := ''payment_received''\<rparr>)))
          | Inl e \<Rightarrow> set_policy (\<lambda>p. (set_phase Uncertain p)\<lparr>fp_status := ''uncertain''\<rparr>)))"
    by (rule upto_bnd [OF upto_attempted [OF pay_upto [OF E]] sent reply])
  have "upto (marked_till ms E) (steady_till ms E) (write_policy E)"
    by (rule upto_weaken [OF upto_keeps [OF keeps_write_policy]]) (auto intro: marked)
  note saving = upto_thn_Ok [OF this marked_saved paid]
  show ?thesis
    unfolding submit_charge_def by (rule upto_thn [OF mark_upto marked saving])
qed

section \<open>Checks\<close>

text \<open>A loaded policy whose charge, if it has one, was not submitted and is not of this run.\<close>

definition unsent :: "till_env \<Rightarrow> policy \<Rightarrow> bool" where
  "unsent E p = (old_pending E p \<and> (\<forall>a. fp_pending p = Some a \<longrightarrow> pa_submitted_at a = None))"

definition open_till :: "(int \<Rightarrow> int result) \<Rightarrow> till_env \<Rightarrow> till \<Rightarrow> bool" where
  "open_till ms E s = (steady_till ms E s \<and> unsent E (tl_policy s))"

lemma open_steady: "open_till ms E s \<Longrightarrow> steady_till ms E s"
  by (simp add: open_till_def)

lemma loaded_none:
  assumes "loaded E d p" and "\<forall>a. fp_pending p = Some a \<longrightarrow> pa_submitted_at a = None"
    and "fp_id q = fp_id p" "fp_pending q = None"
  shows "loaded E d q"
proof -
  have "in_ledger d r" if "r \<in> set (dw_posts d)" "ps_policy r = fp_id p" for r
    using assms(1,2) that
    by (cases "fp_pending p") (fastforce simp: loaded_def policy_safe_def accounted_def pending_ok_def attempts_posted_def split: if_splits)+
  then show ?thesis
    using assms by (auto simp: loaded_def policy_safe_def accounted_def pending_ok_def apart_def tagged_def pending_id_def)
qed

lemma forget_upto:
  "(\<And>p. fp_id (f p) = fp_id p \<and> fp_pending (f p) = None) \<Longrightarrow> upto (open_till ms E) (steady_till ms E) (set_policy f)"
  by (rule upto_set_policy) (auto simp: open_till_def unsent_def steady_till_def intro: loaded_none)

lemma same_steady:
  "(\<And>p. fp_id (f p) = fp_id p \<and> fp_pending (f p) = fp_pending p \<and> fp_settings (f p) = fp_settings p) \<Longrightarrow>
   upto (steady_till ms E) (steady_till ms E) (set_policy f)"
  by (rule upto_set_policy) (auto simp: steady_till_def loaded_cong [of "f p" p for p])

lemma same_open:
  "(\<And>p. fp_id (f p) = fp_id p \<and> fp_pending (f p) = fp_pending p \<and> fp_settings (f p) = fp_settings p) \<Longrightarrow>
   keeps (open_till ms E) (set_policy f)"
  unfolding set_policy_def
  by (rule keeps_modify)
    (auto simp: open_till_def unsent_def old_pending_def pending_id_def steady_till_def loaded_cong [of "f p" p for p])

lemma balance_keeps: "keeps (open_till ms E) (check_balance E' key)"
  unfolding check_balance_def policy_of_def
  by (intro keeps_bnd keeps_thn keeps_ask keeps_guard keeps_ret same_open)
    (auto split: prod.split intro!: keeps_thn same_open)

lemma abandon_upto: "upto (open_till ms E) (steady_till ms E) (abandon E' st)"
  unfolding abandon_def
  by (intro upto_policy_of upto_thn_ask upto_weaken [OF forget_upto [where ms = ms and E = E]]) (auto simp: open_steady)

lemma room_for_spent:
  assumes E: "sound_env ms E" and a: "fp_pending p = Some a" "pa_submitted_at a = None"
    and n: "spent E d p (te_clock E 5) = Ok n" "n + cg_charge_cents (pa_challenge a) \<le> fs_monthly_limit_cents (fp_settings p)"
  shows "room_for ms E d p a"
proof -
  have "te_month_start E = ms" using E by (simp add: sound_env_def)
  then show ?thesis
    using n a by (auto simp: spent_def room_for_def and_then_Ok_iff Let_def checked_sum_def bail_def split: if_splits)
qed

lemma approved_upto:
  assumes E: "sound_env ms E"
  shows "upto (open_till ms E) (steady_till ms E) (approved_charge E url key spt)"
proof -
  have go: "upto (\<lambda>s. ((((open_till ms E s \<and> tl_policy s = p) \<and> r) \<and> context_of (fp_pending p) m = Ok a) \<and>
      and_then (spent E (tl_drawer s) (tl_policy s) (te_clock E 5)) (\<lambda>n.
        Ok (n + cg_charge_cents (pa_challenge a) < 2 ^ 64 \<and>
            n + cg_charge_cents (pa_challenge a) \<le> fs_monthly_limit_cents (fp_settings (tl_policy s)))) = Ok fits))
     (steady_till ms E) (if \<not> fits then abandon E st else submit_charge E url key spt)" for p m a fits st r
  proof (rule upto_if)
    show "upto (\<lambda>s. ((((open_till ms E s \<and> tl_policy s = p) \<and> r) \<and> context_of (fp_pending p) m = Ok a) \<and>
      and_then (spent E (tl_drawer s) (tl_policy s) (te_clock E 5)) (\<lambda>n.
        Ok (n + cg_charge_cents (pa_challenge a) < 2 ^ 64 \<and>
            n + cg_charge_cents (pa_challenge a) \<le> fs_monthly_limit_cents (fp_settings (tl_policy s)))) = Ok fits))
     (steady_till ms E) (abandon E st)"
      by (rule upto_weaken [OF abandon_upto]) auto
    assume "\<not> \<not> fits"
    then show "upto (\<lambda>s. ((((open_till ms E s \<and> tl_policy s = p) \<and> r) \<and> context_of (fp_pending p) m = Ok a) \<and>
      and_then (spent E (tl_drawer s) (tl_policy s) (te_clock E 5)) (\<lambda>n.
        Ok (n + cg_charge_cents (pa_challenge a) < 2 ^ 64 \<and>
            n + cg_charge_cents (pa_challenge a) \<le> fs_monthly_limit_cents (fp_settings (tl_policy s)))) = Ok fits))
     (steady_till ms E) (submit_charge E url key spt)"
      by (intro upto_weaken [OF submit_upto [OF E]])
        (auto simp: approved_till_def open_till_def unsent_def old_pending_def pending_id_def context_of_Ok_iff and_then_Ok_iff
          intro: room_for_spent [OF E])
  qed
  have rest: "upto (open_till ms E) (steady_till ms E)
      (bnd policy_of (\<lambda>p.
       if \<not> low (fp_settings p) available then abandon E ''watching''
       else
       bnd (ask_state (\<lambda>_. policy_key E p)) (\<lambda>again.
       thn (guard (again = key) ''top-up key changed before payment'')
      (bnd (ask_state (\<lambda>_. context_of (fp_pending p) ''top-up operation missing'')) (\<lambda>a.
       if cg_expires_at (pa_challenge a) \<le> te_clock E 4 then abandon E ''watching''
       else
         bnd (room E (cg_charge_cents (pa_challenge a)) (te_clock E 5)) (\<lambda>fits.
         if \<not> fits then abandon E ''budget_exhausted'' else submit_charge E url key spt))))))" for available
    unfolding room_def
    by (intro upto_policy_of upto_if upto_ask upto_guard go; (rule upto_weaken [OF abandon_upto])?; simp add: open_steady)
  show ?thesis
    unfolding approved_charge_def
    by (rule upto_bnd [OF upto_keeps [OF balance_keeps] open_steady rest])
qed

lemma update_open:
  "(\<And>a. pa_id (f a) = pa_id a \<and> pa_challenge (f a) = pa_challenge a \<and> pa_submitted_at (f a) = pa_submitted_at a \<and>
      (pa_phase (f a) = pa_phase a \<or> pa_phase (f a) = Approval)) \<Longrightarrow>
   fp_pending q = map_option f (fp_pending p) \<Longrightarrow> fp_id q = fp_id p \<Longrightarrow> fp_settings q = fp_settings p \<Longrightarrow>
   unsent E p \<Longrightarrow> loaded E d p \<Longrightarrow> loaded E d q \<and> unsent E q"
proof -
  assume f: "\<And>a. pa_id (f a) = pa_id a \<and> pa_challenge (f a) = pa_challenge a \<and> pa_submitted_at (f a) = pa_submitted_at a \<and>
      (pa_phase (f a) = pa_phase a \<or> pa_phase (f a) = Approval)"
    and q: "fp_pending q = map_option f (fp_pending p)" "fp_id q = fp_id p" "fp_settings q = fp_settings p"
    and u: "unsent E p" and l: "loaded E d p"
  have "pending_id q = pending_id p" using f q by (cases "fp_pending p") (simp_all add: pending_id_def)
  moreover have "unsent E q"
    using u f q \<open>pending_id q = _\<close> by (auto simp: unsent_def old_pending_def)
  moreover have "accounted d q" using l f q by (cases "fp_pending p") (auto simp: loaded_def policy_safe_def accounted_def)
  moreover have "pending_ok d q"
  proof (cases "fp_pending p")
    case (Some a)
    then have "fp_pending q = Some (f a)" "pa_submitted_at a = None" using q u by (auto simp: unsent_def)
    moreover have "pending_ok d p" using l by (simp add: loaded_def policy_safe_def)
    ultimately show ?thesis using Some f [of a] q(3) by (auto simp: pending_ok_def)
  qed (use q in \<open>simp add: pending_ok_def\<close>)
  ultimately show ?thesis using l q by (auto simp: loaded_def policy_safe_def apart_def tagged_def)
qed

lemma approval_upto:
  assumes E: "sound_env ms E"
  shows "upto (open_till ms E) (steady_till ms E) (check_approval E url key a)"
proof -
  have mark: "upto (open_till ms E) (open_till ms E)
     (set_policy (update_pending (\<lambda>a. a\<lparr>pa_approval_url := u, pa_wallet_status := st\<rparr>)))" for u st
  proof (rule upto_set_policy)
    fix s assume s: "open_till ms E s"
    have "loaded E (tl_drawer s) (update_pending (\<lambda>a. a\<lparr>pa_approval_url := u, pa_wallet_status := st\<rparr>) (tl_policy s)) \<and>
        unsent E (update_pending (\<lambda>a. a\<lparr>pa_approval_url := u, pa_wallet_status := st\<rparr>) (tl_policy s))"
      by (rule update_open [where p = "tl_policy s" and f = "\<lambda>a. a\<lparr>pa_approval_url := u, pa_wallet_status := st\<rparr>"])
        (use s in \<open>auto simp: update_pending_def open_till_def steady_till_def\<close>)
    then show "open_till ms E (s\<lparr>tl_policy := update_pending (\<lambda>a. a\<lparr>pa_approval_url := u, pa_wallet_status := st\<rparr>) (tl_policy s)\<rparr>)"
      using s by (auto simp: open_till_def steady_till_def)
  qed
  have decide: "upto (open_till ms E) (steady_till ms E)
      (if sr_status r \<in> {''denied'', ''expired'', ''failed'', ''canceled''}
          then set_policy (\<lambda>p. p\<lparr>fp_enabled := False, fp_pending := None, fp_status := ''disabled''\<rparr>)
          else case (if sr_status r = ''approved'' then sr_token r else None) of
            None \<Rightarrow> ret ()
          | Some spt \<Rightarrow> approved_charge E url key spt)" for r
    by (intro upto_if forget_upto) (auto split: option.split intro: approved_upto [OF E] upto_ret open_steady)
  show ?thesis
    unfolding check_approval_def
    by (intro upto_ask upto_thn [where R = "open_till ms E"];
        (rule upto_weaken [OF mark] | rule upto_weaken [OF decide])?; auto simp: open_steady)
qed

lemma wallet_upto: "upto (open_till ms E) (steady_till ms E) (ask_wallet E' a)"
proof -
  have "upto (open_till ms E) (steady_till ms E)
     (set_policy (\<lambda>p. (update_pending (\<lambda>a. a\<lparr>pa_spend_id := i, pa_approval_url := u,
       pa_wallet_status := st, pa_phase := Approval\<rparr>) p)\<lparr>fp_status := ''awaiting_approval''\<rparr>))" for i u st
  proof (rule upto_set_policy)
    fix s assume s: "open_till ms E s"
    let ?f = "\<lambda>a. a\<lparr>pa_spend_id := i, pa_approval_url := u, pa_wallet_status := st, pa_phase := Approval\<rparr>"
    have "loaded E (tl_drawer s) ((update_pending ?f (tl_policy s))\<lparr>fp_status := ''awaiting_approval''\<rparr>) \<and>
        unsent E ((update_pending ?f (tl_policy s))\<lparr>fp_status := ''awaiting_approval''\<rparr>)"
      by (rule update_open [where p = "tl_policy s" and f = ?f])
        (use s in \<open>auto simp: update_pending_def open_till_def steady_till_def\<close>)
    then show "steady_till ms E (s\<lparr>tl_policy := (update_pending ?f (tl_policy s))\<lparr>fp_status := ''awaiting_approval''\<rparr>\<rparr>)"
      using s by (auto simp: open_till_def steady_till_def)
  qed
  then show ?thesis
    unfolding ask_wallet_def by (intro upto_policy_of upto_ask) (auto intro: upto_weaken simp: open_steady)
qed

text \<open>A new attempt draws an unused id.\<close>

lemma loaded_new:
  assumes E: "sound_env ms E" and s: "calm ms E s" and l: "loaded E (tl_drawer s) p" and none: "fp_pending p = None"
    and q: "fp_id q = fp_id p" "fp_settings q = fp_settings p" "fp_pending q = Some a"
    and a: "pa_id a = te_attempt_id E (fp_id p)" "pa_phase a = Wallet" "pa_submitted_at a = None"
      "0 \<le> cg_charge_cents (pa_challenge a)" "cg_charge_cents (pa_challenge a) \<le> fs_max_charge_cents (fp_settings p)"
  shows "loaded E (tl_drawer s) q"
proof -
  have inj: "inj (te_attempt_id E)" using E by (simp add: sound_env_def)
  have new: "pa_id a \<notin> attempts_posted (tl_drawer s)" using s a(1) by (auto simp: calm_def drawn_def)
  have "apart q x" if x: "x \<in> set (dw_policies (tl_drawer s))" for x
  proof (cases "pending_id x = Some (pa_id a)")
    case True
    have "tagged E x" using s x by (simp add: calm_def)
    then have "te_attempt_id E (fp_id p) = te_attempt_id E (fp_id x)"
      using True a(1) by (auto simp: tagged_def drawn_def)
    then show ?thesis using inj q(1) by (auto simp: apart_def dest: injD)
  next
    case False
    then have "pending_id q \<noteq> pending_id x" using q by (simp add: pending_id_def [of q])
    then show ?thesis by (simp add: apart_def)
  qed
  moreover have "accounted (tl_drawer s) q"
    using l none q new by (fastforce simp: loaded_def policy_safe_def accounted_def attempts_posted_def)
  moreover have "pending_ok (tl_drawer s) q" using q a new by (auto simp: pending_ok_def)
  ultimately show ?thesis using q a(1) by (auto simp: loaded_def policy_safe_def tagged_def pending_id_def)
qed

lemma charge_nonnegative:
  assumes "challenge_response L r amount cap terms topup = Ok c"
  shows "0 \<le> cg_charge_cents c \<and> cg_charge_cents c \<le> cap"
proof -
  obtain v body where "parse_challenge_kind L v body amount cap terms topup = Ok c"
    using challenge_response_Ok [OF assms(1)] by blast
  from parse_challenge_kind_Ok [OF this] obtain request
    where "quote_amounts request body amount cap = Ok (cg_charge_cents c, cg_credit_units c, cg_fee_units c)" ..
  from quote_amounts_Ok [OF this]
  have q: "field_number body ''charge_cents'' = Ok (cg_charge_cents c)" "cg_charge_cents c \<le> cap" by blast+
  have "as_u64 v = Some n \<Longrightarrow> 0 \<le> n" for v n by (cases v) (auto split: if_splits)
  then show ?thesis using q by (auto simp: field_number_def context_of_Ok_iff bind_eq_Some_conv)
qed

lemma bare_balance: "keeps (\<lambda>s. open_till ms E s \<and> fp_pending (tl_policy s) = None) (check_balance E' key)"
proof -
  have "keeps (\<lambda>s. fp_pending (tl_policy s) = None) (check_balance E' key)"
    unfolding check_balance_def policy_of_def set_policy_def
    by (intro keeps_bnd keeps_thn keeps_ask keeps_guard keeps_ret keeps_modify)
      (auto split: prod.split intro!: keeps_thn keeps_modify)
  then show ?thesis using balance_keeps [of ms E E' key] by (simp add: keeps_def)
qed

lemma new_attempt_upto:
  assumes E: "sound_env ms E"
  shows "upto (\<lambda>s. open_till ms E s \<and> fp_pending (tl_policy s) = None) (steady_till ms E) (new_attempt E url key)"
proof -
  let ?N = "\<lambda>s. open_till ms E s \<and> fp_pending (tl_policy s) = None"
  have status: "upto ?N (steady_till ms E) (set_policy (\<lambda>p. p\<lparr>fp_status := st\<rparr>))" for st
    by (rule upto_weaken [OF same_steady [where ms = ms and E = E]]) (auto simp: open_steady)
  have begin_it: "upto (\<lambda>s. ((?N s \<and> tl_policy s = p) \<and> r s) \<and> prepare_topup E url key body n (fs_max_charge_cents (fp_settings p)) v = Ok quote)
     (steady_till ms E)
     (set_policy (\<lambda>p. p\<lparr>fp_pending := Some \<lparr>pa_id = te_attempt_id E (fp_id p), pa_body = body, pa_challenge = quote,
                pa_phase = Wallet, pa_spend_id = None, pa_approval_url = None, pa_wallet_status = None,
                pa_submitted_at = None\<rparr>, fp_status := ''awaiting_wallet''\<rparr>))" for p r body n v quote
  proof (rule upto_set_policy)
    fix s assume s: "((?N s \<and> tl_policy s = p) \<and> r s) \<and> prepare_topup E url key body n (fs_max_charge_cents (fp_settings p)) v = Ok quote"
    then obtain rep where "challenge_response (te_lib E) rep n (fs_max_charge_cents (fp_settings p)) v True = Ok quote"
      unfolding prepare_topup_def and_then_Ok_iff by blast
    note cents = charge_nonnegative [OF this]
    let ?a = "\<lparr>pa_id = te_attempt_id E (fp_id p), pa_body = body, pa_challenge = quote,
                pa_phase = Wallet, pa_spend_id = None, pa_approval_url = None, pa_wallet_status = None,
                pa_submitted_at = None\<rparr>"
    have s': "calm ms E s" "loaded E (tl_drawer s) p" "fp_pending p = None"
      using s unfolding open_till_def steady_till_def by blast+
    have "loaded E (tl_drawer s) (p\<lparr>fp_pending := Some \<lparr>pa_id = te_attempt_id E (fp_id p), pa_body = body, pa_challenge = quote,
                pa_phase = Wallet, pa_spend_id = None, pa_approval_url = None, pa_wallet_status = None,
                pa_submitted_at = None\<rparr>, fp_status := ''awaiting_wallet''\<rparr>)"
      by (rule loaded_new [OF E s', where a = ?a]) (use cents in simp_all)
    then show "steady_till ms E (s\<lparr>tl_policy := (tl_policy s)\<lparr>fp_pending := Some \<lparr>pa_id = te_attempt_id E (fp_id (tl_policy s)),
        pa_body = body, pa_challenge = quote, pa_phase = Wallet, pa_spend_id = None, pa_approval_url = None,
        pa_wallet_status = None, pa_submitted_at = None\<rparr>, fp_status := ''awaiting_wallet''\<rparr>\<rparr>)"
      using s s' by simp
  qed
  have rest: "upto ?N (steady_till ms E)
     (bnd policy_of (\<lambda>p.
     if \<not> low (fp_settings p) available then set_policy (\<lambda>p. p\<lparr>fp_status := ''watching''\<rparr>)
     else
       bnd (room E (fs_amount_cents (fp_settings p)) (te_clock E 1)) (\<lambda>fits.
       if \<not> fits then set_policy (\<lambda>p. p\<lparr>fp_status := ''budget_exhausted''\<rparr>)
       else
         let body = jobj [(''amount_dollars'', JFloat (of_int (fs_amount_cents (fp_settings p)) / 100))] in
         bnd (ask_state (\<lambda>_. prepare_topup E url key body (fs_amount_cents (fp_settings p))
            (fs_max_charge_cents (fp_settings p)) (fs_terms_version (fp_settings p)))) (\<lambda>quote.
         bnd (room E (cg_charge_cents quote) (te_clock E 2)) (\<lambda>fits.
         if \<not> fits then set_policy (\<lambda>p. p\<lparr>fp_status := ''budget_exhausted''\<rparr>)
         else set_policy (\<lambda>p. p\<lparr>fp_pending := Some \<lparr>pa_id = te_attempt_id E (fp_id p), pa_body = body, pa_challenge = quote,
                pa_phase = Wallet, pa_spend_id = None, pa_approval_url = None, pa_wallet_status = None,
                pa_submitted_at = None\<rparr>, fp_status := ''awaiting_wallet''\<rparr>))))))" for available
    unfolding room_def Let_def
    by (intro upto_policy_of upto_if upto_ask; (rule upto_weaken [OF status] | rule upto_weaken [OF begin_it])?;
        (rule conjI)?; auto simp: open_steady)
  show ?thesis
    unfolding new_attempt_def
    by (rule upto_bnd [OF upto_keeps [OF bare_balance] _ rest]) (auto simp: open_steady)
qed

text \<open>What a check starts from: after a recovery, with a policy that was on the disk.\<close>

definition ready_till :: "(int \<Rightarrow> int result) \<Rightarrow> till_env \<Rightarrow> till \<Rightarrow> bool" where
  "ready_till ms E s = (steady_till ms E s \<and> not_submitting s \<and> old_pending E (tl_policy s))"

lemma ready_open:
  assumes "ready_till ms E s" and "\<not> in_phase Received (tl_policy s)" "\<not> in_phase Uncertain (tl_policy s)"
  shows "open_till ms E s"
proof -
  have "pa_submitted_at a = None" if a: "fp_pending (tl_policy s) = Some a" for a
  proof -
    have "pa_phase a = Wallet \<or> pa_phase a = Approval"
      using assms a by (cases "pa_phase a") (auto simp: ready_till_def not_submitting_def in_phase_def)
    then show ?thesis using assms(1) a by (auto simp: ready_till_def steady_till_def loaded_def policy_safe_def pending_ok_def)
  qed
  then show ?thesis using assms(1) by (simp add: ready_till_def open_till_def unsent_def)
qed

lemma advance_upto:
  assumes E: "sound_env ms E"
  shows "upto (ready_till ms E) (steady_till ms E) (advance E)"
proof -
  have steady: "ready_till ms E s \<Longrightarrow> steady_till ms E s" for s by (simp add: ready_till_def)
  have op: "upto (\<lambda>s. ready_till ms E s \<and> tl_policy s = p) (steady_till ms E)
       (bnd (ask_state (\<lambda>_. policy_key E p)) (\<lambda>key.
       bnd (ask_state (\<lambda>_. te_origin E (fp_config p))) (\<lambda>origin.
       bnd (ask_state (\<lambda>_. te_topup_url E origin)) (\<lambda>url.
       case fp_pending p of
         None \<Rightarrow> new_attempt E url key
       | Some a \<Rightarrow>
           if cg_expires_at (pa_challenge a) \<le> te_clock E 3 then abandon E ''watching''
           else if pa_phase a = Wallet then ask_wallet E a
           else check_approval E url key a))))"
    if "\<not> in_phase Received p" "\<not> in_phase Uncertain p" for p
  proof -
    have "upto (\<lambda>s. open_till ms E s \<and> tl_policy s = p) (steady_till ms E)
      (case fp_pending p of
         None \<Rightarrow> new_attempt E url key
       | Some a \<Rightarrow>
           if cg_expires_at (pa_challenge a) \<le> te_clock E 3 then abandon E ''watching''
           else if pa_phase a = Wallet then ask_wallet E a
           else check_approval E url key a)" for url key
    proof (cases "fp_pending p")
      case None
      then show ?thesis by (auto intro: upto_weaken [OF new_attempt_upto [OF E]])
    next
      case (Some a)
      then show ?thesis
        by (auto intro: upto_weaken [OF abandon_upto] upto_weaken [OF wallet_upto] upto_weaken [OF approval_upto [OF E]])
    qed
    note go = this
    have "upto (\<lambda>s. open_till ms E s \<and> tl_policy s = p) (steady_till ms E)
       (bnd (ask_state (\<lambda>_. policy_key E p)) (\<lambda>key.
       bnd (ask_state (\<lambda>_. te_origin E (fp_config p))) (\<lambda>origin.
       bnd (ask_state (\<lambda>_. te_topup_url E origin)) (\<lambda>url.
       case fp_pending p of
         None \<Rightarrow> new_attempt E url key
       | Some a \<Rightarrow>
           if cg_expires_at (pa_challenge a) \<le> te_clock E 3 then abandon E ''watching''
           else if pa_phase a = Wallet then ask_wallet E a
           else check_approval E url key a))))"
      by (intro upto_ask upto_weaken [OF go]) (auto simp: open_steady)
    then show ?thesis by (rule upto_weaken) (use that in \<open>auto intro: ready_open\<close>)
  qed
  show ?thesis
    unfolding advance_def
  proof (rule upto_ask, simp add: steady, rule upto_policy_of, rule upto_if)
    fix x p
    show "upto (\<lambda>s. (ready_till ms E s \<and> te_lock E = Ok x) \<and> tl_policy s = p) (steady_till ms E) (finish_charge E)"
      by (rule upto_weaken [OF finish_upto]) (auto simp: steady)
    assume r: "\<not> in_phase Received p"
    show "upto (\<lambda>s. (ready_till ms E s \<and> te_lock E = Ok x) \<and> tl_policy s = p) (steady_till ms E)
       (if \<not> fp_enabled p \<or> in_phase Uncertain p then ret ()
        else bnd (ask_state (\<lambda>_. policy_key E p)) (\<lambda>key.
       bnd (ask_state (\<lambda>_. te_origin E (fp_config p))) (\<lambda>origin.
       bnd (ask_state (\<lambda>_. te_topup_url E origin)) (\<lambda>url.
       case fp_pending p of
         None \<Rightarrow> new_attempt E url key
       | Some a \<Rightarrow>
           if cg_expires_at (pa_challenge a) \<le> te_clock E 3 then abandon E ''watching''
           else if pa_phase a = Wallet then ask_wallet E a
           else check_approval E url key a))))"
    proof (rule upto_if)
      assume "\<not> (\<not> fp_enabled p \<or> in_phase Uncertain p)"
      then have "\<not> in_phase Uncertain p" by simp
      note step = op [OF r this]
      show "upto (\<lambda>s. (ready_till ms E s \<and> te_lock E = Ok x) \<and> tl_policy s = p) (steady_till ms E)
       (bnd (ask_state (\<lambda>_. policy_key E p)) (\<lambda>key.
       bnd (ask_state (\<lambda>_. te_origin E (fp_config p))) (\<lambda>origin.
       bnd (ask_state (\<lambda>_. te_topup_url E origin)) (\<lambda>url.
       case fp_pending p of
         None \<Rightarrow> new_attempt E url key
       | Some a \<Rightarrow>
           if cg_expires_at (pa_challenge a) \<le> te_clock E 3 then abandon E ''watching''
           else if pa_phase a = Wallet then ask_wallet E a
           else check_approval E url key a))))" by (rule upto_weaken [OF step]) auto
    qed (auto simp: steady intro: upto_ret)
  qed
qed

section \<open>Requests and ticks\<close>

text \<open>A recovery changes the phase of the loaded policy only.\<close>

lemma recover_same:
  "pending_id (tl_policy (fst (recover_policy E s))) = pending_id (tl_policy s) \<and>
   fp_id (tl_policy (fst (recover_policy E s))) = fp_id (tl_policy s)"
proof (cases "fp_pending (tl_policy s)")
  case None
  then show ?thesis by (simp add: recover_policy_def policy_of_def ask_then ret_def)
next
  case (Some a)
  then show ?thesis
    by (auto simp: recover_policy_def policy_of_def ask_then when_op_def ret_def thn_def bnd_def set_policy_def modify_def
        write_policy_def durable_def stored_def Let_def set_phase_def pending_id_def ask_state_def split: disk.split)
qed

lemma recover_ready:
  "yields (\<lambda>s. steady_till ms E s \<and> old_pending E (tl_policy s)) (recover_policy E') (ready_till ms E)"
proof (rule yieldsI)
  fix s t x assume s: "steady_till ms E s \<and> old_pending E (tl_policy s)" and run: "recover_policy E' s = (t, Ok x)"
  have "steady_till ms E t \<and> not_submitting t" using recover_quiet [of ms E E'] s run unfolding yields_def by blast
  moreover have "pending_id (tl_policy t) = pending_id (tl_policy s)" using recover_same [of E' s] run by simp
  ultimately show "ready_till ms E t" using s by (simp add: ready_till_def old_pending_def)
qed

lemma checked_upto:
  assumes E: "sound_env ms E"
  shows "upto (ready_till ms E) (steady_till ms E) (checked_advance E)"
proof -
  have steady: "ready_till ms E s \<Longrightarrow> steady_till ms E s" for s by (simp add: ready_till_def)
  have due: "upto (ready_till ms E) (ready_till ms E) (set_policy (\<lambda>p. p\<lparr>fp_next_check_at := n\<rparr>))" for n
    by (rule upto_set_policy)
      (auto simp: ready_till_def steady_till_def not_submitting_def in_phase_def old_pending_def pending_id_def
        loaded_cong [of "p\<lparr>fp_next_check_at := n\<rparr>" p for p])
  have note_it: "upto (steady_till ms E) (steady_till ms E)
      (set_policy (\<lambda>p. if in_phase Uncertain p \<or> in_phase Received p then p else p\<lparr>fp_status := ''needs_attention''\<rparr>))"
    by (rule same_steady) auto
  have "upto (steady_till ms E) (steady_till ms E)
     (thn (when_op (\<not> is_ok r)
           (thn (recover_policy E)
                (set_policy (\<lambda>p. if in_phase Uncertain p \<or> in_phase Received p then p
                   else p\<lparr>fp_status := ''needs_attention''\<rparr>))))
         (write_policy E))" for r :: "unit result"
    by (rule upto_thn [OF _ _ upto_keeps [OF keeps_write_policy]])
      (auto simp: when_op_def intro!: upto_ret upto_thn [OF recover_upto _ note_it])
  note rest = upto_bnd [OF upto_attempted [OF advance_upto [OF E]] _ this]
  show ?thesis unfolding checked_advance_def by (rule upto_thn [OF due steady rest])
qed

lemma loaded_saved: "calm ms E s \<Longrightarrow> q \<in> set (dw_policies (tl_drawer s)) \<Longrightarrow> loaded E (tl_drawer s) q"
  by (auto simp: calm_def safe_def loaded_def)

definition idle_till :: "(int \<Rightarrow> int result) \<Rightarrow> till_env \<Rightarrow> till \<Rightarrow> bool" where
  "idle_till ms E s = (calm ms E s \<and> (\<forall>q \<in> set (dw_policies (tl_drawer s)). old_pending E q))"

lemma steady_calm: "steady_till ms E s \<Longrightarrow> calm ms E s" by (simp add: steady_till_def)
lemma idle_calm: "idle_till ms E s \<Longrightarrow> calm ms E s" by (simp add: idle_till_def)

lemma load_upto:
  assumes "upto (ready_till ms E) (steady_till ms E) m"
  shows "upto (\<lambda>s. calm ms E s \<and> old_pending E q \<and> q \<in> set (dw_policies (tl_drawer s))) (calm ms E)
    (thn (load_policy q) (thn (recover_policy E') m))"
proof -
  have "upto (\<lambda>s. calm ms E s \<and> old_pending E q \<and> q \<in> set (dw_policies (tl_drawer s)))
     (\<lambda>s. steady_till ms E s \<and> old_pending E (tl_policy s)) (load_policy q)"
    unfolding load_policy_def by (rule upto_set_policy) (auto intro: loaded_saved)
  moreover have "upto (\<lambda>s. steady_till ms E s \<and> old_pending E (tl_policy s)) (calm ms E) (recover_policy E')"
    by (rule upto_weaken [OF recover_upto]) (auto intro: steady_calm)
  moreover have "upto (ready_till ms E) (calm ms E) m" by (rule upto_weaken [OF assms]) (auto intro: steady_calm)
  ultimately show ?thesis
    by (intro upto_thn [where R = "\<lambda>s. steady_till ms E s \<and> old_pending E (tl_policy s)"] upto_thn_Ok [OF _ recover_ready])
      (auto intro: steady_calm)
qed

lemma disable_upto: "upto (ready_till ms E) (steady_till ms E) (disable_policy E')"
proof -
  have steady: "ready_till ms E s \<Longrightarrow> steady_till ms E s" for s by (simp add: ready_till_def)
  have off: "upto (ready_till ms E) (steady_till ms E) (set_policy (\<lambda>p. p\<lparr>fp_enabled := False\<rparr>))"
    by (rule upto_weaken [OF same_steady [where ms = ms and E = E]]) (auto simp: steady)
  have drop: "upto (\<lambda>s. steady_till ms E s \<and> tl_policy s = p) (steady_till ms E)
     (when_op (case fp_pending p of None \<Rightarrow> False | Some a \<Rightarrow> pa_submitted_at a = None)
           (case cancel_unsubmitted E' p of
              Inr _ \<Rightarrow> set_policy (\<lambda>p. p\<lparr>fp_pending := None\<rparr>)
            | Inl e \<Rightarrow> set_policy (\<lambda>p. p\<lparr>fp_status := ''needs_attention''\<rparr>)))" for p
  proof -
    have "upto (\<lambda>s. steady_till ms E s \<and> tl_policy s = p) (steady_till ms E) (set_policy (\<lambda>p. p\<lparr>fp_pending := None\<rparr>))"
      if "case fp_pending p of None \<Rightarrow> False | Some a \<Rightarrow> pa_submitted_at a = None"
      by (rule upto_set_policy)
        (use that in \<open>auto simp: steady_till_def intro: loaded_none split: option.splits\<close>)
    then show ?thesis
      by (auto simp: when_op_def intro!: upto_ret upto_weaken [OF same_steady [where ms = ms and E = E]] split: sum.split)
  qed
  have "upto (steady_till ms E) (steady_till ms E)
      (thn (set_policy (\<lambda>p. if fp_pending p = None then p\<lparr>fp_status := ''disabled''\<rparr> else p)) (write_policy E'))"
    by (intro upto_thn [where R = "steady_till ms E"] upto_keeps [OF keeps_write_policy] same_steady) auto
  note rest = upto_thn [OF drop _ this]
  show ?thesis
    unfolding disable_policy_def
    by (intro upto_thn [OF off] upto_policy_of rest) auto
qed

text \<open>A state in which a policy with the identity and no charge may be saved.\<close>

definition vacant :: "(int \<Rightarrow> int result) \<Rightarrow> till_env \<Rightarrow> string \<Rightarrow> till \<Rightarrow> bool" where
  "vacant ms E i s = (calm ms E s \<and> (\<forall>q. fp_id q = i \<longrightarrow> fp_pending q = None \<longrightarrow> loaded E (tl_drawer s) q))"

lemma vacant_unknown:
  assumes s: "calm ms E s" and none: "i \<notin> fp_id ` set (dw_policies (tl_drawer s))"
  shows "vacant ms E i s"
proof -
  have "ps_policy r \<noteq> i" if "r \<in> set (dw_posts (tl_drawer s))" for r
    using s none that by (auto simp: calm_def safe_def)
  then show ?thesis
    using s by (auto simp: vacant_def loaded_def policy_safe_def accounted_def pending_ok_def apart_def tagged_def pending_id_def)
qed

lemma vacant_known:
  assumes "steady_till ms E s" and "fp_id (tl_policy s) = i" and "fp_pending (tl_policy s) = None"
  shows "vacant ms E i s"
  using assms by (auto simp: vacant_def steady_till_def intro: loaded_none)

lemma upto_bnd_val:
  assumes "\<And>s t e. P s \<Longrightarrow> m s = (t, Inl e) \<Longrightarrow> Q t" and "\<And>s t x. P s \<Longrightarrow> m s = (t, Inr x) \<Longrightarrow> R x t"
    and "\<And>x. upto (R x) Q (f x)"
  shows "upto P Q (bnd m f)"
proof (rule uptoI)
  fix s assume s: "P s"
  obtain t r where m: "m s = (t, r)" by (cases "m s") auto
  show "Q (fst (bnd m f s))"
    using assms(1,2) [OF s] assms(3) m by (cases r) (auto simp: bnd_def upto_def)
qed

lemma known_policy:
  "upto (\<lambda>s. steady_till ms E s \<and> fp_id (tl_policy s) = i) (steady_till ms E) (recover_policy E')"
  "yields (\<lambda>s. steady_till ms E s \<and> fp_id (tl_policy s) = i) (recover_policy E') (\<lambda>s. steady_till ms E s \<and> fp_id (tl_policy s) = i)"
  using recover_upto [of ms E E'] recover_same [of E'] by (auto simp: upto_def yields_def) (metis fst_conv)+

lemma previous_vacant:
  assumes s: "idle_till ms E s" and run: "previous_policy E' dir f config k i s = (t, r)"
  shows "calm ms E t \<and> (\<forall>paid. r = Ok (Some paid) \<longrightarrow> vacant ms E i t)"
proof (cases "find (\<lambda>q. fp_id q = i) (dw_policies (tl_drawer s))")
  case None
  then have none: "i \<notin> fp_id ` set (dw_policies (tl_drawer s))" by (auto simp: find_None_iff)
  have "t = s" using None run by (simp add: previous_policy_def ask_then ret_def)
  then show ?thesis using vacant_unknown [OF idle_calm [OF s] none] s by (auto simp: idle_calm)
next
  case (Some q)
  then have q: "q \<in> set (dw_policies (tl_drawer s))" "fp_id q = i" by (auto simp: find_Some_iff)
  let ?s = "s\<lparr>tl_policy := q\<rparr>"
  obtain u x where rec: "recover_policy E' ?s = (u, x)" by (cases "recover_policy E' ?s") auto
  have st: "steady_till ms E ?s" using loaded_saved [OF idle_calm [OF s] q(1)] s by (simp add: idle_calm)
  then have "steady_till ms E (fst (recover_policy E' ?s))" using recover_upto [of ms E E'] unfolding upto_def by blast
  then have u: "steady_till ms E u" using rec by simp
  have i: "fp_id (tl_policy u) = i" using recover_same [of E' ?s] rec q by simp
  have "(t = s \<or> t = u) \<and> (\<forall>paid. r = Ok (Some paid) \<longrightarrow> t = u \<and> fp_pending (tl_policy u) = None)"
    using run Some rec
    by (auto simp: previous_policy_def ask_then thn_def bnd_def guard_def require_def load_policy_def set_policy_def modify_def
        policy_of_def ask_state_def ret_def split: if_splits sum.splits)
  then show ?thesis using s u vacant_known [OF u i] by (auto simp: idle_calm steady_calm)
qed

lemma configure_upto: "upto (idle_till ms E) (calm ms E) (configure E' dir f)"
proof -
  have save: "upto (vacant ms E i) (calm ms E) (thn (load_policy q) (write_policy E'))"
    if "fp_id q = i" "fp_pending q = None" for i q
  proof -
    have "upto (vacant ms E i) (steady_till ms E) (load_policy q)"
      unfolding load_policy_def by (rule upto_set_policy) (use that in \<open>auto simp: vacant_def\<close>)
    moreover have "upto (steady_till ms E) (calm ms E) (write_policy E')"
      by (rule upto_keeps [OF keeps_write_policy steady_calm])
    ultimately show ?thesis by (intro upto_thn [where R = "steady_till ms E"] steady_calm)
  qed
  have rest: "upto (idle_till ms E) (calm ms E) (bnd (previous_policy E' dir f config k i) (\<lambda>previous.
     case previous of
       None \<Rightarrow> ret ()
     | Some paid \<Rightarrow> thn (load_policy (q paid)) (write_policy E')))"
    if "\<And>paid. fp_id (q paid) = i \<and> fp_pending (q paid) = None" for config k i q
  proof (rule upto_bnd_val [where R = "\<lambda>previous s. calm ms E s \<and> (previous \<noteq> None \<longrightarrow> vacant ms E i s)"])
    fix previous
    show "upto (\<lambda>s. calm ms E s \<and> (previous \<noteq> None \<longrightarrow> vacant ms E i s)) (calm ms E)
        (case previous of None \<Rightarrow> ret () | Some paid \<Rightarrow> thn (load_policy (q paid)) (write_policy E'))"
      using save [of "q paid" i for paid] that by (cases previous) (auto intro: upto_ret upto_weaken)
  qed (auto dest: previous_vacant)
  have weak: "upto (idle_till ms E) (calm ms E) m \<Longrightarrow> (\<And>s. P s \<Longrightarrow> idle_till ms E s) \<Longrightarrow> upto P (calm ms E) m" for P m
    by (rule upto_weaken)
  show ?thesis
    unfolding configure_def Let_def
    by (intro upto_ask upto_guard upto_prod;
        (rule weak [OF rest])?; auto simp: idle_calm)
qed

lemma single_choice:
  assumes "(case ps of [] \<Rightarrow> bail a | [p] \<Rightarrow> and_then (require (f p) b) (\<lambda>_. Ok p) | p # q # r \<Rightarrow> bail c) = Ok x"
  shows "ps = [x]"
proof (cases ps)
  case Nil
  then show ?thesis using assms by simp
next
  case (Cons q qs)
  then show ?thesis using assms by (cases qs) (auto simp: and_then_Ok_iff)
qed

lemma find_policy_saved: "find_policy E dir provider d = Ok p \<Longrightarrow> p \<in> set (dw_policies d)"
proof -
  assume f: "find_policy E dir provider d = Ok p"
  then obtain ps where ps: "saved_policies d = Ok ps" and rest: "\<exists>g. filter g ps = [p]"
    unfolding find_policy_def Let_def and_then_Ok_iff by (elim exE conjE) (drule single_choice, blast)
  from rest obtain g where "filter g ps = [p]" ..
  moreover have "ps = dw_policies d" using ps by (simp add: saved_policies_def and_then_Ok_iff)
  ultimately have "p \<in> set (filter g (dw_policies d))" by simp
  then show ?thesis by simp
qed

lemma request_upto:
  assumes E: "sound_env ms E"
  shows "upto (idle_till ms E) (calm ms E) (run_request E dir r)"
proof -
  have on: "upto (idle_till ms E) (calm ms E) (bnd (ask_state (\<lambda>s. find_policy E dir provider (tl_drawer s))) (\<lambda>p.
            thn (load_policy p) (thn (recover_policy E) m)))"
    if "upto (ready_till ms E) (steady_till ms E) m" for provider m
    by (intro upto_ask upto_weaken [OF load_upto [OF that]]) (auto simp: idle_till_def dest: find_policy_saved)
  have "upto (ready_till ms E) (steady_till ms E) (ret ())" by (rule upto_ret) (simp add: ready_till_def)
  note on [OF this] on [OF disable_upto] on [OF checked_upto [OF E]]
  then show ?thesis unfolding run_request_def Let_def by (cases r) (auto intro: configure_upto)
qed

text \<open>What a run for one policy leaves alone.\<close>

definition beside :: "string \<Rightarrow> policy set \<Rightarrow> till \<Rightarrow> bool" where
  "beside i K s = (fp_id (tl_policy s) = i \<and> {q \<in> set (dw_policies (tl_drawer s)). fp_id q \<noteq> i} = K)"

lemma beside_set [keeps_rules]: "(\<And>p. fp_id (f p) = fp_id p) \<Longrightarrow> keeps (beside i K) (set_policy f)"
  unfolding set_policy_def by (rule keeps_modify) (simp add: beside_def)

lemma beside_policy_of [keeps_rules]: "(\<And>p. keeps I (f p)) \<Longrightarrow> keeps I (bnd policy_of f)"
  unfolding policy_of_def by (intro keeps_bnd keeps_ask)

lemma beside_stored: "(\<And>d. dw_policies (f d) = dw_policies d) \<Longrightarrow> beside i K s \<Longrightarrow> beside i K (stored f s)"
  by (simp add: beside_def stored_def Let_def)

lemma beside_durable [keeps_rules]: "(\<And>d. dw_policies (f d) = dw_policies d) \<Longrightarrow> keeps (beside i K) (durable E f)"
  by (rule keepsI) (auto simp: durable_def Let_def beside_def stored_def split: disk.split)

lemma beside_write [keeps_rules]: "keeps (beside i K) (write_policy E)"
  by (rule keepsI)
    (auto simp: write_policy_def policy_of_def ask_then durable_def Let_def beside_def stored_def put_file_facts split: disk.split)

lemma beside_attempted [keeps_rules]: "keeps I m \<Longrightarrow> keeps I (attempted m)"
  by (simp add: keeps_def attempted_def case_prod_beta)

lemma fp_id_same [simp]:
  "fp_id (set_phase h p) = fp_id p" "fp_id (update_pending f p) = fp_id p"
  by (simp_all add: set_phase_def update_pending_def)

lemma beside_recover [keeps_rules]: "keeps (beside i K) (recover_policy E)"
  unfolding recover_policy_def by (intro keeps_rules) auto

lemma beside_balance [keeps_rules]: "keeps (beside i K) (check_balance E key)"
  unfolding check_balance_def by (intro keeps_rules) auto

lemma beside_room [keeps_rules]: "keeps (beside i K) (room E cents n)"
  unfolding room_def by (intro keeps_rules)

lemma beside_finish [keeps_rules]: "keeps (beside i K) (finish_charge E)"
  unfolding finish_charge_def settle_charge_def by (intro keeps_rules) auto

lemma beside_abandon [keeps_rules]: "keeps (beside i K) (abandon E st)"
  unfolding abandon_def by (intro keeps_rules) auto

lemma beside_new [keeps_rules]: "keeps (beside i K) (new_attempt E url key)"
  unfolding new_attempt_def Let_def by (intro keeps_rules) auto

lemma beside_pay [keeps_rules]: "keeps (beside i K) (pay_topup E url key spt)"
  unfolding pay_topup_def by (intro keeps_rules beside_stored) auto

lemma beside_submit [keeps_rules]: "keeps (beside i K) (submit_charge E url key spt)"
  unfolding submit_charge_def by (intro keeps_rules) auto

lemma beside_approval [keeps_rules]: "keeps (beside i K) (check_approval E url key a)"
  unfolding check_approval_def approved_charge_def by (intro keeps_rules) auto

lemma beside_wallet [keeps_rules]: "keeps (beside i K) (ask_wallet E a)"
  unfolding ask_wallet_def by (intro keeps_rules) auto

lemma beside_checked: "keeps (beside i K) (checked_advance E)"
  unfolding checked_advance_def advance_def by (intro keeps_rules) auto

definition waiting :: "(int \<Rightarrow> int result) \<Rightarrow> till_env \<Rightarrow> policy list \<Rightarrow> till \<Rightarrow> bool" where
  "waiting ms E ps s = (calm ms E s \<and> (\<forall>q \<in> set ps. q \<in> set (dw_policies (tl_drawer s)) \<and> old_pending E q))"

lemma load_then: "thn (load_policy p) m s = m (s\<lparr>tl_policy := p\<rparr>)"
  by (simp add: load_policy_def set_policy_def thn_def bnd_def modify_def)

lemma tick_upto:
  assumes E: "sound_env ms E" and other: "fp_id p \<notin> fp_id ` set ps"
  shows "upto (waiting ms E (p # ps)) (waiting ms E ps) (tick_policy E dir p)"
proof (cases "fp_root p \<noteq> dir \<or> fp_next_check_at p > te_clock E 8")
  case True
  then show ?thesis unfolding tick_policy_def by (auto intro: upto_ret simp: waiting_def)
next
  case False
  let ?m = "thn (recover_policy E) (bnd policy_of (\<lambda>p. when_op (fp_enabled p \<or> in_phase Received p) (checked_advance E)))"
  have run: "tick_policy E dir p = thn (load_policy p) ?m" using False by (simp add: tick_policy_def)
  have "upto (ready_till ms E) (steady_till ms E)
      (bnd policy_of (\<lambda>p. when_op (fp_enabled p \<or> in_phase Received p) (checked_advance E)))"
    by (intro upto_policy_of) (auto simp: when_op_def ready_till_def intro!: upto_ret upto_weaken [OF checked_upto [OF E]])
  note calm = load_upto [OF this, of p E]
  show ?thesis
  proof (rule uptoI)
    fix s assume s: "waiting ms E (p # ps) s"
    let ?K = "{q \<in> set (dw_policies (tl_drawer s)). fp_id q \<noteq> fp_id p}"
    have "keeps (beside (fp_id p) ?K) ?m" by (intro keeps_rules beside_checked)
    moreover have "beside (fp_id p) ?K (s\<lparr>tl_policy := p\<rparr>)" by (simp add: beside_def)
    ultimately have "beside (fp_id p) ?K (fst (?m (s\<lparr>tl_policy := p\<rparr>)))" by (simp only: keeps_def)
    then have K: "beside (fp_id p) ?K (fst (tick_policy E dir p s))"
      by (simp only: run load_then)
    have "calm ms E (fst (tick_policy E dir p s))"
      using calm s unfolding run upto_def by (simp add: waiting_def)
    moreover have "q \<in> set (dw_policies (tl_drawer (fst (tick_policy E dir p s))))" if "q \<in> set ps" for q
    proof -
      have "fp_id q \<noteq> fp_id p" using that other by (metis imageI)
      then have "q \<in> ?K" using that s by (auto simp: waiting_def)
      then show ?thesis using K by (auto simp: beside_def)
    qed
    ultimately show "waiting ms E ps (fst (tick_policy E dir p s))" using s by (simp add: waiting_def)
  qed
qed

lemma ticks_upto:
  assumes E: "sound_env ms E"
  shows "distinct (map fp_id ps) \<Longrightarrow> upto (waiting ms E ps) (calm ms E) (each_op (tick_policy E dir) ps)"
proof (induction ps)
  case Nil
  then show ?case by (auto intro: upto_ret simp: waiting_def)
next
  case (Cons p ps)
  then have "upto (waiting ms E (p # ps)) (waiting ms E ps) (tick_policy E dir p)" by (intro tick_upto [OF E]) simp
  then show ?case
    unfolding each_op.simps by (rule upto_thn [OF _ _ Cons.IH]) (use Cons.prems in \<open>simp_all add: waiting_def\<close>)
qed

lemma topup_tick_upto:
  assumes E: "sound_env ms E"
  shows "upto (idle_till ms E) (calm ms E) (topup_tick E dir)"
proof (rule uptoI)
  fix s assume s: "idle_till ms E s"
  show "calm ms E (fst (topup_tick E dir s))"
  proof (cases "saved_policies (tl_drawer s)")
    case (Inl e)
    then show ?thesis using s by (simp add: topup_tick_def ask_then idle_calm)
  next
    case (Inr ps)
    then have ps: "ps = dw_policies (tl_drawer s)" by (simp add: saved_policies_def and_then_Ok_iff)
    have "waiting ms E ps s" using s ps by (simp add: waiting_def idle_till_def)
    moreover have "distinct (map fp_id ps)" using s ps by (simp add: idle_till_def calm_def safe_def)
    ultimately show ?thesis
      using ticks_upto [OF E] Inr unfolding upto_def by (simp add: topup_tick_def ask_then)
  qed
qed

section \<open>Histories\<close>

text \<open>
  A run starts from the directory, one at a time, since each takes the lock of the directory. It
  ends anywhere on its trail. The ids it may draw for new attempts are unused.
\<close>

definition opened :: "policy \<Rightarrow> drawer \<Rightarrow> till" where
  "opened p d = \<lparr>tl_drawer = d, tl_trail = [], tl_policy = p, tl_writes = 0\<rparr>"

definition unused_ids :: "till_env \<Rightarrow> drawer \<Rightarrow> bool" where
  "unused_ids E d = (attempts_posted d \<inter> drawn E = {} \<and> (\<forall>q \<in> set (dw_policies d). old_pending E q))"

inductive till_step :: "(int \<Rightarrow> int result) \<Rightarrow> drawer \<Rightarrow> drawer \<Rightarrow> bool" for ms where
  requested: "sound_env ms E \<Longrightarrow> unused_ids E d \<Longrightarrow> e \<in> set (tl_trail (fst (run_request E dir r (opened p d)))) \<Longrightarrow>
    till_step ms d e"
| ticked: "sound_env ms E \<Longrightarrow> unused_ids E d \<Longrightarrow> e \<in> set (tl_trail (fst (topup_tick E dir (opened p d)))) \<Longrightarrow>
    till_step ms d e"

definition empty_drawer :: drawer where
  "empty_drawer = \<lparr>dw_policies = [], dw_responses = [], dw_ledger = [], dw_posts = []\<rparr>"

definition till_reachable :: "(int \<Rightarrow> int result) \<Rightarrow> drawer \<Rightarrow> bool" where
  "till_reachable ms d = (till_step ms)\<^sup>*\<^sup>* empty_drawer d"

lemma opened_idle:
  assumes "safe ms d" and "unused_ids E d"
  shows "idle_till ms E (opened p d)"
  using assms by (auto simp: idle_till_def calm_def opened_def unused_ids_def tagged_def old_pending_def)

lemma step_safe: "till_step ms d e \<Longrightarrow> safe ms d \<Longrightarrow> safe ms e"
proof (induction rule: till_step.induct)
  case (requested E d e dir r p)
  then have "calm ms E (fst (run_request E dir r (opened p d)))"
    using request_upto [of ms E dir r] opened_idle [of ms d E p] by (auto simp: upto_def)
  then show ?case using requested by (auto simp: calm_def)
next
  case (ticked E d e dir p)
  then have "calm ms E (fst (topup_tick E dir (opened p d)))"
    using topup_tick_upto [of ms E dir] opened_idle [of ms d E p] by (auto simp: upto_def)
  then show ?case using ticked by (auto simp: calm_def)
qed

lemma drawer_safe: "till_reachable ms d \<Longrightarrow> safe ms d"
  unfolding till_reachable_def
proof (induction rule: rtranclp_induct)
  case base
  then show ?case by (simp add: safe_def empty_drawer_def limits_hold_def)
next
  case (step d e)
  then show ?case by (blast intro: step_safe)
qed

text \<open>
  C31. No charge is sent twice. Whatever the requests and ticks, the replies, the failures of the
  disk and the points at which runs are cut off, each attempt is paid by at most one payment
  request, and a payment request that is not in the ledger is the one pending attempt of its
  policy.
\<close>

theorem charged_once:
  assumes "till_reachable ms d"
  shows "distinct (map ps_attempt (dw_posts d)) \<and>
    (\<forall>q \<in> set (dw_posts d). \<exists>p \<in> set (dw_policies d). fp_id p = ps_policy q \<and>
       (in_ledger d q \<or> pending_id p = Some (ps_attempt q)))"
proof -
  have s: "safe ms d" by (rule drawer_safe [OF assms])
  have "\<exists>p \<in> set (dw_policies d). fp_id p = ps_policy q \<and> (in_ledger d q \<or> pending_id p = Some (ps_attempt q))"
    if q: "q \<in> set (dw_posts d)" for q
  proof -
    obtain p where p: "p \<in> set (dw_policies d)" "fp_id p = ps_policy q" using s q by (fastforce simp: safe_def)
    then have "accounted d p" using s by (auto simp: safe_def policy_safe_def)
    then have "in_ledger d q \<or> pending_id p = Some (ps_attempt q)"
      using q p(2) by (cases "fp_pending p") (auto simp: accounted_def pending_id_def split: if_splits)
    then show ?thesis using p by blast
  qed
  then show ?thesis using s by (simp add: safe_def)
qed

text \<open>
  C32. The approved limits hold. When a payment request is sent, its charge is within the cap of
  a charge, and the requests of its policy since the start of its month, itself included, are
  within the policy's monthly limit; a charge whose outcome is unknown counts.
\<close>

theorem month_within_limit:
  assumes "till_reachable ms d" and "dw_posts d = before @ q # after" and "ms (ps_at q) = Ok start"
  shows "ps_cents q \<le> ps_cap q \<and>
    sum_list (map ps_cents (filter (\<lambda>r. ps_policy r = ps_policy q \<and> start \<le> ps_at r) (before @ [q]))) \<le> ps_limit q"
proof -
  have "limits_hold ms (dw_posts d)" using drawer_safe [OF assms(1)] by (simp add: safe_def)
  then have "within_limit ms before q"
    unfolding limits_hold_def assms(2) by (auto dest: spec [of _ "length before"])
  then show ?thesis using assms(3) by (simp add: within_limit_def)
qed

end
