(* ===== verification/Topup_Examples.thy ===== *)
theory Topup_Examples
  imports Topup_Facts
begin

text \<open>
  A policy is configured and three checks make a quote, ask the wallet and pay; the theorems about
  charges apply to where they lead.
\<close>

definition tuara :: executor_config where
  "tuara = \<lparr>ec_kind = ''tuara'', ec_project = None, ec_account = None, ec_auth_mode = ''api'', ec_program = None, ec_model = None,
     ec_base_url = ''u'', ec_api_key_env = ''K'', ec_max_price = None, ec_max_tokens = 0, ec_max_api_cost_usd = None,
     ec_extra_body = [], ec_stream = False, ec_network = False\<rparr>"

definition shop_reply :: json where
  "shop_reply = JObj [(''data'', JObj [(''kind'', JStr ''api''), (''organizationId'', JStr ''o''), (''scopes'', JArr [JStr ''agent:manage''])]),
     (''buyer_id'', JStr ''b''), (''balance_units'', JInt 0), (''pending_units'', JInt 0), (''available_units'', JInt 0)]"

definition shop_wallet :: wallet_lib where
  "shop_wallet = \<lparr>wl_lock = Ok (), wl_command = Ok (), wl_run = (\<lambda>_. Ok ''r''),
     wl_json = (\<lambda>_. Some (JObj [(''id'', JStr ''lsrq_1''), (''status'', JStr ''approved''), (''shared_payment_token'', JStr ''spt_1''),
       (''credential_type'', JStr ''shared_payment_token''), (''amount'', JInt 2048), (''currency'', JStr ''usd''),
       (''network_id'', JStr ''profile_test'')])), wl_url = (\<lambda>_. None)\<rparr>"

definition shop :: "string \<Rightarrow> till_env" where
  "shop tag = \<lparr>te_disk = (\<lambda>_. Stored), te_clock = (\<lambda>_. 100), te_month_start = (\<lambda>_. Ok 0), te_lib = quoting, te_wallet = shop_wallet,
     te_lock = Ok (), te_configuration = (\<lambda>_. Ok tuara), te_key_hash = (\<lambda>_. Ok (Some ''p'')), te_credential = (\<lambda>_. Ok ''key''),
     te_sha256 = (\<lambda>_. ''p''), te_origin = (\<lambda>_. Ok ''u''), te_origin_id = (\<lambda>s. s), te_topup_url = (\<lambda>_. Ok ''u/v1''),
     te_get = (\<lambda>_ _ _. Ok shop_reply), te_quote = (\<lambda>_ _ _. Ok quoted_reply),
     te_pay = (\<lambda>_ _ _. Ok (quoted_reply\<lparr>hr_status := 200\<rparr>)), te_attempt_id = (\<lambda>i. tag @ i)\<rparr>"

definition shop_settings :: fund_settings where
  "shop_settings = \<lparr>fs_provider = ''tuara'', fs_threshold_cents = 500, fs_amount_cents = 2000, fs_max_charge_cents = 2048,
     fs_monthly_limit_cents = 4096, fs_terms_version = ''t'', fs_accept_terms = True, fs_test_mode = False\<rparr>"

definition no_policy :: policy where
  "no_policy = \<lparr>fp_version = 0, fp_id = [], fp_root = [], fp_settings = shop_settings, fp_config = tuara, fp_credential_hash = [],
     fp_organization_id = [], fp_enabled = False, fp_pending = None, fp_next_check_at = 0, fp_balance_units = None, fp_status = [],
     fp_last_payment = None\<rparr>"

text \<open>The directory after the configuration, the quote, the wallet and the payment.\<close>

definition shop_policy :: policy where
  "shop_policy = \<lparr>fp_version = 1, fp_id = ''p'', fp_root = ''/root'', fp_settings = shop_settings, fp_config = tuara,
     fp_credential_hash = ''p'', fp_organization_id = ''o'', fp_enabled = True, fp_pending = None, fp_next_check_at = 100,
     fp_balance_units = Some 0, fp_status = ''watching'', fp_last_payment = None\<rparr>"

definition shop_charge :: funding where
  "shop_charge = \<lparr>pa_id = ''bp'', pa_body = JObj [(''amount_dollars'', JFloat (2000 / 100))],
     pa_challenge = \<lparr>cg_wire = [(''id'', ''c1''), (''intent'', ''charge''), (''method'', ''stripe''), (''realm'', ''tuara''),
          (''request'', ''r'')], cg_charge_cents = 2048, cg_credit_units = 2000000000, cg_fee_units = 48000000,
        cg_network_id = ''profile_test'', cg_expires_at = 1000\<rparr>,
     pa_phase = Wallet, pa_spend_id = None, pa_approval_url = None, pa_wallet_status = None, pa_submitted_at = None\<rparr>"

definition asked_charge :: funding where
  "asked_charge = shop_charge\<lparr>pa_phase := Approval, pa_spend_id := Some ''lsrq_1'', pa_wallet_status := Some ''approved''\<rparr>"

definition drawer1 :: drawer where
  "drawer1 = empty_drawer\<lparr>dw_policies := [shop_policy]\<rparr>"

definition drawer2 :: drawer where
  "drawer2 = empty_drawer\<lparr>dw_policies := [shop_policy\<lparr>fp_pending := Some shop_charge, fp_next_check_at := 160,
     fp_status := ''awaiting_wallet''\<rparr>]\<rparr>"

definition drawer3 :: drawer where
  "drawer3 = empty_drawer\<lparr>dw_policies := [shop_policy\<lparr>fp_pending := Some asked_charge, fp_next_check_at := 160,
     fp_status := ''awaiting_approval''\<rparr>]\<rparr>"

definition drawer4 :: drawer where
  "drawer4 = \<lparr>dw_policies = [shop_policy\<lparr>fp_pending := Some (asked_charge\<lparr>pa_phase := Received, pa_submitted_at := Some 100\<rparr>),
       fp_next_check_at := 160, fp_status := ''payment_received''\<rparr>],
     dw_responses = [(''bp'', ''body'')], dw_ledger = [],
     dw_posts = [\<lparr>ps_policy = ''p'', ps_attempt = ''bp'', ps_cents = 2048, ps_at = 100, ps_limit = 4096, ps_cap = 2048\<rparr>]\<rparr>"

definition leads :: "string \<Rightarrow> request \<Rightarrow> drawer \<Rightarrow> drawer \<Rightarrow> bool" where
  "leads tag r d e =
     (case rev (tl_trail (fst (run_request (shop tag) ''/root'' r (opened no_policy d)))) of [] \<Rightarrow> False | x # _ \<Rightarrow> x = e)"

lemma shop_step:
  assumes "leads tag r d e" and "\<And>i. i \<in> set (map ps_attempt (dw_posts d)) \<Longrightarrow> \<not> prefix tag i"
    and "\<And>i. Some i \<in> set (map pending_id (dw_policies d)) \<Longrightarrow> \<not> prefix tag i"
  shows "till_step (\<lambda>_. Ok 0) d e"
proof (rule requested)
  have drawn: "i \<in> drawn (shop tag) \<longleftrightarrow> prefix tag i" for i by (auto simp: drawn_def shop_def prefix_def)
  show "sound_env (\<lambda>_. Ok 0) (shop tag)" by (simp add: sound_env_def shop_def inj_def)
  show "unused_ids (shop tag) d"
    unfolding unused_ids_def old_pending_def
  proof (intro conjI ballI allI impI)
    show "attempts_posted d \<inter> drawn (shop tag) = {}" using assms(2) drawn by (auto simp: attempts_posted_def)
    fix q i assume "q \<in> set (dw_policies d)" "pending_id q = Some i"
    then have "Some i \<in> set (map pending_id (dw_policies d))" by force
    then show "i \<notin> drawn (shop tag)" using assms(3) drawn by blast
  qed
  show "e \<in> set (tl_trail (fst (run_request (shop tag) ''/root'' r (opened no_policy d))))"
    using assms(1) unfolding leads_def
    by (cases "tl_trail (fst (run_request (shop tag) ''/root'' r (opened no_policy d)))" rule: rev_cases) auto
qed

lemma shop_configures: "leads ''a'' (Configure shop_settings) empty_drawer drawer1" by code_simp
lemma shop_quotes: "leads ''b'' (Check ''tuara'') drawer1 drawer2" by code_simp
lemma shop_asks: "leads ''c'' (Check ''tuara'') drawer2 drawer3" by code_simp
lemma shop_pays: "leads ''d'' (Check ''tuara'') drawer3 drawer4" by code_simp

lemmas drawer_defs = drawer1_def drawer2_def drawer3_def empty_drawer_def shop_policy_def pending_id_def shop_charge_def asked_charge_def

lemma drawer4_reachable: "till_reachable (\<lambda>_. Ok 0) drawer4"
proof -
  have "till_step (\<lambda>_. Ok 0) empty_drawer drawer1"
    by (rule shop_step [OF shop_configures]) (simp_all add: drawer_defs)
  moreover have "till_step (\<lambda>_. Ok 0) drawer1 drawer2"
    by (rule shop_step [OF shop_quotes]) (simp_all add: drawer_defs)
  moreover have "till_step (\<lambda>_. Ok 0) drawer2 drawer3"
    by (rule shop_step [OF shop_asks]) (simp_all add: drawer_defs)
  moreover have "till_step (\<lambda>_. Ok 0) drawer3 drawer4"
    by (rule shop_step [OF shop_pays]) (simp_all add: drawer_defs)
  ultimately show ?thesis unfolding till_reachable_def by (meson rtranclp.rtrancl_into_rtrancl rtranclp.rtrancl_refl)
qed

lemma charged_once_witness:
  "length (dw_posts drawer4) = 1 \<and> distinct (map ps_attempt (dw_posts drawer4))"
  using charged_once [OF drawer4_reachable] by (simp add: drawer4_def)

lemma month_within_limit_witness:
  "\<exists>q. dw_posts drawer4 = [q] \<and> ps_cents q = 2048 \<and> ps_cents q \<le> ps_cap q \<and> ps_cents q \<le> ps_limit q"
proof -
  obtain q where q: "dw_posts drawer4 = [q]" "ps_at q = 100" "ps_cents q = 2048" by (simp add: drawer4_def)
  then have "dw_posts drawer4 = [] @ q # []" by simp
  from month_within_limit [OF drawer4_reachable this refl] q show ?thesis by auto
qed

end
