(* ===== verification/Claims.thy ===== *)
theory Claims
  imports Store_Base
begin

text \<open>
  Write ownership (src/src/store.rs): workers claim path prefixes, hand them over and are
  checked against them before every write. \<open>claims_ok\<close> is the invariant of the claims table;
  its preservation rests on the path laws of \<open>repo\<close>, the interpretation of \<open>path_space\<close>.
\<close>

section \<open>Operations\<close>

definition claims_of :: "string \<Rightarrow> store \<Rightarrow> claim_row list" where
  "claims_of oid s = filter (\<lambda>c. cl_task c = oid) (claims s)"

definition claim_key :: "claim_row \<Rightarrow> string \<times> string" where
  "claim_key c = (cl_task c, cl_path c)"

text \<open>\<^verbatim>\<open>Store::claim\<close>.\<close>

definition claim :: "env \<Rightarrow> string \<Rightarrow> string \<Rightarrow> string list \<Rightarrow> (store, unit) oper" where
  "claim env oid wid paths =
     bnd (ask_state (get_worker wid)) (\<lambda>w.
     thn (guard (wk_task w = oid) ''wrong task'')
    (thn (guard (wk_workspace w \<noteq> None) ''register a workspace before claiming writes'')
    (bnd (ask_state (\<lambda>_. map_result scope paths)) (\<lambda>ps.
     atomic (
       bnd (ask_state (\<lambda>s. Ok (claims_of oid s))) (\<lambda>existing.
       thn (ask_state (\<lambda>_. each_result (\<lambda>p. each_result (\<lambda>c.
              require (\<not> (cl_worker c \<noteq> wid \<and> overlaps p (cl_path c))) ''claim conflict'')
              existing) ps))
      (thn (each_op (\<lambda>p. modify (\<lambda>s. s\<lparr>claims :=
              insert_ignore claim_key \<lparr>cl_task = oid, cl_path = p, cl_worker = wid\<rparr> (claims s)\<rparr>)) ps)
           (event env oid ''claims.acquired'' (jobj [(''worker'', JStr wid)])))))))))"

text \<open>\<^verbatim>\<open>Store::transfer\<close>.\<close>

definition transfer :: "env \<Rightarrow> string \<Rightarrow> string \<Rightarrow> string \<Rightarrow> string \<Rightarrow> (store, unit) oper" where
  "transfer env oid giver recipient path =
     bnd (ask_state (\<lambda>_. scope path)) (\<lambda>p.
     atomic (
       bnd (ask_state (get_worker recipient)) (\<lambda>w.
       thn (guard (\<not> (wk_task w \<noteq> oid \<or> wk_workspace w = None))
              ''recipient must have a registered workspace in this task'')
      (bnd (ask_state (\<lambda>s. Ok (claims_of oid s))) (\<lambda>cs.
       thn (guard (list_ex (\<lambda>c. cl_path c = p \<and> cl_worker c = giver) cs)
              ''claim is not owned by sender'')
      (thn (ask_state (\<lambda>_. each_result (\<lambda>c.
              require (\<not> (overlaps p (cl_path c) \<and> \<not> contains p (cl_path c) \<and> cl_worker c \<noteq> recipient))
                ''transfer the broader claim instead'') cs))
      (thn (each_op (\<lambda>c.
              if cl_worker c = giver \<and> contains p (cl_path c)
              then modify (\<lambda>s. s\<lparr>claims := update_rows
                     (\<lambda>d. cl_task d = oid \<and> cl_path d = cl_path c)
                     (\<lambda>d. d\<lparr>cl_worker := recipient\<rparr>) (claims s)\<rparr>)
              else ret ()) cs)
           (event env oid ''claim.transferred'' (jobj [(''from'', JStr giver), (''to'', JStr recipient),
              (''path'', JStr p), (''includes_descendants'', JBool True)])))))))))"

text \<open>\<^verbatim>\<open>Store::check_write\<close>.\<close>

definition check_write :: "string \<Rightarrow> string \<Rightarrow> store \<Rightarrow> unit result" where
  "check_write wid path s =
     and_then (scope path) (\<lambda>p.
       require (list_ex (\<lambda>c. contains (cl_path c) p) (filter (\<lambda>c. cl_worker c = wid) (claims s)))
         ''write outside declared scope'')"

definition release_claims :: "string \<Rightarrow> store \<Rightarrow> store" where
  "release_claims wid s = s\<lparr>claims := filter (\<lambda>c. cl_worker c \<noteq> wid) (claims s)\<rparr>"

section \<open>The invariant\<close>

definition claim_pairs :: "string \<Rightarrow> claim_row list \<Rightarrow> (string \<times> string) list" where
  "claim_pairs oid cs = map (\<lambda>c. (cl_path c, cl_worker c)) (filter (\<lambda>c. cl_task c = oid) cs)"

text \<open>
  Within a task, overlapping claims belong to one worker; the key of the table is unique; every
  claim belongs to a worker of its task and is a normalised path.
\<close>

definition exclusive_claims :: "store \<Rightarrow> bool" where
  "exclusive_claims s = (\<forall>oid. exclusive overlaps (claim_pairs oid (claims s)))"

definition owned_in_task :: "store \<Rightarrow> bool" where
  "owned_in_task s =
     (\<forall>c \<in> set (claims s). \<exists>w. get_worker (cl_worker c) s = Ok w \<and> wk_task w = cl_task c)"

definition claims_ok :: "store \<Rightarrow> bool" where
  "claims_ok s =
     (exclusive_claims s \<and> owned_in_task s \<and> distinct (map claim_key (claims s)) \<and>
      (\<forall>c \<in> set (claims s). scope (cl_path c) = Ok (cl_path c)))"

lemma claims_ok_empty: "claims_ok empty_store"
  by (simp add: claims_ok_def exclusive_claims_def owned_in_task_def empty_store_def claim_pairs_def)

lemma get_worker_cong: "workers t = workers s \<Longrightarrow> get_worker w t = get_worker w s"
  by (simp add: get_worker_def)

text \<open>The invariant reads the claims and the task of each worker.\<close>

definition claim_view :: "store \<Rightarrow> claim_row list \<times> worker_row list" where
  "claim_view s = (claims s, workers s)"

lemma claims_ok_frame: "claim_view t = claim_view s \<Longrightarrow> claims_ok s \<Longrightarrow> claims_ok t"
  by (simp add: claims_ok_def exclusive_claims_def owned_in_task_def claim_view_def get_worker_def)

lemma event_claims [simp]: "claims (fst (event env task kind data s)) = claims s"
  by (simp add: event_def Let_def)

lemma event_workers [simp]: "workers (fst (event env task kind data s)) = workers s"
  by (simp add: event_def Let_def)

lemma keeps_event_claims: "keeps claims_ok (event env task kind data)"
  by (rule keeps_frame [where f = claim_view]) (simp add: claim_view_def, erule (1) claims_ok_frame)

lemma scope_idem: "scope p = Ok q \<Longrightarrow> scope q = Ok q"
  by (erule scope_Ok) (simp add: scope_path_of)

lemma map_result_scope:
  "map_result scope paths = Ok ps \<Longrightarrow> p \<in> set ps \<Longrightarrow> scope p = Ok p"
  by (induction paths arbitrary: ps) (auto split: sum.splits intro: scope_idem)

section \<open>Claiming\<close>

definition claim_row_of :: "string \<Rightarrow> string \<Rightarrow> string \<Rightarrow> claim_row" where
  "claim_row_of oid wid p = \<lparr>cl_task = oid, cl_path = p, cl_worker = wid\<rparr>"

definition add_claims :: "string \<Rightarrow> string \<Rightarrow> string list \<Rightarrow> claim_row list \<Rightarrow> claim_row list" where
  "add_claims oid wid ps cs = fold (\<lambda>p cs. insert_ignore claim_key (claim_row_of oid wid p) cs) ps cs"

lemma insert_claims_eq:
  "each_op (\<lambda>p. modify (\<lambda>s::store. s\<lparr>claims :=
     insert_ignore claim_key \<lparr>cl_task = oid, cl_path = p, cl_worker = wid\<rparr> (claims s)\<rparr>)) ps =
   modify (\<lambda>s. s\<lparr>claims := add_claims oid wid ps (claims s)\<rparr>)"
proof -
  have "fold (\<lambda>p (s::store). s\<lparr>claims :=
      insert_ignore claim_key \<lparr>cl_task = oid, cl_path = p, cl_worker = wid\<rparr> (claims s)\<rparr>) ps s =
    s\<lparr>claims := add_claims oid wid ps (claims s)\<rparr>" for s
    by (induction ps arbitrary: s) (simp_all add: add_claims_def claim_row_of_def)
  then have "fold (\<lambda>p (s::store). s\<lparr>claims :=
      insert_ignore claim_key \<lparr>cl_task = oid, cl_path = p, cl_worker = wid\<rparr> (claims s)\<rparr>) ps =
    (\<lambda>s. s\<lparr>claims := add_claims oid wid ps (claims s)\<rparr>)" by (rule ext)
  then show ?thesis by (simp only: each_op_modify)
qed

lemma event_run_claims:
  "event env task kind data s = (t, r) \<Longrightarrow> claims t = claims s \<and> workers t = workers s"
  using event_claims [of env task kind data s] event_workers [of env task kind data s] by simp

lemma claim_Ok:
  assumes "claim env oid wid paths s = (t, Ok ())"
  shows "\<exists>w ps. get_worker wid s = Ok w \<and> wk_task w = oid \<and> wk_workspace w \<noteq> None \<and>
    map_result scope paths = Ok ps \<and>
    (\<forall>p \<in> set ps. \<forall>c \<in> set (claims_of oid s). overlaps p (cl_path c) \<longrightarrow> cl_worker c = wid) \<and>
    claims t = add_claims oid wid ps (claims s) \<and> workers t = workers s"
  using assms
  by (fastforce simp: claim_def run_iffs insert_claims_eq each_result_Ok_iff dest!: event_run_claims)

lemma set_add_claims:
  "set (add_claims oid wid ps cs) \<subseteq> set cs \<union> claim_row_of oid wid ` set ps"
proof (induction ps arbitrary: cs)
  case Nil
  then show ?case by (simp add: add_claims_def)
next
  case (Cons p ps)
  have "add_claims oid wid (p # ps) cs =
      add_claims oid wid ps (insert_ignore claim_key (claim_row_of oid wid p) cs)"
    by (simp add: add_claims_def)
  then show ?case
    using Cons [of "insert_ignore claim_key (claim_row_of oid wid p) cs"]
    by (auto simp: insert_ignore_def)
qed

lemma keys_add_claims:
  "set (map claim_key (add_claims oid wid ps cs)) = set (map claim_key cs) \<union> (\<lambda>p. (oid, p)) ` set ps"
  by (induction ps arbitrary: cs)
    (auto simp: add_claims_def insert_ignore_def claim_key_def claim_row_of_def)

lemma distinct_add_claims:
  "distinct (map claim_key cs) \<Longrightarrow> distinct (map claim_key (add_claims oid wid ps cs))"
  by (induction ps arbitrary: cs) (auto simp: add_claims_def insert_ignore_def)

lemma set_claim_pairs:
  "(p, w) \<in> set (claim_pairs oid cs) \<longleftrightarrow> \<lparr>cl_task = oid, cl_path = p, cl_worker = w\<rparr> \<in> set cs"
  by (auto simp: claim_pairs_def image_iff) (metis claim_row.surjective old.unit.exhaust)+

lemma claim_pairs_add:
  "set (claim_pairs o2 (add_claims oid wid ps cs)) \<subseteq>
     (if o2 = oid then set (claim_pairs oid cs) \<union> (\<lambda>p. (p, wid)) ` set ps else set (claim_pairs o2 cs))"
  using set_add_claims [of oid wid ps cs] by (auto simp: set_claim_pairs claim_row_of_def)

lemma claim_keeps_ok:
  assumes ok: "claims_ok s" and run: "claim env oid wid paths s = (t, Ok ())"
  shows "claims_ok t"
proof -
  obtain w ps where w: "get_worker wid s = Ok w" "wk_task w = oid" and wt: "workers t = workers s"
    and ps: "map_result scope paths = Ok ps"
    and free: "\<And>p c. p \<in> set ps \<Longrightarrow> c \<in> set (claims_of oid s) \<Longrightarrow> overlaps p (cl_path c) \<Longrightarrow> cl_worker c = wid"
    and t: "claims t = add_claims oid wid ps (claims s)"
    using claim_Ok [OF run] by blast
  have "exclusive overlaps (claim_pairs o2 (claims t))" for o2
  proof (cases "o2 = oid")
    case True
    show ?thesis
    proof (rule repo.exclusive_add)
      show "exclusive overlaps (claim_pairs oid (claims s))"
        using ok by (simp add: claims_ok_def exclusive_claims_def)
      show "p \<in> set ps \<Longrightarrow> (q, v) \<in> set (claim_pairs oid (claims s)) \<Longrightarrow> overlaps p q \<Longrightarrow> v = wid" for p q v
        using free [of p] by (fastforce simp: claim_pairs_def claims_of_def)
      show "set (claim_pairs o2 (claims t)) \<subseteq> set (claim_pairs oid (claims s)) \<union> (\<lambda>p. (p, wid)) ` set ps"
        using claim_pairs_add [of o2 oid wid ps "claims s"] True t by simp
    qed
  next
    case False
    then show ?thesis
      using ok claim_pairs_add [of o2 oid wid ps "claims s"] t
      by (auto simp: claims_ok_def exclusive_claims_def intro: exclusive_subset)
  qed
  moreover have "scope (cl_path c) = Ok (cl_path c)" if "c \<in> set (claims t)" for c
    using that ok set_add_claims [of oid wid ps "claims s"] map_result_scope [OF ps] t
    by (auto simp: claims_ok_def claim_row_of_def)
  moreover have "owned_in_task t"
    using ok w t set_add_claims [of oid wid ps "claims s"] get_worker_cong [OF wt]
    by (auto simp: claims_ok_def owned_in_task_def claim_row_of_def)
  ultimately show ?thesis
    using ok t by (simp add: claims_ok_def exclusive_claims_def distinct_add_claims)
qed

lemma keeps_atomicI:
  "(\<And>s t r. I s \<Longrightarrow> m s = (t, Ok r) \<Longrightarrow> I t) \<Longrightarrow> keeps I (atomic m)"
  by (auto simp: keeps_def atomic_def split: prod.split sum.split)

lemma claim_keeps: "keeps claims_ok (claim env oid wid paths)"
proof (rule keepsI)
  fix s assume ok: "claims_ok s"
  obtain t r where run: "claim env oid wid paths s = (t, r)" by (cases "claim env oid wid paths s")
  show "claims_ok (fst (claim env oid wid paths s))"
  proof (cases r)
    case (Inr u)
    with run ok show ?thesis by (simp add: claim_keeps_ok)
  next
    case (Inl e)
    with run have "t = s"
      by (auto simp: claim_def bnd_def thn_def ask_state_def guard_def require_def atomic_def
          split: prod.splits sum.splits if_splits)
    with run ok show ?thesis by simp
  qed
qed

section \<open>Handing over\<close>

definition moved :: "string \<Rightarrow> string \<Rightarrow> string \<Rightarrow> string \<Rightarrow> claim_row \<Rightarrow> claim_row" where
  "moved oid giver recipient p d =
     (if cl_task d = oid \<and> cl_worker d = giver \<and> contains p (cl_path d)
      then d\<lparr>cl_worker := recipient\<rparr> else d)"

lemma moved_simps [simp]:
  "cl_task (moved oid g r p d) = cl_task d" "cl_path (moved oid g r p d) = cl_path d"
  "claim_key (moved oid g r p d) = claim_key d"
  by (simp_all add: moved_def claim_key_def)

lemma transfer_loop:
  "each_op (\<lambda>c. if Q c then modify (\<lambda>s::store. s\<lparr>claims := update_rows
       (\<lambda>d. cl_task d = oid \<and> cl_path d = cl_path c) (\<lambda>d. d\<lparr>cl_worker := r\<rparr>) (claims s)\<rparr>) else ret ()) cs s =
   (s\<lparr>claims := update_rows (\<lambda>d. cl_task d = oid \<and> (\<exists>c \<in> set cs. Q c \<and> cl_path c = cl_path d))
       (\<lambda>d. d\<lparr>cl_worker := r\<rparr>) (claims s)\<rparr>, Ok ())"
proof (induction cs arbitrary: s)
  case Nil
  then show ?case by (simp add: ret_def update_rows_def)
next
  case (Cons c cs)
  have "update_rows (\<lambda>d. cl_task d = oid \<and> (\<exists>c \<in> set cs. Q c \<and> cl_path c = cl_path d))
       (\<lambda>d. d\<lparr>cl_worker := r\<rparr>) (update_rows (\<lambda>d. cl_task d = oid \<and> cl_path d = cl_path c) (\<lambda>d. d\<lparr>cl_worker := r\<rparr>) xs) =
     update_rows (\<lambda>d. cl_task d = oid \<and> (cl_path c = cl_path d \<or> (\<exists>c \<in> set cs. Q c \<and> cl_path c = cl_path d)))
       (\<lambda>d. d\<lparr>cl_worker := r\<rparr>) xs" for xs :: "claim_row list"
    by (auto simp: update_rows_def)
  with Cons show ?case by (simp add: thn_def bnd_def modify_def ret_def)
qed

lemma update_rows_moved:
  assumes dist: "distinct (map claim_key cs)"
  shows "update_rows (\<lambda>d. cl_task d = oid \<and>
      (\<exists>c \<in> set (filter (\<lambda>c. cl_task c = oid) cs). (cl_worker c = giver \<and> contains p (cl_path c)) \<and> cl_path c = cl_path d))
      (\<lambda>d. d\<lparr>cl_worker := r\<rparr>) cs = map (moved oid giver r p) cs"
  unfolding update_rows_def
proof (rule map_cong [OF refl])
  fix d assume d: "d \<in> set cs"
  have "c = d" if "c \<in> set cs" "cl_task c = cl_task d" "cl_path c = cl_path d" for c
  proof -
    from dist have "inj_on claim_key (set cs)" by (simp add: distinct_map)
    moreover have "claim_key c = claim_key d" using that by (simp add: claim_key_def)
    ultimately show ?thesis using that(1) d by (auto dest: inj_onD)
  qed
  then show "(if cl_task d = oid \<and>
      (\<exists>c \<in> set (filter (\<lambda>c. cl_task c = oid) cs). (cl_worker c = giver \<and> contains p (cl_path c)) \<and> cl_path c = cl_path d)
      then d\<lparr>cl_worker := r\<rparr> else d) = moved oid giver r p d"
    using d by (simp add: moved_def) metis
qed

lemma claims_of_simps: "c \<in> set (claims_of oid s) \<longleftrightarrow> c \<in> set (claims s) \<and> cl_task c = oid"
  by (auto simp: claims_of_def)

lemma transfer_Ok:
  assumes run: "transfer env oid giver recipient path s = (t, Ok ())"
    and dist: "distinct (map claim_key (claims s))"
  shows "\<exists>w p. scope path = Ok p \<and> get_worker recipient s = Ok w \<and> wk_task w = oid \<and>
    (\<exists>c \<in> set (claims_of oid s). cl_path c = p \<and> cl_worker c = giver) \<and>
    (\<forall>c \<in> set (claims_of oid s). overlaps p (cl_path c) \<longrightarrow> \<not> contains p (cl_path c) \<longrightarrow> cl_worker c = recipient) \<and>
    claims t = map (moved oid giver recipient p) (claims s) \<and> workers t = workers s"
proof -
  obtain p w u where "scope path = Ok p" "get_worker recipient s = Ok w" "wk_task w = oid"
    and own: "list_ex (\<lambda>c. cl_path c = p \<and> cl_worker c = giver) (claims_of oid s)"
    and above: "each_result (\<lambda>c. require (\<not> (overlaps p (cl_path c) \<and> \<not> contains p (cl_path c) \<and>
        cl_worker c \<noteq> recipient)) ''transfer the broader claim instead'') (claims_of oid s) = Ok ()"
    and t: "event env oid ''claim.transferred'' (jobj [(''from'', JStr giver), (''to'', JStr recipient),
        (''path'', JStr p), (''includes_descendants'', JBool True)])
      (s\<lparr>claims := update_rows (\<lambda>d. cl_task d = oid \<and> (\<exists>c \<in> set (claims_of oid s).
         (cl_worker c = giver \<and> contains p (cl_path c)) \<and> cl_path c = cl_path d))
         (\<lambda>d. d\<lparr>cl_worker := recipient\<rparr>) (claims s)\<rparr>) = (t, Ok ())"
    using run unfolding transfer_def by (simp only: run_iffs transfer_loop prod.inject) auto
  moreover have "claims t = map (moved oid giver recipient p) (claims s) \<and> workers t = workers s"
    using event_run_claims [OF t] update_rows_moved [OF dist, of oid giver p recipient]
    by (simp add: claims_of_def)
  ultimately show ?thesis
    by (auto simp: each_result_Ok_iff list_ex_iff)
qed

lemma transfer_keeps_ok:
  assumes ok: "claims_ok s" and run: "transfer env oid giver recipient path s = (t, Ok ())"
  shows "claims_ok t"
proof -
  obtain w p where w: "get_worker recipient s = Ok w" "wk_task w = oid"
    and above: "\<And>c. c \<in> set (claims_of oid s) \<Longrightarrow> overlaps p (cl_path c) \<Longrightarrow>
        \<not> contains p (cl_path c) \<Longrightarrow> cl_worker c = recipient"
    and t: "claims t = map (moved oid giver recipient p) (claims s)" and wt: "workers t = workers s"
    using transfer_Ok [OF run] ok by (auto simp: claims_ok_def)
  have "exclusive overlaps (claim_pairs o2 (claims t))" for o2
  proof (cases "o2 = oid")
    case True
    have "claim_pairs oid (claims t) =
        map (\<lambda>(q, u). (q, if u = giver \<and> contains p q then recipient else u)) (claim_pairs oid (claims s))"
      by (simp add: t claim_pairs_def filter_map o_def) (simp add: moved_def)
    moreover have "exclusive overlaps \<dots>"
      using ok above
      by (intro repo.exclusive_handover)
        (auto simp: claims_ok_def exclusive_claims_def claim_pairs_def claims_of_def)
    ultimately show ?thesis using True by simp
  next
    case False
    have "map (\<lambda>c. (cl_path c, cl_worker c)) (filter (\<lambda>c. cl_task c = o2) (map (moved oid giver recipient p) cs)) =
        map (\<lambda>c. (cl_path c, cl_worker c)) (filter (\<lambda>c. cl_task c = o2) cs)" for cs
      using False by (induction cs) (simp_all add: moved_def)
    then have "claim_pairs o2 (claims t) = claim_pairs o2 (claims s)"
      by (simp add: t claim_pairs_def)
    then show ?thesis using ok by (simp add: claims_ok_def exclusive_claims_def)
  qed
  moreover have "owned_in_task t"
    using ok w t get_worker_cong [OF wt] by (auto simp: claims_ok_def owned_in_task_def moved_def)
  moreover have "map claim_key (claims t) = map claim_key (claims s)" by (simp add: t o_def)
  ultimately show ?thesis
    using ok by (auto simp: claims_ok_def exclusive_claims_def t [THEN arg_cong [where f = set]])
qed

lemma transfer_keeps: "keeps claims_ok (transfer env oid giver recipient path)"
proof (rule keepsI)
  fix s assume ok: "claims_ok s"
  obtain t r where run: "transfer env oid giver recipient path s = (t, r)"
    by (cases "transfer env oid giver recipient path s")
  show "claims_ok (fst (transfer env oid giver recipient path s))"
  proof (cases r)
    case (Inr u)
    with run ok show ?thesis by (simp add: transfer_keeps_ok)
  next
    case (Inl e)
    with run have "t = s"
      unfolding transfer_def ask_then by (cases "scope path") (simp_all, rule atomic_Err_state)
    with run ok show ?thesis by simp
  qed
qed

lemma release_pairs:
  "set (claim_pairs oid (claims (release_claims wid s))) \<subseteq> set (claim_pairs oid (claims s))"
  by (auto simp: release_claims_def claim_pairs_def)

lemma release_keeps: "claims_ok s \<Longrightarrow> claims_ok (release_claims wid s)"
proof -
  assume ok: "claims_ok s"
  have "exclusive overlaps (claim_pairs oid (claims (release_claims wid s)))" for oid
    using ok release_pairs [of oid wid s]
    by (auto simp: claims_ok_def exclusive_claims_def intro: exclusive_subset)
  then show ?thesis
    using ok by (auto simp: claims_ok_def exclusive_claims_def owned_in_task_def release_claims_def
        get_worker_def distinct_map_filter)
qed


section \<open>Every history of ownership operations\<close>

text \<open>
  The operations that write the claims table or add workers, with any arguments and any outcome;
  \<open>other\<close> stands for every operation that changes neither the claims nor the task of a worker.
\<close>

inductive ownership_step :: "store \<Rightarrow> store \<Rightarrow> bool" where
  claiming: "ownership_step s (fst (claim env oid wid paths s))"
| handing_over: "ownership_step s (fst (transfer env oid giver recipient path s))"
| releasing: "ownership_step s (release_claims wid s)"
| registering: "ownership_step s (fst (register env wid token oid stp s))"
| other: "claims t = claims s \<Longrightarrow> map wk_id (workers t) = map wk_id (workers s) \<Longrightarrow>
    map wk_task (workers t) = map wk_task (workers s) \<Longrightarrow> ownership_step s t"

definition ownership_reachable :: "store \<Rightarrow> bool" where
  "ownership_reachable s = ownership_step\<^sup>*\<^sup>* empty_store s"

lemma owned_other:
  assumes "claims t = claims s" "map wk_id (workers t) = map wk_id (workers s)"
    "map wk_task (workers t) = map wk_task (workers s)" "owned_in_task s"
  shows "owned_in_task t"
  using assms(1,4) find_same_keys [OF assms(2,3) [symmetric]]
  by (fastforce simp: owned_in_task_def get_worker_def context_of_Ok_iff)

text \<open>Registration appends one worker, whose identifier is new.\<close>

lemma find_append_key:
  "find (\<lambda>w. wk_id w = i) xs = Some w \<Longrightarrow> find (\<lambda>w. wk_id w = i) (xs @ ys) = Some w"
  by (induction xs) auto

lemma register_claims:
  "\<exists>ws. workers (fst (register env wid token oid stp s)) = workers s @ ws \<and>
     claims (fst (register env wid token oid stp s)) = claims s"
proof -
  have "keeps (\<lambda>t. \<exists>ws. workers t = workers s @ ws \<and> claims t = claims s) (register env wid token oid stp)"
    unfolding register_def by (intro keeps_rules) auto
  then show ?thesis by (simp add: keeps_def)
qed

lemma register_keeps: "claims_ok s \<Longrightarrow> claims_ok (fst (register env wid token oid stp s))"
proof -
  assume ok: "claims_ok s"
  obtain ws where t: "workers (fst (register env wid token oid stp s)) = workers s @ ws"
      "claims (fst (register env wid token oid stp s)) = claims s"
    using register_claims by blast
  have "owned_in_task (fst (register env wid token oid stp s))"
    using ok find_append_key
    by (fastforce simp: claims_ok_def owned_in_task_def get_worker_def context_of_Ok_iff t)
  then show ?thesis
    using ok by (simp add: claims_ok_def exclusive_claims_def t)
qed

lemma ownership_step_keeps: "ownership_step s t \<Longrightarrow> claims_ok s \<Longrightarrow> claims_ok t"
proof (induction rule: ownership_step.induct)
  case (claiming s env oid wid paths)
  then show ?case using claim_keeps by (simp add: keeps_def)
next
  case (handing_over s env oid giver recipient path)
  then show ?case using transfer_keeps by (simp add: keeps_def)
next
  case (releasing s wid)
  then show ?case by (rule release_keeps)
next
  case (registering s env wid token oid stp)
  then show ?case by (rule register_keeps)
next
  case (other t s)
  then show ?case using owned_other by (simp add: claims_ok_def exclusive_claims_def)
qed

lemma reachable_claims_ok: "ownership_reachable s \<Longrightarrow> claims_ok s"
  unfolding ownership_reachable_def
  by (induction rule: rtranclp_induct) (auto intro: claims_ok_empty ownership_step_keeps)

lemma check_write_Ok:
  "check_write wid path s = Ok () \<longleftrightarrow>
     (\<exists>p. scope path = Ok p \<and> (\<exists>c \<in> set (claims s). cl_worker c = wid \<and> contains (cl_path c) p))"
  by (auto simp: check_write_def and_then_Ok_iff list_ex_iff)

lemma claims_ok_single_writer:
  assumes ok: "claims_ok s" and "check_write w1 path s = Ok ()" and "check_write w2 path s = Ok ()"
    and w: "get_worker w1 s = Ok r1" "get_worker w2 s = Ok r2" "wk_task r1 = wk_task r2"
  shows "w1 = w2"
proof -
  obtain p c1 c2 where p: "scope path = Ok p"
    and c: "c1 \<in> set (claims s)" "cl_worker c1 = w1" "contains (cl_path c1) p"
      "c2 \<in> set (claims s)" "cl_worker c2 = w2" "contains (cl_path c2) p"
    using assms(2,3) by (auto simp: check_write_Ok)
  have tasks: "cl_task c1 = wk_task r1" "cl_task c2 = wk_task r1"
    using ok c w by (fastforce simp: claims_ok_def owned_in_task_def)+
  have "exclusive overlaps (claim_pairs (wk_task r1) (claims s))"
    using ok by (simp add: claims_ok_def exclusive_claims_def)
  moreover have "(cl_path c1, w1) \<in> set (claim_pairs (wk_task r1) (claims s))"
    "(cl_path c2, w2) \<in> set (claim_pairs (wk_task r1) (claims s))"
    using c tasks by (auto simp: claim_pairs_def)
  ultimately show ?thesis
    using c(3,6) by (rule repo.exclusive_writer)
qed

section \<open>Properties\<close>

text \<open>
  C1. One writer per path. After any history of registrations, claims, transfers and releases,
  if two workers of the same task both pass the write check for a path, they are the same worker.
\<close>

theorem single_writer_per_path:
  assumes "ownership_reachable s"
    and "check_write w1 path s = Ok ()" and "check_write w2 path s = Ok ()"
    and "get_worker w1 s = Ok r1" and "get_worker w2 s = Ok r2" and "wk_task r1 = wk_task r2"
  shows "w1 = w2"
  using claims_ok_single_writer [OF reachable_claims_ok [OF assms(1)] assms(2-6)] .

text \<open>
  C5. Ownership moves as a whole. A transfer that succeeds gives the recipient every claim of the
  giver at or below the path, changes no other claim and no path, and the giver can no longer
  write anywhere below it; a transfer that fails changes nothing.
\<close>

theorem transfer_moves_subtree:
  assumes "claims_ok s" and "transfer env oid giver recipient path s = (t, Ok ())" and "giver \<noteq> recipient"
  shows "claims_ok t \<and>
    (\<exists>p. scope path = Ok p \<and> claims t = map (moved oid giver recipient p) (claims s) \<and>
      (\<forall>w q n. scope q = Ok n \<longrightarrow> contains p n \<longrightarrow> get_worker giver s = Ok w \<longrightarrow> wk_task w = oid \<longrightarrow>
         check_write giver q t \<noteq> Ok () \<and>
         (check_write giver q s = Ok () \<longrightarrow> check_write recipient q t = Ok ())))"
proof -
  obtain w p where p: "scope path = Ok p"
    and above: "\<And>c. c \<in> set (claims_of oid s) \<Longrightarrow> overlaps p (cl_path c) \<Longrightarrow>
        \<not> contains p (cl_path c) \<Longrightarrow> cl_worker c = recipient"
    and t: "claims t = map (moved oid giver recipient p) (claims s)"
    using transfer_Ok [OF assms(2)] assms(1) by (auto simp: claims_ok_def)
  have "check_write giver q t \<noteq> Ok () \<and> (check_write giver q s = Ok () \<longrightarrow> check_write recipient q t = Ok ())"
    if q: "scope q = Ok n" "contains p n" and w: "get_worker giver s = Ok w" "wk_task w = oid" for w q n
  proof -
    have below: "contains p (cl_path c)" if "c \<in> set (claims s)" "cl_worker c = giver" "contains (cl_path c) n" for c
    proof (rule ccontr)
      assume nc: "\<not> contains p (cl_path c)"
      have "cl_task c = oid" using assms(1) that w by (fastforce simp: claims_ok_def owned_in_task_def)
      moreover have "overlaps p (cl_path c)" using q(2) that(3) by (rule contains_common)
      ultimately show False using above [of c] nc that assms(3) by (simp add: claims_of_simps)
    qed
    have mv: "cl_worker (moved oid giver recipient p c) = recipient"
      if "c \<in> set (claims s)" "cl_worker c = giver" "contains (cl_path c) n" for c
      using below [OF that] that assms(1) w
      by (fastforce simp: moved_def claims_ok_def owned_in_task_def)
    have orig: "cl_worker c = giver" if "cl_worker (moved oid giver recipient p c) = giver" for c
      using that assms(3) by (auto simp: moved_def split: if_splits)
    have "check_write giver q t \<noteq> Ok ()"
    proof
      assume "check_write giver q t = Ok ()"
      then obtain c where c: "c \<in> set (claims s)" "cl_worker (moved oid giver recipient p c) = giver"
          "contains (cl_path c) n"
        using q(1) by (auto simp: check_write_Ok t)
      show False using mv [OF c(1) orig [OF c(2)] c(3)] c(2) assms(3) by simp
    qed
    moreover have "check_write recipient q t = Ok ()" if "check_write giver q s = Ok ()"
    proof -
      from that obtain c where c: "c \<in> set (claims s)" "cl_worker c = giver" "contains (cl_path c) n"
        using q(1) by (auto simp: check_write_Ok)
      have "moved oid giver recipient p c \<in> set (claims t)" using c(1) by (simp add: t)
      then show ?thesis
        using mv [OF c] c(3) q(1) by (metis check_write_Ok moved_simps(2))
    qed
    ultimately show ?thesis by blast
  qed
  then show ?thesis
    using p t transfer_keeps_ok [OF assms(1,2)] by blast
qed

text \<open>Two registered workers, the first of which claims a directory.\<close>

definition two_workers :: store where
  "two_workers =
     (fst \<circ> register sample_env ''w2'' ''k2'' ''t'' None \<circ> fst \<circ> register sample_env ''w1'' ''k1'' ''t'' None)
       (empty_store\<lparr>tasks := [sample_task ''t'']\<rparr>)"

definition two_workspaces :: store where
  "two_workspaces = two_workers\<lparr>workers :=
     map (\<lambda>w. w\<lparr>wk_workspace := Some ''ws''\<rparr>) (workers two_workers)\<rparr>"

definition owner_example :: store where
  "owner_example = fst (claim sample_env ''t'' ''w1'' [''src/a'', ''docs''] two_workspaces)"

lemma owner_example_reachable: "ownership_reachable owner_example"
proof -
  have "ownership_step empty_store (empty_store\<lparr>tasks := [sample_task ''t'']\<rparr>)"
    by (rule ownership_step.other) simp_all
  moreover have "ownership_step two_workers two_workspaces"
    by (rule ownership_step.other) (simp_all add: two_workspaces_def o_def)
  ultimately show ?thesis
    unfolding ownership_reachable_def owner_example_def two_workers_def o_def
    by (meson ownership_step.claiming ownership_step.registering rtranclp.rtrancl_into_rtrancl
        rtranclp.rtrancl_refl)
qed

lemma owner_example_facts:
  "is_ok (snd (claim sample_env ''t'' ''w1'' [''src/a'', ''docs''] two_workspaces))"
  "check_write ''w1'' ''src/a/b.rs'' owner_example = Ok ()"
  "map_option wk_task (find (\<lambda>w. wk_id w = ''w1'') (workers owner_example)) = Some ''t''"
  "map_option wk_task (find (\<lambda>w. wk_id w = ''w2'') (workers owner_example)) = Some ''t''"
  by code_simp+

lemma single_writer_per_path_witness:
  "check_write ''w1'' ''src/a/b.rs'' owner_example = Ok () \<and>
   check_write ''w2'' ''src/a/b.rs'' owner_example \<noteq> Ok ()"
proof -
  obtain r1 r2 where "get_worker ''w1'' owner_example = Ok r1" "wk_task r1 = ''t''"
      "get_worker ''w2'' owner_example = Ok r2" "wk_task r2 = ''t''"
    using owner_example_facts(3,4) by (auto simp: get_worker_def)
  then show ?thesis
    using single_writer_per_path [OF owner_example_reachable owner_example_facts(2), of "''w2''" r1 r2]
      owner_example_facts(2) by auto
qed

definition handed_example :: store where
  "handed_example = fst (transfer sample_env ''t'' ''w1'' ''w2'' ''src/a'' owner_example)"

lemma handed_example_run:
  "transfer sample_env ''t'' ''w1'' ''w2'' ''src/a'' owner_example = (handed_example, Ok ())"
proof -
  have "snd (transfer sample_env ''t'' ''w1'' ''w2'' ''src/a'' owner_example) = Ok ()" by code_simp
  then show ?thesis by (simp add: handed_example_def prod_eq_iff)
qed

lemma transfer_moves_subtree_witness:
  "claims_ok handed_example \<and> check_write ''w2'' ''src/a/b.rs'' handed_example = Ok () \<and>
   check_write ''w1'' ''src/a/b.rs'' handed_example \<noteq> Ok ()"
proof -
  obtain w where w: "get_worker ''w1'' owner_example = Ok w" "wk_task w = ''t''"
    using owner_example_facts(3) by (auto simp: get_worker_def)
  have n: "scope ''src/a'' = Ok ''src/a''" "scope ''src/a/b.rs'' = Ok ''src/a/b.rs''"
      "contains ''src/a'' ''src/a/b.rs''"
    by code_simp+
  show ?thesis
    using transfer_moves_subtree
        [OF reachable_claims_ok [OF owner_example_reachable] handed_example_run]
      owner_example_facts(2) n w by fastforce
qed

end
