(* ===== verification/Mailbox_Facts.thy ===== *)
theory Mailbox_Facts
  imports Mailbox
begin

text \<open>
  What the mailbox promises: no unread message is ever behind its reader's cursor, resending is
  idempotent, mail stays inside the task and never reaches the operator identity, and follow-up
  workers cannot wake the task with a broadcast.
\<close>

section \<open>The interface of an ordered log with consumer cursors\<close>

text \<open>
  A consumer's cursor is safe when every entry the consumer has not acknowledged lies strictly
  after it.
\<close>

definition cursor_safe :: "('c \<Rightarrow> 's \<Rightarrow> int set) \<Rightarrow> ('c \<Rightarrow> 's \<Rightarrow> int) \<Rightarrow> ('s \<Rightarrow> int) \<Rightarrow> 's \<Rightarrow> bool" where
  "cursor_safe pending cursor newest s =
     (\<forall>c. cursor c s \<le> newest s \<and> (\<forall>q \<in> pending c s. cursor c s < q \<and> q \<le> newest s))"

locale cursor_log =
  fixes pending :: "'c \<Rightarrow> 's \<Rightarrow> int set"
    and cursor :: "'c \<Rightarrow> 's \<Rightarrow> int"
    and newest :: "'s \<Rightarrow> int"
    and good :: "'s \<Rightarrow> bool"
    and move :: "'s \<Rightarrow> 's \<Rightarrow> bool"
  assumes move_good: "good s \<Longrightarrow> move s t \<Longrightarrow> good t"
    and move_top: "good s \<Longrightarrow> move s t \<Longrightarrow> newest s \<le> newest t"
    and move_consumer: "good s \<Longrightarrow> move s t \<Longrightarrow>
      (cursor c t = cursor c s \<and> pending c t \<subseteq> pending c s \<union> {newest s <.. newest t}) \<or>
      (cursor c t \<le> newest t \<and> (\<forall>q \<in> pending c t. cursor c t < q \<and> q \<le> newest t))"
begin

lemma move_safe:
  assumes "good s" "cursor_safe pending cursor newest s" "move s t"
  shows "cursor_safe pending cursor newest t"
  unfolding cursor_safe_def
proof
  fix c
  from assms(2) have safe: "cursor c s \<le> newest s" "\<And>q. q \<in> pending c s \<Longrightarrow> cursor c s < q \<and> q \<le> newest s"
    by (auto simp: cursor_safe_def)
  from move_consumer [OF assms(1,3), of c]
  show "cursor c t \<le> newest t \<and> (\<forall>q \<in> pending c t. cursor c t < q \<and> q \<le> newest t)"
    using safe move_top [OF assms(1,3)] by (elim disjE conjE) (fastforce, blast)
qed

lemma reachable_safe:
  assumes "move\<^sup>*\<^sup>* s t" "good s" "cursor_safe pending cursor newest s"
  shows "good t \<and> cursor_safe pending cursor newest t"
  using assms
proof (induction rule: rtranclp_induct)
  case base
  then show ?case by blast
next
  case (step t u)
  then show ?case using move_good [of t u] move_safe [of t u] by blast
qed

end

section \<open>The mailbox as such a log\<close>

definition pending_seqs :: "string \<Rightarrow> store \<Rightarrow> int set" where
  "pending_seqs wid s = ms_seq ` set (unread wid s)"

definition cursor_of :: "string \<Rightarrow> store \<Rightarrow> int" where
  "cursor_of wid s = unwrap_or (seq_of wid (cursors s)) 0"

definition log_ok :: "store \<Rightarrow> bool" where
  "log_ok s = (0 \<le> message_seq s \<and> (\<forall>m \<in> set (messages s). ms_seq m \<le> message_seq s))"

text \<open>Every operation on the mailbox, and every other operation, which leaves these tables alone.\<close>

inductive mailbox_step :: "store \<Rightarrow> store \<Rightarrow> bool" where
  sending: "mailbox_step s (fst (send env oid sender mid destination body refs actionable s))"
| steering: "mailbox_step s (fst (steer env secret oid mid body refs actionable destination s))"
| acknowledging: "mailbox_step s (fst (acknowledge env wid ids s))"
| registering: "mailbox_step s (fst (register env wid token oid stp s))"
| other: "messages t = messages s \<Longrightarrow> message_seq t = message_seq s \<Longrightarrow> receipts t = receipts s \<Longrightarrow>
    cursors t = cursors s \<Longrightarrow> mailbox_step s t"

text \<open>What sending may do to the log, and what acknowledging may do.\<close>

definition log_grows :: "store \<Rightarrow> store \<Rightarrow> bool" where
  "log_grows s t =
     (set (messages s) \<subseteq> set (messages t) \<and> message_seq s \<le> message_seq t \<and>
      (\<forall>m \<in> set (messages t). m \<in> set (messages s) \<or> message_seq s < ms_seq m \<and> ms_seq m \<le> message_seq t) \<and>
      (\<forall>r \<in> set (receipts t). r \<in> set (receipts s) \<or> rc_message r \<notin> ms_id ` set (messages s)) \<and>
      (\<forall>c. cursor_of c t = cursor_of c s))"

definition log_acked :: "store \<Rightarrow> store \<Rightarrow> bool" where
  "log_acked s t =
     (messages t = messages s \<and> message_seq t = message_seq s \<and> cursors t = cursors s \<and>
      (\<forall>r \<in> set (receipts t). \<not> rc_ack r \<longrightarrow> r \<in> set (receipts s)))"

lemma log_grows_refl [simp]: "log_grows s s"
  by (simp add: log_grows_def)

lemma log_acked_refl [simp]: "log_acked s s"
  by (simp add: log_acked_def)

lemma pending_grows:
  "log_grows s t \<Longrightarrow> pending_seqs c t \<subseteq> pending_seqs c s \<union> {message_seq s <.. message_seq t}"
  by (fastforce simp: log_grows_def pending_seqs_def unread_def)

lemma pending_acked: "log_acked s t \<Longrightarrow> pending_seqs c t \<subseteq> pending_seqs c s"
  by (fastforce simp: log_acked_def pending_seqs_def unread_def)

lemma log_grows_other [simp]:
  "log_grows s (t\<lparr>workers := ws\<rparr>) = log_grows s t"
  "log_grows s (t\<lparr>notifications := ns\<rparr>) = log_grows s t"
  "log_grows s (t\<lparr>events := es, event_seq := n\<rparr>) = log_grows s t"
  by (simp_all add: log_grows_def cursor_of_def)

lemma deliver_grows:
  assumes "mid \<notin> ms_id ` set (messages s)"
  shows "keeps (log_grows s) (deliver env mid wake wid)"
  unfolding deliver_def wake_idle_def
  by (intro keeps_rules) (use assms in \<open>auto simp: log_grows_def cursor_of_def\<close>)

lemma append_grows: "log_ok s \<Longrightarrow> keeps (log_grows s) (append_message m)"
  by (auto simp: keeps_def append_message_def log_grows_def cursor_of_def)

lemma post_grows:
  assumes "log_ok s" and "mid \<notin> ms_id ` set (messages s)"
  shows "keeps (log_grows s) (post_message env w oid sender mid destination body refs actionable)"
  unfolding post_message_def
  by (intro keeps_rules deliver_grows [OF assms(2)] append_grows [OF assms(1)]) simp

lemma send_grows:
  assumes "log_ok s"
  shows "keeps (log_grows s) (send env oid sender mid destination body refs actionable)"
  unfolding send_def
proof (intro keeps_thn keeps_atomic keeps_ask_use keeps_guard)
  fix w old
  assume "\<exists>u. log_grows s u \<and> Ok (find (\<lambda>m. ms_id m = mid) (messages u)) = Ok old"
  then obtain u where u: "log_grows s u" "old = find (\<lambda>m. ms_id m = mid) (messages u)" by auto
  show "keeps (log_grows s)
      (case old of None \<Rightarrow> post_message env w oid sender mid destination body refs actionable
       | Some m \<Rightarrow> thn (guard (same_payload m sender destination body refs actionable)
                  ''message id reused with different payload'')
               (ret (jobj [(''id'', JStr mid), (''duplicate'', JBool True)])))"
  proof (cases old)
    case None
    then have "find (\<lambda>m. ms_id m = mid) (messages u) = None" using u by simp
    then have "mid \<notin> ms_id ` set (messages s)"
      using u(1) by (auto simp: find_None_iff log_grows_def)
    with assms None show ?thesis by (simp add: post_grows)
  next
    case (Some m)
    then show ?thesis by (auto intro: keeps_thn)
  qed
qed

lemma find_new_cursor:
  "unwrap_or (seq_of c (cs @ [\<lparr>sq_worker = w, sq_seq = 0\<rparr>])) 0 = unwrap_or (seq_of c cs) 0"
  by (induction cs) (auto simp: seq_of_def unwrap_or_def)

lemma find_insert_cursor:
  "unwrap_or (seq_of c (insert_ignore sq_worker \<lparr>sq_worker = w, sq_seq = 0\<rparr> cs)) 0 = unwrap_or (seq_of c cs) 0"
  by (simp add: insert_ignore_def find_new_cursor)

lemma steer_grows:
  assumes "log_ok s"
  shows "keeps (log_grows s) (steer env secret oid mid body refs actionable destination)"
  unfolding steer_def
  by (intro keeps_rules send_grows [OF assms]) (simp_all add: find_insert_cursor log_grows_def cursor_of_def)

lemma register_grows: "keeps (log_grows s) (register env wid token oid stp)"
  unfolding register_def
  by (intro keeps_rules) (simp_all add: find_new_cursor log_grows_def cursor_of_def)

lemma acknowledge_one_acked: "keeps (log_acked s) (acknowledge_one env task wid mid)"
  unfolding acknowledge_one_def
  by (intro keeps_rules) (auto simp: log_acked_def set_update_rows)

lemma fold_min_le: "q \<in> set (q0 # qs) \<Longrightarrow> fold min qs q0 \<le> (q :: int)"
  by (simp only: Min.set_eq_fold [symmetric]) (simp only: List.finite_set Min_le)

lemma acknowledged_seq_below: "q \<in> pending_seqs wid s \<Longrightarrow> acknowledged_seq wid s < q"
proof -
  assume "q \<in> pending_seqs wid s"
  then have q: "q \<in> set (map ms_seq (unread wid s))" by (simp add: pending_seqs_def)
  then obtain q0 qs where m: "map ms_seq (unread wid s) = q0 # qs" by (cases "map ms_seq (unread wid s)") auto
  show ?thesis
    using fold_min_le [OF q [unfolded m]] by (simp add: m acknowledged_seq_def)
qed

lemma acknowledged_seq_top: "log_ok s \<Longrightarrow> acknowledged_seq wid s \<le> message_seq s"
proof (cases "map ms_seq (unread wid s)")
  case Nil
  assume "log_ok s"
  then have "fold max (map ms_seq (messages s)) 0 \<le> message_seq s"
    by (simp only: Max.set_eq_fold [symmetric]) (auto simp: log_ok_def)
  then show ?thesis by (simp add: acknowledged_seq_def Nil)
next
  case (Cons q qs)
  assume ok: "log_ok s"
  have "q \<in> ms_seq ` set (unread wid s)" using Cons by (metis list.set_intros(1) list.set_map)
  then have "q \<in> pending_seqs wid s" "q \<le> message_seq s"
    using ok by (auto simp: pending_seqs_def unread_def log_ok_def)
  then show ?thesis using acknowledged_seq_below [of q wid s] by simp
qed

lemma log_grows_ok: "log_ok s \<Longrightarrow> log_grows s t \<Longrightarrow> log_ok t"
  by (fastforce simp: log_ok_def log_grows_def)

lemma acknowledge_run:
  "acknowledge env wid ids s = (t, Ok ()) \<Longrightarrow>
     \<exists>u. log_acked s u \<and> t = u\<lparr>cursors := update_rows (\<lambda>q. sq_worker q = wid)
       (\<lambda>q. q\<lparr>sq_seq := acknowledged_seq wid u\<rparr>) (cursors u)\<rparr>"
proof -
  assume run: "acknowledge env wid ids s = (t, Ok ())"
  then obtain w where w: "get_worker wid s = Ok w"
    by (cases "get_worker wid s") (auto simp: acknowledge_def run_iffs)
  obtain u r where u: "each_op (acknowledge_one env (wk_task w) wid) ids s = (u, r)"
    by (cases "each_op (acknowledge_one env (wk_task w) wid) ids s")
  have "log_acked s u"
    by (rule keepsD [OF keeps_each [OF acknowledge_one_acked] log_acked_refl u])
  then show ?thesis
    using run w u by (auto simp: acknowledge_def run_iffs)
qed

lemma acknowledge_Err: "acknowledge env wid ids s = (t, Err e) \<Longrightarrow> t = s"
  unfolding acknowledge_def by (rule atomic_Err_state)

lemma seq_of_update:
  "seq_of c (update_rows (\<lambda>q. sq_worker q = w) (\<lambda>q. q\<lparr>sq_seq := n\<rparr>) cs) =
     (if c = w \<and> seq_of c cs \<noteq> None then Some n else seq_of c cs)"
  by (induction cs) (auto simp: seq_of_def update_rows_def)

lemma acknowledge_move:
  assumes "log_ok s" and run: "acknowledge env wid ids s = (t, r)"
  shows "log_ok t \<and> message_seq t = message_seq s \<and>
    (cursor_of c t = cursor_of c s \<and> pending_seqs c t \<subseteq> pending_seqs c s \<or>
     cursor_of c t \<le> message_seq t \<and> (\<forall>q \<in> pending_seqs c t. cursor_of c t < q \<and> q \<le> message_seq t))"
proof (cases r)
  case (Inl e)
  with run assms(1) show ?thesis by (auto dest: acknowledge_Err)
next
  case (Inr v)
  with run obtain u where u: "log_acked s u" and t: "t = u\<lparr>cursors := update_rows (\<lambda>q. sq_worker q = wid)
       (\<lambda>q. q\<lparr>sq_seq := acknowledged_seq wid u\<rparr>) (cursors u)\<rparr>"
    using acknowledge_run [of env wid ids s t] by auto
  have ok: "log_ok u" using u assms(1) by (simp add: log_acked_def log_ok_def)
  have pend: "pending_seqs d t = pending_seqs d u" for d by (simp add: t pending_seqs_def unread_def)
  have cur: "cursor_of c t = (if c = wid \<and> seq_of c (cursors u) \<noteq> None then acknowledged_seq wid u else cursor_of c u)"
    by (cases "seq_of c (cursors u)") (simp_all add: t cursor_of_def seq_of_update unwrap_or_def)
  have "q \<le> message_seq u" if "q \<in> pending_seqs c u" for q
    using that ok by (auto simp: pending_seqs_def unread_def log_ok_def)
  then show ?thesis
    using cur pend ok pending_acked [OF u] u acknowledged_seq_below [of _ wid u] acknowledged_seq_top [OF ok, of wid]
    by (auto simp: log_acked_def cursor_of_def t log_ok_def)
qed

text \<open>The laws of the log, for each operation.\<close>

lemma mailbox_move:
  assumes "mailbox_step s t" and "log_ok s"
  shows "log_grows s t \<or>
    (log_ok t \<and> message_seq t = message_seq s \<and>
     (\<forall>c. cursor_of c t = cursor_of c s \<and> pending_seqs c t \<subseteq> pending_seqs c s \<or>
       cursor_of c t \<le> message_seq t \<and> (\<forall>q \<in> pending_seqs c t. cursor_of c t < q \<and> q \<le> message_seq t)))"
  using assms
proof (induction rule: mailbox_step.induct)
  case (sending s env oid sender mid destination body refs actionable)
  then show ?case using send_grows [of s] by (simp add: keeps_def)
next
  case (steering s env secret oid mid body refs actionable destination)
  then show ?case using steer_grows [of s] by (simp add: keeps_def)
next
  case (acknowledging s env wid ids)
  obtain t r where "acknowledge env wid ids s = (t, r)" by (cases "acknowledge env wid ids s")
  then show ?case using acknowledge_move [OF acknowledging] by fastforce
next
  case (registering s env wid token oid stp)
  then show ?case using register_grows by (simp add: keeps_def)
next
  case (other t s)
  then show ?case by (simp add: log_grows_def cursor_of_def)
qed

interpretation mail: cursor_log pending_seqs cursor_of message_seq log_ok mailbox_step
proof unfold_locales
  fix s t :: store and c :: string
  assume ok: "log_ok s" and "mailbox_step s t"
  from mailbox_move [OF this(2,1)] consider
      (grows) "log_grows s t"
    | (acks) "log_ok t" "message_seq t = message_seq s"
        "cursor_of c t = cursor_of c s \<and> pending_seqs c t \<subseteq> pending_seqs c s \<or>
         cursor_of c t \<le> message_seq t \<and> (\<forall>q \<in> pending_seqs c t. cursor_of c t < q \<and> q \<le> message_seq t)"
    by blast
  then show "log_ok t" and "message_seq s \<le> message_seq t"
    and "(cursor_of c t = cursor_of c s \<and> pending_seqs c t \<subseteq> pending_seqs c s \<union> {message_seq s <.. message_seq t}) \<or>
      (cursor_of c t \<le> message_seq t \<and> (\<forall>q \<in> pending_seqs c t. cursor_of c t < q \<and> q \<le> message_seq t))"
    using ok pending_grows [of s t c] log_grows_ok [of s t]
    by (cases; auto simp: log_grows_def)+
qed

lemma empty_cursor_safe: "log_ok empty_store \<and> cursor_safe pending_seqs cursor_of message_seq empty_store"
  by (simp add: log_ok_def empty_store_def cursor_safe_def pending_seqs_def unread_def cursor_of_def
      seq_of_def unwrap_or_def)

section \<open>What a successful send did\<close>

lemma deliver_run:
  "each_op (deliver env mid wake) rs s = (t, Ok ()) \<Longrightarrow>
     receipts t = receipts s @ map (\<lambda>w. \<lparr>rc_message = mid, rc_worker = w, rc_ack = False\<rparr>) rs \<and>
     messages t = messages s \<and> notifications t = notifications s \<and> (wake \<or> workers t = workers s) \<and>
     map wk_id (workers t) = map wk_id (workers s) \<and> map wk_task (workers t) = map wk_task (workers s)"
proof (induction rs arbitrary: s)
  case Nil
  then show ?case by (simp add: ret_def)
next
  case (Cons w rs)
  from Cons.prems obtain u where u: "deliver env mid wake w s = (u, Ok ())" "each_op (deliver env mid wake) rs u = (t, Ok ())"
    by (auto simp: run_iffs)
  then have "receipts u = receipts s @ [\<lparr>rc_message = mid, rc_worker = w, rc_ack = False\<rparr>] \<and>
      messages u = messages s \<and> notifications u = notifications s \<and> (wake \<or> workers u = workers s) \<and>
      map wk_id (workers u) = map wk_id (workers s) \<and> map wk_task (workers u) = map wk_task (workers s)"
    by (auto simp: deliver_def run_iffs insert_unique_def wake_idle_def bail_def map_update_rows split: if_splits)
  with Cons.IH [OF u(2)] show ?case by auto
qed

lemma event_run_log:
  "event env task kind data s = (t, r) \<Longrightarrow> receipts t = receipts s \<and> messages t = messages s \<and>
     workers t = workers s \<and> notifications t = notifications s"
  by (auto simp: event_def Let_def split: if_splits)

lemma post_run:
  assumes "post_message env w oid sender mid destination body refs actionable s = (t, Ok v)"
  shows "\<exists>rs n wakeable. recipients oid sender destination (wk_status w = operator_status) s = Ok rs \<and>
     mid \<notin> ms_id ` set (messages s) \<and>
     wakeable = (actionable \<and> \<not> recursive_broadcast w destination s) \<and>
     messages t = messages s @ [\<lparr>ms_seq = n, ms_id = mid, ms_task = oid, ms_sender = sender,
            ms_destination = destination, ms_body = body, ms_refs = refs,
            ms_actionable = actionable, ms_created = now env, ms_wakeable = wakeable\<rparr>] \<and>
     receipts t = receipts s @ map (\<lambda>w. \<lparr>rc_message = mid, rc_worker = w, rc_ack = False\<rparr>) rs \<and>
     notifications t = notifications s \<and> (wakeable \<or> workers t = workers s) \<and>
     map wk_id (workers t) = map wk_id (workers s) \<and> map wk_task (workers t) = map wk_task (workers s)"
  using assms unfolding post_message_def
  by (fastforce simp: run_iffs append_message_def bail_def split: if_splits dest!: deliver_run event_run_log)

lemma send_run:
  assumes "send env oid sender mid destination body refs actionable s = (t, Ok v)"
  obtains (duplicate) w m where "get_worker sender s = Ok w" "wk_task w = oid"
      "find (\<lambda>m. ms_id m = mid) (messages s) = Some m" "same_payload m sender destination body refs actionable" "t = s"
    | (posted) w where "get_worker sender s = Ok w" "wk_task w = oid"
      "post_message env w oid sender mid destination body refs actionable s = (t, Ok v)"
proof -
  from assms obtain w where w: "get_worker sender s = Ok w" "wk_task w = oid"
    by (auto simp: send_def run_iffs)
  show thesis
  proof (cases "find (\<lambda>m. ms_id m = mid) (messages s)")
    case None
    with assms w show ?thesis by (intro posted) (auto simp: send_def run_iffs)
  next
    case (Some m)
    with assms w show ?thesis by (intro duplicate) (auto simp: send_def run_iffs)
  qed
qed

lemma send_size: "send env oid sender mid destination body refs actionable s = (t, Ok v) \<Longrightarrow>
    int (length body) \<le> 262144 \<and> mid \<noteq> []"
  by (auto simp: send_def run_iffs)

text \<open>A message that is in the log decides what sending its id again does.\<close>

lemma send_known:
  assumes "get_worker sender s = Ok w" "wk_task w = oid" "find (\<lambda>m. ms_id m = mid) (messages s) = Some m"
    and "int (length body) \<le> 262144" "mid \<noteq> []"
  shows "send env oid sender mid destination body refs actionable s =
    (s, if same_payload m sender destination body refs actionable
        then Ok (jobj [(''id'', JStr mid), (''duplicate'', JBool True)])
        else Err (Bail ''message id reused with different payload''))"
  using assms by (simp add: send_def oper_defs require_def)

lemma find_last: "\<forall>m \<in> set xs. \<not> P m \<Longrightarrow> P x \<Longrightarrow> find P (xs @ [x]) = Some x"
  by (induction xs) auto

lemma send_logged:
  assumes "send env oid sender mid destination body refs actionable s = (t, Ok v)"
  shows "\<exists>w m. get_worker sender t = Ok w \<and> wk_task w = oid \<and>
    find (\<lambda>m. ms_id m = mid) (messages t) = Some m \<and> same_payload m sender destination body refs actionable"
  using assms
proof (cases rule: send_run)
  case (duplicate w m)
  then show ?thesis by blast
next
  case (posted w)
  from post_run [OF posted(3)] obtain rs n wakeable where
    new: "mid \<notin> ms_id ` set (messages s)"
    and msg: "messages t = messages s @ [\<lparr>ms_seq = n, ms_id = mid, ms_task = oid, ms_sender = sender,
            ms_destination = destination, ms_body = body, ms_refs = refs,
            ms_actionable = actionable, ms_created = now env, ms_wakeable = wakeable\<rparr>]"
    and ids: "map wk_id (workers t) = map wk_id (workers s)" "map wk_task (workers t) = map wk_task (workers s)"
    by blast
  have "find (\<lambda>m. ms_id m = mid) (messages t) = Some \<lparr>ms_seq = n, ms_id = mid, ms_task = oid, ms_sender = sender,
            ms_destination = destination, ms_body = body, ms_refs = refs,
            ms_actionable = actionable, ms_created = now env, ms_wakeable = wakeable\<rparr>"
    unfolding msg using new by (intro find_last) auto
  then show ?thesis
    using get_worker_same [OF ids posted(1)] posted(2) by (auto simp: same_payload_def)
qed

text \<open>
  A receiver of a group message has joined the group's channel in this very task. When the members
  of a task's channels are workers of that task, so are the receivers.
\<close>

definition joined :: "string \<Rightarrow> string \<Rightarrow> string \<Rightarrow> store \<Rightarrow> bool" where
  "joined oid destination wid s =
     (\<exists>c \<in> set (channels s). ch_task c = oid \<and> ''group:'' @ ch_name c = destination \<and> ch_worker c = wid)"

definition members_own_task :: "store \<Rightarrow> bool" where
  "members_own_task s =
     (\<forall>c \<in> set (channels s). \<forall>w \<in> set (workers s). wk_id w = ch_worker c \<longrightarrow> wk_task w = ch_task c)"

lemma group_recipients:
  assumes "recipients oid sender (''group:'' @ grp) operator s = Ok rs"
  shows "x \<in> set rs \<longleftrightarrow> (\<exists>c \<in> set (channels s). \<exists>w \<in> set (workers s).
    wk_id w = ch_worker c \<and> ch_task c = oid \<and> ch_name c = grp \<and> ch_worker c \<noteq> sender \<and>
    wk_status w \<noteq> operator_status \<and> x = wk_id w)"
proof -
  have "rs = [wk_id w. c \<leftarrow> channels s, w \<leftarrow> workers s, wk_id w = ch_worker c,
      ch_task c = oid \<and> ch_name c = grp \<and> ch_worker c \<noteq> sender \<and> wk_status w \<noteq> operator_status]"
    using assms by (simp add: recipients_def Let_def bail_def split: if_splits)
  then show ?thesis
    by (simp only: set_concat set_map UN_iff bex_simps image_iff if_split_mem2 set_simps empty_iff simp_thms)
      (auto split: if_splits)
qed

lemma recipients_live:
  assumes "recipients oid sender destination (wk_status w = operator_status) s = Ok rs" and "r \<in> set rs"
    and "get_worker sender s = Ok w" and "wk_task w = oid"
  shows "\<exists>v \<in> set (workers s). wk_id v = r \<and> wk_status v \<noteq> operator_status \<and>
    (if prefix ''group:'' destination then joined oid destination r s else wk_task v = oid)"
proof -
  have known: "\<exists>v \<in> set (workers s). wk_id v = i \<and> v = x" if "get_worker i s = Ok x" for i x
    using that by (auto simp: get_worker_def context_of_Ok_iff find_Some_iff)
  consider (task) "destination = ''task''" | (grp) g where "destination = ''group:'' @ g"
    | (direct) "destination \<noteq> ''task''" "\<not> prefix ''group:'' destination"
    by (metis prefixE)
  then show ?thesis
  proof cases
    case task
    then show ?thesis
      using assms(1,2,4) known [OF assms(3)]
      by (auto simp: recipients_def Let_def bail_def split: if_splits)
  next
    case grp
    from assms(2) group_recipients [OF assms(1) [unfolded grp], of r] obtain c v where
      c: "c \<in> set (channels s)" "ch_task c = oid" "ch_name c = g" "ch_worker c = r"
      and v: "v \<in> set (workers s)" "wk_id v = r" "wk_status v \<noteq> operator_status"
      by auto
    then have "joined oid destination r s" by (auto simp: joined_def grp)
    with v show ?thesis by (auto simp: grp)
  next
    case direct
    then obtain v where v: "get_worker destination s = Ok v" "wk_task v = oid"
        "wk_status v \<noteq> operator_status" "rs = [wk_id v]"
      using assms(1) by (auto simp: recipients_def and_then_Ok_iff bail_def split: if_splits)
    with known [OF v(1)] assms(2) direct show ?thesis by auto
  qed
qed

lemma recipients_everyone:
  assumes "recipients oid sender ''task'' operator s = Ok rs" and "v \<in> set (workers s)"
    and "wk_task v = oid" and "wk_status v \<noteq> operator_status" and "wk_id v \<noteq> sender"
  shows "wk_id v \<in> set rs"
proof -
  define peers where "peers = map wk_id (sort_key wk_updated
      (filter (\<lambda>w. wk_task w = oid \<and> wk_id w \<noteq> sender \<and> wk_status w \<noteq> operator_status) (workers s)))"
  have v: "wk_id v \<in> set peers" using assms(2-5) by (auto simp: peers_def)
  then have "peers \<noteq> []" by auto
  then have "rs = peers"
    using assms(1) by (simp add: recipients_def Let_def peers_def [symmetric] bail_def split: if_splits)
  with v show ?thesis by simp
qed

lemma recipients_member:
  assumes "recipients oid sender destination operator s = Ok rs" and "v \<in> set (workers s)"
    and "prefix ''group:'' destination" and "joined oid destination (wk_id v) s"
    and "wk_status v \<noteq> operator_status" and "wk_id v \<noteq> sender"
  shows "wk_id v \<in> set rs"
proof -
  from assms(3) obtain g where g: "destination = ''group:'' @ g" by (rule prefixE)
  from assms(4) obtain c where c: "c \<in> set (channels s)" "ch_task c = oid" "ch_name c = g" "ch_worker c = wk_id v"
    by (auto simp: joined_def g)
  show ?thesis
    unfolding group_recipients [OF assms(1) [unfolded g]]
    by (intro bexI [OF _ c(1)] bexI [OF _ assms(2)]) (use c assms(5,6) in auto)
qed

section \<open>Properties\<close>

text \<open>
  C2. No unread message is ever skipped. After any history of sends, operator messages,
  acknowledgements and registrations, every message that a worker has a receipt for and has not
  acknowledged has a sequence number after the worker's cursor.
\<close>

theorem cursor_never_skips_unread:
  assumes "mailbox_step\<^sup>*\<^sup>* empty_store s"
    and "m \<in> set (messages s)" and "r \<in> set (receipts s)"
    and "rc_message r = ms_id m" and "rc_worker r = wid" and "\<not> rc_ack r"
  shows "cursor_of wid s < ms_seq m"
proof -
  have "cursor_safe pending_seqs cursor_of message_seq s"
    using mail.reachable_safe [OF assms(1)] empty_cursor_safe by blast
  moreover have "ms_seq m \<in> pending_seqs wid s"
    using assms(2-6) by (auto simp: pending_seqs_def unread_def)
  ultimately show ?thesis by (auto simp: cursor_safe_def)
qed

text \<open>
  C6. Sending is idempotent. Once a message has been accepted, sending it again with the same
  contents reports a duplicate and changes nothing; reusing its id for different contents fails
  and changes nothing.
\<close>

theorem resending_is_idempotent:
  assumes "send env oid sender mid destination body refs actionable s = (t, Ok v)"
  shows "send env2 oid sender mid destination body refs actionable t =
      (t, Ok (jobj [(''id'', JStr mid), (''duplicate'', JBool True)])) \<and>
    (\<forall>body2 destination2 refs2 actionable2. int (length body2) \<le> 262144 \<longrightarrow>
       (body2, destination2, refs2, actionable2) \<noteq> (body, destination, refs, actionable) \<longrightarrow>
       send env2 oid sender mid destination2 body2 refs2 actionable2 t =
         (t, Err (Bail ''message id reused with different payload'')))"
proof -
  obtain w m where w: "get_worker sender t = Ok w" "wk_task w = oid"
    and m: "find (\<lambda>m. ms_id m = mid) (messages t) = Some m"
    and same: "same_payload m sender destination body refs actionable"
    using send_logged [OF assms] by blast
  show ?thesis
    using send_known [OF w m] send_size [OF assms] same by (auto simp: same_payload_def)
qed

text \<open>
  C8. Mail stays where it belongs. Every receipt that a successful send adds is for the sent
  message, unacknowledged, and belongs to a worker other than the operator identity. That worker is
  a worker of the task; for a group destination it has joined the group's channel in this very
  task, and is a worker of the task when the members of the channels are workers of their task. A
  broadcast reaches every other worker of the task, and a group message every other member.
\<close>

theorem send_delivers_to_task_workers:
  assumes "send env oid sender mid destination body refs actionable s = (t, Ok v)"
    and "mid \<notin> ms_id ` set (messages s)"
  shows "(\<forall>r \<in> set (receipts t) - set (receipts s). rc_message r = mid \<and> \<not> rc_ack r \<and>
      (\<exists>w \<in> set (workers s). wk_id w = rc_worker r \<and> wk_status w \<noteq> operator_status \<and>
        (if prefix ''group:'' destination
         then joined oid destination (wk_id w) s \<and> (members_own_task s \<longrightarrow> wk_task w = oid)
         else wk_task w = oid))) \<and>
    (\<forall>w \<in> set (workers s). wk_status w \<noteq> operator_status \<and> wk_id w \<noteq> sender \<and>
      (destination = ''task'' \<and> wk_task w = oid \<or>
       prefix ''group:'' destination \<and> joined oid destination (wk_id w) s) \<longrightarrow>
      \<lparr>rc_message = mid, rc_worker = wk_id w, rc_ack = False\<rparr> \<in> set (receipts t))"
  using assms(1)
proof (cases rule: send_run)
  case (duplicate w m)
  then show ?thesis using assms(2) by (auto simp: find_Some_iff)
next
  case (posted w)
  from post_run [OF posted(3)] obtain rs where
    rs: "recipients oid sender destination (wk_status w = operator_status) s = Ok rs"
    and t: "receipts t = receipts s @ map (\<lambda>w. \<lparr>rc_message = mid, rc_worker = w, rc_ack = False\<rparr>) rs"
    by blast
  have own: "wk_task v = oid" if "joined oid destination (wk_id v) s" "members_own_task s" "v \<in> set (workers s)" for v
    using that by (auto simp: joined_def members_own_task_def)
  have new: "r \<in> (\<lambda>x. \<lparr>rc_message = mid, rc_worker = x, rc_ack = False\<rparr>) ` set rs"
    if "r \<in> set (receipts t) - set (receipts s)" for r
    using that t by auto
  have reached: "wk_id v \<in> set rs" if "v \<in> set (workers s)" "wk_status v \<noteq> operator_status" "wk_id v \<noteq> sender"
      "destination = ''task'' \<and> wk_task v = oid \<or> prefix ''group:'' destination \<and> joined oid destination (wk_id v) s" for v
    using that recipients_everyone [of oid sender _ s rs v] recipients_member [of oid sender destination _ s rs v] rs
    by blast
  show ?thesis
  proof (intro conjI ballI impI)
    fix r assume r: "r \<in> set (receipts t) - set (receipts s)"
    from new [OF r] show "rc_message r = mid" "\<not> rc_ack r" by auto
    from new [OF r] have "rc_worker r \<in> set rs" by auto
    from recipients_live [OF rs this posted(1,2)] obtain v where
      v: "v \<in> set (workers s)" "wk_id v = rc_worker r" "wk_status v \<noteq> operator_status"
        "if prefix ''group:'' destination then joined oid destination (wk_id v) s else wk_task v = oid"
      by metis
    have "if prefix ''group:'' destination
        then joined oid destination (wk_id v) s \<and> (members_own_task s \<longrightarrow> wk_task v = oid)
        else wk_task v = oid"
      using v(4) own [OF _ _ v(1)] by presburger
    with v(1-3) show "\<exists>w \<in> set (workers s). wk_id w = rc_worker r \<and> wk_status w \<noteq> operator_status \<and>
        (if prefix ''group:'' destination
         then joined oid destination (wk_id w) s \<and> (members_own_task s \<longrightarrow> wk_task w = oid)
         else wk_task w = oid)" by blast
  next
    fix w assume "w \<in> set (workers s)" "wk_status w \<noteq> operator_status \<and> wk_id w \<noteq> sender \<and>
      (destination = ''task'' \<and> wk_task w = oid \<or>
       prefix ''group:'' destination \<and> joined oid destination (wk_id w) s)"
    then show "\<lparr>rc_message = mid, rc_worker = wk_id w, rc_ack = False\<rparr> \<in> set (receipts t)"
      using reached by (auto simp: t)
  qed
qed

text \<open>
  C9. Follow-up workers cannot wake the task. A broadcast to the whole task by a worker whose
  step is a follow-up wakes no worker, whatever the sender asked for, and the message it logs
  will not wake one later.
\<close>

theorem followup_broadcast_wakes_nobody:
  assumes "send env oid sender mid ''task'' body refs actionable s = (t, Ok v)"
    and "mid \<notin> ms_id ` set (messages s)"
    and "get_worker sender s = Ok w" and "recursive_broadcast w ''task'' s"
  shows "workers t = workers s \<and> (\<exists>m. find (\<lambda>m. ms_id m = mid) (messages t) = Some m \<and> \<not> ms_wakeable m) \<and>
    (\<forall>wid. snd (actionable_notifications wid t) = snd (actionable_notifications wid s))"
  using assms(1)
proof (cases rule: send_run)
  case (duplicate w2 m)
  then show ?thesis using assms(2) by (auto simp: find_Some_iff)
next
  case (posted w2)
  then have "w2 = w" using assms(3) by simp
  with posted(3) have post: "post_message env w oid sender mid ''task'' body refs actionable s = (t, Ok v)" by simp
  from post_run [OF post] assms(4) obtain rs n where
    msg: "messages t = messages s @ [\<lparr>ms_seq = n, ms_id = mid, ms_task = oid, ms_sender = sender,
            ms_destination = ''task'', ms_body = body, ms_refs = refs,
            ms_actionable = actionable, ms_created = now env, ms_wakeable = False\<rparr>]"
    and rc: "receipts t = receipts s @ map (\<lambda>w. \<lparr>rc_message = mid, rc_worker = w, rc_ack = False\<rparr>) rs"
    and nt: "notifications t = notifications s" and wk: "workers t = workers s"
    by (elim exE conjE) simp
  have eq: "filter ms_wakeable (unread wid t) = filter ms_wakeable (unread wid s)" for wid
  proof -
    have "(\<exists>r \<in> set (receipts t). rc_message r = ms_id m \<and> rc_worker r = wid \<and> \<not> rc_ack r) =
        (\<exists>r \<in> set (receipts s). rc_message r = ms_id m \<and> rc_worker r = wid \<and> \<not> rc_ack r)"
      if "m \<in> set (messages s)" for m
      using that assms(2) by (auto simp: rc)
    then show ?thesis by (simp add: unread_def msg cong: filter_cong)
  qed
  have swap: "filter ms_wakeable (filter P xs) = filter P (filter ms_wakeable xs)" for P xs
    by (simp add: conj_commute)
  have "filter ms_wakeable (filter P (unread wid t)) = filter ms_wakeable (filter P (unread wid s))" for P wid
    unfolding swap [of P] eq ..
  then have quiet: "snd (actionable_notifications wid t) = snd (actionable_notifications wid s)" for wid
    by (simp add: actionable_notifications_def Let_def nt del: filter_filter)
  have "\<exists>m. find (\<lambda>m. ms_id m = mid) (messages t) = Some m \<and> \<not> ms_wakeable m"
    unfolding msg by (rule exI, rule conjI, rule find_last) (use assms(2) in auto)
  with quiet wk show ?thesis by blast
qed

section \<open>Witnesses\<close>

text \<open>Two workers of one task; the first runs a follow-up step.\<close>

definition mail_start :: store where
  "mail_start = empty_store\<lparr>tasks := [sample_task ''t''],
     steps := [\<lparr>st_id = ''s'', st_task = ''t'', st_name = ''plan.followup-1'', st_spec = default_step ''plan'',
                st_state = ''running'', st_result = None\<rparr>]\<rparr>"

definition mail_workers :: store where
  "mail_workers =
     fst (register sample_env ''w2'' ''k2'' ''t'' None
       (fst (register sample_env ''w1'' ''k1'' ''t'' (Some ''s'') mail_start)))"

definition mail_sent :: store where
  "mail_sent = fst (send sample_env ''t'' ''w1'' ''m1'' ''task'' ''hello'' JNull True mail_workers)"

definition mail_read :: store where
  "mail_read = fst (acknowledge sample_env ''w2'' [''m1'']
     (fst (send sample_env ''t'' ''w1'' ''m2'' ''w2'' ''again'' JNull True mail_sent)))"

lemma mail_sent_run:
  "\<exists>v. send sample_env ''t'' ''w1'' ''m1'' ''task'' ''hello'' JNull True mail_workers = (mail_sent, Ok v)"
proof -
  have "is_ok (snd (send sample_env ''t'' ''w1'' ''m1'' ''task'' ''hello'' JNull True mail_workers))"
    by code_simp
  then show ?thesis by (auto simp: mail_sent_def is_ok_iff prod_eq_iff)
qed

lemma mail_new: "''m1'' \<notin> ms_id ` set (messages mail_workers)"
  by code_simp

lemma mail_read_reachable: "mailbox_step\<^sup>*\<^sup>* empty_store mail_read"
proof -
  have "mailbox_step empty_store mail_start"
    by (rule mailbox_step.other) (simp_all add: mail_start_def)
  then show ?thesis
    unfolding mail_read_def mail_sent_def mail_workers_def
    by (meson mailbox_step.sending mailbox_step.registering mailbox_step.acknowledging
        rtranclp.rtrancl_into_rtrancl rtranclp.rtrancl_refl)
qed

lemma cursor_never_skips_unread_witness:
  "cursor_of ''w2'' mail_read = 1 \<and> cursor_of ''w2'' mail_read < 2"
proof -
  have "cursor_of ''w2'' mail_read = 1" by code_simp
  moreover obtain m where m: "m \<in> set (messages mail_read)" "ms_seq m = 2" "ms_id m = ''m2''"
  proof -
    have "list_ex (\<lambda>m. ms_seq m = 2 \<and> ms_id m = ''m2'') (messages mail_read)" by code_simp
    then show thesis using that by (auto simp: list_ex_iff)
  qed
  moreover obtain r where "r \<in> set (receipts mail_read)" "rc_message r = ''m2''" "rc_worker r = ''w2''" "\<not> rc_ack r"
  proof -
    have "list_ex (\<lambda>r. rc_message r = ''m2'' \<and> rc_worker r = ''w2'' \<and> \<not> rc_ack r) (receipts mail_read)"
      by code_simp
    then show thesis using that by (auto simp: list_ex_iff)
  qed
  ultimately show ?thesis
    using cursor_never_skips_unread [OF mail_read_reachable m(1), of _ "''w2''"] by auto
qed

lemma resending_is_idempotent_witness:
  "send sample_env ''t'' ''w1'' ''m1'' ''task'' ''hello'' JNull True mail_sent =
     (mail_sent, Ok (jobj [(''id'', JStr ''m1''), (''duplicate'', JBool True)])) \<and>
   send sample_env ''t'' ''w1'' ''m1'' ''task'' ''changed'' JNull True mail_sent =
     (mail_sent, Err (Bail ''message id reused with different payload''))"
proof -
  obtain v where run: "send sample_env ''t'' ''w1'' ''m1'' ''task'' ''hello'' JNull True mail_workers = (mail_sent, Ok v)"
    using mail_sent_run by blast
  show ?thesis using resending_is_idempotent [OF run, of sample_env] by simp
qed

text \<open>Two tasks have a channel of the same name; only the member of the sender's task is written to.\<close>

definition mail_grouped :: store where
  "mail_grouped =
     (fst (register sample_env ''x1'' ''k3'' ''u'' None
       (mail_workers\<lparr>tasks := [sample_task ''t'', sample_task ''u'']\<rparr>)))
     \<lparr>channels := [\<lparr>ch_task = ''u'', ch_name = ''g'', ch_worker = ''x1''\<rparr>,
                   \<lparr>ch_task = ''t'', ch_name = ''g'', ch_worker = ''w2''\<rparr>]\<rparr>"

lemma send_delivers_to_task_workers_witness:
  "\<exists>t v. send sample_env ''t'' ''w1'' ''m1'' ''group:g'' ''hello'' JNull True mail_grouped = (t, Ok v) \<and>
    \<lparr>rc_message = ''m1'', rc_worker = ''w2'', rc_ack = False\<rparr> \<in> set (receipts t) \<and>
    ''x1'' \<notin> rc_worker ` set (receipts t)"
proof -
  have "is_ok (snd (send sample_env ''t'' ''w1'' ''m1'' ''group:g'' ''hello'' JNull True mail_grouped))"
    by code_simp
  then obtain t v where run: "send sample_env ''t'' ''w1'' ''m1'' ''group:g'' ''hello'' JNull True mail_grouped = (t, Ok v)"
    by (metis is_ok_iff prod.collapse)
  have new: "''m1'' \<notin> ms_id ` set (messages mail_grouped)" by code_simp
  have w: "\<exists>w \<in> set (workers mail_grouped). wk_id w = ''w2'' \<and> wk_status w \<noteq> operator_status"
    unfolding list_ex_iff [symmetric] by code_simp
  have c: "joined ''t'' ''group:g'' ''w2'' mail_grouped" by code_simp
  have none: "\<not> joined ''t'' ''group:g'' ''x1'' mail_grouped" "receipts mail_grouped = []"
      "prefix ''group:'' ''group:g''" by code_simp+
  note sent = send_delivers_to_task_workers [OF run new]
  have "\<lparr>rc_message = ''m1'', rc_worker = ''w2'', rc_ack = False\<rparr> \<in> set (receipts t)"
    using conjunct2 [OF sent] w c none(3) by auto
  moreover have "''x1'' \<notin> rc_worker ` set (receipts t)"
    using conjunct1 [OF sent] none by auto
  ultimately show ?thesis using run by blast
qed

lemma followup_broadcast_wakes_nobody_witness: "workers mail_sent = workers mail_workers"
proof -
  obtain v where run: "send sample_env ''t'' ''w1'' ''m1'' ''task'' ''hello'' JNull True mail_workers = (mail_sent, Ok v)"
    using mail_sent_run by blast
  have "(case get_worker ''w1'' mail_workers of Inl _ \<Rightarrow> False
      | Inr w \<Rightarrow> recursive_broadcast w ''task'' mail_workers)" by code_simp
  then obtain w where "get_worker ''w1'' mail_workers = Ok w" "recursive_broadcast w ''task'' mail_workers"
    by (auto split: sum.splits)
  then show ?thesis using followup_broadcast_wakes_nobody [OF run mail_new] by blast
qed

end
