(* ===== verification/Project_Facts.thy ===== *)
theory Project_Facts
  imports Project_Runtime "HOL-Library.Multiset"
begin

text \<open>
  What project ownership and project scheduling promise: dedicated and revoked runtimes, the
  immutable owner of a task, one owner per repository, fair turns, admission only below the
  limits, and leases that outlive running work.
\<close>

section \<open>The local runtime's name\<close>

lemma local_runtime_run:
  assumes "local_runtime env s = (t, Ok lcl)"
  shows "local_runtime_identity env s = Ok lcl" "local_runtime_identity env t = Ok lcl"
    "setting ''runtime.identity'' t = Some lcl"
    "\<exists>rows. t = s\<lparr>runtime_settings := rows\<rparr>"
proof -
  have id: "local_runtime_identity env s = Ok lcl"
    and t: "t = (if setting ''runtime.identity'' s \<noteq> Some lcl
      then s\<lparr>runtime_settings := upsert fst (\<lambda>(k, _). (k, lcl)) (''runtime.identity'', lcl) (runtime_settings s)\<rparr>
      else s)"
    using assms by (auto simp: local_runtime_def runs split: if_splits)
  show "local_runtime_identity env s = Ok lcl" by (rule id)
  show cached: "setting ''runtime.identity'' t = Some lcl" using t by simp
  show "local_runtime_identity env t = Ok lcl"
    using id cached by (auto simp: local_runtime_identity_def Let_def unwrap_or_def split: option.splits sum.splits)
  have "s = s\<lparr>runtime_settings := runtime_settings s\<rparr>" by simp
  then show "\<exists>rows. t = s\<lparr>runtime_settings := rows\<rparr>" using t by metis
qed

text \<open>Once the identity is cached, reading it changes nothing.\<close>

lemma local_runtime_cached:
  "local_runtime_identity env s = Ok lcl \<Longrightarrow> setting ''runtime.identity'' s = Some lcl \<Longrightarrow>
     local_runtime env s = (s, Ok lcl)"
  by (simp add: local_runtime_def ask_then when_op_def) (simp add: ret_def)

lemma runtime_allowed_run:
  assumes "resolve_project project s = Ok p" and "local_runtime_identity env s = Ok lcl"
    and "setting ''runtime.identity'' s = Some lcl"
  shows "runtime_allowed env project runtime s = (s, Ok (allowed_names p [runtime, runtime_alias runtime lcl] s))"
  using assms by (simp add: runtime_allowed_def ask_then bnd_def local_runtime_cached ask_state_def)

lemma identity_other [simp]:
  "local_runtime_identity env (s\<lparr>runtime_project_bindings := a\<rparr>) = local_runtime_identity env s"
  "local_runtime_identity env (s\<lparr>project_runtime_grants := b\<rparr>) = local_runtime_identity env s"
  "local_runtime_identity env (s\<lparr>project_runtime_revocations := b\<rparr>) = local_runtime_identity env s"
  "local_runtime_identity env (s\<lparr>credential_deliveries := c\<rparr>) = local_runtime_identity env s"
  "local_runtime_identity env (s\<lparr>project_remote_reservations := d\<rparr>) = local_runtime_identity env s"
  "local_runtime_identity env (s\<lparr>account_remote_reservations := e\<rparr>) = local_runtime_identity env s"
  by (simp_all add: local_runtime_identity_def setting_def)

lemma has_row_add: "n \<in> set names \<Longrightarrow> has_row p names (add_row p n rows)"
  by (auto simp: has_row_def add_row_def insert_ignore_def exists_row_iff runtime_key_def)

lemma has_row_drop [simp]: "\<not> has_row p names (drop_rows p names rows)"
  by (auto simp: has_row_def drop_rows_def exists_row_iff)

section \<open>Dedicating and revoking a runtime\<close>

lemma bind_runtime_run:
  assumes "bind_runtime env project runtime s = (t, Ok ())" and p: "resolve_project project s = Ok p"
  obtains lcl where "local_runtime_identity env t = Ok lcl"
    "setting ''runtime.identity'' t = Some lcl" "projects t = projects s"
    "\<not> foreign_binding p [runtime, runtime_alias runtime lcl] t"
    "\<not> has_row p [runtime, runtime_alias runtime lcl] (project_runtime_revocations t)"
    "has_row p [runtime, runtime_alias runtime lcl] (project_runtime_grants t)"
    "exists_row (\<lambda>r. rt_runtime r \<in> {runtime, runtime_alias runtime lcl} \<and> rt_project r = p) (runtime_project_bindings t)"
proof -
  from assms obtain lcl u where
    l: "local_runtime env s = (u, Ok lcl)"
    and free: "\<not> foreign_binding p [runtime, runtime_alias runtime lcl] u"
    and t: "t = u\<lparr>runtime_project_bindings := insert_ignore rt_runtime
              \<lparr>rt_project = p, rt_runtime = (if runtime = lcl then ''local'' else runtime)\<rparr> (runtime_project_bindings u),
            project_runtime_revocations := drop_rows p [runtime, runtime_alias runtime lcl] (project_runtime_revocations u),
            project_runtime_grants := add_row p runtime (project_runtime_grants u)\<rparr>"
    unfolding bind_runtime_def Let_def by (auto simp: runs bnd_run [of "local_runtime env"])
  obtain rows where u: "u = s\<lparr>runtime_settings := rows\<rparr>" using local_runtime_run(4) [OF l] by blast
  show thesis
  proof (rule that)
    show "local_runtime_identity env t = Ok lcl" using local_runtime_run(2) [OF l] by (simp add: t)
    show "setting ''runtime.identity'' t = Some lcl" using local_runtime_run(3) [OF l] by (simp add: t setting_def)
    show "projects t = projects s" by (simp add: t u)
    show "\<not> foreign_binding p [runtime, runtime_alias runtime lcl] t"
      using free by (auto simp: t foreign_binding_def exists_row_iff insert_ignore_def split: if_splits)
    show "\<not> has_row p [runtime, runtime_alias runtime lcl] (project_runtime_revocations t)" by (simp add: t)
    show "has_row p [runtime, runtime_alias runtime lcl] (project_runtime_grants t)"
      by (simp add: t has_row_add)
    show "exists_row (\<lambda>r. rt_runtime r \<in> {runtime, runtime_alias runtime lcl} \<and> rt_project r = p) (runtime_project_bindings t)"
      using free
      by (fastforce simp: t foreign_binding_def exists_row_iff insert_ignore_def runtime_alias_def split: if_splits)
  qed
qed

text \<open>
  C13. A runtime dedicated to a project serves that project only. After a successful dedication,
  the runtime (under either of its names) is allowed for its project and refused to every other.
\<close>

theorem dedicated_runtime_serves_one_project:
  assumes "bind_runtime env project runtime s = (t, Ok ())" and "resolve_project project s = Ok p"
  shows "runtime_allowed env project runtime t = (t, Ok True) \<and>
    (\<forall>other q. resolve_project other t = Ok q \<longrightarrow> q \<noteq> p \<longrightarrow> runtime_allowed env other runtime t = (t, Ok False))"
proof -
  obtain lcl where l: "local_runtime_identity env t = Ok lcl" "setting ''runtime.identity'' t = Some lcl"
    and pr: "projects t = projects s"
    and ok: "\<not> foreign_binding p [runtime, runtime_alias runtime lcl] t"
      "\<not> has_row p [runtime, runtime_alias runtime lcl] (project_runtime_revocations t)"
      "has_row p [runtime, runtime_alias runtime lcl] (project_runtime_grants t)"
    and own: "exists_row (\<lambda>r. rt_runtime r \<in> {runtime, runtime_alias runtime lcl} \<and> rt_project r = p)
      (runtime_project_bindings t)"
    by (rule bind_runtime_run [OF assms])
  have "resolve_project project t = Ok p" using assms(2) pr by (simp add: resolve_project_def)
  then have "runtime_allowed env project runtime t = (t, Ok True)"
    using runtime_allowed_run [OF _ l] ok by (simp add: allowed_names_def)
  moreover have "runtime_allowed env other runtime t = (t, Ok False)"
    if "resolve_project other t = Ok q" "q \<noteq> p" for other q
  proof -
    have "foreign_binding q [runtime, runtime_alias runtime lcl] t"
      using own that(2) by (auto simp: foreign_binding_def exists_row_iff)
    then show ?thesis using runtime_allowed_run [OF that(1) l] by (simp add: allowed_names_def)
  qed
  ultimately show ?thesis by blast
qed


text \<open>
  C14. Revoking a runtime takes effect at once. After a successful revocation the runtime is
  refused to the project under either of its names, and no remote reservation of the project on
  that runtime is still active.
\<close>

theorem revoked_runtime_is_refused:
  assumes "project_runtime_revoke env args s = (t, Ok ())"
    and "jget args ''project'' = JStr project" and "jget args ''runtime'' = JStr runtime"
    and "resolve_project project s = Ok p"
  shows "runtime_allowed env project runtime t = (t, Ok False) \<and>
    (\<forall>r \<in> set (project_remote_reservations t). rr_project r = p \<longrightarrow> rr_runtime r = runtime \<longrightarrow> rr_state r \<noteq> ''active'') \<and>
    (\<forall>r \<in> set (account_remote_reservations t). ar_project r = p \<longrightarrow> ar_runtime r = runtime \<longrightarrow> ar_state r \<noteq> ''active'')"
proof -
  from assms obtain lcl u where l: "local_runtime env s = (u, Ok lcl)"
    and t: "t = revoke_runtime p runtime [runtime, runtime_alias runtime lcl] u"
    unfolding project_runtime_revoke_def
    by (auto simp: runs bnd_run [of "local_runtime env"] required_Ok_iff and_then_Ok_iff)
  obtain rows where u: "u = s\<lparr>runtime_settings := rows\<rparr>" using local_runtime_run(4) [OF l] by blast
  have "resolve_project project t = Ok p" using assms(4) by (simp add: t u resolve_project_def revoke_runtime_def)
  moreover have "local_runtime_identity env t = Ok lcl" "setting ''runtime.identity'' t = Some lcl"
    using local_runtime_run(2,3) [OF l] by (simp_all add: t setting_def revoke_runtime_def)
  moreover have "has_row p [runtime, runtime_alias runtime lcl] (project_runtime_revocations t)"
    by (simp add: t has_row_add revoke_runtime_def)
  ultimately have "runtime_allowed env project runtime t = (t, Ok False)"
    using runtime_allowed_run by (simp add: allowed_names_def)
  moreover have "rr_state r \<noteq> ''active''"
    if r: "r \<in> set (project_remote_reservations t)" "rr_project r = p" "rr_runtime r = runtime" for r
  proof -
    from r(1) have "r \<in> set (update_rows
        (\<lambda>r. rr_project r = p \<and> rr_runtime r \<in> set [runtime, runtime_alias runtime lcl] \<and> rr_state r = ''active'')
        (\<lambda>r. r\<lparr>rr_state := ''revoked''\<rparr>) (project_remote_reservations u))"
      by (simp add: t revoke_runtime_def)
    then show ?thesis using r(2,3) by (cases rule: update_rowsE) auto
  qed
  moreover have "ar_state r \<noteq> ''active''"
    if r: "r \<in> set (account_remote_reservations t)" "ar_project r = p" "ar_runtime r = runtime" for r
  proof -
    from r(1) have "r \<in> set (update_rows
        (\<lambda>r. ar_project r = p \<and> ar_runtime r \<in> set [runtime, runtime_alias runtime lcl] \<and> ar_state r = ''active'')
        (\<lambda>r. r\<lparr>ar_state := ''revoked''\<rparr>) (account_remote_reservations u))"
      by (simp add: t revoke_runtime_def)
    then show ?thesis using r(2,3) by (cases rule: update_rowsE) auto
  qed
  ultimately show ?thesis by blast
qed

section \<open>The owner of a task\<close>

lemma register_repository_tables:
  "register_repository env fresh project repo s = (t, r) \<Longrightarrow> task_projects t = task_projects s \<and> projects t = projects s"
proof -
  assume run: "register_repository env fresh project repo s = (t, r)"
  have "keeps (\<lambda>t. task_projects t = task_projects s \<and> projects t = projects s) (register_repository env fresh project repo)"
    unfolding register_repository_def register_repository_identity_def
    by (intro keeps_rules) simp_all
  then show ?thesis using run unfolding keeps_def by (metis fst_conv)
qed

text \<open>
  C18. A task never changes project. Binding a task to a project succeeds only if the task is
  unbound or already bound to that very project, and no binding, successful or not, changes the
  project of any task that has one.
\<close>

theorem task_project_is_immutable:
  assumes "bind_task env fresh task project repo s = (t, r)"
  shows "(\<forall>u p. task_project u s = Ok p \<longrightarrow> task_project u t = Ok p) \<and>
    (r = Ok () \<longrightarrow> (\<exists>p. resolve_project project s = Ok p \<and> task_project task t = Ok p))"
proof (cases r)
  case (Inl e)
  have "t = s"
    using assms Inl unfolding bind_task_def ask_then
    by (cases "resolve_project project s") (auto intro: atomic_Err_state)
  with Inl show ?thesis by simp
next
  case (Inr v)
  then obtain p where p: "resolve_project project s = Ok p"
    using assms by (auto simp: bind_task_def runs)
  show ?thesis
  proof (cases "find (\<lambda>r. tp_task r = task) (task_projects s)")
    case None
    with assms Inr p obtain i u where reg: "register_repository env fresh p repo s = (u, Ok i)"
      and t: "t = u\<lparr>task_projects := task_projects u @ [\<lparr>tp_task = task, tp_project = p, tp_repository = Some i\<rparr>]\<rparr>"
      by (auto simp: bind_task_def runs bnd_run [of "register_repository env fresh p repo"] insert_unique_def bail_def
          split: if_splits)
    have u: "task_projects u = task_projects s" using register_repository_tables [OF reg] by blast
    have "find (\<lambda>r. tp_task r = task) (task_projects t) = Some \<lparr>tp_task = task, tp_project = p, tp_repository = Some i\<rparr>"
      using find_append_new [OF None] by (simp add: t u)
    then show ?thesis
      using p u by (auto simp: t task_project_def and_then_Ok_iff context_of_Ok_iff intro: find_append_old)
  next
    case (Some row)
    with assms Inr p have own: "tp_project row = p"
      by (auto simp: bind_task_def runs)
    have "task_projects t = task_projects s"
      using assms Inr p Some register_repository_tables
      by (fastforce simp: bind_task_def runs bnd_run [of "register_repository env fresh p repo"] split: option.splits)
    then show ?thesis using p own Some by (simp add: task_project_def)
  qed
qed

section \<open>Turns\<close>

lemma no_heads: "concat (map (take 1) qs) = [] \<Longrightarrow> sum_list (map mset qs) = {#}"
  by (induction qs) auto

lemma heads_and_tails:
  "mset (concat (map (take 1) qs)) + sum_list (map mset (map tl qs)) = sum_list (map mset qs)"
proof (induction qs)
  case (Cons q qs)
  then show ?case by (cases q) (simp_all add: ac_simps)
qed simp

text \<open>Interleaving loses and invents nothing.\<close>

lemma interleave_mset: "mset (interleave qs) = sum_list (map mset qs)"
proof (induction qs rule: interleave.induct)
  case (1 qs)
  show ?case
  proof (cases "concat (map (take 1) qs) = []")
    case True
    then show ?thesis using no_heads [OF True] by (subst interleave.simps) simp
  next
    case False
    then have "interleave qs = concat (map (take 1) qs) @ interleave (map tl qs)"
      by (subst interleave.simps) (simp only: Let_def if_False)
    then show ?thesis using 1 [OF refl False] heads_and_tails [of qs] by simp
  qed
qed

text \<open>
  Counting turns: in every prefix of the interleaving, a queue with rows left over is at most
  one turn behind any other.
\<close>

definition turns :: "('r \<Rightarrow> 'p) \<Rightarrow> 'p \<Rightarrow> 'r list \<Rightarrow> nat" where
  "turns key p rs = length (filter (\<lambda>r. key r = p) rs)"

definition keyed :: "('r \<Rightarrow> 'p) \<Rightarrow> ('p \<times> 'r list) list \<Rightarrow> bool" where
  "keyed key kqs = (distinct (map fst kqs) \<and> (\<forall>(p, q) \<in> set kqs. \<forall>r \<in> set q. key r = p))"

lemma turns_append [simp]: "turns key p (xs @ ys) = turns key p xs + turns key p ys"
  by (simp add: turns_def)

lemma turns_Nil [simp]: "turns key p [] = 0"
  by (simp add: turns_def)

lemma keyed_tails: "keyed key kqs \<Longrightarrow> keyed key (map (\<lambda>(p, q). (p, tl q)) kqs)"
proof -
  assume k: "keyed key kqs"
  have keys: "map fst (map (\<lambda>(p, q). (p, tl q)) kqs) = map fst kqs" by (induction kqs) auto
  have "\<forall>r \<in> set (tl q). key r = p" if "(p, q) \<in> set kqs" for p q
    using k that by (cases q) (auto simp: keyed_def)
  moreover have "distinct (map fst kqs)" using k by (simp add: keyed_def)
  ultimately show ?thesis unfolding keyed_def keys by auto
qed

text \<open>The heads: one turn for every queue that is not empty.\<close>

lemma turns_heads:
  assumes "keyed key kqs"
  shows "turns key p (concat (map (take 1 \<circ> snd) kqs)) =
    (case map_of kqs p of None \<Rightarrow> 0 | Some q \<Rightarrow> if q = [] then 0 else 1)"
  using assms
proof (induction kqs)
  case Nil
  then show ?case by simp
next
  case (Cons kq kqs)
  obtain k q where kq: "kq = (k, q)" by (cases kq)
  have "keyed key kqs" and rows: "\<forall>r \<in> set q. key r = k" and new: "k \<notin> fst ` set kqs"
    using Cons.prems by (auto simp: keyed_def kq)
  have "map_of kqs k = None" using new by (simp add: map_of_eq_None_iff)
  then show ?case
    using Cons.IH [OF \<open>keyed key kqs\<close>] rows by (cases q) (auto simp: kq turns_def)
qed

lemma map_of_tails: "map_of (map (\<lambda>(p, q). (p, tl q)) kqs) p = map_option tl (map_of kqs p)"
  by (induction kqs) auto

lemma fair_prefix:
  assumes "keyed key kqs" and "pre @ rest = interleave (map snd kqs)"
    and "map_of kqs p = Some qp" and "turns key p pre < length qp"
  shows "turns key q pre \<le> Suc (turns key p pre)"
  using assms
proof (induction "sum_list (map (length \<circ> snd) kqs)" arbitrary: kqs pre qp rule: less_induct)
  case less
  let ?h = "concat (map (take 1 \<circ> snd) kqs)" and ?t = "map (\<lambda>(p, q). (p, tl q)) kqs"
  have heads: "turns key x ?h \<le> 1" for x
    using turns_heads [OF less.prems(1), of x] by (auto split: option.splits)
  show ?case
  proof (cases "length pre \<le> length ?h")
    case True
    have "interleave (map snd kqs) = ?h @ (if ?h = [] then [] else interleave (map tl (map snd kqs)))"
      by (subst interleave.simps) (simp add: Let_def)
    with less.prems(2) True obtain z where "?h = pre @ z"
      by (metis append_eq_append_conv_if append_take_drop_id)
    then have "turns key q pre \<le> turns key q ?h" by simp
    then show ?thesis using heads [of q] by simp
  next
    case False
    have il0: "interleave (map snd kqs) = (if ?h = [] then [] else ?h @ interleave (map tl (map snd kqs)))"
      by (subst interleave.simps) (simp add: Let_def)
    have ne: "?h \<noteq> []" using less.prems(2) False il0 by (metis append_is_Nil_conv le_zero_eq length_0_conv order_refl)
    have tails: "map tl (map snd kqs) = map snd ?t" by (simp add: o_def case_prod_unfold)
    have il: "interleave (map snd kqs) = ?h @ interleave (map snd ?t)"
      using il0 unfolding tails if_not_P [OF ne] .
    obtain pre' where pre: "pre = ?h @ pre'" and rest: "pre' @ rest = interleave (map snd ?t)"
    proof (rule that [of "drop (length ?h) pre"])
      have "take (length ?h) (pre @ rest) = ?h" using less.prems(2) il by (metis append_eq_conv_conj)
      then show *: "pre = ?h @ drop (length ?h) pre"
        using False by (metis append_take_drop_id le_cases take_append take_all diff_is_0_eq' take0 append_Nil2)
      show "drop (length ?h) pre @ rest = interleave (map snd ?t)"
        using less.prems(2) il * by (metis append.assoc same_append_eq)
    qed
    have qp: "qp \<noteq> []" using less.prems(4) by auto
    have p1: "turns key p ?h = 1" using turns_heads [OF less.prems(1), of p] less.prems(3) qp by simp
    have "sum_list (map (length \<circ> snd) ?t) < sum_list (map (length \<circ> snd) kqs)"
      using tails_shorter [of "map snd kqs"] ne by (simp add: o_def case_prod_unfold)
    moreover have "map_of ?t p = Some (tl qp)" using less.prems(3) by (simp add: map_of_tails)
    moreover have "turns key p pre' < length (tl qp)" using less.prems(4) pre p1 by simp
    ultimately have "turns key q pre' \<le> Suc (turns key p pre')"
      using less.hyps keyed_tails [OF less.prems(1)] rest by blast
    then show ?thesis using heads [of q] p1 by (simp add: pre)
  qed
qed

section \<open>The scheduler's order\<close>

lemma sorted_keys: "distinct (remdups_adj (sort (xs :: string list)))"
proof -
  have "distinct (remdups_adj ys)" if "sorted ys" for ys :: "string list"
    using that by (induction ys rule: remdups_adj.induct) auto
  then show ?thesis by simp
qed

lemma visit_order_keys:
  "distinct (visit_order prev rows) \<and> set (visit_order prev rows) = snd ` set rows"
  by (auto simp: visit_order_def Let_def sorted_keys split: option.split)

definition turn_queues :: "store \<Rightarrow> (string \<times> (string \<times> string) list) list" where
  "turn_queues s =
     map (\<lambda>p. (p, filter (\<lambda>r. snd r = p) (running_rows s)))
       (visit_order (setting ''scheduler.last_project'' s) (running_rows s))"

lemma turn_queues_keyed: "keyed snd (turn_queues s)"
  using visit_order_keys [of "setting ''scheduler.last_project'' s" "running_rows s"]
  by (auto simp: keyed_def turn_queues_def o_def)

lemma ordered_tasks_queues: "ordered_tasks s = interleave (map snd (turn_queues s))"
  by (simp add: ordered_tasks_def turn_queues_def Let_def o_def)

lemma turn_queue_of:
  "p \<in> snd ` set (running_rows s) \<Longrightarrow>
     map_of (turn_queues s) p = Some (filter (\<lambda>r. snd r = p) (running_rows s))"
proof -
  have "map_of (map (\<lambda>p. (p, f p)) ps) p = (if p \<in> set ps then Some (f p) else None)"
    for ps and f :: "string \<Rightarrow> (string \<times> string) list"
    by (induction ps) auto
  then show "p \<in> snd ` set (running_rows s) \<Longrightarrow> ?thesis"
    using visit_order_keys by (simp add: turn_queues_def)
qed

lemma filters_mset:
  "distinct ps \<Longrightarrow> sum_list (map (\<lambda>p. mset (filter (\<lambda>r. key r = p) rows)) ps) = mset (filter (\<lambda>r. key r \<in> set ps) rows)"
proof (induction ps)
  case (Cons p ps)
  have "mset (filter (\<lambda>r. key r \<in> set (p # ps)) rows) =
      mset (filter (\<lambda>r. key r = p) rows) + mset (filter (\<lambda>r. key r \<in> set ps) rows)"
    if "p \<notin> set ps" for rows
    using that by (induction rows) auto
  with Cons show ?case by simp
qed simp

text \<open>
  C19. Scheduling is fair between projects. The order of the running tasks is a rearrangement of
  all of them, and in every prefix of it no project is more than one turn ahead of a project that
  still has tasks waiting; two projects that both have waiting tasks thus differ by at most one
  turn. A project whose tasks have all had their turn may fall behind.
\<close>

theorem ordered_tasks_fair:
  "mset (ordered_tasks s) = mset (running_rows s) \<and>
   (\<forall>pre rest p q. ordered_tasks s = pre @ rest \<longrightarrow> (\<exists>t. (t, p) \<in> set rest) \<longrightarrow>
      turns snd q pre \<le> Suc (turns snd p pre))"
proof (intro conjI allI impI)
  let ?vo = "visit_order (setting ''scheduler.last_project'' s) (running_rows s)"
  have "mset (ordered_tasks s) = sum_list (map (\<lambda>p. mset (filter (\<lambda>r. snd r = p) (running_rows s))) ?vo)"
    by (simp add: ordered_tasks_queues interleave_mset turn_queues_def o_def)
  also have "\<dots> = mset (filter (\<lambda>r. snd r \<in> set ?vo) (running_rows s))"
    using visit_order_keys by (simp only: filters_mset)
  also have "filter (\<lambda>r. snd r \<in> set ?vo) (running_rows s) = running_rows s"
    using visit_order_keys by (simp add: filter_id_conv)
  finally show all: "mset (ordered_tasks s) = mset (running_rows s)" .
  fix pre rest p q
  assume split: "ordered_tasks s = pre @ rest" and "\<exists>t. (t, p) \<in> set rest"
  then obtain t where t: "(t, p) \<in> set rest" by blast
  have "turns snd p (ordered_tasks s) = length (filter (\<lambda>r. snd r = p) (running_rows s))"
    unfolding turns_def using all by (metis mset_filter size_mset)
  moreover have "turns snd p rest \<noteq> 0" using t by (force simp: turns_def filter_empty_conv)
  ultimately have "turns snd p pre < length (filter (\<lambda>r. snd r = p) (running_rows s))"
    by (simp add: split)
  moreover have "p \<in> snd ` set (running_rows s)"
  proof -
    have "(t, p) \<in> set (ordered_tasks s)" using t by (simp add: split)
    then have "(t, p) \<in> set (running_rows s)" using all by (metis set_mset_mset)
    then show ?thesis by force
  qed
  ultimately show "turns snd q pre \<le> Suc (turns snd p pre)"
    using fair_prefix [OF turn_queues_keyed [of s], of pre rest p] turn_queue_of split ordered_tasks_queues
    by simp
qed

section \<open>Admission\<close>

lemma runtime_allowed_keeps:
  assumes "runtime_allowed env project runtime s = (t, Ok b)"
  shows "\<exists>rows p lcl. t = s\<lparr>runtime_settings := rows\<rparr> \<and> resolve_project project s = Ok p \<and>
    local_runtime_identity env s = Ok lcl \<and> b = allowed_names p [runtime, runtime_alias runtime lcl] s"
proof -
  from assms obtain p lcl where p: "resolve_project project s = Ok p" and l: "local_runtime env s = (t, Ok lcl)"
    and b: "b = allowed_names p [runtime, runtime_alias runtime lcl] t"
    by (auto simp: runtime_allowed_def runs bnd_run [of "local_runtime env"])
  obtain rows where t: "t = s\<lparr>runtime_settings := rows\<rparr>" using local_runtime_run(4) [OF l] by blast
  have "allowed_names p names t = allowed_names p names s" for names
    by (simp add: allowed_names_def t foreign_binding_def)
  with p t b local_runtime_run(1) [OF l] show ?thesis by blast
qed

lemma refuse_run: "refuse env task reason s = (t, Ok b) \<Longrightarrow> \<not> b"
  by (auto simp: refuse_def thn_def bnd_def ret_def split: prod.splits sum.splits)

text \<open>
  C20. Nothing is dispatched beyond a project's limits. When a task is admitted, the project
  exists, its live local attempts and remote reservations together are fewer than its
  concurrency, this runtime is allowed for it, and a project that wants a virtual machine runs
  on an isolated runtime.
\<close>

theorem admission_respects_limits:
  assumes "eligible env task s = (t, Ok True)"
  shows "\<exists>project row lcl. task_project task s = Ok project \<and>
    find (\<lambda>p. pj_id p = project) (projects s) = Some row \<and>
    int (active project s) < pj_concurrency row \<and>
    local_runtime_identity env s = Ok lcl \<and>
    (\<exists>p. resolve_project project s = Ok p \<and> allowed_names p [lcl, runtime_alias lcl lcl] s) \<and>
    (pj_isolation row = ''vm'' \<longrightarrow> unwrap_or (setting ''isolation'' t) ''native'' \<in> {''vm'', ''lima''})"
proof -
  from assms obtain project row lcl u v where
    pr: "task_project task s = Ok project" "find (\<lambda>p. pj_id p = project) (projects s) = Some row"
    and l: "local_runtime env s = (u, Ok lcl)"
    and a: "runtime_allowed env project lcl u = (v, Ok True)"
    and v: "(if pj_isolation row = ''vm'' \<and> unwrap_or (setting ''isolation'' v) ''native'' \<notin> {''vm'', ''lima''}
       then refuse env task ''project requires an isolated VM runtime''
       else bnd (ask_state (\<lambda>s. Ok (int (active project s)))) (\<lambda>n.
         if n \<ge> pj_concurrency row then refuse env task ''project concurrency limit reached'' else ret True)) v = (t, Ok True)"
    unfolding eligible_def
    by (auto simp: runs bnd_run [of "local_runtime env"] bnd_run [of "runtime_allowed env x y" for x y]
        context_of_Ok_iff dest: refuse_run split: if_splits)
  obtain r1 where u: "u = s\<lparr>runtime_settings := r1\<rparr>" using local_runtime_run(4) [OF l] by blast
  obtain r2 p l2 where vv: "v = u\<lparr>runtime_settings := r2\<rparr>" and p: "resolve_project project u = Ok p"
    and l2: "local_runtime_identity env u = Ok l2" and al: "allowed_names p [lcl, runtime_alias lcl l2] u"
    using runtime_allowed_keeps [OF a] by auto
  have "l2 = lcl" using l2 local_runtime_run(2) [OF l] by simp
  moreover have "allowed_names p names u = allowed_names p names s" for names
    by (simp add: allowed_names_def u foreign_binding_def)
  moreover have "resolve_project project s = Ok p" using p by (simp add: u resolve_project_def)
  moreover have "active project v = active project s"
    by (simp add: active_def vv u project_of_step_def)
  moreover have "t = v" "int (active project v) < pj_concurrency row"
    "pj_isolation row = ''vm'' \<longrightarrow> unwrap_or (setting ''isolation'' v) ''native'' \<in> {''vm'', ''lima''}"
    using v by (auto simp: runs dest: refuse_run split: if_splits)
  ultimately show ?thesis
    using pr al local_runtime_run(1) [OF l] by auto
qed

section \<open>Leases\<close>

text \<open>The leases of steps that still run.\<close>

definition live_leases :: "store \<Rightarrow> lease_row list" where
  "live_leases s = filter (\<lambda>l. live_step (le_step l) s) (remote_account_leases s)"

definition lease_safe :: "store \<Rightarrow> store \<Rightarrow> bool" where
  "lease_safe s t = (attempts t = attempts s \<and> live_leases t = live_leases s)"

lemma live_step_cong: "attempts t = attempts s \<Longrightarrow> live_step x t = live_step x s"
  by (simp add: live_step_def)

lemma update_dead_leases:
  assumes "attempts t = attempts s" and "\<And>l. P l \<Longrightarrow> \<not> live_step (le_step l) s"
    and "live_leases t = live_leases s"
  shows "lease_safe s (t\<lparr>remote_account_leases := update_rows P (\<lambda>l. l\<lparr>le_state := st\<rparr>) (remote_account_leases t)\<rparr>)"
proof -
  have "filter (\<lambda>l. live_step (le_step l) s) (update_rows P (\<lambda>l. l\<lparr>le_state := st\<rparr>) ls) =
      filter (\<lambda>l. live_step (le_step l) s) ls" for ls
    using assms(2) by (induction ls) (auto simp: update_rows_def)
  then show ?thesis
    using assms(1,3) by (simp add: lease_safe_def live_leases_def live_step_def)
qed

lemma release_lease_safe:
  "\<not> live_step (le_step l) s \<Longrightarrow> keeps (lease_safe s) (release_lease call l)"
  unfolding release_lease_def set_lease_def Let_def
proof (intro keeps_rules)
  fix t :: store and st :: string
  assume "\<not> live_step (le_step l) s" "lease_safe s t"
  then show "lease_safe s (t\<lparr>remote_account_leases :=
      update_rows (\<lambda>r. le_step r = le_step l) (\<lambda>l. l\<lparr>le_state := st\<rparr>) (remote_account_leases t)\<rparr>)"
    by (intro update_dead_leases) (auto simp: lease_safe_def)
qed

lemma release_remote_safe: "keeps (lease_safe s) (release_remote call stp)"
  unfolding release_remote_def
proof (rule keeps_ask_use)
  fix live assume "\<exists>u. lease_safe s u \<and> Ok (live_step stp u) = Ok live"
  then have live: "live = live_step stp s" by (auto simp: lease_safe_def live_step_def)
  show "keeps (lease_safe s) (if live then ret ()
     else bnd (ask_state (\<lambda>s. Ok (filter (\<lambda>l. le_step l = stp \<and> le_state l \<noteq> ''released'') (remote_account_leases s))))
       (\<lambda>leases. each_op (release_lease call) leases))"
  proof (cases live)
    case False
    have "keeps (lease_safe s) (each_op (release_lease call) ls)"
      if "\<forall>l \<in> set ls. le_step l = stp" for ls
      using that
    proof (induction ls)
      case (Cons l ls)
      then show ?case using False live by (auto intro!: keeps_thn release_lease_safe)
    qed simp
    then show ?thesis using False by (auto intro!: keeps_ask_use)
  qed simp
qed

text \<open>
  C21. Running work keeps its lease. Whatever the controller answers, reconciling releases
  changes no lease of a step that has a running or uncertain attempt, and no attempt.
\<close>

theorem reconcile_keeps_live_leases:
  "live_leases (fst (reconcile_releases call s)) = live_leases s \<and>
   attempts (fst (reconcile_releases call s)) = attempts s"
proof -
  have "lease_safe s s" by (simp add: lease_safe_def)
  moreover have "keeps (lease_safe s) (reconcile_releases call)"
    unfolding reconcile_releases_def
  proof (intro keeps_rules release_remote_safe)
    fix t assume "lease_safe s t"
    then show "lease_safe s (t\<lparr>remote_account_leases :=
        update_rows (release_due t) (\<lambda>l. l\<lparr>le_state := ''release_pending''\<rparr>) (remote_account_leases t)\<rparr>)"
      by (intro update_dead_leases) (auto simp: lease_safe_def release_due_def live_step_def)
  qed
  ultimately show ?thesis by (simp add: keeps_def lease_safe_def)
qed

section \<open>Witnesses\<close>

definition project_named :: "string \<Rightarrow> project_row" where
  "project_named i = \<lparr>pj_id = i, pj_slug = i, pj_name = i, pj_concurrency = 4, pj_isolation = ''native'', pj_created = 0\<rparr>"

definition in_project :: "string \<Rightarrow> string \<Rightarrow> task_project_row" where
  "in_project task project = \<lparr>tp_task = task, tp_project = project, tp_repository = None\<rparr>"

text \<open>Two projects with two running tasks each; the first had the last turn.\<close>

definition two_projects :: store where
  "two_projects = empty_store\<lparr>projects := map project_named [''aaa'', ''bbb''],
     tasks := map sample_task [''a0'', ''a1'', ''b0'', ''b1''],
     task_projects := [in_project ''a0'' ''aaa'', in_project ''a1'' ''aaa'', in_project ''b0'' ''bbb'', in_project ''b1'' ''bbb''],
     runtime_settings := [(''scheduler.last_project'', ''aaa'')]\<rparr>"

definition dedicated :: store where
  "dedicated = fst (bind_runtime sample_env ''aaa'' ''builder'' two_projects)"

lemma dedicated_run: "bind_runtime sample_env ''aaa'' ''builder'' two_projects = (dedicated, Ok ())"
proof -
  have "snd (bind_runtime sample_env ''aaa'' ''builder'' two_projects) = Ok ()" by code_simp
  then show ?thesis by (simp add: dedicated_def prod_eq_iff)
qed

lemma dedicated_runtime_serves_one_project_witness:
  "runtime_allowed sample_env ''aaa'' ''builder'' dedicated = (dedicated, Ok True) \<and>
   runtime_allowed sample_env ''bbb'' ''builder'' dedicated = (dedicated, Ok False)"
proof -
  have "resolve_project ''aaa'' two_projects = Ok ''aaa''" "resolve_project ''bbb'' dedicated = Ok ''bbb''"
    by code_simp+
  then show ?thesis
    using dedicated_runtime_serves_one_project [OF dedicated_run] by auto
qed

definition revoke_args :: json where
  "revoke_args = jobj [(''project'', JStr ''aaa''), (''runtime'', JStr ''builder'')]"

definition after_revoke :: store where
  "after_revoke = fst (project_runtime_revoke sample_env revoke_args dedicated)"

lemma revoked_runtime_is_refused_witness:
  "runtime_allowed sample_env ''aaa'' ''builder'' after_revoke = (after_revoke, Ok False)"
proof -
  have "snd (project_runtime_revoke sample_env revoke_args dedicated) = Ok ()" by code_simp
  then have run: "project_runtime_revoke sample_env revoke_args dedicated = (after_revoke, Ok ())"
    by (simp add: after_revoke_def prod_eq_iff)
  have "jget revoke_args ''project'' = JStr ''aaa''" "jget revoke_args ''runtime'' = JStr ''builder''"
      "resolve_project ''aaa'' dedicated = Ok ''aaa''"
    by code_simp+
  then show ?thesis using revoked_runtime_is_refused [OF run] by blast
qed

definition bound_example :: store where
  "bound_example = fst (bind_task sample_env ''r1'' ''t9'' ''bbb'' ''/repo'' two_projects)"

lemma task_project_is_immutable_witness:
  "task_project ''t9'' bound_example = Ok ''bbb'' \<and> task_project ''a0'' bound_example = Ok ''aaa''"
proof -
  have "snd (bind_task sample_env ''r1'' ''t9'' ''bbb'' ''/repo'' two_projects) = Ok ()" by code_simp
  then have run: "bind_task sample_env ''r1'' ''t9'' ''bbb'' ''/repo'' two_projects = (bound_example, Ok ())"
    by (simp add: bound_example_def prod_eq_iff)
  have "task_project ''a0'' two_projects = Ok ''aaa''" "resolve_project ''bbb'' two_projects = Ok ''bbb''"
    by code_simp+
  then show ?thesis using task_project_is_immutable [OF run] by auto
qed

lemma ordered_tasks_fair_witness:
  "ordered_tasks two_projects = [(''b0'', ''bbb''), (''a0'', ''aaa''), (''b1'', ''bbb''), (''a1'', ''aaa'')] \<and>
   turns snd ''bbb'' [(''b0'', ''bbb''), (''a0'', ''aaa''), (''b1'', ''bbb'')] \<le>
     Suc (turns snd ''aaa'' [(''b0'', ''bbb''), (''a0'', ''aaa''), (''b1'', ''bbb'')])"
proof -
  have order: "ordered_tasks two_projects = [(''b0'', ''bbb''), (''a0'', ''aaa''), (''b1'', ''bbb''), (''a1'', ''aaa'')]"
    by code_simp
  then have "ordered_tasks two_projects = [(''b0'', ''bbb''), (''a0'', ''aaa''), (''b1'', ''bbb'')] @ [(''a1'', ''aaa'')]"
    by simp
  then show ?thesis using ordered_tasks_fair [of two_projects] order by auto
qed

definition granted_store :: store where
  "granted_store = two_projects\<lparr>project_runtime_grants := [\<lparr>rt_project = ''aaa'', rt_runtime = ''local''\<rparr>]\<rparr>"

lemma admission_respects_limits_witness:
  "\<exists>row. find (\<lambda>p. pj_id p = ''aaa'') (projects granted_store) = Some row \<and>
     int (active ''aaa'' granted_store) < pj_concurrency row"
proof -
  have "snd (eligible sample_env ''a0'' granted_store) = Ok True" by code_simp
  then obtain t where run: "eligible sample_env ''a0'' granted_store = (t, Ok True)"
    by (metis prod.collapse)
  have "task_project ''a0'' granted_store = Ok ''aaa''" by code_simp
  then show ?thesis using admission_respects_limits [OF run] by auto
qed

end
