(* ===== verification/Delegation_Facts.thy ===== *)
theory Delegation_Facts
  imports Delegation
begin

text \<open>
  What delegation promises: every tree stays within its limits and shares one context version,
  the walk up a tree ends, a revision of the context makes every earlier result stale, and the
  answer to a question is final and, where asked for, human.
\<close>

section \<open>The tree invariant\<close>

definition same_tree :: "tree_row \<Rightarrow> tree_row \<Rightarrow> bool" where
  "same_tree t r = (tt_root r = tt_root t \<and> tt_version r = tt_version t \<and> tt_limits r = tt_limits t)"

definition row_ok :: "tree_row list \<Rightarrow> tree_row \<Rightarrow> bool" where
  "row_ok ts t =
     (0 \<le> tt_depth t \<and> tt_depth t \<le> int (lm_depth (tt_limits t)) \<and>
      (\<exists>r \<in> set ts. tt_task r = tt_root t \<and> same_tree t r) \<and>
      (case tt_parent t of
         None \<Rightarrow> tt_depth t = 0 \<and> tt_root t = tt_task t
       | Some p \<Rightarrow> \<exists>u \<in> set ts. tt_task u = p \<and> same_tree t u \<and> tt_depth t = tt_depth u + 1))"

definition size_of :: "string \<Rightarrow> tree_row list \<Rightarrow> nat" where
  "size_of r0 ts = length (filter (\<lambda>t. tt_root t = r0) ts)"

definition tree_ok :: "tree_row list \<Rightarrow> bool" where
  "tree_ok ts =
     (distinct (map tt_task ts) \<and>
      (\<forall>t \<in> set ts. row_ok ts t \<and> int (size_of (tt_root t) ts) - 1 \<le> int (lm_children (tt_limits t))))"

lemma tree_ok_Nil: "tree_ok []"
  by (simp add: tree_ok_def)

lemma tree_size_of: "tree_size r0 s = size_of r0 (task_tree s)"
  by (simp add: tree_size_def size_of_def count_rows_def)

text \<open>A new task is a tree of its own.\<close>

definition solo_row :: "string \<Rightarrow> limits \<Rightarrow> tree_row" where
  "solo_row i l = \<lparr>tt_task = i, tt_root = i, tt_parent = None, tt_caller_worker = None, tt_depth = 0,
     tt_version = 1, tt_limits = l, tt_request_id = None, tt_request_hash = None\<rparr>"

lemma solo_row_sel [simp]:
  "tt_task (solo_row i l) = i" "tt_root (solo_row i l) = i" "tt_parent (solo_row i l) = None"
  "tt_depth (solo_row i l) = 0" "tt_limits (solo_row i l) = l" "tt_version (solo_row i l) = 1"
  by (simp_all add: solo_row_def)

lemma root_row: "tree_ok ts \<Longrightarrow> t \<in> set ts \<Longrightarrow> \<exists>r \<in> set ts. tt_task r = tt_root t \<and> same_tree t r"
  by (simp add: tree_ok_def row_ok_def)

lemma root_in_tree: "tree_ok ts \<Longrightarrow> t \<in> set ts \<Longrightarrow> tt_root t \<in> tt_task ` set ts"
  using root_row by (metis image_eqI)

lemma same_row: "tree_ok ts \<Longrightarrow> q \<in> set ts \<Longrightarrow> r \<in> set ts \<Longrightarrow> tt_task q = tt_task r \<Longrightarrow> q = r"
  by (simp add: tree_ok_def distinct_map inj_on_def)

lemma row_ok_append: "row_ok ts t \<Longrightarrow> row_ok (ts @ us) t"
  by (auto simp: row_ok_def split: option.splits)

lemma tree_ok_solo:
  assumes ok: "tree_ok ts" and new: "i \<notin> tt_task ` set ts"
  shows "tree_ok (ts @ [solo_row i l])"
proof -
  have other: "tt_root t \<noteq> i" if "t \<in> set ts" for t
    using root_in_tree [OF ok that] new by auto
  then have sizes: "size_of i (ts @ [solo_row i l]) = 1"
      "t \<in> set ts \<Longrightarrow> size_of (tt_root t) (ts @ [solo_row i l]) = size_of (tt_root t) ts" for t
    by (auto simp: size_of_def filter_empty_conv)
  have "row_ok (ts @ [solo_row i l]) (solo_row i l)"
    by (simp add: row_ok_def same_tree_def)
  then show ?thesis
    using ok new sizes other by (auto simp: tree_ok_def row_ok_append)
qed

text \<open>The newest tree, a single row, joins the tree of \<open>t\<close> below \<open>t\<close>.\<close>

definition child_row :: "tree_row \<Rightarrow> string option \<Rightarrow> string \<Rightarrow> string \<Rightarrow> tree_row \<Rightarrow> tree_row" where
  "child_row t w request hash r = r\<lparr>tt_root := tt_root t, tt_parent := Some (tt_task t), tt_caller_worker := w,
     tt_depth := tt_depth t + 1, tt_request_id := Some request, tt_request_hash := Some hash,
     tt_version := tt_version t, tt_limits := tt_limits t\<rparr>"

lemma tree_ok_adopt:
  assumes ok: "tree_ok ts" and new: "i \<notin> tt_task ` set ts" and t: "t \<in> set ts"
    and depth: "tt_depth t < int (lm_depth (tt_limits t))"
    and room: "int (size_of (tt_root t) ts) - 1 < int (lm_children (tt_limits t))"
  shows "tree_ok (ts @ [child_row t w request hash (solo_row i l)])"
proof -
  let ?c = "child_row t w request hash (solo_row i l)"
  have c: "tt_task ?c = i" "tt_root ?c = tt_root t" "tt_parent ?c = Some (tt_task t)"
      "tt_depth ?c = tt_depth t + 1" "tt_version ?c = tt_version t" "tt_limits ?c = tt_limits t"
    by (simp_all add: child_row_def)
  have rt: "row_ok ts t" using ok t by (simp add: tree_ok_def)
  then obtain r where r: "r \<in> set ts" "tt_task r = tt_root t" "same_tree t r" by (auto simp: row_ok_def)
  have rc: "row_ok (ts @ [?c]) ?c"
    unfolding row_ok_def c
    using rt depth r t by (auto simp: row_ok_def same_tree_def c)
  have sizes: "size_of r0 (ts @ [?c]) = size_of r0 ts + (if r0 = tt_root t then 1 else 0)" for r0
    by (simp add: size_of_def c)
  have "int (size_of (tt_root u) (ts @ [?c])) - 1 \<le> int (lm_children (tt_limits u))" if u: "u \<in> set (ts @ [?c])" for u
  proof (cases "tt_root u = tt_root t")
    case True
    have "tt_limits u = tt_limits t"
    proof (cases "u \<in> set ts")
      case True
      then obtain q where q: "q \<in> set ts" "tt_task q = tt_root u" "same_tree u q"
        using root_row [OF ok True] by blast
      have "q = r"
        using same_row [OF ok q(1) r(1)] q(2) r(2) \<open>tt_root u = tt_root t\<close> by simp
      then show ?thesis using q(3) r(3) by (simp add: same_tree_def)
    next
      case False
      with u show ?thesis by (simp add: c)
    qed
    then show ?thesis using True room by (simp add: sizes)
  next
    case False
    then have "u \<in> set ts" using u by (auto simp: c)
    then show ?thesis using ok False by (simp add: sizes tree_ok_def)
  qed
  then show ?thesis
    using ok new rc by (auto simp: tree_ok_def row_ok_append c)
qed

lemma tree_ok_bump:
  assumes "tree_ok ts"
  shows "tree_ok (update_rows (\<lambda>t. tt_root t = r0) (\<lambda>t. t\<lparr>tt_version := v\<rparr>) ts)"
proof -
  let ?f = "\<lambda>t. if tt_root t = r0 then t\<lparr>tt_version := v\<rparr> else t"
  have keep: "tt_task (?f t) = tt_task t" "tt_root (?f t) = tt_root t" "tt_parent (?f t) = tt_parent t"
      "tt_depth (?f t) = tt_depth t" "tt_limits (?f t) = tt_limits t" for t
    by simp_all
  have same: "same_tree (?f t) (?f r)" if "same_tree t r" for t r
    using that by (simp add: same_tree_def)
  have up: "update_rows (\<lambda>t. tt_root t = r0) (\<lambda>t. t\<lparr>tt_version := v\<rparr>) ts = map ?f ts"
    by (simp add: update_rows_def)
  have mem: "?f r \<in> set (map ?f ts)" if "r \<in> set ts" for r
    using that by auto
  have "row_ok (map ?f ts) (?f t)" if t: "row_ok ts t" for t
  proof -
    obtain r where r: "r \<in> set ts" "tt_task r = tt_root t" "same_tree t r" using t by (auto simp: row_ok_def)
    then have root: "\<exists>r \<in> set (map ?f ts). tt_task r = tt_root (?f t) \<and> same_tree (?f t) r"
      by (intro bexI [OF _ mem [of r]]) (simp_all only: keep same simp_thms)
    have par: "\<exists>u \<in> set (map ?f ts). tt_task u = p \<and> same_tree (?f t) u \<and> tt_depth (?f t) = tt_depth u + 1"
      if "tt_parent t = Some p" for p
    proof -
      obtain u where "u \<in> set ts" "tt_task u = p" "same_tree t u" "tt_depth t = tt_depth u + 1"
        using t \<open>tt_parent t = Some p\<close> by (auto simp: row_ok_def)
      then show ?thesis
        by (intro bexI [OF _ mem [of u]]) (simp_all only: keep same simp_thms)
    qed
    show ?thesis
      using t root par unfolding row_ok_def keep by (cases "tt_parent t") simp_all
  qed
  moreover have "size_of x (map ?f ts) = size_of x ts" for x
    by (simp add: size_of_def filter_map o_def keep)
  ultimately have "row_ok (map ?f ts) t \<and> int (size_of (tt_root t) (map ?f ts)) - 1 \<le> int (lm_children (tt_limits t))"
    if "t \<in> set (map ?f ts)" for t
  proof -
    have "t \<in> ?f ` set ts" using that by (simp only: set_map)
    then obtain u where u: "t = ?f u" "u \<in> set ts" by (rule imageE)
    then have "row_ok ts u" "int (size_of (tt_root u) ts) - 1 \<le> int (lm_children (tt_limits u))"
      using assms by (simp_all add: tree_ok_def)
    then show ?thesis
      using \<open>\<And>t. row_ok ts t \<Longrightarrow> row_ok (map ?f ts) (?f t)\<close> \<open>\<And>x. size_of x (map ?f ts) = size_of x ts\<close>
      unfolding u(1) keep by simp
  qed
  moreover have "map tt_task (map ?f ts) = map tt_task ts" by (simp add: o_def keep)
  ultimately show ?thesis
    using assms unfolding up tree_ok_def by (simp only:) blast
qed

section \<open>What each operation does to the tree\<close>

text \<open>A parameter that does not touch the tree.\<close>

definition leaves :: "(store \<Rightarrow> 'x) \<Rightarrow> (store, 'a) oper \<Rightarrow> bool" where
  "leaves f m = (\<forall>s. f (fst (m s)) = f s)"

definition submit_leaves :: "(store \<Rightarrow> 'x) \<Rightarrow> submit_deps \<Rightarrow> bool" where
  "submit_leaves f D = ((\<forall>i. leaves f (sd_bind_skills D i)) \<and> (\<forall>i ns. leaves f (sd_select_bundles D i ns)))"

lemma leaves_keeps: "leaves f m \<Longrightarrow> keeps (\<lambda>t. Q (f t)) m"
  by (simp add: leaves_def keeps_def)

lemma keeps_register_repository [keeps_rules]:
  "(\<And>s g. I s \<Longrightarrow> I (project_repositories_update g s)) \<Longrightarrow> keeps I (register_repository env fresh project repo)"
  unfolding register_repository_def register_repository_identity_def by (intro keeps_rules) simp

lemma keeps_bind_task [keeps_rules]:
  "(\<And>s g. I s \<Longrightarrow> I (project_repositories_update g s)) \<Longrightarrow> (\<And>s g. I s \<Longrightarrow> I (task_projects_update g s)) \<Longrightarrow>
     keeps I (bind_task env fresh task project repo)"
  unfolding bind_task_def by (intro keeps_rules) simp_all

lemma keeps_insert_steps [keeps_rules]:
  "(\<And>s g. I s \<Longrightarrow> I (steps_update g s)) \<Longrightarrow> keeps I (insert_steps F i oid ps)"
  by (induction ps arbitrary: i) (auto simp: require_state_def intro!: keeps_rules)

lemma keeps_require_state [keeps_rules]: "keeps I (require_state p m)"
  by (simp add: require_state_def)

lemma keeps_add_context [keeps_rules]:
  "(\<And>s g. I s \<Longrightarrow> I (context_records_update g s)) \<Longrightarrow> keeps I (add_context cid r0 v k c p b)"
  unfolding add_context_def by (intro keeps_rules) simp

lemma keeps_artifact [keeps_rules]:
  "(\<And>s g. I s \<Longrightarrow> I (artifact_links_update g s)) \<Longrightarrow> keeps I (artifact env write_file oid stp name bytes inputs verified)"
  unfolding artifact_def by (intro keeps_rules) simp_all

text \<open>Submitting either fails and changes nothing, or adds exactly one tree.\<close>

lemma submit_tree:
  assumes deps: "submit_leaves task_tree D"
    and run: "submit_pinned_project env D F project objective repo settings plan s = (t, r)"
  shows "(\<exists>e. r = Err e \<and> t = s) \<or>
    (r = Ok (fi_task F) \<and> fi_task F \<notin> tt_task ` set (task_tree s) \<and>
     task_tree t = task_tree s @ [solo_row (fi_task F) (sg_limits settings)])"
proof (cases r)
  case (Inl e)
  have "t = s"
    using run Inl unfolding submit_pinned_project_def ask_then
    by (auto simp: thn_def bnd_def guard_def require_def ret_def split: sum.splits if_splits prod.splits
        dest: atomic_Err_state)
  with Inl show ?thesis by simp
next
  case (Inr v)
  let ?I = "\<lambda>t. (task_tree t = task_tree s)"
  let ?J = "\<lambda>t. (fi_task F \<notin> tt_task ` set (task_tree s) \<and> task_tree t = task_tree s @ [solo_row (fi_task F) (sg_limits settings)])"
  have ini: "yields ?I (initialize D (fi_task F) objective settings) ?J"
    unfolding initialize_def
    by (intro yields_bnd [OF yields_keeps [OF keeps_ask]] yields_thn [OF yields_insert_unique yields_keeps] keeps_rules)
      (use deps in \<open>auto simp: solo_row_def submit_leaves_def leaves_def keeps_def\<close>)
  have tx: "yields ?I (submit_tx env D F p objective repo settings plan) ?J" for p
    unfolding submit_tx_def
    by (intro yields_thn [OF yields_keeps] yields_thn [OF ini] yields_keeps [of ?J] keeps_rules)
      (use deps in \<open>auto simp: submit_leaves_def leaves_def keeps_def\<close>)
  show ?thesis
    using run Inr unfolding submit_pinned_project_def
    by (auto simp: runs bnd_run thn_run dest!: yieldsD [OF tx])
qed

text \<open>What a delegation leaves to its parameters, as far as the tree is concerned.\<close>

definition delegate_leaves :: "(store \<Rightarrow> 'x) \<Rightarrow> delegate_deps \<Rightarrow> bool" where
  "delegate_leaves f D =
     (submit_leaves f (dd_submit D) \<and> (\<forall>a b c. leaves f (dd_inherit D a b c)) \<and> (\<forall>a b c. leaves f (dd_allocate D a b c)) \<and>
      (\<forall>a b c. leaves f (dd_bundles D a b c)))"

lemma keeps_set_status [simp]: "task_tree (set_task_status p st s) = task_tree s"
  by (simp add: set_task_status_def)

lemma adopt_tree:
  assumes "tree_ok ts" "i \<notin> tt_task ` set ts" "task_tree u = ts @ [solo_row i l]" "tt_task t = oid"
  shows "task_tree (adopt_child oid t args request hash i u) =
    ts @ [child_row t (as_str (jget args ''worker'')) request hash (solo_row i l)]"
  using assms by (auto simp: adopt_child_def update_rows_def child_row_def intro!: map_idI)

lemma delegate_tx_tree:
  assumes deps: "delegate_leaves task_tree D" and ok: "tree_ok (task_tree s)"
    and t: "t \<in> set (task_tree s)" "tt_task t = oid"
  shows "yields (\<lambda>u. u = s) (delegate_tx env D F oid objective args request hash settings prep t)
    (\<lambda>u. tree_ok (task_tree u))"
proof (cases "int (tree_size (tt_root t) s) - 1 < int (lm_children (tt_limits t)) \<and>
    max 0 (tt_depth t) < int (lm_depth (tt_limits t))")
  case False
  then have "\<not> (\<exists>u x. require_state (\<lambda>s. int (tree_size (tt_root t) s) - 1 < int (lm_children (tt_limits t)) \<and>
            max 0 (tt_depth t) < int (lm_depth (tt_limits t))) ''delegation tree limit reached'' s = (u, Ok x))"
    by (auto simp: require_state_def runs)
  then show ?thesis by (auto simp: yields_def delegate_tx_def thn_run)
next
  case True
  let ?i = "fi_task F"
  let ?S = "\<lambda>u::store. (u = s)"
  let ?new = "\<lambda>u::store. (?i \<notin> tt_task ` set (task_tree s) \<and> (\<exists>l. task_tree u = task_tree s @ [solo_row ?i l]))"
  let ?J = "\<lambda>u::store. tree_ok (task_tree u)"
  have limit: "yields ?S (require_state p m) ?S" for p m
    by (auto simp: yields_def require_state_def runs)
  have submit: "x = ?i \<and> ?new u" if "v = s" "submit_pinned_project env (dd_submit D) F pr objective repo st pl v = (u, Ok x)"
    for v u x pr repo st pl
    using submit_tree [of "dd_submit D", OF _ that(2)] deps that(1) by (auto simp: delegate_leaves_def)
  have adopt: "yields ?new (modify (adopt_child oid t args request hash ?i)) ?J"
  proof (rule yields_modify)
    fix u assume new: "?new u"
    then obtain l where l: "task_tree u = task_tree s @ [solo_row ?i l]" by blast
    show "?J (adopt_child oid t args request hash ?i u)"
      unfolding adopt_tree [OF ok conjunct1 [OF new] l t(2)]
      using True by (intro tree_ok_adopt [OF ok conjunct1 [OF new] t(1)]) (auto simp: tree_size_of)
  qed
  have quiet: "keeps ?new m" if "leaves task_tree m" for m :: "(store, 'a) oper"
    using that by (simp add: leaves_def keeps_def)
  have attach: "yields ?new (attach_child env D F oid objective args request hash prep t ?i) ?J"
    unfolding attach_child_def allocate_local_def link_remote_def save_snapshot_def
    by (intro yields_thn [OF yields_keeps] yields_thn [OF adopt] yields_keeps [of ?J] keeps_rules)
      (use deps in \<open>auto simp: delegate_leaves_def leaves_def keeps_def\<close>)
  show ?thesis
    unfolding delegate_tx_def
    by (rule yields_thn [OF limit], rule yields_bnd_value [where K = "\<lambda>x u. x = ?i \<and> ?new u"], rule submit)
      (use attach in \<open>auto simp: yields_def\<close>)
qed

lemma tree_Ok: "tree oid s = Ok t \<longleftrightarrow> find (\<lambda>r. tt_task r = oid) (task_tree s) = Some t"
  by (simp add: tree_def context_of_Ok_iff)

lemma tree_member: "tree oid s = Ok t \<Longrightarrow> t \<in> set (task_tree s) \<and> tt_task t = oid"
  by (auto simp: tree_Ok find_Some_iff)

lemma prepare_tree: "prepare env D oid args parent s = Ok (prep, k, objective) \<Longrightarrow> tree oid s = Ok k"
  by (auto simp: prepare_def Let_def and_then_def split: sum.splits)

lemma delegate_tree:
  assumes deps: "delegate_leaves task_tree D" and ok: "tree_ok (task_tree s)"
    and run: "delegate env D F oid args s = (t, r)"
  shows "tree_ok (task_tree t)"
proof (cases r)
  case (Inl e)
  have "t = s"
    using run Inl unfolding delegate_def Let_def ask_then
    by (auto simp: ask_then thn_def bnd_def guard_def require_def ret_def
        split: sum.splits option.splits if_splits dest: atomic_Err_state)
  with ok show ?thesis by simp
next
  case (Inr v)
  show ?thesis
  proof (cases "\<exists>request. as_str (jget args ''id'') = Some request \<and>
      find (\<lambda>t. tt_parent t = Some oid \<and> tt_request_id t = Some request) (task_tree s) = None")
    case True
    with run Inr obtain args' parent request hash settings prep k objective where
      prep: "prepare env D oid args' parent s = Ok (prep, k, objective)"
      and tx: "delegate_tx env D F oid objective args' request hash settings prep k s = (t, Ok v)"
      by (auto simp: delegate_def Let_def runs context_of_Ok_iff split: prod.splits)
    have k: "tree oid s = Ok k" by (rule prepare_tree [OF prep])
    show ?thesis
      using yieldsD [OF delegate_tx_tree [OF deps ok] tx] tree_member [OF k] by simp
  next
    case False
    with run Inr have "t = s"
      by (auto simp: delegate_def Let_def runs context_of_Ok_iff split: option.splits)
    with ok show ?thesis by simp
  qed
qed

lemma bump_tree: "task_tree (bump_version r0 v s) = update_rows (\<lambda>t. tt_root t = r0) (\<lambda>t. t\<lparr>tt_version := v\<rparr>) (task_tree s)"
  by (simp add: bump_version_def)

lemma block_tree [simp]: "task_tree (block_succeeded r0 s) = task_tree s"
  by (simp add: block_succeeded_def)

lemma supersede_keeps [keeps_rules]: "keeps (\<lambda>s. Q (task_tree s)) (supersede oid old)"
  unfolding supersede_def by (intro keeps_rules) simp

lemma update_context_tree: "keeps (\<lambda>s. tree_ok (task_tree s)) (update_context env fresh oid args)"
  unfolding update_context_def Let_def
  by (intro keeps_rules) (simp_all add: bump_tree tree_ok_bump)

lemma answer_frames [simp]:
  "task_tree (wake_steps q s) = task_tree s" "task_tree (resume_origin i s) = task_tree s"
  "task_tree (set_worker_status P st s) = task_tree s" "task_tree (set_status_of i a b s) = task_tree s"
  by (simp_all add: wake_steps_def set_step_state_def resume_origin_def set_status_of_def set_worker_status_def)

lemma question_action_tree: "keeps (\<lambda>s. tree_ok (task_tree s)) (question_action env caller args escalate)"
  unfolding question_action_def escalate_tx_def answer_tx_def Let_def
  by (intro keeps_rules) (simp_all add: bump_tree tree_ok_bump)

lemma ask_tree: "keeps (\<lambda>s. tree_ok (task_tree s)) (ask env qid rid oid args)"
  unfolding ask_def Let_def by (intro keeps_rules) simp_all

section \<open>Every history of a store\<close>

text \<open>
  Submissions, delegations, context revisions and questions, with any arguments and outcome,
  and every operation that leaves the tree table alone.
\<close>

inductive tree_step :: "store \<Rightarrow> store \<Rightarrow> bool" where
  submitting: "submit_leaves task_tree D \<Longrightarrow>
    tree_step s (fst (submit_pinned_project env D F project objective repo settings plan s))"
| delegating: "delegate_leaves task_tree dd \<Longrightarrow> tree_step s (fst (delegate env dd F oid args s))"
| revising: "tree_step s (fst (update_context env fresh oid args s))"
| asking: "tree_step s (fst (ask env qid rid oid args s))"
| answering: "tree_step s (fst (question_action env caller args escalate s))"
| other: "task_tree t = task_tree s \<Longrightarrow> tree_step s t"

definition tree_reachable :: "store \<Rightarrow> bool" where
  "tree_reachable s = tree_step\<^sup>*\<^sup>* empty_store s"

lemma tree_step_ok: "tree_step s t \<Longrightarrow> tree_ok (task_tree s) \<Longrightarrow> tree_ok (task_tree t)"
proof (induction rule: tree_step.induct)
  case (submitting D s env F project objective repo settings plan)
  obtain t r where run: "submit_pinned_project env D F project objective repo settings plan s = (t, r)"
    by (cases "submit_pinned_project env D F project objective repo settings plan s")
  from submit_tree [OF submitting(1) run] show ?case
    using submitting(2) run by (auto intro: tree_ok_solo)
next
  case (delegating dd s env F oid args)
  obtain t r where run: "delegate env dd F oid args s = (t, r)" by (cases "delegate env dd F oid args s")
  then show ?case using delegate_tree [OF delegating run] by simp
next
  case (revising s env fresh oid args)
  then show ?case using update_context_tree by (simp add: keeps_def)
next
  case (asking s env qid rid oid args)
  then show ?case using ask_tree by (simp add: keeps_def)
next
  case (answering s env caller args escalate)
  then show ?case using question_action_tree by (simp add: keeps_def)
next
  case (other t s)
  then show ?case by simp
qed

lemma tree_reachable_ok: "tree_reachable s \<Longrightarrow> tree_ok (task_tree s)"
  unfolding tree_reachable_def
  by (induction rule: rtranclp_induct) (auto intro: tree_step_ok simp: tree_ok_Nil empty_store_def)

lemma tree_members_agree:
  assumes ok: "tree_ok ts" and "t \<in> set ts" "u \<in> set ts" "tt_root u = tt_root t"
  shows "tt_version u = tt_version t \<and> tt_limits u = tt_limits t"
proof -
  obtain r q where r: "r \<in> set ts" "tt_task r = tt_root t" "same_tree t r"
    and q: "q \<in> set ts" "tt_task q = tt_root u" "same_tree u q"
    using root_row [OF ok] assms(2,3) by blast
  have "q = r" using same_row [OF ok q(1) r(1)] q(2) r(2) assms(4) by simp
  then show ?thesis using q(3) r(3) by (simp add: same_tree_def)
qed

text \<open>
  C12. Delegation trees stay within their limits. After any history of submissions, delegations,
  revisions and questions, every task is at most as deep as the depth limit of its tree, its
  tree holds at most the allowed number of descendants, and all its members agree on the
  version of the inherited context.
\<close>

theorem delegation_trees_bounded:
  assumes "tree_reachable s" and "t \<in> set (task_tree s)"
  shows "0 \<le> tt_depth t \<and> tt_depth t \<le> int (lm_depth (tt_limits t)) \<and>
    tree_size (tt_root t) s \<le> Suc (lm_children (tt_limits t)) \<and>
    (\<forall>u \<in> set (task_tree s). tt_root u = tt_root t \<longrightarrow> tt_version u = tt_version t \<and> tt_limits u = tt_limits t)"
proof -
  have ok: "tree_ok (task_tree s)" by (rule tree_reachable_ok [OF assms(1)])
  then have t: "row_ok (task_tree s) t" "int (size_of (tt_root t) (task_tree s)) - 1 \<le> int (lm_children (tt_limits t))"
    using assms(2) by (simp_all add: tree_ok_def)
  have "tt_version u = tt_version t \<and> tt_limits u = tt_limits t"
    if "u \<in> set (task_tree s)" "tt_root u = tt_root t" for u
    using tree_members_agree [OF ok assms(2)] that by simp
  with t show ?thesis by (auto simp: row_ok_def tree_size_of)
qed

section \<open>The walk up a tree\<close>

text \<open>One step from a task to its caller.\<close>

definition up :: "tree_row list \<Rightarrow> tree_row \<Rightarrow> tree_row \<Rightarrow> bool" where
  "up ts t u = (u \<in> set ts \<and> tt_parent t = Some (tt_task u))"

lemma root_has_no_parent: "row_ok ts t \<Longrightarrow> tt_parent t = None \<Longrightarrow> tt_depth t = 0"
  by (simp add: row_ok_def)

lemma parent_row:
  assumes ok: "tree_ok ts" and b: "b \<in> set ts" and p: "tt_parent b = Some p"
  obtains u where "u \<in> set ts" "tt_task u = p" "tt_root u = tt_root b" "tt_depth b = tt_depth u + 1" "0 \<le> tt_depth u"
    "\<And>v. up ts b v \<longleftrightarrow> v = u"
proof -
  have "row_ok ts b" using ok b by (simp add: tree_ok_def)
  then have "\<exists>u \<in> set ts. tt_task u = p \<and> same_tree b u \<and> tt_depth b = tt_depth u + 1"
    unfolding row_ok_def p option.case by blast
  then obtain u where u: "u \<in> set ts" "tt_task u = p" "same_tree b u" "tt_depth b = tt_depth u + 1"
    by blast
  have "row_ok ts u" using ok u by (simp add: tree_ok_def)
  then have "0 \<le> tt_depth u" by (simp add: row_ok_def)
  moreover have "up ts b v \<longleftrightarrow> v = u" for v
  proof
    assume "up ts b v"
    then have "v \<in> set ts" "tt_task v = p" unfolding up_def p by simp_all
    then show "v = u" using same_row [OF ok _ u(1)] u(2) by simp
  next
    assume "v = u"
    then show "up ts b v" unfolding up_def p using u(1,2) by simp
  qed
  ultimately show ?thesis using that u by (simp add: same_tree_def)
qed

lemma tree_find:
  assumes "tree_ok (task_tree s)" and "u \<in> set (task_tree s)"
  shows "tree (tt_task u) s = Ok u"
  using assms find_key [of tt_task "task_tree s" u] by (simp add: tree_def context_of_def tree_ok_def)

lemma up_depth:
  assumes "tree_ok ts" and "(up ts)\<^sup>*\<^sup>* t u" and "t \<in> set ts"
  shows "u \<in> set ts \<and> tt_root u = tt_root t \<and> tt_depth u \<le> tt_depth t"
  using assms(2,3)
proof (induction rule: rtranclp_induct)
  case base
  then show ?case by simp
next
  case (step u v)
  then have u: "u \<in> set ts" by simp
  obtain w where "tt_parent u = Some w" using step(2) by (auto simp: up_def)
  from parent_row [OF assms(1) u this] show ?case using step by (metis dual_order.trans le_add_same_cancel1 zero_le_one)
qed

lemma up_first:
  assumes "\<And>v. up ts b v \<longleftrightarrow> v = u"
  shows "(up ts)\<^sup>*\<^sup>* b br \<longleftrightarrow> br = b \<or> (up ts)\<^sup>*\<^sup>* u br"
  by (metis assms converse_rtranclpE converse_rtranclp_into_rtranclp rtranclp.rtrancl_refl)

lemma climb_walks_up:
  assumes ok: "tree_ok (task_tree s)" and "b \<in> set (task_tree s)" and "nat (tt_depth b) < n"
  shows "(\<exists>br. climb n caller b s = Ok br \<and> (up (task_tree s))\<^sup>*\<^sup>* b br \<and> tt_parent br = Some caller) \<or>
    climb n caller b s = bail ''question caller ancestry'' \<and>
      (\<forall>br. (up (task_tree s))\<^sup>*\<^sup>* b br \<longrightarrow> tt_parent br \<noteq> Some caller)"
  using assms(2,3)
proof (induction n arbitrary: b)
  case 0
  then show ?case by simp
next
  case (Suc n)
  show ?case
  proof (cases "tt_parent b")
    case None
    then have "(up (task_tree s))\<^sup>*\<^sup>* b br \<longleftrightarrow> br = b" for br
      by (auto simp: up_def elim: converse_rtranclpE)
    with None show ?thesis by simp
  next
    case (Some p)
    from parent_row [OF ok Suc.prems(1) Some] obtain u where u: "u \<in> set (task_tree s)" "tt_task u = p"
      "tt_depth b = tt_depth u + 1" "0 \<le> tt_depth u" and only: "\<And>v. up (task_tree s) b v \<longleftrightarrow> v = u"
      by blast
    have found: "tree p s = Ok u" using tree_find [OF ok u(1)] u(2) by simp
    have fuel: "nat (tt_depth u) < n" using Suc.prems(2) u(3,4) by simp
    show ?thesis
      using Suc.IH [OF u(1) fuel] found Some by (auto simp: up_first [OF only])
  qed
qed

text \<open>
  C17. The walk of \<^verbatim>\<open>question_action\<close> from the origin of a question towards the caller ends in every
  store that the operations build: it finds a task at or above the origin whose caller is the
  one asked for, and fails with the ancestry error exactly when there is none.
\<close>

theorem question_walk_ends:
  assumes "tree_reachable s" and "tree origin s = Ok b"
  shows "if \<exists>br. (up (task_tree s))\<^sup>*\<^sup>* b br \<and> tt_parent br = Some caller
    then \<exists>br. climb (Suc (nat (tt_depth b))) caller b s = Ok br \<and> (up (task_tree s))\<^sup>*\<^sup>* b br \<and> tt_parent br = Some caller
    else climb (Suc (nat (tt_depth b))) caller b s = bail ''question caller ancestry''"
proof -
  have "b \<in> set (task_tree s)"
    using assms(2) by (auto simp: tree_def context_of_def find_Some_iff split: option.splits)
  with climb_walks_up [OF tree_reachable_ok [OF assms(1)], of b "Suc (nat (tt_depth b))" caller]
  show ?thesis by auto
qed

section \<open>Revisions of the context\<close>

lemma tree_version_bump:
  assumes "tree x s = Ok r"
  shows "tree x (bump_version (tt_root r) v s) = Ok (r\<lparr>tt_version := v\<rparr>)"
proof -
  have "find (\<lambda>t. tt_task t = x) (update_rows (\<lambda>t. tt_root t = tt_root r) (\<lambda>t. t\<lparr>tt_version := v\<rparr>) ts) =
      map_option (\<lambda>t. if tt_root t = tt_root r then t\<lparr>tt_version := v\<rparr> else t) (find (\<lambda>t. tt_task t = x) ts)"
    for ts :: "tree_row list"
    by (induction ts) (auto simp: update_rows_def)
  then show ?thesis using assms by (simp add: tree_Ok bump_tree)
qed

lemma no_success_after_block:
  assumes "k \<in> set (tasks (block_succeeded r0 s))" and "in_tree r0 (tk_id k) s"
  shows "tk_status k \<noteq> ''succeeded''"
proof -
  let ?p = "\<lambda>t::task_row. tk_status t = ''succeeded'' \<and> exists_row (\<lambda>r. tt_root r = r0 \<and> tt_task r = tk_id t) (task_tree s)"
  have "k \<in> set (update_rows ?p (\<lambda>t. t\<lparr>tk_status := ''blocked''\<rparr>) (tasks s))"
    using assms(1) by (simp add: block_succeeded_def set_task_status_def)
  then show ?thesis
    using assms(2) by (auto simp: in_tree_def exists_row_iff elim!: update_rowsE)
qed

text \<open>What a revision of the context, and an answer, leave behind for the tree with root \<open>r0\<close>.\<close>

definition revised :: "string \<Rightarrow> int \<Rightarrow> store \<Rightarrow> store \<Rightarrow> bool" where
  "revised r0 v s t =
     (task_tree t = task_tree (bump_version r0 v s) \<and> context_attempts t = context_attempts s \<and>
      (\<forall>k \<in> set (tasks t). in_tree r0 (tk_id k) s \<longrightarrow> tk_status k \<noteq> ''succeeded''))"

lemma in_tree_bump [simp]: "in_tree r0 x (bump_version r1 v s) = in_tree r0 x s"
  by (simp add: in_tree_def bump_tree exists_update_rows)

lemma revised_block:
  assumes "task_tree u = task_tree s" and "context_attempts u = context_attempts s"
  shows "revised r0 v s (block_succeeded r0 (bump_version r0 v u))"
proof -
  have "in_tree r0 x (bump_version r0 v u) = in_tree r0 x s" for x
    unfolding in_tree_bump using assms(1) by (simp add: in_tree_def)
  with no_success_after_block [of _ r0 "bump_version r0 v u"] assms show ?thesis
    by (auto simp: revised_def block_succeeded_def bump_version_def set_task_status_def)
qed

lemma event_revised: "event env i k d u = (t, x) \<Longrightarrow> revised r0 v s u \<Longrightarrow> revised r0 v s t"
  by (rule keepsD [of "\<lambda>t. revised r0 v s t" "event env i k d"]) (intro keeps_rules, simp_all add: revised_def)

lemma quiet_ops:
  "each_op (supersede oid) xs s = (t, r) \<Longrightarrow> task_tree t = task_tree s \<and> context_attempts t = context_attempts s"
  "add_context cid r0 v k c p m s = (t, r') \<Longrightarrow> task_tree t = task_tree s \<and> context_attempts t = context_attempts s"
proof -
  let ?I = "\<lambda>u::store. (task_tree u = task_tree s \<and> context_attempts u = context_attempts s)"
  have "keeps ?I (each_op (supersede oid) xs)" "keeps ?I (add_context cid r0 v k c p m)"
    unfolding supersede_def by (intro keeps_rules; simp)+
  then show "each_op (supersede oid) xs s = (t, r) \<Longrightarrow> ?I t" "add_context cid r0 v k c p m s = (t, r') \<Longrightarrow> ?I t"
    by (auto dest: keepsD)
qed

lemma update_context_revises:
  assumes run: "update_context env fresh oid args s = (t, Ok x)"
  obtains r where "tree oid s = Ok r" "tt_root r = oid" "revised oid (tt_version r + 1) s t"
proof -
  obtain r xs s1 cid kind content provenance m s2 d where r: "tree oid s = Ok r" "tt_root r = oid"
    and sup: "each_op (supersede oid) xs s = (s1, Ok ())"
    and add: "add_context cid oid (tt_version r + 1) kind content provenance m s1 = (s2, Ok ())"
    and ev: "event env oid ''context.updated'' d (block_succeeded oid (bump_version oid (tt_version r + 1) s2)) = (t, Ok ())"
    using run by (auto simp: update_context_def Let_def runs tree_root_def and_then_Ok_iff
        thn_run [of "each_op a b" for a b] thn_run [of "add_context a b c d e f g" for a b c d e f g] thn_run [of "event a b c d" for a b c d])
  show ?thesis
    by (rule that [OF r event_revised [OF ev revised_block]]) (use quiet_ops(1) [OF sup] quiet_ops(2) [OF add] in simp_all)
qed

text \<open>
  C15. Revising the inherited context makes all earlier work of the tree stale: after a successful
  \<^verbatim>\<open>update_context\<close>, an attempt of any task of the tree that was pinned to the current version can
  no longer deliver its result, and no task of the tree counts as succeeded.
\<close>

theorem revision_stales_results:
  assumes "tree_reachable s"
    and "update_context env fresh oid args s = (t, Ok x)"
    and "tree task s = Ok r" and "tt_root r = oid"
    and "find (\<lambda>p. pn_attempt p = attempt) (context_attempts s) = Some p" and "check_pin task attempt s = Ok ()"
  shows "check_pin task attempt t = bail ''context changed during execution; result requires revalidation'' \<and>
    (\<forall>k \<in> set (tasks t). in_tree oid (tk_id k) s \<longrightarrow> tk_status k \<noteq> ''succeeded'')"
proof -
  obtain q where q: "tree oid s = Ok q" "tt_root q = oid" and rev: "revised oid (tt_version q + 1) s t"
    by (rule update_context_revises [OF assms(2)])
  have "tt_version r = tt_version q"
  proof -
    have "q \<in> set (task_tree s)" "r \<in> set (task_tree s)" using q(1) assms(3) tree_member by blast+
    then show ?thesis
      using tree_members_agree [OF tree_reachable_ok [OF assms(1)]] q(2) assms(4) by metis
  qed
  moreover have "tree task t = Ok (r\<lparr>tt_version := tt_version q + 1\<rparr>)"
    using tree_version_bump [OF assms(3)] assms(4) rev by (simp add: tree_def revised_def)
  moreover have "pn_version p = tt_version r" using assms(3,5,6) by (simp add: check_pin_def)
  ultimately show ?thesis
    using assms(5) rev by (simp add: check_pin_def revised_def require_def bail_def)
qed


section \<open>Answers\<close>

lemma find_question_update:
  "find (\<lambda>q. qu_id q = i) (update_rows (\<lambda>q. qu_id q = i) (\<lambda>q. q\<lparr>qu_answer := a\<rparr>) qs) =
   map_option (\<lambda>q. q\<lparr>qu_answer := a\<rparr>) (find (\<lambda>q. qu_id q = i) (qs::question_row list))"
  by (induction qs) (auto simp: update_rows_def)

lemma questions_frames [simp]:
  "questions (wake_steps q s) = questions s" "questions (resume_origin i s) = questions s"
  "questions (bump_version r0 v s) = questions s" "questions (block_succeeded r0 s) = questions s"
  by (simp_all add: wake_steps_def set_step_state_def resume_origin_def set_status_of_def set_task_status_def
      bump_version_def block_succeeded_def)

lemma keeps_questions:
  "add_context cid r0 v k c p m s = (t, r) \<Longrightarrow> questions t = questions s"
  "event env i k d s = (t, r) \<Longrightarrow> questions t = questions s"
  by (rule keepsD [of "\<lambda>t. questions t = questions s", rotated 2], assumption, intro keeps_rules, simp_all)+

text \<open>
  C16. The answer to a question is final. A successful answer to a question that has one repeats it
  and changes nothing; otherwise it is recorded as given, and if the question is for humans only,
  it came with the caller's attestation of a human answer and not from a worker.
\<close>

theorem answers_are_final:
  assumes "question_action env caller args False s = (t, Ok x)" and "as_str (jget args ''question'') = Some qid"
    and "find (\<lambda>q. qu_id q = qid) (questions s) = Some q"
    and "find (\<lambda>r. qr_question r = qid) (question_routes s) = Some route"
  shows "(case qu_answer q of
      Some a \<Rightarrow> t = s \<and> as_str (jget args ''answer'') = Some a
    | None \<Rightarrow> (\<exists>a. as_str (jget args ''answer'') = Some a \<and>
        find (\<lambda>q. qu_id q = qid) (questions t) = Some (q\<lparr>qu_answer := Some a\<rparr>)) \<and>
        (qr_human_only route \<longrightarrow> jget args ''human'' = JBool True \<and> jget args ''worker'' = JNull))"
proof (cases "qu_answer q")
  case (Some a)
  have "answer_tx env caller route (Some a) args s = (t, Ok x)"
    using assms Some by (auto simp: question_action_def runs thn_run [of "bnd (ask_state f) g" for f g] context_of_Ok_iff split: if_splits)
  then show ?thesis using Some by (auto simp: answer_tx_def runs context_of_Ok_iff)
next
  case None
  have id: "qr_question route = qid" using assms(4) by (auto simp: find_Some_iff)
  have "answer_tx env caller route None args s = (t, Ok x)"
    using assms None by (auto simp: question_action_def runs thn_run [of "bnd (ask_state f) g" for f g] context_of_Ok_iff split: if_splits)
  then show ?thesis
    using None assms(3) id
    by (cases "qr_human_only route") (auto simp: answer_tx_def Let_def runs context_of_Ok_iff thn_run [of "add_context a b c d e f g" for a b c d e f g]
        thn_run [of "event a b c d" for a b c d] keeps_questions find_question_update)
qed

end
