(* ===== verification/Delegation_Examples.thy ===== *)
theory Delegation_Examples
  imports Delegation_Facts
begin

text \<open>
  A history of one delegation tree on which the theorems of \<open>Delegation_Facts\<close> are applied: their
  witnesses.
\<close>

section \<open>A concrete tree\<close>

text \<open>
  A task is submitted, delegates a child, the child asks a question for humans, an attempt of
  the child is pinned, and the caller revises the context.
\<close>

definition tree_deps :: delegate_deps where
  "tree_deps = \<lparr>dd_submit = \<lparr>sd_check_skills = (\<lambda>_. Ok ()), sd_bind_skills = (\<lambda>_. ret ()), sd_select_bundles = (\<lambda>_ _. ret ())\<rparr>,
     dd_target = (\<lambda>a _. Ok a), dd_workspace = (\<lambda>_ _. Ok ''/work''), dd_dirty = (\<lambda>_. Ok False),
     dd_templates = (\<lambda>_. Ok [(''simulated'', \<lparr>t_name = ''simulated'', t_version = ''1'', t_inputs = [''task''], t_outputs = [],
        t_steps = [default_step ''a'']\<rparr>)]),
     dd_digest = (\<lambda>_. ''h''), dd_skills = (\<lambda>_ _ _. Ok []), dd_check_budget = (\<lambda>_ _. Ok ()), dd_budgeted = (\<lambda>_ _. Ok False),
     dd_inherit = (\<lambda>_ _ _. ret ()), dd_allocate = (\<lambda>_ child _. ret (''/clone/'' @ child, ''base'')), dd_bundles = (\<lambda>_ _ _. ret ()),
     dd_pack = (\<lambda>_. Ok JNull), dd_write_file = (\<lambda>_. Ok ()), dd_peers = Ok []\<rparr>"

definition ids :: "string \<Rightarrow> fresh_ids" where
  "ids i = \<lparr>fi_task = i, fi_repository = ''repo-'' @ i, fi_clone = ''clone-'' @ i, fi_question = ''start-'' @ i, fi_step = (\<lambda>_. ''step-'' @ i)\<rparr>"

definition with_project :: store where
  "with_project = empty_store\<lparr>projects := [\<lparr>pj_id = ''p'', pj_slug = ''p'', pj_name = ''p'', pj_concurrency = 4,
     pj_isolation = ''native'', pj_created = 0\<rparr>]\<rparr>"

definition tree1 :: store where
  "tree1 = fst (submit_pinned_project sample_env (dd_submit tree_deps) (ids ''a'') ''p'' ''build'' ''/src'' sample_settings
     (empty_plan\<lparr>p_steps := [default_step ''x'']\<rparr>) with_project)"

definition tree2 :: store where
  "tree2 = fst (delegate sample_env tree_deps (ids ''b'') ''a'' (jobj [(''id'', JStr ''r1''), (''objective'', JStr ''part'')]) tree1)"

definition tree3 :: store where
  "tree3 = fst (ask sample_env ''q1'' ''r2'' ''b'' (jobj [(''question'', JStr ''which?''), (''human_only'', JBool True)]) tree2)"

definition tree4 :: store where
  "tree4 = fst (pin ''b'' ''attempt'' tree3)"

lemma tree_deps_quiet: "delegate_leaves task_tree tree_deps" "submit_leaves task_tree (dd_submit tree_deps)"
  by (simp_all add: delegate_leaves_def submit_leaves_def leaves_def tree_deps_def ret_def)

lemma tree_reachable_step: "tree_reachable s \<Longrightarrow> tree_step s t \<Longrightarrow> tree_reachable t"
  by (simp add: tree_reachable_def)

lemma tree1_reachable: "tree_reachable tree1"
proof -
  have "tree_reachable empty_store" by (simp add: tree_reachable_def)
  moreover have "tree_step empty_store with_project" by (rule other) (simp add: with_project_def)
  moreover have "tree_step with_project tree1" unfolding tree1_def by (rule submitting [OF tree_deps_quiet(2)])
  ultimately show ?thesis by (blast intro: tree_reachable_step)
qed

lemma tree2_reachable: "tree_reachable tree2"
  unfolding tree2_def by (rule tree_reachable_step [OF tree1_reachable delegating [OF tree_deps_quiet(1)]])

lemma tree4_reachable: "tree_reachable tree4"
proof -
  have "tree_reachable tree3"
    unfolding tree3_def by (rule tree_reachable_step [OF tree2_reachable asking])
  moreover have "task_tree tree4 = task_tree tree3"
    by (simp add: tree4_def pin_def ask_then insert_unique_def split: sum.split)
  ultimately show ?thesis using tree_reachable_step tree_step.other by metis
qed

lemma delegation_trees_bounded_witness:
  "\<exists>t \<in> set (task_tree tree2). tt_task t = ''b'' \<and> tt_depth t = 1 \<and>
     tt_depth t \<le> int (lm_depth (tt_limits t)) \<and> tree_size (tt_root t) tree2 \<le> Suc (lm_children (tt_limits t))"
proof -
  have "\<exists>t \<in> set (task_tree tree2). tt_task t = ''b'' \<and> tt_depth t = 1" by code_simp
  then show ?thesis using delegation_trees_bounded [OF tree2_reachable] by blast
qed

lemma question_walk_ends_witness:
  "\<exists>b. tree ''b'' tree4 = Ok b \<and> (\<exists>br. climb (Suc (nat (tt_depth b))) ''a'' b tree4 = Ok br \<and> tt_parent br = Some ''a'')"
proof -
  have "\<exists>b \<in> set (task_tree tree4). tree ''b'' tree4 = Ok b \<and> tt_parent b = Some ''a''" by code_simp
  then obtain b where b: "tree ''b'' tree4 = Ok b" "tt_parent b = Some ''a''" by blast
  then have "\<exists>br. (up (task_tree tree4))\<^sup>*\<^sup>* b br \<and> tt_parent br = Some ''a''" by blast
  then show ?thesis using question_walk_ends [OF tree4_reachable b(1), of "''a''"] b(1) by auto
qed

lemma revision_stales_results_witness:
  "check_pin ''b'' ''attempt'' (fst (update_context sample_env ''c1'' ''a''
     (jobj [(''content'', JStr ''new''), (''provenance'', JStr ''caller'')]) tree4)) \<noteq> Ok ()"
proof -
  let ?run = "update_context sample_env ''c1'' ''a'' (jobj [(''content'', JStr ''new''), (''provenance'', JStr ''caller'')]) tree4"
  have "is_ok (snd ?run)" by code_simp
  then obtain x where "?run = (fst ?run, Ok x)" by (metis is_ok_iff prod.collapse)
  moreover obtain r where "tree ''b'' tree4 = Ok r" "tt_root r = ''a''"
  proof -
    have "\<exists>r \<in> set (task_tree tree4). tree ''b'' tree4 = Ok r \<and> tt_root r = ''a''" by code_simp
    then show ?thesis using that by blast
  qed
  moreover obtain p where "find (\<lambda>p. pn_attempt p = ''attempt'') (context_attempts tree4) = Some p"
  proof -
    have "find (\<lambda>p. pn_attempt p = ''attempt'') (context_attempts tree4) \<noteq> None" by code_simp
    then show ?thesis using that by auto
  qed
  moreover have "check_pin ''b'' ''attempt'' tree4 = Ok ()" by code_simp
  ultimately show ?thesis using revision_stales_results [OF tree4_reachable] by fastforce
qed

lemma answers_are_final_witness:
  "\<exists>q. find (\<lambda>q. qu_id q = ''q1'') (questions (fst (question_action sample_env ''a''
     (jobj [(''question'', JStr ''q1''), (''answer'', JStr ''yes''), (''human'', JBool True)]) False tree4))) = Some q \<and> qu_answer q = Some ''yes''"
proof -
  let ?args = "jobj [(''question'', JStr ''q1''), (''answer'', JStr ''yes''), (''human'', JBool True)]"
  let ?run = "question_action sample_env ''a'' ?args False tree4"
  have "is_ok (snd ?run)" by code_simp
  then obtain x where run: "?run = (fst ?run, Ok x)" by (metis is_ok_iff prod.collapse)
  have id: "as_str (jget ?args ''question'') = Some ''q1''" "as_str (jget ?args ''answer'') = Some ''yes''" by code_simp+
  have "map_option qu_answer (find (\<lambda>q. qu_id q = ''q1'') (questions tree4)) = Some None"
    "find (\<lambda>r. qr_question r = ''q1'') (question_routes tree4) \<noteq> None" by code_simp+
  then obtain q route where q: "find (\<lambda>q. qu_id q = ''q1'') (questions tree4) = Some q" "qu_answer q = None"
    and r: "find (\<lambda>r. qr_question r = ''q1'') (question_routes tree4) = Some route" by auto
  show ?thesis using answers_are_final [OF run id(1) q(1) r] q(2) id(2) by auto
qed

end
