(* ===== verification/Accounts_Facts.thy ===== *)
theory Accounts_Facts
  imports Credentials
begin

text \<open>
  What the account components promise: no history of reservations, releases, grants and credential
  changes oversubscribes an account, what a reservation has checked, what a revocation takes away,
  and the choice of a role along the fallbacks. The bound on an account is an instance of a
  contract for pools whose steps only grow the use of a key within its bound.
\<close>

section \<open>Pools with bounded use\<close>

locale pool =
  fixes step :: "'s \<Rightarrow> 's \<Rightarrow> bool" and sound :: "'s \<Rightarrow> bool" and used :: "'k \<Rightarrow> 's \<Rightarrow> nat" and bound :: "'k \<Rightarrow> 's \<Rightarrow> nat"
  assumes sound_step: "step s t \<Longrightarrow> sound s \<Longrightarrow> sound t"
    and admits: "step s t \<Longrightarrow> sound s \<Longrightarrow> used k t \<le> used k s \<or> used k t \<le> bound k t"
    and bound_grows: "step s t \<Longrightarrow> sound s \<Longrightarrow> bound k s \<le> bound k t"
begin

lemma sound_reachable: "step\<^sup>*\<^sup>* s t \<Longrightarrow> sound s \<Longrightarrow> sound t"
  by (induction rule: rtranclp_induct) (auto intro: sound_step)

lemma never_over: "step\<^sup>*\<^sup>* s t \<Longrightarrow> sound s \<Longrightarrow> used k s \<le> bound k s \<Longrightarrow> used k t \<le> bound k t"
proof (induction rule: rtranclp_induct)
  case base
  then show ?case by simp
next
  case (step t u)
  then have "sound t" "used k t \<le> bound k t" using sound_reachable by auto
  with admits [OF step(2), of k] bound_grows [OF step(2), of k] show ?case by auto
qed

end

section \<open>Counting rows\<close>

lemma count_update_le:
  "(\<And>r. q r \<Longrightarrow> P (f r) \<Longrightarrow> P r) \<Longrightarrow> count_rows P (update_rows q f rows) \<le> count_rows P rows"
  by (induction rows) (auto simp: count_rows_def update_rows_def)

lemma count_update_same:
  "(\<And>r. q r \<Longrightarrow> P (f r) = P r) \<Longrightarrow> count_rows P (update_rows q f rows) = count_rows P rows"
  by (induction rows) (auto simp: count_rows_def update_rows_def)

lemma count_snoc [simp]: "count_rows P (rows @ [r]) = count_rows P rows + (if P r then 1 else 0)"
  by (simp add: count_rows_def)

lemma count_replace:
  assumes "distinct (map key rows)"
  shows "count_rows P (map (\<lambda>q. if key q = key r then r else q) rows) \<le> count_rows P rows + (if P r then 1 else 0)"
  using assms
proof (induction rows)
  case Nil
  then show ?case by (simp add: count_rows_def)
next
  case (Cons x rows)
  show ?case
  proof (cases "key x = key r")
    case True
    then have "map (\<lambda>q. if key q = key r then r else q) rows = rows"
      using Cons.prems by (intro map_idI) (metis list.simps(9) distinct.simps(2) image_eqI set_map)
    with True show ?thesis by (simp add: count_rows_def)
  next
    case False
    with Cons show ?thesis by (auto simp: count_rows_def)
  qed
qed

lemma count_upsert:
  "distinct (map key rows) \<Longrightarrow> count_rows P (upsert key (\<lambda>_. r) r rows) \<le> count_rows P rows + (if P r then 1 else 0)"
  using count_replace [of key rows P r] by (auto simp: upsert_def split: if_splits)

lemma keys_upsert: "key (f r) = key r \<Longrightarrow> (\<And>q. key q = key r \<Longrightarrow> key (f q) = key q) \<Longrightarrow>
    distinct (map key rows) \<Longrightarrow> distinct (map key (upsert key f r rows))"
  by (auto simp: upsert_def o_def if_distrib cong: if_cong)

lemma keys_update_rows: "(\<And>r. key (f r) = key r) \<Longrightarrow> map key (update_rows q f rows) = map key rows"
  by (simp add: update_rows_def)

lemma keeps_insert_fresh:
  "(\<And>s. I s \<Longrightarrow> key r \<notin> key ` set (get s) \<Longrightarrow> I (upd (\<lambda>rs. rs @ [r]) s)) \<Longrightarrow> keeps I (insert_unique key get upd r)"
  by (simp add: keeps_def insert_unique_def)

lemma thn_insert_runs:
  "thn (insert_unique key get upd r) n s = (t, Ok y) \<longleftrightarrow>
     key r \<notin> key ` set (get s) \<and> n (upd (\<lambda>rs. rs @ [r]) s) = (t, Ok y)"
  by (simp add: thn_run insert_unique_def)

lemma thn_after: "m s = (t, Ok x) \<Longrightarrow> thn m n s = n t" "m s = (t, Err e) \<Longrightarrow> thn m n s = (t, Err e)"
  by (simp_all add: thn_def bnd_def)

section \<open>The ledger of an account\<close>

definition ledger_ok :: "store \<Rightarrow> bool" where
  "ledger_ok s = (distinct (map rs_step (account_reservations s)) \<and>
     distinct (map ar_request_id (account_remote_reservations s)) \<and> distinct (map an_id (accounts s)))"

definition account_bound :: "string \<Rightarrow> store \<Rightarrow> nat" where
  "account_bound account s = (case account_row_of account s of None \<Rightarrow> 0 | Some a \<Rightarrow> nat (an_concurrency a))"

text \<open>A move that use and bound of every account allow.\<close>

definition allowed_move :: "store \<Rightarrow> store \<Rightarrow> bool" where
  "allowed_move s t = (ledger_ok s \<longrightarrow> ledger_ok t \<and>
     (\<forall>k. (allocated k t \<le> allocated k s \<or> allocated k t \<le> account_bound k t) \<and> account_bound k s \<le> account_bound k t))"

lemma allowed_refl [simp]: "allowed_move s s"
  by (simp add: allowed_move_def)

lemma allowed_trans: "allowed_move s t \<Longrightarrow> allowed_move t u \<Longrightarrow> allowed_move s u"
  unfolding allowed_move_def by (meson le_trans)

lemma keeps_allowed_modify: "(\<And>s. allowed_move s (f s)) \<Longrightarrow> keeps (allowed_move s0) (modify f)"
  by (rule keeps_modify) (blast intro: allowed_trans)

lemma keeps_allowed: "(\<And>s. allowed_move s (fst (m s))) \<Longrightarrow> keeps (allowed_move s0) m"
  by (rule keepsI) (blast intro: allowed_trans)

text \<open>A move that touches none of the tables of the ledger.\<close>

lemma allowed_frame:
  assumes "account_reservations t = account_reservations s"
    and "account_remote_reservations t = account_remote_reservations s" and "accounts t = accounts s"
  shows "allowed_move s t"
  using assms by (simp add: allowed_move_def ledger_ok_def allocated_def account_bound_def account_row_of_def)

text \<open>Changing accounts without their identity and concurrency.\<close>

lemma find_update_account:
  assumes "\<And>a. an_id (f a) = an_id a"
  shows "find (\<lambda>a. an_id a = i) (update_rows p f as) =
    map_option (\<lambda>a. if p a then f a else a) (find (\<lambda>a. an_id a = i) (as :: account_row list))"
  by (induction "as") (auto simp: update_rows_def assms)

lemma allowed_accounts:
  assumes "\<And>a. an_id (f a) = an_id a" and "\<And>a. an_concurrency (f a) = an_concurrency a"
  shows "allowed_move s (s\<lparr>accounts := update_rows p f (accounts s)\<rparr>)"
  by (simp add: allowed_move_def ledger_ok_def allocated_def account_bound_def account_row_of_def
      find_update_account assms keys_update_rows split: option.split)

lemma allowed_new_account:
  assumes "an_id r \<notin> an_id ` set (accounts s)"
  shows "allowed_move s (accounts_update (\<lambda>as. as @ [r]) s)"
proof -
  have "account_bound k s \<le> account_bound k (accounts_update (\<lambda>as. as @ [r]) s)" for k
    by (auto simp: account_bound_def account_row_of_def find_append_old split: option.split)
  with assms show ?thesis by (simp add: allowed_move_def ledger_ok_def allocated_def)
qed

text \<open>Changing the state of reservations without taking capacity.\<close>

lemma allowed_reservations:
  assumes "\<And>r. rs_step (f r) = rs_step r" and "\<And>r. rs_account (f r) = rs_account r"
    and "\<And>r. p r \<Longrightarrow> holds_capacity (rs_state (f r)) \<Longrightarrow> holds_capacity (rs_state r)"
  shows "allowed_move s (s\<lparr>account_reservations := update_rows p f (account_reservations s)\<rparr>)"
proof -
  have "count_rows (\<lambda>r. rs_account r = k \<and> holds_capacity (rs_state r)) (update_rows p f (account_reservations s)) \<le>
      count_rows (\<lambda>r. rs_account r = k \<and> holds_capacity (rs_state r)) (account_reservations s)" for k
    by (rule count_update_le) (auto simp: assms)
  then show ?thesis
    by (simp add: allowed_move_def ledger_ok_def allocated_def account_bound_def account_row_of_def keys_update_rows assms(1))
qed

lemma allowed_remote_reservations:
  assumes "\<And>r. ar_request_id (f r) = ar_request_id r" and "\<And>r. ar_account (f r) = ar_account r"
    and "\<And>r. p r \<Longrightarrow> holds_capacity (ar_state (f r)) \<Longrightarrow> holds_capacity (ar_state r)"
  shows "allowed_move s (s\<lparr>account_remote_reservations := update_rows p f (account_remote_reservations s)\<rparr>)"
proof -
  have "count_rows (\<lambda>r. ar_account r = k \<and> holds_capacity (ar_state r)) (update_rows p f (account_remote_reservations s)) \<le>
      count_rows (\<lambda>r. ar_account r = k \<and> holds_capacity (ar_state r)) (account_remote_reservations s)" for k
    by (rule count_update_le) (auto simp: assms)
  then show ?thesis
    by (simp add: allowed_move_def ledger_ok_def allocated_def account_bound_def account_row_of_def keys_update_rows assms(1))
qed

section \<open>Operations that keep within the bound\<close>

lemmas allowed_updates = allowed_frame allowed_accounts allowed_reservations allowed_remote_reservations

lemma holds_states [simp]: "holds_capacity ''active''" "holds_capacity ''revoked''" "holds_capacity ''uncertain''"
  "\<not> holds_capacity ''released''"
  by (simp_all add: holds_capacity_def)

lemma allowed_drop_grant: "allowed_move s (drop_grant project account s)"
  by (rule allowed_frame) (simp_all add: drop_grant_def)

lemma allowed_revoke: "set states \<subseteq> {''active'', ''uncertain''} \<Longrightarrow> allowed_move s (revoke_reservations project account states s)"
  unfolding revoke_reservations_def by (rule allowed_reservations) (auto simp: holds_capacity_def)

lemma allowed_revoke_remote: "allowed_move s (revoke_remote_reservations project account s)"
proof -
  have "allowed_move s (s\<lparr>account_remote_reservations :=
      update_rows (\<lambda>r. ar_project r = project \<and> ar_account r = account \<and> ar_state r = ''active'')
        (\<lambda>r. r\<lparr>ar_state := ''revoked''\<rparr>) (account_remote_reservations s)\<rparr>)"
    by (rule allowed_remote_reservations) simp_all
  moreover have "allowed_move (s\<lparr>account_remote_reservations := rs\<rparr>)
      (s\<lparr>account_remote_reservations := rs, credential_deliveries := ds\<rparr>)" for rs ds
    by (rule allowed_frame) simp_all
  ultimately show ?thesis unfolding revoke_remote_reservations_def by (blast intro: allowed_trans)
qed

lemma allowed_touch: "allowed_move s (touch_account env account s)"
  unfolding touch_account_def by (rule allowed_accounts) simp_all

lemma allowed_authenticated: "allowed_move s (set_authenticated account b s)"
  unfolding set_authenticated_def by (rule allowed_accounts) simp_all

lemma allowed_material:
  "allowed_move s (drop_files p s)" "allowed_move s (write_credential a v c s)" "allowed_move s (install_file e s)"
  "allowed_move s (install_grant e s)" "allowed_move s (set_profile a v k x s)"
  by (rule allowed_frame; simp add: drop_files_def write_credential_def install_file_def install_grant_def
      set_profile_def split: option.split)+


text \<open>Taking capacity for a step.\<close>

lemma account_row_bound: "account_row_of account s = Some a \<Longrightarrow> account_bound account s = nat (an_concurrency a)"
  by (simp add: account_bound_def)

definition with_reservation :: "reservation_row \<Rightarrow> store \<Rightarrow> store" where
  "with_reservation r s = s\<lparr>account_reservations := upsert rs_step (\<lambda>_. r) r (account_reservations s)\<rparr>"

lemma allowed_reservation:
  assumes row: "account_row_of (rs_account r) s = Some a" and free: "int (allocated (rs_account r) s) < an_concurrency a"
  shows "allowed_move s (with_reservation r s)"
proof -
  let ?t = "with_reservation r s"
  have bound: "account_bound k ?t = account_bound k s" for k
    by (simp add: account_bound_def account_row_of_def with_reservation_def)
  have use: "allocated k ?t \<le> allocated k s + (if k = rs_account r then 1 else 0)" if "ledger_ok s" for k
    using count_upsert [of rs_step "account_reservations s" "\<lambda>q. rs_account q = k \<and> holds_capacity (rs_state q)" r] that
    by (auto simp: allocated_def with_reservation_def ledger_ok_def split: if_splits)
  have "allocated k ?t \<le> allocated k s \<or> allocated k ?t \<le> account_bound k ?t" if "ledger_ok s" for k
    using use [OF that, of k] free account_row_bound [OF row] by (auto simp: bound split: if_splits)
  moreover have "ledger_ok ?t" if "ledger_ok s"
    using that keys_upsert [of rs_step "\<lambda>_. r" r "account_reservations s"] by (simp add: ledger_ok_def with_reservation_def)
  ultimately show ?thesis by (simp add: allowed_move_def bound)
qed

lemma reserve_tx_run:
  assumes "reserve_tx env stp project account profile version s = (t, Ok u)"
  obtains "t = s" "authorized project account s = Ok ()"
      "\<exists>r. find (\<lambda>r. rs_step r = stp) (account_reservations s) = Some r \<and> rs_state r = ''active'' \<and> rs_account r = account \<and>
         rs_profile r = profile \<and> rs_version r = version"
    | "t = touch_account env account (with_reservation \<lparr>rs_step = stp, rs_project = project, rs_account = account,
          rs_profile = profile, rs_version = version, rs_state = ''active'', rs_created = now env\<rparr> s)"
      "authorized project account s = Ok ()" "reservable env account profile version s = Ok True" "available env account s = Ok True"
      "\<And>r. find (\<lambda>r. rs_step r = stp) (account_reservations s) = Some r \<Longrightarrow> rs_state r = ''released''"
proof (cases "\<exists>r. find (\<lambda>r. rs_step r = stp) (account_reservations s) = Some r \<and> rs_state r = ''active''")
  case True
  with assms show ?thesis by (intro that(1)) (auto simp: reserve_tx_def runs)
next
  case False
  from assms False obtain eligible where
    e: "authorized project account s = Ok ()" "reservable env account profile version s = Ok eligible"
    and old: "case find (\<lambda>r. rs_step r = stp) (account_reservations s) of None \<Rightarrow> True | Some r \<Rightarrow> rs_state r = ''released''"
    and rest: "bnd (if eligible then ask_state (available env account) else ret False) (\<lambda>ok.
       thn (guard ok ''account capacity or authentication unavailable'')
      (thn (modify (\<lambda>s. s\<lparr>account_reservations :=
              (let r = \<lparr>rs_step = stp, rs_project = project, rs_account = account, rs_profile = profile,
                  rs_version = version, rs_state = ''active'', rs_created = now env\<rparr>
               in upsert rs_step (\<lambda>_. r) r (account_reservations s))\<rparr>))
           (modify (touch_account env account)))) s = (t, Ok u)"
    by (auto simp: reserve_tx_def runs split: option.splits if_splits)
  from rest have "eligible" by (auto simp: runs split: if_splits)
  with rest e old show ?thesis
    by (intro that(2)) (auto simp: runs with_reservation_def Let_def)
qed

lemma keeps_allowed_atomic:
  "(\<And>s t u. m s = (t, Ok u) \<Longrightarrow> allowed_move s t) \<Longrightarrow> keeps (allowed_move s0) (atomic m)"
proof (rule keeps_allowed)
  fix s
  assume ok: "\<And>s t u. m s = (t, Ok u) \<Longrightarrow> allowed_move s t"
  show "allowed_move s (fst (atomic m s))"
    by (cases "m s"; cases "snd (m s)") (auto simp: atomic_def ok)
qed

lemma reserve_allowed: "keeps (allowed_move s0) (reserve env stp b)"
proof -
  have tx: "allowed_move s t" if run: "reserve_tx env stp project account profile version s = (t, Ok u)"
    for s t u project account profile version
    using run
  proof (cases rule: reserve_tx_run)
    case 1
    then show ?thesis by simp
  next
    case 2
    from 2(3) obtain a where "account_row_of account s = Some a" "int (allocated account s) < an_concurrency a"
      by (auto simp: reservable_def and_then_Ok_iff context_of_Ok_iff)
    then show ?thesis
      unfolding 2(1) by (intro allowed_trans [OF allowed_reservation allowed_touch]) simp_all
  qed
  show ?thesis
    unfolding reserve_def
    by (cases "bi_account b"; cases "bi_profile b"; cases "bi_version b")
      (auto intro!: keeps_bnd keeps_allowed_atomic tx)
qed

text \<open>The account that \<open>select_account\<close> returns: granted, usable and not full.\<close>

lemma first_available_member:
  "first_available env s aps = Ok (Some account) \<Longrightarrow> \<exists>ap \<in> set aps. an_id (fst ap) = account \<and> available env account s = Ok True"
proof (induction aps)
  case (Cons ap aps)
  then show ?case by (cases "available env (an_id (fst ap)) s = Ok True") (auto simp: and_then_Ok_iff split: if_splits)
qed simp

lemma select_account_Some:
  assumes "select_account env project c s = Ok (Some account)"
  obtains a p where "(a, p) \<in> set (candidate_rows project c s)" "an_id a = account" "\<not> passes_over env project c s (a, p)"
    "available env account s = Ok True"
  using first_available_member [OF assms [unfolded select_account_def]] that by fastforce

lemma candidate_rowsD:
  assumes "(a, p) \<in> set (candidate_rows project c s)"
  shows "a \<in> set (accounts s) \<and> granted project (an_id a) s \<and> matches_config c a \<and> an_state a = ''active'' \<and>
    an_authenticated a \<and> p \<in> set (auth_profiles s) \<and> pf_account p = an_id a \<and> pf_version p > 0"
  using assms by (auto simp: candidate_rows_def granted_def exists_row_iff split: if_splits)

lemma account_row_member:
  "ledger_ok s \<Longrightarrow> a \<in> set (accounts s) \<Longrightarrow> account_row_of (an_id a) s = Some a"
  unfolding account_row_of_def ledger_ok_def by (blast intro: find_key)

definition with_remote :: "account_remote_row \<Rightarrow> store \<Rightarrow> store" where
  "with_remote r = account_remote_reservations_update (\<lambda>rs. rs @ [r])"

lemma allowed_with_remote:
  assumes new: "ar_request_id r \<notin> ar_request_id ` set (account_remote_reservations s)"
    and free: "ledger_ok s \<Longrightarrow> allocated (ar_account r) s < account_bound (ar_account r) s"
  shows "allowed_move s (with_remote r s)"
proof -
  have bound: "account_bound k (with_remote r s) = account_bound k s" for k
    by (simp add: account_bound_def account_row_of_def with_remote_def)
  have use: "allocated k (with_remote r s) \<le> allocated k s + (if k = ar_account r then 1 else 0)" for k
    by (simp add: allocated_def with_remote_def)
  have "allocated k (with_remote r s) \<le> allocated k s \<or> allocated k (with_remote r s) \<le> account_bound k s" if "ledger_ok s" for k
    using use [of k] free [OF that] by (auto split: if_splits)
  moreover have "ledger_ok (with_remote r s)" if "ledger_ok s"
    using that new by (simp add: ledger_ok_def with_remote_def)
  ultimately show ?thesis by (simp add: allowed_move_def bound)
qed

lemma allowed_settings: "allowed_move s (s\<lparr>runtime_settings := x\<rparr>)"
  by (rule allowed_frame) simp_all

lemma keeps_check_remote: "keeps (allowed_move s0) (check_remote env project task runtime names)"
  unfolding check_remote_def runtime_allowed_def local_runtime_def set_setting_def
  by (intro keeps_allowed_modify allowed_settings keeps_rules)

lemma reserve_remote_allowed: "keeps (allowed_move s0) (reserve_remote env policy project task runtime attempt request sg role)"
proof -
  let ?tx = "bnd (ask_state (\<lambda>s. Ok (find (\<lambda>r. ar_request_id r = request) (account_remote_reservations s)))) (\<lambda>old.
       case old of
         Some o1 \<Rightarrow> ask_state (retry_remote project task runtime attempt role o1)
       | None \<Rightarrow>
           bnd (ask_state (remote_config env policy project task runtime sg role)) (\<lambda>c.
           if ec_kind c = ''simulated'' then ret (Some (unbound role None))
           else
           bnd (ask_state (select_account env project c)) (\<lambda>sel.
           case sel of None \<Rightarrow> ret None
           | Some account \<Rightarrow>
               bnd (ask_state (bind_account role account)) (\<lambda>b.
               thn (require_state (\<lambda>s. \<not> exists_row (\<lambda>r. ar_runtime r = runtime \<and> ar_attempt r = attempt)
                      (account_remote_reservations s)) ''UNIQUE constraint failed'')
              (thn (insert_unique ar_request_id account_remote_reservations account_remote_reservations_update
                      \<lparr>ar_request_id = request, ar_project = project, ar_account = account, ar_runtime = runtime,
                       ar_task = task, ar_attempt = attempt, ar_role = role, ar_profile = unwrap_or (bi_profile b) '''',
                       ar_version = unwrap_or (bi_version b) 0, ar_state = ''active'', ar_created = now env\<rparr>)
              (thn (modify (touch_account env account))
                   (ret (Some b))))))))"
  have "allowed_move s t" if run: "?tx s = (t, Ok u)" for s t u
  proof (cases "find (\<lambda>r. ar_request_id r = request) (account_remote_reservations s)")
    case (Some o1)
    with run show ?thesis by (auto simp: runs)
  next
    case None
    show ?thesis
    proof (cases "t = s")
      case False
      let ?r = "\<lambda>account (b::binding). \<lparr>ar_request_id = request, ar_project = project, ar_account = account, ar_runtime = runtime,
                       ar_task = task, ar_attempt = attempt, ar_role = role, ar_profile = unwrap_or (bi_profile b) '''',
                       ar_version = unwrap_or (bi_version b) 0, ar_state = ''active'', ar_created = now env\<rparr>"
      from False run None obtain c account b where sel: "select_account env project c s = Ok (Some account)"
        and t: "t = touch_account env account (with_remote (?r account b) s)"
        by (auto simp: runs require_state_def thn_insert_runs with_remote_def [symmetric] split: if_splits option.splits)
      obtain a p where a: "(a, p) \<in> set (candidate_rows project c s)" "an_id a = account" "\<not> passes_over env project c s (a, p)"
        by (rule select_account_Some [OF sel])
      have "allocated account s < account_bound account s" if ok: "ledger_ok s"
      proof -
        have "account_row_of account s = Some a" using account_row_member [OF ok] candidate_rowsD [OF a(1)] a(2) by blast
        moreover have "int (allocated account s) < an_concurrency a" using a(2,3) by (auto simp: passes_over_def)
        ultimately show ?thesis by (auto simp: account_bound_def)
      qed
      moreover have "request \<notin> ar_request_id ` set (account_remote_reservations s)"
        using None by (auto simp: find_None_iff)
      ultimately have "allowed_move s (with_remote (?r account b) s)" by (intro allowed_with_remote) simp_all
      then show ?thesis unfolding t by (rule allowed_trans) (rule allowed_touch)
    qed simp
  qed
  then show ?thesis unfolding reserve_remote_def by (intro keeps_thn keeps_check_remote keeps_allowed_atomic)
qed

lemma release_step_allowed: "keeps (allowed_move s0) (release_step stp)"
  unfolding release_step_def require_state_def
  by (intro keeps_thn keeps_ask keeps_allowed_modify allowed_reservations) simp_all

lemma release_remote_allowed: "keeps (allowed_move s0) (release_remote_account runtime request)"
  unfolding release_remote_account_def
  by (intro keeps_bnd keeps_thn keeps_ask keeps_guard keeps_allowed_modify allowed_remote_reservations) simp_all

lemma uncertain_allowed: "keeps (allowed_move s0) (mark_runtime_uncertain runtime)"
  unfolding mark_runtime_uncertain_def
  by (intro keeps_thn keeps_allowed_modify allowed_remote_reservations allowed_frame) simp_all

lemma keeps_allowed_insert_account:
  "keeps (allowed_move s0) (insert_unique an_id accounts accounts_update r)"
  by (rule keeps_insert_fresh) (blast intro: allowed_trans allowed_new_account)

lemma keeps_allowed_insert:
  assumes "\<And>g s. account_reservations (upd g s) = account_reservations s"
    and "\<And>g s. account_remote_reservations (upd g s) = account_remote_reservations s" and "\<And>g s. accounts (upd g s) = accounts s"
  shows "keeps (allowed_move s0) (insert_unique key get upd r)"
  by (rule keeps_insert_unique) (blast intro: allowed_trans allowed_frame assms)

lemmas allowed_rules = keeps_bnd keeps_thn keeps_ask keeps_guard keeps_ret keeps_throw keeps_atomic keeps_when keeps_if
  keeps_option keeps_each keeps_allowed_modify keeps_allowed_insert_account keeps_allowed_insert

lemma create_allowed: "keeps (allowed_move s0) (account_create env parse_url fresh profile project args)"
  unfolding account_create_def require_state_def Let_def by (intro allowed_rules) simp_all

lemma grant_allowed: "keeps (allowed_move s0) (account_grant env project args)"
  unfolding account_grant_def require_state_def by (intro allowed_rules allowed_frame) simp_all

lemma revoke_allowed: "keeps (allowed_move s0) (account_revoke project args)"
  unfolding account_revoke_def by (intro allowed_rules allowed_drop_grant allowed_revoke allowed_revoke_remote) simp_all

lemma set_credential_allowed: "keeps (allowed_move s0) (set_credential env check_oauth project account c)"
  unfolding set_credential_def Let_def
  by (intro allowed_rules allowed_material allowed_authenticated allowed_frame) simp_all

lemma provision_allowed: "keeps (allowed_move s0) (provision_account env project account runtime request)"
  unfolding provision_account_def runtime_allowed_def local_runtime_def set_setting_def require_state_def
  by (intro allowed_rules allowed_settings) simp_all

lemma same_version_allowed: "keeps (allowed_move s0) (same_version env e prior a p)"
proof -
  have "allowed_move s (set_authenticated (po_account e) True (install_file e s))" for s
    by (blast intro: allowed_trans allowed_material allowed_authenticated)
  then have "keeps (allowed_move s0) (\<lambda>s. case read_version env (po_account e) (po_version e) s of
              Inr current \<Rightarrow> guard (current = incoming) ''credential version reused with changed material'' s
            | Inl err \<Rightarrow> if \<not> an_authenticated a \<and> (case prior of None \<Rightarrow> False | Some v \<Rightarrow> v < po_granted_at e)
                then modify (\<lambda>s. set_authenticated (po_account e) True (install_file e s)) s
                else (s, Inl err))" for incoming
    by (intro keeps_allowed) (auto simp: guard_def modify_def split: sum.split)
  then show ?thesis
    unfolding same_version_def by (intro allowed_rules allowed_material) simp_all
qed

lemma install_account_allowed: "keeps (allowed_move s0) (install_account e)"
  unfolding install_account_def require_state_def by (intro allowed_rules) simp_all

lemma install_version_allowed: "keeps (allowed_move s0) (install_version e)"
  unfolding install_version_def by (intro allowed_rules allowed_material allowed_authenticated)

lemma keeps_case_prod: "(\<And>a p. keeps I (f a p)) \<Longrightarrow> keeps I (case x of (a, p) \<Rightarrow> f a p)"
  by (cases x) simp

lemma receive_allowed: "keeps (allowed_move s0) (receive env check_oauth e)"
  unfolding receive_def
  by (intro allowed_rules keeps_case_prod same_version_allowed install_account_allowed install_version_allowed)

lemma removal_allowed:
  "allowed_move s (if exists_row (\<lambda>g. gr_account g = account) (account_grants s) then s
     else set_authenticated account False (drop_files p s))"
  by (auto intro: allowed_trans allowed_material allowed_authenticated)

lemma remove_received_allowed: "keeps (allowed_move s0) (remove_received project account)"
  unfolding remove_received_def
  by (intro allowed_rules allowed_drop_grant allowed_revoke removal_allowed allowed_reservations) simp_all

lemma retire_received_allowed: "keeps (allowed_move s0) (retire_received project account version)"
  unfolding retire_received_def by (intro allowed_rules allowed_material allowed_authenticated)

lemma cleanup_allowed: "keeps (allowed_move s0) (cleanup_ungranted locked)"
  unfolding cleanup_ungranted_def cleanup_account_def by (intro allowed_rules removal_allowed)

lemma allowed_revoke_all: "allowed_move s (revoke_all_reservations account s)"
  unfolding revoke_all_reservations_def by (rule allowed_reservations) (auto simp: open_state_def)

lemma allowed_revoke_all_remote: "allowed_move s (revoke_all_remote account s)"
  unfolding revoke_all_remote_def by (rule allowed_remote_reservations) (auto simp: open_state_def)

lemma allowed_clear_profile: "allowed_move s (clear_profile account s)" "allowed_move s (withdraw_deliveries account s)"
  by (rule allowed_frame; simp add: clear_profile_def withdraw_deliveries_def)+

lemmas sign_out_rules = allowed_rules allowed_authenticated allowed_material allowed_revoke_all
  allowed_revoke_all_remote allowed_clear_profile

lemma begin_sign_out_allowed: "keeps (allowed_move s0) (begin_sign_out admin project account)"
  unfolding begin_sign_out_def by (intro sign_out_rules)

lemma clear_local_allowed: "keeps (allowed_move s0) (clear_local account)"
  unfolding clear_local_def by (intro sign_out_rules)

lemma finish_sign_out_allowed: "keeps (allowed_move s0) (finish_sign_out account confirmed)"
  unfolding finish_sign_out_def by (intro sign_out_rules clear_local_allowed)

lemma allowed_adopt:
  "allowed_move s (adopt_bindings account old version s)" "allowed_move s (adopt_reservations account old version s)"
  "allowed_move s (adopt_remote account old version s)"
  unfolding adopt_bindings_def adopt_reservations_def adopt_remote_def
  by (rule allowed_frame, simp_all) (rule allowed_reservations allowed_remote_reservations; simp)+

lemma follow_allowed: "keeps (allowed_move s0) (follow_controller project account version)"
  unfolding follow_controller_def
  by (intro allowed_rules allowed_adopt) (auto intro!: allowed_frame)

lemma save_allowed: "keeps (allowed_move s0) (save_registration env check_oauth saved ids project account c expected)"
  unfolding save_registration_def by (intro allowed_rules set_credential_allowed)

lemma refresh_allowed: "keeps (allowed_move s0) (refresh_registration env check_oauth saved ids owner account c old)"
  unfolding refresh_registration_def by (intro allowed_rules allowed_adopt save_allowed)

lemma allowed_revoke_runtime: "allowed_move s (revoke_runtime p runtime names s)"
proof -
  let ?rows = "update_rows (\<lambda>r. ar_project r = p \<and> ar_runtime r \<in> set names \<and> ar_state r = ''active'')
     (\<lambda>r. r\<lparr>ar_state := ''revoked''\<rparr>) (account_remote_reservations s)"
  have "allowed_move s (s\<lparr>account_remote_reservations := ?rows\<rparr>)"
    by (rule allowed_remote_reservations) simp_all
  moreover have "allowed_move (s\<lparr>account_remote_reservations := ?rows\<rparr>) (revoke_runtime p runtime names s)"
    by (rule allowed_frame) (simp_all add: revoke_runtime_def)
  ultimately show ?thesis by (rule allowed_trans)
qed

lemma runtime_revoke_allowed: "keeps (allowed_move s0) (project_runtime_revoke env args)"
  unfolding project_runtime_revoke_def local_runtime_def set_setting_def
  by (intro allowed_rules allowed_revoke_runtime allowed_settings)

section \<open>Every history of the account tables\<close>

text \<open>
  The writers of the reservation tables and of the accounts. The two halves of a sign-out are
  steps of their own, as other operations may come between them while the provider is asked;
  \<open>clearing\<close> and \<open>pausing\<close> are the writes of a transfer of the session to another controller
  (\<^verbatim>\<open>prepare_transfer\<close> and \<^verbatim>\<open>export_file\<close> in src/src/chatgpt_auth/lifecycle.rs).
\<close>

inductive account_step :: "store \<Rightarrow> store \<Rightarrow> bool" where
  creating: "account_step s (fst (account_create env parse_url fresh profile project args s))"
| granting: "account_step s (fst (account_grant env project args s))"
| revoking: "account_step s (fst (account_revoke project args s))"
| reserving: "account_step s (fst (reserve env stp b s))"
| releasing: "account_step s (fst (release_step stp s))"
| remote_reserving: "account_step s (fst (reserve_remote env policy project task runtime attempt request sg role s))"
| remote_releasing: "account_step s (fst (release_remote_account runtime request s))"
| losing: "account_step s (fst (mark_runtime_uncertain runtime s))"
| renewing: "account_step s (fst (set_credential env check_oauth project account c s))"
| providing: "account_step s (fst (provision_account env project account runtime request s))"
| receiving: "account_step s (fst (receive env check_oauth e s))"
| removing: "account_step s (fst (remove_received project account s))"
| retiring: "account_step s (fst (retire_received project account version s))"
| cleaning: "account_step s (fst (cleanup_ungranted locked s))"
| signing_out: "account_step s (fst (begin_sign_out admin project account s))"
| signed_out: "account_step s (fst (finish_sign_out account confirmed s))"
| clearing: "account_step s (fst (clear_local account s))"
| pausing: "account_step s (set_authenticated account b s)"
| registering: "account_step s (fst (save_registration env check_oauth saved ids project account c expected s))"
| refreshing: "account_step s (fst (refresh_registration env check_oauth saved ids owner account c old s))"
| following: "account_step s (fst (follow_controller project account version s))"
| runtime_revoking: "account_step s (fst (project_runtime_revoke env args s))"
| elsewhere: "account_reservations t = account_reservations s \<Longrightarrow>
    account_remote_reservations t = account_remote_reservations s \<Longrightarrow> accounts t = accounts s \<Longrightarrow> account_step s t"

lemma keeps_allowed_from: "keeps (allowed_move s) m \<Longrightarrow> allowed_move s (fst (m s))"
  by (simp add: keeps_def)

lemma account_step_allowed: "account_step s t \<Longrightarrow> allowed_move s t"
  by (induction rule: account_step.induct)
    (intro keeps_allowed_from create_allowed grant_allowed revoke_allowed reserve_allowed release_step_allowed
      reserve_remote_allowed release_remote_allowed uncertain_allowed set_credential_allowed provision_allowed
      receive_allowed remove_received_allowed retire_received_allowed cleanup_allowed
      begin_sign_out_allowed finish_sign_out_allowed clear_local_allowed allowed_authenticated save_allowed refresh_allowed follow_allowed
      runtime_revoke_allowed allowed_frame; assumption?)+

interpretation account_pool: pool account_step ledger_ok allocated account_bound
  by unfold_locales (auto dest!: account_step_allowed simp: allowed_move_def)

definition account_history :: "store \<Rightarrow> bool" where
  "account_history s = account_step\<^sup>*\<^sup>* empty_store s"

lemma ledger_empty: "ledger_ok empty_store" "allocated k empty_store = 0"
  by (simp_all add: ledger_ok_def allocated_def empty_store_def count_rows_def)

text \<open>
  C22. No account is ever oversubscribed. After any history of account commands, reservations by
  steps and by remote runtimes, releases, lost runtimes, revocations of accounts and of runtimes,
  sign-outs, transfers, credential deliveries, refreshed tokens and adopted versions, an account holds at
  most as many active, revoked and uncertain reservations as its concurrency, and an unknown
  account holds none.
\<close>

theorem accounts_never_oversubscribed:
  assumes "account_history s"
  shows "allocated account s \<le> (case account_row_of account s of None \<Rightarrow> 0 | Some a \<Rightarrow> nat (an_concurrency a))"
  using account_pool.never_over [OF assms [unfolded account_history_def] ledger_empty(1), of account] ledger_empty(2)
  by (simp add: account_bound_def)

section \<open>What a reservation has checked\<close>

lemma authorized_facts:
  assumes "authorized project account s = Ok ()"
  shows "granted project account s \<and> (\<exists>a \<in> set (accounts s). an_id a = account \<and> an_state a = ''active'')"
proof -
  let ?xs = "[g. g \<leftarrow> account_grants s, a \<leftarrow> accounts s,
         an_id a = gr_account g \<and> gr_project g = project \<and> gr_account g = account \<and> an_state a = ''active'']"
  have "length ?xs = 1" using assms unfolding authorized_def require_Ok_iff .
  then obtain g where "g \<in> set ?xs" by (cases ?xs) auto
  then show ?thesis by (auto simp: granted_def exists_row_iff split: if_splits)
qed

text \<open>
  C23. A step runs on an account only with everything in order. When a reservation for a full
  binding succeeds, the account is active and granted to the project of the step's task; and
  unless the step already held exactly this reservation, the account was authenticated, below
  its concurrency and not held back by its quota, the credential was the current and an
  unexpired version, and the step had no reservation that waits for reconciliation.
\<close>

theorem reserve_checks_everything:
  assumes "reserve env stp b s = (t, Ok ())" and "find (\<lambda>r. st_id r = stp) (steps s) = Some row"
    and "task_project (st_task row) s = Ok project"
    and "b = \<lparr>bi_role = role, bi_account = Some account, bi_profile = Some profile, bi_version = Some version\<rparr>"
  shows "granted project account s \<and> (\<exists>a \<in> set (accounts s). an_id a = account \<and> an_state a = ''active'') \<and>
    (t = s \<and> (\<exists>r. find (\<lambda>r. rs_step r = stp) (account_reservations s) = Some r \<and> rs_state r = ''active'' \<and>
        rs_account r = account \<and> rs_version r = version) \<or>
     (\<exists>a p. account_row_of account s = Some a \<and> an_authenticated a \<and> int (allocated account s) < an_concurrency a \<and>
        find (\<lambda>p. pf_account p = account \<and> pf_id p = profile) (auth_profiles s) = Some p \<and> pf_version p = version \<and>
        (\<forall>x. pf_expires_at p = Some x \<longrightarrow> now env < x) \<and> available env account s = Ok True \<and>
        (\<forall>r. find (\<lambda>r. rs_step r = stp) (account_reservations s) = Some r \<longrightarrow> rs_state r = ''released'')))"
proof -
  have run: "reserve_tx env stp project account profile version s = (t, Ok ())"
    using assms by (auto simp: reserve_def runs context_of_Ok_iff)
  then show ?thesis
  proof (cases rule: reserve_tx_run)
    case 1
    then show ?thesis using authorized_facts by blast
  next
    case 2
    from 2(3) obtain a p where "account_row_of account s = Some a" "an_authenticated a" "int (allocated account s) < an_concurrency a"
      "find (\<lambda>p. pf_account p = account \<and> pf_id p = profile) (auth_profiles s) = Some p" "pf_version p = version"
      "case pf_expires_at p of None \<Rightarrow> True | Some x \<Rightarrow> x > now env"
      by (auto simp: reservable_def and_then_Ok_iff context_of_Ok_iff)
    then show ?thesis using 2(4,5) authorized_facts [OF 2(2)] by (auto split: option.splits)
  qed
qed

section \<open>Revoked grants stay revoked\<close>

lemma find_replace_key:
  "find (\<lambda>r. key r = key g) (insert_replace key g rs) = Some g"
  by (induction rs) (auto simp: insert_replace_def)

lemma fold_replace_found:
  assumes "\<forall>g \<in> set gs. key g = k" and "gs \<noteq> []"
  shows "find (\<lambda>r. key r = k) (fold (insert_replace key) gs rs) = Some (last gs)"
  using assms
proof (induction gs arbitrary: rs rule: rev_induct)
  case (snoc g gs)
  then show ?case using find_replace_key [of key g] by auto
qed simp

text \<open>
  C24. A revoked grant is not revived by old news. After an account is revoked, an envelope of the
  controller for the same project and account is refused and changes nothing, unless it carries
  a grant newer than the revoked one.
\<close>

theorem stale_envelope_refused:
  assumes "account_revoke project args s = (t, Ok x)" and "as_str (jget args ''account'') = Some account"
    and "\<forall>g \<in> set (account_grants s). grant_key g = (project, account) \<longrightarrow> gr_created g = created"
    and "po_project e = project" and "po_account e = account" and "po_granted_at e \<le> created"
  shows "\<exists>err. receive env check_oauth e t = (t, Err err)"
proof -
  have auth: "authorized project account s = Ok ()"
    and t: "t = revoke_remote_reservations project account (revoke_reservations project account [''active''] (drop_grant project account s))"
    using assms(1,2) by (auto simp: account_revoke_def runs argument_def context_of_Ok_iff thn_run [of "atomic m" for m] split: if_splits)
  let ?gs = "filter (\<lambda>g. grant_key g = (project, account)) (account_grants s)"
  have "?gs \<noteq> []"
    using authorized_facts [OF auth] by (auto simp: granted_def exists_row_iff filter_empty_conv grant_key_def)
  then have "find (\<lambda>r. grant_key r = (project, account)) (account_grant_revocations t) = Some (last ?gs)"
    using fold_replace_found [of ?gs grant_key "(project, account)" "account_grant_revocations s"]
    by (simp add: t revoke_remote_reservations_def revoke_reservations_def drop_grant_def)
  moreover have "gr_created (last ?gs) = created" using assms(3) last_in_set [OF \<open>?gs \<noteq> []\<close>] by simp
  ultimately show ?thesis
    using assms(4-6)
    by (auto simp: receive_def thn_def bnd_def ask_state_def atomic_def guard_def require_def split: sum.split prod.split)
qed

section \<open>Delivery\<close>

text \<open>
  C25. Refresh material never leaves the controller. An envelope is only made for a project with a
  grant and a runtime that is allowed for it; unless the runtime is \<open>local\<close>, the request must
  hold an active reservation of the account for that project and runtime, at the version that is
  delivered; and the envelope carries no refresh token.
\<close>

theorem envelope_is_safe:
  assumes "provision_account env project account runtime request s = (t, Ok e)"
  shows "granted project account s \<and> po_project e = project \<and> po_account e = account \<and>
    (\<forall>c. po_credential e = Some c \<longrightarrow> \<not> refresh_material (cr_kind c)) \<and>
    snd (runtime_allowed env project runtime s) = Ok True \<and>
    (runtime = ''local'' \<or> leased request project account runtime (po_version e) s)"
proof -
  obtain u where auth: "authorized project account s = Ok ()" and allowed: "runtime_allowed env project runtime s = (u, Ok True)"
    and tx: "atomic (bnd (ask_state (credential_version account)) (\<lambda>version.
       thn (require_state (\<lambda>s. runtime = ''local'' \<or> leased request project account runtime version s)
              ''credential delivery requires an active account reservation'')
      (bnd (ask_state (\<lambda>s. Ok (find (\<lambda>d. cd_request_id d = request) (credential_deliveries s)))) (\<lambda>old.
       thn (case old of
              Some d \<Rightarrow> guard (delivery_matches project account runtime version d)
                ''credential delivery identity changed or revoked''
            | None \<Rightarrow> insert_unique cd_request_id credential_deliveries credential_deliveries_update
                \<lparr>cd_request_id = request, cd_project = project, cd_account = account, cd_runtime = runtime,
                 cd_version = version, cd_state = ''delivered'', cd_created = now env\<rparr>)
           (ask_state (envelope env project account version)))))) u = (t, Ok e)"
    using assms
    by (auto simp: provision_account_def runs thn_run [of "bnd m f" for m f] bnd_run [of "runtime_allowed a b c" for a b c])
  have same: "account_remote_reservations u = account_remote_reservations s"
  proof -
    have "keeps (\<lambda>u. account_remote_reservations u = account_remote_reservations s) (runtime_allowed env project runtime)"
      unfolding runtime_allowed_def local_runtime_def set_setting_def by (intro keeps_rules) simp_all
    then show ?thesis using allowed by (auto dest: keepsD)
  qed
  from tx obtain version v where lease: "runtime = ''local'' \<or> leased request project account runtime version u"
    and env: "envelope env project account version v = Ok e"
    by (auto simp: runs require_state_def thn_run [of "case_option a b c" for a b c])
  from env have "po_project e = project" "po_account e = account" "po_version e = version"
      "\<forall>c. po_credential e = Some c \<longrightarrow> \<not> refresh_material (cr_kind c)"
    by (auto simp: envelope_def and_then_Ok_iff context_of_Ok_iff split: if_splits)
  then show ?thesis using lease same allowed authorized_facts [OF auth] by (simp add: leased_def)
qed

section \<open>The choice of a role\<close>

definition falls_to :: "(string, string) btree \<Rightarrow> string \<Rightarrow> string \<Rightarrow> bool" where
  "falls_to m a b = (map_of m a = Some b)"

lemma chain_closed:
  assumes "(falls_to m)\<^sup>*\<^sup>* a b" and "a \<in> S" and "\<And>q n. q \<in> S \<Longrightarrow> map_of m q = Some n \<Longrightarrow> n \<in> S"
  shows "b \<in> S"
  using assms(1,2) by (induction rule: rtranclp_induct) (auto simp: falls_to_def intro: assms(3))

lemma chain_first: "(falls_to m)\<^sup>*\<^sup>* a b \<Longrightarrow> a = b \<or> (\<exists>n. map_of m a = Some n \<and> (falls_to m)\<^sup>*\<^sup>* n b)"
  by (metis converse_rtranclpE falls_to_def)

lemma along_None:
  assumes "along_fallbacks m f seen role = Ok None"
    and "\<And>q. q \<in> set seen \<Longrightarrow> f q = Ok None"
    and "\<And>q n. q \<in> set seen \<Longrightarrow> map_of m q = Some n \<Longrightarrow> n \<in> set seen \<or> n = role"
    and "(falls_to m)\<^sup>*\<^sup>* role r"
  shows "f r = Ok None"
  using assms
proof (induction m f seen role arbitrary: r rule: along_fallbacks.induct)
  case (1 m f seen role)
  show ?case
  proof (cases "role \<in> set seen")
    case True
    then have "r \<in> set seen" using chain_closed [OF 1(5) True] 1(4) by blast
    then show ?thesis by (rule 1(3))
  next
    case new: False
    then have here: "f role = Ok None"
      using 1(2) by (auto simp: along_fallbacks.simps [of m f seen role] and_then_Ok_iff split: option.splits)
    show ?thesis
    proof (cases "map_of m role")
      case None
      then show ?thesis using chain_first [OF 1(5)] here by auto
    next
      case (Some nxt)
      have "along_fallbacks m f (role # seen) nxt = Ok None"
        using 1(2) new here Some by (simp add: along_fallbacks.simps [of m f seen role])
      moreover have "f q = Ok None" if "q \<in> set (role # seen)" for q using that here 1(3) by auto
      moreover have "n \<in> set (role # seen) \<or> n = nxt" if "q \<in> set (role # seen)" "map_of m q = Some n" for q n
        using that Some 1(4) by auto
      ultimately have "(falls_to m)\<^sup>*\<^sup>* nxt r' \<Longrightarrow> f r' = Ok None" for r'
        using 1(1) [OF new Some, where r = r'] by blast
      then show ?thesis using chain_first [OF 1(5)] here Some by auto
    qed
  qed
qed

lemma along_Some:
  assumes "along_fallbacks m f seen role = Ok (Some x)"
  shows "\<exists>r. (falls_to m)\<^sup>*\<^sup>* role r \<and> f r = Ok (Some x)"
  using assms
proof (induction m f seen role rule: along_fallbacks.induct)
  case (1 m f seen role)
  from 1(2) have new: "role \<notin> set seen" by (auto simp: along_fallbacks.simps [of m f seen role])
  show ?case
  proof (cases "f role = Ok (Some x)")
    case True
    then show ?thesis by blast
  next
    case False
    with 1(2) new have "f role = Ok None"
      by (cases "f role") (auto simp: along_fallbacks.simps [of m f seen role] split: option.splits)
    with 1(2) new obtain nxt where "map_of m role = Some nxt" "along_fallbacks m f (role # seen) nxt = Ok (Some x)"
      by (auto simp: along_fallbacks.simps [of m f seen role] split: option.splits)
    with 1(1) [OF new] obtain r where "(falls_to m)\<^sup>*\<^sup>* nxt r" "f r = Ok (Some x)" by blast
    then show ?thesis using \<open>map_of m role = Some nxt\<close> by (metis converse_rtranclp_into_rtranclp falls_to_def)
  qed
qed

text \<open>
  C26. The choice of an account looks at the whole chain of fallbacks, and no further. Starting
  from the role that the failed attempts of the step have reached, a binding that is returned
  is one that a role of the chain accepts, and no binding is returned only if every role of the
  chain, however the fallbacks are linked, has none to offer. An account that is returned is
  granted to the project, authenticated and below its concurrency.
\<close>

theorem choice_covers_fallbacks:
  assumes "choose_for_step env task sg role stp s = Ok choice" and "task_project task s = Ok project"
  shows "let start = fall_back (sg_fallbacks sg) (failures stp s) role in
    case choice of
      None \<Rightarrow> \<forall>r. (falls_to (sg_fallbacks sg))\<^sup>*\<^sup>* start r \<longrightarrow> choose_role env project sg s r = Ok None
    | Some b \<Rightarrow> (\<exists>r. (falls_to (sg_fallbacks sg))\<^sup>*\<^sup>* start r \<and> choose_role env project sg s r = Ok (Some b)) \<and>
        (\<forall>account profile. bi_account b = Some account \<and> bi_profile b = Some profile \<longrightarrow>
          (\<exists>a \<in> set (accounts s). an_id a = account \<and> granted project account s \<and> an_authenticated a \<and>
             int (allocated account s) < an_concurrency a))"
proof -
  have run: "along_fallbacks (sg_fallbacks sg) (choose_role env project sg s) []
      (fall_back (sg_fallbacks sg) (failures stp s) role) = Ok choice"
    using assms by (simp add: choose_for_step_def)
  show ?thesis
  proof (cases choice)
    case None
    with along_None [OF run [unfolded None]] show ?thesis by (simp add: Let_def)
  next
    case (Some b)
    from along_Some [OF run [unfolded Some]] obtain r where
      r: "(falls_to (sg_fallbacks sg))\<^sup>*\<^sup>* (fall_back (sg_fallbacks sg) (failures stp s) role) r"
      "choose_role env project sg s r = Ok (Some b)" by blast
    have "\<exists>a \<in> set (accounts s). an_id a = account \<and> granted project account s \<and> an_authenticated a \<and>
        int (allocated account s) < an_concurrency a"
      if b: "bi_account b = Some account" "bi_profile b = Some profile" for account profile
    proof -
      from r(2) b obtain c where "select_account env project c s = Ok (Some account)"
        by (auto simp: choose_role_def unbound_def bind_account_def Let_def and_then_Ok_iff context_of_Ok_iff
            split: option.splits if_splits)
      then obtain a p where "(a, p) \<in> set (candidate_rows project c s)" "an_id a = account"
        "\<not> passes_over env project c s (a, p)" by (rule select_account_Some)
      then show ?thesis using candidate_rowsD by (auto simp: passes_over_def Let_def)
    qed
    with r show ?thesis by (auto simp: Some Let_def)
  qed
qed

section \<open>Cancelled requests\<close>

text \<open>
  The operations that write the project reservations of remote runtimes, in any order with any
  others, which leave that table alone.
\<close>

inductive reservation_step :: "store \<Rightarrow> store \<Rightarrow> bool" where
  acquiring: "reservation_step s (fst (reserve_project_remote env project task runtime request s))"
| releasing_project: "reservation_step s (fst (release_project_remote env project task runtime request s))"
| losing_runtime: "reservation_step s (fst (mark_runtime_uncertain runtime s))"
| revoking_runtime: "reservation_step s (fst (project_runtime_revoke env args s))"
| apart: "project_remote_reservations t = project_remote_reservations s \<Longrightarrow> reservation_step s t"

definition released_request :: "string \<Rightarrow> store \<Rightarrow> bool" where
  "released_request request s =
     (\<exists>r. find (\<lambda>r. rr_request_id r = request) (project_remote_reservations s) = Some r \<and> rr_state r = ''released'')"

lemma find_update_request:
  assumes "\<And>r. rr_request_id (f r) = rr_request_id r"
  shows "find (\<lambda>r. rr_request_id r = q) (update_rows p f rows) =
    map_option (\<lambda>r. if p r then f r else r) (find (\<lambda>r. rr_request_id r = q) (rows :: remote_reservation_row list))"
  by (induction rows) (auto simp: update_rows_def assms)

lemma released_update:
  assumes "\<And>r. rr_request_id (f r) = rr_request_id r"
    and "\<And>r. p r \<Longrightarrow> rr_state r = ''released'' \<Longrightarrow> rr_state (f r) = ''released''"
  shows "released_request q s \<Longrightarrow>
    released_request q (s\<lparr>project_remote_reservations := update_rows p f (project_remote_reservations s)\<rparr>)"
proof -
  assume "released_request q s"
  then obtain r where r: "find (\<lambda>r. rr_request_id r = q) (project_remote_reservations s) = Some r"
      "rr_state r = ''released''" by (auto simp: released_request_def)
  with assms(2) [of r] show ?thesis
    by (cases "p r") (simp_all add: released_request_def find_update_request assms(1))
qed

lemma released_append:
  "released_request q s \<Longrightarrow> released_request q (project_remote_reservations_update (\<lambda>rs. rs @ [r]) s)"
  by (auto simp: released_request_def find_append_old)

lemma released_frame:
  "project_remote_reservations t = project_remote_reservations s \<Longrightarrow> released_request q s \<Longrightarrow> released_request q t"
  by (simp add: released_request_def)

lemma released_revoke: "released_request q s \<Longrightarrow> released_request q (revoke_runtime p runtime names s)"
  by (rule released_frame [OF _ released_update [where s = s
        and p = "\<lambda>r. rr_project r = p \<and> rr_runtime r \<in> set names \<and> rr_state r = ''active''"
        and f = "\<lambda>r. r\<lparr>rr_state := ''revoked''\<rparr>"]])
    (simp_all add: revoke_runtime_def)

lemmas released_rules = keeps_bnd keeps_thn keeps_ask keeps_guard keeps_ret keeps_throw keeps_atomic keeps_when
  keeps_if keeps_option

lemma keeps_released_modify:
  "(\<And>s. released_request q s \<Longrightarrow> released_request q (f s)) \<Longrightarrow> keeps (released_request q) (modify f)"
  by (rule keeps_modify) blast

lemma check_remote_frame:
  "keeps (\<lambda>u. project_remote_reservations u = rows) (check_remote env project task runtime ids)"
  unfolding check_remote_def runtime_allowed_def local_runtime_def set_setting_def by (intro keeps_rules) simp_all

lemma check_remote_released: "keeps (released_request q) (check_remote env project task runtime ids)"
  unfolding keeps_def using keepsD [OF check_remote_frame] released_frame by (metis prod.collapse)

lemma insert_released:
  "keeps (released_request q) (insert_unique rr_request_id project_remote_reservations project_remote_reservations_update r)"
  by (rule keeps_insert_unique) (rule released_append)

lemma reserve_released: "keeps (released_request q) (reserve_project_remote env project task runtime request)"
  unfolding reserve_project_remote_def by (intro released_rules check_remote_released insert_released)

lemma release_released: "keeps (released_request q) (release_project_remote env project task runtime request)"
  unfolding release_project_remote_def
  by (intro released_rules insert_released keeps_released_modify released_update) simp_all

lemma uncertain_released: "keeps (released_request q) (mark_runtime_uncertain runtime)"
proof -
  have "released_request q s \<Longrightarrow> released_request q (s\<lparr>account_remote_reservations := rs\<rparr>)" for s rs
    by (rule released_frame) simp_all
  then show ?thesis
    unfolding mark_runtime_uncertain_def
    by (intro released_rules keeps_released_modify released_update) simp_all
qed

lemma runtime_revoke_released: "keeps (released_request q) (project_runtime_revoke env args)"
proof -
  have "released_request q s \<Longrightarrow> released_request q (s\<lparr>runtime_settings := x\<rparr>)" for s x
    by (rule released_frame) simp_all
  then show ?thesis
    unfolding project_runtime_revoke_def local_runtime_def set_setting_def
    by (intro released_rules keeps_released_modify released_revoke)
qed

lemma keeps_released_fst: "keeps (released_request q) m \<Longrightarrow> released_request q s \<Longrightarrow> released_request q (fst (m s))"
  by (simp add: keeps_def)

lemma released_step: "reservation_step s t \<Longrightarrow> released_request q s \<Longrightarrow> released_request q t"
  by (induction rule: reservation_step.induct)
    (erule keeps_released_fst [OF reserve_released] keeps_released_fst [OF release_released]
      keeps_released_fst [OF uncertain_released] keeps_released_fst [OF runtime_revoke_released]
      released_frame; assumption?)+

lemma released_persists: "reservation_step\<^sup>*\<^sup>* s t \<Longrightarrow> released_request q s \<Longrightarrow> released_request q t"
  by (induction rule: rtranclp_induct) (auto dest: released_step)

lemma release_releases:
  assumes "release_project_remote env project task runtime request s = (t, Ok ())"
  shows "released_request request t"
proof (cases "find (\<lambda>r. rr_request_id r = request) (project_remote_reservations s)")
  case None
  with assms show ?thesis
    by (auto simp: released_request_def release_project_remote_def runs insert_unique_def find_append_new split: if_splits)
next
  case (Some o1)
  moreover from Some have "rr_request_id o1 = request" by (auto simp: find_Some_iff)
  ultimately show ?thesis
    using assms by (auto simp: released_request_def release_project_remote_def runs find_update_request)
qed

lemma released_refuses:
  assumes "released_request request t"
  shows "\<exists>u err. reserve_project_remote env project task runtime request t = (u, Err err) \<and>
    project_remote_reservations u = project_remote_reservations t"
proof -
  from assms obtain r where
    r: "find (\<lambda>r. rr_request_id r = request) (project_remote_reservations t) = Some r" "rr_state r = ''released''"
    by (auto simp: released_request_def)
  let ?I = "\<lambda>u::store. (project_remote_reservations u = project_remote_reservations t)"
  have fails: "\<exists>err. atomic (bnd (ask_state (\<lambda>s. Ok (find (\<lambda>r. rr_request_id r = request) (project_remote_reservations s)))) (\<lambda>old.
       case old of
         Some o1 \<Rightarrow>
           thn (guard (same_request project task runtime o1) ''project reservation identity changed'')
          (thn (guard (rr_state o1 = ''active'') ''project reservation is no longer active; reconcile before retrying'')
               (ret True))
       | None \<Rightarrow> m)) v = (v, Err err)" if "?I v" for v m
    using r that by (auto simp: atomic_def thn_def bnd_def ask_state_def guard_def require_def)
  obtain v cr where cr: "check_remote env project task runtime [runtime, request] t = (v, cr)" by fastforce
  have v: "?I v" using keepsD [OF check_remote_frame _ cr] by simp
  show ?thesis
  proof (cases cr)
    case (Inl e)
    then have "reserve_project_remote env project task runtime request t = (v, Err e)"
      using cr by (simp add: reserve_project_remote_def thn_after)
    with v show ?thesis by blast
  next
    case (Inr x)
    then have "\<exists>err. reserve_project_remote env project task runtime request t = (v, Err err)"
      using cr fails [OF v] by (simp add: reserve_project_remote_def thn_after)
    with v show ?thesis by blast
  qed
qed

text \<open>
  C27. A cancelled remote invocation cannot start late. Once the release of a project reservation
  has succeeded, whether or not the reservation had arrived before, and whatever acquisitions,
  releases, lost runtimes, revocations and other operations follow, every later acquisition with
  that request identifier fails and leaves the reservations as they are.
\<close>

theorem cancellation_wins:
  assumes "release_project_remote env project task runtime request s = (t, Ok ())"
    and "reservation_step\<^sup>*\<^sup>* t t'"
  shows "\<exists>u err. reserve_project_remote env' project' task' runtime' request t' = (u, Err err) \<and>
    project_remote_reservations u = project_remote_reservations t'"
  using released_refuses [OF released_persists [OF assms(2) release_releases [OF assms(1)]]] .

end
