(* ===== verification/Accounts_Examples.thy ===== *)
theory Accounts_Examples
  imports Accounts_Facts
begin

text \<open>
  An account of one place that is created, receives a credential, is reserved by a step and is
  revoked: the witnesses of \<open>Accounts_Facts\<close>.
\<close>

definition account_args :: json where
  "account_args = jobj [(''name'', JStr ''main''), (''provider'', JStr ''c''), (''account'', JStr ''a'')]"

definition api_key :: credential where
  "api_key = \<lparr>cr_kind = ''api_key'', cr_secret = ''k'', cr_expires_at = None, cr_metadata = JNull\<rparr>"

definition small_provider :: "string \<Rightarrow> provider" where
  "small_provider kind = \<lparr>pv_kind = kind, pv_auth_mode = ''api'', pv_base_url = [], pv_api_key_env = [],
      pv_account = None, pv_program = None, pv_model = None, pv_max_price = None, pv_max_tokens = 8,
      pv_max_api_cost_usd = None, pv_extra_body = [], pv_stream = False, pv_network = False\<rparr>"

definition account_settings :: settings where
  "account_settings = sample_settings\<lparr>
     sg_providers := [(''p1'', small_provider ''c''),
        (''p2'', small_provider ''d'')],
     sg_executors := [(''1'', blank_executor\<lparr>ex_provider := Some ''p2''\<rparr>),
        (''2'', blank_executor\<lparr>ex_provider := Some ''p1''\<rparr>)],
     sg_fallbacks := [(''1'', ''2''), (''2'', ''1'')]\<rparr>"

definition account0 :: store where
  "account0 = empty_store\<lparr>
     projects := [\<lparr>pj_id = ''p'', pj_slug = ''p'', pj_name = ''p'', pj_concurrency = 4, pj_isolation = ''native'', pj_created = 0\<rparr>],
     tasks := [sample_task ''t''], task_projects := [\<lparr>tp_task = ''t'', tp_project = ''p'', tp_repository = None\<rparr>],
     steps := [\<lparr>st_id = ''s'', st_task = ''t'', st_name = ''s'', st_spec = default_step ''s'', st_state = ''pending'', st_result = None\<rparr>],
     project_runtime_grants := [\<lparr>rt_project = ''p'', rt_runtime = ''local''\<rparr>, \<lparr>rt_project = ''p'', rt_runtime = ''r''\<rparr>],
     runtime_settings := [(''local_runtime'', ''here'')]\<rparr>"

definition account_binding :: binding where
  "account_binding = \<lparr>bi_role = ''2'', bi_account = Some ''a'', bi_profile = Some ''pr'', bi_version = Some 1\<rparr>"

definition main_account :: "bool \<Rightarrow> int \<Rightarrow> account_row" where
  "main_account b n = \<lparr>an_id = ''a'', an_owner_project = ''p'', an_name = ''main'', an_provider = ''c'',
     an_auth_mode = ''api'', an_base_url = [], an_concurrency = 1, an_authenticated = b, an_state = ''active'',
     an_last_dispatch = n\<rparr>"

text \<open>The store after the creation, the credential and the reservation.\<close>

definition account1 :: store where
  "account1 = account0\<lparr>accounts := [main_account False 0],
     auth_profiles := [\<lparr>pf_id = ''pr'', pf_account = ''a'', pf_version = 0, pf_kind = None, pf_expires_at = None\<rparr>],
     account_grants := [\<lparr>gr_project = ''p'', gr_account = ''a'', gr_created = 100\<rparr>]\<rparr>"

definition account2 :: store where
  "account2 = account1\<lparr>accounts := [main_account True 0],
     auth_profiles := [\<lparr>pf_id = ''pr'', pf_account = ''a'', pf_version = 1, pf_kind = Some ''api_key'', pf_expires_at = None\<rparr>],
     credential_files := [((''a'', 1), api_key)]\<rparr>"

definition account3 :: store where
  "account3 = account2\<lparr>accounts := [main_account True 100],
     account_reservations := [\<lparr>rs_step = ''s'', rs_project = ''p'', rs_account = ''a'', rs_profile = ''pr'',
        rs_version = 1, rs_state = ''active'', rs_created = 100\<rparr>]\<rparr>"

lemma account_runs:
  "fst (account_create sample_env (\<lambda>_. bail ''url'') ''a'' ''pr'' ''p'' account_args account0) = account1"
  "fst (set_credential sample_env (\<lambda>_. Ok ()) ''p'' ''a'' api_key account1) = account2"
  "reserve sample_env ''s'' account_binding account2 = (account3, Ok ())"
  by code_simp+

lemma history_step: "account_history s \<Longrightarrow> account_step s t \<Longrightarrow> account_history t"
  by (simp add: account_history_def)

lemma account3_history: "account_history account3"
proof -
  have "account_history empty_store" by (simp add: account_history_def)
  then have "account_history account0"
    by (rule history_step [OF _ elsewhere]) (simp_all add: account0_def empty_store_def)
  then have "account_history account1" unfolding account_runs(1) [symmetric] by (rule history_step [OF _ creating])
  then have "account_history account2" unfolding account_runs(2) [symmetric] by (rule history_step [OF _ renewing])
  from history_step [OF this reserving [of account2 sample_env "''s''" account_binding]] show ?thesis
    by (simp add: account_runs(3))
qed

lemma accounts_never_oversubscribed_witness:
  "allocated ''a'' account3 = 1 \<and> map_option an_concurrency (account_row_of ''a'' account3) = Some 1 \<and>
   allocated ''a'' account3 \<le> (case account_row_of ''a'' account3 of None \<Rightarrow> 0 | Some a \<Rightarrow> nat (an_concurrency a))"
proof -
  have "allocated ''a'' account3 = 1 \<and> map_option an_concurrency (account_row_of ''a'' account3) = Some 1" by code_simp
  then show ?thesis using accounts_never_oversubscribed [OF account3_history, of "''a''"] by simp
qed

lemma reserve_checks_everything_witness:
  "\<exists>a. account_row_of ''a'' account2 = Some a \<and> an_authenticated a \<and> available sample_env ''a'' account2 = Ok True"
proof -
  note run = account_runs(3)
  have "find (\<lambda>r. st_id r = ''s'') (steps account2) \<noteq> None" by code_simp
  then obtain row where row: "find (\<lambda>r. st_id r = ''s'') (steps account2) = Some row" by auto
  have "map_option st_task (find (\<lambda>r. st_id r = ''s'') (steps account2)) = Some ''t''" by code_simp
  then have task: "st_task row = ''t''" using row by simp
  have "task_project ''t'' account2 = Ok ''p''" by code_simp
  then have project: "task_project (st_task row) account2 = Ok ''p''" using task by simp
  have "find (\<lambda>r. rs_step r = ''s'') (account_reservations account2) = None" by code_simp
  then show ?thesis using reserve_checks_everything [OF run row project account_binding_def] by auto
qed

definition account_envelope :: provision where
  "account_envelope = \<lparr>po_granted_at = 100, po_project = ''p'', po_account = ''a'', po_profile = ''pr'', po_version = 1,
     po_provider = ''c'', po_auth_mode = ''api'', po_base_url = '''', po_name = ''main'', po_concurrency = 1,
     po_kind = ''api_key'', po_expires_at = None, po_credential = Some api_key\<rparr>"

lemma stale_envelope_refused_witness:
  "\<exists>err. receive sample_env (\<lambda>_. Ok ()) account_envelope (fst (account_revoke ''p'' account_args account3)) =
     (fst (account_revoke ''p'' account_args account3), Err err)"
proof -
  let ?run = "account_revoke ''p'' account_args account3"
  have "is_ok (snd ?run)" by code_simp
  then obtain x where run: "?run = (fst ?run, Ok x)" by (metis is_ok_iff prod.collapse)
  have id: "as_str (jget account_args ''account'') = Some ''a''" by code_simp
  have created: "\<forall>g \<in> set (account_grants account3). grant_key g = (''p'', ''a'') \<longrightarrow> gr_created g = 100" by code_simp
  show ?thesis
    by (rule stale_envelope_refused [OF run id created]) (simp_all add: account_envelope_def)
qed

lemma envelope_is_safe_witness:
  "\<exists>e. snd (provision_account sample_env ''p'' ''a'' ''local'' ''req'' account3) = Ok e \<and> po_account e = ''a'' \<and>
     (\<forall>c. po_credential e = Some c \<longrightarrow> \<not> refresh_material (cr_kind c))"
proof -
  let ?run = "provision_account sample_env ''p'' ''a'' ''local'' ''req'' account3"
  have "is_ok (snd ?run)" by code_simp
  then obtain e where run: "?run = (fst ?run, Ok e)" by (metis is_ok_iff prod.collapse)
  then show ?thesis using envelope_is_safe [OF run] by (metis snd_conv)
qed

lemma choice_covers_fallbacks_witness:
  "choose_for_step sample_env ''t'' account_settings ''1'' ''s'' account3 = Ok None \<and>
   choose_role sample_env ''p'' account_settings account3 ''2'' = Ok None \<and>
   (\<exists>b. choose_for_step sample_env ''t'' account_settings ''1'' ''s'' account2 = Ok (Some b) \<and>
      int (allocated ''a'' account2) < 1)"
proof -
  have none: "choose_for_step sample_env ''t'' account_settings ''1'' ''s'' account3 = Ok None"
    "task_project ''t'' account3 = Ok ''p''" by code_simp+
  have start: "fall_back (sg_fallbacks account_settings) (failures ''s'' account3) ''1'' = ''1''" by code_simp
  have "falls_to (sg_fallbacks account_settings) ''1'' ''2''" by code_simp
  then have "choose_role sample_env ''p'' account_settings account3 ''2'' = Ok None"
    using choice_covers_fallbacks [OF none] start by (auto simp: Let_def)
  moreover have "choose_for_step sample_env ''t'' account_settings ''1'' ''s'' account2 = Ok (Some account_binding)"
    "task_project ''t'' account2 = Ok ''p''" "\<forall>a \<in> set (accounts account2). an_concurrency a = 1" by code_simp+
  moreover from choice_covers_fallbacks [OF this(1,2)] this(3) have "int (allocated ''a'' account2) < 1"
    by (auto simp: Let_def account_binding_def)
  ultimately show ?thesis using none(1) by blast
qed

lemma cancellation_wins_witness:
  "\<exists>u err. reserve_project_remote sample_env ''p'' ''t'' ''r'' ''q''
     (fst (mark_runtime_uncertain ''r'' (fst (release_project_remote sample_env ''p'' ''t'' ''r'' ''q'' account3)))) = (u, Err err)"
proof -
  let ?run = "release_project_remote sample_env ''p'' ''t'' ''r'' ''q'' account3"
  have "is_ok (snd ?run)" by code_simp
  then have run: "?run = (fst ?run, Ok ())" by (metis is_ok_iff prod.collapse old.unit.exhaust)
  have "reservation_step\<^sup>*\<^sup>* (fst ?run) (fst (mark_runtime_uncertain ''r'' (fst ?run)))"
    by (intro r_into_rtranclp losing_runtime)
  then show ?thesis using cancellation_wins [OF run] by blast
qed

end
