(* ===== verification/Daemon.thy ===== *)
theory Daemon
  imports Scheduler
begin

text \<open>
  One round of the scheduler (\<^verbatim>\<open>Scheduler::tick\<close> of src/src/runtime.rs): attempts of cancelled or
  revoked work are aborted, completed attempts are recorded and release what they reserved, and
  the tasks in turn are settled and launch their ready steps. The state is the store and the map
  of running attempts; the order of its entries is the order of the hash map.
\<close>

section \<open>Running attempts\<close>

text \<open>
  The handle of an executing attempt: still running, told to stop, completed with or without an
  error, or taken. The first two are not finished yet.
\<close>

datatype handle = Executing | Aborted | Completed bool | Taken

definition unfinished :: "handle \<Rightarrow> bool" where
  "unfinished h = (h \<in> {Executing, Aborted})"

record active_attempt =
  av_step :: string
  av_task :: string
  av_attempt :: string
  av_worker :: string
  av_handle :: handle
  av_failure :: "string option"

record sched =
  sc_store :: store
  sc_running :: "active_attempt list"
  sc_limit :: nat

definition lift :: "(store, 'a) oper \<Rightarrow> (sched, 'a) oper" where
  "lift m = (\<lambda>c. case m (sc_store c) of (t, r) \<Rightarrow> (c\<lparr>sc_store := t\<rparr>, r))"

text \<open>The result of an operation as a value.\<close>

definition try_op :: "('s, 'a) oper \<Rightarrow> ('s, 'a result) oper" where
  "try_op m = (\<lambda>s. case m s of (t, r) \<Rightarrow> (t, Ok r))"

fun error_text :: "error \<Rightarrow> string" where
  "error_text (Bail m) = m"
| "error_text (Bail_at _ m) = m"

text \<open>What surrounds the scheduler; the last six fields draw identifiers.\<close>

record round_deps =
  rn_launch :: launch_deps
  rn_revision :: revision_deps
  rn_hold :: "string \<Rightarrow> store \<Rightarrow> string option"
  rn_previews :: "(store, bool) oper"
  rn_route :: "string \<Rightarrow> (store, bool) oper"
  rn_select :: "string \<Rightarrow> settings \<Rightarrow> store \<Rightarrow> settings result"
  rn_environment :: "string \<Rightarrow> store \<Rightarrow> bool result"
  rn_is_review :: "string \<Rightarrow> step_row \<Rightarrow> store \<Rightarrow> bool result"
  rn_prepare_review :: "string \<Rightarrow> step_row \<Rightarrow> (store, unit) oper"
  rn_call :: caller
  rn_receive :: "json \<Rightarrow> (store, unit) oper"
  rn_locked :: "string \<Rightarrow> bool"
  rn_attempt :: "string \<Rightarrow> string"
  rn_worker :: "string \<Rightarrow> string"
  rn_token :: "string \<Rightarrow> string"
  rn_request :: "string \<Rightarrow> string"
  rn_message :: "string \<Rightarrow> string"
  rn_followup :: "string \<Rightarrow> string \<times> fresh_ids"

section \<open>Aborting and reaping\<close>

definition cancelled_now :: "env \<Rightarrow> active_attempt \<Rightarrow> (store, bool) oper" where
  "cancelled_now env a =
     (if \<not> unfinished (av_handle a) then ret False
      else bnd (ask_state (\<lambda>s. Ok (find (\<lambda>t. tk_id t = av_task a) (tasks s)))) (\<lambda>task.
        case task of None \<Rightarrow> ret False
        | Some t \<Rightarrow>
            if tk_status t = ''cancelled'' then ret True
            else bnd (try_op (revoked env (av_step a))) (\<lambda>r. ret (case r of Inl _ \<Rightarrow> True | Inr b \<Rightarrow> b))))"

definition set_active :: "string \<Rightarrow> (active_attempt \<Rightarrow> active_attempt) \<Rightarrow> sched \<Rightarrow> sched" where
  "set_active stp f c = c\<lparr>sc_running := update_rows (\<lambda>a. av_step a = stp) f (sc_running c)\<rparr>"

definition abort :: "active_attempt \<Rightarrow> active_attempt" where
  "abort a = a\<lparr>av_handle := Aborted, av_failure := Some ''cancelled; worker process group stopped''\<rparr>"

fun abort_cancelled :: "env \<Rightarrow> active_attempt list \<Rightarrow> (sched, unit) oper" where
  "abort_cancelled env [] = ret ()"
| "abort_cancelled env (a # as) =
     bnd (lift (cancelled_now env a)) (\<lambda>stop.
     thn (abort_cancelled env as) (when_op stop (modify (set_active (av_step a) abort))))"

text \<open>A completed handle is taken; an error without a recorded reason becomes one.\<close>

definition take_handle :: "active_attempt \<Rightarrow> active_attempt" where
  "take_handle a = a\<lparr>av_handle := Taken,
     av_failure := (if av_handle a = Completed False \<and> av_failure a = None then Some ''worker execution failed'' else av_failure a)\<rparr>"

definition reap :: "env \<Rightarrow> caller \<Rightarrow> active_attempt \<Rightarrow> (sched, unit) oper" where
  "reap env call a0 =
     (let a = take_handle a0; stp = av_step a in
      thn (modify (set_active stp take_handle))
     (thn (case av_failure a of None \<Rightarrow> ret ()
           | Some m \<Rightarrow>
               thn (lift (finish_ref env stp (av_attempt a) (av_worker a) (Inl (OtherFailure m))))
                   (modify (set_active stp (\<lambda>x. x\<lparr>av_failure := None\<rparr>))))
     (thn (lift (release_step stp))
     (thn (lift (release_remote call stp))
          (modify (\<lambda>c. c\<lparr>sc_running := filter (\<lambda>x. av_step x \<noteq> stp) (sc_running c)\<rparr>))))))"

definition reap_finished :: "env \<Rightarrow> caller \<Rightarrow> (sched, unit) oper" where
  "reap_finished env call =
     bnd (ask_state (\<lambda>c. Ok (filter (\<lambda>a. \<not> unfinished (av_handle a)) (sc_running c)))) (\<lambda>as.
       each_op (reap env call) as)"

section \<open>Launching the ready steps of a task\<close>

definition exclusive_kind :: "step \<Rightarrow> bool" where
  "exclusive_kind stp = (s_kind stp \<in> {''command'', ''delivery'', ''environment''})"

definition exclusive_step :: "round_deps \<Rightarrow> string \<Rightarrow> step_row \<Rightarrow> store \<Rightarrow> bool result" where
  "exclusive_step R task r s = (if exclusive_kind (st_spec r) then Ok True else rn_is_review R task r s)"

definition binding_json :: "binding \<Rightarrow> json" where
  "binding_json b = jobj [(''role'', JStr (bi_role b)), (''account'', jstr_opt (bi_account b)),
     (''profile'', jstr_opt (bi_profile b)), (''credential_version'', jopt_int (bi_version b))]"

definition opt_field :: "(json \<Rightarrow> 'a option) \<Rightarrow> json \<Rightarrow> 'a option result" where
  "opt_field f v = (if v = JNull then Ok None else and_then (context_of (f v) ''invalid type'') (\<lambda>x. Ok (Some x)))"

definition binding_of_json :: "json \<Rightarrow> binding result" where
  "binding_of_json v =
     and_then (context_of (as_str (jget v ''role'')) ''missing field role'') (\<lambda>role.
     and_then (opt_field as_str (jget v ''account'')) (\<lambda>account.
     and_then (opt_field as_str (jget v ''profile'')) (\<lambda>profile.
     and_then (opt_field as_i64 (jget v ''credential_version'')) (\<lambda>version.
     Ok \<lparr>bi_role = role, bi_account = account, bi_profile = profile, bi_version = version\<rparr>))))"

lemma binding_round_trip:
  assumes "case bi_version b of None \<Rightarrow> True | Some n \<Rightarrow> - (2 ^ 63) \<le> n \<and> n < 2 ^ 63"
  shows "binding_of_json (binding_json b) = Ok b"
  using assms by (cases b) (auto simp: binding_of_json_def binding_json_def jget_jobj opt_field_def jstr_opt_def
      jopt_int_def split: option.splits)

text \<open>The row of a step that takes its way through the remote reservation.\<close>

definition dispatch_row :: "step_row \<Rightarrow> (bool \<times> binding) option \<Rightarrow> json" where
  "dispatch_row r sel =
     jobj ([(''id'', JStr (st_id r)), (''task'', JStr (st_task r))] @
       (case sel of None \<Rightarrow> []
        | Some (managed, b) \<Rightarrow> [(''managed_remote_account'', JBool managed), (''dispatch_role'', JStr (bi_role b)),
            (''account_binding'', binding_json b)]))"

definition row_binding :: "json \<Rightarrow> binding option result" where
  "row_binding row = (case jfield row ''account_binding'' of None \<Rightarrow> Ok None
     | Some v \<Rightarrow> and_then (binding_of_json v) (\<lambda>b. Ok (Some b)))"

text \<open>The choice of an agent step's binding; a managed remote account is chosen by the controller.\<close>

definition choose_binding :: "env \<Rightarrow> string \<Rightarrow> settings \<Rightarrow> step_row \<Rightarrow> store \<Rightarrow> (bool \<times> binding) option result" where
  "choose_binding env oid sg r s =
     and_then (managed_remote oid sg (s_role (st_spec r)) s) (\<lambda>managed.
     if managed then Ok (Some (True, unbound (s_role (st_spec r)) None))
     else and_then (choose_for_step env oid sg (s_role (st_spec r)) (st_id r) s) (\<lambda>b. Ok (map_option (Pair False) b)))"

record claim_owner =
  co_path :: string
  co_step :: "string option"
  co_status :: string
  co_state :: "string option"

definition claim_owners :: "string \<Rightarrow> store \<Rightarrow> claim_owner list" where
  "claim_owners oid s =
     [\<lparr>co_path = cl_path c, co_step = wk_step w, co_status = wk_status w,
       co_state = Option.bind (wk_step w) (\<lambda>i. map_option st_state (find (\<lambda>r. st_id r = i) (steps s)))\<rparr>.
        c \<leftarrow> claims s, cl_task c = oid, w \<leftarrow> workers s, wk_id w = cl_worker c]"

definition conflicting_owner :: "step_row \<Rightarrow> store \<Rightarrow> claim_owner option" where
  "conflicting_owner r s =
     find (\<lambda>c. co_step c \<noteq> Some (st_id r) \<and>
       list_ex (\<lambda>p. case scope p of Inl _ \<Rightarrow> False | Inr q \<Rightarrow> overlaps q (co_path c)) (s_scope (st_spec r)))
       (claim_owners (st_task r) s)"

definition owner_json :: "claim_owner \<Rightarrow> json" where
  "owner_json c = jobj [(''path'', JStr (co_path c)), (''step'', jstr_opt (co_step c)), (''status'', JStr (co_status c)),
     (''step_state'', jstr_opt (co_state c))]"

text \<open>A claim of a stopped worker can only be resolved by hand, so the task stops.\<close>

definition block_on_claim :: "env \<Rightarrow> string \<Rightarrow> step_row \<Rightarrow> nat \<Rightarrow> claim_owner \<Rightarrow> (store, unit) oper" where
  "block_on_claim env oid r busy owner =
     when_op (busy = 0 \<and> co_state owner \<noteq> Some ''pending'' \<and> co_status owner \<in> {''failed'', ''unresponsive'', ''stopped''})
       (thn (modify (set_task_status (\<lambda>t. tk_id t = oid) ''blocked''))
            (event env oid ''task.blocked'' (jobj [(''reason'', JStr ''write claim requires reconciliation''),
               (''step'', JStr (st_id r)), (''claim'', owner_json owner)])))"

definition exclusive_running :: "round_deps \<Rightarrow> string \<Rightarrow> store \<Rightarrow> bool" where
  "exclusive_running R oid s =
     list_ex (\<lambda>r. case exclusive_step R oid r s of Inl _ \<Rightarrow> True | Inr b \<Rightarrow> b)
       (filter (\<lambda>r. st_state r = ''running'') (steps_of oid s))"

datatype step_turn = Launched bool | Passed | Stopped

text \<open>
  The checks before the reservation: \<open>Inl\<close> ends the turn of the step, \<open>Inr\<close> carries the row of
  the dispatch and whether the step runs alone.
\<close>

definition admit_step :: "env \<Rightarrow> round_deps \<Rightarrow> nat \<Rightarrow> string \<Rightarrow> settings \<Rightarrow> nat \<Rightarrow> (store, step_turn option) oper" where
  "admit_step env R cap oid sg busy =
     bnd (ld_admission (rn_launch R) oid) (\<lambda>ok. if \<not> ok then ret (Some Stopped) else
     bnd (eligible env oid) (\<lambda>ok. if \<not> ok then ret (Some Stopped) else
     bnd (ask_state (tree_capacity oid)) (\<lambda>ok. if \<not> ok then ret (Some Stopped) else
     bnd (ask_state (\<lambda>s. Ok (busy \<ge> sg_concurrency sg \<or> host_active s \<ge> cap))) (\<lambda>full.
     if full then thn (queue_task env oid ''host or workflow concurrency limit reached'') (ret (Some Stopped))
     else ret None))))"

definition prepare_step :: "env \<Rightarrow> round_deps \<Rightarrow> string \<Rightarrow> settings \<Rightarrow> nat \<Rightarrow> step_row \<Rightarrow>
    (store, step_turn + json \<times> bool) oper" where
  "prepare_step env R oid sg busy r =
     bnd (if s_kind (st_spec r) = ''agent''
          then bnd (ask_state (choose_binding env oid sg r)) (\<lambda>sel.
            case sel of None \<Rightarrow> thn (queue_task env oid ''no eligible authorized account capacity'') (ret None)
            | Some x \<Rightarrow> ret (Some (dispatch_row r (Some x))))
          else ret (Some (dispatch_row r None))) (\<lambda>row.
     case row of None \<Rightarrow> ret (Inl Passed)
     | Some row \<Rightarrow>
     bnd (if s_environment (st_spec r) = None then ret True else ask_state (rn_environment R oid)) (\<lambda>ok.
     if \<not> ok then ret (Inl Passed) else
     bnd (ask_state (\<lambda>s. Ok (conflicting_owner r s))) (\<lambda>conflict.
     case conflict of Some owner \<Rightarrow> thn (block_on_claim env oid r busy owner) (ret (Inl Passed))
     | None \<Rightarrow>
     bnd (ask_state (\<lambda>s. Ok (exclusive_running R oid s))) (\<lambda>alone.
     if alone then ret (Inl Passed) else
     bnd (ask_state (exclusive_step R oid r)) (\<lambda>solo.
     if solo \<and> busy > 0 then ret (Inl Passed)
     else ret (Inr (row, solo)))))))"

definition hold_review :: "env \<Rightarrow> round_deps \<Rightarrow> string \<Rightarrow> step_row \<Rightarrow> (store, bool) oper" where
  "hold_review env R oid r =
     bnd (ask_state (rn_is_review R oid r)) (\<lambda>review.
     if \<not> review then ret False
     else bnd (try_op (rn_prepare_review R oid r)) (\<lambda>res.
       case res of Inr _ \<Rightarrow> ret False
       | Inl e \<Rightarrow>
           thn (event env oid ''run.preview_held'' (jobj [(''error'', JStr (error_text e))]))
          (thn (modify (set_task_status (\<lambda>t. tk_id t = oid) ''blocked''))
          (thn (release_remote (rn_call R) (st_id r)) (ret True)))))"

definition begin_step :: "env \<Rightarrow> round_deps \<Rightarrow> string \<Rightarrow> step_row \<Rightarrow> json \<Rightarrow> (store, string) oper" where
  "begin_step env R oid r row =
     bnd (ask_state (\<lambda>_. row_binding row)) (\<lambda>b.
       begin_attempt env (rn_launch R) (rn_attempt R (st_id r)) (rn_worker R (st_id r)) (rn_token R (st_id r)) oid (st_id r) b)"

definition start_handle :: "string \<Rightarrow> string \<Rightarrow> string \<Rightarrow> string \<Rightarrow> sched \<Rightarrow> sched" where
  "start_handle stp task attempt worker c =
     c\<lparr>sc_running := filter (\<lambda>a. av_step a \<noteq> stp) (sc_running c) @
       [\<lparr>av_step = stp, av_task = task, av_attempt = attempt, av_worker = worker, av_handle = Executing, av_failure = None\<rparr>]\<rparr>"

text \<open>A launch that failed gives its reservation back; it is an error unless the disk is full.\<close>

definition launch_step :: "env \<Rightarrow> round_deps \<Rightarrow> string \<Rightarrow> step_row \<Rightarrow> json \<Rightarrow> bool \<Rightarrow> (sched, step_turn) oper" where
  "launch_step env R oid r row solo =
     bnd (lift (try_op (begin_step env R oid r row))) (\<lambda>started.
     case started of
       Inr worker \<Rightarrow>
         thn (modify (start_handle (st_id r) oid (rn_attempt R (st_id r)) worker)) (ret (Launched solo))
     | Inl e \<Rightarrow>
         thn (lift (release_remote (rn_call R) (st_id r)))
        (bnd (lift (ld_admission (rn_launch R) oid)) (\<lambda>ok.
         if \<not> ok then ret Stopped else (\<lambda>c. (c, Err e)))))"

definition step_round :: "env \<Rightarrow> round_deps \<Rightarrow> string \<Rightarrow> settings \<Rightarrow> nat \<Rightarrow> step_row \<Rightarrow> (sched, step_turn) oper" where
  "step_round env R oid sg busy r =
     bnd (ask_state (\<lambda>c. Ok (sc_limit c))) (\<lambda>cap.
     bnd (lift (admit_step env R cap oid sg busy)) (\<lambda>early.
     case early of Some turn \<Rightarrow> ret turn
     | None \<Rightarrow>
     bnd (lift (prepare_step env R oid sg busy r)) (\<lambda>prepared.
     case prepared of Inl turn \<Rightarrow> ret turn
     | Inr (row, solo) \<Rightarrow>
     bnd (lift (acquire_remote env (rn_call R) (rn_receive R) (rn_request R (st_id r)) row)) (\<lambda>(granted, row).
     if \<not> granted then ret Passed else
     bnd (lift (hold_review env R oid r)) (\<lambda>held.
     if held then ret Passed else launch_step env R oid r row solo)))))"

fun launch_ready :: "env \<Rightarrow> round_deps \<Rightarrow> string \<Rightarrow> string \<Rightarrow> settings \<Rightarrow> nat \<Rightarrow> step_row list \<Rightarrow> (sched, unit) oper" where
  "launch_ready env R oid project sg busy [] = ret ()"
| "launch_ready env R oid project sg busy (r # rs) =
     bnd (step_round env R oid sg busy r) (\<lambda>turn.
     case turn of
       Stopped \<Rightarrow> ret ()
     | Passed \<Rightarrow> launch_ready env R oid project sg busy rs
     | Launched solo \<Rightarrow>
         bnd (ask_state (\<lambda>c. Ok (multiple_projects (sc_store c)))) (\<lambda>many.
         if solo \<or> project \<noteq> default_project \<or> many then ret ()
         else launch_ready env R oid project sg (Suc busy) rs))"

section \<open>A round\<close>

definition select_settings :: "env \<Rightarrow> round_deps \<Rightarrow> string \<Rightarrow> settings \<Rightarrow> (store, settings option) oper" where
  "select_settings env R oid sg =
     bnd (ask_state (\<lambda>s. Ok (list_ex (\<lambda>r. s_kind (st_spec r) = ''agent'') (steps_of oid s)))) (\<lambda>agent.
     if \<not> agent then ret (Some sg)
     else bnd (try_op (ask_state (rn_select R oid sg))) (\<lambda>res.
       case res of Inr x \<Rightarrow> ret (Some x)
       | Inl e \<Rightarrow>
           thn (modify (set_task_status (\<lambda>t. tk_id t = oid) ''blocked''))
          (thn (event env oid ''execution.selection_blocked'' (jobj [(''reason'', JStr (error_text e))]))
               (ret None))))"

text \<open>Whether the task stays here: not placed on another runtime, and its owner is connected.\<close>

definition stays_here :: "env \<Rightarrow> round_deps \<Rightarrow> bool \<Rightarrow> string \<Rightarrow> (store, bool) oper" where
  "stays_here env R remote_ready oid =
     bnd (try_op (rn_route R oid)) (\<lambda>routed.
     case routed of
       Inl _ \<Rightarrow> thn (queue_task env oid ''project configuration or runtime inventory could not be validated'') (ret False)
     | Inr True \<Rightarrow> ret False
     | Inr False \<Rightarrow> ask_state (\<lambda>s. Ok (remote_ready \<or> \<not> is_remote oid s)))"

definition task_round :: "env \<Rightarrow> round_deps \<Rightarrow> bool \<Rightarrow> string \<times> string \<Rightarrow> (sched, unit) oper" where
  "task_round env R remote_ready entry =
     (let oid = fst entry in
      thn (lift (settle env oid))
     (bnd (lift (ask_state (get_task oid))) (\<lambda>task.
      if tk_status task \<noteq> ''running'' then ret () else
      bnd (lift (ready env (rn_hold R) oid)) (\<lambda>rows.
      if rows = [] then ret () else
      bnd (lift (ld_admission (rn_launch R) oid)) (\<lambda>ok.
      if \<not> ok then ret () else
      bnd (lift (stays_here env R remote_ready oid)) (\<lambda>here.
      if \<not> here then ret () else
      bnd (lift (select_settings env R oid (tk_settings task))) (\<lambda>sel.
      case sel of None \<Rightarrow> ret ()
      | Some sg \<Rightarrow>
          bnd (ask_state (\<lambda>c. Ok (length (filter (\<lambda>a. av_task a = oid) (sc_running c))))) (\<lambda>busy.
            launch_ready env R oid (snd entry) sg busy rows))))))))"

definition round_of :: "env \<Rightarrow> round_deps \<Rightarrow> bool \<Rightarrow> (sched, unit) oper" where
  "round_of env R remote_ready =
     thn (lift (reconcile_releases (rn_call R)))
    (thn (lift (cleanup_ungranted (rn_locked R)))
    (bnd (ask_state (\<lambda>c. Ok (sc_running c))) (\<lambda>as.
     thn (abort_cancelled env as)
    (thn (reap_finished env (rn_call R))
    (bnd (lift (ask_state (host_limit env))) (\<lambda>cap.
     thn (modify (\<lambda>c. c\<lparr>sc_limit := cap\<rparr>))
    (bnd (lift (rn_previews R)) (\<lambda>paused.
     if paused then ret () else
     bnd (lift (ask_state (\<lambda>s. Ok (draining s)))) (\<lambda>stop.
     if stop then ret () else
     thn (lift (notify_completed_children env (rn_message R)))
    (thn (lift (wake_notified env (rn_revision R) (rn_followup R)))
    (bnd (lift (ask_state (\<lambda>s. Ok (ordered_tasks s)))) (\<lambda>entries.
       each_op (task_round env R remote_ready) entries))))))))))))"

end
