(* ===== verification/Execution_Facts.thy ===== *)
theory Execution_Facts
  imports Daemon Delegation_Facts
begin

text \<open>
  What the scheduler promises about executions: a step never has two live attempts, and a step
  that waits or has ended has none, in every interleaving of scheduler rounds, completing
  attempts, restarts of the daemon and operations of the callers.
\<close>

section \<open>The invariant of steps and attempts\<close>

text \<open>The states of a step that an attempt may still be live in.\<close>

definition hosting :: "string \<Rightarrow> bool" where
  "hosting st = (st \<in> {''running'', ''uncertain'', ''cancelled''})"

definition hosted :: "step_row list \<Rightarrow> attempt_row list \<Rightarrow> bool" where
  "hosted ss as =
     (\<forall>a \<in> set as. live_state (at_state a) \<longrightarrow> (\<exists>r \<in> set ss. st_id r = attempt_row.at_step a \<and> hosting (st_state r)))"

definition single_live :: "attempt_row list \<Rightarrow> bool" where
  "single_live as =
     (\<forall>a \<in> set as. \<forall>b \<in> set as. live_state (at_state a) \<and> live_state (at_state b) \<and>
        attempt_row.at_step a = attempt_row.at_step b \<longrightarrow> at_id a = at_id b)"

definition exec_ok :: "step_row list \<Rightarrow> attempt_row list \<Rightarrow> bool" where
  "exec_ok ss as = (distinct (map st_id ss) \<and> distinct (map at_id as) \<and> hosted ss as \<and> single_live as)"

definition running_set :: "attempt_row list \<Rightarrow> (string \<times> string) set" where
  "running_set as = {(at_id a, attempt_row.at_step a) | a. a \<in> set as \<and> at_state a = ''running''}"

definition idle :: "attempt_row list \<Rightarrow> string \<Rightarrow> bool" where
  "idle as i = (\<forall>a \<in> set as. live_state (at_state a) \<longrightarrow> attempt_row.at_step a \<noteq> i)"

text \<open>
  The invariant together with attempts that run and stay running, and steps that have no live
  attempt and stay so.
\<close>

definition exec_with :: "(string \<times> string) set \<Rightarrow> string set \<Rightarrow> store \<Rightarrow> bool" where
  "exec_with P N s = (exec_ok (steps s) (attempts s) \<and> P \<subseteq> running_set (attempts s) \<and> (\<forall>i \<in> N. idle (attempts s) i))"

definition steady :: "(store, 'a) oper \<Rightarrow> bool" where
  "steady m = (\<forall>P N. keeps (exec_with P N) m)"

lemma steadyI: "(\<And>P N. keeps (exec_with P N) m) \<Longrightarrow> steady m"
  by (simp add: steady_def)

lemma steady_keeps: "steady m \<Longrightarrow> keeps (exec_with P N) m"
  by (simp add: steady_def)

lemma exec_with_frame [simp]:
  "exec_with P N (tasks_update f1 s) = exec_with P N s" "exec_with P N (workers_update f2 s) = exec_with P N s"
  "exec_with P N (s\<lparr>events := es, event_seq := n\<rparr>) = exec_with P N s"
  by (simp_all add: exec_with_def)

lemma exec_with_weaken: "exec_with P N s \<Longrightarrow> Q \<subseteq> P \<Longrightarrow> M \<subseteq> N \<Longrightarrow> exec_with Q M s"
  by (auto simp: exec_with_def)

lemma leaves_steady: "leaves (\<lambda>s. (steps s, attempts s)) m \<Longrightarrow> steady m"
  by (simp add: steady_def keeps_def leaves_def exec_with_def)

lemma steady_try [keeps_rules]: "steady m \<Longrightarrow> keeps (exec_with P N) (try_op m)"
  unfolding steady_def keeps_def try_op_def by (simp split: prod.split) (metis fst_conv)

text \<open>A read that shows more steps to be without live attempts.\<close>

lemma keeps_ask_idle:
  assumes "\<And>x s. exec_with P N s \<Longrightarrow> f s = Ok x \<Longrightarrow> \<exists>M. (\<forall>i \<in> M. idle (attempts s) i) \<and> keeps (exec_with P (N \<union> M)) (g x)"
  shows "keeps (exec_with P N) (bnd (ask_state f) g)"
proof (rule keepsI)
  fix s assume s: "exec_with P N s"
  show "exec_with P N (fst (bnd (ask_state f) g s))"
  proof (cases "f s")
    case (Inl e)
    then show ?thesis using s by (simp add: ask_then)
  next
    case (Inr x)
    obtain M where M: "\<forall>i \<in> M. idle (attempts s) i" "keeps (exec_with P (N \<union> M)) (g x)" using assms [OF s Inr] by blast
    then have "exec_with P (N \<union> M) s" using s by (auto simp: exec_with_def)
    then have "exec_with P (N \<union> M) (fst (g x s))" using M(2) by (simp add: keeps_def)
    then show ?thesis using Inr by (auto simp: ask_then intro: exec_with_weaken)
  qed
qed

section \<open>Changes of the tables\<close>

lemma hosts_mono:
  assumes "hosted ss as"
    and "\<And>r. r \<in> set ss \<Longrightarrow> hosting (st_state r) \<Longrightarrow> \<exists>q \<in> set ts. st_id q = st_id r \<and> hosting (st_state q)"
  shows "hosted ts as"
  unfolding hosted_def
proof (intro ballI impI)
  fix a assume "a \<in> set as" "live_state (at_state a)"
  then obtain r where "r \<in> set ss" "st_id r = attempt_row.at_step a" "hosting (st_state r)"
    using assms(1) by (auto simp: hosted_def)
  then show "\<exists>q \<in> set ts. st_id q = attempt_row.at_step a \<and> hosting (st_state q)" using assms(2) by force
qed

lemma exec_ok_hosts:
  assumes "exec_ok ss as" and "map st_id ts = map st_id ss"
    and "\<And>r. r \<in> set ss \<Longrightarrow> hosting (st_state r) \<Longrightarrow> \<exists>q \<in> set ts. st_id q = st_id r \<and> hosting (st_state q)"
  shows "exec_ok ts as"
proof -
  have "hosted ts as" using hosts_mono [of ss as ts] assms(1,3) unfolding exec_ok_def by blast
  then show ?thesis using assms(1,2) by (simp add: exec_ok_def)
qed

lemma exec_ok_step_state:
  assumes ok: "exec_ok ss as" and safe: "\<And>r. r \<in> set ss \<Longrightarrow> p r \<Longrightarrow> hosting (st_state (f r)) \<or> idle as (st_id r)"
    and ids: "\<And>r. st_id (f r) = st_id r"
  shows "exec_ok (update_rows p f ss) as"
proof -
  have same: "map st_id (update_rows p f ss) = map st_id ss"
    using ids by (auto simp: update_rows_def)
  have "hosted (update_rows p f ss) as"
    unfolding hosted_def
  proof (intro ballI impI)
    fix a assume a: "a \<in> set as" "live_state (at_state a)"
    then obtain r where r: "r \<in> set ss" "st_id r = attempt_row.at_step a" "hosting (st_state r)"
      using ok by (auto simp: exec_ok_def hosted_def)
    show "\<exists>q \<in> set (update_rows p f ss). st_id q = attempt_row.at_step a \<and> hosting (st_state q)"
    proof (cases "p r")
      case True
      have "hosting (st_state (f r))" using safe [OF r(1) True] a r(2) by (auto simp: idle_def)
      moreover have "f r \<in> set (update_rows p f ss)" using True r(1) by (auto simp: update_rows_def)
      ultimately show ?thesis using ids [of r] r(2) by metis
    next
      case False
      then have "r \<in> set (update_rows p f ss)" using r(1) by (force simp: update_rows_def)
      then show ?thesis using r by blast
    qed
  qed
  then show ?thesis using ok same by (simp add: exec_ok_def)
qed

text \<open>A step in another state has no live attempt.\<close>

lemma unhosting_idle:
  assumes "exec_ok ss as" "r \<in> set ss" "\<not> hosting (st_state r)"
  shows "idle as (st_id r)"
  unfolding idle_def
proof (intro ballI impI notI)
  fix a assume a: "a \<in> set as" "live_state (at_state a)" "attempt_row.at_step a = st_id r"
  then obtain q where "q \<in> set ss" "st_id q = st_id r" "hosting (st_state q)"
    using assms(1) by (auto simp: exec_ok_def hosted_def)
  then show False using assms by (auto simp: exec_ok_def distinct_map dest: inj_onD)
qed

lemma exec_with_idle: "exec_with P N s \<Longrightarrow> r \<in> set (steps s) \<Longrightarrow> \<not> hosting (st_state r) \<Longrightarrow> idle (attempts s) (st_id r)"
  using unhosting_idle by (auto simp: exec_with_def)

lemma exec_with_step_state:
  assumes ok: "exec_with P N s" and "\<And>r. p r \<Longrightarrow> hosting st \<or> \<not> hosting (st_state r) \<or> st_id r \<in> N"
  shows "exec_with P N (set_step_state p st s)"
proof -
  have "hosting st \<or> idle (attempts s) (st_id r)" if "r \<in> set (steps s)" "p r" for r
    using assms(2) [OF that(2)] exec_with_idle [OF ok that(1)] ok by (auto simp: exec_with_def)
  then have "exec_ok (update_rows p (\<lambda>r. r\<lparr>st_state := st\<rparr>) (steps s)) (attempts s)"
    using ok by (intro exec_ok_step_state) (auto simp: exec_with_def)
  then show ?thesis using ok by (simp add: exec_with_def set_step_state_def)
qed

lemma exec_ok_new_step:
  assumes "exec_ok ss as" and "st_id r \<notin> st_id ` set ss"
  shows "exec_ok (ss @ [r]) as"
  using assms hosts_mono [of ss as "ss @ [r]"] by (auto simp: exec_ok_def)

lemma exec_ok_same_specs:
  assumes "exec_ok ss as" and "\<And>r. st_id (f r) = st_id r" and "\<And>r. st_state (f r) = st_state r"
  shows "exec_ok (update_rows p f ss) as"
proof -
  have ids: "map st_id (update_rows p f ss) = map st_id ss"
    using assms(2) by (auto simp: update_rows_def)
  have there: "\<exists>q \<in> set (update_rows p f ss). st_id q = st_id r \<and> hosting (st_state q)"
    if r: "r \<in> set ss" "hosting (st_state r)" for r
  proof
    show "(if p r then f r else r) \<in> set (update_rows p f ss)" using r(1) by (auto simp: update_rows_def)
    show "st_id (if p r then f r else r) = st_id r \<and> hosting (st_state (if p r then f r else r))"
      using r(2) by (simp add: assms(2,3))
  qed
  show ?thesis by (rule exec_ok_hosts [OF assms(1) ids there])
qed

lemma single_liveD:
  assumes "exec_ok ss as" "a \<in> set as" "b \<in> set as" "live_state (at_state a)" "live_state (at_state b)"
    and "attempt_row.at_step a = attempt_row.at_step b"
  shows "at_id a = at_id b"
  using assms unfolding exec_ok_def single_live_def by blast

lemma exec_ok_new_attempt:
  assumes "exec_ok ss as" and "at_id a \<notin> at_id ` set as"
    and "\<exists>r \<in> set ss. st_id r = attempt_row.at_step a \<and> hosting (st_state r)"
    and "\<forall>b \<in> set as. live_state (at_state b) \<longrightarrow> attempt_row.at_step b \<noteq> attempt_row.at_step a"
  shows "exec_ok ss (as @ [a])"
proof -
  have "hosted ss (as @ [a])" using assms(1,3) by (auto simp: exec_ok_def hosted_def)
  moreover have "single_live (as @ [a])"
    unfolding single_live_def
  proof (intro ballI impI)
    fix c d assume cd: "c \<in> set (as @ [a])" "d \<in> set (as @ [a])"
      and e: "live_state (at_state c) \<and> live_state (at_state d) \<and> attempt_row.at_step c = attempt_row.at_step d"
    consider "c \<in> set as" "d \<in> set as" | "c = a" "d = a" | "c \<in> set as" "d = a" | "c = a" "d \<in> set as"
      using cd by auto
    then show "at_id c = at_id d"
      using single_liveD [OF assms(1), of c d] assms(4) e by cases (simp_all, blast, metis)
  qed
  ultimately show ?thesis using assms(1,2) by (simp add: exec_ok_def)
qed

text \<open>Attempts that stop being live.\<close>

lemma exec_ok_close:
  assumes "exec_ok ss as" and "\<And>a. at_id (f a) = at_id a"
    and "\<And>a. attempt_row.at_step (f a) = attempt_row.at_step a"
    and "\<And>a. a \<in> set as \<Longrightarrow> p a \<Longrightarrow> live_state (at_state (f a)) \<Longrightarrow> live_state (at_state a)"
  shows "exec_ok ss (update_rows p f as)"
proof -
  have ids: "map at_id (update_rows p f as) = map at_id as"
    using assms(2) by (auto simp: update_rows_def)
  have src: "\<exists>b \<in> set as. at_id b = at_id a \<and> attempt_row.at_step b = attempt_row.at_step a \<and> live_state (at_state b)"
    if a: "a \<in> set (update_rows p f as)" "live_state (at_state a)" for a
    using a(1)
  proof (rule update_rowsE)
    assume "a \<in> set as" then show ?thesis using a(2) by blast
  next
    fix b assume b: "b \<in> set as" "p b" "a = f b"
    then have "at_id b = at_id a \<and> attempt_row.at_step b = attempt_row.at_step a \<and> live_state (at_state b)"
      using assms(2-4) [of b] a(2) by simp
    with b(1) show ?thesis by blast
  qed
  have "hosted ss (update_rows p f as)"
    unfolding hosted_def
  proof (intro ballI impI)
    fix a assume "a \<in> set (update_rows p f as)" "live_state (at_state a)"
    then obtain b where "b \<in> set as" "attempt_row.at_step b = attempt_row.at_step a" "live_state (at_state b)"
      using src by blast
    then show "\<exists>r \<in> set ss. st_id r = attempt_row.at_step a \<and> hosting (st_state r)"
      using assms(1) by (force simp: exec_ok_def hosted_def)
  qed
  moreover have "single_live (update_rows p f as)"
    unfolding single_live_def
  proof (intro ballI impI)
    fix a b assume ab: "a \<in> set (update_rows p f as)" "b \<in> set (update_rows p f as)"
      "live_state (at_state a) \<and> live_state (at_state b) \<and> attempt_row.at_step a = attempt_row.at_step b"
    obtain c where c: "c \<in> set as" "at_id c = at_id a" "attempt_row.at_step c = attempt_row.at_step a" "live_state (at_state c)"
      using src [OF ab(1)] ab(3) by blast
    obtain d where d: "d \<in> set as" "at_id d = at_id b" "attempt_row.at_step d = attempt_row.at_step b" "live_state (at_state d)"
      using src [OF ab(2)] ab(3) by blast
    have "attempt_row.at_step c = attempt_row.at_step d" using c(3) d(3) ab(3) by simp
    then have "at_id c = at_id d" using single_liveD [OF assms(1) c(1) d(1) c(4) d(4)] by blast
    then show "at_id a = at_id b" by (simp add: c(2) d(2))
  qed
  ultimately show ?thesis using assms(1) ids by (simp add: exec_ok_def)
qed

text \<open>The pair of a running attempt determines its row.\<close>

lemma running_pair_unique:
  assumes "exec_ok ss as" "(i, t) \<in> running_set as" "(i, u) \<in> running_set as"
  shows "t = u"
  using assms by (auto simp: exec_ok_def running_set_def distinct_map dest: inj_onD)

text \<open>The record of a result closes the attempt and takes the step out of the running ones.\<close>

lemma exec_ok_close_step:
  assumes ok: "exec_ok ss as" and run: "(i, t) \<in> running_set as"
    and f: "\<And>r. st_id (f r) = st_id r"
    and g: "\<And>a. at_id (g a) = at_id a" "\<And>a. attempt_row.at_step (g a) = attempt_row.at_step a"
      "\<And>a. \<not> live_state (at_state (g a))"
  shows "exec_ok (update_rows (\<lambda>r. st_id r = t) f ss) (update_rows (\<lambda>a. at_id a = i) g as)"
    and "idle (update_rows (\<lambda>a. at_id a = i) g as) t"
proof -
  let ?as = "update_rows (\<lambda>a. at_id a = i) g as"
  obtain x where x: "x \<in> set as" "at_id x = i" "attempt_row.at_step x = t" "at_state x = ''running''"
    using run by (auto simp: running_set_def)
  have closed: "exec_ok ss ?as" using g by (intro exec_ok_close [OF ok]) auto
  show idle: "idle ?as t"
    unfolding idle_def
  proof (intro ballI impI notI)
    fix a assume a: "a \<in> set ?as" "live_state (at_state a)" "attempt_row.at_step a = t"
    from a(1) show False
    proof (rule update_rowsE)
      assume b: "a \<in> set as" "at_id a \<noteq> i"
      then show False using single_liveD [OF ok b(1) x(1)] a x by (simp add: live_state_def)
    next
      fix b assume "a = g b"
      then show False using a(2) g(3) by simp
    qed
  qed
  show "exec_ok (update_rows (\<lambda>r. st_id r = t) f ss) ?as"
    by (rule exec_ok_step_state [OF closed]) (use f idle in auto)
qed

section \<open>The record of a result\<close>

lemma finished_not_live: "\<not> live_state (finished_state current waiting success)"
  by (simp add: finished_state_def live_state_def)

lemma exec_with_recorded:
  assumes ok: "exec_with P N s" and run: "(i, t) \<in> running_set (attempts s)" and state: "\<not> live_state state"
  shows "exec_with (P - {(i, t)}) (insert t N) (close_attempt env i state v (set_step_result t state v s))"
proof -
  let ?g = "\<lambda>a. a\<lparr>at_state := state, at_finished := Some (now env), at_result := Some v,
     at_usage := or_else (jfield v ''usage'') (at_usage a)\<rparr>"
  let ?f = "\<lambda>r. r\<lparr>st_state := state, st_result := Some v\<rparr>"
  let ?as = "update_rows (\<lambda>a. at_id a = i) ?g (attempts s)"
  have e: "exec_ok (steps s) (attempts s)" using ok by (simp add: exec_with_def)
  have new: "exec_ok (update_rows (\<lambda>r. st_id r = t) ?f (steps s)) ?as" "idle ?as t"
    using exec_ok_close_step [OF e run, of ?f ?g] state by simp_all
  have "P - {(i, t)} \<subseteq> running_set ?as"
  proof
    fix q assume "q \<in> P - {(i, t)}"
    then obtain a where a: "a \<in> set (attempts s)" "q = (at_id a, attempt_row.at_step a)" "at_state a = ''running''" "q \<noteq> (i, t)"
      using ok by (auto simp: exec_with_def running_set_def)
    then have "(at_id a, attempt_row.at_step a) \<in> running_set (attempts s)" by (auto simp: running_set_def)
    then have "at_id a \<noteq> i" using running_pair_unique [OF e _ run] a(2,4) by auto
    then have "a \<in> set ?as" using a(1) by (force simp: update_rows_def)
    then show "q \<in> running_set ?as" using a(2,3) by (auto simp: running_set_def)
  qed
  moreover have "idle ?as j" if "j \<in> N" for j
    using ok that state by (auto simp: exec_with_def idle_def elim!: update_rowsE)
  ultimately show ?thesis
    using new by (simp add: exec_with_def close_attempt_def set_step_result_def)
qed

lemma exec_with_question_context [simp]: "exec_with P N (question_context_update f s) = exec_with P N s"
  and exec_with_claims [simp]: "exec_with P N (claims_update g s) = exec_with P N s"
  by (simp_all add: exec_with_def)

lemma exec_with_task_status [simp]: "exec_with P N (set_task_status p st s) = exec_with P N s"
  and exec_with_status_of [simp]: "exec_with P N (set_status_of oid old st s) = exec_with P N s"
  and exec_with_worker_status [simp]: "exec_with P N (set_worker_status q st s) = exec_with P N s"
  and exec_with_touch [simp]: "exec_with P N (touch_worker env w st s) = exec_with P N s"
  and exec_with_rest [simp]: "exec_with P N (rest_worker env w ok s) = exec_with P N s"
  by (simp_all add: set_task_status_def set_status_of_def set_worker_status_def touch_worker_def rest_worker_def)

lemma exec_with_consume:
  "exec_with P N s \<Longrightarrow> stp \<in> N \<Longrightarrow> exec_with P N (consume_answers stp worker success state s)"
  using exec_with_step_state [of P N s "\<lambda>r. st_id r = stp" "''pending''"]
  by (auto simp: consume_answers_def)

lemma steady_event [keeps_rules]: "keeps (exec_with P N) (event env task kind data)"
  by (intro keeps_rules) simp

lemma thn_modify_modify: "thn (modify f) (thn (modify g) m) = thn (modify (\<lambda>s. g (f s))) m"
  by (rule ext) (simp add: thn_def bnd_def modify_def)

lemma finish_tx_exec:
  assumes "finish_tx env oid stp attempt worker result v waiting success head s = (t, Ok u)"
    and "exec_with P N s" and "(attempt, stp) \<in> running_set (attempts s)"
  shows "exec_with (P - {(attempt, stp)}) (insert stp N) t"
proof -
  let ?I = "\<lambda>s. exec_with P N s \<and> (attempt, stp) \<in> running_set (attempts s)"
  have "yields ?I (finish_tx env oid stp attempt worker result v waiting success head)
      (exec_with (P - {(attempt, stp)}) (insert stp N))"
    unfolding finish_tx_def Let_def
  proof (rule yields_ask [where I' = "\<lambda>_. ?I"], assumption, unfold thn_modify_modify, rule yields_thn)
    fix current
    let ?state = "finished_state current waiting success"
    show "yields ?I (modify (\<lambda>s. consume_answers stp worker success ?state (rest_worker env worker success
        (close_attempt env attempt ?state v (set_step_result stp ?state v s)))))
        (exec_with (P - {(attempt, stp)}) (insert stp N))"
      by (rule yields_modify) (simp add: exec_with_recorded finished_not_live exec_with_consume)
  qed (intro yields_keeps keeps_rules; simp)
  then show ?thesis using assms by (auto dest: yieldsD)
qed

lemma finish_ref_exec:
  assumes "finish_ref env stp attempt worker result s = (t, Ok u)"
    and "exec_with P N s" and "(attempt, stp) \<in> running_set (attempts s)"
  shows "exec_with (P - {(attempt, stp)}) (insert stp N) t"
  using assms finish_tx_exec by (auto simp: finish_ref_def Let_def runs)

lemma finish_ref_Err: "finish_ref env stp attempt worker result s = (t, Err e) \<Longrightarrow> t = s"
  by (auto simp: finish_ref_def Let_def ask_then dest: atomic_Err_state split: sum.splits)

declare keeps_insert_steps [keeps_rules del]

section \<open>Operations that keep the invariant\<close>

text \<open>The operations that touch neither table.\<close>

lemma exec_frames [simp]:
  "exec_with P N (tasks_update f0 s) = exec_with P N s"
  "exec_with P N (revisions_update f1 s) = exec_with P N s"
  "exec_with P N (workers_update f2 s) = exec_with P N s"
  "exec_with P N (channels_update f3 s) = exec_with P N s"
  "exec_with P N (messages_update f4 s) = exec_with P N s"
  "exec_with P N (receipts_update f5 s) = exec_with P N s"
  "exec_with P N (cursors_update f6 s) = exec_with P N s"
  "exec_with P N (notifications_update f7 s) = exec_with P N s"
  "exec_with P N (claims_update f8 s) = exec_with P N s"
  "exec_with P N (events_update f9 s) = exec_with P N s"
  "exec_with P N (questions_update f10 s) = exec_with P N s"
  "exec_with P N (question_context_update f11 s) = exec_with P N s"
  "exec_with P N (question_routes_update f12 s) = exec_with P N s"
  "exec_with P N (question_escalations_update f13 s) = exec_with P N s"
  "exec_with P N (workflow_outputs_update f14 s) = exec_with P N s"
  "exec_with P N (external_ops_update f15 s) = exec_with P N s"
  "exec_with P N (task_tree_update f16 s) = exec_with P N s"
  "exec_with P N (context_records_update f17 s) = exec_with P N s"
  "exec_with P N (context_attempts_update f18 s) = exec_with P N s"
  "exec_with P N (child_acceptance_update f19 s) = exec_with P N s"
  "exec_with P N (remote_links_update f20 s) = exec_with P N s"
  "exec_with P N (remote_origins_update f21 s) = exec_with P N s"
  "exec_with P N (remote_context_update f22 s) = exec_with P N s"
  "exec_with P N (knowledge_owners_update f23 s) = exec_with P N s"
  "exec_with P N (local_child_bases_update f24 s) = exec_with P N s"
  "exec_with P N (event_receipts_update f25 s) = exec_with P N s"
  "exec_with P N (projects_update f26 s) = exec_with P N s"
  "exec_with P N (project_repositories_update f27 s) = exec_with P N s"
  "exec_with P N (project_tenants_update f28 s) = exec_with P N s"
  "exec_with P N (task_projects_update f29 s) = exec_with P N s"
  "exec_with P N (project_queue_update f30 s) = exec_with P N s"
  "exec_with P N (attempt_bindings_update f31 s) = exec_with P N s"
  "exec_with P N (runtime_project_bindings_update f32 s) = exec_with P N s"
  "exec_with P N (project_runtime_revocations_update f33 s) = exec_with P N s"
  "exec_with P N (project_runtime_grants_update f34 s) = exec_with P N s"
  "exec_with P N (managed_runtimes_update f35 s) = exec_with P N s"
  "exec_with P N (remote_account_leases_update f36 s) = exec_with P N s"
  "exec_with P N (runtime_settings_update f37 s) = exec_with P N s"
  "exec_with P N (management_events_update f38 s) = exec_with P N s"
  "exec_with P N (account_capacity_update f39 s) = exec_with P N s"
  "exec_with P N (accounts_update f40 s) = exec_with P N s"
  "exec_with P N (auth_profiles_update f41 s) = exec_with P N s"
  "exec_with P N (account_grants_update f42 s) = exec_with P N s"
  "exec_with P N (account_grant_revocations_update f43 s) = exec_with P N s"
  "exec_with P N (account_reservations_update f44 s) = exec_with P N s"
  "exec_with P N (account_remote_reservations_update f45 s) = exec_with P N s"
  "exec_with P N (credential_deliveries_update f46 s) = exec_with P N s"
  "exec_with P N (credential_files_update f47 s) = exec_with P N s"
  "exec_with P N (project_remote_reservations_update f48 s) = exec_with P N s"
  "exec_with P N (attempt_accounts_update f49 s) = exec_with P N s"
  "exec_with P N (artifact_links_update f50 s) = exec_with P N s"
  "exec_with P N (preview_phases_update f51 s) = exec_with P N s"
  "exec_with P N (message_seq_update f52 s) = exec_with P N s"
  "exec_with P N (event_seq_update f53 s) = exec_with P N s"
  by (simp_all add: exec_with_def)

lemma steady_quiet:
  "steady (release_step i)" "steady (set_lease i v)" "steady (queue_task env task reason)" "steady (local_runtime env)"
  "steady (pin task a)" "steady (invalidate_acceptance oid)"
  unfolding release_step_def set_lease_def queue_task_def local_runtime_def set_setting_def pin_def invalidate_acceptance_def
  by (rule steadyI, intro keeps_rules; simp)+

lemmas steady_quiet_keeps [keeps_rules] = steady_quiet [THEN steady_keeps]

lemma steady_release_remote: "steady (release_remote call i)"
  unfolding release_remote_def release_lease_def Let_def by (rule steadyI, intro keeps_rules)

lemma steady_reconcile_releases: "steady (reconcile_releases call)"
  unfolding reconcile_releases_def
  by (rule steadyI, intro keeps_rules steady_keeps [OF steady_release_remote]) simp

lemma steady_cleanup: "steady (cleanup_ungranted locked)"
  unfolding cleanup_ungranted_def cleanup_account_def set_authenticated_def drop_files_def
  by (rule steadyI, intro keeps_rules) simp

lemma steady_runtime_allowed: "steady (runtime_allowed env project runtime)"
  unfolding runtime_allowed_def by (rule steadyI, intro keeps_rules)

lemma steady_eligible: "steady (eligible env task)"
  unfolding eligible_def refuse_def
  by (rule steadyI, intro keeps_rules steady_keeps [OF steady_runtime_allowed])

lemma steady_revoked: "steady (revoked env i)"
proof (rule steadyI)
  fix P N
  have "keeps (exec_with P N) (any_disallowed env bs)" for bs
    by (induction bs) (auto intro!: keeps_rules steady_keeps [OF steady_runtime_allowed])
  then show "keeps (exec_with P N) (revoked env i)" unfolding revoked_def by (intro keeps_rules)
qed

lemma steady_reserve: "steady (reserve env i b)"
  unfolding reserve_def reserve_tx_def touch_account_def Let_def
  by (rule steadyI, cases "bi_account b"; cases "bi_profile b"; cases "bi_version b"; simp; intro keeps_rules; simp)

lemma steady_record_dispatch: "steady (record_dispatch env task attempt b)"
  unfolding record_dispatch_def set_setting_def by (rule steadyI, intro keeps_rules; simp)

lemma steady_register: "steady (register env wid token oid i)"
  unfolding register_def by (rule steadyI, intro keeps_rules; simp)

lemma keeps_append_message [keeps_rules]: "keeps (exec_with P N) (append_message m)"
  by (simp add: keeps_def append_message_def)

lemma steady_send: "steady (send env oid sender mid destination body refs actionable)"
  unfolding send_def post_message_def deliver_def wake_idle_def by (rule steadyI, intro keeps_rules; simp)


text \<open>New steps wait.\<close>

lemma exec_insert_steps [keeps_rules]: "keeps (exec_with P N) (insert_steps F i oid ps)"
proof (induction ps arbitrary: i)
  case Nil
  then show ?case by simp
next
  case (Cons p ps)
  have "keeps (exec_with P N) (insert_unique st_id steps steps_update
      \<lparr>st_id = fi_step F i, st_task = oid, st_name = s_id p, st_spec = p, st_state = ''pending'', st_result = None\<rparr>)"
    by (auto simp: keeps_def insert_unique_def exec_with_def intro: exec_ok_new_step)
  then show ?case using Cons by (auto intro!: keeps_rules)
qed

definition steady_revision :: "revision_deps \<Rightarrow> bool" where
  "steady_revision D = (\<forall>oid added. steady (rd_revise_child D oid added))"

lemma steady_add_steps: "steady_revision D \<Longrightarrow> steady (add_steps env D F oid added)"
  unfolding add_steps_def add_steps_tx_def save_revision_def set_plan_def steady_revision_def Let_def
  by (rule steadyI, intro keeps_rules; simp add: steady_keeps)

lemma exec_respec: "exec_with P N s \<Longrightarrow> exec_with P N (respec oid p s)"
  by (auto simp: exec_with_def respec_def intro: exec_ok_same_specs)

lemma steady_progress: "steady (progress env wid reason fingerprint)"
  unfolding progress_def record_progress_def
  by (rule steadyI, intro keeps_rules)

lemma steady_propose_steps: "steady (propose_steps env D F oid wid proposed)"
  unfolding propose_steps_def propose_tx_def save_revision_def set_plan_def Let_def
  by (rule steadyI, intro keeps_rules steady_keeps [OF steady_progress]; simp add: exec_respec)

lemma steady_cancel: "steady (cancel env oid)"
proof -
  have "exec_with P N s \<Longrightarrow> exec_with P N (cancel_steps s)" for P N s
    unfolding cancel_steps_def by (rule exec_with_step_state) (simp_all add: hosting_def)
  then show ?thesis
    unfolding cancel_def cancel_tasks_def by (rule_tac steadyI, intro keeps_rules; simp)
qed

text \<open>Steps that wait for an answer or have failed are sent back to the queue.\<close>

lemma exec_to_pending:
  "(\<And>r. p r \<Longrightarrow> \<not> hosting (st_state r)) \<Longrightarrow> exec_with P N s \<Longrightarrow> exec_with P N (set_step_state p ''pending'' s)"
  by (rule exec_with_step_state) simp_all

lemma exec_wake_steps: "exec_with P N s \<Longrightarrow> exec_with P N (wake_steps qid s)"
  unfolding wake_steps_def by (rule exec_to_pending) (auto simp: hosting_def)

lemma exec_requeue: "exec_with P N s \<Longrightarrow> exec_with P N (requeue_asker qid s)"
  unfolding requeue_asker_def by (rule exec_to_pending) (auto simp: hosting_def)

lemma exec_resume_origin [simp]: "exec_with P N (resume_origin oid s) = exec_with P N s"
  by (simp add: resume_origin_def)

lemma exec_close_question: "exec_with P N s \<Longrightarrow> exec_with P N (close_question oid qid answer s)"
  unfolding close_question_def Let_def by (simp add: exec_requeue)

lemma exec_bump [simp]: "exec_with P N (bump_version r0 v s) = exec_with P N s"
  and exec_block [simp]: "exec_with P N (block_succeeded r0 s) = exec_with P N s"
  by (simp_all add: bump_version_def block_succeeded_def)

lemma keeps_exec_context [keeps_rules]: "keeps (exec_with P N) (add_context cid r0 v k c p b)"
  unfolding add_context_def by (intro keeps_rules) simp

lemma steady_question_action: "steady (question_action env caller args escalate)"
  unfolding question_action_def escalate_tx_def answer_tx_def Let_def
  by (rule steadyI, intro keeps_rules; simp add: exec_wake_steps)

lemma steady_answer_question: "steady (answer_question env oid by_worker args)"
  unfolding answer_question_def
  by (rule steadyI, intro keeps_rules steady_keeps [OF steady_question_action]; simp add: exec_close_question)

lemma steady_ask_question: "steady (ask env qid rid oid args)"
  unfolding ask_def Let_def by (rule steadyI, intro keeps_rules; simp)

lemma steady_update_context: "steady (update_context env fresh oid args)"
  unfolding update_context_def supersede_def Let_def by (rule steadyI, intro keeps_rules; simp)


lemma keeps_each_in: "(\<And>x. x \<in> set xs \<Longrightarrow> keeps I (f x)) \<Longrightarrow> keeps I (each_op f xs)"
  by (induction xs) (simp_all add: keeps_thn)

lemma thn_ask_ask: "thn (ask_state f) (bnd (ask_state g) h) = bnd (ask_state (\<lambda>s. and_then (f s) (\<lambda>_. g s))) h"
  by (rule ext) (simp add: thn_def ask_then split: sum.split)

text \<open>A task that can be resumed has no live attempt.\<close>

lemma resumable_idle:
  assumes "resumable task s = Ok u" and "r \<in> set (steps s)" and "st_task r = task"
  shows "idle (attempts s) (st_id r)"
proof -
  have "\<not> exists_row (\<lambda>a. live_state (at_state a) \<and> exists_row (\<lambda>r. st_id r = attempt_row.at_step a \<and> st_task r = task) (steps s))
      (attempts s)"
    using assms(1) unfolding resumable_def and_then_Ok_iff require_Ok_iff by blast
  then show ?thesis using assms(2,3) unfolding idle_def exists_row_def list_ex_iff by metis
qed

lemma retry_steps_of: "r \<in> set (retry_steps task s) \<Longrightarrow> r \<in> set (steps s) \<and> st_task r = task"
  by (auto simp: retry_steps_def steps_of_def)

lemma keeps_reset_step:
  assumes "st_id r \<in> N"
  shows "keeps (exec_with P N) (reset_step task r)"
proof -
  have "exec_with P N (set_step_state (\<lambda>q. st_task q = task \<and> st_id q = st_id r \<and> st_state q = st_state r) ''pending'' s)"
    if "exec_with P N s" for s
    using that by (rule exec_with_step_state) (use assms in auto)
  then show ?thesis unfolding reset_step_def Let_def by (intro keeps_rules)
qed

lemma steady_resume_live: "steady (resume_live env task request)"
  unfolding resume_live_def thn_ask_ask
proof (rule steadyI, rule keeps_ask_idle, rule exI, rule conjI)
  fix P N x s
  assume "exec_with P N s" "and_then (resumable task s) (\<lambda>_. Ok (retry_steps task s)) = Ok x"
  then have r: "resumable task s = Ok ()" "x = retry_steps task s" by (auto simp: and_then_Ok_iff)
  then show "\<forall>i \<in> st_id ` set x. idle (attempts s) i"
    using resumable_idle [OF r(1)] retry_steps_of by blast
  show "keeps (exec_with P (N \<union> st_id ` set x)) (thn (each_op (reset_step task) x)
        (thn (modify (set_task_status (\<lambda>t. tk_id t = task) ''running''))
          (thn (event env task ''task.resumed'' (jobj [(''steps'', json_strs (map st_name x)), (''request_id'', jstr_opt request)]))
            (ret (jobj [(''resumed'', JBool True)])))))"
    by (intro keeps_thn keeps_each_in) (auto intro!: keeps_reset_step keeps_rules)
qed

lemma steady_resume: "steady (resume env task args)"
  unfolding resume_def Let_def
  by (rule steadyI, intro keeps_rules steady_keeps [OF steady_resume_live]; simp)

lemma steady_reconcile_worker: "steady (reconcile_worker env alive oid wid)"
proof -
  have "exec_with P N (close_uncertain env wid s)" if "exec_with P N s" for P N s
  proof -
    let ?as = "update_rows (\<lambda>a. at_worker a = Some wid \<and> at_state a = ''uncertain'')
         (\<lambda>a. a\<lparr>at_state := ''interrupted'', at_finished := Some (now env)\<rparr>) (attempts s)"
    have "exec_ok (steps s) ?as"
      using that by (intro exec_ok_close) (auto simp: exec_with_def live_state_def)
    moreover have "running_set ?as = running_set (attempts s)"
      unfolding running_set_def by (force simp: update_rows_def)
    moreover have "idle (attempts s) i \<Longrightarrow> idle ?as i" for i
      unfolding idle_def by (auto elim!: update_rowsE simp: live_state_def)
    ultimately show ?thesis using that by (simp add: exec_with_def close_uncertain_def)
  qed
  then show ?thesis
    unfolding reconcile_worker_def give_up_step_def require_state_def
    by (rule_tac steadyI, intro keeps_rules; simp)
qed

text \<open>Submissions and delegations add steps.\<close>

abbreviation execution_rows :: "store \<Rightarrow> step_row list \<times> attempt_row list" where
  "execution_rows s \<equiv> (steps s, attempts s)"

lemma steady_submit:
  assumes "submit_leaves execution_rows D"
  shows "steady (submit_pinned_project env D F project objective repo settings plan)"
proof -
  have "steady (sd_bind_skills D i)" "steady (sd_select_bundles D i ns)" for i ns
    using assms by (simp_all add: submit_leaves_def leaves_steady)
  then show ?thesis
    unfolding submit_pinned_project_def submit_tx_def initialize_def
    by (rule_tac steadyI, intro keeps_rules; simp add: steady_keeps)
qed

lemma steady_delegate:
  assumes "delegate_leaves execution_rows D"
  shows "steady (delegate env D F oid args)"
proof -
  have "submit_leaves execution_rows (dd_submit D)" using assms by (simp add: delegate_leaves_def)
  note sub = steady_submit [OF this]
  have "steady (dd_inherit D a b c)" "steady (dd_allocate D a b c)" "steady (dd_bundles D a b c)" for a b c
    using assms by (simp_all add: delegate_leaves_def leaves_steady)
  then show ?thesis
    unfolding delegate_def delegate_tx_def attach_child_def allocate_local_def link_remote_def save_snapshot_def
      adopt_child_def Let_def
    by (rule_tac steadyI, intro keeps_rules steady_keeps [OF sub]; simp add: steady_keeps)
qed

section \<open>The operations of the scheduler\<close>

lemma keeps_pass_over [keeps_rules]: "keeps I m \<Longrightarrow> keeps I (bnd m (\<lambda>_. ret x))"
  by (rule keeps_bnd) simp_all

lemma keeps_ready_loop:
  assumes "\<And>r. r \<in> set rows \<Longrightarrow> st_state r = ''pending'' \<Longrightarrow> st_id r \<in> N"
  shows "keeps (exec_with P N) (ready_loop states rows)"
  using assms
proof (induction rows)
  case Nil
  then show ?case by simp
next
  case (Cons r rs)
  have skip: "exec_with P N (set_step_state (\<lambda>q. st_id q = st_id r) ''skipped'' s)"
    if "exec_with P N s" "st_id r \<in> N" for s
    using that(1) by (rule exec_with_step_state) (use that(2) in auto)
  show ?case
    using Cons skip by (auto intro!: keeps_rules split: verdict.split)
qed

lemma keeps_retry_failed:
  assumes "\<And>r. r \<in> set rows \<Longrightarrow> st_id r \<in> N"
  shows "keeps (exec_with P N) (retry_failed env oid sg rows)"
  using assms
proof (induction rows)
  case Nil
  then show ?case by simp
next
  case (Cons r rs)
  have again: "exec_with P N (set_step_state (\<lambda>q. st_id q = st_id r) ''pending'' s)"
    if "exec_with P N s" "st_id r \<in> N" for s
    using that(1) by (rule exec_with_step_state) (use that(2) in auto)
  show ?case using Cons again by (auto intro!: keeps_rules)
qed

text \<open>The rows that a pass reads are idle unless an attempt of theirs runs.\<close>

lemma rows_idle:
  "exec_with P N s \<Longrightarrow> \<forall>i \<in> st_id ` {r \<in> set (steps_of oid s). \<not> hosting (st_state r)}. idle (attempts s) i"
  by (auto simp: steps_of_def intro: exec_with_idle)

lemma steady_ready: "steady (ready env hold oid)"
proof (rule steadyI)
  fix P N
  have "keeps (exec_with P N) (bnd (ask_state (\<lambda>s. Ok (steps_of oid s))) (\<lambda>rows. ready_loop (step_states rows) rows))"
  proof (rule keeps_ask_idle, intro exI conjI)
    fix x s assume s: "exec_with P N s" "Ok (steps_of oid s) = Ok x"
    show "\<forall>i \<in> st_id ` {r \<in> set x. \<not> hosting (st_state r)}. idle (attempts s) i" using rows_idle s by auto
    show "keeps (exec_with P (N \<union> st_id ` {r \<in> set x. \<not> hosting (st_state r)})) (ready_loop (step_states x) x)"
      by (rule keeps_ready_loop) (auto simp: hosting_def)
  qed
  then have local: "keeps (exec_with P N) (bnd (ask_state (\<lambda>s. Ok (exists_row (\<lambda>l. rl_task l = oid) (remote_links s)))) (\<lambda>remote.
      if remote then ret [] else bnd (ask_state (\<lambda>s. Ok (steps_of oid s))) (\<lambda>rows. ready_loop (step_states rows) rows)))"
    by (rule keeps_bnd [OF keeps_ask keeps_if [OF keeps_ret]])
  have held: "keeps (exec_with P N) (bnd (ask_state (\<lambda>s. Ok (exists_row (\<lambda>t. tk_id t = oid \<and> tk_status t = ''running'') (tasks s)))) (\<lambda>changed.
         thn (modify (set_status_of oid ''running'' ''blocked''))
        (thn (when_op changed (event env oid ''maintenance.held'' (jobj [(''reason'', JStr reason)]))) (ret []))))" for reason
    by (intro keeps_rules) simp
  show "keeps (exec_with P N) (ready env hold oid)"
    unfolding ready_def by (intro keeps_bnd [OF keeps_ask] keeps_option local held)
qed

lemma steady_settle: "steady (settle env oid)"
proof (rule steadyI)
  fix P N
  show "keeps (exec_with P N) (settle env oid)"
    unfolding settle_def
  proof (rule keeps_ask_idle, intro exI conjI)
    fix x s assume s: "exec_with P N s" "Ok (steps_of oid s) = Ok x"
    show "\<forall>i \<in> st_id ` {r \<in> set x. \<not> hosting (st_state r)}. idle (attempts s) i" using rows_idle s by auto
    have "keeps (exec_with P (N \<union> st_id ` {r \<in> set x. \<not> hosting (st_state r)}))
        (retry_failed env oid sg (filter (\<lambda>t. st_state t = ''failed'') x))" for sg
      by (rule keeps_retry_failed) (auto simp: hosting_def)
    then show "keeps (exec_with P (N \<union> st_id ` {r \<in> set x. \<not> hosting (st_state r)}))
        (bnd (ask_state (get_task oid)) (\<lambda>task.
         bnd (retry_failed env oid (tk_settings task) (filter (\<lambda>t. st_state t = ''failed'') x)) (\<lambda>retrying.
         if retrying then ret ()
         else bnd (ask_state (\<lambda>s. Ok (child_completion oid s))) (\<lambda>complete.
         when_op (complete \<and> list_all (\<lambda>t. terminal_step (st_state t)) x)
           (thn (when_op (\<not> run_failed x) (save_outputs oid x))
              (finish_task env oid (if run_failed x then ''failed'' else ''succeeded'')))))))"
      unfolding save_outputs_def finish_task_def by (intro keeps_rules; simp)
  qed
qed

lemma steady_notify: "steady (notify_completed_children env mid)"
  unfolding notify_completed_children_def notify_child_def Let_def
  by (rule steadyI, intro keeps_rules steady_keeps [OF steady_send]; simp)

lemma steady_wake: "steady_revision D \<Longrightarrow> steady (wake_notified env D fresh)"
  unfolding wake_notified_def wake_worker_def assign_followup_def Let_def
  by (rule steadyI, intro keeps_rules steady_keeps [OF steady_add_steps]; simp)

text \<open>Recovery makes running attempts uncertain, which keeps them live.\<close>

definition still_live :: "(attempt_row \<times> string) list \<Rightarrow> store \<Rightarrow> bool" where
  "still_live rows s = (\<forall>c \<in> set rows. \<exists>b \<in> set (attempts s). at_id b = at_id (fst c) \<and> live_state (at_state b))"

lemma still_live_frames [simp]:
  "still_live rows (set_task_status p st s) = still_live rows s" "still_live rows (set_worker_status q st s) = still_live rows s"
  "still_live rows (set_step_state f st s) = still_live rows s" "still_live rows (s\<lparr>events := es, event_seq := n\<rparr>) = still_live rows s"
  by (simp_all add: still_live_def set_task_status_def set_worker_status_def set_step_state_def)

lemma keeps_interrupt:
  assumes "cur \<in> set rows"
  shows "keeps (\<lambda>s. exec_with {} N s \<and> still_live rows s) (interrupt env cur)"
proof -
  let ?g = "\<lambda>a. a\<lparr>at_state := ''uncertain''\<rparr>"
  have attempt: "exec_with {} N (s\<lparr>attempts := update_rows (\<lambda>a. at_id a = at_id (fst cur)) ?g (attempts s)\<rparr>) \<and>
      still_live rows (s\<lparr>attempts := update_rows (\<lambda>a. at_id a = at_id (fst cur)) ?g (attempts s)\<rparr>)"
    if h: "exec_with {} N s \<and> still_live rows s" for s
  proof -
    obtain b where b: "b \<in> set (attempts s)" "at_id b = at_id (fst cur)" "live_state (at_state b)"
      using h assms by (auto simp: still_live_def)
    have ok: "exec_ok (steps s) (attempts s)" using h by (simp add: exec_with_def)
    have same: "a = b" if "a \<in> set (attempts s)" "at_id a = at_id (fst cur)" for a
      using ok that b unfolding exec_ok_def distinct_map by (metis inj_onD)
    have "exec_ok (steps s) (update_rows (\<lambda>a. at_id a = at_id (fst cur)) ?g (attempts s))"
      by (rule exec_ok_close [OF ok]) (use same b(3) in auto)
    moreover have "idle (update_rows (\<lambda>a. at_id a = at_id (fst cur)) ?g (attempts s)) i" if "idle (attempts s) i" for i
      unfolding idle_def
    proof (intro ballI impI)
      fix a assume a: "a \<in> set (update_rows (\<lambda>a. at_id a = at_id (fst cur)) ?g (attempts s))" "live_state (at_state a)"
      from a(1) show "attempt_row.at_step a \<noteq> i"
      proof (rule update_rowsE)
        assume "a \<in> set (attempts s)"
        then show ?thesis using \<open>live_state (at_state a)\<close> that by (simp add: idle_def)
      next
        fix q assume q: "q \<in> set (attempts s)" "at_id q = at_id (fst cur)" "a = ?g q"
        have "q = b" by (rule same [OF q(1,2)])
        then show ?thesis using q b that by (simp add: idle_def)
      qed
    qed
    moreover have "still_live rows (s\<lparr>attempts := update_rows (\<lambda>a. at_id a = at_id (fst cur)) ?g (attempts s)\<rparr>)"
      unfolding still_live_def
    proof
      fix c assume "c \<in> set rows"
      then obtain a where a: "a \<in> set (attempts s)" "at_id a = at_id (fst c)" "live_state (at_state a)"
        using h by (auto simp: still_live_def)
      then have "(if at_id a = at_id (fst cur) then ?g a else a) \<in> set (update_rows (\<lambda>a. at_id a = at_id (fst cur)) ?g (attempts s))"
        by (auto simp: update_rows_def)
      then show "\<exists>b \<in> set (attempts (s\<lparr>attempts := update_rows (\<lambda>a. at_id a = at_id (fst cur)) ?g (attempts s)\<rparr>)).
          at_id b = at_id (fst c) \<and> live_state (at_state b)"
        using a by (intro bexI) (auto simp: live_state_def)
    qed
    ultimately show ?thesis using h by (simp add: exec_with_def)
  qed
  have uncertain: "exec_with {} N (set_step_state p ''uncertain'' s)" if "exec_with {} N s" for p s
    using that by (rule exec_with_step_state) (simp add: hosting_def)
  show ?thesis
    unfolding interrupt_def by (intro keeps_rules) (rule attempt, simp_all add: uncertain)
qed

lemma recover_exec: "keeps (exec_with {} N) (recover env)"
proof (rule keepsI)
  fix s assume s: "exec_with {} N s"
  have "still_live (interrupted s) s"
    by (auto simp: still_live_def interrupted_def live_state_def)
  moreover have "keeps (\<lambda>s. exec_with {} N s \<and> still_live rows s) (thn (atomic (each_op (interrupt env) rows)) (ret (length rows)))" for rows
    by (intro keeps_thn keeps_atomic keeps_each_in keeps_interrupt) simp_all
  ultimately show "exec_with {} N (fst (recover env s))"
    using s unfolding recover_def keeps_def ask_then by simp
qed

section \<open>The launch of an attempt\<close>

lemma keeps_atomic_yields:
  assumes "yields I m J" and "\<And>s. J s \<Longrightarrow> I s"
  shows "keeps I (atomic m)"
proof (rule keepsI)
  fix s assume s: "I s"
  show "I (fst (atomic m s))"
  proof (cases "m s")
    case (Pair t r)
    then show ?thesis using assms s by (cases r) (auto simp: atomic_def dest: yieldsD)
  qed
qed

definition steady_launch :: "launch_deps \<Rightarrow> bool" where
  "steady_launch D = ((\<forall>t. steady (ld_admission D t)) \<and> (\<forall>i a. steady (ld_bind_review D i a)))"

text \<open>A step that is taken runs, and no attempt of it is live yet.\<close>

definition taken :: "(string \<times> string) set \<Rightarrow> string \<Rightarrow> store \<Rightarrow> bool" where
  "taken P stp s = (exec_with P {stp} s \<and> (\<exists>r \<in> set (steps s). st_id r = stp \<and> hosting (st_state r)))"

lemma take_step_taken: "yields (exec_with P {}) (take_step stp) (taken P stp)"
proof (rule yieldsI)
  fix s t x assume s: "exec_with P {} s" and run: "take_step stp s = (t, Ok x)"
  from run obtain r where r: "r \<in> set (steps s)" "st_id r = stp" "st_state r = ''pending''"
    and t: "t = set_step_state (\<lambda>r. st_id r = stp \<and> st_state r = ''pending'') ''running'' s"
    by (auto simp: take_step_def require_state_def runs exists_row_def list_ex_iff)
  have "idle (attempts s) stp" using exec_with_idle [OF s r(1)] r by (simp add: hosting_def)
  then have "exec_with P {stp} s" using s by (simp add: exec_with_def)
  then have "exec_with P {stp} t"
    unfolding t by (rule exec_with_step_state) (simp add: hosting_def)
  moreover have "r\<lparr>st_state := ''running''\<rparr> \<in> set (steps t)"
    using r by (force simp: t set_step_state_def update_rows_def)
  ultimately show "taken P stp t" using r(2) unfolding taken_def by (intro conjI bexI) (auto simp: hosting_def)
qed

lemma new_attempt_runs:
  assumes "taken P (attempt_row.at_step a) s" and "at_id a \<notin> at_id ` set (attempts s)" and "at_state a = ''running''"
  shows "exec_with (insert (at_id a, attempt_row.at_step a) P) {} (s\<lparr>attempts := attempts s @ [a]\<rparr>)"
proof -
  have "exec_ok (steps s) (attempts s @ [a])"
    using assms by (intro exec_ok_new_attempt) (auto simp: taken_def exec_with_def idle_def)
  moreover have "running_set (attempts s @ [a]) = insert (at_id a, attempt_row.at_step a) (running_set (attempts s))"
    using assms(3) by (auto simp: running_set_def)
  ultimately show ?thesis using assms(1) by (auto simp: taken_def exec_with_def)
qed

lemma begin_tx_exec:
  assumes D: "steady_launch D"
  shows "yields (exec_with P {}) (begin_tx env D attempt worker oid stp b) (exec_with (insert (attempt, stp) P) {})"
proof -
  have insert: "yields (taken P stp) (insert_unique at_id attempts attempts_update
            \<lparr>at_id = attempt, at_step = stp, at_worker = Some worker, at_state = ''running'', at_started = now env,
             at_finished = None, at_pid = None, at_result = None, at_usage = None\<rparr>)
      (exec_with (insert (attempt, stp) P) {})"
  proof (rule yields_insert_unique)
    fix s assume "taken P stp s" and "at_id \<lparr>at_id = attempt, at_step = stp, at_worker = Some worker, at_state = ''running'', at_started = now env,
             at_finished = None, at_pid = None, at_result = None, at_usage = None\<rparr> \<notin> at_id ` set (attempts s)"
    then show "exec_with (insert (attempt, stp) P) {} (attempts_update (\<lambda>rs. rs @
        [\<lparr>at_id = attempt, at_step = stp, at_worker = Some worker, at_state = ''running'', at_started = now env,
             at_finished = None, at_pid = None, at_result = None, at_usage = None\<rparr>]) s)"
      using new_attempt_runs [of P "\<lparr>at_id = attempt, at_step = stp, at_worker = Some worker, at_state = ''running'', at_started = now env,
             at_finished = None, at_pid = None, at_result = None, at_usage = None\<rparr>" s] by (simp add: exec_with_def)
  qed
  have bind: "steady (ld_bind_review D stp attempt)" using D by (simp add: steady_launch_def)
  show ?thesis
    unfolding begin_tx_def
    by (intro yields_thn [OF yields_keeps] yields_thn [OF take_step_taken] yields_thn [OF insert] yields_keeps keeps_rules
        steady_keeps [OF steady_eligible] steady_keeps [OF steady_reserve] steady_keeps [OF steady_record_dispatch]
        steady_keeps [OF bind]; simp add: require_state_def mark_dispatched_def)
qed

lemma steady_take_worker: "steady (take_worker env wid token oid stp)"
  unfolding take_worker_def
  by (rule steadyI, intro keeps_rules steady_keeps [OF steady_register]; simp)

lemma begin_attempt_exec:
  assumes D: "steady_launch D"
  shows "yields (exec_with P {}) (begin_attempt env D attempt wid token oid stp b) (exec_with (insert (attempt, stp) P) {})"
    and "keeps (exec_with P {}) (begin_attempt env D attempt wid token oid stp b)"
proof -
  have adm: "steady (ld_admission D oid)" using D by (simp add: steady_launch_def)
  have admit: "keeps (exec_with P {}) (bnd (ld_admission D oid) (\<lambda>ok. guard ok ''disk admission unavailable''))"
    by (intro keeps_rules steady_keeps [OF adm])
  show "yields (exec_with P {}) (begin_attempt env D attempt wid token oid stp b) (exec_with (insert (attempt, stp) P) {})"
    unfolding begin_attempt_def
    by (rule yields_thn [OF yields_keeps [OF admit]], rule yields_bnd [OF yields_keeps [OF steady_keeps [OF steady_take_worker]]],
        rule yields_thn [OF yields_atomic [OF begin_tx_exec [OF D]]], rule yields_keeps, simp)
  have "keeps (exec_with P {}) (atomic (begin_tx env D attempt w oid stp b))" for w
    by (rule keeps_atomic_yields [OF begin_tx_exec [OF D]]) (auto intro: exec_with_weaken)
  then show "keeps (exec_with P {}) (begin_attempt env D attempt wid token oid stp b)"
    unfolding begin_attempt_def
    by (intro keeps_thn [OF admit] keeps_bnd [OF steady_keeps [OF steady_take_worker]] keeps_thn keeps_ret)
qed

end
