(* ===== verification/Execution_Rounds.thy ===== *)
theory Execution_Rounds
  imports Execution_Facts
begin

text \<open>
  The invariant of executions over the daemon's state: the store together with the map of running
  attempts. Every part of a round keeps it, and so does everything else that touches steps or
  attempts: the operations of callers, the review step of the pass over previews, and writers that are
  not modelled as long as they spare the executions (\<open>spared\<close>).
\<close>

section \<open>The invariant of the daemon\<close>

text \<open>An entry whose result is still to be recorded; its attempt must run.\<close>

definition open_entry :: "active_attempt \<Rightarrow> bool" where
  "open_entry a = (unfinished (av_handle a) \<or> av_handle a = Completed False \<or> av_failure a \<noteq> None)"

definition open_pairs :: "active_attempt list \<Rightarrow> (string \<times> string) set" where
  "open_pairs as = {(av_attempt a, av_step a) | a. a \<in> set as \<and> open_entry a}"

definition unfailed :: "active_attempt \<Rightarrow> bool" where
  "unfailed a = (av_handle a = Executing \<longrightarrow> av_failure a = None)"

definition daemon_ok :: "sched \<Rightarrow> bool" where
  "daemon_ok c = (distinct (map av_step (sc_running c)) \<and> (\<forall>a \<in> set (sc_running c). unfailed a) \<and>
     exec_with (open_pairs (sc_running c)) {} (sc_store c))"

lemma open_pairs_mono: "set as \<subseteq> set bs \<Longrightarrow> open_pairs as \<subseteq> open_pairs bs"
  by (auto simp: open_pairs_def)

text \<open>An operation on the store alone.\<close>

lemma keeps_lift: "(\<And>P. keeps (exec_with P {}) m) \<Longrightarrow> keeps daemon_ok (lift m)"
  by (auto simp: keeps_def lift_def daemon_ok_def split: prod.split) (metis fst_conv)

lemma keeps_steady_lift [keeps_rules]: "steady m \<Longrightarrow> keeps daemon_ok (lift m)"
  by (rule keeps_lift) (rule steady_keeps)

lemma lift_store: "lift m c = (d, r) \<longleftrightarrow> (\<exists>t. m (sc_store c) = (t, r) \<and> d = c\<lparr>sc_store := t\<rparr>)"
  by (auto simp: lift_def split: prod.split)

lemma steady_ask: "steady (ask_state f)"
  by (rule steadyI) simp

section \<open>Aborting\<close>

lemma steady_cancelled_now: "steady (cancelled_now env a)"
proof -
  have "steady (try_op (revoked env (av_step a)))"
    by (rule steadyI) (rule steady_try [OF steady_revoked])
  note r = steady_keeps [OF this]
  show ?thesis unfolding cancelled_now_def by (rule steadyI, intro keeps_rules r)
qed

text \<open>The entries of \<open>U\<close> have not finished.\<close>

definition abortable :: "string set \<Rightarrow> sched \<Rightarrow> bool" where
  "abortable U c = (daemon_ok c \<and> (\<forall>x \<in> set (sc_running c). av_step x \<in> U \<longrightarrow> unfinished (av_handle x)))"

lemma set_active_unfailed:
  assumes "\<forall>a \<in> set (sc_running c). unfailed a" and "\<And>x. unfailed x \<Longrightarrow> unfailed (f x)"
  shows "\<forall>a \<in> set (sc_running (set_active stp f c)). unfailed a"
  using assms by (auto simp: set_active_def update_rows_def)

lemma set_active_steps:
  assumes "\<And>x. av_step (f x) = av_step x"
  shows "map av_step (sc_running (set_active stp f c)) = map av_step (sc_running c)"
  using assms by (auto simp: set_active_def update_rows_def)

lemma keeps_abort:
  assumes "stp \<in> U"
  shows "keeps (abortable U) (modify (set_active stp abort))"
proof (rule keeps_modify)
  fix c assume c: "abortable U c"
  have "open_pairs (sc_running (set_active stp abort c)) \<subseteq> open_pairs (sc_running c)"
  proof
    fix q assume "q \<in> open_pairs (sc_running (set_active stp abort c))"
    then obtain a where a: "a \<in> set (update_rows (\<lambda>a. av_step a = stp) abort (sc_running c))" "open_entry a"
        "q = (av_attempt a, av_step a)"
      by (auto simp: open_pairs_def set_active_def)
    from a(1) show "q \<in> open_pairs (sc_running c)"
    proof (rule update_rowsE)
      assume "a \<in> set (sc_running c)"
      then show ?thesis using a by (auto simp: open_pairs_def)
    next
      fix b assume b: "b \<in> set (sc_running c)" "av_step b = stp" "a = abort b"
      then have "unfinished (av_handle b)" using c assms by (simp add: abortable_def)
      then show ?thesis using b a(3) by (auto simp: open_pairs_def open_entry_def abort_def)
    qed
  qed
  then have "daemon_ok (set_active stp abort c)"
    using c set_active_steps [of abort stp c] set_active_unfailed [of c abort stp]
    by (auto simp: abortable_def daemon_ok_def abort_def unfailed_def set_active_def intro: exec_with_weaken)
  moreover have "unfinished (av_handle x)" if "x \<in> set (sc_running (set_active stp abort c))" "av_step x \<in> U" for x
    using that c by (auto simp: set_active_def abort_def unfinished_def abortable_def elim!: update_rowsE)
  ultimately show "abortable U (set_active stp abort c)" by (simp add: abortable_def)
qed

lemma abort_cancelled_abortable:
  assumes "\<And>a. a \<in> set as \<Longrightarrow> unfinished (av_handle a) \<Longrightarrow> av_step a \<in> U"
  shows "keeps (abortable U) (abort_cancelled env as)"
  using assms
proof (induction as)
  case Nil
  then show ?case by simp
next
  case (Cons a as)
  have read: "keeps (abortable U) (lift (cancelled_now env a))"
  proof (rule keepsI)
    fix c assume "abortable U c"
    moreover have "sc_running (fst (lift (cancelled_now env a) c)) = sc_running c"
      by (simp add: lift_def split: prod.split)
    ultimately show "abortable U (fst (lift (cancelled_now env a) c))"
      using keeps_steady_lift [OF steady_cancelled_now, of env a] by (simp add: abortable_def keeps_def)
  qed
  show ?case
  proof (cases "unfinished (av_handle a)")
    case True
    then show ?thesis using Cons by (auto intro!: keeps_bnd [OF read] keeps_thn keeps_when keeps_abort)
  next
    case False
    have "abort_cancelled env (a # as) = thn (abort_cancelled env as) (ret ())"
      using False by (simp add: cancelled_now_def lift_def ret_def bnd_def thn_def when_op_def fun_eq_iff split: prod.split)
    then show ?thesis using Cons by (auto intro!: keeps_thn)
  qed
qed

lemma abort_round_ok: "keeps daemon_ok (bnd (ask_state (\<lambda>c. Ok (sc_running c))) (abort_cancelled env))"
proof (rule keepsI)
  fix c assume c: "daemon_ok c"
  let ?U = "av_step ` {a \<in> set (sc_running c). unfinished (av_handle a)}"
  have "abortable ?U c"
    using c by (auto simp: abortable_def daemon_ok_def distinct_map dest: inj_onD)
  then have "abortable ?U (fst (abort_cancelled env (sc_running c) c))"
    using abort_cancelled_abortable [of "sc_running c" ?U env] by (simp add: keeps_def)
  then show "daemon_ok (fst (bnd (ask_state (\<lambda>c. Ok (sc_running c))) (abort_cancelled env) c))"
    by (simp add: ask_then abortable_def)
qed

section \<open>Reaping\<close>

lemma thn_modify: "thn (modify f) n c = n (f c)"
  by (simp add: thn_def bnd_def modify_def)

lemma take_handle_open: "open_entry (take_handle a) \<longleftrightarrow> av_failure a \<noteq> None \<or> av_handle a = Completed False"
  by (auto simp: open_entry_def take_handle_def unfinished_def)

lemma take_handle_ids [simp]:
  "av_step (take_handle a) = av_step a" "av_attempt (take_handle a) = av_attempt a" "av_worker (take_handle a) = av_worker a"
  by (simp_all add: take_handle_def)

text \<open>An update of one entry that opens nothing and takes some pairs away.\<close>

lemma daemon_ok_update:
  assumes c: "distinct (map av_step (sc_running c))" and s: "exec_with (open_pairs (sc_running c) - Q) {} (sc_store c)"
    and ids: "\<And>x. av_step (f x) = av_step x \<and> av_attempt (f x) = av_attempt x"
    and less: "\<And>x. x \<in> set (sc_running c) \<Longrightarrow> av_step x = stp \<Longrightarrow> open_entry (f x) \<Longrightarrow> open_entry x \<and> (av_attempt x, stp) \<notin> Q"
    and other: "\<And>x. x \<in> set (sc_running c) \<Longrightarrow> av_step x \<noteq> stp \<Longrightarrow> (av_attempt x, av_step x) \<notin> Q"
    and fine: "\<forall>a \<in> set (sc_running c). unfailed a" "\<And>x. unfailed x \<Longrightarrow> unfailed (f x)"
  shows "daemon_ok (set_active stp f c)"
proof -
  have "open_pairs (sc_running (set_active stp f c)) \<subseteq> open_pairs (sc_running c) - Q"
  proof
    fix q assume "q \<in> open_pairs (sc_running (set_active stp f c))"
    then obtain a where a: "a \<in> set (update_rows (\<lambda>a. av_step a = stp) f (sc_running c))" "open_entry a"
        "q = (av_attempt a, av_step a)"
      by (auto simp: open_pairs_def set_active_def)
    from a(1) show "q \<in> open_pairs (sc_running c) - Q"
    proof (rule update_rowsE)
      assume "a \<in> set (sc_running c)" "av_step a \<noteq> stp"
      then show ?thesis using a other [of a] by (auto simp: open_pairs_def)
    next
      fix b assume b: "b \<in> set (sc_running c)" "av_step b = stp" "a = f b"
      then show ?thesis using a(2,3) less [OF b(1,2)] ids [of b] by (auto simp: open_pairs_def)
    qed
  qed
  then show ?thesis
    using c s set_active_steps [of f stp c] set_active_unfailed [OF fine] ids
    by (auto simp: daemon_ok_def set_active_def intro: exec_with_weaken)
qed

lemma take_handle_ok: "daemon_ok c \<Longrightarrow> daemon_ok (set_active stp take_handle c)"
  by (rule daemon_ok_update [where Q = "{}"]) (simp_all add: daemon_ok_def take_handle_open, auto simp: open_entry_def unfailed_def take_handle_def)

lemma active_unique:
  "daemon_ok c \<Longrightarrow> a \<in> set (sc_running c) \<Longrightarrow> b \<in> set (sc_running c) \<Longrightarrow> av_step a = av_step b \<Longrightarrow> a = b"
  by (auto simp: daemon_ok_def distinct_map dest: inj_onD)

text \<open>The result of an aborted or failed execution is recorded once.\<close>

lemma recorded_ok:
  assumes c: "daemon_ok c" and a: "a \<in> set (sc_running c)" "open_entry a" "\<not> open_entry (f a)"
    and f: "\<And>x. av_step (f x) = av_step x \<and> av_attempt (f x) = av_attempt x" "\<And>x. unfailed x \<Longrightarrow> unfailed (f x)"
    and run: "finish_ref env (av_step a) (av_attempt a) w res (sc_store c) = (t, Ok u)"
  shows "daemon_ok (set_active (av_step a) f (c\<lparr>sc_store := t\<rparr>))"
proof -
  let ?d = "c\<lparr>sc_store := t\<rparr>"
  have "(av_attempt a, av_step a) \<in> open_pairs (sc_running c)" using a by (auto simp: open_pairs_def)
  then have "(av_attempt a, av_step a) \<in> running_set (attempts (sc_store c))"
    using c by (auto simp: daemon_ok_def exec_with_def)
  with finish_ref_exec [OF run] c have "exec_with (open_pairs (sc_running c) - {(av_attempt a, av_step a)}) {av_step a} t"
    by (simp add: daemon_ok_def)
  then have s: "exec_with (open_pairs (sc_running ?d) - {(av_attempt a, av_step a)}) {} (sc_store ?d)"
    by (auto intro: exec_with_weaken)
  show ?thesis
  proof (rule daemon_ok_update [OF _ s f(1)])
    show "distinct (map av_step (sc_running ?d))" "\<forall>a \<in> set (sc_running ?d). unfailed a" using c by (simp_all add: daemon_ok_def)
    show "open_entry x \<and> (av_attempt x, av_step a) \<notin> {(av_attempt a, av_step a)}"
      if "x \<in> set (sc_running ?d)" "av_step x = av_step a" "open_entry (f x)" for x
      using active_unique [OF c _ a(1), of x] that a(3) by simp
  qed (use f(2) in auto)
qed

lemma drop_entry_ok: "daemon_ok c \<Longrightarrow> daemon_ok (c\<lparr>sc_running := filter p (sc_running c)\<rparr>)"
  using open_pairs_mono [of "filter p (sc_running c)" "sc_running c"]
  by (auto simp: daemon_ok_def distinct_map_filter intro: exec_with_weaken)

lemma reap_ok:
  assumes c: "daemon_ok c" and a: "a \<in> set (sc_running c)"
  shows "daemon_ok (fst (reap env call a c))"
proof -
  let ?c = "set_active (av_step a) take_handle c"
  have c1: "daemon_ok ?c" by (rule take_handle_ok [OF c])
  have mem: "take_handle a \<in> set (sc_running ?c)"
    using a by (auto simp: set_active_def update_rows_def)
  have rest: "keeps daemon_ok (thn (lift (release_step (av_step a)))
     (thn (lift (release_remote call (av_step a)))
          (modify (\<lambda>c. c\<lparr>sc_running := filter (\<lambda>x. av_step x \<noteq> av_step a) (sc_running c)\<rparr>))))"
    by (intro keeps_thn keeps_steady_lift steady_quiet steady_release_remote keeps_modify drop_entry_ok)
  have start: "reap env call a c = thn (case av_failure (take_handle a) of None \<Rightarrow> ret ()
           | Some m \<Rightarrow>
               thn (lift (finish_ref env (av_step a) (av_attempt a) (av_worker a) (Inl (OtherFailure m))))
                   (modify (set_active (av_step a) (\<lambda>x. x\<lparr>av_failure := None\<rparr>))))
      (thn (lift (release_step (av_step a)))
     (thn (lift (release_remote call (av_step a)))
          (modify (\<lambda>c. c\<lparr>sc_running := filter (\<lambda>x. av_step x \<noteq> av_step a) (sc_running c)\<rparr>)))) ?c"
    unfolding reap_def Let_def take_handle_ids by (rule thn_modify)
  show ?thesis
  proof (cases "av_failure (take_handle a)")
    case None
    then show ?thesis using c1 rest unfolding start keeps_def by simp
  next
    case (Some m)
    have taken: "open_entry (take_handle a)" "av_handle (take_handle a) = Taken"
      using Some by (simp_all add: open_entry_def take_handle_def)
    obtain d r where run: "lift (finish_ref env (av_step a) (av_attempt a) (av_worker a) (Inl (OtherFailure m))) ?c = (d, r)"
      by (cases "lift (finish_ref env (av_step a) (av_attempt a) (av_worker a) (Inl (OtherFailure m))) ?c")
    show ?thesis
    proof (cases r)
      case (Inl e)
      then obtain t where "finish_ref env (av_step a) (av_attempt a) (av_worker a) (Inl (OtherFailure m)) (sc_store ?c) = (t, Err e)"
          "d = ?c\<lparr>sc_store := t\<rparr>"
        using run by (auto simp: lift_store)
      then have "d = ?c" using finish_ref_Err by force
      then show ?thesis using c1 run Inl Some unfolding start by (simp add: thn_def bnd_def)
    next
      case (Inr u)
      have "daemon_ok (set_active (av_step a) (\<lambda>x. x\<lparr>av_failure := None\<rparr>) d)"
        using recorded_ok [OF c1 mem taken(1), of "\<lambda>x. x\<lparr>av_failure := None\<rparr>"] run Inr taken(2)
        by (auto simp: lift_store open_entry_def unfinished_def unfailed_def)
      then show ?thesis
        using rest run Inr Some unfolding start keeps_def by (simp add: thn_def bnd_def modify_def)
    qed
  qed
qed

lemma reap_drops:
  assumes "reap env call a c = (d, Ok u)"
  shows "sc_running d = filter (\<lambda>x. av_step x \<noteq> av_step a) (sc_running c)"
proof -
  have same: "sc_running t = sc_running s" if "lift m s = (t, r)" for m :: "(store, 'x) oper" and s t r
    using that by (auto simp: lift_store)
  have quiet: "sc_running (set_active i f s) = update_rows (\<lambda>a. av_step a = i) f (sc_running s)" for i f s
    by (simp add: set_active_def)
  have drop: "filter (\<lambda>x. av_step x \<noteq> i) (update_rows (\<lambda>a. av_step a = i) f xs) = filter (\<lambda>x. av_step x \<noteq> i) xs"
    if "\<And>x. av_step (f x) = av_step x" for i f and xs :: "active_attempt list"
    using that by (induction xs) (auto simp: update_rows_def)
  show ?thesis
    using assms unfolding reap_def Let_def take_handle_ids
    by (auto simp: thn_run modify_run ret_run quiet drop dest!: same split: option.splits)
qed

lemma reap_all_ok:
  assumes "daemon_ok c" and "set as \<subseteq> set (sc_running c)" and "distinct (map av_step as)"
  shows "daemon_ok (fst (each_op (reap env call) as c))"
  using assms
proof (induction as arbitrary: c)
  case Nil
  then show ?case by (simp add: ret_def)
next
  case (Cons a as)
  obtain d r where run: "reap env call a c = (d, r)" by (cases "reap env call a c")
  have d: "daemon_ok d" using reap_ok [OF Cons.prems(1), of a env call] Cons.prems(2) run by simp
  show ?case
  proof (cases r)
    case (Inl e)
    then show ?thesis using run d by (simp add: thn_def bnd_def)
  next
    case (Inr u)
    have "set as \<subseteq> set (filter (\<lambda>x. av_step x \<noteq> av_step a) (sc_running c))"
    proof
      fix x assume x: "x \<in> set as"
      then have "av_step x \<in> av_step ` set as" by (rule imageI)
      then have "av_step x \<noteq> av_step a" using Cons.prems(3) by auto
      then show "x \<in> set (filter (\<lambda>x. av_step x \<noteq> av_step a) (sc_running c))" using x Cons.prems(2) by auto
    qed
    then have "set as \<subseteq> set (sc_running d)"
      using reap_drops [of env call a c d u] run Inr by simp
    then show ?thesis using Cons.IH [OF d] Cons.prems(3) run Inr by (simp add: thn_def bnd_def)
  qed
qed

lemma reap_finished_ok: "keeps daemon_ok (reap_finished env call)"
proof (rule keepsI)
  fix c assume c: "daemon_ok c"
  have "distinct (map av_step (filter (\<lambda>a. \<not> unfinished (av_handle a)) (sc_running c)))"
    using c by (simp add: daemon_ok_def distinct_map_filter)
  then show "daemon_ok (fst (reap_finished env call c))"
    using reap_all_ok [OF c, of "filter (\<lambda>a. \<not> unfinished (av_handle a)) (sc_running c)" env call]
    by (auto simp: reap_finished_def ask_then)
qed

section \<open>What other parts of the daemon may write\<close>

text \<open>
  Other writers spare the executions: they keep the identity, step and state of every attempt (a
  process id or the usage may change), keep every step, add only steps with new ids, and change
  the state only of steps without a live attempt. Passes that only append a review step, the
  outcome of a task that runs on another runtime (whose steps have no attempts here, as
  \<^verbatim>\<open>route_queued\<close> in src/src/federation/placement.rs checks before it hands a task over)
  and the recovery of a failed step (src/src/run/recover.rs) are such writers.
\<close>

definition attempt_view :: "attempt_row \<Rightarrow> string \<times> string \<times> string" where
  "attempt_view a = (at_id a, attempt_row.at_step a, at_state a)"

definition spared :: "store \<Rightarrow> store \<Rightarrow> bool" where
  "spared s t =
     (map attempt_view (attempts t) = map attempt_view (attempts s) \<and>
      (distinct (map st_id (steps s)) \<longrightarrow> distinct (map st_id (steps t))) \<and>
      (\<forall>r \<in> set (steps s). \<exists>q \<in> set (steps t). st_id q = st_id r \<and>
         (st_state q = st_state r \<or> idle (attempts s) (st_id r))))"

definition spares :: "(store, 'a) oper \<Rightarrow> bool" where
  "spares m = (\<forall>s. spared s (fst (m s)))"

lemma spared_refl [simp]: "spared s s"
  by (auto simp: spared_def)

lemma views_member:
  assumes "map attempt_view as = map attempt_view bs" and "a \<in> set as"
  shows "\<exists>b \<in> set bs. at_id b = at_id a \<and> attempt_row.at_step b = attempt_row.at_step a \<and> at_state b = at_state a"
proof -
  have "attempt_view a \<in> attempt_view ` set bs"
    using assms by (metis image_eqI set_map)
  then show ?thesis by (auto simp: attempt_view_def)
qed

lemma views_idle_one:
  assumes "map attempt_view as = map attempt_view bs" and "idle bs i"
  shows "idle as i"
  unfolding idle_def
proof (intro ballI)
  fix a assume "a \<in> set as"
  from views_member [OF assms(1) this] obtain b where "b \<in> set bs"
    "attempt_row.at_step b = attempt_row.at_step a" "at_state b = at_state a" by blast
  then show "live_state (at_state a) \<longrightarrow> attempt_row.at_step a \<noteq> i" using assms(2) by (auto simp: idle_def)
qed

lemma views_idle: "map attempt_view as = map attempt_view bs \<Longrightarrow> idle as i = idle bs i"
  using views_idle_one [of as bs i] views_idle_one [of bs as i] by auto

lemma spared_trans:
  assumes st: "spared s t" and tu: "spared t u"
  shows "spared s u"
proof -
  have "\<exists>q \<in> set (steps u). st_id q = st_id r \<and> (st_state q = st_state r \<or> idle (attempts s) (st_id r))"
    if r: "r \<in> set (steps s)" for r
  proof -
    obtain q where q: "q \<in> set (steps t)" "st_id q = st_id r" "st_state q = st_state r \<or> idle (attempts s) (st_id r)"
      using st r by (auto simp: spared_def)
    obtain p where p: "p \<in> set (steps u)" "st_id p = st_id q" "st_state p = st_state q \<or> idle (attempts t) (st_id q)"
      using tu q(1) by (auto simp: spared_def)
    have "idle (attempts t) (st_id q) = idle (attempts s) (st_id q)"
      using st by (intro views_idle) (simp add: spared_def)
    with p q show ?thesis by metis
  qed
  then show ?thesis using st tu by (simp add: spared_def)
qed

lemma spared_exec:
  assumes st: "spared s t" and s: "exec_with P N s"
  shows "exec_with P N t"
proof -
  have v: "map attempt_view (attempts t) = map attempt_view (attempts s)" using st by (simp add: spared_def)
  note to_s = views_member [OF v] and to_t = views_member [OF v [symmetric]]
  have ids: "map at_id (attempts t) = map at_id (attempts s)"
    using arg_cong [OF v, of "map fst"] by (simp add: attempt_view_def o_def)
  have ok: "exec_ok (steps s) (attempts s)" using s by (simp add: exec_with_def)
  have "hosted (steps t) (attempts t)"
    unfolding hosted_def
  proof (intro ballI impI)
    fix a assume a: "a \<in> set (attempts t)" "live_state (at_state a)"
    from to_s [OF a(1)] obtain b where b: "b \<in> set (attempts s)" "attempt_row.at_step b = attempt_row.at_step a" "at_state b = at_state a"
      by blast
    obtain r where r: "r \<in> set (steps s)" "st_id r = attempt_row.at_step b" "hosting (st_state r)"
      using ok a(2) b by (auto simp: exec_ok_def hosted_def)
    obtain q where q: "q \<in> set (steps t)" "st_id q = st_id r" "st_state q = st_state r \<or> idle (attempts s) (st_id r)"
      using st r(1) by (auto simp: spared_def)
    have "\<not> idle (attempts s) (st_id r)" using a(2) b r(2) unfolding idle_def by metis
    then show "\<exists>r \<in> set (steps t). st_id r = attempt_row.at_step a \<and> hosting (st_state r)" using q r b by auto
  qed
  moreover have "single_live (attempts t)"
    unfolding single_live_def
  proof (intro ballI impI)
    fix a b assume ab: "a \<in> set (attempts t)" "b \<in> set (attempts t)"
      "live_state (at_state a) \<and> live_state (at_state b) \<and> attempt_row.at_step a = attempt_row.at_step b"
    obtain a' b' where "a' \<in> set (attempts s)" "at_id a' = at_id a" "attempt_row.at_step a' = attempt_row.at_step a" "at_state a' = at_state a"
      "b' \<in> set (attempts s)" "at_id b' = at_id b" "attempt_row.at_step b' = attempt_row.at_step b" "at_state b' = at_state b"
      using to_s [OF ab(1)] to_s [OF ab(2)] by blast
    then show "at_id a = at_id b" using ok ab(3) unfolding exec_ok_def single_live_def by metis
  qed
  moreover have "distinct (map st_id (steps t))" using st ok by (simp add: spared_def exec_ok_def)
  moreover have "P \<subseteq> running_set (attempts t)"
  proof
    fix p assume "p \<in> P"
    then have "p \<in> running_set (attempts s)" using s by (auto simp: exec_with_def)
    then obtain a where "a \<in> set (attempts s)" "p = (at_id a, attempt_row.at_step a)" "at_state a = ''running''"
      by (auto simp: running_set_def)
    moreover from to_t [OF this(1)] obtain b where "b \<in> set (attempts t)" "at_id b = at_id a"
      "attempt_row.at_step b = attempt_row.at_step a" "at_state b = at_state a" by blast
    ultimately show "p \<in> running_set (attempts t)" by (auto simp: running_set_def intro!: exI [of _ b])
  qed
  moreover have "\<forall>i \<in> N. idle (attempts t) i" using s views_idle [OF v] by (simp add: exec_with_def)
  ultimately show ?thesis using ok ids by (simp add: exec_with_def exec_ok_def)
qed

lemma spares_steady: "spares m \<Longrightarrow> steady m"
  by (auto simp: spares_def steady_def keeps_def intro: spared_exec)

lemma leaves_spares: "leaves execution_rows m \<Longrightarrow> spares m"
  by (simp add: spares_def leaves_def spared_def) blast

text \<open>The review that the pass over previews appends is such a write.\<close>

lemma spared_same: "steps t = steps s \<Longrightarrow> attempts t = attempts s \<Longrightarrow> spared s t"
  by (auto simp: spared_def)

lemma keeps_spared: "spares m \<Longrightarrow> keeps (spared s0) m"
  by (auto simp: spares_def keeps_def intro: spared_trans)

lemma spared_new_step: "st_id r \<notin> st_id ` set (steps s) \<Longrightarrow> spared s (steps_update (\<lambda>rs. rs @ [r]) s)"
  by (auto simp: spared_def)

lemma keeps_spared_insert: "keeps (spared s0) (insert_unique st_id steps steps_update r)"
  by (auto simp: keeps_def insert_unique_def intro: spared_trans spared_new_step)

lemma keeps_spared_steps: "keeps (spared s0) (insert_steps F i oid ps)"
  by (induction ps arbitrary: i)
    (auto simp: require_state_def intro!: keeps_thn keeps_spared_insert)

lemma keeps_spared_modify:
  assumes "\<And>s. steps (f s) = steps s" and "\<And>s. attempts (f s) = attempts s"
  shows "keeps (spared s0) (modify f)"
  by (rule keeps_modify, erule spared_trans, rule spared_same) (rule assms)+

lemma keeps_spared_event: "keeps (spared s0) (event env task kind data)"
  by (rule keeps_event, erule spared_trans, rule spared_same) simp_all

lemma spares_schedule_review:
  assumes "\<And>t ps. spares (rd_revise_child D t ps)"
  shows "spares (schedule_review env D like salt F oid review_step)"
proof -
  have revision: "keeps (spared s0) (save_revision oid n p)" for s0 n p
    unfolding save_revision_def by (rule keeps_insert_unique) (erule spared_trans, rule spared_same, simp_all)
  have acceptance: "keeps (spared s0) (invalidate_acceptance oid)" for s0
    unfolding invalidate_acceptance_def
    by (intro keeps_thn keeps_spared_modify) (simp_all add: set_task_status_def)
  have adding: "keeps (spared s0) (add_steps env D F oid added)" for s0 added
    unfolding add_steps_def add_steps_tx_def Let_def
    by (intro keeps_bnd keeps_thn keeps_ask keeps_option keeps_ret keeps_atomic keeps_spared [OF assms] keeps_spared_steps
        keeps_spared_event keeps_spared_modify revision acceptance) (simp_all add: set_plan_def)
  have "keeps (spared s0) (schedule_review env D like salt F oid review_step)" for s0
    unfolding schedule_review_def Let_def
    by (intro keeps_bnd keeps_thn keeps_ask keeps_guard keeps_spared_event adding)
  then show ?thesis by (simp add: spares_def keeps_def)
qed

section \<open>Launching\<close>

text \<open>What surrounds a round spares the executions; the pass over previews may add steps.\<close>

definition quiet_round :: "round_deps \<Rightarrow> bool" where
  "quiet_round R =
     ((\<forall>t. spares (ld_admission (rn_launch R) t)) \<and>
      (\<forall>i a. spares (ld_bind_review (rn_launch R) i a)) \<and>
      (\<forall>t ps. spares (rd_revise_child (rn_revision R) t ps)) \<and>
      spares (rn_previews R) \<and>
      (\<forall>t. spares (rn_route R t)) \<and>
      (\<forall>t r. spares (rn_prepare_review R t r)) \<and>
      (\<forall>v. spares (rn_receive R v)))"

lemma quiet_round_steady:
  assumes "quiet_round R"
  shows "steady_launch (rn_launch R)" "steady_revision (rn_revision R)" "steady (rn_previews R)" "steady (rn_route R t)"
    "steady (rn_prepare_review R t r)" "steady (rn_receive R v)" "steady (ld_admission (rn_launch R) t)"
  using assms by (auto simp: quiet_round_def steady_launch_def steady_revision_def intro: spares_steady)

lemma steady_give_back: "steady (give_back env call task stp reason row)"
  unfolding give_back_def by (rule steadyI, intro keeps_rules steady_keeps [OF steady_release_remote])

lemma keeps_received:
  assumes m: "keeps I m" and "\<And>e. keeps I (f e)" "\<And>x. keeps I (g x)"
  shows "keeps I (\<lambda>s. (case (if b then (s, Ok ()) else m s) of (t, Inl e) \<Rightarrow> f e t | (t, Inr x) \<Rightarrow> g x t))"
proof (rule keepsI)
  fix s assume s: "I s"
  obtain t r where r: "(if b then (s, Ok ()) else m s) = (t, r)" by (cases "if b then (s, Ok ()) else m s")
  then have "I t" using s m by (cases b) (auto simp: keeps_def dest!: spec [of _ s])
  then show "I (fst (case (if b then (s, Ok ()) else m s) of (t, Inl e) \<Rightarrow> f e t | (t, Inr x) \<Rightarrow> g x t))"
    using assms(2,3) r by (cases r) (simp_all add: keeps_def)
qed

lemma steady_acquire_remote:
  assumes "\<And>v. steady (recv v)"
  shows "steady (acquire_remote env call recv fresh row)"
  unfolding acquire_remote_def Let_def
  by (rule steadyI, intro keeps_rules keeps_received steady_keeps [OF steady_give_back] steady_keeps [OF assms]; simp)

lemma steady_admit_step: "quiet_round R \<Longrightarrow> steady (admit_step env R cap oid sg busy)"
  unfolding admit_step_def
  by (rule steadyI, intro keeps_rules steady_keeps [OF steady_eligible] steady_keeps [OF quiet_round_steady(7)])

lemma steady_prepare_step: "steady (prepare_step env R oid sg busy r)"
  unfolding prepare_step_def block_on_claim_def
  by (rule steadyI, intro keeps_rules; simp)

lemma steady_hold_review:
  assumes "quiet_round R"
  shows "steady (hold_review env R oid r)"
  unfolding hold_review_def
  by (rule steadyI, intro keeps_rules steady_try steady_keeps [OF steady_release_remote] quiet_round_steady(5) [OF assms]; simp)

lemma lift_try_keeps: "(\<And>P. keeps (exec_with P {}) m) \<Longrightarrow> keeps daemon_ok (lift (try_op m))"
  by (rule keeps_lift) (auto simp: keeps_def try_op_def split: prod.split, metis fst_conv)

text \<open>A launch that succeeds enters its attempt into the map.\<close>

lemma launch_enters:
  assumes c: "daemon_ok c" and R: "quiet_round R"
    and run: "begin_step env R oid r row (sc_store c) = (t, Ok w)"
  shows "daemon_ok (start_handle (st_id r) oid (rn_attempt R (st_id r)) w (c\<lparr>sc_store := t\<rparr>))"
proof -
  have "yields (exec_with (open_pairs (sc_running c)) {}) (begin_step env R oid r row)
      (exec_with (insert (rn_attempt R (st_id r), st_id r) (open_pairs (sc_running c))) {})"
    unfolding begin_step_def
    by (rule yields_ask [where I' = "\<lambda>_. exec_with (open_pairs (sc_running c)) {}"], assumption,
        rule begin_attempt_exec(1) [OF quiet_round_steady(1) [OF R]])
  then have "exec_with (insert (rn_attempt R (st_id r), st_id r) (open_pairs (sc_running c))) {} t"
    using c run by (auto simp: daemon_ok_def dest: yieldsD)
  moreover have "open_pairs (sc_running (start_handle (st_id r) oid (rn_attempt R (st_id r)) w (c\<lparr>sc_store := t\<rparr>))) \<subseteq>
      insert (rn_attempt R (st_id r), st_id r) (open_pairs (sc_running c))"
    by (auto simp: open_pairs_def start_handle_def)
  moreover have "distinct (map av_step (sc_running (start_handle (st_id r) oid (rn_attempt R (st_id r)) w (c\<lparr>sc_store := t\<rparr>))))"
    using c by (auto simp: start_handle_def daemon_ok_def distinct_map_filter)
  moreover have "\<forall>a \<in> set (sc_running (start_handle (st_id r) oid (rn_attempt R (st_id r)) w (c\<lparr>sc_store := t\<rparr>))). unfailed a"
    using c by (simp add: start_handle_def daemon_ok_def unfailed_def)
  ultimately show ?thesis by (auto simp: daemon_ok_def start_handle_def intro: exec_with_weaken)
qed

lemma launch_step_ok:
  assumes R: "quiet_round R"
  shows "keeps daemon_ok (launch_step env R oid r row solo)"
proof (rule keepsI)
  fix c assume c: "daemon_ok c"
  let ?launch = "begin_step env R oid r row"
  have keeps: "keeps (exec_with P {}) ?launch" for P
    unfolding begin_step_def by (intro keeps_rules begin_attempt_exec(2) [OF quiet_round_steady(1) [OF R]])
  obtain t res where run: "?launch (sc_store c) = (t, res)" by (cases "?launch (sc_store c)")
  have t: "daemon_ok (c\<lparr>sc_store := t\<rparr>)"
    using keeps_lift [of ?launch, OF keeps] c run by (auto simp: keeps_def lift_def dest!: spec [of _ c])
  have unfold: "launch_step env R oid r row solo c =
     (case res of
       Inr worker \<Rightarrow> (start_handle (st_id r) oid (rn_attempt R (st_id r)) worker (c\<lparr>sc_store := t\<rparr>), Ok (Launched solo))
     | Inl e \<Rightarrow>
         thn (lift (release_remote (rn_call R) (st_id r)))
        (bnd (lift (ld_admission (rn_launch R) oid)) (\<lambda>ok.
         if \<not> ok then ret Stopped else (\<lambda>c. (c, Err e)))) (c\<lparr>sc_store := t\<rparr>))"
    using run by (simp add: launch_step_def bnd_def lift_def try_op_def thn_def modify_def ret_def split: sum.split)
  show "daemon_ok (fst (launch_step env R oid r row solo c))"
  proof (cases res)
    case (Inr w)
    then show ?thesis using launch_enters [OF c R, of env oid r row t w] run unfold by simp
  next
    case (Inl e)
    have "keeps daemon_ok (\<lambda>c. (c, Err e))" by (simp add: keeps_def)
    then have "keeps daemon_ok (thn (lift (release_remote (rn_call R) (st_id r)))
        (bnd (lift (ld_admission (rn_launch R) oid)) (\<lambda>ok. if \<not> ok then ret Stopped else (\<lambda>c. (c, Err e)))))"
      by (intro keeps_thn keeps_bnd keeps_if keeps_ret keeps_steady_lift steady_release_remote quiet_round_steady(7) [OF R])
    then show ?thesis using t unfold Inl by (simp add: keeps_def)
  qed
qed

lemma step_round_ok:
  assumes R: "quiet_round R"
  shows "keeps daemon_ok (step_round env R oid sg busy r)"
  unfolding step_round_def
  by (intro keeps_ask keeps_bnd keeps_option keeps_sum keeps_prod keeps_if keeps_ret launch_step_ok [OF R]
      keeps_steady_lift steady_admit_step [OF R] steady_prepare_step steady_hold_review [OF R]
      steady_acquire_remote quiet_round_steady(6) [OF R])

lemma launch_ready_ok:
  assumes R: "quiet_round R"
  shows "keeps daemon_ok (launch_ready env R oid project sg busy rs)"
proof (induction rs arbitrary: busy)
  case Nil
  then show ?case by simp
next
  case (Cons r rs)
  have "keeps daemon_ok (case turn of Stopped \<Rightarrow> ret () | Passed \<Rightarrow> launch_ready env R oid project sg busy rs
     | Launched solo \<Rightarrow> bnd (ask_state (\<lambda>c. Ok (multiple_projects (sc_store c)))) (\<lambda>many.
         if solo \<or> project \<noteq> default_project \<or> many then ret ()
         else launch_ready env R oid project sg (Suc busy) rs))" for turn
    using Cons by (cases turn) (auto intro!: keeps_rules)
  then show ?case unfolding launch_ready.simps by (intro keeps_bnd step_round_ok [OF R])
qed

section \<open>A round\<close>

lemma steady_select_settings: "steady (select_settings env R oid sg)"
  unfolding select_settings_def
  by (rule steadyI, intro keeps_rules steady_try [OF steady_ask]; simp)

lemma steady_stays_here:
  assumes R: "quiet_round R"
  shows "steady (stays_here env R remote_ready oid)"
proof (rule steadyI)
  fix P N
  have "keeps (exec_with P N) (case routed of Inl e \<Rightarrow>
        thn (queue_task env oid ''project configuration or runtime inventory could not be validated'') (ret False)
      | Inr True \<Rightarrow> ret False | Inr False \<Rightarrow> ask_state (\<lambda>s. Ok (remote_ready \<or> \<not> is_remote oid s)))" for routed :: "bool result"
    by (cases routed) (auto intro!: keeps_rules split: bool.split)
  then show "keeps (exec_with P N) (stays_here env R remote_ready oid)"
    unfolding stays_here_def by (intro keeps_bnd steady_try quiet_round_steady(4) [OF R])
qed

lemma task_round_ok:
  assumes R: "quiet_round R"
  shows "keeps daemon_ok (task_round env R remote_ready entry)"
  unfolding task_round_def Let_def
  by (intro keeps_ask keeps_thn keeps_bnd keeps_option keeps_if keeps_ret keeps_steady_lift steady_settle steady_ask steady_ready
      quiet_round_steady(7) [OF R] steady_stays_here [OF R] steady_select_settings launch_ready_ok [OF R])

lemma round_ok:
  assumes R: "quiet_round R"
  shows "keeps daemon_ok (round_of env R remote_ready)"
proof -
  have limit: "keeps daemon_ok (modify (\<lambda>c. c\<lparr>sc_limit := cap\<rparr>))" for cap
    by (rule keeps_modify) (simp add: daemon_ok_def)
  have rest: "keeps daemon_ok (thn (reap_finished env (rn_call R))
    (bnd (lift (ask_state (host_limit env))) (\<lambda>cap.
     thn (modify (\<lambda>c. c\<lparr>sc_limit := cap\<rparr>))
    (bnd (lift (rn_previews R)) (\<lambda>paused.
     if paused then ret () else
     bnd (lift (ask_state (\<lambda>s. Ok (draining s)))) (\<lambda>stop.
     if stop then ret () else
     thn (lift (notify_completed_children env (rn_message R)))
    (thn (lift (wake_notified env (rn_revision R) (rn_followup R)))
    (bnd (lift (ask_state (\<lambda>s. Ok (ordered_tasks s)))) (\<lambda>entries.
       each_op (task_round env R remote_ready) entries)))))))))"
    by (intro keeps_thn keeps_bnd keeps_if keeps_ret keeps_each limit reap_finished_ok keeps_steady_lift steady_ask
        quiet_round_steady(3) [OF R] steady_notify steady_wake [OF quiet_round_steady(2) [OF R]] task_round_ok [OF R])
  have split: "bnd (ask_state (\<lambda>c. Ok (sc_running c))) (\<lambda>as. thn (abort_cancelled env as) m) =
      thn (bnd (ask_state (\<lambda>c. Ok (sc_running c))) (abort_cancelled env)) m" for m :: "(sched, unit) oper"
    by (simp add: thn_def bnd_assoc)
  show ?thesis
    unfolding round_of_def split
    by (intro keeps_thn keeps_steady_lift steady_reconcile_releases steady_cleanup abort_round_ok rest)
qed

section \<open>Every history of the daemon\<close>

text \<open>
  The scheduler's rounds and the parts that run between their suspensions; attempts that end by
  themselves, with their result recorded or without; restarts, which lose the map and recover the
  store; the operations of callers that touch steps or attempts; the review that the pass over
  previews appends; and every other write that spares the executions. Arguments, identifiers,
  clocks and outcomes are arbitrary.
\<close>

inductive daemon_step :: "sched \<Rightarrow> sched \<Rightarrow> bool" where
  ticking: "quiet_round R \<Longrightarrow> daemon_step c (fst (round_of env R remote_ready c))"
| visiting: "quiet_round R \<Longrightarrow> daemon_step c (fst (task_round env R remote_ready entry c))"
| launching: "quiet_round R \<Longrightarrow> daemon_step c (fst (launch_ready env R oid project sg busy rows c))"
| reaping: "daemon_step c (fst (reap_finished env call c))"
| finishing: "a \<in> set (sc_running c) \<Longrightarrow> av_handle a = Executing \<Longrightarrow>
    finish_ref env (av_step a) (av_attempt a) (av_worker a) res (sc_store c) = (t, Ok u) \<Longrightarrow>
    daemon_step c (set_active (av_step a) (\<lambda>x. x\<lparr>av_handle := Completed True\<rparr>) (c\<lparr>sc_store := t\<rparr>))"
| stopping: "a \<in> set (sc_running c) \<Longrightarrow> unfinished (av_handle a) \<Longrightarrow>
    daemon_step c (set_active (av_step a) (\<lambda>x. x\<lparr>av_handle := Completed False\<rparr>) c)"
| restarting: "daemon_step c \<lparr>sc_store = fst (recover env (sc_store c)), sc_running = [], sc_limit = n\<rparr>"
| submitting: "submit_leaves execution_rows D \<Longrightarrow>
    daemon_step c (fst (lift (submit_pinned_project env D F project objective repo settings plan) c))"
| delegating: "delegate_leaves execution_rows dd \<Longrightarrow> daemon_step c (fst (lift (delegate env dd F oid args) c))"
| adding: "(\<forall>t ps. spares (rd_revise_child rd t ps)) \<Longrightarrow>
    daemon_step c (fst (lift (add_steps env rd F oid added) c))"
| proposing: "daemon_step c (fst (lift (propose_steps env rd F oid wid proposed) c))"
| cancelling: "daemon_step c (fst (lift (cancel env oid) c))"
| resuming: "daemon_step c (fst (lift (resume env oid args) c))"
| asking: "daemon_step c (fst (lift (ask env qid rid oid args) c))"
| answering: "daemon_step c (fst (lift (answer_question env oid by_worker args) c))"
| escalating: "daemon_step c (fst (lift (question_action env caller args escalate) c))"
| revising: "daemon_step c (fst (lift (update_context env fresh oid args) c))"
| reconciling: "daemon_step c (fst (lift (reconcile_worker env alive oid wid) c))"
| reviewing: "(\<forall>t ps. spares (rd_revise_child rd t ps)) \<Longrightarrow>
    daemon_step c (fst (lift (schedule_review env rd like salt F oid review_step) c))"
| elsewhere: "spared (sc_store c) t \<Longrightarrow> daemon_step c (c\<lparr>sc_store := t\<rparr>)"

definition started :: sched where
  "started = \<lparr>sc_store = empty_store, sc_running = [], sc_limit = 0\<rparr>"

definition daemon_reachable :: "sched \<Rightarrow> bool" where
  "daemon_reachable c = daemon_step\<^sup>*\<^sup>* started c"

lemma finishing_ok:
  assumes c: "daemon_ok c" and a: "a \<in> set (sc_running c)" "av_handle a = Executing"
    and run: "finish_ref env (av_step a) (av_attempt a) (av_worker a) res (sc_store c) = (t, Ok u)"
  shows "daemon_ok (set_active (av_step a) (\<lambda>x. x\<lparr>av_handle := Completed True\<rparr>) (c\<lparr>sc_store := t\<rparr>))"
proof (rule recorded_ok [OF c a(1) _ _ _ _ run])
  have "av_failure a = None" using c a by (simp add: daemon_ok_def unfailed_def)
  then show "open_entry a" "\<not> open_entry (a\<lparr>av_handle := Completed True\<rparr>)"
    using a(2) by (simp_all add: open_entry_def unfinished_def)
qed (simp_all add: unfailed_def)

lemma stopping_ok:
  assumes c: "daemon_ok c" and a: "a \<in> set (sc_running c)" "unfinished (av_handle a)"
  shows "daemon_ok (set_active (av_step a) (\<lambda>x. x\<lparr>av_handle := Completed False\<rparr>) c)"
proof (rule daemon_ok_update [where Q = "{}"])
  show "open_entry x \<and> (av_attempt x, av_step a) \<notin> {}"
    if "x \<in> set (sc_running c)" "av_step x = av_step a" for x
    using active_unique [OF c that(1) a(1) that(2)] a(2) by (simp add: open_entry_def)
qed (use c in \<open>auto simp: daemon_ok_def unfailed_def\<close>)

lemma restarting_ok:
  assumes "daemon_ok c"
  shows "daemon_ok \<lparr>sc_store = fst (recover env (sc_store c)), sc_running = [], sc_limit = n\<rparr>"
proof -
  have "exec_with {} {} (sc_store c)" using assms by (auto simp: daemon_ok_def intro: exec_with_weaken)
  then have "exec_with {} {} (fst (recover env (sc_store c)))" using recover_exec by (simp add: keeps_def)
  then show ?thesis by (simp add: daemon_ok_def open_pairs_def)
qed

lemmas steady_callers =
  steady_submit steady_delegate steady_propose_steps steady_cancel steady_resume steady_ask_question steady_answer_question
  steady_question_action steady_update_context steady_reconcile_worker

lemma daemon_step_ok:
  assumes "daemon_step c d" and "daemon_ok c"
  shows "daemon_ok d"
proof -
  have kept: "daemon_ok (fst (m c))" if "keeps daemon_ok m" "daemon_ok c" for m :: "(sched, 'x) oper" and c
    using that by (simp add: keeps_def)
  from assms show ?thesis
  proof (induction rule: daemon_step.induct)
    case (finishing a c env res t u)
    then show ?case by (intro finishing_ok)
  next
    case (stopping a c)
    then show ?case by (intro stopping_ok)
  next
    case (restarting c env n)
    then show ?case by (intro restarting_ok)
  next
    case (adding rd c env F oid added)
    then have "steady_revision rd" by (auto simp: steady_revision_def intro: spares_steady)
    then show ?case using adding(2) by (intro kept keeps_steady_lift steady_add_steps)
  next
    case (reviewing rd c env like salt F oid review_step)
    then show ?case by (intro kept keeps_steady_lift spares_steady spares_schedule_review) simp_all
  next
    case (elsewhere c t)
    then show ?case by (auto simp: daemon_ok_def intro: spared_exec)
  qed (auto intro!: kept keeps_steady_lift round_ok task_round_ok launch_ready_ok reap_finished_ok steady_callers)
qed

lemma started_ok: "daemon_ok started"
  by (simp add: daemon_ok_def started_def exec_with_def exec_ok_def hosted_def single_live_def running_set_def open_pairs_def
      empty_store_def)

lemma daemon_reachable_ok: "daemon_reachable c \<Longrightarrow> daemon_ok c"
  unfolding daemon_reachable_def
  by (induction rule: rtranclp_induct) (auto intro: daemon_step_ok started_ok)

text \<open>
  C28. No step is ever executed twice at once. After any history of rounds (around which the
  passes over previews, routing, admission and reviews may add steps and change steps without a
  live attempt), ending and aborted attempts, restarts, operations of callers, appended reviews,
  and any other writes that keep the attempts and change the state only of steps without a live
  attempt, a live attempt belongs to a step that runs, is uncertain or has been cancelled
  meanwhile, and is the only live attempt of that step; an attempt that the daemon still
  supervises is recorded as running.
\<close>

theorem no_double_execution:
  assumes "daemon_reachable c"
  shows "(\<forall>a \<in> set (attempts (sc_store c)). live_state (at_state a) \<longrightarrow>
      (\<exists>r \<in> set (steps (sc_store c)). st_id r = attempt_row.at_step a \<and> st_state r \<in> {''running'', ''uncertain'', ''cancelled''}) \<and>
      (\<forall>b \<in> set (attempts (sc_store c)). live_state (at_state b) \<and> attempt_row.at_step b = attempt_row.at_step a \<longrightarrow> b = a)) \<and>
    (\<forall>e \<in> set (sc_running c). unfinished (av_handle e) \<longrightarrow>
      (\<exists>a \<in> set (attempts (sc_store c)). at_id a = av_attempt e \<and> attempt_row.at_step a = av_step e \<and> at_state a = ''running''))"
proof -
  have ok: "exec_ok (steps (sc_store c)) (attempts (sc_store c))" "open_pairs (sc_running c) \<subseteq> running_set (attempts (sc_store c))"
    using daemon_reachable_ok [OF assms] by (simp_all add: daemon_ok_def exec_with_def)
  have "b = a" if ab: "a \<in> set (attempts (sc_store c))" "b \<in> set (attempts (sc_store c))" "live_state (at_state a)"
      "live_state (at_state b)" "attempt_row.at_step b = attempt_row.at_step a" for a b
    using single_liveD [OF ok(1) ab(2,1,4,3,5)] ok(1) ab(1,2) unfolding exec_ok_def distinct_map by (metis inj_onD)
  moreover have "\<exists>a \<in> set (attempts (sc_store c)). at_id a = av_attempt e \<and> attempt_row.at_step a = av_step e \<and> at_state a = ''running''"
    if "e \<in> set (sc_running c)" "unfinished (av_handle e)" for e
  proof -
    have "(av_attempt e, av_step e) \<in> running_set (attempts (sc_store c))"
      using ok(2) that by (auto simp: open_pairs_def open_entry_def)
    then show ?thesis by (auto simp: running_set_def)
  qed
  moreover have "\<exists>r \<in> set (steps (sc_store c)). st_id r = attempt_row.at_step a \<and> st_state r \<in> {''running'', ''uncertain'', ''cancelled''}"
    if "a \<in> set (attempts (sc_store c))" "live_state (at_state a)" for a
    using ok(1) that by (simp add: exec_ok_def hosted_def hosting_def)
  ultimately show ?thesis by blast
qed

end
