(* ===== verification/Execution_Examples.thy ===== *)
theory Execution_Examples
  imports Execution_Rounds Delegation_Examples
begin

text \<open>
  A day of the daemon on which the theorems about executions are applied: a task is submitted, a
  round launches its step, and the attempt ends.
\<close>

definition quiet_deps :: round_deps where
  "quiet_deps = \<lparr>rn_launch = \<lparr>ld_admission = (\<lambda>_. ret True), ld_bind_review = (\<lambda>_ _. ret ())\<rparr>,
     rn_revision = \<lparr>rd_check_skills = (\<lambda>_ _ _. Ok ()), rd_revise_child = (\<lambda>_ _. ret None)\<rparr>,
     rn_hold = (\<lambda>_ _. None), rn_previews = ret False, rn_route = (\<lambda>_. ret False),
     rn_select = (\<lambda>_ sg _. Ok sg), rn_environment = (\<lambda>_ _. Ok True), rn_is_review = (\<lambda>_ _ _. Ok False),
     rn_prepare_review = (\<lambda>_ _. ret ()), rn_call = (\<lambda>_ _ _. Ok JNull), rn_receive = (\<lambda>_. ret ()), rn_locked = (\<lambda>_. False),
     rn_attempt = (\<lambda>i. ''attempt-'' @ i), rn_worker = (\<lambda>i. ''worker-'' @ i), rn_token = (\<lambda>_. ''token''),
     rn_request = (\<lambda>i. i), rn_message = (\<lambda>i. i), rn_followup = (\<lambda>i. (i, ids i))\<rparr>"

definition queued_plan :: plan where
  "queued_plan = empty_plan\<lparr>p_steps := [(default_step ''x'')\<lparr>s_kind := ''simulated''\<rparr>]\<rparr>"

definition day0 :: sched where
  "day0 = started\<lparr>sc_store := with_project\<lparr>project_runtime_grants := [\<lparr>rt_project = ''p'', rt_runtime = ''local''\<rparr>]\<rparr>\<rparr>"

definition day1 :: sched where
  "day1 = fst (lift (submit_pinned_project sample_env (dd_submit tree_deps) (ids ''a'') ''p'' ''build'' ''/src'' sample_settings
     queued_plan) day0)"

definition day2 :: sched where
  "day2 = fst (round_of sample_env quiet_deps True day1)"

lemma quiet_deps_quiet: "quiet_round quiet_deps"
  by (simp add: quiet_round_def quiet_deps_def spares_def ret_def)

lemma daemon_reachable_step: "daemon_reachable c \<Longrightarrow> daemon_step c d \<Longrightarrow> daemon_reachable d"
  by (simp add: daemon_reachable_def)

lemma day2_reachable: "daemon_reachable day2"
proof -
  have "daemon_reachable started" by (simp add: daemon_reachable_def)
  moreover have "daemon_step started day0"
    unfolding day0_def by (rule elsewhere) (simp add: spared_def started_def with_project_def empty_store_def)
  moreover have "submit_leaves execution_rows (dd_submit tree_deps)"
    by (simp add: submit_leaves_def leaves_def tree_deps_def ret_def)
  then have "daemon_step day0 day1" unfolding day1_def by (rule daemon_step.submitting)
  moreover have "daemon_step day1 day2" unfolding day2_def by (rule ticking [OF quiet_deps_quiet])
  ultimately show ?thesis by (blast intro: daemon_reachable_step)
qed

lemma day2_attempts:
  "map (\<lambda>a. (at_id a, attempt_row.at_step a, at_state a)) (attempts (sc_store day2)) =
     [(''attempt-step-a'', ''step-a'', ''running'')]"
  by code_simp

lemma no_double_execution_witness:
  "\<exists>a \<in> set (attempts (sc_store day2)). at_id a = ''attempt-step-a'' \<and> at_state a = ''running'' \<and>
     (\<exists>r \<in> set (steps (sc_store day2)). st_id r = ''step-a'' \<and> st_state r \<in> {''running'', ''uncertain'', ''cancelled''}) \<and>
     (\<forall>b \<in> set (attempts (sc_store day2)). live_state (at_state b) \<and> attempt_row.at_step b = ''step-a'' \<longrightarrow> b = a)"
proof -
  have "(''attempt-step-a'', ''step-a'', ''running'') \<in>
      set (map (\<lambda>a. (at_id a, attempt_row.at_step a, at_state a)) (attempts (sc_store day2)))"
    unfolding day2_attempts by simp
  then obtain a where a: "a \<in> set (attempts (sc_store day2))" "at_id a = ''attempt-step-a''"
      "attempt_row.at_step a = ''step-a''" "at_state a = ''running''"
    by auto
  moreover have "live_state (at_state a)" using a by (simp add: live_state_def)
  ultimately show ?thesis
    using conjunct1 [OF no_double_execution [OF day2_reachable]] by (metis (no_types, lifting))
qed

end
