(* ===== verification/Receipts.thy ===== *)
theory Receipts
  imports Submission
begin

text \<open>
  Receipts of submissions (src/src/submission.rs): a request id names at most one task of its
  project, a repeated request gets the first answer, and a fence closes a request that was never
  admitted for good. The tables of this component stand beside the store; the triggers on them are
  guards of the inserts. The operation that creates the task is a parameter here.
\<close>

section \<open>The tables\<close>

record submission_row =
  sb_project :: string
  sb_request :: string
  sb_hash :: string
  sb_task :: string
  sb_response :: json

record fence_row =
  fe_project :: string
  fe_request :: string
  fe_binding_hash :: string
  fe_response :: json

record run_binding_row =
  ru_task :: string
  ru_project :: string
  ru_tenant :: string
  ru_thread :: "string option"
  ru_brief :: "string option"
  ru_created :: int

text \<open>Rows of the older table have no project; they count for the default project.\<close>

record desk =
  dk_store :: store
  dk_legacy :: "submission_row list"
  dk_receipts :: "submission_row list"
  dk_fences :: "fence_row list"
  dk_bindings :: "run_binding_row list"

definition on_store :: "(store, 'a) oper \<Rightarrow> (desk, 'a) oper" where
  "on_store m = (\<lambda>d. case m (dk_store d) of (t, r) \<Rightarrow> (d\<lparr>dk_store := t\<rparr>, r))"

definition ask_store :: "(store \<Rightarrow> 'a result) \<Rightarrow> (desk, 'a) oper" where
  "ask_store f = ask_state (\<lambda>d. f (dk_store d))"

definition fenced :: "string \<Rightarrow> string \<Rightarrow> desk \<Rightarrow> bool" where
  "fenced project request d = exists_row (\<lambda>f. fe_project f = project \<and> fe_request f = request) (dk_fences d)"

text \<open>The receipts of a request: those of its project before the older ones.\<close>

definition receipts_of :: "string \<Rightarrow> string \<Rightarrow> desk \<Rightarrow> (bool \<times> submission_row) list" where
  "receipts_of project request d =
     map (Pair False) (filter (\<lambda>r. sb_project r = project \<and> sb_request r = request) (dk_receipts d)) @
     (if project = default_project then map (Pair True) (filter (\<lambda>r. sb_request r = request) (dk_legacy d)) else [])"

definition args_hash :: "env \<Rightarrow> json \<Rightarrow> string" where
  "args_hash env args = sha256 env (json_text env args)"

section \<open>Settlement of a request that was not admitted\<close>

record system_binding =
  sy_organization_id :: string
  sy_project_id :: string
  sy_tenant_id :: string
  sy_thread_id :: string
  sy_original_actor_id :: string
  sy_operation_id :: string
  sy_action :: string
  sy_request_hash :: string
  sy_objective_sha256 :: string
  sy_invocation_id :: string

record close_request =
  cq_schema_version :: int
  cq_project :: string
  cq_request_id :: string
  cq_binding :: system_binding
  cq_repair_actor_id :: string
  cq_evidence :: string

text \<open>Deserialisation with unknown fields denied.\<close>

definition known_fields :: "string list \<Rightarrow> json \<Rightarrow> unit result" where
  "known_fields ks v =
     (case as_object v of
        None \<Rightarrow> bail ''invalid type''
      | Some m \<Rightarrow> require (list_all (\<lambda>(k, _). k \<in> set ks) m) ''unknown field'')"

definition text_field :: "json \<Rightarrow> string \<Rightarrow> string result" where
  "text_field v k = context_of (Option.bind (jfield v k) as_str) ''missing or invalid field''"

definition parse_binding :: "json \<Rightarrow> system_binding result" where
  "parse_binding v =
     and_then (known_fields [''organization_id'', ''project_id'', ''tenant_id'', ''thread_id'', ''original_actor_id'',
       ''operation_id'', ''action'', ''request_hash'', ''objective_sha256'', ''invocation_id''] v) (\<lambda>_.
     and_then (text_field v ''organization_id'') (\<lambda>organization.
     and_then (text_field v ''project_id'') (\<lambda>project.
     and_then (text_field v ''tenant_id'') (\<lambda>tenant.
     and_then (text_field v ''thread_id'') (\<lambda>thread.
     and_then (text_field v ''original_actor_id'') (\<lambda>actor.
     and_then (text_field v ''operation_id'') (\<lambda>operation.
     and_then (text_field v ''action'') (\<lambda>action.
     and_then (text_field v ''request_hash'') (\<lambda>hash.
     and_then (text_field v ''objective_sha256'') (\<lambda>objective.
     and_then (text_field v ''invocation_id'') (\<lambda>invocation.
     Ok \<lparr>sy_organization_id = organization, sy_project_id = project, sy_tenant_id = tenant, sy_thread_id = thread,
         sy_original_actor_id = actor, sy_operation_id = operation, sy_action = action, sy_request_hash = hash,
         sy_objective_sha256 = objective, sy_invocation_id = invocation\<rparr>)))))))))))"

definition parse_close :: "json \<Rightarrow> close_request result" where
  "parse_close v =
     and_then (known_fields [''schema_version'', ''project'', ''request_id'', ''system_binding'', ''repair_actor_id'',
       ''continuity_evidence_sha256''] v) (\<lambda>_.
     and_then (context_of (Option.bind (jfield v ''schema_version'') as_u64) ''missing or invalid field'') (\<lambda>version.
     and_then (require (version < 2 ^ 32) ''invalid value'') (\<lambda>_.
     and_then (text_field v ''project'') (\<lambda>project.
     and_then (text_field v ''request_id'') (\<lambda>request.
     and_then (and_then (context_of (jfield v ''system_binding'') ''missing field'') parse_binding) (\<lambda>binding.
     and_then (text_field v ''repair_actor_id'') (\<lambda>actor.
     and_then (text_field v ''continuity_evidence_sha256'') (\<lambda>evidence.
     Ok \<lparr>cq_schema_version = version, cq_project = project, cq_request_id = request, cq_binding = binding,
         cq_repair_actor_id = actor, cq_evidence = evidence\<rparr>))))))))"

definition canonical_uuid :: "env \<Rightarrow> string \<Rightarrow> unit result" where
  "canonical_uuid env v =
     and_then (context_of (parse_uuid env v) ''invalid UUID'') (\<lambda>u. require (u = v) ''canonical UUID required'')"

definition sha256_hex :: "string \<Rightarrow> bool" where
  "sha256_hex v = (length v = 64 \<and> list_all (\<lambda>c. ascii_digit c \<or> c \<in> set ''abcdef'') v)"

definition validate_close :: "env \<Rightarrow> close_request \<Rightarrow> store \<Rightarrow> unit result" where
  "validate_close env q s =
     (let b = cq_binding q in
     and_then (require (cq_schema_version q = 1) ''unsupported submission settlement version'') (\<lambda>_.
     and_then (each_result (canonical_uuid env) [sy_organization_id b, sy_project_id b, sy_thread_id b,
       sy_original_actor_id b, sy_invocation_id b, cq_repair_actor_id q]) (\<lambda>_.
     and_then (require (sy_action b = ''build'') ''only an original Build can be fenced'') (\<lambda>_.
     and_then (require (sy_operation_id b \<noteq> [] \<and> length (sy_operation_id b) \<le> 128 \<and>
         list_all (\<lambda>c. ascii_alnum c \<or> c \<in> set '':-_.'') (sy_operation_id b)) ''bounded original operation ID required'') (\<lambda>_.
     and_then (require (sha256_hex (sy_request_hash b) \<and> sha256_hex (sy_objective_sha256 b) \<and> sha256_hex (cq_evidence q))
       ''SHA256 audit/binding fields required'') (\<lambda>_.
     and_then (tenant (cq_project q) s) (\<lambda>t.
     and_then (require (t = sy_tenant_id b) ''submission settlement tenant scope mismatch'') (\<lambda>_.
     require (cq_request_id q = ''foundry:'' @ sha256 env (sy_original_actor_id b @ '':'' @ sy_operation_id b))
       ''original actor/operation request key mismatch''))))))))"

definition binding_hash :: "env \<Rightarrow> close_request \<Rightarrow> string" where
  "binding_hash env q =
     (let b = cq_binding q in
      args_hash env (jobj [(''action'', JStr (sy_action b)), (''invocation_id'', JStr (sy_invocation_id b)),
        (''objective_sha256'', JStr (sy_objective_sha256 b)), (''operation_id'', JStr (sy_operation_id b)),
        (''organization_id'', JStr (sy_organization_id b)), (''original_actor_id'', JStr (sy_original_actor_id b)),
        (''project_id'', JStr (sy_project_id b)), (''request_hash'', JStr (sy_request_hash b)),
        (''tenant_id'', JStr (sy_tenant_id b)), (''thread_id'', JStr (sy_thread_id b))]))"

definition admitted_receipt :: "string \<Rightarrow> string \<Rightarrow> desk \<Rightarrow> json option result" where
  "admitted_receipt project request d =
     (case receipts_of project request d of
        [] \<Rightarrow> Ok None
      | (_, r) # _ \<Rightarrow>
          and_then (authorize_task project (sb_task r) (dk_store d)) (\<lambda>_.
          and_then (require (jget (sb_response r) ''id'' = JStr (sb_task r)) ''durable submission identity mismatch'') (\<lambda>_.
          and_then (require (\<not> fenced project request d) ''contradictory submission receipts require reconciliation'') (\<lambda>_.
          Ok (Some (jobj [(''schema_version'', JInt 1), (''state'', JStr ''admitted''), (''admission_fenced'', JBool False),
            (''project'', JStr project), (''request_id'', JStr request), (''task_id'', JStr (sb_task r)),
            (''receipt'', sb_response r)]))))))"

definition fence_receipt :: "env \<Rightarrow> close_request \<Rightarrow> string \<Rightarrow> string \<Rightarrow> json" where
  "fence_receipt env q hash fresh =
     jobj [(''schema_version'', JInt 1), (''state'', JStr ''not_admitted''), (''admission_fenced'', JBool True),
       (''project'', JStr (cq_project q)), (''request_id'', JStr (cq_request_id q)), (''task_id'', JNull),
       (''system_binding_hash'', JStr hash), (''receipt_id'', JStr fresh), (''created_at'', JInt (now env)),
       (''repair_actor_id'', JStr (cq_repair_actor_id q)), (''continuity_evidence_sha256'', JStr (cq_evidence q))]"

text \<open>The insert into the fences, with its trigger, its primary key and its foreign key.\<close>

definition insert_fence :: "fence_row \<Rightarrow> (desk, unit) oper" where
  "insert_fence f = (\<lambda>d.
     if exists_row (\<lambda>r. sb_project r = fe_project f \<and> sb_request r = fe_request f) (dk_receipts d) \<or>
        fe_project f = default_project \<and> exists_row (\<lambda>r. sb_request r = fe_request f) (dk_legacy d)
     then (d, bail ''submission already admitted'')
     else if fenced (fe_project f) (fe_request f) d then (d, bail ''UNIQUE constraint failed'')
     else if fe_project f \<notin> pj_id ` set (projects (dk_store d)) then (d, bail ''FOREIGN KEY constraint failed'')
     else (d\<lparr>dk_fences := dk_fences d @ [f]\<rparr>, Ok ()))"

text \<open>The answer to a request that is fenced already.\<close>

definition prior_fence :: "close_request \<Rightarrow> string \<Rightarrow> fence_row \<Rightarrow> json result" where
  "prior_fence q hash f =
     (let r = fe_response f in
      and_then (require (fe_binding_hash f = hash) ''submission fence already binds another original request'') (\<lambda>_.
      and_then (require (jget r ''state'' = JStr ''not_admitted'' \<and> jget r ''admission_fenced'' = JBool True \<and>
          jfield r ''task_id'' = Some JNull \<and> jget r ''project'' = JStr (cq_project q) \<and>
          jget r ''request_id'' = JStr (cq_request_id q) \<and> jget r ''system_binding_hash'' = JStr hash)
        ''terminal submission receipt identity mismatch'') (\<lambda>_.
      Ok r)))"

definition fence_of :: "string \<Rightarrow> string \<Rightarrow> desk \<Rightarrow> fence_row option" where
  "fence_of project request d = find (\<lambda>f. fe_project f = project \<and> fe_request f = request) (dk_fences d)"

definition new_fence :: "env \<Rightarrow> close_request \<Rightarrow> string \<Rightarrow> (desk, json) oper" where
  "new_fence env q fresh =
     (let hash = binding_hash env q; r = fence_receipt env q hash fresh in
      thn (insert_fence \<lparr>fe_project = cq_project q, fe_request = cq_request_id q, fe_binding_hash = hash, fe_response = r\<rparr>)
          (ret r))"

definition close_tx :: "env \<Rightarrow> close_request \<Rightarrow> string \<Rightarrow> (desk, json) oper" where
  "close_tx env q fresh =
     bnd (ask_state (admitted_receipt (cq_project q) (cq_request_id q))) (\<lambda>admitted.
     case admitted of
       Some r \<Rightarrow> ret r
     | None \<Rightarrow>
         bnd (ask_state (\<lambda>d. Ok (fence_of (cq_project q) (cq_request_id q) d))) (\<lambda>prior.
         case prior of
           Some f \<Rightarrow> ask_state (\<lambda>_. prior_fence q (binding_hash env q) f)
         | None \<Rightarrow> new_fence env q fresh))"

definition close_unadmitted :: "env \<Rightarrow> string \<Rightarrow> json \<Rightarrow> (desk, json) oper" where
  "close_unadmitted env fresh args =
     bnd (ask_state (\<lambda>_. parse_close args)) (\<lambda>q.
     bnd (ask_store (validate_close env q)) (\<lambda>_.
     atomic (close_tx env q fresh)))"

section \<open>Repeated requests\<close>

definition candidates :: "string \<Rightarrow> desk \<Rightarrow> (bool \<times> submission_row) list" where
  "candidates request d =
     map (Pair False) (filter (\<lambda>r. sb_request r = request) (dk_receipts d)) @
     map (\<lambda>r. (True, r\<lparr>sb_project := default_project\<rparr>)) (filter (\<lambda>r. sb_request r = request) (dk_legacy d))"

definition candidate_hash :: "env \<Rightarrow> json \<Rightarrow> bool \<times> submission_row \<Rightarrow> string" where
  "candidate_hash env args c =
     args_hash env (if fst c then jremove ''project'' args else jset ''project'' (JStr (sb_project (snd c))) args)"

fun match_receipts :: "env \<Rightarrow> json \<Rightarrow> string option \<Rightarrow> (bool \<times> submission_row) list \<Rightarrow> string option result" where
  "match_receipts env args matched [] = Ok matched"
| "match_receipts env args matched (c # cs) =
     (if sb_hash (snd c) = candidate_hash env args c then
        and_then (require (matched = None \<or> matched = Some (sb_project (snd c)))
          ''submission receipt is ambiguous; select a project explicitly'') (\<lambda>_.
        match_receipts env args (Some (sb_project (snd c))) cs)
      else match_receipts env args matched cs)"

definition receipt_project :: "env \<Rightarrow> json \<Rightarrow> desk \<Rightarrow> string option result" where
  "receipt_project env args d =
     (case as_str (jget args ''request_id'') of
        None \<Rightarrow> Ok None
      | Some request \<Rightarrow>
          and_then (match_receipts env args None (candidates request d)) (\<lambda>matched.
          Ok (case matched of
                Some p \<Rightarrow> Some p
              | None \<Rightarrow> (case remdups (map (sb_project \<circ> snd) (candidates request d)) of [p] \<Rightarrow> Some p | _ \<Rightarrow> None))))"

definition existing_receipt :: "env \<Rightarrow> json \<Rightarrow> desk \<Rightarrow> json option result" where
  "existing_receipt env args d =
     (case as_str (jget args ''request_id'') of
        None \<Rightarrow> Ok None
      | Some request \<Rightarrow>
          and_then (context_of (as_str (jget args ''project'')) ''submission project'') (\<lambda>project.
          and_then (require (\<not> fenced project request d) ''submission request is terminally fenced as not admitted'') (\<lambda>_.
          case receipts_of project request d of
            [] \<Rightarrow> Ok None
          | (legacy, r) # _ \<Rightarrow>
              and_then (require (sb_hash r = args_hash env args \<or>
                  legacy \<and> sb_hash r = args_hash env (jremove ''project'' args))
                ''submission request_id reused with different assignment'') (\<lambda>_.
              and_then (context_of (as_str (jget (sb_response r) ''id'')) ''receipt task'') (\<lambda>task.
              and_then (authorize_task project task (dk_store d)) (\<lambda>_.
              Ok (Some (sb_response r))))))))"

text \<open>The insert into the receipts, with its trigger, its primary key and its foreign keys.\<close>

definition insert_receipt :: "submission_row \<Rightarrow> (desk, unit) oper" where
  "insert_receipt r = (\<lambda>d.
     if fenced (sb_project r) (sb_request r) d
     then (d, bail ''submission request is terminally fenced as not admitted'')
     else if exists_row (\<lambda>q. sb_project q = sb_project r \<and> sb_request q = sb_request r) (dk_receipts d)
     then (d, bail ''UNIQUE constraint failed'')
     else if sb_project r \<notin> pj_id ` set (projects (dk_store d)) \<or> sb_task r \<notin> tk_id ` set (tasks (dk_store d))
     then (d, bail ''FOREIGN KEY constraint failed'')
     else (d\<lparr>dk_receipts := dk_receipts d @ [r]\<rparr>, Ok ()))"

text \<open>\<open>create\<close> is the dispatch of the submission without its request id.\<close>

definition admit_new :: "(json \<Rightarrow> (desk, json) oper) \<Rightarrow> string \<Rightarrow> string \<Rightarrow> string \<Rightarrow> json \<Rightarrow> (desk, json) oper" where
  "admit_new create project request hash canonical =
     bnd (create (jremove ''request_id'' canonical)) (\<lambda>response.
     bnd (ask_state (\<lambda>_. context_of (as_str (jget response ''id'')) ''submitted task'')) (\<lambda>task.
     thn (insert_receipt \<lparr>sb_project = project, sb_request = request, sb_hash = hash, sb_task = task,
            sb_response = response\<rparr>)
         (ret response)))"

definition submit_request :: "env \<Rightarrow> (json \<Rightarrow> (desk, json) oper) \<Rightarrow> json \<Rightarrow> (desk, json) oper" where
  "submit_request env create args =
     bnd (ask_state (\<lambda>_. context_of (as_str (jget args ''request_id'')) ''request_id must be a string'')) (\<lambda>request.
     thn (guard (\<not> blank request \<and> length request \<le> 256) ''request_id must contain 1..256 bytes'')
    (bnd (ask_store (resolve_project (unwrap_or (as_str (jget args ''project'')) default_project))) (\<lambda>project.
     let canonical = jset ''project'' (JStr project) args in
     atomic (
       bnd (ask_state (existing_receipt env canonical)) (\<lambda>old.
       case old of
         Some r \<Rightarrow> ret r
       | None \<Rightarrow> admit_new create project request (args_hash env canonical) canonical)))))"

end
