(* ===== verification/Dispatch.thy ===== *)
theory Dispatch
  imports Receipts Revisions Claims Mailbox
begin

text \<open>
  The entry of every operation (src/src/protocol.rs \<^verbatim>\<open>dispatch_scoped\<close> and
  \<^verbatim>\<open>dispatch_authorized\<close>): which operations worker credentials and project-bound connections may
  name, the project a call is about, and the arguments that the credentials fix. What is called in
  the end is a parameter \<open>call\<close> of this part; the table of operations follows it.
\<close>

section \<open>Operations open to credentials\<close>

definition worker_operations :: "string list" where
  "worker_operations = [''runtime_capabilities'', ''run_diagnostics'', ''plan_execution'', ''list_skills'', ''read_skill'',
     ''integrate_child'', ''environments'', ''delegate_task'', ''list_children'', ''read_context'',
     ''pending_questions'', ''escalate_question'', ''answer_question'', ''propose_steps'', ''request_question'',
     ''send_message'', ''read_messages'', ''acknowledge_messages'', ''list_workers'', ''set_worker_status'',
     ''join_channel'', ''claim_paths'', ''transfer_claim'', ''register_workspace'', ''commit_work'', ''put_artifact'',
     ''get_artifact'', ''reuse_artifact'', ''add_knowledge'', ''knowledge'', ''knowledge_options'',
     ''knowledge_edges'', ''retract_knowledge'', ''link_knowledge'']"

definition worker_allowed :: "string \<Rightarrow> bool" where
  "worker_allowed name = (name \<in> set worker_operations)"

definition host_operations :: "string list" where
  "host_operations = [''shutdown'', ''agent_setup'', ''provider_login'', ''provider_signup'', ''provider_topup'',
     ''provider_wallet'', ''skill_pack_list'', ''skill_pack_install'', ''project_create'', ''project_update'',
     ''project_configure'', ''run_rebind_model'', ''maintenance_policy_register'', ''delivery_qualification_enroll'',
     ''delivery_qualification_observe'', ''project_repo_add'', ''project_runtime_grant'', ''project_runtime_revoke'',
     ''account_create'', ''account_grant'', ''account_revoke'', ''account_credential_set'',
     ''account_credential_import'', ''account_sign_out'', ''account_observe'', ''account_status'',
     ''management_events'', ''management_ack'']"

definition project_allowed :: "string \<Rightarrow> bool" where
  "project_allowed name = (name \<notin> set host_operations \<and> (\<not> prefix ''runtime_'' name \<or> name = ''runtime_capabilities''))"

section \<open>The shape of a call\<close>

definition only_fields :: "string list \<Rightarrow> json \<Rightarrow> bool" where
  "only_fields ks args = (case as_object args of None \<Rightarrow> True | Some m \<Rightarrow> list_all (\<lambda>(k, _). k \<in> set ks) m)"

definition reserved_argument :: "json \<Rightarrow> bool" where
  "reserved_argument args = (case as_object args of None \<Rightarrow> False | Some m \<Rightarrow> list_ex (\<lambda>(k, _). prefix ''_'' k) m)"

definition check_shape :: "string \<Rightarrow> json \<Rightarrow> string option \<Rightarrow> string option \<Rightarrow> unit result" where
  "check_shape name args token bound =
     (if as_object args = None then bail ''arguments must be an object''
      else if name = ''submission_close_unadmitted'' \<and> bound = None \<and> as_str (jget args ''project'') = None
      then bail ''submission settlement requires an explicit project''
      else if name = ''commit_work'' \<and> token = None then bail ''commit_work requires worker credentials''
      else if name = ''commit_work'' \<and>
        \<not> only_fields [''task'', ''worker'', ''project'', ''expected_head'', ''message'', ''idempotency_key''] args
      then bail ''commit_work accepts only its exact worker commit arguments''
      else if name = ''run_rebind_model'' \<and>
        \<not> only_fields [''task'', ''project'', ''provider'', ''expected_settings_hash'', ''expected_project_config_hash'',
          ''idempotency_key''] args
      then bail ''run_rebind_model accepts only its exact operator recovery arguments''
      else if name = ''run_changes'' \<and> \<not> only_fields [''task'', ''project'', ''expected_base'', ''expected_head''] args
      then bail ''run_changes accepts only task, project, and exact checkpoint commits''
      else require (token = None \<or> worker_allowed name) ''operation unavailable to worker credentials'')"

section \<open>The project of a call\<close>

text \<open>The project that the worker's credentials or the connection bind a call to, if any.\<close>

definition binding_of :: "env \<Rightarrow> string option \<Rightarrow> string option \<Rightarrow> store \<Rightarrow> string option result" where
  "binding_of env token bound s =
     and_then (case token of None \<Rightarrow> Ok None
               | Some tk \<Rightarrow> and_then (authenticate env tk s) (\<lambda>w. and_then (task_project (wk_task w) s) (\<lambda>p. Ok (Some p))))
       (\<lambda>mine.
     and_then (case bound of None \<Rightarrow> Ok None | Some b \<Rightarrow> and_then (resolve_project b s) (\<lambda>p. Ok (Some p))) (\<lambda>outer.
     and_then (require (mine = None \<or> outer = None \<or> mine = outer) ''worker credential project scope violation'') (\<lambda>_.
     Ok (or_else mine outer))))"

definition all_projects :: "json \<Rightarrow> bool" where
  "all_projects args = (jget args ''all_projects'' = JBool True)"

definition check_bound :: "string option \<Rightarrow> string \<Rightarrow> json \<Rightarrow> unit result" where
  "check_bound binding name args =
     and_then (require (\<not> (binding \<noteq> None \<and> (\<not> project_allowed name \<or> all_projects args)))
       ''operation unavailable to project-bound credentials'') (\<lambda>_.
     require (\<not> (binding \<noteq> None \<and> reserved_argument args)) ''reserved runtime argument'')"

definition requested_project :: "json \<Rightarrow> store \<Rightarrow> string option result" where
  "requested_project args s =
     (case as_str (jget args ''project'') of
        None \<Rightarrow> Ok None
      | Some p \<Rightarrow> and_then (resolve_project p s) (\<lambda>p. Ok (Some p)))"

definition check_requested :: "string option \<Rightarrow> string option \<Rightarrow> json \<Rightarrow> unit result" where
  "check_requested binding requested args =
     and_then (require (binding = None \<or> requested = None \<or> binding = requested) ''project scope violation'') (\<lambda>_.
     require (\<not> (requested \<noteq> None \<and> all_projects args)) ''all_projects conflicts with project selection'')"

text \<open>
  The project of the call: the binding, the one asked for, the one of an earlier submission with the
  same request id, the one of the task, the owner of the repository, or the default.
\<close>

definition inferred_project :: "env \<Rightarrow> string \<Rightarrow> json \<Rightarrow> store \<Rightarrow> string result" where
  "inferred_project env name args s =
     (case as_str (jget args ''task'') of
        Some task \<Rightarrow> task_project task s
      | None \<Rightarrow>
          (case as_str (jget args ''repo'') of
             None \<Rightarrow> Ok default_project
           | Some repo \<Rightarrow>
               and_then (infer_project env repo s) (\<lambda>owner.
               case owner of
                 Some p \<Rightarrow> Ok p
               | None \<Rightarrow>
                   and_then (require (\<not> (length (projects s) > 1 \<and> name = ''submit_task''))
                     ''select a project explicitly; repository is not registered'') (\<lambda>_.
                   Ok default_project))))"

definition chosen_project :: "env \<Rightarrow> string \<Rightarrow> json \<Rightarrow> string option \<Rightarrow> string option \<Rightarrow> desk \<Rightarrow> string result" where
  "chosen_project env name args binding requested d =
     and_then (if name = ''submit_task'' \<and> binding = None \<and> requested = None then receipt_project env args d else Ok None)
       (\<lambda>earlier.
     case or_else binding (or_else requested earlier) of
       Some p \<Rightarrow> Ok p
     | None \<Rightarrow> inferred_project env name args (dk_store d))"

definition authorize_argument :: "string \<Rightarrow> json \<Rightarrow> store \<Rightarrow> unit result" where
  "authorize_argument project args s =
     (case as_str (jget args ''task'') of None \<Rightarrow> Ok () | Some task \<Rightarrow> authorize_task project task s)"

definition check_repo :: "env \<Rightarrow> string \<Rightarrow> string option \<Rightarrow> json \<Rightarrow> store \<Rightarrow> unit result" where
  "check_repo env project binding args s =
     (case as_str (jget args ''repo'') of
        None \<Rightarrow> Ok ()
      | Some repo \<Rightarrow>
          and_then (infer_project env repo s) (\<lambda>owner.
          case owner of
            Some p \<Rightarrow> require (p = project) ''repository belongs to another project''
          | None \<Rightarrow> require (binding = None) ''repository is not registered to this project''))"

section \<open>Authorised calls\<close>

text \<open>
  The parts of dispatch that read other components: the local check of a maintenance task and the
  inspection of a project.
\<close>

record dispatch_deps =
  dp_check_local :: "string \<Rightarrow> desk \<Rightarrow> unit result"
  dp_inspect :: "json \<Rightarrow> (desk, json option) oper"

type_synonym handler = "string \<Rightarrow> json \<Rightarrow> string option \<Rightarrow> (desk, json) oper"

text \<open>An argument that names someone else than the credentials do.\<close>

definition foreign_argument :: "string \<Rightarrow> string \<Rightarrow> json \<Rightarrow> bool" where
  "foreign_argument key mine args = (jfield args key \<noteq> None \<and> jget args key \<noteq> JStr mine)"

definition worker_scope :: "worker_row \<Rightarrow> json \<Rightarrow> unit result" where
  "worker_scope w args =
     and_then (require (\<not> foreign_argument ''task'' (wk_task w) args \<and> \<not> foreign_argument ''worker'' (wk_id w) args)
       ''worker credential scope violation'') (\<lambda>_.
     require (case jfield args ''step'' of None \<Rightarrow> True | Some v \<Rightarrow> v = jstr_opt (wk_step w))
       ''cannot attribute to another worker's step'')"

definition worker_arguments :: "string \<Rightarrow> worker_row \<Rightarrow> json \<Rightarrow> json" where
  "worker_arguments name w args =
     (let a = jremove ''verified'' (jset ''worker'' (JStr (wk_id w)) (jset ''task'' (JStr (wk_task w)) args)) in
      if name = ''put_artifact'' \<or> name = ''add_knowledge'' then jset ''step'' (jstr_opt (wk_step w)) a else a)"

definition dropped_argument :: "env \<Rightarrow> string \<Rightarrow> worker_row \<Rightarrow> (store, unit) oper" where
  "dropped_argument env name w =
     event env (wk_task w) ''tool.argument_dropped'' (jobj [(''tool'', JStr name), (''worker'', JStr (wk_id w)),
       (''field'', JStr ''verified''), (''reason'', JStr ''verification is runtime-owned'')])"

definition dispatch_authorized :: "env \<Rightarrow> dispatch_deps \<Rightarrow> handler \<Rightarrow> string \<Rightarrow> json \<Rightarrow> string option \<Rightarrow> (desk, json) oper" where
  "dispatch_authorized env D call name args token =
     thn (guard (as_object args \<noteq> None) ''arguments must be an object'')
    (case token of
       None \<Rightarrow> call name args None
     | Some tk \<Rightarrow>
         thn (guard (worker_allowed name) ''operation unavailable to worker credentials'')
        (thn (guard (\<not> reserved_argument args) ''reserved runtime argument'')
        (bnd (ask_store (authenticate env tk)) (\<lambda>w.
         thn (ask_state (dp_check_local D (wk_task w)))
        (thn (ask_state (\<lambda>_. worker_scope w args))
        (thn (when_op (jfield args ''verified'' \<noteq> None) (on_store (dropped_argument env name w)))
             (call name (worker_arguments name w args) (Some tk))))))))"

definition dispatch_scoped :: "env \<Rightarrow> dispatch_deps \<Rightarrow> handler \<Rightarrow> string \<Rightarrow> json \<Rightarrow> string option \<Rightarrow> string option \<Rightarrow>
    (desk, json) oper" where
  "dispatch_scoped env D call name args token bound =
     thn (ask_state (\<lambda>_. check_shape name args token bound))
    (bnd (ask_store (binding_of env token bound)) (\<lambda>binding.
     thn (ask_state (\<lambda>_. check_bound binding name args))
    (bnd (ask_store (requested_project args)) (\<lambda>requested.
     thn (ask_state (\<lambda>_. check_requested binding requested args))
    (bnd (ask_state (chosen_project env name args binding requested)) (\<lambda>project.
     thn (ask_store (authorize_argument project args))
    (let args' = jset ''project'' (JStr project) args in
     bnd (ask_state (if name = ''submit_task'' then existing_receipt env args' else (\<lambda>_. Ok None))) (\<lambda>earlier.
     case earlier of
       Some r \<Rightarrow> ret r
     | None \<Rightarrow>
         thn (ask_store (check_repo env project binding args'))
        (if name = ''project_list'' \<and> binding \<noteq> None
         then bnd (dp_inspect D args') (\<lambda>found.
              case found of None \<Rightarrow> throw ''project inspection'' | Some v \<Rightarrow> ret (JArr [v]))
         else dispatch_authorized env D call name args' token)))))))))"

definition dispatch :: "env \<Rightarrow> dispatch_deps \<Rightarrow> handler \<Rightarrow> string \<Rightarrow> json \<Rightarrow> string option \<Rightarrow> (desk, json) oper" where
  "dispatch env D call name args token = dispatch_scoped env D call name args token None"

end
