(* ===== verification/Dispatch_Facts.thy ===== *)
theory Dispatch_Facts
  imports Dispatch
begin

text \<open>
  What credentials confine a call to: whatever a worker or a project-bound connection asks for, the
  operation that is run in the end is one that its credentials allow, on its own project and, for a
  worker, on its own task and in its own name.
\<close>

section \<open>Calls within the scope of the credentials\<close>

definition within_project :: "string \<Rightarrow> json \<Rightarrow> bool" where
  "within_project p a = (jget a ''project'' = JStr p \<and> \<not> all_projects a \<and> \<not> reserved_argument a)"

definition as_worker :: "worker_row \<Rightarrow> string \<Rightarrow> json \<Rightarrow> bool" where
  "as_worker w n a = (worker_allowed n \<and> jget a ''task'' = JStr (wk_task w) \<and> jget a ''worker'' = JStr (wk_id w) \<and>
     jfield a ''verified'' = None \<and> (case jfield a ''step'' of None \<Rightarrow> True | Some v \<Rightarrow> v = jstr_opt (wk_step w)))"

definition confined :: "env \<Rightarrow> store \<Rightarrow> string \<Rightarrow> string option \<Rightarrow> string \<Rightarrow> json \<Rightarrow> string option \<Rightarrow> bool" where
  "confined env s p token n a t =
     (t = token \<and> project_allowed n \<and> within_project p a \<and>
      (case token of
         None \<Rightarrow> authorize_argument p a s = Ok ()
       | Some tk \<Rightarrow> (case authenticate env tk s of Inl _ \<Rightarrow> False | Inr w \<Rightarrow> as_worker w n a \<and> task_project (wk_task w) s = Ok p)) \<and>
      (case as_str (jget a ''repo'') of None \<Rightarrow> True | Some r \<Rightarrow> infer_project env r s = Ok (Some p)))"

section \<open>Same calls, same outcome\<close>

lemma thn_ask_same: "(\<And>x. f s = Ok x \<Longrightarrow> m s = m' s) \<Longrightarrow> thn (ask_state f) m s = thn (ask_state f) m' s"
  by (auto simp: thn_def ask_then split: sum.split)

lemma bnd_ask_same: "(\<And>x. f s = Ok x \<Longrightarrow> g x s = g' x s) \<Longrightarrow> bnd (ask_state f) g s = bnd (ask_state f) g' s"
  by (auto simp: ask_then split: sum.split)

lemma thn_guard_same: "(b \<Longrightarrow> m s = m' s) \<Longrightarrow> thn (guard b e) m s = thn (guard b e) m' s"
  by (auto simp: thn_def bnd_def guard_def require_def)

lemma thn_same: "(\<And>t. m t = m' t) \<Longrightarrow> thn n m s = thn n m' s"
  by (simp add: thn_def bnd_def split: prod.split sum.split)

lemmas same_steps = thn_ask_same bnd_ask_same thn_guard_same

section \<open>Arguments\<close>

definition is_obj :: "json \<Rightarrow> bool" where
  "is_obj a = (\<exists>m. a = JObj m)"

lemma is_obj_iff: "as_object a \<noteq> None \<longleftrightarrow> is_obj a"
  by (cases a) (auto simp: is_obj_def)

lemma map_of_remove: "map_of (filter (\<lambda>(l, _). l \<noteq> k) m) j = (if j = k then None else map_of m j)"
  by (induction m) auto

lemma obj_updates [simp]: "is_obj a \<Longrightarrow> is_obj (jset k v a)" "is_obj a \<Longrightarrow> is_obj (jremove k a)"
  by (auto simp: is_obj_def)

lemma jfield_updates [simp]:
  "is_obj a \<Longrightarrow> jfield (jset k v a) l = (if l = k then Some v else jfield a l)"
  "is_obj a \<Longrightarrow> jfield (jremove k a) l = (if l = k then None else jfield a l)"
  by (auto simp: is_obj_def map_of_remove)

lemma jget_jfield: "jget a k = (case jfield a k of None \<Rightarrow> JNull | Some v \<Rightarrow> v)"
  by (cases a) auto

lemma keys_bt_insert: "fst ` set (bt_insert k v m) = insert k (fst ` set m)"
  using set_keys_bt_insert [of k v m] by (simp add: bt_keys_def)

lemma reserved_object: "reserved_argument (JObj m) \<longleftrightarrow> (\<exists>k \<in> fst ` set m. prefix ''_'' k)"
  by (force simp: reserved_argument_def list_ex_iff)

lemma reserved_jset: "is_obj a \<Longrightarrow> reserved_argument (jset k v a) \<longleftrightarrow> prefix ''_'' k \<or> reserved_argument a"
  by (auto simp: is_obj_def reserved_object keys_bt_insert simp del: set_keys_bt_insert)

lemma reserved_jremove: "is_obj a \<Longrightarrow> reserved_argument (jremove k a) \<Longrightarrow> reserved_argument a"
  by (force simp: is_obj_def reserved_object)

lemma worker_arguments_reserved:
  assumes "is_obj a" "\<not> reserved_argument a"
  shows "\<not> reserved_argument (worker_arguments name w a)"
  using assms by (auto simp: worker_arguments_def Let_def reserved_jset dest!: reserved_jremove [rotated])

lemma worker_arguments_field:
  assumes "is_obj a"
  shows "jfield (worker_arguments name w a) k =
    (if k = ''step'' \<and> (name = ''put_artifact'' \<or> name = ''add_knowledge'') then Some (jstr_opt (wk_step w))
     else if k = ''verified'' then None
     else if k = ''worker'' then Some (JStr (wk_id w))
     else if k = ''task'' then Some (JStr (wk_task w)) else jfield a k)"
  using assms by (simp add: worker_arguments_def Let_def)

section \<open>Confinement\<close>

lemma authorized_confined:
  assumes own: "binding_of env token bound (dk_store d) = Ok (Some p)"
    and shape: "is_obj args" and bound: "check_bound (Some p) name args = Ok ()"
    and task: "authorize_argument p args (dk_store d) = Ok ()"
    and repo: "check_repo env p (Some p) args (dk_store d) = Ok ()"
    and p: "jget args ''project'' = JStr p"
    and same: "\<And>n a t u. confined env (dk_store d) p token n a t \<Longrightarrow> K n a t u = K' n a t u"
  shows "dispatch_authorized env D K name args token d = dispatch_authorized env D K' name args token d"
proof -
  let ?s = "dk_store d"
  from bound have allowed: "project_allowed name" and one: "\<not> all_projects args" and plain: "\<not> reserved_argument args"
    by (auto simp: check_bound_def and_then_Ok_iff)
  from repo have owner: "case as_str (jget args ''repo'') of None \<Rightarrow> True | Some r \<Rightarrow> infer_project env r ?s = Ok (Some p)"
    by (auto simp: check_repo_def and_then_Ok_iff split: option.splits)
  show ?thesis
  proof (cases token)
    case None
    have "confined env ?s p token name args None"
      using allowed one plain owner p task None by (simp add: confined_def within_project_def)
    with same None show ?thesis by (simp add: dispatch_authorized_def thn_def bnd_def guard_def is_obj_iff shape)
  next
    case (Some tk)
    have ok: "confined env ?s p token name (worker_arguments name w args) (Some tk)"
      if w: "authenticate env tk ?s = Ok w" and scope: "worker_scope w args = Ok ()" and "worker_allowed name" for w
    proof -
      note field = worker_arguments_field [OF shape, of name w]
      have get: "jget (worker_arguments name w args) k = jget args k"
        if "k \<notin> {''step'', ''verified'', ''worker'', ''task''}" for k
        using that by (simp add: jget_jfield field)
      have "task_project (wk_task w) ?s = Ok p"
        using own Some w by (auto simp: binding_of_def and_then_Ok_iff or_else_def split: option.splits)
      moreover have "as_worker w name (worker_arguments name w args)"
        using that scope by (auto simp: as_worker_def field jget_jfield worker_scope_def and_then_Ok_iff split: option.splits)
      ultimately show ?thesis
        using allowed one p owner worker_arguments_reserved [OF shape plain] w Some
        by (simp add: confined_def within_project_def all_projects_def get)
    qed
    show ?thesis
      unfolding dispatch_authorized_def ask_store_def Some option.case
      by (intro same_steps thn_same same [OF ok]) simp_all
  qed
qed


lemma shape_obj: "check_shape name args token bound = Ok () \<Longrightarrow> is_obj args"
  unfolding is_obj_iff [symmetric] check_shape_def by (cases "as_object args") (simp_all add: bail_def)

text \<open>
  C36. Credentials confine every call. When a call comes with worker credentials or over a
  connection bound to a project, two versions of the operations that agree on the calls within the
  credentials' scope give the same outcome: no argument can make the runtime run an operation the
  credentials do not allow, on another project, on the repository of another project, with reserved
  arguments, or, for a worker, on another task, in another worker's name, for another worker's step
  or with a claim that its result is verified.
\<close>

theorem credentials_confine_calls:
  assumes "binding_of env token bound (dk_store d) = Ok (Some p)"
    and "\<And>n a t u. confined env (dk_store d) p token n a t \<Longrightarrow> K n a t u = K' n a t u"
  shows "dispatch_scoped env D K name args token bound d = dispatch_scoped env D K' name args token bound d"
proof -
  have step: "dispatch_authorized env D K name (jset ''project'' (JStr q) args) token d =
      dispatch_authorized env D K' name (jset ''project'' (JStr q) args) token d"
    if shape: "check_shape name args token bound = Ok ()" and b: "check_bound (Some p) name args = Ok ()"
      and q: "chosen_project env name args (Some p) requested d = Ok q"
      and task: "authorize_argument q args (dk_store d) = Ok ()"
      and repo: "check_repo env q (Some p) (jset ''project'' (JStr q) args) (dk_store d) = Ok ()" for q requested
  proof (rule authorized_confined [OF assms(1)])
    have obj: "is_obj args" using shape by (rule shape_obj)
    then show "is_obj (jset ''project'' (JStr q) args)" by simp
    from q have eq: "q = p" by (simp add: chosen_project_def or_else_def)
    from b obj show "check_bound (Some p) name (jset ''project'' (JStr q) args) = Ok ()"
      by (auto simp: check_bound_def and_then_Ok_iff all_projects_def jget_jfield reserved_jset)
    show "authorize_argument p (jset ''project'' (JStr q) args) (dk_store d) = Ok ()"
      using task obj by (simp add: authorize_argument_def eq jget_jfield)
    show "check_repo env p (Some p) (jset ''project'' (JStr q) args) (dk_store d) = Ok ()" using repo by (simp add: eq)
    show "jget (jset ''project'' (JStr q) args) ''project'' = JStr p" using obj by (simp add: eq jget_jfield)
  qed (rule assms(2))
  show ?thesis
    unfolding dispatch_scoped_def ask_store_def Let_def
  proof (intro same_steps, goal_cases)
    case (1 _ binding _ requested _ q _ earlier)
    show ?case
    proof (cases earlier)
      case None
      have binding: "binding = Some p" using 1(2) assms(1) by simp
      have "dispatch_authorized env D K name (jset ''project'' (JStr q) args) token d =
          dispatch_authorized env D K' name (jset ''project'' (JStr q) args) token d"
        if "check_repo env q binding (jset ''project'' (JStr q) args) (dk_store d) = Ok ()"
        by (rule step) (use 1 that in \<open>simp_all add: binding\<close>)
      then show ?thesis
        unfolding None option.case by (intro thn_ask_same) (simp add: binding)
    qed simp
  qed
qed

end
