(* ===== verification/Operations.thy ===== *)
theory Operations
  imports Dispatch Budget
begin

text \<open>
  What an authorised call runs (src/src/protocol.rs, after the checks of \<^verbatim>\<open>dispatch_authorized\<close>):
  the submission of tasks, local (\<^verbatim>\<open>bind_run_context\<close> of src/src/run.rs) and remote
  (src/src/remote_submit.rs), and the table of the operations on a task. The operations of the
  components that are not modelled are parameters.
\<close>

section \<open>Arguments\<close>

definition arg_string :: "json \<Rightarrow> string \<Rightarrow> string result" where
  "arg_string v k = context_of (as_str (jget v k)) (''missing string '' @ k)"

definition arg_strings :: "json \<Rightarrow> string \<Rightarrow> string list result" where
  "arg_strings v k =
     and_then (context_of (as_array (jget v k)) (k @ '' must be a string array''))
       (map_result (\<lambda>x. context_of (as_str x) (k @ '' must be a string array'')))"

section \<open>Submitting a task\<close>

text \<open>
  What a submission reads outside the store: the settings of a project's repository, its templates
  and their digests, the authority of a maintenance submission, the selection of an execution, the
  inventory of runtimes, and for a remote submission the directory of runtimes, the peers approved
  for delegation and the snapshot of the repository.
\<close>

record submit_world =
  sw_deps :: submit_deps
  sw_ids :: fresh_ids
  sw_source_id :: "nat \<Rightarrow> string"
  sw_settings :: "string \<Rightarrow> string \<Rightarrow> store \<Rightarrow> settings result"
  sw_templates :: "string \<Rightarrow> (string, template) btree result"
  sw_digest :: "template \<Rightarrow> string"
  sw_maintenance :: "json \<Rightarrow> string \<Rightarrow> store \<Rightarrow> json option result"
  sw_check_maintenance :: "json \<Rightarrow> settings \<Rightarrow> store \<Rightarrow> unit result"
  sw_pin_maintenance :: "string \<Rightarrow> json \<Rightarrow> (store, unit) oper"
  sw_selection :: "string \<Rightarrow> json \<Rightarrow> store \<Rightarrow> json result"
  sw_pin_selection :: "string \<Rightarrow> json \<Rightarrow> (store, unit) oper"
  sw_check_target :: "string \<Rightarrow> string option \<Rightarrow> store \<Rightarrow> unit result"
  sw_inventory :: "string \<Rightarrow> store \<Rightarrow> json result"
  sw_resolve_runtime :: "string \<Rightarrow> store \<Rightarrow> string result"
  sw_peers :: "store \<Rightarrow> string list result"
  sw_clean :: "string \<Rightarrow> bool result"
  sw_snapshot :: "string \<Rightarrow> json result"
  sw_write_file :: "string \<Rightarrow> unit result"

definition valid_identity :: "string \<Rightarrow> bool" where
  "valid_identity v = (\<not> blank v \<and> length v \<le> 256 \<and> \<not> has_control v)"

definition insert_binding :: "run_binding_row \<Rightarrow> (desk, unit) oper" where
  "insert_binding r = (\<lambda>d.
     if exists_row (\<lambda>q. ru_task q = ru_task r) (dk_bindings d) then (d, bail ''UNIQUE constraint failed'')
     else if ru_task r \<notin> tk_id ` set (tasks (dk_store d)) \<or> ru_project r \<notin> pj_id ` set (projects (dk_store d))
     then (d, bail ''FOREIGN KEY constraint failed'')
     else (d\<lparr>dk_bindings := dk_bindings d @ [r]\<rparr>, Ok ()))"

definition bind_run_context :: "env \<Rightarrow> string \<Rightarrow> string option \<Rightarrow> string option \<Rightarrow> (desk, unit) oper" where
  "bind_run_context env oid thread brief =
     thn (guard ((thread = None) = (brief = None)) ''thread_id and brief_id must be supplied together'')
    (thn (guard (case (thread, brief) of (Some t, Some b) \<Rightarrow> valid_identity t | _ \<Rightarrow> True) ''invalid thread_id'')
    (thn (guard (case (thread, brief) of (Some t, Some b) \<Rightarrow> valid_identity b | _ \<Rightarrow> True) ''invalid brief_id'')
    (bnd (ask_store (task_project oid)) (\<lambda>project.
     bnd (ask_store (tenant project)) (\<lambda>ten.
     thn (insert_binding \<lparr>ru_task = oid, ru_project = project, ru_tenant = ten, ru_thread = thread, ru_brief = brief,
            ru_created = now env\<rparr>)
         (on_store (event env oid ''run.bound'' (jobj [(''project_id'', JStr project), (''tenant_id'', JStr ten),
            (''thread_id'', jstr_opt thread), (''brief_id'', jstr_opt brief)]))))))))"

fun add_sources :: "env \<Rightarrow> (nat \<Rightarrow> string) \<Rightarrow> nat \<Rightarrow> string \<Rightarrow> json list \<Rightarrow> (desk, unit) oper" where
  "add_sources env source_id i oid [] = ret ()"
| "add_sources env source_id i oid (r # rs) =
     bnd (on_store (update_context env (source_id i) oid r)) (\<lambda>_. add_sources env source_id (Suc i) oid rs)"

definition compiled_plan :: "submit_world \<Rightarrow> string \<Rightarrow> settings \<Rightarrow> json \<Rightarrow> string \<Rightarrow> plan result" where
  "compiled_plan W repo sg args objective =
     and_then (sw_templates W repo) (\<lambda>templates.
     compile (sw_digest W) (unwrap_or (as_str (jget args ''template'')) (sg_default_template sg)) templates
       [(''task'', objective)])"

definition selected_execution :: "submit_world \<Rightarrow> string \<Rightarrow> json \<Rightarrow> store \<Rightarrow> json option result" where
  "selected_execution W project args s =
     (case jfield args ''execution'' of
        None \<Rightarrow> Ok None
      | Some input \<Rightarrow> and_then (sw_selection W project input s) (\<lambda>v. Ok (Some v)))"

definition check_roles :: "settings \<Rightarrow> plan \<Rightarrow> unit result" where
  "check_roles sg plan =
     each_result (\<lambda>p. require (\<not> (s_kind p = ''agent'' \<and> map_of (sg_executors sg) (s_role p) = None))
       ''unconfigured executor role'') (p_steps plan)"

definition pin_execution :: "submit_world \<Rightarrow> string \<Rightarrow> string option \<Rightarrow> json option \<Rightarrow> (desk, unit) oper" where
  "pin_execution W oid peer selection =
     (case selection of
        None \<Rightarrow> ret ()
      | Some sel \<Rightarrow> thn (on_store (sw_pin_selection W oid sel)) (ask_store (sw_check_target W oid peer)))"

definition local_tx :: "env \<Rightarrow> submit_world \<Rightarrow> json \<Rightarrow> string \<Rightarrow> string \<Rightarrow> string \<Rightarrow> settings \<Rightarrow> plan \<Rightarrow> json option \<Rightarrow>
    json option \<Rightarrow> (desk, json) oper" where
  "local_tx env W args project objective repo sg plan maintenance selection =
     bnd (on_store (submit_project env (sw_deps W) (sw_ids W) project objective repo sg plan)) (\<lambda>oid.
     thn (case maintenance of None \<Rightarrow> ret () | Some m \<Rightarrow> on_store (sw_pin_maintenance W oid m))
    (thn (bind_run_context env oid (as_str (jget args ''thread_id'')) (as_str (jget args ''brief_id'')))
    (thn (pin_execution W oid None selection)
    (thn (case as_array (jget args ''context'') of None \<Rightarrow> ret () | Some rs \<Rightarrow> add_sources env (sw_source_id W) 0 oid rs)
         (ret (jobj [(''id'', JStr oid)]))))))"

definition submit_local :: "env \<Rightarrow> submit_world \<Rightarrow> json \<Rightarrow> (desk, json) oper" where
  "submit_local env W args =
     bnd (ask_state (\<lambda>_. and_then (arg_string args ''repo'') (canonical_path env))) (\<lambda>repo.
     bnd (ask_state (\<lambda>_. arg_string args ''project'')) (\<lambda>project.
     bnd (ask_store (sw_maintenance W args repo)) (\<lambda>maintenance.
     bnd (ask_store (sw_settings W project repo)) (\<lambda>sg.
     thn (ask_store (\<lambda>s. case maintenance of None \<Rightarrow> Ok () | Some m \<Rightarrow> sw_check_maintenance W m sg s))
    (bnd (ask_state (\<lambda>_. arg_string args ''objective'')) (\<lambda>objective.
     bnd (ask_state (\<lambda>_. compiled_plan W repo sg args objective)) (\<lambda>plan.
     bnd (ask_store (selected_execution W project args)) (\<lambda>selection.
     thn (ask_state (\<lambda>_. if selection = None then check_roles sg plan else Ok ()))
         (atomic (local_tx env W args project objective repo sg plan maintenance selection))))))))))"

section \<open>Submitting to another runtime\<close>

definition remote_tx :: "env \<Rightarrow> submit_world \<Rightarrow> json \<Rightarrow> string \<Rightarrow> string \<Rightarrow> string \<Rightarrow> string \<Rightarrow> settings \<Rightarrow> plan \<Rightarrow>
    json option \<Rightarrow> json \<Rightarrow> (desk, json) oper" where
  "remote_tx env W args peer project objective repo sg plan selection snapshot =
     bnd (on_store (submit_project env (sw_deps W) (sw_ids W) project objective repo sg plan)) (\<lambda>oid.
     thn (bind_run_context env oid (as_str (jget args ''thread_id'')) (as_str (jget args ''brief_id'')))
    (thn (pin_execution W oid (Some peer) selection)
    (thn (add_sources env (sw_source_id W) 0 oid (unwrap_or (as_array (jget args ''context'')) []))
    (thn (on_store (artifact env (sw_write_file W) oid None ''caller-snapshot'' (json_text env snapshot) (jobj []) False))
    (thn (on_store (insert_unique rl_task remote_links remote_links_update
            \<lparr>rl_task = oid, rl_peer = peer, rl_state = ''pending'', rl_request = oid\<rparr>))
    (thn (when_op (sg_autonomy sg) (on_store (modify (set_task_status (\<lambda>t. tk_id t = oid) ''remote''))))
    (thn (on_store (event env oid ''task.remote_queued'' (jobj [(''runtime'', JStr peer),
            (''source_commit'', jget snapshot ''commit'')])))
         (ret (jobj [(''id'', JStr oid), (''runtime'', JStr peer),
            (''status'', JStr (if sg_autonomy sg then ''remote'' else ''waiting''))])))))))))"

definition submit_remote :: "env \<Rightarrow> submit_world \<Rightarrow> json \<Rightarrow> (desk, json) oper" where
  "submit_remote env W args =
     bnd (ask_store (\<lambda>s. and_then (context_of (as_str (jget args ''on'')) ''runtime required'') (\<lambda>r. sw_resolve_runtime W r s))) (\<lambda>peer.
     bnd (ask_store (resolve_project (unwrap_or (as_str (jget args ''project'')) default_project))) (\<lambda>project.
     bnd (on_store (runtime_allowed env project peer)) (\<lambda>granted.
     thn (guard granted ''runtime is not granted this project'')
    (bnd (ask_store (sw_peers W)) (\<lambda>peers.
     thn (guard (peer \<in> set peers) ''runtime is not approved for delegation'')
    (bnd (ask_state (\<lambda>_. and_then (context_of (as_str (jget args ''repo'')) ''repository required'') (canonical_path env))) (\<lambda>repo.
     bnd (ask_state (\<lambda>_. sw_clean W repo)) (\<lambda>clean.
     thn (guard clean ''remote work needs a clean repository'')
    (bnd (ask_state (\<lambda>_. sw_snapshot W repo)) (\<lambda>snapshot.
     bnd (ask_store (sw_settings W project repo)) (\<lambda>sg.
     bnd (ask_state (\<lambda>_. context_of (as_str (jget args ''objective'')) ''objective required'')) (\<lambda>objective.
     bnd (ask_state (\<lambda>_. compiled_plan W repo sg args objective)) (\<lambda>plan.
     bnd (ask_store (selected_execution W project args)) (\<lambda>selection.
     atomic (remote_tx env W args peer project objective repo sg plan selection snapshot)))))))))))))))"

section \<open>Operations on a task\<close>

text \<open>
  What the table needs from elsewhere: the operations that are tried before a task is looked up
  (delivery, maintenance, projects, accounts, capabilities, login, setup, skills, the directory of
  runtimes, management, shutdown), the forwarding of a child's calls to its owner, the other
  operations on a task, and what the modelled operations take from their own environments.
\<close>

record operation_deps =
  od_world :: submit_world
  od_other :: "string \<Rightarrow> json \<Rightarrow> string option \<Rightarrow> (desk, json option) oper"
  od_forward :: "string \<Rightarrow> string \<Rightarrow> json \<Rightarrow> (store, json option) oper"
  od_rest :: "string \<Rightarrow> string \<Rightarrow> json \<Rightarrow> string option \<Rightarrow> (desk, json) oper"
  od_fresh :: "string \<Rightarrow> string"
  od_revision :: revision_deps
  od_delegate :: delegate_deps
  od_alive :: "int \<Rightarrow> bool"
  od_parse_steps :: "json \<Rightarrow> step list result"

definition done_json :: "string \<Rightarrow> json" where
  "done_json k = jobj [(k, JBool True)]"

definition json_or_empty :: "json option \<Rightarrow> json" where
  "json_or_empty v = (case v of None \<Rightarrow> jobj [] | Some x \<Rightarrow> x)"

definition release_idle :: "string \<Rightarrow> (store, json) oper" where
  "release_idle wid =
     bnd (ask_state (get_worker wid)) (\<lambda>w.
     thn (guard (wk_status w \<in> {''idle'', ''stopped''}) ''stop or reconcile worker before releasing claims'')
    (thn (require_state (\<lambda>s. \<not> exists_row (\<lambda>a. at_worker a = Some wid \<and> at_state a \<in> {''running'', ''uncertain''}) (attempts s))
            ''worker still has an active or uncertain attempt'')
    (thn (modify (release_claims wid))
         (ret (done_json ''released'')))))"

definition put_artifact :: "env \<Rightarrow> submit_world \<Rightarrow> string \<Rightarrow> json \<Rightarrow> (store, json) oper" where
  "put_artifact env W oid args =
     bnd (ask_state (\<lambda>_. arg_string args ''content'')) (\<lambda>content.
     bnd (ask_state (\<lambda>s. Ok (exists_row (\<lambda>a. al_task a = oid \<and> al_hash a = sha256 env content) (artifact_links s)))) (\<lambda>seen.
     bnd (ask_state (\<lambda>_. arg_string args ''name'')) (\<lambda>name.
     bnd (artifact env (sw_write_file W) oid (as_str (jget args ''step'')) name content (json_or_empty (jfield args ''inputs''))
            (unwrap_or (as_bool (jget args ''verified'')) False)) (\<lambda>hash.
     thn (case as_str (jget args ''worker'') of
            None \<Rightarrow> ret ()
          | Some w \<Rightarrow> when_op (\<not> seen) (progress env w ''artifact_committed'' hash))
         (ret (jobj [(''hash'', JStr hash)]))))))"

definition steer_call :: "env \<Rightarrow> operation_deps \<Rightarrow> string \<Rightarrow> json \<Rightarrow> (store, json) oper" where
  "steer_call env H oid args =
     bnd (ask_state (\<lambda>_. arg_string args ''body'')) (\<lambda>body.
     steer env (od_fresh H ''secret'') oid (unwrap_or (as_str (jget args ''id'')) (od_fresh H ''id'')) body
       (json_or_empty (jfield args ''refs'')) (unwrap_or (as_bool (jget args ''actionable'')) True)
       (or_else (as_str (jget args ''worker'')) (as_str (jget args ''destination''))))"

definition send_call :: "env \<Rightarrow> string \<Rightarrow> json \<Rightarrow> (store, json) oper" where
  "send_call env oid args =
     bnd (ask_state (\<lambda>_. arg_string args ''worker'')) (\<lambda>worker.
     bnd (ask_state (\<lambda>_. arg_string args ''id'')) (\<lambda>mid.
     bnd (ask_state (\<lambda>_. arg_string args ''destination'')) (\<lambda>destination.
     bnd (ask_state (\<lambda>_. arg_string args ''body'')) (\<lambda>body.
     send env oid worker mid destination body (json_or_empty (jfield args ''refs''))
       (unwrap_or (as_bool (jget args ''actionable'')) False)))))"

definition claim_call :: "env \<Rightarrow> string \<Rightarrow> json \<Rightarrow> (store, json) oper" where
  "claim_call env oid args =
     bnd (ask_state (\<lambda>_. arg_string args ''worker'')) (\<lambda>worker.
     bnd (ask_state (\<lambda>_. arg_strings args ''paths'')) (\<lambda>paths.
     thn (claim env oid worker paths) (ret (done_json ''claimed''))))"

definition transfer_call :: "env \<Rightarrow> string \<Rightarrow> json \<Rightarrow> (store, json) oper" where
  "transfer_call env oid args =
     bnd (ask_state (\<lambda>_. arg_string args ''worker'')) (\<lambda>worker.
     bnd (ask_state (\<lambda>_. arg_string args ''to'')) (\<lambda>recipient.
     bnd (ask_state (\<lambda>_. arg_string args ''path'')) (\<lambda>path.
     thn (transfer env oid worker recipient path) (ret (done_json ''transferred'')))))"

definition acknowledge_call :: "env \<Rightarrow> json \<Rightarrow> (store, json) oper" where
  "acknowledge_call env args =
     bnd (ask_state (\<lambda>_. arg_string args ''worker'')) (\<lambda>worker.
     bnd (ask_state (\<lambda>_. arg_strings args ''ids'')) (\<lambda>ids.
     thn (acknowledge env worker ids) (ret (done_json ''acknowledged''))))"

definition register_call :: "env \<Rightarrow> operation_deps \<Rightarrow> string \<Rightarrow> json \<Rightarrow> (store, json) oper" where
  "register_call env H oid args =
     bnd (register env (od_fresh H ''worker'') (od_fresh H ''token'') oid (as_str (jget args ''step''))) (\<lambda>(wid, token).
     ret (jobj [(''worker'', JStr wid), (''token'', JStr token)]))"

text \<open>
  The modelled rows of the table. The check of an answer to an administrative question needs to
  know whether a worker asks.
\<close>

definition store_call :: "env \<Rightarrow> operation_deps \<Rightarrow> string \<Rightarrow> string \<Rightarrow> json \<Rightarrow> bool \<Rightarrow> (store, json) oper option" where
  "store_call env H oid name args by_worker =
     (if name = ''register_worker'' then Some (register_call env H oid args)
      else if name = ''steer'' then Some (steer_call env H oid args)
      else if name = ''send_message'' then Some (send_call env oid args)
      else if name = ''acknowledge_messages'' then Some (acknowledge_call env args)
      else if name = ''join_channel'' then Some
        (bnd (ask_state (\<lambda>_. arg_string args ''channel'')) (\<lambda>channel.
         thn (guard (channel \<noteq> [] \<and> channel \<noteq> ''task'') ''invalid channel name'')
        (bnd (ask_state (\<lambda>_. arg_string args ''worker'')) (\<lambda>worker. join_channel oid worker channel))))
      else if name = ''set_worker_status'' then Some
        (bnd (ask_state (\<lambda>_. arg_string args ''status'')) (\<lambda>st.
         thn (guard (st \<in> {''idle'', ''working'', ''blocked'', ''stopped''}) ''invalid worker status'')
        (bnd (ask_state (\<lambda>_. arg_string args ''worker'')) (\<lambda>worker. change_worker_status env oid worker st args))))
      else if name = ''claim_paths'' then Some (claim_call env oid args)
      else if name = ''transfer_claim'' then Some (transfer_call env oid args)
      else if name = ''release_claims'' then Some (bnd (ask_state (\<lambda>_. arg_string args ''worker'')) release_idle)
      else if name = ''cancel'' then Some (cancel env oid)
      else if name = ''resume'' then Some (resume env oid args)
      else if name = ''request_question'' then Some (ask env (od_fresh H ''question'') (od_fresh H ''request'') oid args)
      else if name = ''delegate_task'' then Some (delegate env (od_delegate H) (sw_ids (od_world H)) oid args)
      else if name = ''update_context'' then Some (update_context env (od_fresh H ''source'') oid args)
      else if name = ''read_context'' then Some (ask_state (contract oid (unwrap_or (as_i64 (jget args ''after'')) 0)
        (unwrap_or (as_i64 (jget args ''limit'')) 50)))
      else if name = ''escalate_question'' then Some (question_action env oid args True)
      else if name = ''ack_events'' then Some (thn (ack_events oid args) (ret (done_json ''acknowledged'')))
      else if name = ''answer_question'' then Some (answer_question env oid by_worker args)
      else if name = ''reconcile_worker'' then Some
        (bnd (ask_state (\<lambda>_. arg_string args ''worker'')) (reconcile_worker env (od_alive H) oid))
      else if name = ''propose_steps'' then Some
        (bnd (ask_state (\<lambda>_. arg_string args ''worker'')) (\<lambda>worker.
         bnd (ask_state (\<lambda>_. od_parse_steps H (jget args ''steps''))) (\<lambda>ps.
         propose_steps env (od_revision H) (sw_ids (od_world H)) oid worker ps)))
      else if name = ''add_steps'' then Some
        (bnd (ask_state (\<lambda>_. od_parse_steps H (jget args ''steps''))) (\<lambda>ps.
         add_steps env (od_revision H) (sw_ids (od_world H)) oid ps))
      else if name = ''put_artifact'' then Some (put_artifact env (od_world H) oid args)
      else None)"

definition forwarded_operations :: "string list" where
  "forwarded_operations = [''integrate_child'', ''add_knowledge'', ''knowledge'', ''knowledge_options'', ''knowledge_edges'',
     ''retract_knowledge'', ''link_knowledge'', ''delegate_task'', ''list_children'', ''read_context'',
     ''pending_questions'', ''request_question'', ''answer_question'', ''escalate_question'']"

text \<open>
  A question asked at the owner is also a row here, so that the step waits for it. A question without
  a text is left out by the insert, and then only an existing row satisfies the foreign key.
\<close>

definition keep_remote_question :: "string \<Rightarrow> json \<Rightarrow> json \<Rightarrow> (store, unit) oper" where
  "keep_remote_question oid args result =
     bnd (ask_state (\<lambda>_. context_of (as_str (jget result ''id'')) ''remote question ID'')) (\<lambda>qid.
     atomic (
       thn (case as_str (jget args ''question'') of
              None \<Rightarrow> ret ()
            | Some q \<Rightarrow> modify (\<lambda>s. s\<lparr>questions := insert_ignore qu_id
                \<lparr>qu_id = qid, qu_task = oid, qu_question = q, qu_answer = None\<rparr> (questions s)\<rparr>))
      (thn (require_state (\<lambda>s. qid \<in> qu_id ` set (questions s)) ''FOREIGN KEY constraint failed'')
           (modify (\<lambda>s. s\<lparr>question_context := insert_ignore qc_question
              \<lparr>qc_question = qid, qc_purpose = ''input'', qc_worker = as_str (jget args ''worker'')\<rparr> (question_context s)\<rparr>)))))"

definition forward_call :: "operation_deps \<Rightarrow> string \<Rightarrow> string \<Rightarrow> json \<Rightarrow> (store, json option) oper" where
  "forward_call H oid name args =
     (if name \<in> set forwarded_operations then
        bnd (od_forward H oid name args) (\<lambda>r.
        case r of
          None \<Rightarrow> ret None
        | Some v \<Rightarrow> thn (when_op (name = ''request_question'') (keep_remote_question oid args v)) (ret (Some v)))
      else ret None)"

text \<open>The record of a worker's call, with the timing of its running attempt.\<close>

definition latest_running :: "string \<Rightarrow> store \<Rightarrow> attempt_row option" where
  "latest_running wid s =
     (case sort_key (\<lambda>a. - at_started a) (filter (\<lambda>a. at_worker a = Some wid \<and> at_state a = ''running'') (attempts s)) of
        [] \<Rightarrow> None | a # _ \<Rightarrow> Some a)"

definition record_call :: "env \<Rightarrow> string \<Rightarrow> string \<Rightarrow> json \<Rightarrow> (store, unit) oper" where
  "record_call env oid name args =
     bnd (ask_state (\<lambda>_. arg_string args ''worker'')) (\<lambda>worker.
     bnd (ask_state (get_worker worker)) (\<lambda>w.
     bnd (ask_state (\<lambda>s. Ok (latest_running worker s))) (\<lambda>a.
     bnd (ask_state (\<lambda>s. Ok (case a of None \<Rightarrow> JNull | Some r \<Rightarrow> budget_status env (at_id r) s))) (\<lambda>timing.
     event env oid ''coordination.call'' (jobj [(''worker'', JStr worker), (''step'', jstr_opt (wk_step w)),
       (''attempt'', jstr_opt (map_option at_id a)), (''tool'', JStr name), (''timing'', timing)])))))"

definition worker_of_task :: "string \<Rightarrow> json \<Rightarrow> store \<Rightarrow> unit result" where
  "worker_of_task oid args s =
     (case as_str (jget args ''worker'') of
        None \<Rightarrow> Ok ()
      | Some wid \<Rightarrow> and_then (get_worker wid s) (\<lambda>w. require (wk_task w = oid) ''worker belongs to another task''))"

definition task_call :: "env \<Rightarrow> operation_deps \<Rightarrow> handler" where
  "task_call env H name args token =
     bnd (ask_state (\<lambda>_. arg_string args ''task'')) (\<lambda>oid.
     bnd (ask_store (get_task oid)) (\<lambda>_.
     thn (when_op (token \<noteq> None \<and> worker_allowed name) (on_store (record_call env oid name args)))
    (thn (ask_store (worker_of_task oid args))
    (bnd (on_store (forward_call H oid name args)) (\<lambda>remote.
     case remote of
       Some v \<Rightarrow> ret v
     | None \<Rightarrow>
         (case store_call env H oid name args (token \<noteq> None) of
            Some m \<Rightarrow> on_store m
          | None \<Rightarrow> od_rest H oid name args token))))))"

section \<open>The call\<close>

text \<open>An execution that is selected on another runtime sends the submission there.\<close>

definition place_execution :: "submit_world \<Rightarrow> json \<Rightarrow> (desk, json) oper" where
  "place_execution W args =
     (if as_object (jget args ''execution'') = None then ret args
      else
        bnd (ask_state (\<lambda>_. arg_string args ''project'')) (\<lambda>project.
        bnd (ask_store (sw_selection W project (jget args ''execution''))) (\<lambda>sel.
        bnd (ask_state (\<lambda>_. context_of (as_str (jget (jget sel ''selected'') ''runtime'')) ''selected runtime'')) (\<lambda>chosen.
        bnd (ask_store (sw_inventory W project)) (\<lambda>inventory.
        bnd (ask_state (\<lambda>_. context_of (as_array (jget inventory ''runtimes'')) ''runtimes'')) (\<lambda>rs.
        let here = list_ex (\<lambda>r. jget r ''local'' = JBool True \<and> jget r ''runtime'' = JStr chosen) rs in
        ret (if \<not> here \<and> jget args ''on'' = JNull then jset ''on'' (JStr chosen) args else args)))))))"

definition submit_placed :: "env \<Rightarrow> submit_world \<Rightarrow> json \<Rightarrow> (desk, json) oper" where
  "submit_placed env W args =
     thn (guard (jfield args ''upstream_maintenance'' = None \<or> jget args ''on'' = JNull \<or> jget args ''on'' = JStr ''local'')
            ''remote maintenance execution is not budget-qualified'')
    (bnd (place_execution W args) (\<lambda>args.
     if jget args ''on'' \<noteq> JNull \<and> jget args ''on'' \<noteq> JStr ''local''
     then thn (guard (jfield args ''upstream_maintenance'' = None) ''remote maintenance execution is not budget-qualified'')
              (submit_remote env W args)
     else submit_local env W args))"

text \<open>
  The call without a request id, and the full one: a submission with a request id is dispatched again
  without it, once, by the receipts.
\<close>

definition perform_plain :: "env \<Rightarrow> operation_deps \<Rightarrow> handler" where
  "perform_plain env H name args token =
     bnd (od_other H name args token) (\<lambda>found.
     case found of
       Some v \<Rightarrow> ret v
     | None \<Rightarrow>
         if name = ''submit_task'' then submit_placed env (od_world H) args
         else if name = ''submission_close_unadmitted'' then close_unadmitted env (od_fresh H ''receipt'') args
         else task_call env H name args token)"

definition perform :: "env \<Rightarrow> dispatch_deps \<Rightarrow> operation_deps \<Rightarrow> handler" where
  "perform env D H name args token =
     (if name = ''submit_task'' \<and> jfield args ''request_id'' \<noteq> None then
        submit_request env (\<lambda>input. dispatch env D (perform_plain env H) ''submit_task'' input None) args
      else perform_plain env H name args token)"

end
