(* ===== verification/Receipts_Facts.thy ===== *)
theory Receipts_Facts
  imports Operations
begin

text \<open>
  The receipts of a runtime as a write-once register: what a request was answered first is what
  it stays, whatever is submitted, closed or done elsewhere later.
\<close>

section \<open>The abstract register\<close>

datatype settlement = Admitted json | Closed json

text \<open>The first value written to a key stays.\<close>

definition settle_once :: "('k \<rightharpoonup> 'v) \<Rightarrow> 'k \<times> 'v \<Rightarrow> ('k \<rightharpoonup> 'v)" where
  "settle_once reg e = (case reg (fst e) of None \<Rightarrow> reg(fst e \<mapsto> snd e) | Some _ \<Rightarrow> reg)"

lemma settle_once_keeps: "reg k = Some v \<Longrightarrow> settle_once reg e k = Some v"
  by (auto simp: settle_once_def split: option.split)

lemma settle_once_known: "reg (fst e) = Some v \<Longrightarrow> settle_once reg e = reg"
  by (simp add: settle_once_def)

text \<open>What the tables say about a request: its receipt, or else its fence.\<close>

definition settled :: "desk \<Rightarrow> string \<times> string \<rightharpoonup> settlement" where
  "settled d k =
     (case receipts_of (fst k) (snd k) d of
        (_, r) # _ \<Rightarrow> Some (Admitted (sb_response r))
      | [] \<Rightarrow> map_option (Closed \<circ> fe_response)
          (find (\<lambda>f. fe_project f = fst k \<and> fe_request f = snd k) (dk_fences d)))"

section \<open>Operations that leave the tables alone\<close>

definition tables :: "desk \<Rightarrow> submission_row list \<times> submission_row list \<times> fence_row list" where
  "tables d = (dk_legacy d, dk_receipts d, dk_fences d)"

definition leaves_tables :: "(desk, 'a) oper \<Rightarrow> bool" where
  "leaves_tables m \<longleftrightarrow> (\<forall>d. tables (fst (m d)) = tables d)"

lemma leaves_tablesD: "leaves_tables m \<Longrightarrow> m d = (t, r) \<Longrightarrow> tables t = tables d"
  unfolding leaves_tables_def by (metis fst_conv)

lemma leaves_ret [simp]: "leaves_tables (ret x)" "leaves_tables (throw e)" "leaves_tables (ask_state f)" "leaves_tables (guard b e)"
  by (simp_all add: leaves_tables_def oper_defs)

lemma leaves_on_store [simp]: "leaves_tables (on_store m)"
  by (simp add: leaves_tables_def on_store_def tables_def split: prod.split)

lemma leaves_bnd: "leaves_tables m \<Longrightarrow> (\<And>x. leaves_tables (f x)) \<Longrightarrow> leaves_tables (bnd m f)"
  unfolding leaves_tables_def bnd_def by (simp split: prod.split sum.split) (metis fst_conv)

lemma leaves_thn: "leaves_tables m \<Longrightarrow> leaves_tables n \<Longrightarrow> leaves_tables (thn m n)"
  by (simp add: thn_def leaves_bnd)

lemma leaves_atomic: "leaves_tables m \<Longrightarrow> leaves_tables (atomic m)"
  unfolding leaves_tables_def atomic_def by (simp split: prod.split sum.split) (metis fst_conv)

lemmas leaves_rules = leaves_bnd leaves_thn leaves_atomic

lemma receipts_of_tables: "tables t = tables d \<Longrightarrow> receipts_of p q t = receipts_of p q d"
  by (simp add: tables_def receipts_of_def)

lemma fenced_tables: "tables t = tables d \<Longrightarrow> fenced p q t = fenced p q d"
  by (simp add: tables_def fenced_def)

lemma settled_at:
  assumes "receipts_of (fst k) (snd k) t = receipts_of (fst k) (snd k) d"
    and "find (\<lambda>f. fe_project f = fst k \<and> fe_request f = snd k) (dk_fences t) =
      find (\<lambda>f. fe_project f = fst k \<and> fe_request f = snd k) (dk_fences d)"
  shows "settled t k = settled d k"
  unfolding settled_def assms ..

lemma settled_tables:
  assumes "tables t = tables d"
  shows "settled t = settled d"
proof (rule ext, rule settled_at)
  fix k
  show "receipts_of (fst k) (snd k) t = receipts_of (fst k) (snd k) d"
    using assms by (rule receipts_of_tables)
qed (use assms in \<open>simp add: tables_def\<close>)

lemma find_append_skip: "\<not> P x \<Longrightarrow> find P (xs @ [x]) = find P xs"
  by (induction xs) auto

lemma not_fenced_find: "\<not> fenced p q d \<Longrightarrow> find (\<lambda>f. fe_project f = p \<and> fe_request f = q) (dk_fences d) = None"
  by (auto simp: fenced_def exists_row_iff find_None_iff)

section \<open>The inserts\<close>

lemma receipts_of_insert:
  "receipts_of p q (d\<lparr>dk_receipts := dk_receipts d @ [r]\<rparr>) =
     (if sb_project r = p \<and> sb_request r = q then
        map (Pair False) (filter (\<lambda>r. sb_project r = p \<and> sb_request r = q) (dk_receipts d)) @ (False, r) #
        (if p = default_project then map (Pair True) (filter (\<lambda>r. sb_request r = q) (dk_legacy d)) else [])
      else receipts_of p q d)"
  by (simp add: receipts_of_def)

lemma insert_receipt_settles:
  assumes run: "insert_receipt r d = (t, Ok u)" and new: "receipts_of (sb_project r) (sb_request r) d = []"
  shows "settled t = settle_once (settled d) ((sb_project r, sb_request r), Admitted (sb_response r))"
proof -
  from run have t: "t = d\<lparr>dk_receipts := dk_receipts d @ [r]\<rparr>" and nf: "\<not> fenced (sb_project r) (sb_request r) d"
    by (auto simp: insert_receipt_def bail_def split: if_splits)
  have none: "settled d (sb_project r, sb_request r) = None"
    unfolding settled_def by (simp add: new not_fenced_find [OF nf])
  have "settled t k = ((settled d)((sb_project r, sb_request r) \<mapsto> Admitted (sb_response r))) k" for k
  proof (cases "k = (sb_project r, sb_request r)")
    case True
    moreover have "filter (\<lambda>q. sb_project q = sb_project r \<and> sb_request q = sb_request r) (dk_receipts d) = []"
      using new by (simp add: receipts_of_def)
    ultimately show ?thesis by (simp add: t settled_def receipts_of_insert)
  next
    case False
    then have "\<not> (sb_project r = fst k \<and> sb_request r = snd k)" by (cases k) auto
    then have "receipts_of (fst k) (snd k) t = receipts_of (fst k) (snd k) d"
      unfolding t receipts_of_insert by (rule if_not_P)
    then have "settled t k = settled d k" by (rule settled_at) (simp add: t)
    with False show ?thesis by simp
  qed
  with none show ?thesis by (simp add: settle_once_def fun_eq_iff)
qed

lemma insert_fence_settles:
  assumes run: "insert_fence f d = (t, Ok u)"
  shows "settled t = settle_once (settled d) ((fe_project f, fe_request f), Closed (fe_response f))"
proof -
  let ?P = "\<lambda>k g. fe_project g = fst k \<and> fe_request g = snd k"
  from run have t: "t = d\<lparr>dk_fences := dk_fences d @ [f]\<rparr>" and nf: "\<not> fenced (fe_project f) (fe_request f) d"
    and nr: "receipts_of (fe_project f) (fe_request f) d = []"
    by (auto simp: insert_fence_def bail_def receipts_of_def filter_empty_conv exists_row_iff split: if_splits)
  note nofence = not_fenced_find [OF nf]
  have none: "settled d (fe_project f, fe_request f) = None"  by (simp add: settled_def nr nofence)
  have same: "receipts_of p q t = receipts_of p q d" for p q by (simp add: t receipts_of_def)
  have other: "find (?P k) (dk_fences d @ [f]) = find (?P k) (dk_fences d)" if "k \<noteq> (fe_project f, fe_request f)" for k
    by (rule find_append_skip) (use that in \<open>cases k; auto\<close>)
  have "settled t k = ((settled d)((fe_project f, fe_request f) \<mapsto> Closed (fe_response f))) k" for k
  proof (cases "k = (fe_project f, fe_request f)")
    case True
    then show ?thesis unfolding settled_def by (simp add: same nr) (simp add: t find_append_new nofence)
  next
    case False
    have "settled t k = settled d k"
      by (rule settled_at [OF same]) (use other [OF False] in \<open>simp add: t\<close>)
    with False show ?thesis by simp
  qed
  with none show ?thesis by (simp add: settle_once_def fun_eq_iff)
qed


section \<open>The operations on the register\<close>

lemma existing_receipt_settled:
  assumes "existing_receipt env args d = Ok (Some r)" "as_str (jget args ''request_id'') = Some q"
    "as_str (jget args ''project'') = Some p"
  shows "settled d (p, q) = Some (Admitted r)"
  using assms by (auto simp: existing_receipt_def settled_def and_then_Ok_iff context_of_Ok_iff split: list.splits)

lemma existing_receipt_none:
  assumes "existing_receipt env args d = Ok None" "as_str (jget args ''request_id'') = Some q"
    "as_str (jget args ''project'') = Some p"
  shows "receipts_of p q d = []"
  using assms by (auto simp: existing_receipt_def and_then_Ok_iff context_of_Ok_iff split: list.splits)

text \<open>The request that a submission names, in the project that it resolves to.\<close>

definition submit_key :: "json \<Rightarrow> desk \<Rightarrow> (string \<times> string) result" where
  "submit_key args d =
     and_then (context_of (as_str (jget args ''request_id'')) ''request_id must be a string'') (\<lambda>q.
     and_then (resolve_project (unwrap_or (as_str (jget args ''project'')) default_project) (dk_store d)) (\<lambda>p.
     Ok (p, q)))"

lemma request_is_object: "as_str (jget args k) = Some q \<Longrightarrow> \<exists>m. args = JObj m"
  by (cases args) auto

lemma submit_settles:
  assumes run: "submit_request env create args d = (t, Ok r)"
    and leaves: "\<And>input. leaves_tables (create input)"
    and key: "submit_key args d = Ok k"
  shows "settled t = settle_once (settled d) (k, Admitted r)" and "settled t k = Some (Admitted r)"
proof -
  obtain p q where k: "k = (p, q)" and q: "as_str (jget args ''request_id'') = Some q"
    and p: "resolve_project (unwrap_or (as_str (jget args ''project'')) default_project) (dk_store d) = Ok p"
    using key by (auto simp: submit_key_def and_then_Ok_iff context_of_Ok_iff)
  obtain m where m: "args = JObj m" using request_is_object [OF q] by blast
  let ?c = "jset ''project'' (JStr p) args"
  have cq: "as_str (jget ?c ''request_id'') = Some q" and cp: "as_str (jget ?c ''project'') = Some p"
    using q by (auto simp: m)
  from run obtain old where old: "existing_receipt env ?c d = Ok old"
    and rest: "(case old of Some r \<Rightarrow> ret r | None \<Rightarrow> admit_new create p q (args_hash env ?c) ?c) d = (t, Ok r)"
    by (auto simp: submit_request_def ask_store_def runs q p Let_def context_of_Ok_iff)
  have "settled t = settle_once (settled d) (k, Admitted r) \<and> settled t k = Some (Admitted r)"
  proof (cases old)
    case (Some r')
    with rest have "t = d" "r' = r" by (auto simp: ret_run)
    then show ?thesis
      using existing_receipt_settled [OF _ cq cp, of env d r] old Some by (simp add: k settle_once_known)
  next
    case None
    with rest obtain u task where u: "create (jremove ''request_id'' ?c) d = (u, Ok r)"
      and ins: "insert_receipt \<lparr>sb_project = p, sb_request = q, sb_hash = args_hash env ?c, sb_task = task,
        sb_response = r\<rparr> u = (t, Ok ())"
      by (auto simp: admit_new_def run_iffs)
    from u have same: "tables u = tables d" by (rule leaves_tablesD [OF leaves])
    have new: "receipts_of p q u = []"
      using existing_receipt_none [OF _ cq cp] old None by (simp add: receipts_of_tables [OF same])
    have eq: "settled t = settle_once (settled d) (k, Admitted r)"
      using insert_receipt_settles [OF ins] new by (simp add: settled_tables [OF same] k)
    moreover have "settled d k = None"
    proof -
      have "\<not> fenced p q u" using ins by (auto simp: insert_receipt_def bail_def split: if_splits)
      then show ?thesis
        unfolding settled_tables [OF same, symmetric] by (simp add: settled_def k new not_fenced_find)
    qed
    ultimately show ?thesis by (simp add: settle_once_def)
  qed
  then show "settled t = settle_once (settled d) (k, Admitted r)" "settled t k = Some (Admitted r)" by blast+
qed


text \<open>A failed submission or settlement changes nothing: its transaction is rolled back.\<close>

lemma submit_fails: "submit_request env create args d = (t, Err e) \<Longrightarrow> t = d"
proof -
  have "reverts (submit_request env create args)"
    unfolding submit_request_def ask_store_def Let_def by (intro reverts_ask reverts_guard reverts_atomic)
  then show "submit_request env create args d = (t, Err e) \<Longrightarrow> t = d" by (simp add: reverts_def)
qed

lemma close_fails: "close_unadmitted env fresh args d = (t, Err e) \<Longrightarrow> t = d"
proof -
  have "reverts (close_unadmitted env fresh args)"
    unfolding close_unadmitted_def ask_store_def Let_def by (intro reverts_ask reverts_atomic)
  then show "close_unadmitted env fresh args d = (t, Err e) \<Longrightarrow> t = d" by (simp add: reverts_def)
qed

text \<open>What the answer of a settlement says about the request it names.\<close>

definition closing_of :: "json \<Rightarrow> settlement" where
  "closing_of r = (if jget r ''state'' = JStr ''admitted'' then Admitted (jget r ''receipt'') else Closed r)"

lemma admitted_receipt_settled:
  assumes "admitted_receipt p q d = Ok (Some r)"
  shows "settled d (p, q) = Some (closing_of r)"
  using assms by (auto simp: admitted_receipt_def settled_def closing_of_def and_then_Ok_iff jget_jobj split: list.splits)

lemma admitted_receipt_none: "admitted_receipt p q d = Ok None \<Longrightarrow> receipts_of p q d = []"
  by (auto simp: admitted_receipt_def and_then_Ok_iff split: list.splits)

lemma fence_receipt_closing: "closing_of (fence_receipt env c h i) = Closed (fence_receipt env c h i)"
  by (simp add: closing_of_def fence_receipt_def jget_jobj)

lemma close_tx_cases:
  assumes "close_tx env c fresh d = (t, Ok r)"
  obtains (admitted) "t = d" "admitted_receipt (cq_project c) (cq_request_id c) d = Ok (Some r)"
    | (known) f where "admitted_receipt (cq_project c) (cq_request_id c) d = Ok None"
        "fence_of (cq_project c) (cq_request_id c) d = Some f" "t = d" "prior_fence c (binding_hash env c) f = Ok r"
    | (new) "admitted_receipt (cq_project c) (cq_request_id c) d = Ok None"
        "fence_of (cq_project c) (cq_request_id c) d = None" "new_fence env c fresh d = (t, Ok r)"
proof -
  from assms obtain a where a: "admitted_receipt (cq_project c) (cq_request_id c) d = Ok a"
    by (auto simp: close_tx_def bnd_ask_runs)
  show ?thesis
  proof (cases a)
    case (Some x)
    with assms a admitted show ?thesis by (simp add: close_tx_def bnd_ask_runs ret_run)
  next
    case None
    with assms a known new show ?thesis
      by (cases "fence_of (cq_project c) (cq_request_id c) d") (simp_all add: close_tx_def bnd_ask_runs ask_run)
  qed
qed

lemma close_settles:
  assumes run: "close_unadmitted env fresh args d = (t, Ok r)" and c: "parse_close args = Ok c"
    and k: "k = (cq_project c, cq_request_id c)"
  shows "settled t = settle_once (settled d) (k, closing_of r)" and "settled t k = Some (closing_of r)"
proof -
  let ?h = "binding_hash env c"
  let ?f = "\<lparr>fe_project = cq_project c, fe_request = cq_request_id c, fe_binding_hash = ?h,
    fe_response = fence_receipt env c ?h fresh\<rparr>"
  from run c have tx: "close_tx env c fresh d = (t, Ok r)"
    by (auto simp: close_unadmitted_def ask_store_def runs)
  then consider (admitted) "t = d" "admitted_receipt (cq_project c) (cq_request_id c) d = Ok (Some r)"
    | (known) f where "admitted_receipt (cq_project c) (cq_request_id c) d = Ok None"
        "fence_of (cq_project c) (cq_request_id c) d = Some f" "t = d" "prior_fence c ?h f = Ok r"
    | (new) "admitted_receipt (cq_project c) (cq_request_id c) d = Ok None"
        "fence_of (cq_project c) (cq_request_id c) d = None" "new_fence env c fresh d = (t, Ok r)"
    by (rule close_tx_cases)
  then have "settled t = settle_once (settled d) (k, closing_of r) \<and> settled t k = Some (closing_of r)"
  proof cases
    case admitted
    then show ?thesis using admitted_receipt_settled by (simp add: k settle_once_known)
  next
    case (known f)
    then have "fe_response f = r" and "jget r ''state'' = JStr ''not_admitted''"
      by (auto simp: prior_fence_def Let_def and_then_Ok_iff)
    then have "settled d k = Some (closing_of r)"
      using admitted_receipt_none [OF known(1)] known(2)
      by (simp add: settled_def k closing_of_def fence_of_def)
    with known show ?thesis by (simp add: settle_once_known)
  next
    case new
    then have ins: "insert_fence ?f d = (t, Ok ())" and r: "r = fe_response ?f"
      by (auto simp: new_fence_def Let_def thn_run ret_run)
    have "settled d k = None"
      using admitted_receipt_none [OF new(1)] new(2) by (simp add: settled_def k fence_of_def)
    then show ?thesis
      using insert_fence_settles [OF ins] r by (simp add: k settle_once_def fence_receipt_closing)
  qed
  then show "settled t = settle_once (settled d) (k, closing_of r)" "settled t k = Some (closing_of r)" by blast+
qed

section \<open>The submission itself\<close>

lemma leaves_insert_binding [simp]: "leaves_tables (insert_binding r)"
  by (simp add: leaves_tables_def insert_binding_def tables_def)

lemma leaves_add_sources: "leaves_tables (add_sources env f i oid rs)"
  by (induction rs arbitrary: i) (simp_all add: leaves_bnd)

lemma leaves_option: "leaves_tables m \<Longrightarrow> (\<And>x. leaves_tables (f x)) \<Longrightarrow> leaves_tables (case v of None \<Rightarrow> m | Some x \<Rightarrow> f x)"
  by (cases v) simp_all

lemma leaves_if: "leaves_tables m \<Longrightarrow> leaves_tables n \<Longrightarrow> leaves_tables (if b then m else n)"
  by simp

lemma leaves_when: "leaves_tables m \<Longrightarrow> leaves_tables (when_op b m)"
  by (simp add: when_op_def)

lemma leaves_ask_store [simp]: "leaves_tables (ask_store f)"
  by (simp add: ask_store_def)

lemmas leaving = leaves_bnd leaves_thn leaves_atomic leaves_option leaves_if leaves_when leaves_ret leaves_on_store
  leaves_ask_store leaves_insert_binding leaves_add_sources

lemma leaves_submit_placed: "leaves_tables (submit_placed env W args)"
  unfolding submit_placed_def place_execution_def submit_remote_def remote_tx_def submit_local_def local_tx_def
    bind_run_context_def pin_execution_def Let_def
  by (intro leaving)

text \<open>
  The submission that the receipts dispatch again leaves their tables alone, if the operations of the
  components that are not modelled do.
\<close>

definition quiet :: "dispatch_deps \<Rightarrow> operation_deps \<Rightarrow> bool" where
  "quiet D H \<longleftrightarrow> (\<forall>n a t. leaves_tables (od_other H n a t)) \<and> (\<forall>a. leaves_tables (dp_inspect D a))"

lemma submission_leaves_tables:
  assumes "quiet D H"
  shows "leaves_tables (dispatch env D (perform_plain env H) ''submit_task'' input None)"
  using assms unfolding quiet_def dispatch_def dispatch_scoped_def dispatch_authorized_def perform_plain_def Let_def
  by (simp add: leaving leaves_submit_placed)

lemma perform_submission:
  "submit_key args d = Ok k \<Longrightarrow> perform env D H ''submit_task'' args token d =
     submit_request env (\<lambda>input. dispatch env D (perform_plain env H) ''submit_task'' input None) args d"
  by (cases args) (auto simp: perform_def submit_key_def and_then_Ok_iff context_of_Ok_iff split: option.splits)

section \<open>Histories\<close>

text \<open>
  A history of the desk with the answers it gave: submissions and settlements that succeed log the
  request and what they answered, the ones that fail and the other operations of the runtime log
  nothing. The clock may differ in every step.
\<close>

inductive desk_history :: "desk \<Rightarrow> ((string \<times> string) \<times> settlement) list \<Rightarrow> desk \<Rightarrow> bool" where
  opened: "desk_history d [] d"
| submitted: "desk_history d ans u \<Longrightarrow> quiet D H \<Longrightarrow> submit_key args u = Ok k \<Longrightarrow>
    perform env D H ''submit_task'' args token u = (t, Ok r) \<Longrightarrow> desk_history d (ans @ [(k, Admitted r)]) t"
| submit_failed: "desk_history d ans u \<Longrightarrow> submit_key args u = Ok k \<Longrightarrow>
    perform env D H ''submit_task'' args token u = (t, Err e) \<Longrightarrow> desk_history d ans t"
| closed: "desk_history d ans u \<Longrightarrow> close_unadmitted env fresh args u = (t, Ok r) \<Longrightarrow> parse_close args = Ok c \<Longrightarrow>
    desk_history d (ans @ [((cq_project c, cq_request_id c), closing_of r)]) t"
| close_failed: "desk_history d ans u \<Longrightarrow> close_unadmitted env fresh args u = (t, Err e) \<Longrightarrow> desk_history d ans t"
| elsewhere: "desk_history d ans u \<Longrightarrow> leaves_tables (m :: (desk, json) oper) \<Longrightarrow> m u = (t, x) \<Longrightarrow> desk_history d ans t"

lemma history_is_register:
  assumes "desk_history d ans t"
  shows "settled t = foldl settle_once (settled d) ans" and "\<And>e. e \<in> set ans \<Longrightarrow> settled t (fst e) = Some (snd e)"
proof -
  have "settled t = foldl settle_once (settled d) ans \<and> (\<forall>e \<in> set ans. settled t (fst e) = Some (snd e))"
    using assms
  proof induction
    case (submitted d ans u D H args k env token t r)
    note s = submit_settles [OF submitted(4) [unfolded perform_submission [OF submitted(3)]]
        submission_leaves_tables [OF submitted(2)] submitted(3)]
    have "settled t (fst e) = Some (snd e)" if "e \<in> set ans" for e
      unfolding s(1) by (rule settle_once_keeps) (use submitted.IH that in blast)
    with submitted.IH s show ?case by auto
  next
    case (closed d ans u env fresh args t r c)
    note s = close_settles [OF closed(2,3) refl]
    have "settled t (fst e) = Some (snd e)" if "e \<in> set ans" for e
      unfolding s(1) by (rule settle_once_keeps) (use closed.IH that in blast)
    with closed.IH s show ?case by auto
  next
    case (elsewhere d ans u m t x)
    from leaves_tablesD [OF elsewhere(2,3)] have same: "settled t = settled u" by (rule settled_tables)
    show ?case unfolding same by (rule elsewhere.IH)
  qed (auto simp: perform_submission dest: submit_fails close_fails)
  then show "settled t = foldl settle_once (settled d) ans"
    and "\<And>e. e \<in> set ans \<Longrightarrow> settled t (fst e) = Some (snd e)" by blast+
qed

subsection \<open>Receipts and fences exclude each other\<close>

definition desk_ok :: "desk \<Rightarrow> bool" where
  "desk_ok d \<longleftrightarrow> distinct (map (\<lambda>r. (sb_project r, sb_request r)) (dk_receipts d)) \<and>
     distinct (map (\<lambda>f. (fe_project f, fe_request f)) (dk_fences d)) \<and>
     (\<forall>f \<in> set (dk_fences d). receipts_of (fe_project f) (fe_request f) d = [])"

lemma desk_ok_tables: "tables t = tables d \<Longrightarrow> desk_ok t = desk_ok d"
  by (simp add: desk_ok_def tables_def receipts_of_def)

lemma keeps_insert_receipt: "keeps desk_ok (insert_receipt r)"
  by (rule keepsI)
    (auto simp: insert_receipt_def desk_ok_def receipts_of_insert fenced_def exists_row_iff)

lemma insert_fence_run:
  "insert_fence f d = (t, x) \<Longrightarrow> t = d \<or> t = d\<lparr>dk_fences := dk_fences d @ [f]\<rparr> \<and>
     \<not> fenced (fe_project f) (fe_request f) d \<and> receipts_of (fe_project f) (fe_request f) d = []"
  by (auto simp: insert_fence_def bail_def receipts_of_def filter_empty_conv exists_row_iff split: if_splits)

lemma keeps_insert_fence: "keeps desk_ok (insert_fence f)"
proof (rule keepsI)
  fix d assume ok: "desk_ok d"
  let ?t = "d\<lparr>dk_fences := dk_fences d @ [f]\<rparr>"
  have same: "receipts_of p q ?t = receipts_of p q d" for p q by (simp add: receipts_of_def)
  consider "fst (insert_fence f d) = d"
    | "fst (insert_fence f d) = ?t" "\<not> fenced (fe_project f) (fe_request f) d"
      "receipts_of (fe_project f) (fe_request f) d = []"
    using insert_fence_run [of f d] by (cases "insert_fence f d") auto
  then show "desk_ok (fst (insert_fence f d))"
  proof cases
    case 1
    with ok show ?thesis by simp
  next
    case 2
    with ok show ?thesis by (auto simp: desk_ok_def same fenced_def exists_row_iff)
  qed
qed

lemma keeps_leaves: "leaves_tables m \<Longrightarrow> keeps desk_ok m"
  unfolding keeps_def leaves_tables_def using desk_ok_tables by blast

lemma keeps_submit:
  assumes "\<And>input. leaves_tables (create input)"
  shows "keeps desk_ok (submit_request env create args)"
  unfolding submit_request_def ask_store_def admit_new_def Let_def
  by (intro keeps_bnd keeps_thn keeps_atomic keeps_option keeps_ask keeps_guard keeps_ret keeps_insert_receipt
      keeps_leaves [OF assms])

lemma keeps_close: "keeps desk_ok (close_unadmitted env fresh args)"
  unfolding close_unadmitted_def ask_store_def close_tx_def new_fence_def Let_def
  by (intro keeps_bnd keeps_thn keeps_atomic keeps_option keeps_ask keeps_ret keeps_insert_fence)

lemma history_desk_ok: "desk_history d ans t \<Longrightarrow> desk_ok d \<Longrightarrow> desk_ok t"
proof (induction rule: desk_history.induct)
  case (submitted d ans u D H args k env token t r)
  show ?case
    by (rule keepsD [OF keeps_submit [OF submission_leaves_tables [OF submitted.hyps(2)]] submitted.IH [OF submitted.prems]
      submitted.hyps(4) [unfolded perform_submission [OF submitted.hyps(3)]]])
next
  case (elsewhere d ans u m t x)
  show ?case by (rule keepsD [OF keeps_leaves [OF elsewhere.hyps(2)] elsewhere.IH [OF elsewhere.prems] elsewhere.hyps(3)])
next
  case (closed d ans u env fresh args t r c)
  show ?case by (rule keepsD [OF keeps_close closed.IH [OF closed.prems] closed.hyps(2)])
qed (auto simp: perform_submission dest: submit_fails close_fails)

text \<open>
  C35. Submission receipts are a write-once register. In every history of submissions and
  settlements, with any other operations of the runtime between them, the tables hold exactly what
  the answers wrote first: the state is the initial state with the answers folded in by
  \<open>settle_once\<close>, and every answer given at any time is what the tables still say at the end. So a
  request is admitted as one task at most, a repeated request gets the first answer, a request closed
  as not admitted is never admitted later, and one that was admitted is never closed; and if no
  request had both a receipt and a fence, none ever has.
\<close>

theorem requests_settled_once:
  assumes "desk_history d ans t"
  shows "settled t = foldl settle_once (settled d) ans \<and>
    (\<forall>e \<in> set ans. settled t (fst e) = Some (snd e)) \<and> (desk_ok d \<longrightarrow> desk_ok t)"
  using history_is_register [OF assms] history_desk_ok [OF assms] by blast

end
