(* ===== verification/Dispatch_Examples.thy ===== *)
theory Dispatch_Examples
  imports Dispatch_Facts Receipts_Facts
begin

text \<open>
  A runtime with one project on which submissions are dispatched, and a worker of a task: the
  witnesses of \<open>Dispatch_Facts\<close> and \<open>Receipts_Facts\<close>.
\<close>

section \<open>A runtime with one project\<close>

definition office_world :: submit_world where
  "office_world = \<lparr>sw_deps = \<lparr>sd_check_skills = (\<lambda>_. Ok ()), sd_bind_skills = (\<lambda>_. ret ()), sd_select_bundles = (\<lambda>_ _. ret ())\<rparr>,
     sw_ids = \<lparr>fi_task = ''a'', fi_repository = ''repo'', fi_clone = ''clone'', fi_question = ''q'', fi_step = (\<lambda>_. ''step'')\<rparr>,
     sw_source_id = (\<lambda>_. ''c''), sw_settings = (\<lambda>_ _ _. Ok sample_settings),
     sw_templates = (\<lambda>_. Ok [(''simulated'', \<lparr>t_name = ''simulated'', t_version = ''1'', t_inputs = [''task''], t_outputs = [],
        t_steps = [(default_step ''x'')\<lparr>s_kind := ''simulated''\<rparr>]\<rparr>)]),
     sw_digest = (\<lambda>_. ''h''), sw_maintenance = (\<lambda>_ _ _. Ok None), sw_check_maintenance = (\<lambda>_ _ _. Ok ()),
     sw_pin_maintenance = (\<lambda>_ _. ret ()), sw_selection = (\<lambda>_ _ _. Ok JNull), sw_pin_selection = (\<lambda>_ _. ret ()),
     sw_check_target = (\<lambda>_ _ _. Ok ()), sw_inventory = (\<lambda>_ _. Ok JNull), sw_resolve_runtime = (\<lambda>r _. Ok r),
     sw_peers = (\<lambda>_. Ok []), sw_clean = (\<lambda>_. Ok True), sw_snapshot = (\<lambda>_. Ok JNull), sw_write_file = (\<lambda>_. Ok ())\<rparr>"

definition no_target :: delegate_deps where
  "no_target = \<lparr>dd_submit = sw_deps office_world, dd_target = (\<lambda>a _. Ok a), dd_workspace = (\<lambda>_ _. Ok ''/work''),
     dd_dirty = (\<lambda>_. Ok False), dd_templates = sw_templates office_world, dd_digest = (\<lambda>_. ''h''),
     dd_skills = (\<lambda>_ _ _. Ok []), dd_check_budget = (\<lambda>_ _. Ok ()), dd_budgeted = (\<lambda>_ _. Ok False),
     dd_inherit = (\<lambda>_ _ _. ret ()), dd_allocate = (\<lambda>_ child _. ret (''/clone/'' @ child, ''base'')),
     dd_bundles = (\<lambda>_ _ _. ret ()), dd_pack = (\<lambda>_. Ok JNull), dd_write_file = (\<lambda>_. Ok ()), dd_peers = Ok []\<rparr>"

definition office_ops :: operation_deps where
  "office_ops = \<lparr>od_world = office_world, od_other = (\<lambda>_ _ _. ret None), od_forward = (\<lambda>_ _ _. ret None),
     od_rest = (\<lambda>_ _ _ _. throw ''unknown operation''), od_fresh = (\<lambda>k. k),
     od_revision = \<lparr>rd_check_skills = (\<lambda>_ _ _. Ok ()), rd_revise_child = (\<lambda>_ _. ret None)\<rparr>,
     od_delegate = no_target, od_alive = (\<lambda>_. False), od_parse_steps = (\<lambda>_. Ok [])\<rparr>"

definition office_deps :: dispatch_deps where
  "office_deps = \<lparr>dp_check_local = (\<lambda>_ _. Ok ()), dp_inspect = (\<lambda>_. ret None)\<rparr>"

definition office :: desk where
  "office = \<lparr>dk_store = empty_store\<lparr>projects := [\<lparr>pj_id = ''default'', pj_slug = ''default'', pj_name = ''Default'',
       pj_concurrency = 4, pj_isolation = ''native'', pj_created = 0\<rparr>]\<rparr>,
     dk_legacy = [], dk_receipts = [], dk_fences = [], dk_bindings = []\<rparr>"

definition office_request :: json where
  "office_request = jobj [(''request_id'', JStr ''r1''), (''repo'', JStr ''/src''), (''objective'', JStr ''build'')]"

definition office_submit :: "desk \<Rightarrow> desk \<times> json result" where
  "office_submit = perform sample_env office_deps office_ops ''submit_task'' office_request None"

section \<open>Receipts\<close>

lemma office_quiet: "quiet office_deps office_ops"
  by (simp add: quiet_def office_deps_def office_ops_def)

lemma office_admits: "snd (office_submit office) = Ok (jobj [(''id'', JStr ''a'')])"
  by code_simp

definition office1 :: desk where
  "office1 = fst (office_submit office)"

lemma office_repeats: "snd (office_submit office1) = Ok (jobj [(''id'', JStr ''a'')])"
  by code_simp

lemma office_keys:
  "submit_key office_request office = Ok (''default'', ''r1'')" "submit_key office_request office1 = Ok (''default'', ''r1'')"
  by code_simp+

lemma requests_settled_once_witness:
  "\<exists>t. desk_history office [((''default'', ''r1''), Admitted (jobj [(''id'', JStr ''a'')])),
       ((''default'', ''r1''), Admitted (jobj [(''id'', JStr ''a'')]))] t \<and>
     settled t (''default'', ''r1'') = Some (Admitted (jobj [(''id'', JStr ''a'')]))"
proof -
  let ?e = "((''default'', ''r1''), Admitted (jobj [(''id'', JStr ''a'')]))"
  have "office_submit office = (office1, Ok (jobj [(''id'', JStr ''a'')]))"
    using office_admits by (simp add: office1_def prod_eq_iff)
  then have one: "desk_history office [?e] office1"
    using desk_history.submitted [OF desk_history.opened office_quiet office_keys(1), of sample_env None]
    unfolding office_submit_def by simp
  obtain t where "office_submit office1 = (t, Ok (jobj [(''id'', JStr ''a'')]))"
    using office_repeats by (metis prod.collapse)
  then have two: "desk_history office ([?e] @ [?e]) t"
    unfolding office_submit_def by (rule desk_history.submitted [OF one office_quiet office_keys(2)])
  have "\<forall>e \<in> set ([?e] @ [?e]). settled t (fst e) = Some (snd e)"
    using requests_settled_once [OF two] by blast
  then have "settled t (''default'', ''r1'') = Some (Admitted (jobj [(''id'', JStr ''a'')]))" by simp
  with two show ?thesis by auto
qed

section \<open>A worker's call\<close>

text \<open>
  Two handlers that differ on calls outside the worker's task: the dispatch of the worker's call, which
  asks for a verified artifact, does not tell them apart.
\<close>

definition staffed :: desk where
  "staffed = office1\<lparr>dk_store := (dk_store office1)\<lparr>workers := [sample_worker ''a'' ''w'']\<rparr>\<rparr>"

definition honest :: handler where
  "honest n a t = ret a"

definition rogue :: handler where
  "rogue n a t = (if jget a ''task'' = JStr ''a'' \<and> jfield a ''verified'' = None then ret a else throw ''outside'')"

lemma credentials_confine_calls_witness:
  "dispatch_scoped sample_env office_deps honest ''put_artifact'' (jobj [(''verified'', JBool True)]) (Some ''w'') None staffed =
   dispatch_scoped sample_env office_deps rogue ''put_artifact'' (jobj [(''verified'', JBool True)]) (Some ''w'') None staffed"
proof (rule credentials_confine_calls)
  show "binding_of sample_env (Some ''w'') None (dk_store staffed) = Ok (Some ''default'')" by code_simp
  have w: "authenticate sample_env ''w'' (dk_store staffed) = Ok (sample_worker ''a'' ''w'')" by code_simp
  fix n a t u
  assume "confined sample_env (dk_store staffed) ''default'' (Some ''w'') n a t"
  then have "jget a ''task'' = JStr ''a''" "jfield a ''verified'' = None"
    by (auto simp: confined_def w as_worker_def sample_worker_def)
  then show "honest n a t u = rogue n a t u" by (simp add: honest_def rogue_def)
qed

end
