(* ===== verification/Knowledge.thy ===== *)
theory Knowledge
  imports Delegation
begin

text \<open>
  Shared knowledge (src/src/knowledge.rs): claims that belong to a task, visible to the task or to
  its family, with supersession, retraction, links and paged reads. The tables stand beside the
  store; their triggers, which count every change in the revision, are part of the operations. The
  full-text search of SQLite is a parameter.
\<close>

section \<open>The tables\<close>

record record_row =
  kn_id :: string
  kn_task :: string
  kn_step :: "string option"
  kn_kind :: string
  kn_content :: string
  kn_provenance :: json
  kn_verified :: bool
  kn_inputs :: json

record meta_row =
  km_id :: string
  km_scope :: string
  km_topic :: string
  km_valid_under :: json
  km_origin :: json
  km_superseded_by :: "string option"
  km_retracted :: bool
  km_retraction :: "json option"
  km_created :: int

record edge_row =
  ke_source :: string
  ke_target :: string
  ke_relation :: string

record shelf =
  sh_store :: store
  sh_records :: "record_row list"
  sh_meta :: "meta_row list"
  sh_writes :: "(string \<times> string) list"
  sh_edges :: "edge_row list"
  sh_revision :: int

definition on_shelf :: "(store, 'a) oper \<Rightarrow> (shelf, 'a) oper" where
  "on_shelf m = (\<lambda>k. case m (sh_store k) of (t, r) \<Rightarrow> (k\<lparr>sh_store := t\<rparr>, r))"

definition ask_shelf :: "(store \<Rightarrow> 'a result) \<Rightarrow> (shelf, 'a) oper" where
  "ask_shelf f = ask_state (\<lambda>k. f (sh_store k))"

definition knowledge_scopes :: "string list" where
  "knowledge_scopes = [''task'', ''family'']"

definition knowledge_kinds :: "string list" where
  "knowledge_kinds = [''fact'', ''decision'', ''evidence'']"

definition page_bytes :: int where
  "page_bytes = 256 * 1024"

section \<open>Arguments\<close>

text \<open>An optional argument of a type: absent, well typed, or an error.\<close>

definition optional_arg :: "(json \<Rightarrow> 'a option) \<Rightarrow> json \<Rightarrow> string \<Rightarrow> string \<Rightarrow> 'a option result" where
  "optional_arg f args key msg =
     (case jfield args key of None \<Rightarrow> Ok None | Some v \<Rightarrow> and_then (context_of (f v) msg) (\<lambda>x. Ok (Some x)))"

definition scope_arg :: "json \<Rightarrow> string result" where
  "scope_arg args =
     and_then (optional_arg as_str args ''scope'' ''scope must be task or family'') (\<lambda>v.
     let sc = unwrap_or v ''task'' in
     and_then (require (sc \<in> set knowledge_scopes) ''invalid knowledge scope; expected task or family'') (\<lambda>_. Ok sc))"

definition text_arg :: "json \<Rightarrow> string \<Rightarrow> nat \<Rightarrow> string result" where
  "text_arg args key most =
     and_then (context_of (as_str (jget args key)) (key @ '' must be a string'')) (\<lambda>v.
     and_then (require (\<not> blank v \<and> length v \<le> most) (key @ '' must be nonempty'')) (\<lambda>_. Ok v))"

definition object_arg :: "env \<Rightarrow> json \<Rightarrow> string \<Rightarrow> bool \<Rightarrow> json result" where
  "object_arg env args key needed =
     (let v = (case jfield args key of Some x \<Rightarrow> x | None \<Rightarrow> if needed then JNull else jobj []) in
      and_then (require (as_object v \<noteq> None) (key @ '' must be an object'')) (\<lambda>_.
      and_then (require (json_len env v \<le> 16384) (key @ '' exceeds 16 KiB'')) (\<lambda>_. Ok v)))"

definition strings_arg :: "json \<Rightarrow> string \<Rightarrow> string list result" where
  "strings_arg args key =
     (case jfield args key of
        None \<Rightarrow> Ok []
      | Some v \<Rightarrow>
          and_then (context_of (as_array v) ''invalid type'') (map_result (\<lambda>x. context_of (as_str x) ''invalid type'')))"

text \<open>The vocabulary of a family is the one of its root's settings when it was submitted.\<close>

definition topics :: "string \<Rightarrow> store \<Rightarrow> string list result" where
  "topics task s =
     and_then (tree_root task s) (\<lambda>r0. and_then (get_task r0 s) (\<lambda>t. Ok (sg_knowledge_topics (tk_settings t))))"

definition apply_topics :: "string list \<Rightarrow> json \<Rightarrow> json" where
  "apply_topics ts schema =
     (if ts \<noteq> [] \<and> jfield (jget schema ''properties'') ''topic'' \<noteq> None then
        (let props = jget schema ''properties'' in
         jset ''properties'' (jset ''topic'' (jset ''enum'' (JArr (map JStr ts)) (jget props ''topic'')) props) schema)
      else schema)"

section \<open>Rows and who may see them\<close>

text \<open>A record with its metadata and the root of its task's tree, as the queries join them.\<close>

type_synonym full_row = "record_row \<times> meta_row \<times> string"

definition full_rows :: "shelf \<Rightarrow> full_row list" where
  "full_rows k = [(r, m, tt_root t). r \<leftarrow> sh_records k, m \<leftarrow> filter (\<lambda>m. km_id m = kn_id r) (sh_meta k),
     t \<leftarrow> filter (\<lambda>t. tt_task t = kn_task r) (task_tree (sh_store k))]"

definition row_id :: "full_row \<Rightarrow> string" where "row_id f = kn_id (fst f)"
definition row_task :: "full_row \<Rightarrow> string" where "row_task f = kn_task (fst f)"
definition row_meta :: "full_row \<Rightarrow> meta_row" where "row_meta f = fst (snd f)"
definition row_root :: "full_row \<Rightarrow> string" where "row_root f = snd (snd f)"

definition knowledge_row :: "string \<Rightarrow> shelf \<Rightarrow> full_row result" where
  "knowledge_row key k = context_of (find (\<lambda>f. row_id f = key) (full_rows k)) ''knowledge record not found''"

definition row_visible :: "string \<Rightarrow> string \<Rightarrow> full_row \<Rightarrow> bool" where
  "row_visible task r0 f = (row_task f = task \<or> km_scope (row_meta f) = ''family'' \<and> row_root f = r0)"

definition may_revise :: "string \<Rightarrow> string \<Rightarrow> bool \<Rightarrow> full_row \<Rightarrow> unit result" where
  "may_revise task r0 operator f =
     and_then (require (row_visible task r0 f) ''knowledge record is not visible to this task'') (\<lambda>_.
     require (row_task f = task \<or> operator) ''only the originating task or an operator may revise knowledge'')"

definition row_active :: "full_row \<Rightarrow> bool" where
  "row_active f = (\<not> km_retracted (row_meta f) \<and> km_superseded_by (row_meta f) = None)"

section \<open>Writes\<close>

definition bump :: "shelf \<Rightarrow> shelf" where
  "bump k = k\<lparr>sh_revision := sh_revision k + 1\<rparr>"

text \<open>
  The insert of a record: its trigger adds the metadata row with the defaults and counts the
  revision. The row is also one that hides other tasks' context sources.
\<close>

definition insert_record :: "record_row \<Rightarrow> (shelf, unit) oper" where
  "insert_record r = (\<lambda>k.
     if kn_id r \<in> kn_id ` set (sh_records k) \<or> kn_id r \<in> km_id ` set (sh_meta k)
     then (k, bail ''UNIQUE constraint failed'')
     else if kn_task r \<notin> tk_id ` set (tasks (sh_store k)) then (k, bail ''FOREIGN KEY constraint failed'')
     else (bump (k\<lparr>sh_records := sh_records k @ [r],
        sh_meta := sh_meta k @ [\<lparr>km_id = kn_id r, km_scope = ''task'', km_topic = [], km_valid_under = jobj [],
          km_origin = jobj [], km_superseded_by = None, km_retracted = False, km_retraction = None, km_created = 0\<rparr>],
        sh_store := (sh_store k)\<lparr>knowledge_owners := knowledge_owners (sh_store k) @ [(kn_id r, kn_task r)]\<rparr>\<rparr>), Ok ()))"

text \<open>An update of metadata rows counts the revision once for each row.\<close>

definition update_meta :: "string \<Rightarrow> (meta_row \<Rightarrow> meta_row) \<Rightarrow> shelf \<Rightarrow> shelf" where
  "update_meta key f k =
     k\<lparr>sh_meta := update_rows (\<lambda>m. km_id m = key) f (sh_meta k),
       sh_revision := sh_revision k + int (count_rows (\<lambda>m. km_id m = key) (sh_meta k))\<rparr>"

definition edge_key :: "edge_row \<Rightarrow> string \<times> string \<times> string" where
  "edge_key e = (ke_source e, ke_target e, ke_relation e)"

definition insert_edge :: "edge_row \<Rightarrow> shelf \<Rightarrow> shelf" where
  "insert_edge e k = (if edge_key e \<in> edge_key ` set (sh_edges k) then k else bump (k\<lparr>sh_edges := sh_edges k @ [e]\<rparr>))"

definition insert_write :: "string \<Rightarrow> string \<Rightarrow> (shelf, unit) oper" where
  "insert_write key hash = (\<lambda>k.
     if key \<in> fst ` set (sh_writes k) then (k, bail ''UNIQUE constraint failed'')
     else (k\<lparr>sh_writes := sh_writes k @ [(key, hash)]\<rparr>, Ok ()))"

text \<open>A record that replaces another one points back at it, and the old one is no longer active.\<close>

definition replace_record :: "string \<Rightarrow> string \<Rightarrow> (shelf, unit) oper" where
  "replace_record key old =
     thn (modify (update_meta old (\<lambda>m. m\<lparr>km_superseded_by := Some key\<rparr>)))
         (modify (insert_edge \<lparr>ke_source = key, ke_target = old, ke_relation = ''supersedes''\<rparr>))"

definition check_superseded :: "string \<Rightarrow> string \<Rightarrow> bool \<Rightarrow> string \<Rightarrow> string \<Rightarrow> shelf \<Rightarrow> unit result" where
  "check_superseded task r0 operator sc old k =
     and_then (knowledge_row old k) (\<lambda>f.
     and_then (may_revise task r0 operator f) (\<lambda>_.
     and_then (require (km_scope (row_meta f) = sc) ''supersession must preserve knowledge scope'') (\<lambda>_.
     require (row_active f) ''cannot supersede an inactive claim'')))"

text \<open>What a write says, after its arguments were checked.\<close>

record claim_input =
  ci_key :: string
  ci_scope :: string
  ci_kind :: string
  ci_content :: string
  ci_provenance :: json
  ci_conditions :: json
  ci_topic :: string
  ci_step :: "string option"
  ci_supersedes :: "string list"
  ci_origin :: json
  ci_verified :: bool
  ci_inputs :: json
  ci_root :: string

definition check_topic :: "json \<Rightarrow> string \<Rightarrow> string list \<Rightarrow> unit result" where
  "check_topic args topic vocabulary =
     require (\<not> (jfield args ''topic'' \<noteq> None \<and> vocabulary \<noteq> [] \<and> topic \<notin> set vocabulary)) ''unknown knowledge topic''"

definition claim_input_of :: "env \<Rightarrow> string \<Rightarrow> string \<Rightarrow> json \<Rightarrow> bool \<Rightarrow> store \<Rightarrow> claim_input result" where
  "claim_input_of env fresh task args operator s =
     and_then (scope_arg args) (\<lambda>sc.
     and_then (text_arg args ''kind'' 32) (\<lambda>kind.
     and_then (require (kind \<in> set knowledge_kinds) ''invalid knowledge kind'') (\<lambda>_.
     and_then (text_arg args ''content'' 65536) (\<lambda>content.
     and_then (object_arg env args ''provenance'' True) (\<lambda>provenance.
     and_then (object_arg env args ''valid_under'' False) (\<lambda>conditions.
     and_then (optional_arg as_str args ''topic'' ''topic must be a string'') (\<lambda>topic0.
     let topic = unwrap_or topic0 [] in
     and_then (require (length topic \<le> 128) ''topic exceeds 128 bytes'') (\<lambda>_.
     and_then (topics task s) (\<lambda>vocabulary.
     and_then (check_topic args topic vocabulary) (\<lambda>_.
     let stp = as_str (jget args ''step'') in
     and_then (require (case stp of None \<Rightarrow> True | Some i \<Rightarrow> i \<in> st_id ` set (steps_of task s)) ''step not in task'') (\<lambda>_.
     and_then (tree_root task s) (\<lambda>r0.
     and_then (strings_arg args ''supersedes'') (\<lambda>olds.
     and_then (require (length olds \<le> 100) ''at most 100 superseded records'') (\<lambda>_.
     and_then (optional_arg as_str args ''id'' ''id must be a string'') (\<lambda>key0.
     let key = unwrap_or key0 fresh in
     and_then (require (key \<noteq> [] \<and> length key \<le> 128) ''invalid knowledge id'') (\<lambda>_.
     let origin = (case jfield args ''_knowledge_origin'' of Some v \<Rightarrow> v
           | None \<Rightarrow> jobj [(''task'', JStr task), (''step'', jstr_opt stp)]);
         inputs = (case jfield args ''inputs'' of Some v \<Rightarrow> v | None \<Rightarrow> JNull) in
     and_then (require (json_len env inputs \<le> 16384) ''inputs exceeds 16 KiB'') (\<lambda>_.
     Ok \<lparr>ci_key = key, ci_scope = sc, ci_kind = kind, ci_content = content, ci_provenance = provenance,
         ci_conditions = conditions, ci_topic = topic, ci_step = stp, ci_supersedes = remdups_adj (sort olds),
         ci_origin = origin, ci_verified = (operator \<and> unwrap_or (as_bool (jget args ''verified'')) False),
         ci_inputs = inputs, ci_root = r0\<rparr>)))))))))))))))))"

definition claim_hash :: "env \<Rightarrow> string \<Rightarrow> claim_input \<Rightarrow> string" where
  "claim_hash env task c = sha256 env (json_text env (jobj [(''task'', JStr task), (''scope'', JStr (ci_scope c)),
     (''kind'', JStr (ci_kind c)), (''content'', JStr (ci_content c)), (''provenance'', ci_provenance c),
     (''conditions'', ci_conditions c), (''topic'', JStr (ci_topic c)), (''origin'', ci_origin c),
     (''verified'', JBool (ci_verified c)), (''inputs'', ci_inputs c),
     (''supersedes'', JArr (map JStr (ci_supersedes c)))]))"

definition store_claim :: "env \<Rightarrow> string \<Rightarrow> claim_input \<Rightarrow> (shelf, unit) oper" where
  "store_claim env task c =
     thn (insert_record \<lparr>kn_id = ci_key c, kn_task = task, kn_step = ci_step c, kn_kind = ci_kind c,
            kn_content = ci_content c, kn_provenance = ci_provenance c, kn_verified = ci_verified c, kn_inputs = ci_inputs c\<rparr>)
    (thn (modify (update_meta (ci_key c) (\<lambda>m. m\<lparr>km_scope := ci_scope c, km_topic := ci_topic c,
            km_valid_under := ci_conditions c, km_origin := ci_origin c, km_created := now env\<rparr>)))
    (thn (insert_write (ci_key c) (claim_hash env task c))
         (each_op (replace_record (ci_key c)) (ci_supersedes c))))"

definition add_tx :: "env \<Rightarrow> string \<Rightarrow> bool \<Rightarrow> claim_input \<Rightarrow> (shelf, json) oper" where
  "add_tx env task operator c =
     bnd (ask_state (\<lambda>k. Ok (map_of (sh_writes k) (ci_key c)))) (\<lambda>old.
     case old of
       Some hash \<Rightarrow>
         thn (guard (hash = claim_hash env task c) ''knowledge id reused with a different claim'')
             (ret (jobj [(''id'', JStr (ci_key c)), (''duplicate'', JBool True)]))
     | None \<Rightarrow>
         thn (ask_state (\<lambda>k. each_result (\<lambda>old. check_superseded task (ci_root c) operator (ci_scope c) old k) (ci_supersedes c)))
        (thn (store_claim env task c)
        (thn (on_shelf (event env task ''knowledge.added'' (jobj [(''id'', JStr (ci_key c)), (''scope'', JStr (ci_scope c)),
                (''topic'', JStr (ci_topic c)), (''supersedes'', JArr (map JStr (ci_supersedes c))), (''step'', jstr_opt (ci_step c))])))
             (ret (jobj [(''id'', JStr (ci_key c))])))))"

definition add_knowledge :: "env \<Rightarrow> string \<Rightarrow> string \<Rightarrow> json \<Rightarrow> bool \<Rightarrow> (shelf, json) oper" where
  "add_knowledge env fresh task args operator =
     bnd (ask_shelf (claim_input_of env fresh task args operator)) (\<lambda>c. atomic (add_tx env task operator c))"

definition retract_tx :: "env \<Rightarrow> string \<Rightarrow> string \<Rightarrow> bool \<Rightarrow> string \<Rightarrow> string \<Rightarrow> json \<Rightarrow> (shelf, json) oper" where
  "retract_tx env task r0 operator key reason provenance =
     bnd (ask_state (knowledge_row key)) (\<lambda>f.
     thn (ask_state (\<lambda>_. may_revise task r0 operator f))
    (if km_retracted (row_meta f) then
       bnd (ask_state (\<lambda>_. context_of (km_retraction (row_meta f)) ''retraction'')) (\<lambda>previous.
       thn (guard (jget previous ''reason'' = JStr reason \<and> jget previous ''provenance'' = provenance)
              ''knowledge already retracted with different provenance'')
           (ret (jobj [(''id'', JStr key), (''retracted'', JBool True), (''duplicate'', JBool True)])))
     else
       thn (modify (update_meta key (\<lambda>m. m\<lparr>km_retracted := True, km_retraction := Some (jobj [(''task'', JStr task),
              (''reason'', JStr reason), (''provenance'', provenance), (''at'', JInt (now env))])\<rparr>)))
      (thn (on_shelf (event env task ''knowledge.retracted'' (jobj [(''id'', JStr key), (''reason'', JStr reason)])))
           (ret (jobj [(''id'', JStr key), (''retracted'', JBool True)])))))"

definition retract_knowledge :: "env \<Rightarrow> string \<Rightarrow> json \<Rightarrow> bool \<Rightarrow> (shelf, json) oper" where
  "retract_knowledge env task args operator =
     bnd (ask_state (\<lambda>_. text_arg args ''id'' 128)) (\<lambda>key.
     bnd (ask_state (\<lambda>_. text_arg args ''reason'' 4096)) (\<lambda>reason.
     bnd (ask_state (\<lambda>_. object_arg env args ''provenance'' True)) (\<lambda>provenance.
     bnd (ask_shelf (tree_root task)) (\<lambda>r0.
     atomic (retract_tx env task r0 operator key reason provenance)))))"

definition link_knowledge :: "string \<Rightarrow> json \<Rightarrow> bool \<Rightarrow> (shelf, json) oper" where
  "link_knowledge task args operator =
     bnd (ask_state (\<lambda>_. text_arg args ''source'' 128)) (\<lambda>source.
     bnd (ask_state (\<lambda>_. text_arg args ''target'' 128)) (\<lambda>target.
     bnd (ask_state (\<lambda>_. text_arg args ''relation'' 128)) (\<lambda>relation.
     bnd (ask_shelf (tree_root task)) (\<lambda>r0.
     atomic (
       bnd (ask_state (knowledge_row source)) (\<lambda>f.
       thn (ask_state (\<lambda>_. may_revise task r0 operator f))
      (bnd (ask_state (knowledge_row target)) (\<lambda>g.
       thn (guard (row_visible task r0 g) ''knowledge target is not visible to this task'')
      (thn (modify (insert_edge \<lparr>ke_source = source, ke_target = target, ke_relation = relation\<rparr>))
           (ret (jobj [(''linked'', JBool True)])))))))))))"

section \<open>Hexadecimal text\<close>

definition hex_digit :: "nat \<Rightarrow> char" where
  "hex_digit n = char_of (if n < 10 then n + 48 else n + 87)"

definition hex_value :: "char \<Rightarrow> nat option" where
  "hex_value c = (let n = of_char c :: nat in
     if 48 \<le> n \<and> n \<le> 57 then Some (n - 48)
     else if 97 \<le> n \<and> n \<le> 102 then Some (n - 87)
     else if 65 \<le> n \<and> n \<le> 70 then Some (n - 55) else None)"

fun hex_encode :: "string \<Rightarrow> string" where
  "hex_encode [] = []"
| "hex_encode (c # s) = hex_digit (of_char c div 16) # hex_digit (of_char c mod 16) # hex_encode s"

fun hex_decode :: "string \<Rightarrow> string option" where
  "hex_decode [] = Some []"
| "hex_decode [c] = None"
| "hex_decode (a # b # s) =
     (case (hex_value a, hex_value b, hex_decode s) of
        (Some x, Some y, Some r) \<Rightarrow> Some (char_of (16 * x + y) # r)
      | _ \<Rightarrow> None)"

section \<open>Cursors\<close>

record page_cursor =
  cu_revision :: int
  cu_offset :: int
  cu_filter :: string

definition cursor_json :: "page_cursor \<Rightarrow> json" where
  "cursor_json c = jobj [(''revision'', JInt (cu_revision c)), (''offset'', JInt (cu_offset c)), (''filter'', JStr (cu_filter c))]"

definition cursor_of_json :: "json \<Rightarrow> page_cursor option" where
  "cursor_of_json v =
     (case (as_i64 (jget v ''revision''), as_i64 (jget v ''offset''), as_str (jget v ''filter'')) of
        (Some r, Some i, Some f) \<Rightarrow> Some \<lparr>cu_revision = r, cu_offset = i, cu_filter = f\<rparr>
      | _ \<Rightarrow> None)"

definition encode_cursor :: "env \<Rightarrow> page_cursor \<Rightarrow> string" where
  "encode_cursor env c = hex_encode (json_text env (cursor_json c))"

definition decode_cursor :: "env \<Rightarrow> string \<Rightarrow> page_cursor result" where
  "decode_cursor env v =
     and_then (require (length v \<le> 2048) ''invalid knowledge cursor'') (\<lambda>_.
     and_then (context_of (hex_decode v) ''invalid knowledge cursor'') (\<lambda>body.
     context_of (Option.bind (parse_json env body) cursor_of_json) ''invalid knowledge cursor''))"

definition cursor_arg :: "env \<Rightarrow> json \<Rightarrow> page_cursor option result" where
  "cursor_arg env args =
     (case jfield args ''after'' of
        None \<Rightarrow> Ok None
      | Some v \<Rightarrow>
          if v = JNull then Ok None
          else and_then (context_of (as_str v) ''after must be the returned cursor string'') (\<lambda>t.
               and_then (decode_cursor env t) (\<lambda>c. Ok (Some c))))"

text \<open>Where a page starts: a cursor counts only for the same query on unchanged knowledge.\<close>

definition page_offset :: "string \<Rightarrow> int \<Rightarrow> page_cursor option \<Rightarrow> int result" where
  "page_offset flt revision c =
     (case c of
        None \<Rightarrow> Ok 0
      | Some c \<Rightarrow>
          and_then (require (cu_filter c = flt \<and> cu_offset c \<ge> 0) ''cursor does not match this knowledge query'') (\<lambda>_.
          and_then (require (cu_revision c = revision) ''knowledge changed during pagination; restart without after'') (\<lambda>_.
          Ok (cu_offset c))))"

section \<open>Reads\<close>

definition edge_json :: "edge_row \<Rightarrow> json" where
  "edge_json e = jobj [(''source'', JStr (ke_source e)), (''target'', JStr (ke_target e)), (''relation'', JStr (ke_relation e))]"

definition visible_edges :: "string \<Rightarrow> string \<Rightarrow> string \<Rightarrow> shelf \<Rightarrow> edge_row list" where
  "visible_edges task r0 source k =
     sort_key (\<lambda>e. (ke_relation e, ke_target e))
       [e. e \<leftarrow> filter (\<lambda>e. ke_source e = source) (sh_edges k),
           _ \<leftarrow> filter (\<lambda>f. row_id f = ke_target e \<and> row_visible task r0 f) (full_rows k)]"

definition edges_filter :: "env \<Rightarrow> string \<Rightarrow> string \<Rightarrow> string" where
  "edges_filter env task source = sha256 env (json_text env (JArr [JStr ''edges'', JStr task, JStr source]))"

definition plain_fields :: "env \<Rightarrow> record_row \<Rightarrow> (string \<times> json) list" where
  "plain_fields env r = [(''id'', JStr (kn_id r)), (''task'', JStr (kn_task r)), (''step'', jstr_opt (kn_step r)),
     (''kind'', JStr (kn_kind r)), (''content'', JStr (kn_content r)), (''provenance'', JStr (json_text env (kn_provenance r))),
     (''verified'', JInt (if kn_verified r then 1 else 0)), (''inputs'', JStr (json_text env (kn_inputs r)))]"

text \<open>\<^verbatim>\<open>decorate\<close>: a record without an origin of its own comes from its task and step.\<close>

definition decorated :: "env \<Rightarrow> rat \<Rightarrow> full_row \<Rightarrow> json" where
  "decorated env rank f =
     (let r = fst f; m = row_meta f in
      jobj (plain_fields env r @ [(''scope'', JStr (km_scope m)), (''topic'', JStr (km_topic m)), (''valid_under'', km_valid_under m),
        (''origin'', (if km_origin m = jobj [] then jobj [(''task'', JStr (kn_task r)), (''step'', jstr_opt (kn_step r))] else km_origin m)),
        (''superseded_by'', jstr_opt (km_superseded_by m)), (''superseded'', JBool (km_superseded_by m \<noteq> None)),
        (''retracted'', JBool (km_retracted m)), (''retraction'', unwrap_or (km_retraction m) JNull),
        (''created'', JInt (km_created m)), (''root'', JStr (row_root f)), (''rank'', JFloat rank)]))"

definition record_json :: "env \<Rightarrow> string \<Rightarrow> string \<Rightarrow> shelf \<Rightarrow> rat \<times> full_row \<Rightarrow> json" where
  "record_json env task r0 k x =
     (let es = visible_edges task r0 (row_id (snd x)) k; many = length es > 100 in
      jset ''edges'' (JArr (map edge_json (take 100 es)))
     (jset ''edges_next'' (if many then JStr (encode_cursor env \<lparr>cu_revision = sh_revision k, cu_offset = 100,
          cu_filter = edges_filter env task (row_id (snd x))\<rparr>) else JNull)
     (jset ''edges_truncated'' (JBool many) (decorated env (fst x) (snd x)))))"

text \<open>What a read asks for, after its arguments were checked.\<close>

record knowledge_query =
  kq_scope :: string
  kq_topic :: "string option"
  kq_query :: "string option"
  kq_inactive :: bool
  kq_limit :: int
  kq_filter :: string
  kq_root :: string

definition legacy_read :: "json \<Rightarrow> bool" where
  "legacy_read args = list_all (\<lambda>k. jfield args k = None)
     [''scope'', ''topic'', ''query'', ''after'', ''limit'', ''include_inactive'']"

definition clamp_limit :: "int \<Rightarrow> int" where
  "clamp_limit n = max 1 (min 100 n)"

definition knowledge_query_of :: "env \<Rightarrow> string \<Rightarrow> json \<Rightarrow> store \<Rightarrow> knowledge_query result" where
  "knowledge_query_of env task args s =
     and_then (scope_arg args) (\<lambda>sc.
     and_then (tree_root task s) (\<lambda>r0.
     and_then (optional_arg as_str args ''topic'' ''topic must be a string'') (\<lambda>topic.
     and_then (optional_arg as_str args ''query'' ''query must be a string'') (\<lambda>q.
     and_then (require (case q of None \<Rightarrow> True | Some v \<Rightarrow> \<not> blank v \<and> length v \<le> 1024)
       ''query must be nonempty and at most 1024 bytes'') (\<lambda>_.
     and_then (optional_arg as_bool args ''include_inactive'' ''include_inactive must be boolean'') (\<lambda>inactive.
     and_then (optional_arg as_i64 args ''limit'' ''limit must be an integer'') (\<lambda>most.
     Ok \<lparr>kq_scope = sc, kq_topic = topic, kq_query = q, kq_inactive = unwrap_or inactive False,
         kq_limit = clamp_limit (unwrap_or most 50),
         kq_filter = sha256 env (json_text env (JArr [JStr task, JStr sc, jstr_opt topic, jstr_opt q, JBool (unwrap_or inactive False)])),
         kq_root = r0\<rparr>)))))))"

text \<open>
  The rows that a query matches, in its order. \<open>search\<close> is the full-text index: the rank of the
  records that match a query, or an error for a query it cannot parse.
\<close>

type_synonym text_index = "string \<Rightarrow> record_row list \<Rightarrow> (string \<Rightarrow> rat option) result"

definition row_matches :: "string \<Rightarrow> knowledge_query \<Rightarrow> full_row \<Rightarrow> bool" where
  "row_matches task Q f =
     ((kq_scope Q = ''task'' \<and> row_task f = task \<or>
       kq_scope Q = ''family'' \<and> km_scope (row_meta f) = ''family'' \<and> row_root f = kq_root Q) \<and>
      (kq_topic Q = None \<or> kq_topic Q = Some (km_topic (row_meta f))) \<and> (kq_inactive Q \<or> row_active f))"

definition matching_rows :: "text_index \<Rightarrow> string \<Rightarrow> knowledge_query \<Rightarrow> shelf \<Rightarrow> (rat \<times> full_row) list result" where
  "matching_rows search task Q k =
     and_then (case kq_query Q of None \<Rightarrow> Ok (\<lambda>_. Some 0) | Some q \<Rightarrow> search q (sh_records k)) (\<lambda>rank.
     Ok (sort_key fst (List.map_filter (\<lambda>f. map_option (\<lambda>x. (x, f)) (rank (row_id f)))
       (filter (row_matches task Q) (full_rows k)))))"

text \<open>The loop that fills a page; the flag says that something was left out.\<close>

fun fill_page :: "env \<Rightarrow> int \<Rightarrow> json list \<Rightarrow> int \<Rightarrow> json list \<Rightarrow> (json list \<times> bool) result" where
  "fill_page env most page bytes [] = Ok (page, False)"
| "fill_page env most page bytes (r # rs) =
     (let size = json_len env r in
      if int (length page) \<ge> most \<or> bytes + size > page_bytes
      then and_then (require (page \<noteq> []) ''knowledge record exceeds page byte limit'') (\<lambda>_. Ok (page, True))
      else fill_page env most (page @ [r]) (bytes + size) rs)"

definition read_page :: "env \<Rightarrow> text_index \<Rightarrow> string \<Rightarrow> knowledge_query \<Rightarrow> page_cursor option \<Rightarrow> shelf \<Rightarrow> json result" where
  "read_page env search task Q c k =
     and_then (page_offset (kq_filter Q) (sh_revision k) c) (\<lambda>start.
     and_then (matching_rows search task Q k) (\<lambda>rows.
     and_then (fill_page env (kq_limit Q) [] 0
         (map (record_json env task (kq_root Q) k) (take (nat (kq_limit Q + 1)) (drop (nat start) rows)))) (\<lambda>(page, more).
     Ok (jobj [(''scope'', JStr (kq_scope Q)), (''root'', JStr (kq_root Q)), (''records'', JArr page),
       (''next'', (if more then JStr (encode_cursor env \<lparr>cu_revision = sh_revision k,
           cu_offset = start + int (length page), cu_filter = kq_filter Q\<rparr>) else JNull)),
       (''revision'', JInt (sh_revision k))]))))"

definition read_knowledge :: "env \<Rightarrow> text_index \<Rightarrow> string \<Rightarrow> json \<Rightarrow> shelf \<Rightarrow> json result" where
  "read_knowledge env search task args k =
     and_then (knowledge_query_of env task args (sh_store k)) (\<lambda>Q.
     and_then (cursor_arg env args) (\<lambda>c.
     if legacy_read args
     then Ok (JArr [jobj (plain_fields env r). r \<leftarrow> sh_records k, m \<leftarrow> filter (\<lambda>m. km_id m = kn_id r) (sh_meta k),
            kn_task r = task \<and> \<not> km_retracted m \<and> km_superseded_by m = None])
     else read_page env search task Q c k))"

definition knowledge_edges :: "env \<Rightarrow> string \<Rightarrow> json \<Rightarrow> shelf \<Rightarrow> json result" where
  "knowledge_edges env task args k =
     and_then (text_arg args ''source'' 128) (\<lambda>source.
     and_then (tree_root task (sh_store k)) (\<lambda>r0.
     and_then (optional_arg as_i64 args ''limit'' ''limit must be an integer'') (\<lambda>most0.
     let most = clamp_limit (unwrap_or most0 50); flt = edges_filter env task source in
     and_then (cursor_arg env args) (\<lambda>c.
     and_then (knowledge_row source k) (\<lambda>f.
     and_then (require (row_visible task r0 f) ''knowledge record is not visible to this task'') (\<lambda>_.
     and_then (page_offset flt (sh_revision k) c) (\<lambda>start.
     let es = take (nat (most + 1)) (drop (nat start) (visible_edges task r0 source k));
         page = take (nat most) es in
     Ok (jobj [(''source'', JStr source), (''edges'', JArr (map edge_json page)),
       (''next'', (if int (length es) > most then JStr (encode_cursor env \<lparr>cu_revision = sh_revision k,
           cu_offset = start + int (length page), cu_filter = flt\<rparr>) else JNull)),
       (''revision'', JInt (sh_revision k))]))))))))"

end
