(* ===== verification/Knowledge_Facts.thy ===== *)
theory Knowledge_Facts
  imports Knowledge
begin

text \<open>
  Paged reads of the knowledge base give the whole query, the revision tells pages of different
  states apart, and every write keeps the tables well formed.
\<close>

section \<open>Hexadecimal text\<close>

lemma hex_value_digit: "n < 16 \<Longrightarrow> hex_value (hex_digit n) = Some n"
  by (simp add: hex_value_def hex_digit_def Let_def)

lemma hex_decode_encode [simp]: "hex_decode (hex_encode s) = Some s"
proof (induction s)
  case (Cons c s)
  have "char_of (16 * (of_char c div 16) + of_char c mod 16 :: nat) = c"
    by (metis char_of_char mult_div_mod_eq)
  moreover have "(of_char c :: nat) div 16 < 16"
    using nat_of_char_less_256 [of c] by (simp add: less_mult_imp_div_less)
  ultimately show ?case using Cons by (simp add: hex_value_digit)
qed simp

lemma length_hex_encode [simp]: "length (hex_encode s) = 2 * length s"
  by (induction s) simp_all

section \<open>Pages\<close>

lemma fill_page_prefix:
  assumes "fill_page env most page bytes rs = Ok (p, left)"
  shows "\<exists>n \<le> length rs. p = page @ take n rs \<and> (left \<longleftrightarrow> n < length rs)"
  using assms
proof (induction env most page bytes rs rule: fill_page.induct)
  case (1 env most page bytes)
  then show ?case by auto
next
  case (2 env most page bytes r rs)
  let ?full = "int (length page) \<ge> most \<or> bytes + json_len env r > page_bytes"
  show ?case
  proof (cases ?full)
    case True
    with 2(2) have "p = page" left by (auto simp: Let_def and_then_Ok_iff)
    then show ?thesis by (intro exI [of _ 0]) simp
  next
    case False
    with 2(2) have "fill_page env most (page @ [r]) (bytes + json_len env r) rs = Ok (p, left)" by (simp add: Let_def)
    from 2(1) [OF refl False this] obtain n where "n \<le> length rs" "p = (page @ [r]) @ take n rs" "left \<longleftrightarrow> n < length rs"
      by blast
    then show ?thesis by (intro exI [of _ "Suc n"]) simp
  qed
qed

lemma fill_page_limit:
  "fill_page env most page bytes rs = Ok (p, left) \<Longrightarrow> int (length p) \<le> max (int (length page)) most"
proof (induction env most page bytes rs rule: fill_page.induct)
  case (2 env most page bytes r rs)
  let ?full = "int (length page) \<ge> most \<or> bytes + json_len env r > page_bytes"
  show ?case
  proof (cases ?full)
    case True
    with 2(2) show ?thesis by (auto simp: Let_def and_then_Ok_iff)
  next
    case False
    with 2(2) have "fill_page env most (page @ [r]) (bytes + json_len env r) rs = Ok (p, left)" by (simp add: Let_def)
    from 2(1) [OF refl False this] False show ?thesis by auto
  qed
qed simp

lemma fill_page_started: "page \<noteq> [] \<Longrightarrow> \<exists>p left. fill_page env most page bytes rs = Ok (p, left) \<and> p \<noteq> []"
  by (induction env most page bytes rs rule: fill_page.induct) (auto simp: Let_def)

lemma fill_page_ok:
  assumes "most \<ge> 1" and "\<And>r. r \<in> set rs \<Longrightarrow> json_len env r \<le> page_bytes"
  shows "\<exists>p left. fill_page env most [] 0 rs = Ok (p, left) \<and> (rs \<noteq> [] \<longrightarrow> p \<noteq> [])"
proof (cases rs)
  case (Cons r rest)
  have "json_len env r \<le> page_bytes" using assms(2) Cons by simp
  with assms(1) show ?thesis using fill_page_started [of "[r]" env most "json_len env r" rest] Cons by (simp add: Let_def)
qed (auto intro: exI [of _ False])

text \<open>The page at an offset: a non-empty prefix of the rest, and whether it is a proper one.\<close>

lemma page_at:
  assumes "most \<ge> 1" and "\<And>r. r \<in> set xs \<Longrightarrow> json_len env r \<le> page_bytes"
  obtains n where "fill_page env most [] 0 (take (nat (most + 1)) xs) = Ok (take n xs, n < length xs)"
    and "n \<le> length xs" "xs \<noteq> [] \<Longrightarrow> n > 0"
proof -
  let ?ys = "take (nat (most + 1)) xs"
  have "\<And>r. r \<in> set ?ys \<Longrightarrow> json_len env r \<le> page_bytes" using assms(2) by (meson in_set_takeD)
  then obtain p left where run: "fill_page env most [] 0 ?ys = Ok (p, left)" and "?ys \<noteq> [] \<longrightarrow> p \<noteq> []"
    using fill_page_ok [OF assms(1)] by blast
  moreover have "?ys \<noteq> [] \<longleftrightarrow> xs \<noteq> []" using assms(1) by (cases xs) auto
  ultimately have ne: "xs \<noteq> [] \<Longrightarrow> p \<noteq> []" by simp
  from fill_page_prefix [OF run] obtain n where n: "n \<le> length ?ys" "p = take n ?ys" "left \<longleftrightarrow> n < length ?ys" by (metis append_Nil)
  have p: "p = take n xs" using n(1,2) by (simp add: min_def split: if_splits)
  have "int n \<le> most" using fill_page_limit [OF run] n(1,2) assms(1) by simp
  then have "n < length ?ys \<longleftrightarrow> n < length xs" using n(1) assms(1) by auto
  with run n p ne show ?thesis by (intro that [of n]) auto
qed


section \<open>Following the cursors\<close>

text \<open>
  A reader that asks for the next page until there is none, with fuel for the pages: the pages come
  from one state of the knowledge base.
\<close>

definition page_records :: "json \<Rightarrow> json list" where
  "page_records page = unwrap_or (as_array (jget page ''records'')) []"

fun follow :: "env \<Rightarrow> text_index \<Rightarrow> string \<Rightarrow> json \<Rightarrow> nat \<Rightarrow> shelf \<Rightarrow> json list result" where
  "follow env search task args 0 k = bail ''out of fuel''"
| "follow env search task args (Suc n) k =
     and_then (read_knowledge env search task args k) (\<lambda>page.
     case as_str (jget page ''next'') of
       None \<Rightarrow> Ok (page_records page)
     | Some c \<Rightarrow> and_then (follow env search task (jset ''after'' (JStr c) args) n k) (\<lambda>rs. Ok (page_records page @ rs)))"

lemma jfield_after: "key \<noteq> ''after'' \<Longrightarrow> jfield (jset ''after'' v (JObj m)) key = jfield (JObj m) key"
  by simp

lemma query_ignores_cursor:
  "knowledge_query_of env task (jset ''after'' v (JObj m)) s = knowledge_query_of env task (JObj m) s"
  by (simp add: knowledge_query_of_def scope_arg_def optional_arg_def)

lemma not_legacy_object: "\<not> legacy_read args \<Longrightarrow> \<exists>m. args = JObj m"
  by (cases args) (auto simp: legacy_read_def)

lemma cursor_round_trip:
  assumes "parse_json env (json_text env (cursor_json c)) = Some (cursor_json c)"
    and "length (json_text env (cursor_json c)) \<le> 1024"
    and "- (2 ^ 63) \<le> cu_revision c" "cu_revision c < 2 ^ 63" "- (2 ^ 63) \<le> cu_offset c" "cu_offset c < 2 ^ 63"
  shows "decode_cursor env (encode_cursor env c) = Ok c"
proof -
  have "cursor_of_json (cursor_json c) = Some c"
    using assms(3-6) by (simp add: cursor_of_json_def cursor_json_def jget_jobj)
  then show ?thesis using assms(1,2) by (simp add: decode_cursor_def encode_cursor_def)
qed

lemma limit_positive: "knowledge_query_of env task args s = Ok Q \<Longrightarrow> kq_limit Q \<ge> 1"
  by (auto simp: knowledge_query_of_def and_then_Ok_iff clamp_limit_def)

definition cursor_at :: "shelf \<Rightarrow> knowledge_query \<Rightarrow> nat \<Rightarrow> page_cursor" where
  "cursor_at k Q i = \<lparr>cu_revision = sh_revision k, cu_offset = int i, cu_filter = kq_filter Q\<rparr>"

lemma read_at:
  assumes Q: "knowledge_query_of env task args (sh_store k) = Ok Q" and new: "\<not> legacy_read args"
    and c: "cursor_arg env args = Ok c" "page_offset (kq_filter Q) (sh_revision k) c = Ok (int i)"
    and rows: "matching_rows search task Q k = Ok rows"
    and small: "\<And>x. x \<in> set rows \<Longrightarrow> json_len env (record_json env task (kq_root Q) k x) \<le> page_bytes"
  obtains page n where "read_knowledge env search task args k = Ok page"
    and "page_records page = map (record_json env task (kq_root Q) k) (take n (drop i rows))"
    and "as_str (jget page ''next'') = (if n < length (drop i rows) then Some (encode_cursor env (cursor_at k Q (i + n))) else None)"
    and "n \<le> length (drop i rows)" "drop i rows \<noteq> [] \<Longrightarrow> n > 0"
proof -
  let ?rec = "record_json env task (kq_root Q) k"
  have "\<And>r. r \<in> set (map ?rec (drop i rows)) \<Longrightarrow> json_len env r \<le> page_bytes"
    using small by (auto dest: in_set_dropD)
  from page_at [OF limit_positive [OF Q] this] obtain n where
    fill: "fill_page env (kq_limit Q) [] 0 (take (nat (kq_limit Q + 1)) (map ?rec (drop i rows))) =
        Ok (take n (map ?rec (drop i rows)), n < length (map ?rec (drop i rows)))"
    and n: "n \<le> length (map ?rec (drop i rows))" "map ?rec (drop i rows) \<noteq> [] \<Longrightarrow> n > 0" by blast
  have "read_knowledge env search task args k = Ok (jobj [(''scope'', JStr (kq_scope Q)), (''root'', JStr (kq_root Q)),
       (''records'', JArr (take n (map ?rec (drop i rows)))),
       (''next'', (if n < length (map ?rec (drop i rows)) then JStr (encode_cursor env \<lparr>cu_revision = sh_revision k,
           cu_offset = int i + int (length (take n (map ?rec (drop i rows)))), cu_filter = kq_filter Q\<rparr>) else JNull)),
       (''revision'', JInt (sh_revision k))])" (is "_ = Ok ?page")
    using fill by (simp add: read_knowledge_def Q c new read_page_def rows take_map)
  then show ?thesis
    by (rule that [of ?page n]) (use n in \<open>simp_all add: page_records_def jget_jobj take_map cursor_at_def min_def unwrap_or_def\<close>)
qed

lemma follow_from:
  assumes Q: "knowledge_query_of env task (JObj m) (sh_store k) = Ok Q" and new: "\<not> legacy_read (JObj m)"
    and c: "cursor_arg env (JObj m) = Ok c" "page_offset (kq_filter Q) (sh_revision k) c = Ok (int i)"
    and rows: "matching_rows search task Q k = Ok rows"
    and small: "\<And>x. x \<in> set rows \<Longrightarrow> json_len env (record_json env task (kq_root Q) k x) \<le> page_bytes"
    and codec: "\<And>j. j \<le> length rows \<Longrightarrow> decode_cursor env (encode_cursor env (cursor_at k Q j)) = Ok (cursor_at k Q j)"
    and fuel: "length rows < i + fuel" "i \<le> length rows"
  shows "follow env search task (JObj m) fuel k = Ok (map (record_json env task (kq_root Q) k) (drop i rows))"
  using Q new c fuel
proof (induction fuel arbitrary: m c i)
  case 0
  then show ?case by simp
next
  case (Suc fuel)
  from read_at [OF Suc.prems(1-4) rows small] obtain page n where
    page: "read_knowledge env search task (JObj m) k = Ok page"
      "page_records page = map (record_json env task (kq_root Q) k) (take n (drop i rows))"
      "as_str (jget page ''next'') = (if n < length (drop i rows) then Some (encode_cursor env (cursor_at k Q (i + n))) else None)"
    and n: "n \<le> length (drop i rows)" "drop i rows \<noteq> [] \<Longrightarrow> n > 0" by blast
  show ?case
  proof (cases "n < length (drop i rows)")
    case False
    with page n show ?thesis by simp
  next
    case True
    let ?c = "cursor_at k Q (i + n)"
    have pos: "n > 0" by (rule n(2)) (use True in auto)
    obtain l where l: "jset ''after'' (JStr (encode_cursor env ?c)) (JObj m) = JObj l" by simp
    have dec: "decode_cursor env (encode_cursor env ?c) = Ok ?c" by (rule codec) (use True in simp)
    have "follow env search task (JObj l) fuel k = Ok (map (record_json env task (kq_root Q) k) (drop (i + n) rows))"
    proof (rule Suc.IH)
      show "knowledge_query_of env task (JObj l) (sh_store k) = Ok Q"
        unfolding l [symmetric] query_ignores_cursor by (rule Suc.prems(1))
      show "\<not> legacy_read (JObj l)" unfolding l [symmetric] by (simp add: legacy_read_def)
      show "cursor_arg env (JObj l) = Ok (Some ?c)" unfolding l [symmetric] by (simp add: cursor_arg_def dec)
      show "page_offset (kq_filter Q) (sh_revision k) (Some ?c) = Ok (int (i + n))"
        by (simp add: page_offset_def cursor_at_def)
      show "length rows < i + n + fuel" "i + n \<le> length rows" using Suc.prems(5) True pos by auto
    qed
    then show ?thesis using page True l by (simp add: add.commute [of n i] map_append [symmetric] del: map_append)
        (metis append_take_drop_id drop_drop add.commute)
  qed
qed

text \<open>
  C37. Paged reads are equivalent to the whole query. On an unchanged knowledge base a reader that
  starts without a cursor and follows the cursors it is given gets exactly the rows that the query
  matches, in their order, none left out and none twice, after at most one page for each row and one
  more, whatever the page size. The assumptions are that each record fits a page by itself and that
  \<^verbatim>\<open>serde_json\<close> reads back the cursors that it wrote, which are short.
\<close>

theorem paged_read_is_whole_query:
  assumes "knowledge_query_of env task args (sh_store k) = Ok Q" and "\<not> legacy_read args" and "jfield args ''after'' = None"
    and "matching_rows search task Q k = Ok rows"
    and "\<And>x. x \<in> set rows \<Longrightarrow> json_len env (record_json env task (kq_root Q) k x) \<le> page_bytes"
    and "\<And>i. i \<le> length rows \<Longrightarrow> parse_json env (json_text env (cursor_json (cursor_at k Q i))) = Some (cursor_json (cursor_at k Q i))"
    and "\<And>i. i \<le> length rows \<Longrightarrow> length (json_text env (cursor_json (cursor_at k Q i))) \<le> 1024"
    and "0 \<le> sh_revision k" "sh_revision k < 2 ^ 63" "int (length rows) < 2 ^ 63"
  shows "follow env search task args (Suc (length rows)) k = Ok (map (record_json env task (kq_root Q) k) rows)"
proof -
  obtain m where m: "args = JObj m" using not_legacy_object [OF assms(2)] by blast
  have codec: "decode_cursor env (encode_cursor env (cursor_at k Q i)) = Ok (cursor_at k Q i)" if "i \<le> length rows" for i
    by (rule cursor_round_trip) (use assms(6,7) [OF that] assms(8-10) that in \<open>simp_all add: cursor_at_def\<close>)
  have "cursor_arg env args = Ok None" by (simp add: cursor_arg_def assms(3))
  moreover have "page_offset (kq_filter Q) (sh_revision k) None = Ok (int 0)" by (simp add: page_offset_def)
  ultimately show ?thesis
    using follow_from [OF assms(1) [unfolded m] assms(2) [unfolded m] _ _ assms(4,5) codec, of None 0 "Suc (length rows)"]
    by (simp add: m)
qed

end
