(* ===== verification/Knowledge_Typing.thy ===== *)
theory Knowledge_Typing
  imports Knowledge_Facts
begin

text \<open>
  The invariant of the knowledge tables under every history of writes, retractions and links, and
  the revision that counts their changes, so that cursors of an older state are refused.
\<close>

section \<open>Well-formed tables\<close>

text \<open>
  Every supersession points at a record that was added later and has the same scope, so chains of
  supersessions are finite.
\<close>

fun points_later :: "meta_row list \<Rightarrow> bool" where
  "points_later [] = True"
| "points_later (m # ms) =
     ((case km_superseded_by m of None \<Rightarrow> True | Some j \<Rightarrow> list_ex (\<lambda>n. km_id n = j \<and> km_scope n = km_scope m) ms) \<and>
      points_later ms)"

definition typed_meta :: "meta_row \<Rightarrow> bool" where
  "typed_meta m = (km_scope m \<in> set knowledge_scopes \<and> km_retracted m = (km_retraction m \<noteq> None))"

definition known_ids :: "shelf \<Rightarrow> string set" where
  "known_ids k = kn_id ` set (sh_records k)"

definition shelf_ok :: "shelf \<Rightarrow> bool" where
  "shelf_ok k =
     (distinct (map kn_id (sh_records k)) \<and> map km_id (sh_meta k) = map kn_id (sh_records k) \<and>
      list_all (\<lambda>r. kn_kind r \<in> set knowledge_kinds) (sh_records k) \<and>
      list_all typed_meta (sh_meta k) \<and> points_later (sh_meta k) \<and>
      distinct (map edge_key (sh_edges k)) \<and>
      list_all (\<lambda>e. ke_source e \<in> known_ids k \<and> ke_target e \<in> known_ids k) (sh_edges k) \<and>
      distinct (map fst (sh_writes k)) \<and> list_all (\<lambda>w. fst w \<in> known_ids k) (sh_writes k))"

lemma shelf_okD:
  assumes "shelf_ok k"
  shows "distinct (map kn_id (sh_records k))" "map km_id (sh_meta k) = map kn_id (sh_records k)"
    "list_all (\<lambda>r. kn_kind r \<in> set knowledge_kinds) (sh_records k)"
    "list_all typed_meta (sh_meta k)" "points_later (sh_meta k)" "distinct (map edge_key (sh_edges k))"
    "list_all (\<lambda>e. ke_source e \<in> known_ids k \<and> ke_target e \<in> known_ids k) (sh_edges k)"
    "distinct (map fst (sh_writes k))" "list_all (\<lambda>w. fst w \<in> known_ids k) (sh_writes k)"
  using assms by (simp_all add: shelf_ok_def)

lemma meta_ids: "shelf_ok k \<Longrightarrow> km_id ` set (sh_meta k) = known_ids k"
  using shelf_okD(2) [of k] unfolding known_ids_def by (metis list.set_map)

subsection \<open>The metadata under updates\<close>

lemma points_later_append:
  "points_later ms \<Longrightarrow> km_superseded_by n = None \<Longrightarrow> points_later (ms @ [n])"
  by (induction ms) (auto simp: list_ex_iff split: option.splits)

lemma points_later_same:
  assumes "points_later ms"
    and "\<And>m. km_id (f m) = km_id m \<and> km_scope (f m) = km_scope m \<and> km_superseded_by (f m) = km_superseded_by m"
  shows "points_later (update_rows p f ms)"
  using assms(1)
proof (induction ms)
  case Nil
  then show ?case by (simp add: update_rows_def)
next
  case (Cons m ms)
  have key: "list_ex (\<lambda>n. km_id n = j \<and> km_scope n = sc) (update_rows p f ms) = list_ex (\<lambda>n. km_id n = j \<and> km_scope n = sc) ms" for j sc
    by (induction ms) (simp_all add: update_rows_def assms(2))
  have "update_rows p f (m # ms) = (if p m then f m else m) # update_rows p f ms" by (simp add: update_rows_def)
  with Cons key assms(2) show ?case by (auto split: option.splits)
qed

text \<open>The last record of the table supersedes an earlier one of its scope.\<close>

lemma points_later_superseded:
  assumes "points_later (ms @ [n])" and "\<And>m. m \<in> set ms \<Longrightarrow> km_id m = old \<Longrightarrow> km_scope m = km_scope n"
    and "km_id n \<noteq> old"
  shows "points_later (update_rows (\<lambda>m. km_id m = old) (\<lambda>m. m\<lparr>km_superseded_by := Some (km_id n)\<rparr>) (ms @ [n]))"
  using assms(1,2)
proof (induction ms)
  case Nil
  then show ?case using assms(3) by (simp add: update_rows_def)
next
  case (Cons m ms)
  let ?f = "\<lambda>m. m\<lparr>km_superseded_by := Some (km_id n)\<rparr>" and ?p = "\<lambda>m. km_id m = old"
  have key: "list_ex (\<lambda>x. km_id x = j \<and> km_scope x = sc) (update_rows ?p ?f xs) = list_ex (\<lambda>x. km_id x = j \<and> km_scope x = sc) xs" for j sc xs
    by (induction xs) (simp_all add: update_rows_def)
  have cons: "update_rows ?p ?f (m # ms @ [n]) = (if ?p m then ?f m else m) # update_rows ?p ?f (ms @ [n])"
    by (simp add: update_rows_def)
  have "points_later (update_rows ?p ?f (ms @ [n]))" using Cons by simp
  moreover have "km_id m = old \<Longrightarrow> list_ex (\<lambda>x. km_id x = km_id n \<and> km_scope x = km_scope m) (ms @ [n])"
    using Cons.prems(2) by simp
  ultimately show ?case using Cons.prems(1) unfolding append_Cons cons
    by (cases "km_superseded_by m") (simp_all only: points_later.simps key split: if_split option.split, simp_all)
qed


subsection \<open>Each write keeps the tables well formed\<close>

definition knowledge_tables :: "shelf \<Rightarrow> record_row list \<times> meta_row list \<times> edge_row list \<times> (string \<times> string) list \<times> int" where
  "knowledge_tables k = (sh_records k, sh_meta k, sh_edges k, sh_writes k, sh_revision k)"

lemma shelf_ok_tables: "knowledge_tables t = knowledge_tables k \<Longrightarrow> shelf_ok k \<Longrightarrow> shelf_ok t"
  by (simp add: knowledge_tables_def shelf_ok_def known_ids_def)

lemma on_shelf_tables: "on_shelf m k = (t, x) \<Longrightarrow> knowledge_tables t = knowledge_tables k"
  by (auto simp: on_shelf_def knowledge_tables_def split: prod.splits)

lemma ids_update_rows: "(\<And>m. km_id (f m) = km_id m) \<Longrightarrow> map km_id (update_rows p f ms) = map km_id ms"
  by (simp add: update_rows_def)

lemma list_all_update_rows:
  "list_all P ms \<Longrightarrow> (\<And>m. P m \<Longrightarrow> P (f m)) \<Longrightarrow> list_all P (update_rows p f ms)"
  by (auto simp: list_all_iff set_update_rows)

lemma known_ids_update [simp]: "known_ids (update_meta key f k) = known_ids k" "known_ids (insert_edge e k) = known_ids k"
  by (simp_all add: known_ids_def update_meta_def insert_edge_def bump_def)

lemma update_meta_ok:
  assumes ok: "shelf_ok k" and f: "\<And>m. km_id (f m) = km_id m" "\<And>m. typed_meta m \<Longrightarrow> typed_meta (f m)"
    and p: "points_later (update_rows (\<lambda>m. km_id m = key) f (sh_meta k))"
  shows "shelf_ok (update_meta key f k)"
  unfolding shelf_ok_def known_ids_update using shelf_okD [OF ok] f p
  by (simp add: update_meta_def ids_update_rows list_all_update_rows)

lemma insert_edge_ok:
  assumes "shelf_ok k" "ke_source e \<in> known_ids k" "ke_target e \<in> known_ids k"
  shows "shelf_ok (insert_edge e k)"
  unfolding shelf_ok_def known_ids_update using shelf_okD [OF assms(1)] assms(2,3)
  by (simp add: insert_edge_def bump_def)

lemma retracted_ok:
  assumes "shelf_ok k"
  shows "shelf_ok (update_meta key (\<lambda>m. m\<lparr>km_retracted := True, km_retraction := Some v\<rparr>) k)"
  by (rule update_meta_ok [OF assms])
    (use shelf_okD(5) [OF assms] in \<open>simp_all add: typed_meta_def points_later_same\<close>)

lemma knowledge_row_known: "knowledge_row key k = Ok f \<Longrightarrow> key \<in> known_ids k"
  by (auto simp: knowledge_row_def context_of_Ok_iff find_Some_iff known_ids_def full_rows_def row_id_def
      dest!: nth_mem) 

lemma knowledge_row_meta:
  assumes "knowledge_row key k = Ok f" and "shelf_ok k" and "m \<in> set (sh_meta k)" and "km_id m = key"
  shows "m = row_meta f"
proof -
  have "f \<in> set (full_rows k)" "row_id f = key"
    using assms(1) by (auto simp: knowledge_row_def context_of_Ok_iff find_Some_iff)
  then have "row_meta f \<in> set (sh_meta k)" "km_id (row_meta f) = key"
    by (auto simp: full_rows_def row_id_def row_meta_def)
  moreover have "distinct (map km_id (sh_meta k))" using shelf_okD(1,2) [OF assms(2)] by simp
  ultimately show ?thesis using assms(3,4) by (metis distinct_map inj_onD)
qed

text \<open>
  During a write the last row is the new record, and the records it is going to replace are other
  ones of its scope.
\<close>

definition writing :: "string \<Rightarrow> string \<Rightarrow> string list \<Rightarrow> shelf \<Rightarrow> bool" where
  "writing key sc olds k =
     (shelf_ok k \<and> (\<exists>ms n. sh_meta k = ms @ [n] \<and> km_id n = key \<and> km_scope n = sc) \<and>
      (\<forall>old \<in> set olds. old \<noteq> key \<and> old \<in> known_ids k \<and> (\<forall>m \<in> set (sh_meta k). km_id m = old \<longrightarrow> km_scope m = sc)))"

lemma replace_record_writing:
  assumes "writing key sc (old # olds) k" and "replace_record key old k = (t, Ok u)"
  shows "writing key sc olds t"
proof -
  let ?f = "\<lambda>m. m\<lparr>km_superseded_by := Some key\<rparr>" and ?e = "\<lparr>ke_source = key, ke_target = old, ke_relation = ''supersedes''\<rparr>"
  let ?k = "update_meta old ?f k"
  from assms(2) have t: "t = insert_edge ?e ?k" by (simp add: replace_record_def runs)
  from assms(1) obtain ms n where ok: "shelf_ok k" and meta: "sh_meta k = ms @ [n]" "km_id n = key" "km_scope n = sc"
    and old: "old \<noteq> key" "old \<in> known_ids k" "\<And>m. m \<in> set (sh_meta k) \<Longrightarrow> km_id m = old \<Longrightarrow> km_scope m = sc"
    and rest: "\<forall>old \<in> set olds. old \<noteq> key \<and> old \<in> known_ids k \<and> (\<forall>m \<in> set (sh_meta k). km_id m = old \<longrightarrow> km_scope m = sc)"
    by (auto simp: writing_def)
  have "points_later (update_rows (\<lambda>m. km_id m = old) ?f (sh_meta k))"
    using points_later_superseded [of ms n old] shelf_okD(5) [OF ok] old meta by auto
  then have k': "shelf_ok ?k" by (intro update_meta_ok [OF ok]) (simp_all add: typed_meta_def)
  have "key \<in> known_ids k" using meta meta_ids [OF ok] by auto
  then have "shelf_ok t" unfolding t by (intro insert_edge_ok [OF k']) (simp_all add: old)
  moreover have "sh_meta t = update_rows (\<lambda>m. km_id m = old) ?f ms @ [n]"
    using meta old(1) by (simp add: t insert_edge_def bump_def update_meta_def update_rows_def)
  moreover have "known_ids t = known_ids k" by (simp add: t)
  moreover have "\<forall>m \<in> set (sh_meta t). \<exists>m' \<in> set (sh_meta k). km_id m = km_id m' \<and> km_scope m = km_scope m'"
    by (auto simp: t insert_edge_def bump_def update_meta_def set_update_rows)
  ultimately show ?thesis using meta(2,3) rest unfolding writing_def by metis
qed

lemma replace_all_writing:
  "writing key sc olds k \<Longrightarrow> each_op (replace_record key) olds k = (t, Ok u) \<Longrightarrow> writing key sc [] t"
proof (induction olds arbitrary: k)
  case Nil
  then show ?case by (simp add: ret_run)
next
  case (Cons old olds)
  from Cons.prems(2) obtain v w where "replace_record key old k = (v, Ok w)" "each_op (replace_record key) olds v = (t, Ok u)"
    by (auto simp: thn_run)
  with Cons replace_record_writing show ?case by blast
qed


lemma insert_record_writing:
  assumes ok: "shelf_ok k" and run: "insert_record r k = (t, Ok u)" and kind: "kn_kind r \<in> set knowledge_kinds"
    and f: "\<And>m. km_id (f m) = km_id m" "\<And>m. km_scope (f m) = sc" "sc \<in> set knowledge_scopes"
      "\<And>m. km_superseded_by (f m) = km_superseded_by m" "\<And>m. typed_meta m \<Longrightarrow> typed_meta (f m)"
    and olds: "\<And>old. old \<in> set olds \<Longrightarrow> old \<in> known_ids k" "\<And>old m. old \<in> set olds \<Longrightarrow> m \<in> set (sh_meta k) \<Longrightarrow> km_id m = old \<Longrightarrow> km_scope m = sc"
  shows "writing (kn_id r) sc olds (update_meta (kn_id r) f t)" and "kn_id r \<notin> known_ids k"
proof -
  let ?new = "\<lparr>km_id = kn_id r, km_scope = ''task'', km_topic = [], km_valid_under = jobj [], km_origin = jobj [],
    km_superseded_by = None, km_retracted = False, km_retraction = None, km_created = 0\<rparr>"
  from run have fresh: "kn_id r \<notin> known_ids k" "kn_id r \<notin> km_id ` set (sh_meta k)"
    and t: "sh_records t = sh_records k @ [r]" "sh_meta t = sh_meta k @ [?new]" "sh_edges t = sh_edges k" "sh_writes t = sh_writes k"
    by (auto simp: insert_record_def bump_def bail_def known_ids_def split: if_splits)
  let ?t = "update_meta (kn_id r) f t"
  have old_rows: "update_rows (\<lambda>m. km_id m = kn_id r) f (sh_meta k) = sh_meta k"
    using fresh(2) by (intro update_rows_none ballI) (metis imageI)
  have meta: "sh_meta ?t = sh_meta k @ [f ?new]"
    using old_rows by (simp add: update_meta_def t update_rows_def)
  have ids: "known_ids ?t = insert (kn_id r) (known_ids k)" by (auto simp: known_ids_def update_meta_def t)
  note D = shelf_okD [OF ok]
  have typed: "typed_meta (f ?new)" by (rule f(5)) (simp add: typed_meta_def knowledge_scopes_def)
  have "shelf_ok ?t"
    unfolding shelf_ok_def
  proof (intro conjI)
    show "distinct (map kn_id (sh_records ?t))" using D(1) fresh(1) by (auto simp: update_meta_def t known_ids_def)
    show "map km_id (sh_meta ?t) = map kn_id (sh_records ?t)" unfolding meta using D(2) f(1) by (simp add: update_meta_def t)
    show "list_all (\<lambda>r. kn_kind r \<in> set knowledge_kinds) (sh_records ?t)" using D(3) kind by (simp add: update_meta_def t)
    show "list_all typed_meta (sh_meta ?t)" unfolding meta using D(4) typed by simp
    show "points_later (sh_meta ?t)" unfolding meta by (rule points_later_append [OF D(5)]) (simp add: f(4))
    show "distinct (map edge_key (sh_edges ?t))" using D(6) by (simp add: update_meta_def t)
    show "list_all (\<lambda>e. ke_source e \<in> known_ids ?t \<and> ke_target e \<in> known_ids ?t) (sh_edges ?t)"
      using D(7) unfolding ids by (auto simp: update_meta_def t list_all_iff)
    show "distinct (map fst (sh_writes ?t))" using D(8) by (simp add: update_meta_def t)
    show "list_all (\<lambda>w. fst w \<in> known_ids ?t) (sh_writes ?t)"
      using D(9) unfolding ids by (auto simp: update_meta_def t list_all_iff)
  qed
  moreover have "km_id (f ?new) = kn_id r" by (simp add: f(1))
  ultimately show "writing (kn_id r) sc olds ?t"
    unfolding writing_def meta ids using olds fresh(1) f(2) by fastforce
  show "kn_id r \<notin> known_ids k" by (rule fresh(1))
qed

lemma insert_write_writing:
  assumes "writing key sc olds k" and "insert_write key h k = (t, Ok u)"
  shows "writing key sc olds t"
proof -
  from assms(2) have t: "t = k\<lparr>sh_writes := sh_writes k @ [(key, h)]\<rparr>" and new: "key \<notin> fst ` set (sh_writes k)"
    by (auto simp: insert_write_def bail_def split: if_splits)
  have same: "known_ids t = known_ids k" by (simp add: t known_ids_def)
  from assms(1) obtain ms n where ok: "shelf_ok k" and n: "sh_meta k = ms @ [n]" "km_id n = key" by (auto simp: writing_def)
  have key: "key \<in> known_ids k" using n meta_ids [OF ok] by auto
  have "shelf_ok t" unfolding shelf_ok_def same using shelf_okD [OF ok] key new by (simp add: t)
  then show ?thesis using assms(1) unfolding writing_def same by (simp add: t)
qed

lemma add_tx_ok:
  assumes ok: "shelf_ok k" and run: "add_tx env task operator c k = (t, Ok r)"
    and input: "ci_scope c \<in> set knowledge_scopes" "ci_kind c \<in> set knowledge_kinds"
  shows "shelf_ok t"
proof (cases "map_of (sh_writes k) (ci_key c)")
  case (Some h)
  with run have "t = k" by (auto simp: add_tx_def runs)
  with ok show ?thesis by simp
next
  case None
  with run have check: "each_result (\<lambda>old. check_superseded task (ci_root c) operator (ci_scope c) old k) (ci_supersedes c) = Ok ()"
    and rest: "thn (store_claim env task c)
        (thn (on_shelf (event env task ''knowledge.added'' (jobj [(''id'', JStr (ci_key c)), (''scope'', JStr (ci_scope c)),
                (''topic'', JStr (ci_topic c)), (''supersedes'', JArr (map JStr (ci_supersedes c))), (''step'', jstr_opt (ci_step c))])))
             (ret (jobj [(''id'', JStr (ci_key c))]))) k = (t, Ok r)"
    by (auto simp: add_tx_def bnd_ask_runs thn_ask_runs)
  from rest obtain v where stored: "store_claim env task c k = (v, Ok ())" and same: "knowledge_tables t = knowledge_tables v"
    by (auto simp: thn_run ret_run dest!: on_shelf_tables)
  let ?f = "\<lambda>m. m\<lparr>km_scope := ci_scope c, km_topic := ci_topic c, km_valid_under := ci_conditions c, km_origin := ci_origin c, km_created := now env\<rparr>"
  from stored obtain x y z where x: "insert_record \<lparr>kn_id = ci_key c, kn_task = task, kn_step = ci_step c, kn_kind = ci_kind c,
            kn_content = ci_content c, kn_provenance = ci_provenance c, kn_verified = ci_verified c, kn_inputs = ci_inputs c\<rparr> k = (x, Ok ())"
    and y: "insert_write (ci_key c) (claim_hash env task c) (update_meta (ci_key c) ?f x) = (y, Ok ())"
    and z: "each_op (replace_record (ci_key c)) (ci_supersedes c) y = (v, Ok ())"
    by (auto simp: store_claim_def thn_run modify_run)
  have olds: "old \<in> known_ids k" "\<And>m. m \<in> set (sh_meta k) \<Longrightarrow> km_id m = old \<Longrightarrow> km_scope m = ci_scope c" if "old \<in> set (ci_supersedes c)" for old
  proof -
    from check that obtain f where f: "knowledge_row old k = Ok f" "km_scope (row_meta f) = ci_scope c"
      by (auto simp: each_result_Ok_iff check_superseded_def and_then_Ok_iff)
    then show "old \<in> known_ids k" by (blast intro: knowledge_row_known)
    show "\<And>m. m \<in> set (sh_meta k) \<Longrightarrow> km_id m = old \<Longrightarrow> km_scope m = ci_scope c"
      using knowledge_row_meta [OF f(1) ok] f(2) by simp
  qed
  have "writing (ci_key c) (ci_scope c) (ci_supersedes c) (update_meta (ci_key c) ?f x)"
    using insert_record_writing(1) [OF ok x, of ?f "ci_scope c" "ci_supersedes c"] input olds
    by (simp add: typed_meta_def)
  from replace_all_writing [OF insert_write_writing [OF this y] z] have "shelf_ok v" by (simp add: writing_def)
  with same show ?thesis by (rule shelf_ok_tables)
qed

lemma claim_input_typed:
  "claim_input_of env fresh task args operator s = Ok c \<Longrightarrow> ci_scope c \<in> set knowledge_scopes \<and> ci_kind c \<in> set knowledge_kinds"
  by (auto simp: claim_input_of_def and_then_Ok_iff Let_def scope_arg_def)


section \<open>Histories of the knowledge base\<close>

text \<open>
  Writes of any task, by workers and operators, which fail or succeed, and the other operations of
  the runtime, which leave the tables alone.
\<close>

inductive shelf_step :: "shelf \<Rightarrow> shelf \<Rightarrow> bool" where
  adding: "add_knowledge env fresh task args operator k = (t, x) \<Longrightarrow> shelf_step k t"
| retracting: "retract_knowledge env task args operator k = (t, x) \<Longrightarrow> shelf_step k t"
| linking: "link_knowledge task args operator k = (t, x) \<Longrightarrow> shelf_step k t"
| working: "knowledge_tables t = knowledge_tables k \<Longrightarrow> shelf_step k t"

lemma add_cases:
  assumes "add_knowledge env fresh task args operator k = (t, x)"
  obtains "t = k" | c r where "claim_input_of env fresh task args operator (sh_store k) = Ok c"
    "add_tx env task operator c k = (t, Ok r)"
proof (cases "claim_input_of env fresh task args operator (sh_store k)")
  case (Inl e)
  with assms that(1) show ?thesis by (simp add: add_knowledge_def ask_shelf_def ask_then)
next
  case (Inr c)
  with assms have run: "atomic (add_tx env task operator c) k = (t, x)" by (simp add: add_knowledge_def ask_shelf_def ask_then)
  show ?thesis
  proof (cases x)
    case (Inl e)
    with run that(1) show ?thesis by (blast dest: atomic_Err_state)
  next
    case (Inr r)
    with run that(2) \<open>claim_input_of env fresh task args operator (sh_store k) = Inr c\<close> show ?thesis by (simp add: atomic_Ok_iff)
  qed
qed

lemma knowledge_ops_revert:
  "reverts (retract_knowledge env task args operator)" "reverts (link_knowledge task args operator)"
  unfolding retract_knowledge_def link_knowledge_def ask_shelf_def by (intro reverts_ask reverts_atomic)+

lemma retract_cases:
  assumes "retract_knowledge env task args operator k = (t, x)"
  obtains "knowledge_tables t = knowledge_tables k" | key v where
    "knowledge_tables t = knowledge_tables (update_meta key (\<lambda>m. m\<lparr>km_retracted := True, km_retraction := Some v\<rparr>) k)"
    "key \<in> known_ids k"
proof (cases x)
  case (Inl e)
  then have "t = k" using assms knowledge_ops_revert(1) [of env task args operator, unfolded reverts_def] by blast
  with that(1) show ?thesis by simp
next
  case (Inr r)
  with assms obtain key reason provenance r0 where "retract_tx env task r0 operator key reason provenance k = (t, Ok r)"
    by (auto simp: retract_knowledge_def ask_shelf_def bnd_ask_runs atomic_Ok_iff)
  then obtain f where f: "knowledge_row key k = Ok f" and tx: "(if km_retracted (row_meta f) then
       bnd (ask_state (\<lambda>_. context_of (km_retraction (row_meta f)) ''retraction'')) (\<lambda>previous.
       thn (guard (jget previous ''reason'' = JStr reason \<and> jget previous ''provenance'' = provenance)
              ''knowledge already retracted with different provenance'')
           (ret (jobj [(''id'', JStr key), (''retracted'', JBool True), (''duplicate'', JBool True)])))
     else
       thn (modify (update_meta key (\<lambda>m. m\<lparr>km_retracted := True, km_retraction := Some (jobj [(''task'', JStr task),
              (''reason'', JStr reason), (''provenance'', provenance), (''at'', JInt (now env))])\<rparr>)))
      (thn (on_shelf (event env task ''knowledge.retracted'' (jobj [(''id'', JStr key), (''reason'', JStr reason)])))
           (ret (jobj [(''id'', JStr key), (''retracted'', JBool True)])))) k = (t, Ok r)"
    by (auto simp: retract_tx_def bnd_ask_runs thn_ask_runs)
  show ?thesis
  proof (cases "km_retracted (row_meta f)")
    case True
    with tx have "t = k" by (auto simp: runs)
    with that(1) show ?thesis by simp
  next
    case False
    with tx show ?thesis
      using that(2) [OF _ knowledge_row_known [OF f]] by (auto simp: thn_run modify_run ret_run dest!: on_shelf_tables)
  qed
qed

lemma link_cases:
  assumes "link_knowledge task args operator k = (t, x)"
  obtains "t = k" | e where "t = insert_edge e k" "ke_source e \<in> known_ids k" "ke_target e \<in> known_ids k"
proof (cases x)
  case (Inl e)
  then have "t = k" using assms knowledge_ops_revert(2) [of task args operator, unfolded reverts_def] by blast
  with that(1) show ?thesis by simp
next
  case (Inr r)
  with assms obtain source target relation f g where rows: "knowledge_row source k = Ok f" "knowledge_row target k = Ok g"
    and t: "t = insert_edge \<lparr>ke_source = source, ke_target = target, ke_relation = relation\<rparr> k"
    by (auto simp: link_knowledge_def ask_shelf_def runs)
  show ?thesis by (rule that(2) [OF t]) (simp_all add: knowledge_row_known [OF rows(1)] knowledge_row_known [OF rows(2)])
qed

lemma shelf_step_ok: "shelf_step k t \<Longrightarrow> shelf_ok k \<Longrightarrow> shelf_ok t"
proof (induction rule: shelf_step.induct)
  case (adding env fresh task args operator k t x)
  from adding(1) show ?case
    by (rule add_cases) (use adding(2) in \<open>auto dest: claim_input_typed intro: add_tx_ok\<close>)
next
  case (retracting env task args operator k t x)
  from retracting(1) show ?case
    by (rule retract_cases) (use retracting(2) in \<open>blast intro: shelf_ok_tables retracted_ok\<close>)+
next
  case (linking task args operator k t x)
  from linking(1) show ?case by (rule link_cases) (use linking(2) in \<open>auto intro: insert_edge_ok\<close>)
next
  case (working t k)
  then show ?case by (rule shelf_ok_tables)
qed

lemma shelf_history_ok: "shelf_step\<^sup>*\<^sup>* k t \<Longrightarrow> shelf_ok k \<Longrightarrow> shelf_ok t"
  by (induction rule: rtranclp_induct) (auto intro: shelf_step_ok)

section \<open>The revision counts every change\<close>

definition claim_tables :: "shelf \<Rightarrow> record_row list \<times> meta_row list \<times> edge_row list" where
  "claim_tables k = (sh_records k, sh_meta k, sh_edges k)"

definition advances :: "shelf \<Rightarrow> shelf \<Rightarrow> bool" where
  "advances k t = (sh_revision k < sh_revision t \<or> sh_revision k = sh_revision t \<and> claim_tables k = claim_tables t)"

lemma advances_refl [simp]: "advances k k"
  by (simp add: advances_def)

lemma advances_trans: "advances k t \<Longrightarrow> advances t v \<Longrightarrow> advances k v"
  by (auto simp: advances_def)

lemma advances_tables: "knowledge_tables t = knowledge_tables k \<Longrightarrow> advances k t"
  by (simp add: knowledge_tables_def advances_def claim_tables_def)

lemma advances_meta: "advances k (update_meta key f k)"
proof (cases "count_rows (\<lambda>m. km_id m = key) (sh_meta k)")
  case 0
  then have "update_rows (\<lambda>m. km_id m = key) f (sh_meta k) = sh_meta k"
    by (intro update_rows_none) (auto simp: count_rows_def filter_empty_conv)
  with 0 show ?thesis by (simp add: advances_def claim_tables_def update_meta_def)
next
  case (Suc n)
  then show ?thesis by (simp add: advances_def update_meta_def)
qed

lemma advances_edge: "advances k (insert_edge e k)"
  by (simp add: insert_edge_def advances_def bump_def)

lemma advances_replace: "each_op (replace_record key) olds k = (t, Ok u) \<Longrightarrow> advances k t"
proof (induction olds arbitrary: k)
  case Nil
  then show ?case by (simp add: ret_run)
next
  case (Cons old olds)
  from Cons.prems obtain v w where replaced: "replace_record key old k = (v, Ok w)"
    and "each_op (replace_record key) olds v = (t, Ok u)" by (auto simp: thn_run)
  moreover have "v = insert_edge \<lparr>ke_source = key, ke_target = old, ke_relation = ''supersedes''\<rparr>
      (update_meta old (\<lambda>m. m\<lparr>km_superseded_by := Some key\<rparr>) k)"
    using replaced by (simp add: replace_record_def runs)
  ultimately show ?case using Cons.IH by (blast intro: advances_trans advances_meta advances_edge)
qed

lemma advances_add_tx:
  assumes "add_tx env task operator c k = (t, Ok r)"
  shows "advances k t"
proof (cases "map_of (sh_writes k) (ci_key c)")
  case (Some h)
  with assms show ?thesis by (auto simp: add_tx_def runs)
next
  case None
  from assms None have "thn (store_claim env task c)
        (thn (on_shelf (event env task ''knowledge.added'' (jobj [(''id'', JStr (ci_key c)), (''scope'', JStr (ci_scope c)),
                (''topic'', JStr (ci_topic c)), (''supersedes'', JArr (map JStr (ci_supersedes c))), (''step'', jstr_opt (ci_step c))])))
             (ret (jobj [(''id'', JStr (ci_key c))]))) k = (t, Ok r)"
    by (auto simp: add_tx_def bnd_ask_runs thn_ask_runs)
  then obtain v where stored: "store_claim env task c k = (v, Ok ())" and same: "knowledge_tables t = knowledge_tables v"
    by (auto simp: thn_run ret_run dest!: on_shelf_tables)
  from stored obtain q w x y f where x: "insert_record q k = (x, Ok ())"
    and y: "insert_write (ci_key c) w (update_meta (ci_key c) f x) = (y, Ok ())"
    and z: "each_op (replace_record (ci_key c)) (ci_supersedes c) y = (v, Ok ())"
    by (auto simp: store_claim_def thn_run modify_run)
  have "advances k x" using x by (auto simp: insert_record_def bump_def bail_def advances_def split: if_splits)
  moreover have "advances x (update_meta (ci_key c) f x)" by (rule advances_meta)
  moreover have "advances (update_meta (ci_key c) f x) y"
    using y by (auto simp: insert_write_def bail_def advances_def claim_tables_def split: if_splits)
  ultimately show ?thesis
    using advances_replace [OF z] advances_tables [OF same] by (blast intro: advances_trans)
qed

lemma shelf_step_advances: "shelf_step k t \<Longrightarrow> advances k t"
proof (induction rule: shelf_step.induct)
  case (adding env fresh task args operator k t x)
  then show ?case by (rule add_cases) (auto intro: advances_add_tx)
next
  case (retracting env task args operator k t x)
  then show ?case by (rule retract_cases) (blast intro: advances_tables advances_meta advances_trans)+
next
  case (linking task args operator k t x)
  then show ?case by (rule link_cases) (auto intro: advances_edge)
next
  case (working t k)
  then show ?case by (rule advances_tables)
qed

lemma shelf_history_advances: "shelf_step\<^sup>*\<^sup>* k t \<Longrightarrow> advances k t"
  by (induction rule: rtranclp_induct) (auto intro: shelf_step_advances advances_trans)

section \<open>Properties\<close>

text \<open>
  C38. The knowledge tables stay well typed. In every history that starts from empty tables, whatever
  workers and operators write, retract and link, and whether it succeeds: the ids of the records are
  distinct and the metadata rows belong to them one by one; every record has one of the three kinds
  and one of the two scopes; a record is retracted exactly if it has a retraction; a superseded record
  is superseded by a later record of its scope, so that chains of supersessions are finite; links
  are distinct and join records that exist; and each id was written at most once.
\<close>

theorem knowledge_tables_typed:
  assumes "shelf_step\<^sup>*\<^sup>* k t" and "sh_records k = []" "sh_meta k = []" "sh_edges k = []" "sh_writes k = []"
  shows "shelf_ok t"
  using assms(1) by (rule shelf_history_ok) (simp add: shelf_ok_def assms(2-5))

text \<open>Reads that go on with a cursor, and what the cursors of a page are.\<close>

definition restart :: "'a result" where
  "restart = bail ''knowledge changed during pagination; restart without after''"

text \<open>\<open>cursor_readable\<close>: \<^verbatim>\<open>serde_json\<close> reads back the cursor that the token was made from.\<close>

definition cursor_readable :: "env \<Rightarrow> string \<Rightarrow> bool" where
  "cursor_readable env token = (\<forall>c. encode_cursor env c = token \<longrightarrow> decode_cursor env token = Ok c)"

lemma cursor_of_token:
  assumes "cursor_readable env (encode_cursor env c)"
  shows "cursor_arg env (jset ''after'' (JStr (encode_cursor env c)) (JObj m)) = Ok (Some c)"
  using assms by (simp add: cursor_arg_def cursor_readable_def)

lemma page_offset_nonneg: "page_offset flt revision c = Ok start \<Longrightarrow> 0 \<le> start"
  by (auto simp: page_offset_def and_then_Ok_iff split: option.splits)

lemma page_offset_stale:
  "cu_filter c = flt \<Longrightarrow> 0 \<le> cu_offset c \<Longrightarrow> cu_revision c \<noteq> revision \<Longrightarrow> page_offset flt revision (Some c) = restart"
  by (simp add: page_offset_def restart_def require_def bail_def)

lemma query_filter:
  "knowledge_query_of env task args s = Ok Q \<Longrightarrow> knowledge_query_of env task args s' = Ok Q' \<Longrightarrow> kq_filter Q' = kq_filter Q"
  by (auto simp: knowledge_query_of_def and_then_Ok_iff)

lemma read_token:
  assumes "read_knowledge env search task args k = Ok page" and "as_str (jget page ''next'') = Some token"
  obtains m Q n where "args = JObj m" "knowledge_query_of env task args (sh_store k) = Ok Q" "0 \<le> n"
    "token = encode_cursor env \<lparr>cu_revision = sh_revision k, cu_offset = n, cu_filter = kq_filter Q\<rparr>"
proof -
  have "\<not> legacy_read args"
    using assms by (auto simp: read_knowledge_def and_then_Ok_iff split: if_splits)
  then obtain m where m: "args = JObj m" using not_legacy_object by blast
  from assms(1) \<open>\<not> legacy_read args\<close> obtain Q c where Q: "knowledge_query_of env task args (sh_store k) = Ok Q"
    and run: "read_page env search task Q c k = Ok page"
    by (auto simp: read_knowledge_def and_then_Ok_iff)
  from run obtain start p left where start: "page_offset (kq_filter Q) (sh_revision k) c = Ok start"
    and page: "jget page ''next'' = (if left then JStr (encode_cursor env \<lparr>cu_revision = sh_revision k,
        cu_offset = start + int (length (p :: json list)), cu_filter = kq_filter Q\<rparr>) else JNull)"
    unfolding read_page_def and_then_Ok_iff by (force simp: jget_jobj)
  have "token = encode_cursor env \<lparr>cu_revision = sh_revision k, cu_offset = start + int (length p), cu_filter = kq_filter Q\<rparr>"
    using assms(2) page by (auto split: if_splits)
  with page_offset_nonneg [OF start] show ?thesis by (intro that [OF m Q]) auto
qed

lemma edges_token:
  assumes "knowledge_edges env task args k = Ok page" and "as_str (jget page ''next'') = Some token"
    and source: "text_arg args ''source'' 128 = Ok source"
  obtains m n most where "args = JObj m" "0 \<le> n"
    "optional_arg as_i64 args ''limit'' ''limit must be an integer'' = Ok most"
    "token = encode_cursor env \<lparr>cu_revision = sh_revision k, cu_offset = n, cu_filter = edges_filter env task source\<rparr>"
proof -
  from assms(1) source obtain most c start left and p :: nat where
    *: "optional_arg as_i64 args ''limit'' ''limit must be an integer'' = Ok most"
      "page_offset (edges_filter env task source) (sh_revision k) c = Ok start"
    and page: "jget page ''next'' = (if left then JStr (encode_cursor env \<lparr>cu_revision = sh_revision k,
        cu_offset = start + int p, cu_filter = edges_filter env task source\<rparr>) else JNull)"
    unfolding knowledge_edges_def and_then_Ok_iff Let_def by (force simp: jget_jobj)
  have "token = encode_cursor env \<lparr>cu_revision = sh_revision k, cu_offset = start + int p, cu_filter = edges_filter env task source\<rparr>"
    using assms(2) page by (auto split: if_splits)
  moreover obtain m where "args = JObj m" using source by (cases args) (auto simp: text_arg_def and_then_Ok_iff context_of_Ok_iff)
  ultimately show ?thesis using page_offset_nonneg [OF *(2)] *(1) by (intro that [of m "start + int p" most]) simp_all
qed


end
