(* ===== verification/Knowledge_Examples.thy ===== *)
theory Knowledge_Examples
  imports Knowledge_Typing Delegation_Examples
begin

text \<open>
  A family in which a task writes two claims and reads them page by page: the witnesses of
  \<open>Knowledge_Facts\<close> and \<open>Knowledge_Typing\<close>.
\<close>

text \<open>The text of a value is as long as the offset it has; cursors are read back from their texts.\<close>

definition library_env :: env where
  "library_env = sample_env\<lparr>json_len := (\<lambda>_. 1),
     json_text := (\<lambda>v. replicate (nat (unwrap_or (as_i64 (jget v ''offset'')) 0)) CHR ''x''),
     parse_json := (\<lambda>s. Some (cursor_json \<lparr>cu_revision = 4, cu_offset = int (length s), cu_filter = sha256 sample_env []\<rparr>))\<rparr>"

definition claim_args :: "string \<Rightarrow> json" where
  "claim_args key = jobj [(''id'', JStr key), (''scope'', JStr ''family''), (''kind'', JStr ''fact''), (''content'', JStr ''c''),
     (''provenance'', jobj [])]"

definition claim :: "string \<Rightarrow> claim_input" where
  "claim key = \<lparr>ci_key = key, ci_scope = ''family'', ci_kind = ''fact'', ci_content = ''c'', ci_provenance = jobj [],
     ci_conditions = jobj [], ci_topic = [], ci_step = None, ci_supersedes = [],
     ci_origin = jobj [(''task'', JStr ''a''), (''step'', JNull)], ci_verified = False, ci_inputs = JNull, ci_root = ''a''\<rparr>"

definition library0 :: shelf where
  "library0 = \<lparr>sh_store = tree1, sh_records = [], sh_meta = [], sh_writes = [], sh_edges = [], sh_revision = 0\<rparr>"

definition library1 :: shelf where
  "library1 = fst (add_tx library_env ''a'' False (claim ''k1'') library0)"

definition library2 :: shelf where
  "library2 = fst (add_tx library_env ''a'' False (claim ''k2'') library1)"

lemma tree1_reads: "tree_root ''a'' tree1 = Ok ''a''" "topics ''a'' tree1 = Ok []"
  by code_simp+

lemma library_stores: "tree_root ''a'' (sh_store library1) = Ok ''a''" "topics ''a'' (sh_store library1) = Ok []"
    "tree_root ''a'' (sh_store library2) = Ok ''a''"
  by code_simp+

lemma claim_args_fields:
  "jfield (claim_args key) k = map_of [(''id'', JStr key), (''scope'', JStr ''family''), (''kind'', JStr ''fact''), (''content'', JStr ''c''),
     (''provenance'', jobj [])] k"
  "jget (claim_args key) k = (case jfield (claim_args key) k of None \<Rightarrow> JNull | Some v \<Rightarrow> v)"
    "\<exists>y. as_object (jobj kvs) = Some y"
  unfolding claim_args_def by (simp_all add: jobj_def split: option.split)

lemma claim_args_input:
  assumes "tree_root ''a'' s = Ok ''a''" "topics ''a'' s = Ok []" and "key = ''k1'' \<or> key = ''k2''"
  shows "claim_input_of library_env ''f'' ''a'' (claim_args key) False s = Ok (claim key)"
  using assms by (auto simp: claim_input_of_def claim_args_fields claim_def scope_arg_def optional_arg_def text_arg_def object_arg_def
      strings_arg_def check_topic_def require_def library_env_def knowledge_scopes_def knowledge_kinds_def blank_def unwrap_or_def jstr_opt_def Let_def)

lemma library_writes:
  "add_tx library_env ''a'' False (claim ''k1'') library0 = (library1, Ok (jobj [(''id'', JStr ''k1'')]))"
  "add_tx library_env ''a'' False (claim ''k2'') library1 = (library2, Ok (jobj [(''id'', JStr ''k2'')]))"
proof -
  have "snd (add_tx library_env ''a'' False (claim ''k1'') library0) = Ok (jobj [(''id'', JStr ''k1'')])"
    "snd (add_tx library_env ''a'' False (claim ''k2'') library1) = Ok (jobj [(''id'', JStr ''k2'')])" by code_simp+
  then show "add_tx library_env ''a'' False (claim ''k1'') library0 = (library1, Ok (jobj [(''id'', JStr ''k1'')]))"
    "add_tx library_env ''a'' False (claim ''k2'') library1 = (library2, Ok (jobj [(''id'', JStr ''k2'')]))"
    by (simp_all add: library1_def library2_def prod_eq_iff)
qed

lemma library_steps: "shelf_step library0 library1" "shelf_step library1 library2"
proof -
  have "sh_store library0 = tree1" by (simp add: library0_def)
  then have "add_knowledge library_env ''f'' ''a'' (claim_args ''k1'') False library0 = (library1, Ok (jobj [(''id'', JStr ''k1'')]))"
    using claim_args_input [of tree1 "''k1''"] tree1_reads library_writes(1)
    by (simp add: add_knowledge_def ask_shelf_def ask_then atomic_Ok_iff)
  then show "shelf_step library0 library1" by (rule adding)
  have "add_knowledge library_env ''f'' ''a'' (claim_args ''k2'') False library1 = (library2, Ok (jobj [(''id'', JStr ''k2'')]))"
    using claim_args_input [of "sh_store library1" "''k2''"] library_stores library_writes(2)
    by (simp add: add_knowledge_def ask_shelf_def ask_then atomic_Ok_iff)
  then show "shelf_step library1 library2" by (rule adding)
qed

lemma library_tables:
  "map kn_id (sh_records library2) = [''k1'', ''k2'']" "sh_revision library1 = 2" "sh_revision library2 = 4"
  by code_simp+

definition read_args :: json where
  "read_args = jobj [(''scope'', JStr ''family''), (''limit'', JInt 1)]"

definition no_search :: text_index where
  "no_search = (\<lambda>_ _. bail ''no index'')"

definition family_query :: knowledge_query where
  "family_query = \<lparr>kq_scope = ''family'', kq_topic = None, kq_query = None, kq_inactive = False, kq_limit = 1, kq_filter = ''#'', kq_root = ''a''\<rparr>"

definition family_rows :: "(rat \<times> full_row) list" where
  "family_rows = map (Pair 0) (full_rows library2)"

lemma read_args_fields: "jfield read_args k = map_of [(''scope'', JStr ''family''), (''limit'', JInt 1)] k"
  unfolding read_args_def by (simp add: jobj_def)

lemma family_query_of: "knowledge_query_of library_env ''a'' read_args (sh_store library2) = Ok family_query"
  using library_stores(3)
  by (simp add: knowledge_query_of_def read_args_fields scope_arg_def optional_arg_def require_def knowledge_scopes_def
      unwrap_or_def family_query_def clamp_limit_def library_env_def sample_env_def)

lemma family_rows_matching: "matching_rows no_search ''a'' family_query library2 = Ok family_rows" "length family_rows = 2"
proof -
  have "list_all (row_matches ''a'' family_query) (full_rows library2)" and two: "length (full_rows library2) = 2" by code_simp+
  then have "filter (row_matches ''a'' family_query) (full_rows library2) = full_rows library2" by (simp add: list_all_iff)
  moreover have "List.map_filter (\<lambda>f. Some (0::rat, f)) xs = map (Pair 0) xs" for xs :: "full_row list"
    by (induction xs) (simp_all add: List.map_filter_simps)
  moreover have "sort_key fst (map (Pair (0::rat)) xs) = map (Pair 0) xs" for xs :: "full_row list"
    by (rule sort_key_id_if_sorted) (simp add: comp_def sorted_map)
  ultimately show "matching_rows no_search ''a'' family_query library2 = Ok family_rows"
    by (simp add: matching_rows_def family_rows_def family_query_def)
  from two show "length family_rows = 2" by (simp add: family_rows_def)
qed

lemma library_cursors:
  assumes "i \<le> 2"
  shows "parse_json library_env (json_text library_env (cursor_json (cursor_at library2 family_query i))) = Some (cursor_json (cursor_at library2 family_query i))"
  "length (json_text library_env (cursor_json (cursor_at library2 family_query i))) = i"
  using assms by (simp_all add: library_env_def cursor_at_def cursor_json_def family_query_def library_tables sample_env_def jget_jobj unwrap_or_def)

lemma paged_read_is_whole_query_witness:
  "follow library_env no_search ''a'' read_args (Suc (length family_rows)) library2 =
     Ok (map (record_json library_env ''a'' ''a'' library2) family_rows)"
proof -
  have "follow library_env no_search ''a'' read_args (Suc (length family_rows)) library2 =
      Ok (map (record_json library_env ''a'' (kq_root family_query) library2) family_rows)"
  proof (rule paged_read_is_whole_query [OF family_query_of _ _ family_rows_matching(1)])
    show "\<not> legacy_read read_args" "jfield read_args ''after'' = None" by (simp_all add: legacy_read_def read_args_fields)
    show "json_len library_env (record_json library_env ''a'' (kq_root family_query) library2 x) \<le> page_bytes" for x
      by (simp add: library_env_def page_bytes_def)
  qed (simp_all add: library_cursors family_rows_matching(2) library_tables)
  then show ?thesis by (simp add: family_query_def)
qed

lemma knowledge_tables_typed_witness: "shelf_ok library2 \<and> length (sh_records library2) = 2"
proof -
  have "shelf_step\<^sup>*\<^sup>* library0 library2" using library_steps by (meson converse_rtranclp_into_rtranclp r_into_rtranclp)
  moreover have "length (sh_records library2) = 2" using library_tables(1) by (metis length_map length_Cons list.size(3) numeral_2_eq_2)
  ultimately show ?thesis using knowledge_tables_typed [of library0 library2] by (simp add: library0_def)
qed

text \<open>
  A reader that stopped after the first claim and after the first of two links, and goes on after a
  third link. The texts of cursors are read back: the revision and the offset are lengths.
\<close>

definition cursor_text :: "json \<Rightarrow> string" where
  "cursor_text v = (case cursor_of_json v of None \<Rightarrow> []
     | Some c \<Rightarrow> replicate (nat (cu_revision c)) CHR ''r'' @ replicate (nat (cu_offset c)) CHR ''o'' @ CHR ''f'' # cu_filter c)"

definition cursor_value :: "string \<Rightarrow> json" where
  "cursor_value s =
     (let t = dropWhile (\<lambda>x. x = CHR ''r'') s; u = dropWhile (\<lambda>x. x = CHR ''o'') t in
      cursor_json \<lparr>cu_revision = int (length (takeWhile (\<lambda>x. x = CHR ''r'') s)), cu_offset = int (length (takeWhile (\<lambda>x. x = CHR ''o'') t)),
        cu_filter = drop 1 u\<rparr>)"

definition stale_env :: env where
  "stale_env = library_env\<lparr>json_text := cursor_text, parse_json := (\<lambda>s. Some (cursor_value s))\<rparr>"

definition link_args :: "string \<Rightarrow> json" where
  "link_args relation = jobj [(''source'', JStr ''k1''), (''target'', JStr ''k2''), (''relation'', JStr relation)]"

definition library3 :: shelf where
  "library3 = fst (link_knowledge ''a'' (link_args ''y'') False (fst (link_knowledge ''a'' (link_args ''x'') False library2)))"

definition library4 :: shelf where
  "library4 = fst (link_knowledge ''a'' (link_args ''z'') False library3)"

definition edge_args :: json where
  "edge_args = jobj [(''source'', JStr ''k1''), (''limit'', JInt 1)]"

definition stale_cursor :: page_cursor where
  "stale_cursor = \<lparr>cu_revision = 6, cu_offset = 1, cu_filter = ''#''\<rparr>"

definition stale_token :: string where
  "stale_token = encode_cursor stale_env stale_cursor"

lemma stale_pages:
  "case knowledge_edges stale_env ''a'' edge_args library3 of Inl _ \<Rightarrow> False | Inr page \<Rightarrow> as_str (jget page ''next'') = Some stale_token"
  "case read_knowledge stale_env no_search ''a'' read_args library3 of Inl _ \<Rightarrow> False | Inr page \<Rightarrow> as_str (jget page ''next'') = Some stale_token"
  by code_simp+

lemma stale_source:
  "case (text_arg edge_args ''source'' 128, tree_root ''a'' (sh_store library4), knowledge_row ''k1'' library4) of
     (Inr source, Inr r0, Inr f) \<Rightarrow> source = ''k1'' \<and> r0 = ''a'' \<and> row_visible ''a'' ''a'' f
   | _ \<Rightarrow> False"
  "length (sh_edges library3) = 2" "length (sh_edges library4) = 3"
  by code_simp+

lemma stale_query: "case knowledge_query_of stale_env ''a'' read_args (sh_store library4) of Inl _ \<Rightarrow> False | Inr Q \<Rightarrow> True"
  by code_simp

lemma cursor_text_parts:
  assumes "replicate n CHR ''r'' @ replicate i CHR ''o'' @ CHR ''f'' # w = replicate m CHR ''r'' @ replicate j CHR ''o'' @ CHR ''f'' # v"
  shows "n = m \<and> i = j \<and> w = v"
proof -
  have parts: "takeWhile (\<lambda>x. x = a) (replicate n a @ b # u) = replicate n a" "dropWhile (\<lambda>x. x = a) (replicate n a @ b # u) = b # u"
    if "a \<noteq> b" for a b :: char and n u
    using that by (induction n) simp_all
  have tail: "\<exists>b u. replicate i CHR ''o'' @ CHR ''f'' # w = b # u \<and> CHR ''r'' \<noteq> b" for i w by (cases i) auto
  have r: "takeWhile (\<lambda>x. x = CHR ''r'') (replicate n CHR ''r'' @ replicate i CHR ''o'' @ CHR ''f'' # w) = replicate n CHR ''r''"
    "dropWhile (\<lambda>x. x = CHR ''r'') (replicate n CHR ''r'' @ replicate i CHR ''o'' @ CHR ''f'' # w) = replicate i CHR ''o'' @ CHR ''f'' # w"
    for n i w
    using tail [of i w] parts by auto
  have "replicate n CHR ''r'' = replicate m CHR ''r''" and o: "replicate i CHR ''o'' @ CHR ''f'' # w = replicate j CHR ''o'' @ CHR ''f'' # v"
    using assms r by metis+
  have q: "takeWhile (\<lambda>x. x = CHR ''o'') (replicate i CHR ''o'' @ CHR ''f'' # w) = replicate i CHR ''o''"
    "dropWhile (\<lambda>x. x = CHR ''o'') (replicate i CHR ''o'' @ CHR ''f'' # w) = CHR ''f'' # w" for i w
    using parts [of "CHR ''o''" "CHR ''f''"] by simp_all
  have "replicate i CHR ''o'' = replicate j CHR ''o''" "CHR ''f'' # w = CHR ''f'' # v" using o q by metis+
  moreover note \<open>replicate n CHR ''r'' = replicate m CHR ''r''\<close>
  ultimately show ?thesis by (metis length_replicate list.inject)
qed

lemma stale_env_text: "json_text stale_env = cursor_text"
  by (simp add: stale_env_def)

lemma stale_readable: "cursor_readable stale_env stale_token"
  unfolding cursor_readable_def
proof (intro allI impI)
  fix c assume "encode_cursor stale_env c = stale_token"
  then have same: "cursor_text (cursor_json c) = cursor_text (cursor_json stale_cursor)"
    by (metis encode_cursor_def hex_decode_encode option.inject stale_token_def stale_env_text)
  have known: "cursor_text (cursor_json stale_cursor) = replicate 6 CHR ''r'' @ replicate 1 CHR ''o'' @ CHR ''f'' # ''#''" by code_simp
  then obtain d where d: "cursor_of_json (cursor_json c) = Some d" using same by (cases "cursor_of_json (cursor_json c)") (auto simp: cursor_text_def)
  then have "d = c" by (auto simp: cursor_of_json_def cursor_json_def jget_jobj split: option.splits if_splits)
  with d same known have "nat (cu_revision c) = 6 \<and> nat (cu_offset c) = 1 \<and> cu_filter c = ''#''"
    by (intro cursor_text_parts) (simp add: cursor_text_def)
  then have "c = stale_cursor" by (cases c) (auto simp: stale_cursor_def)
  moreover have "decode_cursor stale_env stale_token = Ok stale_cursor" by code_simp
  ultimately show "decode_cursor stale_env stale_token = Ok c" by simp
qed


end
