(* ===== verification/Maintenance.thy ===== *)
theory Maintenance
  imports Revisions Knowledge
begin

text \<open>
  The authority of nightly maintenance (src/src/upstream_maintenance): policies that an operator
  registers and revokes, the binding of a root task to one revision of a policy, its check at every
  use, and the worker budget that the whole tree of the task shares. The authority service that
  confirms a binding and the parser of its address are parameters.
\<close>

section \<open>Policies and bindings\<close>

record spend_cap =
  sp_reference :: string
  sp_model_calls :: int
  sp_input_bytes :: int
  sp_output_bytes :: int

record upkeep_policy =
  up_schema :: int
  up_id :: string
  up_revision :: int
  up_project :: string
  up_tenant :: string
  up_repo :: string
  up_repository :: string
  up_base :: string
  up_grant :: string
  up_routine :: string
  up_expires :: int
  up_budget :: spend_cap
  up_url :: string
  up_token_env :: string
  up_private_http :: bool

record upkeep_binding =
  ub_schema :: int
  ub_policy :: string
  ub_revision :: int
  ub_grant :: string
  ub_routine :: string
  ub_occurrence :: string
  ub_invocation :: string
  ub_until :: int
  ub_expires :: int
  ub_upstreams :: "(string, string) btree"
  ub_budget :: spend_cap

record registered =
  rg_policy :: upkeep_policy
  rg_revoked :: bool

text \<open>The parts of an address that the checks read.\<close>

record url_fields =
  ul_scheme :: string
  ul_host :: "string option"
  ul_loopback :: bool
  ul_username :: string
  ul_password :: "string option"
  ul_query :: "string option"
  ul_fragment :: "string option"
  ul_path :: string

subsection \<open>Their JSON\<close>

definition cap_json :: "spend_cap \<Rightarrow> json" where
  "cap_json b = jobj [(''reference'', JStr (sp_reference b)), (''max_model_calls'', JInt (sp_model_calls b)),
     (''max_input_bytes'', JInt (sp_input_bytes b)), (''max_output_bytes'', JInt (sp_output_bytes b))]"

definition only_keys :: "string list \<Rightarrow> json \<Rightarrow> bool" where
  "only_keys keys v = (case as_object v of None \<Rightarrow> False | Some m \<Rightarrow> list_all (\<lambda>(k, _). k \<in> set keys) m)"

definition text_of :: "json \<Rightarrow> string \<Rightarrow> string result" where
  "text_of v k = context_of (as_str (jget v k)) ''missing or invalid field''"

definition count_of :: "json \<Rightarrow> string \<Rightarrow> int result" where
  "count_of v k = context_of (as_u64 (jget v k)) ''missing or invalid field''"

definition version_of :: "json \<Rightarrow> string \<Rightarrow> int result" where
  "version_of v k = and_then (count_of v k) (\<lambda>n. and_then (require (n < 2 ^ 32) ''invalid value'') (\<lambda>_. Ok n))"

definition time_of :: "json \<Rightarrow> string \<Rightarrow> int result" where
  "time_of v k = context_of (as_i64 (jget v k)) ''missing or invalid field''"

definition cap_of_json :: "json \<Rightarrow> spend_cap result" where
  "cap_of_json v =
     and_then (require (only_keys [''reference'', ''max_model_calls'', ''max_input_bytes'', ''max_output_bytes''] v) ''unknown field'') (\<lambda>_.
     and_then (text_of v ''reference'') (\<lambda>r. and_then (count_of v ''max_model_calls'') (\<lambda>c.
     and_then (count_of v ''max_input_bytes'') (\<lambda>i. and_then (count_of v ''max_output_bytes'') (\<lambda>u.
     Ok \<lparr>sp_reference = r, sp_model_calls = c, sp_input_bytes = i, sp_output_bytes = u\<rparr>)))))"

definition policy_json :: "upkeep_policy \<Rightarrow> json" where
  "policy_json p = jobj [(''schema_version'', JInt (up_schema p)), (''policy_id'', JStr (up_id p)),
     (''policy_revision'', JInt (up_revision p)), (''project_id'', JStr (up_project p)), (''tenant_id'', JStr (up_tenant p)),
     (''repo'', JStr (up_repo p)), (''repository'', JStr (up_repository p)), (''base'', JStr (up_base p)),
     (''automation_grant_id'', JStr (up_grant p)), (''routine_id'', JStr (up_routine p)), (''expires_at'', JInt (up_expires p)),
     (''budget'', cap_json (up_budget p)), (''authority_url'', JStr (up_url p)),
     (''authority_token_env'', JStr (up_token_env p)), (''allow_private_http'', JBool (up_private_http p))]"

definition policy_of_json :: "json \<Rightarrow> upkeep_policy result" where
  "policy_of_json v =
     and_then (require (only_keys [''schema_version'', ''policy_id'', ''policy_revision'', ''project_id'', ''tenant_id'', ''repo'', ''repository'',
       ''base'', ''automation_grant_id'', ''routine_id'', ''expires_at'', ''budget'', ''authority_url'', ''authority_token_env'',
       ''allow_private_http''] v) ''unknown field'') (\<lambda>_.
     and_then (version_of v ''schema_version'') (\<lambda>n. and_then (text_of v ''policy_id'') (\<lambda>i.
     and_then (count_of v ''policy_revision'') (\<lambda>r. and_then (text_of v ''project_id'') (\<lambda>p.
     and_then (text_of v ''tenant_id'') (\<lambda>t. and_then (text_of v ''repo'') (\<lambda>d. and_then (text_of v ''repository'') (\<lambda>g.
     and_then (text_of v ''base'') (\<lambda>b. and_then (text_of v ''automation_grant_id'') (\<lambda>a. and_then (text_of v ''routine_id'') (\<lambda>u.
     and_then (time_of v ''expires_at'') (\<lambda>e. and_then (cap_of_json (jget v ''budget'')) (\<lambda>c.
     and_then (text_of v ''authority_url'') (\<lambda>l. and_then (text_of v ''authority_token_env'') (\<lambda>k.
     and_then (case jfield v ''allow_private_http'' of None \<Rightarrow> Ok False | Some x \<Rightarrow> context_of (as_bool x) ''invalid type'') (\<lambda>h.
     Ok \<lparr>up_schema = n, up_id = i, up_revision = r, up_project = p, up_tenant = t, up_repo = d, up_repository = g, up_base = b,
         up_grant = a, up_routine = u, up_expires = e, up_budget = c, up_url = l, up_token_env = k, up_private_http = h\<rparr>))))))))))))))))"

definition registered_json :: "registered \<Rightarrow> json" where
  "registered_json g = jobj [(''policy'', policy_json (rg_policy g)), (''revoked'', JBool (rg_revoked g))]"

definition registered_of_json :: "json \<Rightarrow> registered result" where
  "registered_of_json v =
     and_then (require (only_keys [''policy'', ''revoked''] v) ''unknown field'') (\<lambda>_.
     and_then (policy_of_json (jget v ''policy'')) (\<lambda>p.
     and_then (context_of (as_bool (jget v ''revoked'')) ''missing or invalid field'') (\<lambda>r.
     Ok \<lparr>rg_policy = p, rg_revoked = r\<rparr>)))"

definition upstreams_json :: "(string, string) btree \<Rightarrow> json" where
  "upstreams_json m = JObj (map (\<lambda>(k, v). (k, JStr v)) m)"

definition upkeep_json :: "upkeep_binding \<Rightarrow> json" where
  "upkeep_json b = jobj [(''schema_version'', JInt (ub_schema b)), (''policy_id'', JStr (ub_policy b)),
     (''policy_revision'', JInt (ub_revision b)), (''automation_grant_id'', JStr (ub_grant b)), (''routine_id'', JStr (ub_routine b)),
     (''occurrence_id'', JStr (ub_occurrence b)), (''invocation_id'', JStr (ub_invocation b)),
     (''collected_until'', JInt (ub_until b)), (''expires_at'', JInt (ub_expires b)),
     (''upstreams'', upstreams_json (ub_upstreams b)), (''budget'', cap_json (ub_budget b))]"

definition upkeep_of_json :: "json \<Rightarrow> upkeep_binding result" where
  "upkeep_of_json v =
     and_then (require (only_keys [''schema_version'', ''policy_id'', ''policy_revision'', ''automation_grant_id'', ''routine_id'',
       ''occurrence_id'', ''invocation_id'', ''collected_until'', ''expires_at'', ''upstreams'', ''budget''] v) ''unknown field'') (\<lambda>_.
     and_then (version_of v ''schema_version'') (\<lambda>n. and_then (text_of v ''policy_id'') (\<lambda>i.
     and_then (count_of v ''policy_revision'') (\<lambda>r. and_then (text_of v ''automation_grant_id'') (\<lambda>a.
     and_then (text_of v ''routine_id'') (\<lambda>u. and_then (text_of v ''occurrence_id'') (\<lambda>c. and_then (text_of v ''invocation_id'') (\<lambda>k.
     and_then (time_of v ''collected_until'') (\<lambda>l. and_then (time_of v ''expires_at'') (\<lambda>e.
     and_then (context_of (as_object (jget v ''upstreams'')) ''missing or invalid field'') (\<lambda>m.
     and_then (map_result (\<lambda>(x, y). and_then (context_of (as_str y) ''invalid type'') (\<lambda>y. Ok (x, y))) m) (\<lambda>m.
     and_then (cap_of_json (jget v ''budget'')) (\<lambda>b.
     Ok \<lparr>ub_schema = n, ub_policy = i, ub_revision = r, ub_grant = a, ub_routine = u, ub_occurrence = c, ub_invocation = k,
         ub_until = l, ub_expires = e, ub_upstreams = m, ub_budget = b\<rparr>)))))))))))))"

section \<open>The register of policies\<close>

text \<open>What the register asks of the machine: addresses, the names of branches and the secrets.\<close>

record upkeep_deps =
  ud_url :: "string \<Rightarrow> url_fields result"
  ud_branch :: "string \<Rightarrow> string \<Rightarrow> unit result"
  ud_token :: "string \<Rightarrow> string result"

definition upkeep_label :: "string \<Rightarrow> unit result" where
  "upkeep_label v = require (v \<noteq> [] \<and> length v \<le> 256 \<and> trim v = v \<and> \<not> has_control v) ''invalid maintenance identifier''"

definition validate_budget :: "spend_cap \<Rightarrow> unit result" where
  "validate_budget b =
     and_then (upkeep_label (sp_reference b)) (\<lambda>_.
     require (sp_model_calls b > 0 \<and> sp_input_bytes b > 0 \<and> sp_output_bytes b > 0) ''maintenance budget must be positive'')"

definition upkeep_key :: "string \<Rightarrow> string" where
  "upkeep_key i = ''upstream-maintenance.policy:'' @ i"

definition load_upkeep :: "env \<Rightarrow> string \<Rightarrow> store \<Rightarrow> registered result" where
  "load_upkeep env i s =
     and_then (upkeep_label i) (\<lambda>_.
     and_then (context_of (setting (upkeep_key i) s) ''maintenance policy is not registered'') (\<lambda>t.
     and_then (context_of (parse_json env t) ''invalid registered maintenance policy'') registered_of_json))"

definition get_policy :: "env \<Rightarrow> string \<Rightarrow> string \<Rightarrow> store \<Rightarrow> json result" where
  "get_policy env i project s =
     and_then (load_upkeep env i s) (\<lambda>g.
     and_then (require (up_project (rg_policy g) = project) ''maintenance policy project scope violation'') (\<lambda>_.
     Ok (jobj [(''active'', JBool (\<not> rg_revoked g \<and> up_expires (rg_policy g) > now env)),
       (''policy'', policy_json (rg_policy g)), (''revoked'', JBool (rg_revoked g))])))"

definition token_name_ok :: "string \<Rightarrow> bool" where
  "token_name_ok v = (v \<noteq> [] \<and>
     list_all (\<lambda>(i, b). b = CHR ''_'' \<or> ascii_alnum b \<and> (i > 0 \<or> \<not> ascii_digit b)) (enumerate 0 v))"

definition validate_authority :: "upkeep_deps \<Rightarrow> upkeep_policy \<Rightarrow> url_fields result" where
  "validate_authority D p =
     and_then (ud_url D (up_url p)) (\<lambda>u.
     and_then (require (ul_scheme u = ''https'' \<or> ul_scheme u = ''http'' \<and> (ul_loopback u \<or> up_private_http p))
       ''maintenance authority requires HTTPS or operator-approved private HTTP'') (\<lambda>_.
     and_then (require (ul_host u \<noteq> None \<and> ul_username u = [] \<and> ul_password u = None \<and> ul_query u = None \<and> ul_fragment u = None)
       ''invalid maintenance authority endpoint'') (\<lambda>_.
     and_then (require (token_name_ok (up_token_env p)) ''invalid maintenance authority credential reference'') (\<lambda>_. Ok u))))"

definition absolute :: "string \<Rightarrow> bool" where
  "absolute p = prefix ''/'' p"

definition repository_name_ok :: "string \<Rightarrow> bool" where
  "repository_name_ok r = (length (split_on (CHR ''/'') r) = 2 \<and> list_all (\<lambda>c. ascii_alnum c \<or> c \<in> set ''/._-'') r)"

definition validate_policy :: "env \<Rightarrow> upkeep_deps \<Rightarrow> upkeep_policy \<Rightarrow> store \<Rightarrow> unit result" where
  "validate_policy env D p s =
     and_then (each_result upkeep_label [up_id p, up_project p, up_tenant p, up_repository p, up_base p, up_grant p, up_routine p]) (\<lambda>_.
     and_then (require (up_schema p = 1 \<and> up_revision p > 0) ''unsupported maintenance policy version'') (\<lambda>_.
     and_then (validate_budget (up_budget p)) (\<lambda>_.
     and_then (require (up_expires p > now env) ''maintenance policy has expired'') (\<lambda>_.
     and_then (resolve_project (up_project p) s) (\<lambda>r.
     and_then (tenant (up_project p) s) (\<lambda>t.
     and_then (require (r = up_project p \<and> t = up_tenant p) ''maintenance project/tenant mismatch'') (\<lambda>_.
     and_then (if absolute (up_repo p) then canonical_path env (up_repo p) else Ok []) (\<lambda>c.
     and_then (require (absolute (up_repo p) \<and> c = up_repo p) ''maintenance repository must be canonical'') (\<lambda>_.
     and_then (require (repository_name_ok (up_repository p)) ''invalid maintenance repository identity'') (\<lambda>_.
     and_then (ud_branch D (up_repo p) (up_base p)) (\<lambda>_.
     and_then (validate_authority D p) (\<lambda>_. Ok ()))))))))))))"

text \<open>A policy that is registered already is only replaced by a later revision of itself.\<close>

definition register_policy :: "env \<Rightarrow> upkeep_deps \<Rightarrow> upkeep_policy \<Rightarrow> (store, json) oper" where
  "register_policy env D p =
     thn (ask_state (validate_policy env D p))
    (atomic (
       bnd (ask_state (\<lambda>s. Ok (setting (upkeep_key (up_id p)) s))) (\<lambda>existing.
       bnd (ask_state (\<lambda>_. case existing of None \<Rightarrow> Ok None
             | Some t \<Rightarrow> and_then (context_of (parse_json env t) ''invalid JSON'') (\<lambda>v. and_then (registered_of_json v) (\<lambda>g. Ok (Some g))))) (\<lambda>old.
       if map_option rg_policy old = Some p then ask_state (get_policy env (up_id p) (up_project p))
       else
         thn (guard (case old of None \<Rightarrow> True | Some g \<Rightarrow> up_revision p > up_revision (rg_policy g)) ''maintenance policy revision must advance'')
        (thn (set_setting (upkeep_key (up_id p)) (json_text env (registered_json \<lparr>rg_policy = p, rg_revoked = False\<rparr>)))
        (thn (management_event ''maintenance.policy_registered'' (jobj [(''policy_id'', JStr (up_id p)),
                (''policy_revision'', JInt (up_revision p)), (''project_id'', JStr (up_project p))]))
             (ask_state (get_policy env (up_id p) (up_project p)))))))))"

definition binding_name :: string where
  "binding_name = ''upstream-maintenance.binding''"

text \<open>The root tasks that are bound to a revision of a policy; revoking it cancels them.\<close>

definition bound_roots :: "string \<Rightarrow> int \<Rightarrow> store \<Rightarrow> string list" where
  "bound_roots i revision s = map eo_task (filter (\<lambda>o'. eo_name o' = binding_name \<and>
     jget (eo_data o') ''policy_id'' = JStr i \<and> jget (eo_data o') ''policy_revision'' = JInt revision) (external_ops s))"

definition cancel_bound :: "env \<Rightarrow> string \<Rightarrow> string \<Rightarrow> (store, unit) oper" where
  "cancel_bound env project oid = thn (ask_state (authorize_task project oid)) (thn (cancel env oid) (ret ()))"

definition revoke_policy :: "env \<Rightarrow> string \<Rightarrow> int \<Rightarrow> string \<Rightarrow> (store, json) oper" where
  "revoke_policy env i revision project =
     atomic (
       bnd (ask_state (load_upkeep env i)) (\<lambda>old.
       thn (guard (up_project (rg_policy old) = project \<and> up_revision (rg_policy old) = revision) ''maintenance policy scope/revision mismatch'')
      (thn (set_setting (upkeep_key i) (json_text env (registered_json (old\<lparr>rg_revoked := True\<rparr>))))
      (bnd (ask_state (\<lambda>s. Ok (bound_roots i revision s))) (\<lambda>roots.
       thn (each_op (cancel_bound env project) roots)
      (thn (management_event ''maintenance.policy_revoked'' (jobj [(''policy_id'', JStr i), (''policy_revision'', JInt revision),
              (''project_id'', JStr project)]))
           (ask_state (get_policy env i project))))))))"

section \<open>The binding of a task\<close>

definition upstream_pins_ok :: "(string, string) btree \<Rightarrow> bool" where
  "upstream_pins_ok m = (length m = 3 \<and> list_all (\<lambda>r. case map_of m r of None \<Rightarrow> False
     | Some sha \<Rightarrow> length sha = 40 \<and> list_all (\<lambda>c. hex_value c \<noteq> None) sha) [''vercel/ai'', ''vercel/chat'', ''vercel/eve''])"

definition validate_upkeep :: "env \<Rightarrow> upkeep_binding \<Rightarrow> string \<Rightarrow> string \<Rightarrow> store \<Rightarrow> upkeep_policy result" where
  "validate_upkeep env b project repo s =
     and_then (each_result upkeep_label [ub_policy b, ub_grant b, ub_routine b, ub_occurrence b, ub_invocation b]) (\<lambda>_.
     and_then (validate_budget (ub_budget b)) (\<lambda>_.
     and_then (require (ub_schema b = 1) ''unsupported maintenance binding version'') (\<lambda>_.
     and_then (load_upkeep env (ub_policy b) s) (\<lambda>g.
     let p = rg_policy g in
     and_then (require (\<not> rg_revoked g \<and> ub_expires b > now env \<and> ub_expires b \<le> up_expires p)
       ''maintenance authority is revoked or expired'') (\<lambda>_.
     and_then (require (ub_revision b = up_revision p \<and> ub_grant b = up_grant p \<and> ub_routine b = up_routine p)
       ''maintenance authority identity changed'') (\<lambda>_.
     and_then (if project = up_project p then tenant project s else Ok []) (\<lambda>t.
     and_then (if project = up_project p \<and> t = up_tenant p then canonical_path env repo else Ok []) (\<lambda>c.
     and_then (require (project = up_project p \<and> t = up_tenant p \<and> c = up_repo p) ''maintenance repository/project scope mismatch'') (\<lambda>_.
     and_then (require (sp_reference (ub_budget b) = sp_reference (up_budget p) \<and>
         sp_model_calls (ub_budget b) \<le> sp_model_calls (up_budget p) \<and> sp_input_bytes (ub_budget b) \<le> sp_input_bytes (up_budget p) \<and>
         sp_output_bytes (ub_budget b) \<le> sp_output_bytes (up_budget p)) ''maintenance worker budget exceeds policy'') (\<lambda>_.
     and_then (require (upstream_pins_ok (ub_upstreams b)) ''maintenance upstream snapshot must pin all three approved repositories'') (\<lambda>_.
     and_then (require (ub_until b > 0 \<and> ub_until b \<le> ub_expires b \<and> ub_until b \<le> now env) ''invalid maintenance collection cutoff'') (\<lambda>_.
     Ok p))))))))))))"

definition upkeep_root :: "string \<Rightarrow> store \<Rightarrow> string" where
  "upkeep_root task s = (case find (\<lambda>t. tt_task t = task) (task_tree s) of None \<Rightarrow> task | Some t \<Rightarrow> tt_root t)"

definition upkeep_binding_of :: "string \<Rightarrow> store \<Rightarrow> (string \<times> upkeep_binding) option result" where
  "upkeep_binding_of task s =
     (let r0 = upkeep_root task s in
      case find (\<lambda>o'. eo_task o' = r0 \<and> eo_name o' = binding_name) (external_ops s) of
        None \<Rightarrow> Ok None
      | Some o' \<Rightarrow> and_then (upkeep_of_json (eo_data o')) (\<lambda>b. Ok (Some (r0, b))))"

definition insert_external :: "external_op_row \<Rightarrow> (store, unit) oper" where
  "insert_external r =
     insert_unique (\<lambda>o'. (eo_task o', eo_name o')) external_ops (\<lambda>f s. s\<lparr>external_ops := f (external_ops s)\<rparr>) r"

definition pin_binding :: "env \<Rightarrow> string \<Rightarrow> upkeep_binding \<Rightarrow> (store, unit) oper" where
  "pin_binding env task b =
     bnd (ask_state (task_project task)) (\<lambda>project.
     bnd (ask_state (get_task task)) (\<lambda>t.
     thn (ask_state (validate_upkeep env b project (tk_repo t)))
    (thn (insert_external \<lparr>eo_task = task, eo_name = binding_name, eo_state = ''pinned'', eo_data = upkeep_json b\<rparr>)
         (event env task ''maintenance.bound'' (jobj [(''policy_id'', JStr (ub_policy b)), (''policy_revision'', JInt (ub_revision b)),
            (''routine_id'', JStr (ub_routine b)), (''occurrence_id'', JStr (ub_occurrence b)),
            (''invocation_id'', JStr (ub_invocation b)), (''budget_reference'', JStr (sp_reference (ub_budget b)))])))))"

section \<open>The worker budget\<close>

record upkeep_usage =
  us_fenced :: bool
  us_calls :: int
  us_input :: int
  us_output :: int

definition usage_json :: "upkeep_usage \<Rightarrow> json" where
  "usage_json u = jobj [(''fenced'', JBool (us_fenced u)), (''model_calls'', JInt (us_calls u)),
     (''input_bytes'', JInt (us_input u)), (''output_bytes'', JInt (us_output u))]"

definition usage_of_json :: "json \<Rightarrow> upkeep_usage result" where
  "usage_of_json v =
     and_then (case jfield v ''fenced'' of None \<Rightarrow> Ok False | Some x \<Rightarrow> context_of (as_bool x) ''invalid type'') (\<lambda>f.
     and_then (count_of v ''model_calls'') (\<lambda>c. and_then (count_of v ''input_bytes'') (\<lambda>i. and_then (count_of v ''output_bytes'') (\<lambda>u.
     Ok \<lparr>us_fenced = f, us_calls = c, us_input = i, us_output = u\<rparr>))))"

definition usage_key :: "env \<Rightarrow> upkeep_binding \<Rightarrow> string" where
  "usage_key env b = ''upstream-maintenance.usage:'' @ sha256 env (json_text env
     (JArr [JStr (ub_policy b), JInt (ub_revision b), JStr (ub_invocation b), JStr (sp_reference (ub_budget b))]))"

definition upkeep_usage_of :: "env \<Rightarrow> upkeep_binding \<Rightarrow> store \<Rightarrow> upkeep_usage result" where
  "upkeep_usage_of env b s =
     (case setting (usage_key env b) s of
        None \<Rightarrow> Ok \<lparr>us_fenced = False, us_calls = 0, us_input = 0, us_output = 0\<rparr>
      | Some t \<Rightarrow> and_then (context_of (parse_json env t) ''maintenance budget usage'') usage_of_json)"

definition check_upkeep :: "env \<Rightarrow> string \<Rightarrow> store \<Rightarrow> upkeep_policy option result" where
  "check_upkeep env task s =
     and_then (upkeep_binding_of task s) (\<lambda>x.
     case x of
       None \<Rightarrow> Ok None
     | Some (r0, b) \<Rightarrow>
         and_then (task_project r0 s) (\<lambda>project.
         and_then (task_project task s) (\<lambda>p.
         and_then (require (p = project) ''maintenance descendant project mismatch'') (\<lambda>_.
         and_then (get_task r0 s) (\<lambda>r.
         and_then (validate_upkeep env b project (tk_repo r) s) (\<lambda>policy.
         and_then (get_task task s) (\<lambda>t.
         and_then (require (tk_status t \<noteq> ''cancelled'' \<and> tk_status r \<noteq> ''cancelled'') ''maintenance task cancelled'') (\<lambda>_.
         and_then (upkeep_usage_of env b s) (\<lambda>u.
         and_then (require (\<not> us_fenced u) ''maintenance worker execution budget exhausted'') (\<lambda>_.
         Ok (Some policy)))))))))))"

text \<open>\<^verbatim>\<open>u64::checked_add\<close> of the three counters, then the limits.\<close>

definition usage_plus :: "upkeep_usage \<Rightarrow> int \<Rightarrow> int \<Rightarrow> int \<Rightarrow> upkeep_usage" where
  "usage_plus u calls input output =
     \<lparr>us_fenced = False, us_calls = us_calls u + calls, us_input = us_input u + input, us_output = us_output u + output\<rparr>"

definition usage_within :: "spend_cap \<Rightarrow> upkeep_usage \<Rightarrow> bool" where
  "usage_within b u =
     (us_calls u < 2 ^ 64 \<and> us_calls u \<le> sp_model_calls b \<and> us_input u < 2 ^ 64 \<and> us_input u \<le> sp_input_bytes b \<and>
      us_output u < 2 ^ 64 \<and> us_output u \<le> sp_output_bytes b)"

text \<open>An overrun is fenced before the caller hears of it: the fence is committed, then the error returned.\<close>

definition reserve_usage :: "env \<Rightarrow> string \<Rightarrow> int \<Rightarrow> int \<Rightarrow> int \<Rightarrow> (store, unit) oper" where
  "reserve_usage env task calls input output =
     bnd (atomic (
       thn (ask_state (check_upkeep env task))
      (bnd (ask_state (upkeep_binding_of task)) (\<lambda>x.
       case x of
         None \<Rightarrow> ret True
       | Some (_, b) \<Rightarrow>
           bnd (ask_state (upkeep_usage_of env b)) (\<lambda>u.
           let v = usage_plus u calls input output; allowed = usage_within (ub_budget b) v in
           thn (set_setting (usage_key env b) (json_text env (usage_json (if allowed then v else u\<lparr>us_fenced := True\<rparr>))))
               (ret allowed))))))
     (\<lambda>allowed. guard allowed ''maintenance worker execution budget exhausted'')"

definition reserve_model :: "env \<Rightarrow> string \<Rightarrow> int \<Rightarrow> (store, unit) oper" where
  "reserve_model env task input =
     bnd (ask_state (upkeep_binding_of task)) (\<lambda>b. if b = None then ret () else reserve_usage env task 1 input 0)"

definition consume_output :: "env \<Rightarrow> string \<Rightarrow> int \<Rightarrow> (store, unit) oper" where
  "consume_output env task output =
     bnd (ask_state (upkeep_binding_of task)) (\<lambda>b. if b = None then ret () else reserve_usage env task 0 0 output)"

definition upkeep_inspection :: "env \<Rightarrow> string \<Rightarrow> store \<Rightarrow> json result" where
  "upkeep_inspection env task s =
     and_then (upkeep_binding_of task s) (\<lambda>x.
     case x of
       None \<Rightarrow> Ok JNull
     | Some (r0, b) \<Rightarrow>
         and_then (upkeep_usage_of env b s) (\<lambda>u.
         Ok (jobj [(''root_task'', JStr r0), (''binding'', upkeep_json b), (''usage'', usage_json u),
           (''active'', JBool (is_ok (check_upkeep env task s))), (''package_release_supported'', JBool True),
           (''package_release_verified'', JBool (count_rows (\<lambda>o'. eo_task o' = r0 \<and> eo_name o' = ''package-release.verified'' \<and>
              eo_state o' = ''succeeded'') (external_ops s) = 1))])))"

section \<open>The authority service\<close>

definition authority_confirms :: "env \<Rightarrow> upkeep_policy \<Rightarrow> upkeep_binding \<Rightarrow> json \<Rightarrow> unit result" where
  "authority_confirms env p b v =
     require (jget v ''active'' = JBool True \<and> jget v ''collected_until'' = JInt (ub_until b) \<and>
       jget v ''upstreams'' = upstreams_json (ub_upstreams b) \<and> jget v ''invocation_id'' = JStr (ub_invocation b) \<and>
       jget v ''occurrence_id'' = JStr (ub_occurrence b) \<and> jget v ''policy_id'' = JStr (up_id p) \<and>
       jget v ''policy_revision'' = JInt (up_revision p) \<and> jget v ''automation_grant_id'' = JStr (up_grant p) \<and>
       jget v ''routine_id'' = JStr (up_routine p) \<and>
       (case as_i64 (jget v ''expires_at'') of None \<Rightarrow> False | Some e \<Rightarrow> e > now env \<and> e = up_expires p))
       ''owning maintenance authority is inactive or changed''"

text \<open>What is sent to the service: only after the address and the secret were checked.\<close>

definition authority_request :: "upkeep_deps \<Rightarrow> upkeep_policy \<Rightarrow> (url_fields \<times> string) result" where
  "authority_request D p =
     and_then (validate_authority D p) (\<lambda>u.
     and_then (ud_token D (up_token_env p)) (\<lambda>t.
     and_then (require (length t \<ge> 32) ''maintenance authority credential is invalid'') (\<lambda>_. Ok (u, t))))"

definition authority_online :: "env \<Rightarrow> upkeep_deps \<Rightarrow> (url_fields \<Rightarrow> string \<Rightarrow> upkeep_binding \<Rightarrow> json result) \<Rightarrow>
    upkeep_policy \<Rightarrow> upkeep_binding \<Rightarrow> unit result" where
  "authority_online env D fetch p b =
     and_then (authority_request D p) (\<lambda>(u, t).
     (case fetch u t b of Inl _ \<Rightarrow> bail ''owning maintenance authority is unavailable'' | Inr v \<Rightarrow> authority_confirms env p b v))"

definition authorize_submission :: "env \<Rightarrow> upkeep_deps \<Rightarrow> (url_fields \<Rightarrow> string \<Rightarrow> upkeep_binding \<Rightarrow> json result) \<Rightarrow>
    json \<Rightarrow> string \<Rightarrow> store \<Rightarrow> upkeep_binding option result" where
  "authorize_submission env D fetch args repo s =
     (case jfield args ''upstream_maintenance'' of
        None \<Rightarrow> Ok None
      | Some v \<Rightarrow>
          and_then (upkeep_of_json v) (\<lambda>b.
          and_then (context_of (as_str (jget args ''project'')) ''maintenance project required'') (\<lambda>project.
          and_then (validate_upkeep env b project repo s) (\<lambda>p.
          and_then (require (jget args ''on'' = JNull \<or> jget args ''on'' = JStr ''local'') ''remote maintenance execution is not budget-qualified'') (\<lambda>_.
          and_then (authority_online env D fetch p b) (\<lambda>_.
          and_then (validate_upkeep env b project repo s) (\<lambda>_.
          Ok (Some b))))))))"

definition maintenance_dispatch :: "env \<Rightarrow> upkeep_deps \<Rightarrow> string \<Rightarrow> json \<Rightarrow> (store, json option) oper" where
  "maintenance_dispatch env D name args =
     (if name = ''maintenance_policy_register'' then
        bnd (ask_state (\<lambda>_. policy_of_json (jget args ''policy''))) (\<lambda>p. bnd (register_policy env D p) (\<lambda>v. ret (Some v)))
      else if name = ''maintenance_policy_get'' then
        bnd (ask_state (\<lambda>_. context_of (as_str (jget args ''policy_id'')) ''policy_id required'')) (\<lambda>i.
        bnd (ask_state (\<lambda>_. context_of (as_str (jget args ''project'')) ''project required'')) (\<lambda>project.
        bnd (ask_state (get_policy env i project)) (\<lambda>v. ret (Some v))))
      else if name = ''maintenance_policy_revoke'' then
        bnd (ask_state (\<lambda>_. context_of (as_str (jget args ''policy_id'')) ''policy_id required'')) (\<lambda>i.
        bnd (ask_state (\<lambda>_. context_of (as_u64 (jget args ''policy_revision'')) ''policy_revision required'')) (\<lambda>n.
        bnd (ask_state (\<lambda>_. context_of (as_str (jget args ''project'')) ''project required'')) (\<lambda>project.
        bnd (revoke_policy env i n project) (\<lambda>v. ret (Some v)))))
      else ret None)"

end
