(* ===== verification/Decisions.thy ===== *)
theory Decisions
  imports Maintenance Metrics
begin

text \<open>
  Decisions of an advisory model (src/src/decision): the questions that are asked, the checks of an
  answer, the durable rows of the decisions with their states, the review checkpoints, and the
  settings that an operator gives them (src/src/config/decision.rs,
  src/src/config/automatic_delivery.rs). Probabilities are exact numbers.
\<close>

section \<open>Questions\<close>

datatype question =
    ChoiceQ string string "string list"
  | ScoreQ string string "string list"
  | NoulQ string string

fun q_id :: "question \<Rightarrow> string" where
  "q_id (ChoiceQ i _ _) = i" | "q_id (ScoreQ i _ _) = i" | "q_id (NoulQ i _) = i"

fun q_prompt :: "question \<Rightarrow> string" where
  "q_prompt (ChoiceQ _ p _) = p" | "q_prompt (ScoreQ _ p _) = p" | "q_prompt (NoulQ _ p) = p"

fun q_labels :: "question \<Rightarrow> string list option" where
  "q_labels (ChoiceQ _ _ ls) = Some ls" | "q_labels (ScoreQ _ _ ls) = Some ls" | "q_labels (NoulQ _ _) = None"

record decision_request =
  dr_model :: string
  dr_state :: json
  dr_questions :: "question list"

definition bounded_label :: "string \<Rightarrow> nat \<Rightarrow> bool" where
  "bounded_label v most = (v \<noteq> [] \<and> length v \<le> most \<and> v = trim v \<and> \<not> has_control v)"

definition model_name_ok :: "string \<Rightarrow> bool" where
  "model_name_ok m = (m \<noteq> [] \<and> length m \<le> 128 \<and> list_all (\<lambda>c. ascii_alnum c \<or> c \<in> set ''-_./'') m)"

definition check_labels :: "question \<Rightarrow> unit result" where
  "check_labels q =
     (case q_labels q of
        None \<Rightarrow> Ok ()
      | Some ls \<Rightarrow>
          and_then (require (2 \<le> length ls \<and> length ls \<le> 64) ''choice and score questions need 2..=64 labels'') (\<lambda>_.
          and_then (require (list_all (\<lambda>l. bounded_label l 256) ls) ''invalid question label'') (\<lambda>_.
          require (distinct ls) ''duplicate question label'')))"

fun check_questions :: "string list \<Rightarrow> question list \<Rightarrow> unit result" where
  "check_questions seen [] = Ok ()"
| "check_questions seen (q # qs) =
     and_then (require (bounded_label (q_id q) 64) ''invalid question id'') (\<lambda>_.
     and_then (require (q_id q \<notin> set seen) ''duplicate question id'') (\<lambda>_.
     and_then (require (\<not> blank (q_prompt q) \<and> int (length (q_prompt q)) \<le> 8 * 1024) ''invalid question text'') (\<lambda>_.
     and_then (check_labels q) (\<lambda>_. check_questions (q_id q # seen) qs))))"

fun wire_question :: "question \<Rightarrow> json" where
  "wire_question (ChoiceQ _ p ls) = jobj [(''type'', JStr ''choice''), (''instructions'', JStr p),
     (''criteria'', jobj (map (\<lambda>l. (l, JNull)) ls))]"
| "wire_question (ScoreQ _ p ls) = jobj [(''type'', JStr ''score''), (''instructions'', JStr p), (''criteria'', JArr (map JStr ls))]"
| "wire_question (NoulQ _ p) = jobj [(''type'', JStr ''noul''), (''instructions'', JStr p)]"

definition wire_request :: "decision_request \<Rightarrow> json" where
  "wire_request r = jobj [(''model'', JStr (dr_model r)), (''state'', dr_state r),
     (''questions'', jobj (map (\<lambda>q. (q_id q, wire_question q)) (dr_questions r)))]"

definition is_evidence :: "json \<Rightarrow> bool" where
  "is_evidence v = (case v of JStr _ \<Rightarrow> True | JObj _ \<Rightarrow> True | JArr _ \<Rightarrow> True | _ \<Rightarrow> False)"

definition validate_request :: "env \<Rightarrow> decision_request \<Rightarrow> unit result" where
  "validate_request env r =
     and_then (require (model_name_ok (dr_model r)) ''invalid decision model identifier'') (\<lambda>_.
     and_then (require (dr_questions r \<noteq> [] \<and> length (dr_questions r) \<le> 16) ''decision request must contain 1..=16 questions'') (\<lambda>_.
     and_then (check_questions [] (dr_questions r)) (\<lambda>_.
     and_then (require (is_evidence (dr_state r)) ''decision state must be a string, object, or array'') (\<lambda>_.
     and_then (require (json_len env (dr_state r) + int (fold max (map (length \<circ> q_prompt) (dr_questions r)) 0) \<le> 30 * 1024)
       ''decision state and longest question exceed the context limit'') (\<lambda>_.
     require (json_len env (wire_request r) \<le> 60 * 1024) ''serialized decision request exceeds the request limit'')))))"

section \<open>Answers\<close>

datatype answer =
    ChoiceA string string rat "(string, rat) btree"
  | ScoreA string rat rat "(string, rat) btree"
  | NoulA string rat "rat option"

record decision_response =
  dn_answers :: "answer list"
  dn_input_tokens :: "int option"
  dn_output_tokens :: "int option"

definition tolerance :: rat where
  "tolerance = 1 / 1000000"

definition probability_of :: "json \<Rightarrow> rat result" where
  "probability_of v =
     and_then (context_of (as_f64 v) ''must be numeric'') (\<lambda>x.
     and_then (require (0 \<le> x \<and> x \<le> 1) ''must be finite and between 0 and 1'') (\<lambda>_. Ok x))"

definition distribution_of :: "json \<Rightarrow> string list \<Rightarrow> (string, rat) btree result" where
  "distribution_of v labels =
     and_then (context_of (as_object v) ''probabilities must be an object'') (\<lambda>m.
     and_then (require (set (map fst m) = set labels) ''probability keys do not match the question labels'') (\<lambda>_.
     and_then (map_result (\<lambda>(k, x). and_then (probability_of x) (\<lambda>p. Ok (k, p))) m) (\<lambda>ps.
     and_then (require (\<bar>sum_list (map snd ps) - 1\<bar> \<le> tolerance) ''probabilities must sum to one'') (\<lambda>_. Ok ps))))"

definition probability_at :: "(string, rat) btree \<Rightarrow> string \<Rightarrow> rat" where
  "probability_at ps k = unwrap_or (map_of ps k) 0"

definition index_labels :: "string list \<Rightarrow> string list" where
  "index_labels ls = map show_nat [0..<length ls]"

definition legend_matches :: "json \<Rightarrow> string list \<Rightarrow> bool" where
  "legend_matches v ls =
     (case v of
        JArr xs \<Rightarrow> xs = map JStr ls
      | JObj m \<Rightarrow> length m = length ls \<and> list_all (\<lambda>(k, l). map_of m k = Some (JStr l)) (zip (index_labels ls) ls)
      | _ \<Rightarrow> False)"

fun check_answer :: "json \<Rightarrow> question \<Rightarrow> answer result" where
  "check_answer row (ChoiceQ i _ options) =
     and_then (require (jget row ''type'' = JStr ''choice'') ''answer type mismatch'') (\<lambda>_.
     and_then (distribution_of (jget row ''probabilities'') options) (\<lambda>ps.
     and_then (context_of (as_str (jget row ''choice'')) ''choice answer missing'') (\<lambda>a.
     and_then (require (a \<in> set options) ''choice answer was not offered'') (\<lambda>_.
     and_then (require (list_all (\<lambda>(_, p). p \<le> probability_at ps a + tolerance) ps) ''choice answer is not an argmax'') (\<lambda>_.
     and_then (probability_of (jget row ''confidence'')) (\<lambda>c.
     Ok (ChoiceA i a c ps)))))))"
| "check_answer row (ScoreQ i _ legend) =
     and_then (require (jget row ''type'' = JStr ''score'') ''answer type mismatch'') (\<lambda>_.
     and_then (require (legend_matches (jget row ''legend'') legend) ''score legend does not match the request'') (\<lambda>_.
     and_then (distribution_of (jget row ''probabilities'') (index_labels legend)) (\<lambda>ps.
     and_then (context_of (as_f64 (jget row ''score'')) ''score answer missing'') (\<lambda>x.
     and_then (require (\<bar>x - sum_list (map (\<lambda>n. of_nat n * probability_at ps (show_nat n)) [0..<length legend])\<bar> \<le> tolerance)
       ''score does not equal the weighted legend index'') (\<lambda>_.
     and_then (probability_of (jget row ''confidence'')) (\<lambda>c.
     Ok (ScoreA i x c ps)))))))"
| "check_answer row (NoulQ i _) =
     and_then (require (jget row ''type'' = JStr ''noul'') ''answer type mismatch'') (\<lambda>_.
     and_then (probability_of (jget row ''noul'')) (\<lambda>x.
     and_then (case jfield row ''confidence'' of None \<Rightarrow> Ok None
         | Some v \<Rightarrow> if v = JNull then Ok None else and_then (probability_of v) (\<lambda>c. Ok (Some c))) (\<lambda>c.
     Ok (NoulA i x c))))"

definition tokens_of :: "json \<Rightarrow> string \<Rightarrow> int option result" where
  "tokens_of v k =
     (case jfield v k of None \<Rightarrow> Ok None
      | Some x \<Rightarrow> if x = JNull then Ok None else and_then (context_of (as_u64 x) ''usage must be nonnegative'') (\<lambda>n. Ok (Some n)))"

definition validate_response :: "env \<Rightarrow> decision_request \<Rightarrow> json \<Rightarrow> decision_response result" where
  "validate_response env r v =
     and_then (validate_request env r) (\<lambda>_.
     and_then (require (jget v ''model'' = JStr (dr_model r)) ''decision response model mismatch'') (\<lambda>_.
     and_then (context_of (as_object (jget v ''answers'')) ''decision response needs an answers object'') (\<lambda>m.
     and_then (require (length m = length (dr_questions r)) ''decision answer count mismatch'') (\<lambda>_.
     and_then (require (set (map fst m) = set (map q_id (dr_questions r))) ''decision answer ids do not match the request'') (\<lambda>_.
     and_then (map_result (\<lambda>q. and_then (context_of (map_of m (q_id q)) ''answer id mismatch'') (\<lambda>row. check_answer row q)) (dr_questions r)) (\<lambda>as'.
     and_then (tokens_of (jget v ''usage'') ''input_tokens'') (\<lambda>i.
     and_then (tokens_of (jget v ''usage'') ''output_tokens'') (\<lambda>u.
     Ok \<lparr>dn_answers = as', dn_input_tokens = i, dn_output_tokens = u\<rparr>))))))))"

section \<open>Settings of an operator\<close>

datatype decision_mode = DecisionDisabled | DecisionShadow
datatype context_mode = ModeDisabled | ModeShadow | ModeActive

record guidance =
  gd_runtime :: string
  gd_capability :: string
  gd_description :: string

record decision_settings =
  ds_mode :: decision_mode
  ds_review :: bool
  ds_context_mode :: context_mode
  ds_browser_mode :: context_mode
  ds_max_request :: int
  ds_trigger :: int
  ds_savings :: int
  ds_savings_ratio :: int
  ds_backend :: string
  ds_base_url :: string
  ds_key_env :: string
  ds_model :: string
  ds_protocol :: string
  ds_policy :: string
  ds_deadline_ms :: int
  ds_attempts :: nat
  ds_task_limit :: nat
  ds_guidance :: "guidance list"

definition default_decision :: decision_settings where
  "default_decision = \<lparr>ds_mode = DecisionDisabled, ds_review = False, ds_context_mode = ModeDisabled, ds_browser_mode = ModeDisabled,
     ds_max_request = 0, ds_trigger = 64 * 1024, ds_savings = 16 * 1024, ds_savings_ratio = 15, ds_backend = ''tuara'',
     ds_base_url = [], ds_key_env = [], ds_model = ''jev-1.13.0'', ds_protocol = ''systemone-v1'', ds_policy = ''routing-v1'',
     ds_deadline_ms = 5000, ds_attempts = 2, ds_task_limit = 64, ds_guidance = []\<rparr>"

text \<open>The parser of addresses is a parameter, as for the authority of maintenance.\<close>

definition decision_endpoint :: "(string \<Rightarrow> url_fields result) \<Rightarrow> string \<Rightarrow> url_fields result" where
  "decision_endpoint url base =
     and_then (url base) (\<lambda>u.
     and_then (require (ul_username u = [] \<and> ul_password u = None) ''decision.base_url cannot contain user info'') (\<lambda>_.
     and_then (require (ul_query u = None \<and> ul_fragment u = None) ''decision.base_url cannot contain a query or fragment'') (\<lambda>_.
     and_then (require (ul_scheme u = ''https'' \<or> ul_scheme u = ''http'' \<and> ul_loopback u)
       ''decision endpoint requires HTTPS except for literal loopback HTTP'') (\<lambda>_.
     Ok (u\<lparr>ul_path := rev (dropWhile (\<lambda>c. c = CHR ''/'') (rev (ul_path u))) @ ''/v1/systemone''\<rparr>)))))"

definition guidance_ok :: "guidance \<Rightarrow> bool" where
  "guidance_ok g = (gd_runtime g \<noteq> [] \<and> gd_capability g \<noteq> [] \<and> \<not> blank (gd_description g) \<and> length (gd_runtime g) \<le> 256 \<and>
     length (gd_capability g) \<le> 256 \<and> length (gd_description g) \<le> 2048)"

definition in_bounds :: "int \<Rightarrow> int \<Rightarrow> int \<Rightarrow> bool" where
  "in_bounds lo hi n = (lo \<le> n \<and> n \<le> hi)"

definition validate_decision :: "(string \<Rightarrow> url_fields result) \<Rightarrow> decision_settings \<Rightarrow> unit result" where
  "validate_decision url d =
     (if ds_mode d = DecisionDisabled then
        and_then (require (ds_context_mode d = ModeDisabled) ''native context pruning requires decision.mode=shadow'') (\<lambda>_.
        require (ds_browser_mode d = ModeDisabled) ''browser testing requires decision.mode=shadow'')
      else
        and_then (require (ds_backend d \<noteq> [] \<and> length (ds_backend d) \<le> 64 \<and>
            list_all (\<lambda>c. ascii_lower_or_digit c \<or> c = CHR ''-'' \<or> c = CHR ''_'') (ds_backend d)) ''decision.backend must name a provider'') (\<lambda>_.
        and_then (require (model_name_ok (ds_model d)) ''decision.model must be a bounded model identifier'') (\<lambda>_.
        and_then (require (ds_protocol d = ''systemone-v1'') ''decision.protocol must be systemone-v1'') (\<lambda>_.
        and_then (require (ds_policy d = ''routing-v1'') ''decision.policy must be routing-v1'') (\<lambda>_.
        and_then (require (in_bounds 100 30000 (ds_deadline_ms d) \<and> in_bounds 1 3 (int (ds_attempts d)) \<and> in_bounds 1 256 (int (ds_task_limit d)))
          ''decision deadline, attempts, or per-task limit is outside the supported range'') (\<lambda>_.
        and_then (require (ds_max_request d = 0 \<or> in_bounds (8 * 1024) (16 * 1024 * 1024) (ds_max_request d))
          ''native context request byte ceiling is outside the supported range'') (\<lambda>_.
        and_then (require (in_bounds (8 * 1024) (16 * 1024 * 1024) (ds_trigger d)) ''native context trigger byte threshold is outside the supported range'') (\<lambda>_.
        and_then (require (in_bounds 1024 (1024 * 1024) (ds_savings d)) ''native context minimum savings is outside the supported range'') (\<lambda>_.
        and_then (require (in_bounds 5 90 (ds_savings_ratio d)) ''native context minimum savings ratio is outside the supported range'') (\<lambda>_.
        and_then (require (ds_base_url d \<noteq> []) ''decision provider needs a configured base_url before it can be enabled'') (\<lambda>_.
        and_then (require (ds_key_env d \<noteq> [] \<and> length (ds_key_env d) \<le> 128 \<and>
            list_all (\<lambda>c. ascii_alnum c \<or> c = CHR ''_'') (ds_key_env d)) ''decision.api_key_env must name an environment variable'') (\<lambda>_.
        and_then (decision_endpoint url (ds_base_url d)) (\<lambda>_.
        and_then (require (length (ds_guidance d) \<le> 256) ''decision capability guidance accepts at most 256 entries'') (\<lambda>_.
        require (list_all guidance_ok (ds_guidance d) \<and> distinct (map (\<lambda>g. (gd_runtime g, gd_capability g)) (ds_guidance d)))
          ''invalid or duplicate decision capability guidance''))))))))))))))"

text \<open>The identity of the service that answers: never the secret itself.\<close>

definition fingerprint :: "env \<Rightarrow> (string \<Rightarrow> url_fields result) \<Rightarrow> (url_fields \<Rightarrow> string) \<Rightarrow> decision_settings \<Rightarrow> string result" where
  "fingerprint env url show_url d =
     and_then (decision_endpoint url (ds_base_url d)) (\<lambda>u.
     Ok (sha256 env (json_text env (jobj [(''backend'', JStr (ds_backend d)), (''endpoint'', JStr (show_url u)),
       (''api_key_env'', JStr (ds_key_env d)), (''model'', JStr (ds_model d)), (''protocol'', JStr (ds_protocol d))]))))"

subsection \<open>Automatic delivery\<close>

record package_contract =
  pk_repository :: string
  pk_workflow :: string

record delivery_policy =
  ad_enabled :: bool
  ad_program :: string
  ad_repositories :: "string list"
  ad_bases :: "string list"
  ad_environments :: "string list"
  ad_workflows :: "string list"
  ad_paths :: "string list"
  ad_checks :: "string list"
  ad_approvals :: nat
  ad_independent :: bool
  ad_version_url :: "string option"
  ad_smoke_url :: "string option"
  ad_qualification :: string
  ad_routine :: rat
  ad_confidence :: rat
  ad_package :: "package_contract option"

definition half_to_one :: "rat \<Rightarrow> bool" where
  "half_to_one x = (1 / 2 \<le> x \<and> x \<le> 1)"

definition package_contract_ok :: "delivery_policy \<Rightarrow> bool" where
  "package_contract_ok p =
     (case ad_package p of None \<Rightarrow> True
      | Some k \<Rightarrow> pk_repository k = ''gethamster/adam'' \<and> pk_workflow k = ''release.yml'' \<and> ad_repositories p = [pk_repository k] \<and>
          ad_bases p = [''main''] \<and> ad_version_url p = None \<and> ad_smoke_url p = None)"

definition assertion_url_ok :: "(string \<Rightarrow> url_fields result) \<Rightarrow> string \<Rightarrow> unit result" where
  "assertion_url_ok url v =
     and_then (url v) (\<lambda>u.
     require ((ul_scheme u = ''https'' \<or> ul_scheme u = ''http'' \<and> ul_loopback u) \<and> ul_host u \<noteq> None \<and> ul_username u = [] \<and> ul_password u = None)
       ''automatic delivery assertion URLs require HTTPS or literal loopback HTTP without credentials'')"

definition validate_delivery :: "(string \<Rightarrow> url_fields result) \<Rightarrow> delivery_policy \<Rightarrow> unit result" where
  "validate_delivery url p =
     (if \<not> ad_enabled p then Ok ()
      else
        and_then (require (absolute (ad_program p) \<and> ad_repositories p \<noteq> [] \<and> ad_bases p \<noteq> [] \<and>
            (ad_package p \<noteq> None \<or> ad_environments p \<noteq> [] \<and> ad_workflows p \<noteq> []) \<and> ad_paths p \<noteq> [] \<and> ad_checks p \<noteq> [] \<and>
            ad_approvals p \<noteq> 0 \<and> ad_independent p \<and> ad_qualification p \<noteq> [] \<and> half_to_one (ad_routine p) \<and> half_to_one (ad_confidence p))
          ''automatic delivery requires explicit scope, checks, review, approvals, and qualification'') (\<lambda>_.
        and_then (require (package_contract_ok p)
          ''package release requires the explicit Adam main/tag workflow contract without application assertions'') (\<lambda>_.
        and_then (require (list_all (\<lambda>v. v \<noteq> [] \<and> length v \<le> 256 \<and> \<not> has_control v)
            (ad_repositories p @ ad_bases p @ ad_environments p @ ad_workflows p @ ad_checks p)) ''automatic delivery contains an invalid identifier'') (\<lambda>_.
        and_then (each_result (\<lambda>v. and_then (scope v) (\<lambda>n. require (n = v \<and> v \<noteq> ''.'')
            ''automatic delivery allowed paths must be normalized repository prefixes'')) (ad_paths p)) (\<lambda>_.
        each_result (assertion_url_ok url) (List.map_filter id [ad_version_url p, ad_smoke_url p]))))))"

section \<open>The rows of decisions\<close>

record decision_row =
  dc_id :: string
  dc_task :: string
  dc_step :: "string option"
  dc_attempt :: "string option"
  dc_purpose :: string
  dc_state :: string
  dc_state_hash :: string
  dc_context :: int
  dc_policy :: string
  dc_policy_hash :: string
  dc_catalog_hash :: string
  dc_candidates :: json
  dc_backend :: string
  dc_model :: string
  dc_fingerprint :: string
  dc_evidence_hash :: string
  dc_request_hash :: string
  dc_cache_hash :: string
  dc_cache_source :: "string option"
  dc_artifact :: "string option"
  dc_result :: "json option"
  dc_error :: "string option"
  dc_baseline :: "string option"
  dc_proposed :: "string option"
  dc_abstention :: bool
  dc_queued :: int
  dc_started :: "int option"
  dc_finished :: "int option"
  dc_queue_ms :: "int option"
  dc_provider_ms :: "int option"
  dc_attempts :: int
  dc_usage :: "json option"

record review_row =
  rw_id :: string
  rw_event :: int
  rw_task :: string
  rw_kind :: string
  rw_revision :: "int option"
  rw_context :: "int option"
  rw_head :: "string option"
  rw_external_hash :: "string option"
  rw_manifest_hash :: "string option"
  rw_evidence_hash :: "string option"
  rw_coverage :: "json option"

record bench =
  bn_store :: store
  bn_decisions :: "decision_row list"
  bn_reviews :: "review_row list"

definition on_bench :: "(store, 'b) oper \<Rightarrow> ('a bench_scheme, 'b) oper" where
  "on_bench m = (\<lambda>d. case m (bn_store d) of (t, r) \<Rightarrow> (d\<lparr>bn_store := t\<rparr>, r))"

definition ask_bench :: "(store \<Rightarrow> 'b result) \<Rightarrow> ('a bench_scheme, 'b) oper" where
  "ask_bench f = ask_state (\<lambda>d. f (bn_store d))"

record queued_decision =
  qd_id :: string
  qd_task :: string
  qd_step :: "string option"
  qd_attempt :: "string option"
  qd_purpose :: string
  qd_policy :: string
  qd_backend :: string
  qd_model :: string
  qd_baseline :: "string option"

definition queued_row :: "env \<Rightarrow> queued_decision \<Rightarrow> bool \<Rightarrow> decision_row" where
  "queued_row env q admitted =
     \<lparr>dc_id = qd_id q, dc_task = qd_task q, dc_step = qd_step q, dc_attempt = qd_attempt q, dc_purpose = qd_purpose q,
      dc_state = (if admitted then ''queued'' else ''skipped''), dc_state_hash = [], dc_context = 0, dc_policy = qd_policy q,
      dc_policy_hash = [], dc_catalog_hash = [], dc_candidates = jobj [], dc_backend = qd_backend q, dc_model = qd_model q,
      dc_fingerprint = [], dc_evidence_hash = [], dc_request_hash = [], dc_cache_hash = [], dc_cache_source = None,
      dc_artifact = None, dc_result = None, dc_error = (if admitted then None else Some ''task_decision_limit''),
      dc_baseline = qd_baseline q, dc_proposed = None, dc_abstention = False, dc_queued = now env, dc_started = None,
      dc_finished = (if admitted then None else Some (now env)), dc_queue_ms = None, dc_provider_ms = None, dc_attempts = 0, dc_usage = None\<rparr>"

definition insert_decision :: "decision_row \<Rightarrow> ('a bench_scheme, unit) oper" where
  "insert_decision r = (\<lambda>d.
     if dc_id r \<in> dc_id ` set (bn_decisions d) then (d, bail ''UNIQUE constraint failed'')
     else (d\<lparr>bn_decisions := bn_decisions d @ [r]\<rparr>, Ok ()))"

text \<open>A decision beyond the limit of its task is kept, but never sent.\<close>

definition enqueue_bounded :: "env \<Rightarrow> queued_decision \<Rightarrow> nat \<Rightarrow> ('a bench_scheme, bool) oper" where
  "enqueue_bounded env q most =
     thn (guard (bounded_label (qd_purpose q) 256) ''invalid decision purpose'')
    (atomic (
       thn (ask_bench (get_task (qd_task q)))
      (bnd (ask_state (\<lambda>d. Ok (count_rows (\<lambda>r. dc_task r = qd_task q) (bn_decisions d) < most))) (\<lambda>admitted.
       thn (insert_decision (queued_row env q admitted)) (ret admitted)))))"

text \<open>An update of one row that must be in one of the given states.\<close>

definition update_decision :: "string \<Rightarrow> string list \<Rightarrow> (decision_row \<Rightarrow> decision_row) \<Rightarrow> string \<Rightarrow> ('a bench_scheme, unit) oper" where
  "update_decision i states f msg = (\<lambda>d.
     let p = (\<lambda>r. dc_id r = i \<and> dc_state r \<in> set states) in
     (d\<lparr>bn_decisions := update_rows p f (bn_decisions d)\<rparr>, require (count_rows p (bn_decisions d) = 1) msg))"

record prepared_decision =
  pd_state_hash :: string
  pd_context :: int
  pd_policy_hash :: string
  pd_catalog_hash :: string
  pd_candidates :: json
  pd_fingerprint :: string
  pd_evidence_hash :: string
  pd_request_hash :: string
  pd_cache_hash :: string
  pd_artifact :: "string option"

definition start_decision :: "env \<Rightarrow> string \<Rightarrow> prepared_decision \<Rightarrow> ('a bench_scheme, unit) oper" where
  "start_decision env i p = update_decision i [''queued'']
     (\<lambda>r. r\<lparr>dc_state := ''running'', dc_state_hash := pd_state_hash p, dc_context := pd_context p, dc_policy_hash := pd_policy_hash p,
        dc_catalog_hash := pd_catalog_hash p, dc_candidates := pd_candidates p, dc_fingerprint := pd_fingerprint p,
        dc_evidence_hash := pd_evidence_hash p, dc_request_hash := pd_request_hash p, dc_cache_hash := pd_cache_hash p,
        dc_artifact := pd_artifact p, dc_started := Some (now env), dc_queue_ms := Some ((now env - dc_queued r) * 1000)\<rparr>)
     ''decision is no longer queued''"

record completed_decision =
  cp_result :: json
  cp_proposed :: "string option"
  cp_abstention :: bool
  cp_provider_ms :: int
  cp_attempts :: int
  cp_usage :: json

definition complete_decision :: "env \<Rightarrow> string \<Rightarrow> completed_decision \<Rightarrow> ('a bench_scheme, unit) oper" where
  "complete_decision env i c = update_decision i [''running'']
     (\<lambda>r. r\<lparr>dc_state := ''succeeded'', dc_result := Some (cp_result c), dc_proposed := cp_proposed c, dc_abstention := cp_abstention c,
        dc_finished := Some (now env), dc_provider_ms := Some (cp_provider_ms c), dc_attempts := cp_attempts c, dc_usage := Some (cp_usage c)\<rparr>)
     ''decision is no longer running''"

definition attempt_started :: "string \<Rightarrow> ('a bench_scheme, unit) oper" where
  "attempt_started i = update_decision i [''running''] (\<lambda>r. r\<lparr>dc_attempts := dc_attempts r + 1\<rparr>) ''decision is no longer running''"

text \<open>A flag as the rows of a query give it: an integer, which \<^verbatim>\<open>as_bool\<close> does not read.\<close>

definition flag_json :: "bool \<Rightarrow> json" where
  "flag_json b = JInt (if b then 1 else 0)"

definition complete_cached :: "env \<Rightarrow> string \<Rightarrow> decision_row \<Rightarrow> ('a bench_scheme, unit) oper" where
  "complete_cached env i source = update_decision i [''running'']
     (\<lambda>r. r\<lparr>dc_state := ''cached'', dc_cache_source := Some (dc_id source), dc_result := dc_result source,
        dc_proposed := dc_proposed source, dc_abstention := unwrap_or (as_bool (flag_json (dc_abstention source))) False, dc_artifact := dc_artifact source,
        dc_finished := Some (now env), dc_provider_ms := Some 0, dc_attempts := 0, dc_usage := Some (jobj [])\<rparr>)
     ''decision cache record changed concurrently''"

definition finish_decision :: "env \<Rightarrow> string \<Rightarrow> string \<Rightarrow> string \<Rightarrow> int \<Rightarrow> ('a bench_scheme, unit) oper" where
  "finish_decision env i st code n =
     thn (guard (st \<in> {''failed'', ''skipped'', ''cancelled'', ''interrupted''}) ''invalid terminal decision state'')
    (thn (guard (length code \<le> 128 \<and> \<not> has_control code) ''invalid decision error code'')
         (update_decision i [''queued'', ''running'']
            (\<lambda>r. r\<lparr>dc_state := st, dc_error := Some code, dc_finished := Some (now env), dc_attempts := max (dc_attempts r) n\<rparr>)
            ''decision is already terminal''))"

definition interrupt_decisions :: "env \<Rightarrow> 'a bench_scheme \<Rightarrow> 'a bench_scheme" where
  "interrupt_decisions env d = d\<lparr>bn_decisions := update_rows (\<lambda>r. dc_state r \<in> {''queued'', ''running''})
     (\<lambda>r. r\<lparr>dc_state := ''interrupted'', dc_error := Some ''daemon_restart'', dc_finished := Some (now env)\<rparr>) (bn_decisions d)\<rparr>"

definition resume_never_sent :: "'a bench_scheme \<Rightarrow> 'a bench_scheme" where
  "resume_never_sent d = d\<lparr>bn_decisions := update_rows (\<lambda>r. dc_state r = ''interrupted'' \<and> dc_started r = None \<and> dc_attempts r = 0 \<and>
       dc_id r \<in> rw_id ` set (bn_reviews d))
     (\<lambda>r. r\<lparr>dc_state := ''queued'', dc_error := None, dc_finished := None, dc_queue_ms := None\<rparr>) (bn_decisions d)\<rparr>"

definition cached_decision :: "string \<Rightarrow> string \<Rightarrow> 'a bench_scheme \<Rightarrow> decision_row option" where
  "cached_decision task h d =
     (case rev (filter (\<lambda>r. dc_task r = task \<and> dc_cache_hash r = h \<and> dc_state r = ''succeeded'') (bn_decisions d)) of
        [] \<Rightarrow> None | r # _ \<Rightarrow> Some r)"

section \<open>Copies of cached decisions\<close>

lemma update_decision_run:
  assumes "update_decision i states f msg d = (d', Ok u)"
  shows "\<exists>r \<in> set (bn_decisions d). dc_id r = i \<and> dc_state r \<in> set states"
    and "bn_decisions d' = map (\<lambda>r. if dc_id r = i \<and> dc_state r \<in> set states then f r else r) (bn_decisions d)"
proof -
  let ?p = "\<lambda>r. dc_id r = i \<and> dc_state r \<in> set states"
  from assms have "count_rows ?p (bn_decisions d) = 1" by (auto simp: update_decision_def Let_def require_def split: if_splits)
  then have "filter ?p (bn_decisions d) \<noteq> []" by (auto simp: count_rows_def)
  then show "\<exists>r \<in> set (bn_decisions d). dc_id r = i \<and> dc_state r \<in> set states" by (auto simp: filter_empty_conv)
  show "bn_decisions d' = map (\<lambda>r. if dc_id r = i \<and> dc_state r \<in> set states then f r else r) (bn_decisions d)"
    using assms by (auto simp: update_decision_def Let_def update_rows_def)
qed

text \<open>
  The abstention of a decision is lost when it answers another one from the cache: the copy
  says that the model did not abstain, whatever the source says.
\<close>

lemma cached_abstention_lost:
  assumes "complete_cached env i source d = (d', Ok u)" and "distinct (map dc_id (bn_decisions d))"
    and "r \<in> set (bn_decisions d')" and "dc_id r = i"
  shows "\<not> dc_abstention r"
proof -
  note run = update_decision_run [OF assms(1) [unfolded complete_cached_def]]
  from run(1) obtain r0 where r0: "r0 \<in> set (bn_decisions d)" "dc_id r0 = i" "dc_state r0 = ''running''" by auto
  from assms(3) [unfolded run(2)] obtain r1 where "r1 \<in> set (bn_decisions d)" "dc_id r1 = dc_id r"
    and r1: "dc_id r1 = i \<Longrightarrow> dc_state r1 = ''running'' \<Longrightarrow> \<not> dc_abstention r"
    by (fastforce simp: flag_json_def unwrap_or_def split: if_splits)
  with r0 assms(2,4) have "r1 = r0" by (auto simp: distinct_map dest: inj_onD)
  with r1 r0 show ?thesis by simp
qed

end
