(* ===== verification/Delivery_Checks.thy ===== *)
theory Delivery_Checks
  imports Decisions
begin

text \<open>
  The checks of automatic delivery on what GitHub, the repository and the reviews say
  (src/src/delivery_policy.rs, src/src/delivery_policy/evidence.rs). They only look at values.
\<close>

section \<open>GitHub\<close>

definition check_names :: "json list \<Rightarrow> string list \<Rightarrow> (string, json) btree result" where
  "check_names runs names =
     fold (\<lambda>run acc. and_then acc (\<lambda>m.
       and_then (context_of (as_str (jget run ''name'')) ''check run name'') (\<lambda>name.
       if name \<in> set names
       then and_then (require (\<not> bt_has m name) ''duplicate required check run'') (\<lambda>_. Ok (bt_insert name run m))
       else Ok m))) runs (Ok [])"

definition check_evidence :: "(string, json) btree \<Rightarrow> string \<Rightarrow> string \<Rightarrow> json result" where
  "check_evidence m head name =
     and_then (context_of (map_of m name) ''required check is missing'') (\<lambda>run.
     and_then (require (jget run ''head_sha'' = JStr head \<and> jget run ''status'' = JStr ''completed'' \<and>
         jget run ''conclusion'' = JStr ''success'') ''required check did not pass on exact head'') (\<lambda>_.
     Ok (jobj [(''id'', jget run ''id''), (''name'', JStr name), (''head_sha'', JStr head), (''status'', jget run ''status''),
       (''conclusion'', jget run ''conclusion''), (''completed_at'', jget run ''completed_at'')])))"

definition name_of :: "json \<Rightarrow> string" where
  "name_of v = unwrap_or (as_str (jget v ''name'')) []"

definition check_runs :: "json \<Rightarrow> string \<Rightarrow> string list \<Rightarrow> json result" where
  "check_runs v head names =
     and_then (context_of (as_u64 (jget v ''total_count'')) ''check run count'') (\<lambda>total.
     and_then (require (total \<le> 100) ''check run list exceeds one complete page'') (\<lambda>_.
     and_then (context_of (as_array (jget v ''check_runs'')) ''check runs'') (\<lambda>runs.
     and_then (require (int (length runs) = total) ''incomplete check run list'') (\<lambda>_.
     and_then (check_names runs names) (\<lambda>m.
     and_then (map_result (check_evidence m head) names) (\<lambda>evidence.
     and_then (require (list_all (\<lambda>e. as_u64 (jget e ''id'') \<noteq> None) evidence) ''required check run lacks identity'') (\<lambda>_.
     Ok (JArr (sort_key name_of evidence)))))))))"

text \<open>The last review of every reviewer counts, by the time it was submitted and its id.\<close>

type_synonym latest_reviews = "(string, (string \<times> int) \<times> json) btree"

definition add_review :: "json \<Rightarrow> latest_reviews \<Rightarrow> latest_reviews result" where
  "add_review row m =
     and_then (context_of (as_str (jget (jget row ''user'') ''login'')) ''reviewer login'') (\<lambda>login.
     let user = map ascii_lower login in
     case as_str (jget row ''submitted_at'') of
       None \<Rightarrow> Ok m
     | Some submitted \<Rightarrow>
         and_then (context_of (as_u64 (jget row ''id'')) ''review id'') (\<lambda>i.
         Ok (if (case map_of m user of None \<Rightarrow> True | Some (old, _) \<Rightarrow> fst old < submitted \<or> fst old = submitted \<and> snd old < i)
             then bt_insert user ((submitted, i), row) m else m)))"

definition approving :: "string \<Rightarrow> string \<Rightarrow> string \<times> (string \<times> int) \<times> json \<Rightarrow> bool" where
  "approving head author x =
     (\<not> same_ignoring_case (fst x) author \<and> jget (snd (snd x)) ''state'' = JStr ''APPROVED'' \<and>
      jget (snd (snd x)) ''commit_id'' = JStr head)"

definition approvals :: "json \<Rightarrow> string \<Rightarrow> string \<Rightarrow> nat \<Rightarrow> json result" where
  "approvals v head author least =
     and_then (context_of (as_array v) ''PR reviews'') (\<lambda>reviews.
     and_then (require (length reviews < 100) ''review list may be paginated'') (\<lambda>_.
     and_then (fold (\<lambda>row acc. and_then acc (add_review row)) reviews (Ok [])) (\<lambda>m.
     and_then (require (\<not> list_ex (\<lambda>x. jget (snd (snd x)) ''state'' = JStr ''CHANGES_REQUESTED'') m)
       ''an independent reviewer requested changes'') (\<lambda>_.
     let accepted = map (\<lambda>(user, (t, i), row). jobj [(''user'', JStr user), (''id'', JInt i), (''commit_id'', jget row ''commit_id''),
           (''state'', jget row ''state''), (''submitted_at'', JStr t)]) (filter (approving head author) m) in
     and_then (require (length accepted \<ge> least) ''missing exact-head independent PR approvals'') (\<lambda>_. Ok (JArr accepted))))))"

definition strings_in :: "json \<Rightarrow> string list" where
  "strings_in v = List.map_filter as_str (unwrap_or (as_array v) [])"

definition strict_protection :: "json \<Rightarrow> delivery_policy \<Rightarrow> bool" where
  "strict_protection v p =
     (let status = jget v ''required_status_checks''; reviews = jget v ''required_pull_request_reviews'';
          bypass = jget reviews ''bypass_pull_request_allowances'';
          names = strings_in (jget status ''contexts'') @
            List.map_filter (\<lambda>c. as_str (jget c ''context'')) (unwrap_or (as_array (jget status ''checks'')) []) in
      jget status ''strict'' = JBool True \<and> list_all (\<lambda>n. n \<in> set names) (ad_checks p) \<and>
      jget (jget v ''enforce_admins'') ''enabled'' = JBool True \<and>
      (case as_u64 (jget reviews ''required_approving_review_count'') of None \<Rightarrow> False | Some n \<Rightarrow> n \<ge> int (ad_approvals p)) \<and>
      list_all (\<lambda>k. jget bypass k = JArr []) [''users'', ''teams'', ''apps''])"

definition select_deployment_run :: "json \<Rightarrow> string \<Rightarrow> string \<Rightarrow> json result" where
  "select_deployment_run v sha base =
     and_then (context_of (as_array v) ''deployment runs'') (\<lambda>rows.
     and_then (require (length rows < 100) ''deployment run list may be paginated'') (\<lambda>_.
     let found = filter (\<lambda>r. jget r ''headSha'' = JStr sha \<and> jget r ''headBranch'' = JStr base \<and> jget r ''event'' = JStr ''push'' \<and>
           as_u64 (jget r ''databaseId'') \<noteq> None) rows in
     and_then (require (length found \<le> 1) ''multiple deployment runs match the merge identity'') (\<lambda>_.
     Ok (case found of [] \<Rightarrow> JNull | r # _ \<Rightarrow> r))))"

definition merge_parent_matches :: "json \<Rightarrow> string \<Rightarrow> bool" where
  "merge_parent_matches v base =
     (case as_array (jget v ''parents'') of Some [p] \<Rightarrow> jget p ''sha'' = JStr base | _ \<Rightarrow> False)"

section \<open>Reviews\<close>

definition confident :: "rat \<Rightarrow> json \<Rightarrow> bool" where
  "confident least a = (case as_f64 (jget a ''confidence'') of None \<Rightarrow> False | Some v \<Rightarrow> v \<ge> least)"

fun signals_clear :: "rat \<Rightarrow> json list \<Rightarrow> bool \<Rightarrow> nat \<Rightarrow> bool" where
  "signals_clear least [] specialist n = (specialist \<and> n = 6)"
| "signals_clear least (a # as') specialist n =
     (if jget a ''id'' = JStr ''specialist'' then signals_clear least as' (jget a ''answer'' = JStr ''none'' \<and> confident least a) n
      else if jget a ''type'' = JStr ''noul'' then
        (case as_f64 (jget a ''noul'') of
           None \<Rightarrow> False
         | Some x \<Rightarrow> if x > 1 / 2 \<or> \<not> confident least a then False else signals_clear least as' specialist (n + 1))
      else signals_clear least as' specialist n)"

definition review_signals_clear :: "json \<Rightarrow> rat \<Rightarrow> bool" where
  "review_signals_clear v least =
     (case as_array (jget v ''answers'') of None \<Rightarrow> False | Some as' \<Rightarrow> signals_clear least as' False 0)"

definition reviewer_result_passes :: "json \<Rightarrow> string \<Rightarrow> int \<Rightarrow> bool" where
  "reviewer_result_passes v head revision =
     (jget v ''accepted'' = JBool True \<and> jget v ''verdict'' = JStr ''pass'' \<and> jget v ''risk'' = JStr ''routine'' \<and>
      jget v ''coverage_complete'' = JBool True \<and> jget v ''findings'' = JArr [] \<and>
      jget v ''reviewed_head'' = JStr head \<and> jget v ''reviewed_revision'' = JInt revision)"

section \<open>The change\<close>

definition sensitive_parts :: "string list" where
  "sensitive_parts = [''security'', ''auth'', ''migrations'', ''migration'', ''schema'', ''secrets'', ''credentials'', ''api'', ''openapi'',
     ''.github'', ''.gitlab'', ''workflows'', ''ci'', ''deploy'', ''deployment'', ''config'', ''scripts'']"

definition sensitive_files :: "string list" where
  "sensitive_files = [''dockerfile'', ''makefile'', ''cargo.toml'', ''package.json'', ''build.rs'']"

definition path_is_sensitive :: "string \<Rightarrow> bool" where
  "path_is_sensitive path =
     (let lower = map ascii_lower path; parts = split_on (CHR ''/'') lower in
      list_ex (\<lambda>p. p \<in> set sensitive_parts) parts \<or> suffix ''.sql'' lower \<or> suffix ''.proto'' lower \<or>
      last parts \<in> set sensitive_files)"

definition path_allowed :: "string list \<Rightarrow> string \<Rightarrow> bool" where
  "path_allowed allowed path = list_ex (\<lambda>p. path = p \<or> prefix (p @ ''/'') path) allowed"

definition validate_paths :: "string list \<Rightarrow> string list \<Rightarrow> unit result" where
  "validate_paths paths allowed = each_result (\<lambda>path.
     and_then (require (\<not> path_is_sensitive path) ''sensitive change requires manual delivery'') (\<lambda>_.
     require (path_allowed allowed path) ''changed path is outside automatic-delivery scope'')) paths"

text \<open>\<^verbatim>\<open>str::lines\<close>: without the ends of the lines, and no empty line after the last end.\<close>

definition text_lines :: "string \<Rightarrow> string list" where
  "text_lines s =
     (let ls = split_on (CHR 0x0A) s in
      map (\<lambda>l. if l \<noteq> [] \<and> last l = CHR 0x0D then butlast l else l) (butlast ls) @ (if last ls = [] then [] else [last ls]))"

definition has_text :: "string \<Rightarrow> string \<Rightarrow> bool" where
  "has_text needle s = (find_split needle s \<noteq> None)"

definition sensitive_words :: "string list" where
  "sensitive_words = [''pub '', ''pub('', ''export '', ''.route('', ''router'', ''authorization'', ''authentication'', ''permission'', ''password'',
     ''secret'', ''token'', ''credential'', ''migration'', ''schema'', ''create table'', ''alter table'', ''drop table'', ''openapi'']"

definition changed_line :: "string \<Rightarrow> bool" where
  "changed_line l = (prefix ''+'' l \<and> \<not> prefix ''+++'' l \<or> prefix ''-'' l \<and> \<not> prefix ''---'' l)"

definition diff_has_sensitive_change :: "string \<Rightarrow> bool" where
  "diff_has_sensitive_change excerpt =
     list_ex (\<lambda>l. list_ex (\<lambda>w. has_text w (map ascii_lower (trim (tl l)))) sensitive_words)
       (filter changed_line (text_lines excerpt))"

definition routine_path :: "json \<Rightarrow> string result" where
  "routine_path row =
     and_then (context_of (as_str (jget row ''status'')) ''change status'') (\<lambda>st.
     and_then (require (st = ''A'' \<or> st = ''M'') ''rename, deletion, or type change requires manual delivery'') (\<lambda>_.
     context_of (as_str (jget row ''path'')) ''changed path''))"

definition routine_excerpt :: "json \<Rightarrow> unit result" where
  "routine_excerpt e =
     and_then (context_of (as_str (jget e ''excerpt'')) ''missing diff excerpt'') (\<lambda>c.
     require (\<not> diff_has_sensitive_change c) ''diff changes a potential public API or security boundary'')"

text \<open>The paths of a change that automatic delivery may look at, from the manifest of its diff.\<close>

definition routine_paths :: "json \<Rightarrow> string list result" where
  "routine_paths m =
     and_then (require (jget m ''complete'' = JBool True) ''automatic delivery needs complete diff coverage'') (\<lambda>_.
     and_then (context_of (as_array (jget m ''paths'')) ''manifest paths'') (\<lambda>rows.
     and_then (require (rows \<noteq> [] \<and> length rows \<le> 8) ''automatic delivery requires 1..=8 covered paths'') (\<lambda>_.
     and_then (map_result routine_path rows) (\<lambda>paths.
     and_then (context_of (as_array (jget m ''excerpts'')) ''diff excerpts'') (\<lambda>es.
     and_then (each_result routine_excerpt es) (\<lambda>_. Ok paths))))))"

section \<open>The question\<close>

definition delivery_veto_request :: "env \<Rightarrow> string \<Rightarrow> json \<Rightarrow> decision_request result" where
  "delivery_veto_request env model facts =
     (let r = \<lparr>dr_model = model, dr_state = facts, dr_questions = [ChoiceQ ''delivery''
        ''Should this already policy-eligible routine change be escalated for manual delivery? Escalate on uncertainty, consequential API or migration effects, or security concerns.''
        [''routine'', ''escalate'']]\<rparr> in
      and_then (validate_request env r) (\<lambda>_. Ok r))"

end
