(* ===== verification/Delivery.thy ===== *)
theory Delivery
  imports Delivery_Checks
begin

text \<open>
  Delivery of a finished task (src/src/delivery.rs) and the operator's policy of automatic delivery
  (src/src/delivery_policy.rs and its modules): the preflight, the authorization of a merge, the
  durable intent, the merge itself and what is watched after it. Everything outside the runtime (the
  commands of GitHub and git, addresses that are fetched, the decision service, the authority of
  maintenance) is a world that answers a call; which call was made at which state of the tables is
  recorded, and while a call runs other parts of the runtime may change the tables. The commands of a
  delivery go through the runner of src/src/executor.rs: the owner of the attempt, the authority of
  maintenance once or twice more, the pause of storage, and only then the process.
\<close>

section \<open>Tables and settings\<close>

record authorization_row =
  az_id :: string
  az_task :: string
  az_head :: string
  az_data :: json

record intent_row =
  mi_task :: string
  mi_authorization :: string
  mi_pr :: string
  mi_head :: string

record qualification_row =
  ql_id :: string
  ql_backend :: string
  ql_model :: string
  ql_policy :: string
  ql_purpose :: string
  ql_catalog :: string
  ql_policy_hash :: string
  ql_threshold :: rat
  ql_evidence :: string
  ql_passed :: bool

record integration_row =
  ig_task :: string
  ig_worker :: string
  ig_state :: string
  ig_created :: int

record depot = bench +
  dl_preflights :: "(string \<times> json) list"
  dl_authorizations :: "authorization_row list"
  dl_intents :: "intent_row list"
  dl_qualifications :: "qualification_row list"
  dl_integrations :: "integration_row list"
  dl_artifacts :: "string list"

record delivery_settings =
  de_program :: "string option"
  de_enabled :: bool
  de_repository :: string
  de_base :: string
  de_merge :: bool
  de_workflow :: "string option"
  de_health :: "string option"
  de_environment :: "string option"

text \<open>The attempt that delivers, with the parts of its task's settings that it reads.\<close>

record invocation =
  iv_task :: string
  iv_step :: string
  iv_attempt :: string
  iv_instructions :: string
  iv_delivery :: delivery_settings
  iv_policy :: delivery_policy
  iv_decision :: decision_settings

section \<open>The world outside\<close>

datatype outside_call =
    Gh string "string list"
  | Git_read "string list"
  | Workspace_exists
  | Diff_manifest string string
  | Push bool "string list"
  | Pause
  | Write_body string
  | Check_authority upkeep_binding
  | Consult json
  | Fetch string
  | Probe string
  | Release_package json

datatype provider_reply =
    Answered json
  | Refused int
  | Unreachable bool
  | Too_late

datatype outside_reply = Said "json result" | Provider provider_reply

record exchange =
  ex_depot :: depot
  ex_call :: outside_call
  ex_reply :: outside_reply

record site =
  st_depot :: depot
  st_trace :: "exchange list"

text \<open>
  \<open>wd_reply\<close> answers a call after all earlier ones, \<open>wd_meanwhile\<close> is what others do to the tables
  while it runs. The settings of the operator are read again at every check. \<open>wd_pid\<close> is the process
  that the next command starts, if it starts; \<open>wd_environments\<close> the tasks of the disposable environments
  of an attempt, \<open>wd_private\<close> whether the private directories of a project can be made.
\<close>

record world =
  wd_reply :: "exchange list \<Rightarrow> outside_call \<Rightarrow> outside_reply"
  wd_meanwhile :: "exchange list \<Rightarrow> depot \<Rightarrow> depot"
  wd_operator :: "exchange list \<Rightarrow> string \<Rightarrow> (delivery_policy \<times> decision_settings) result"
  wd_upkeep :: upkeep_deps
  wd_show_url :: "url_fields \<Rightarrow> string"
  wd_credential :: "string \<Rightarrow> string result"
  wd_artifact :: "exchange list \<Rightarrow> string \<Rightarrow> string result"
  wd_fresh :: "exchange list \<Rightarrow> string"
  wd_elapsed :: "exchange list \<Rightarrow> int"
  wd_patient :: "exchange list \<Rightarrow> bool"
  wd_pid :: "exchange list \<Rightarrow> int option"
  wd_environments :: "exchange list \<Rightarrow> string \<Rightarrow> string list"
  wd_private :: "exchange list \<Rightarrow> string \<Rightarrow> unit result"

definition on_depot :: "(depot, 'b) oper \<Rightarrow> (site, 'b) oper" where
  "on_depot m = (\<lambda>v. case m (st_depot v) of (d, r) \<Rightarrow> (v\<lparr>st_depot := d\<rparr>, r))"

definition on_rows :: "(store, 'b) oper \<Rightarrow> (site, 'b) oper" where
  "on_rows m = on_depot (on_bench m)"

definition ask_depot :: "(depot \<Rightarrow> 'b result) \<Rightarrow> (site, 'b) oper" where
  "ask_depot f = ask_state (\<lambda>v. f (st_depot v))"

definition ask_rows :: "(store \<Rightarrow> 'b result) \<Rightarrow> (site, 'b) oper" where
  "ask_rows f = ask_depot (\<lambda>d. f (bn_store d))"

definition pure :: "'b result \<Rightarrow> (site, 'b) oper" where
  "pure r = ask_state (\<lambda>_. r)"

definition call_outside :: "world \<Rightarrow> outside_call \<Rightarrow> (site, outside_reply) oper" where
  "call_outside W c = (\<lambda>v.
     let r = wd_reply W (st_trace v) c; tr = st_trace v @ [\<lparr>ex_depot = st_depot v, ex_call = c, ex_reply = r\<rparr>] in
     (\<lparr>st_depot = wd_meanwhile W tr (st_depot v), st_trace = tr\<rparr>, Ok r))"

definition outside :: "world \<Rightarrow> outside_call \<Rightarrow> (site, json) oper" where
  "outside W c = bnd (call_outside W c) (\<lambda>r. case r of Said x \<Rightarrow> pure x | Provider _ \<Rightarrow> throw ''no such reply'')"

definition git_read :: "world \<Rightarrow> string list \<Rightarrow> (site, string) oper" where
  "git_read W args = bnd (outside W (Git_read args)) (\<lambda>v. pure (context_of (as_str v) ''git output''))"

text \<open>\<^verbatim>\<open>.ok()\<close>: a failure is no value.\<close>

definition ok_of :: "(site, 'b) oper \<Rightarrow> (site, 'b option) oper" where
  "ok_of m = (\<lambda>v. case m v of (v', Inl _) \<Rightarrow> (v', Ok None) | (v', Inr x) \<Rightarrow> (v', Ok (Some x)))"

definition json_hash :: "env \<Rightarrow> json \<Rightarrow> string" where
  "json_hash env v = sha256 env (json_text env v)"

text \<open>\<^verbatim>\<open>check_online\<close>: only a task that is bound to maintenance asks the authority.\<close>

definition check_online :: "env \<Rightarrow> world \<Rightarrow> string \<Rightarrow> (site, unit) oper" where
  "check_online env W task =
     bnd (ask_rows (upkeep_binding_of task)) (\<lambda>x.
     case x of
       None \<Rightarrow> ret ()
     | Some (_, b) \<Rightarrow>
         bnd (ask_rows (\<lambda>s. and_then (check_upkeep env task s) (\<lambda>p. context_of p ''maintenance binding''))) (\<lambda>p.
         thn (guard (ub_expires b > now env) ''maintenance invocation expired'')
        (thn (pure (authority_request (wd_upkeep W) p))
        (bnd (call_outside W (Check_authority b)) (\<lambda>r.
         thn (pure (case r of Said (Inr v) \<Rightarrow> authority_confirms env p b v | _ \<Rightarrow> bail ''owning maintenance authority is unavailable''))
        (thn (ask_rows (check_upkeep env task)) (ret ())))))))"

section \<open>Running a command\<close>

text \<open>The task a recorded command belongs to: exactly one must own the attempt, by its step or an environment.\<close>

definition command_owner :: "world \<Rightarrow> string \<Rightarrow> site \<Rightarrow> string result" where
  "command_owner W attempt v =
     (let s = bn_store (st_depot v);
          steps_of = filter (\<lambda>t. \<exists>a \<in> set (attempts s). at_id a = attempt \<and> at_step a = st_id t) (steps s) in
      case remdups (map st_task steps_of @ wd_environments W (st_trace v) attempt) of
        [task] \<Rightarrow> Ok task
      | _ \<Rightarrow> bail ''command record has no unambiguous task owner'')"

definition record_pid :: "string \<Rightarrow> int \<Rightarrow> depot \<Rightarrow> depot" where
  "record_pid attempt p t = t\<lparr>bn_store := (bn_store t)\<lparr>attempts :=
     map (\<lambda>a. if at_id a = attempt then a\<lparr>at_pid := Some p\<rparr> else a) (attempts (bn_store t))\<rparr>\<rparr>"

text \<open>
  The process: started or not, its number recorded for the attempt, then its output. The pause before
  it covers the wait for storage and for a thread that starts it.
\<close>

definition run_child :: "world \<Rightarrow> outside_call \<Rightarrow> string \<Rightarrow> (site, json) oper" where
  "run_child W c attempt = (\<lambda>v.
     let pid = wd_pid W (st_trace v);
         r = (case pid of None \<Rightarrow> Said (bail ''launch executor'') | Some _ \<Rightarrow> wd_reply W (st_trace v) c);
         tr = st_trace v @ [\<lparr>ex_depot = st_depot v, ex_call = c, ex_reply = r\<rparr>];
         t = (case pid of None \<Rightarrow> st_depot v | Some p \<Rightarrow> record_pid attempt p (st_depot v)) in
     (\<lparr>st_depot = wd_meanwhile W tr t, st_trace = tr\<rparr>,
      case r of Said x \<Rightarrow> x | Provider _ \<Rightarrow> bail ''no such reply''))"

definition run_process :: "env \<Rightarrow> world \<Rightarrow> outside_call \<Rightarrow> string \<Rightarrow> (site, json) oper" where
  "run_process env W c attempt =
     bnd (ask_state (command_owner W attempt)) (\<lambda>task.
     thn (check_online env W task)
    (thn (call_outside W Pause)
         (run_child W c attempt)))"

definition run_command_env :: "env \<Rightarrow> world \<Rightarrow> outside_call \<Rightarrow> string \<Rightarrow> (string \<times> string) list \<Rightarrow> (site, json) oper" where
  "run_command_env env W c attempt values = bnd (run_process env W c attempt) (\<lambda>out. ret (redact_walk values out))"

text \<open>A command of another project than the default one runs in private directories of that project.\<close>

definition scope_command :: "world \<Rightarrow> string \<Rightarrow> site \<Rightarrow> unit result" where
  "scope_command W task v =
     and_then (task_project task (bn_store (st_depot v))) (\<lambda>project.
     if project = default_project then Ok () else wd_private W (st_trace v) project)"

definition run_task_command_env :: "env \<Rightarrow> world \<Rightarrow> string \<Rightarrow> outside_call \<Rightarrow> string \<Rightarrow> (string \<times> string) list \<Rightarrow> (site, json) oper" where
  "run_task_command_env env W task c attempt values =
     thn (check_online env W task)
    (thn (ask_state (scope_command W task))
    (bnd (run_process env W c attempt) (\<lambda>out. ret (redact_walk values out))))"

definition attempt_task :: "string \<Rightarrow> store \<Rightarrow> string result" where
  "attempt_task attempt s =
     context_of (map_option st_task (find (\<lambda>t. \<exists>a \<in> set (attempts s). at_id a = attempt \<and> at_step a = st_id t) (steps s)))
       ''Query returned no rows''"

definition run_command :: "env \<Rightarrow> world \<Rightarrow> outside_call \<Rightarrow> string \<Rightarrow> (site, json) oper" where
  "run_command env W c attempt =
     bnd (ask_rows (attempt_task attempt)) (\<lambda>task.
     bnd (pure (secret_values env task)) (\<lambda>values.
     run_task_command_env env W task c attempt values))"

definition automatic :: "invocation \<Rightarrow> bool" where
  "automatic i = (ad_enabled (iv_policy i) \<and> de_merge (iv_delivery i))"

text \<open>Automatic delivery hands its commands no secret; the other deliveries hand them those of the task.\<close>

definition delivery_command :: "env \<Rightarrow> world \<Rightarrow> invocation \<Rightarrow> outside_call \<Rightarrow> (site, json) oper" where
  "delivery_command env W i c =
     (if automatic i then run_command_env env W c (iv_attempt i) [] else run_command env W c (iv_attempt i))"

text \<open>Automatic delivery runs the operator's program, never the one of the project.\<close>

definition gh_program :: "invocation \<Rightarrow> string" where
  "gh_program i =
     (if automatic i then ad_program (iv_policy i)
      else unwrap_or (de_program (iv_delivery i)) ''gh'')"

definition gh_payload :: "env \<Rightarrow> json \<Rightarrow> json result" where
  "gh_payload env out =
     and_then (require (jget out ''success'' = JBool True) ''GitHub command failed'') (\<lambda>_.
     let t = unwrap_or (as_str (jget out ''stdout'')) [] in
     Ok (case parse_json env t of None \<Rightarrow> JStr (trim t) | Some v \<Rightarrow> v))"

definition gh :: "env \<Rightarrow> world \<Rightarrow> invocation \<Rightarrow> string list \<Rightarrow> (site, json) oper" where
  "gh env W i args =
     thn (check_online env W (iv_task i))
    (bnd (delivery_command env W i (Gh (gh_program i) args)) (\<lambda>out. pure (gh_payload env out)))"

definition save :: "env \<Rightarrow> invocation \<Rightarrow> string \<Rightarrow> string \<Rightarrow> json \<Rightarrow> (site, unit) oper" where
  "save env i name st data =
     on_rows (thn (modify (\<lambda>s. s\<lparr>external_ops := upsert (\<lambda>o'. (eo_task o', eo_name o')) (\<lambda>o'. o'\<lparr>eo_state := st, eo_data := data\<rparr>)
                \<lparr>eo_task = iv_task i, eo_name = name, eo_state = st, eo_data = data\<rparr> (external_ops s)\<rparr>))
              (event env (iv_task i) (''delivery.'' @ name @ ''.'' @ st) data))"

section \<open>The policy in force\<close>

definition strings_json :: "string list \<Rightarrow> json" where
  "strings_json xs = JArr (map JStr xs)"

definition delivery_policy_json :: "delivery_policy \<Rightarrow> json" where
  "delivery_policy_json p = jobj ([(''enabled'', JBool (ad_enabled p)), (''gh_program'', JStr (ad_program p)),
     (''repositories'', strings_json (ad_repositories p)), (''bases'', strings_json (ad_bases p)),
     (''environments'', strings_json (ad_environments p)), (''deploy_workflows'', strings_json (ad_workflows p)),
     (''allowed_paths'', strings_json (ad_paths p)), (''required_checks'', strings_json (ad_checks p)),
     (''minimum_approvals'', JInt (int (ad_approvals p))), (''require_independent_review'', JBool (ad_independent p)),
     (''version_url'', jstr_opt (ad_version_url p)), (''smoke_url'', jstr_opt (ad_smoke_url p)),
     (''qualification_id'', JStr (ad_qualification p)), (''minimum_routine_probability'', JFloat (ad_routine p)),
     (''minimum_review_confidence'', JFloat (ad_confidence p))] @
     (case ad_package p of None \<Rightarrow> []
      | Some k \<Rightarrow> [(''package_release'', jobj [(''repository'', JStr (pk_repository k)), (''workflow'', JStr (pk_workflow k))])]))"

definition policy_hash :: "env \<Rightarrow> delivery_policy \<Rightarrow> string" where
  "policy_hash env p = json_hash env (delivery_policy_json p)"

definition held_metric :: "json \<Rightarrow> string \<Rightarrow> rat result" where
  "held_metric held name =
     and_then (context_of (as_f64 (jget held name)) ''missing held-out metric'') (\<lambda>x.
     and_then (require (0 \<le> x \<and> x \<le> 1) ''invalid held-out metric'') (\<lambda>_. Ok x))"

text \<open>The report of the held-out evaluation: it is about this service and policy, and it is better.\<close>

definition check_report :: "env \<Rightarrow> delivery_policy \<Rightarrow> decision_settings \<Rightarrow> string \<Rightarrow> json \<Rightarrow> unit result" where
  "check_report env p d print_hash report =
     (let held = jget report ''held_out'' in
      and_then (require (jget report ''backend'' = JStr (ds_backend d) \<and> jget report ''model'' = JStr (ds_model d) \<and>
          jget report ''backend_fingerprint'' = JStr print_hash \<and> jget report ''policy'' = JStr (ds_policy d) \<and>
          jget report ''purpose'' = JStr ''delivery:veto'' \<and> jget report ''catalog'' = JStr ''delivery-v1'' \<and>
          jget report ''delivery_policy_hash'' = JStr (policy_hash env p) \<and>
          as_f64 (jget report ''minimum_routine_probability'') = Some (ad_routine p) \<and>
          (case as_u64 (jget held ''cases'') of None \<Rightarrow> False | Some n \<Rightarrow> n \<ge> 50)) ''qualification report identity or sample size is invalid'') (\<lambda>_.
      and_then (held_metric held ''candidate_quality'') (\<lambda>cq. and_then (held_metric held ''baseline_quality'') (\<lambda>bq.
      and_then (if cq \<ge> bq then held_metric held ''candidate_critical_defect_recall'' else Ok 0) (\<lambda>cr.
      and_then (if cq \<ge> bq then held_metric held ''baseline_critical_defect_recall'' else Ok 0) (\<lambda>br.
      and_then (require (cq \<ge> bq \<and> cr \<ge> br) ''held-out delivery quality regressed'') (\<lambda>_.
      and_then (context_of (as_u64 (jget held ''baseline_verified_completion_ms'')) ''baseline latency'') (\<lambda>b.
      and_then (context_of (as_u64 (jget held ''candidate_verified_completion_ms'')) ''candidate latency'') (\<lambda>c.
      require (c > 0 \<and> c < b) ''held-out verified completion did not improve'')))))))))"

definition verify_qualification :: "env \<Rightarrow> world \<Rightarrow> delivery_policy \<Rightarrow> decision_settings \<Rightarrow> site \<Rightarrow> unit result" where
  "verify_qualification env W p d v =
     and_then (context_of (find (\<lambda>q. ql_id q = ad_qualification p) (dl_qualifications (st_depot v))) ''delivery has no held-out qualification record'') (\<lambda>q.
     and_then (require (ql_passed q \<and> ql_backend q = ds_backend d \<and> ql_model q = ds_model d \<and> ql_policy q = ds_policy d \<and>
         ql_purpose q = ''delivery:veto'' \<and> ql_catalog q = ''delivery-v1'' \<and> ql_policy_hash q = policy_hash env p \<and>
         ql_threshold q = ad_routine p \<and> length (ql_evidence q) = 64) ''delivery qualification does not match the pinned decision service'') (\<lambda>_.
     and_then (wd_artifact W (st_trace v) (ql_evidence q)) (\<lambda>bytes.
     and_then (require (int (length bytes) \<le> 64 * 1024 \<and> sha256 env bytes = ql_evidence q) ''delivery qualification artifact failed integrity check'') (\<lambda>_.
     and_then (context_of (parse_json env bytes) ''invalid JSON'') (\<lambda>report.
     and_then (if jget report ''backend'' = JStr (ds_backend d) \<and> jget report ''model'' = JStr (ds_model d)
         then fingerprint env (ud_url (wd_upkeep W)) (wd_show_url W) d else Ok []) (\<lambda>f.
     check_report env p d f report))))))"

text \<open>Other projects than the default one deliver only under a maintenance binding.\<close>

definition may_deliver :: "env \<Rightarrow> string \<Rightarrow> string \<Rightarrow> store \<Rightarrow> unit result" where
  "may_deliver env task project s =
     and_then (if project = default_project then Ok True else and_then (check_upkeep env task s) (\<lambda>p. Ok (p \<noteq> None))) (\<lambda>b.
     require b ''automatic delivery is limited to the default project unless bound maintenance authority authorizes this project'')"

definition current_policy :: "env \<Rightarrow> world \<Rightarrow> invocation \<Rightarrow> site \<Rightarrow> delivery_policy option result" where
  "current_policy env W i v =
     (if \<not> ad_enabled (iv_policy i) then Ok None
      else
        and_then (task_project (iv_task i) (bn_store (st_depot v))) (\<lambda>project.
        and_then (may_deliver env (iv_task i) project (bn_store (st_depot v))) (\<lambda>_.
        and_then (wd_operator W (st_trace v) project) (\<lambda>(p, d).
        and_then (require (p = iv_policy i \<and> ad_enabled p) ''operator automatic-delivery policy changed'') (\<lambda>_.
        and_then (require (ds_mode (iv_decision i) = DecisionShadow \<and> d = iv_decision i)
          ''decision service is not currently authorized for automatic delivery'') (\<lambda>_.
        and_then (validate_decision (ud_url (wd_upkeep W)) (iv_decision i)) (\<lambda>_.
        and_then (verify_qualification env W (iv_policy i) (iv_decision i) v) (\<lambda>_.
        Ok (Some (iv_policy i))))))))))"

definition policy_now :: "env \<Rightarrow> world \<Rightarrow> invocation \<Rightarrow> (site, delivery_policy) oper" where
  "policy_now env W i = ask_state (\<lambda>v. and_then (current_policy env W i v) (\<lambda>p. context_of p ''automatic delivery disabled''))"

definition scoped :: "env \<Rightarrow> invocation \<Rightarrow> delivery_policy \<Rightarrow> store \<Rightarrow> string result" where
  "scoped env i p s =
     (let d = iv_delivery i; task = iv_task i in
      and_then (task_project task s) (\<lambda>project.
      and_then (may_deliver env task project s) (\<lambda>_.
      and_then (context_of (find (\<lambda>t. tt_task t = task) (task_tree s)) ''missing task tree'') (\<lambda>t.
      and_then (require (tt_root t = task \<and> tt_parent t = None \<and> tt_depth t = 0) ''automatic delivery is root-only'') (\<lambda>_.
      and_then (require (\<not> exists_row (\<lambda>l. rl_task l = task) (remote_links s) \<and> \<not> exists_row (\<lambda>l. ro_task l = task) (remote_origins s))
        ''remote tasks cannot deliver automatically'') (\<lambda>_.
      and_then (require (list_ex (\<lambda>r. same_ignoring_case r (de_repository d)) (ad_repositories p) \<and> de_base d \<in> set (ad_bases p))
        ''repository or base is outside automatic-delivery scope'') (\<lambda>_.
      case ad_package p of
        Some k \<Rightarrow>
          and_then (check_upkeep env task s) (\<lambda>m.
          and_then (context_of m ''package release requires explicit maintenance authority'') (\<lambda>m.
          and_then (require (pk_repository k = up_repository m \<and> pk_repository k = de_repository d \<and> up_base m = de_base d \<and>
              de_workflow d = None \<and> de_environment d = None \<and> de_health d = None)
            ''package release must not inherit application deployment authority'') (\<lambda>_.
          Ok (''package:'' @ pk_repository k))))
      | None \<Rightarrow>
          and_then (context_of (de_environment d) ''automatic delivery needs an environment'') (\<lambda>e.
          and_then (require (e \<in> set (ad_environments p)) ''environment is outside automatic-delivery scope'') (\<lambda>_.
          and_then (require ((case de_workflow d of None \<Rightarrow> False | Some w \<Rightarrow> w \<in> set (ad_workflows p)) \<and> ad_version_url p \<noteq> None \<and>
              ad_smoke_url p \<noteq> None)
            ''automatic delivery needs a push deployment workflow, version endpoint, and smoke endpoint'') (\<lambda>_.
          Ok e))))))))))"

section \<open>Enrollment of a qualification\<close>

definition qualification_of :: "env \<Rightarrow> string \<Rightarrow> string \<Rightarrow> delivery_policy \<Rightarrow> decision_settings \<Rightarrow> qualification_row" where
  "qualification_of env i evidence p d = \<lparr>ql_id = i, ql_backend = ds_backend d, ql_model = ds_model d, ql_policy = ds_policy d,
     ql_purpose = ''delivery:veto'', ql_catalog = ''delivery-v1'', ql_policy_hash = policy_hash env p, ql_threshold = ad_routine p,
     ql_evidence = evidence, ql_passed = True\<rparr>"

definition enroll_qualification :: "env \<Rightarrow> world \<Rightarrow> json \<Rightarrow> (site, json) oper" where
  "enroll_qualification env W args =
     (let project = unwrap_or (as_str (jget args ''project'')) default_project in
      bnd (ask_state (\<lambda>v. wd_operator W (st_trace v) project)) (\<lambda>(p, d).
      thn (guard (ad_enabled p \<and> ds_mode d = DecisionShadow) ''operator delivery and decision policies must be enabled before enrollment'')
     (bnd (pure (context_of (as_str (jget args ''qualification_id'')) ''qualification_id required'')) (\<lambda>i.
      bnd (pure (context_of (as_str (jget args ''evidence_hash'')) ''evidence_hash required'')) (\<lambda>evidence.
      thn (guard (i = ad_qualification p \<and> jget args ''approved'' = JBool True \<and> jget args ''reviewed_evidence_hash'' = JStr evidence)
             ''operator must approve the exact reviewed qualification artifact'')
     (thn (guard (length evidence = 64 \<and> list_all (\<lambda>c. hex_value c \<noteq> None) evidence) ''invalid qualification evidence hash'')
     (thn (ask_depot (\<lambda>t. require (count_rows (\<lambda>a. a = evidence) (dl_artifacts t) = 1)
             ''qualification artifact must already be retained in the content-addressed store''))
     (atomic (
       bnd (ask_depot (\<lambda>t. Ok (find (\<lambda>q. ql_id q = i) (dl_qualifications t)))) (\<lambda>existing.
       thn (case existing of
              Some q \<Rightarrow> guard (ql_evidence q = evidence) ''qualification identity is immutable; choose a new identity for changed evidence''
            | None \<Rightarrow> on_depot (modify (\<lambda>t. t\<lparr>dl_qualifications := dl_qualifications t @ [qualification_of env i evidence p d]\<rparr>)))
      (thn (ask_state (verify_qualification env W p d))
      (thn (when_op (existing = None) (on_rows (management_event ''delivery.qualification_enrolled'' (jobj [(''project'', JStr project),
              (''qualification_id'', JStr i), (''evidence_hash'', JStr evidence), (''reviewed_evidence_hash'', JStr evidence),
              (''delivery_policy_hash'', JStr (policy_hash env p))]))))
           (ret (jobj [(''qualification_id'', JStr i), (''evidence_hash'', JStr evidence), (''delivery_policy_hash'', JStr (policy_hash env p)),
              (''enrolled'', JBool True), (''project'', JStr project)]))))))))))))))"

section \<open>The review before a delivery\<close>

definition delivery_names :: "string list" where
  "delivery_names = [''pr'', ''checks'', ''merge'', ''deployment'', ''health'', ''version'', ''smoke'', ''package-release.intent'',
     ''package-release.tag'', ''package-release.workflow'', ''package-release.publication'', ''package-release.verified'']"

definition external_json :: "env \<Rightarrow> external_op_row \<Rightarrow> json" where
  "external_json env o' = jobj [(''name'', JStr (eo_name o')), (''state'', JStr (eo_state o')), (''data'', JStr (json_text env (eo_data o')))]"

definition external_rows :: "string \<Rightarrow> store \<Rightarrow> external_op_row list" where
  "external_rows task s = sort_key eo_name (filter (\<lambda>o'. eo_task o' = task) (external_ops s))"

definition non_delivery_ops :: "env \<Rightarrow> string \<Rightarrow> store \<Rightarrow> string" where
  "non_delivery_ops env task s =
     json_hash env (JArr (map (external_json env) (filter (\<lambda>o'. eo_name o' \<notin> set delivery_names) (external_rows task s))))"

definition context_version_of :: "env \<Rightarrow> string \<Rightarrow> store \<Rightarrow> int result" where
  "context_version_of env task s =
     and_then (mandatory env task s) (\<lambda>c. context_of (as_i64 (jget c ''version'')) ''context version'')"

definition revision_and_context :: "env \<Rightarrow> string \<Rightarrow> store \<Rightarrow> (int \<times> int) result" where
  "revision_and_context env task s =
     and_then (current_revision task s) (\<lambda>r. and_then (context_version_of env task s) (\<lambda>c. Ok (r, c)))"

text \<open>A checkpoint with the state and result of its decision, and whether it is about the tree as it is now.\<close>

record listed_review =
  lr_row :: review_row
  lr_state :: string
  lr_result :: "json option"
  lr_fresh :: bool

definition coverage_complete :: "review_row \<Rightarrow> bool" where
  "coverage_complete r = (jget (unwrap_or (rw_coverage r) JNull) ''complete'' = JBool True)"

definition joined_reviews :: "string \<Rightarrow> depot \<Rightarrow> (review_row \<times> decision_row) list" where
  "joined_reviews task t = [(r, c). r \<leftarrow> sort_key rw_event (filter (\<lambda>r. rw_task r = task) (bn_reviews t)),
     c \<leftarrow> filter (\<lambda>c. dc_id c = rw_id r) (bn_decisions t)]"

definition list_reviews :: "env \<Rightarrow> world \<Rightarrow> string \<Rightarrow> int \<Rightarrow> nat \<Rightarrow> (site, listed_review list) oper" where
  "list_reviews env W task after' most =
     thn (ask_rows (get_task task))
    (thn (guard (after' \<ge> 0 \<and> 1 \<le> most \<and> most \<le> 200) ''invalid review pagination'')
    (bnd (ask_depot (\<lambda>t. Ok (take most (filter (\<lambda>(r, _). rw_event r > after') (joined_reviews task t))))) (\<lambda>rows.
     bnd (ask_rows (revision_and_context env task)) (\<lambda>(revision, context).
     bnd (outside W Workspace_exists) (\<lambda>there.
     bnd (if there = JBool True then ok_of (git_read W [''rev-parse'', ''HEAD'']) else ret None) (\<lambda>head.
     bnd (if there = JBool True
          then bnd (ok_of (git_read W [''status'', ''--porcelain'', ''--untracked-files=all''])) (\<lambda>out. ret (out = Some []))
          else ret True) (\<lambda>clean.
     ask_rows (\<lambda>s.
       let external = json_hash env (JArr (map (external_json env) (external_rows task s))) in
       Ok (map (\<lambda>(r, c). \<lparr>lr_row = r, lr_state = dc_state c, lr_result = dc_result c,
         lr_fresh = (coverage_complete r \<and> clean \<and> rw_revision r = Some revision \<and> rw_context r = Some context \<and>
           rw_head r = head \<and> rw_external_hash r = Some external)\<rparr>) rows)))))))))"

definition review_eligible :: "listed_review \<Rightarrow> string \<Rightarrow> int \<Rightarrow> int \<Rightarrow> bool" where
  "review_eligible x head revision context =
     (lr_state x = ''succeeded'' \<and> lr_fresh x \<and> rw_head (lr_row x) = Some head \<and> rw_revision (lr_row x) = Some revision \<and>
      rw_context (lr_row x) = Some context \<and> coverage_complete (lr_row x))"

definition review_summary :: "env \<Rightarrow> listed_review \<Rightarrow> string \<Rightarrow> int \<Rightarrow> int \<Rightarrow> json" where
  "review_summary env x head revision context = jobj [(''id'', JStr (rw_id (lr_row x))), (''head'', JStr head), (''revision'', JInt revision),
     (''context_version'', JInt context), (''evidence_hash'', jstr_opt (rw_evidence_hash (lr_row x))),
     (''manifest_hash'', jstr_opt (rw_manifest_hash (lr_row x))), (''external_hash'', jstr_opt (rw_external_hash (lr_row x))),
     (''signals_hash'', JStr (json_hash env (unwrap_or (lr_result x) JNull)))]"

text \<open>The last eligible review wins, and every eligible review must be clear.\<close>

fun select_review :: "env \<Rightarrow> string \<Rightarrow> int \<Rightarrow> int \<Rightarrow> rat \<Rightarrow> json option \<Rightarrow> listed_review list \<Rightarrow> json option result" where
  "select_review env head revision context least sel [] = Ok sel"
| "select_review env head revision context least sel (x # xs) =
     (if review_eligible x head revision context then
        and_then (require (review_signals_clear (unwrap_or (lr_result x) JNull) least)
          ''review checkpoint flagged an unresolved concern or uncertainty'') (\<lambda>_.
        select_review env head revision context least (Some (review_summary env x head revision context)) xs)
      else select_review env head revision context least sel xs)"

text \<open>The pages of the reviews; each page but the last one is full, so one page for each review and one more suffice.\<close>

fun review_pages :: "env \<Rightarrow> world \<Rightarrow> string \<Rightarrow> string \<Rightarrow> int \<Rightarrow> int \<Rightarrow> rat \<Rightarrow> nat \<Rightarrow> int \<Rightarrow> json option \<Rightarrow> (site, json option) oper" where
  "review_pages env W task head revision context least 0 c sel = throw ''out of fuel''"
| "review_pages env W task head revision context least (Suc n) c sel =
     bnd (list_reviews env W task c 200) (\<lambda>rows.
     if rows = [] then ret sel
     else
       bnd (pure (select_review env head revision context least sel rows)) (\<lambda>sel'.
       if length rows < 200 then ret sel'
       else review_pages env W task head revision context least n (rw_event (lr_row (last rows))) sel'))"

definition review_snapshot :: "env \<Rightarrow> world \<Rightarrow> string \<Rightarrow> string \<Rightarrow> int \<Rightarrow> int \<Rightarrow> rat \<Rightarrow> (site, json) oper" where
  "review_snapshot env W task head revision context least =
     bnd (ask_depot (\<lambda>t. Ok (Suc (length (joined_reviews task t))))) (\<lambda>n.
     bnd (review_pages env W task head revision context least n 0 None) (\<lambda>sel.
     pure (context_of sel ''automatic delivery needs a fresh, complete checkpoint with independent generative review'')))"

definition reviewer_outputs :: "(string \<times> string) list" where
  "reviewer_outputs = [(''reviewed_head'', ''string''), (''reviewed_revision'', ''integer''), (''verdict'', ''string''), (''risk'', ''string''),
     (''coverage_complete'', ''boolean''), (''findings'', ''array'')]"

text \<open>\<^verbatim>\<open>ORDER BY a.finished DESC, a.started DESC\<close>; an attempt that has not finished comes last.\<close>

definition latest_attempts :: "string \<Rightarrow> store \<Rightarrow> (attempt_row \<times> step) list" where
  "latest_attempts task s = sort_key (\<lambda>(a, _). (case at_finished a of None \<Rightarrow> (1::int, 0) | Some f \<Rightarrow> (0, - f), - at_started a))
     [(a, st_spec r). a \<leftarrow> attempts s, r \<leftarrow> filter (\<lambda>r. st_id r = at_step a \<and> st_task r = task) (steps s)]"

fun review_by :: "env \<Rightarrow> string \<Rightarrow> int \<Rightarrow> string list \<Rightarrow> int \<Rightarrow> (attempt_row \<times> step) list \<Rightarrow> json result" where
  "review_by env head revision integrators since [] =
     bail ''automatic delivery needs an independent passing reviewer result bound to the exact head and revision''"
| "review_by env head revision integrators since ((a, spec) # rows) =
     (case at_worker a of
        None \<Rightarrow> review_by env head revision integrators since rows
      | Some w \<Rightarrow>
          if w \<in> set integrators \<or> at_started a < since \<or> s_kind spec \<noteq> ''agent'' \<or> s_role spec \<noteq> ''reviewer''
          then review_by env head revision integrators since rows
          else
            and_then (each_result (\<lambda>(name, kind). require (map_of (s_output_types spec) name = Some kind)
              ''reviewer step must declare structured delivery evidence'') reviewer_outputs) (\<lambda>_.
            and_then (context_of (at_result a) ''latest reviewer result is unavailable'') (\<lambda>result.
            and_then (require (at_state a = ''succeeded'' \<and> reviewer_result_passes result head revision)
              ''latest independent reviewer did not pass the exact head and revision'') (\<lambda>_.
            Ok (jobj [(''attempt'', JStr (at_id a)), (''worker'', JStr w), (''result_hash'', JStr (json_hash env result)),
              (''reviewed_head'', JStr head), (''reviewed_revision'', JInt revision)])))))"

definition independent_review :: "env \<Rightarrow> string \<Rightarrow> string \<Rightarrow> int \<Rightarrow> depot \<Rightarrow> json result" where
  "independent_review env task head revision t =
     (let done' = filter (\<lambda>g. ig_task g = task \<and> ig_state g = ''succeeded'') (dl_integrations t) in
      review_by env head revision (map ig_worker done') (case map ig_created done' of [] \<Rightarrow> 0 | n # ns \<Rightarrow> fold max ns n) (latest_attempts task (bn_store t)))"

text \<open>The evidence is taken before the delivery itself writes, once for the task.\<close>

definition preflight_data :: "string \<Rightarrow> string \<Rightarrow> int \<Rightarrow> int \<Rightarrow> string \<Rightarrow> json \<Rightarrow> json \<Rightarrow> json" where
  "preflight_data head external revision context policy review peer = jobj [(''head'', JStr head), (''revision'', JInt revision),
     (''context_version'', JInt context), (''policy_hash'', JStr policy), (''non_delivery_ops_hash'', JStr external), (''review'', review),
     (''independent_review'', peer)]"

definition insert_preflight :: "string \<Rightarrow> json \<Rightarrow> (depot, unit) oper" where
  "insert_preflight task data = (\<lambda>t. if task \<in> fst ` set (dl_preflights t) then (t, bail ''UNIQUE constraint failed'')
     else (t\<lparr>dl_preflights := dl_preflights t @ [(task, data)]\<rparr>, Ok ()))"

definition preflight :: "env \<Rightarrow> world \<Rightarrow> invocation \<Rightarrow> string \<Rightarrow> (site, unit) oper" where
  "preflight env W i head =
     (if \<not> de_merge (iv_delivery i) then ret ()
      else
        bnd (ask_state (current_policy env W i)) (\<lambda>policy.
        case policy of
          None \<Rightarrow> ret ()
        | Some p \<Rightarrow>
            let task = iv_task i in
            thn (ask_rows (scoped env i p))
           (bnd (ask_rows (revision_and_context env task)) (\<lambda>(revision, context).
            bnd (ask_rows (\<lambda>s. Ok (non_delivery_ops env task s))) (\<lambda>external.
            bnd (ask_depot (\<lambda>t. Ok (map_of (dl_preflights t) task))) (\<lambda>existing.
            case existing of
              Some snap \<Rightarrow>
                guard (jget snap ''head'' = JStr head \<and> jget snap ''revision'' = JInt revision \<and> jget snap ''context_version'' = JInt context \<and>
                  jget snap ''policy_hash'' = JStr (policy_hash env p) \<and> jget snap ''non_delivery_ops_hash'' = JStr external)
                  ''automatic-delivery preflight is stale; reconcile before retry''
            | None \<Rightarrow>
                bnd (review_snapshot env W task head revision context (ad_confidence p)) (\<lambda>review.
                bnd (ask_depot (independent_review env task head revision)) (\<lambda>peer.
                on_depot (insert_preflight task (preflight_data head external revision context (policy_hash env p) review peer))))))))))"

section \<open>The veto of the decision service\<close>

text \<open>Every request is authorized again: the task runs and the operator has the same settings.\<close>

definition authorize_request :: "world \<Rightarrow> invocation \<Rightarrow> (string \<Rightarrow> bool) \<Rightarrow> site \<Rightarrow> string result" where
  "authorize_request W i leaks v =
     and_then (get_task (iv_task i) (bn_store (st_depot v))) (\<lambda>t.
     and_then (require (tk_status t = ''running'') ''task is no longer running for a decision request'') (\<lambda>_.
     and_then (task_project (iv_task i) (bn_store (st_depot v))) (\<lambda>project.
     and_then (wd_operator W (st_trace v) project) (\<lambda>(_, d).
     and_then (require (ds_mode d = DecisionShadow \<and> d = iv_decision i)
       ''current operator decision configuration no longer authorizes this request'') (\<lambda>_.
     and_then (wd_credential W (ds_key_env (iv_decision i))) (\<lambda>key.
     and_then (require (key \<noteq> [] \<and> \<not> leaks key) ''decision request contains the active credential'') (\<lambda>_.
     Ok key)))))))"

definition prepare_request :: "env \<Rightarrow> world \<Rightarrow> invocation \<Rightarrow> json \<Rightarrow> (site, unit) oper" where
  "prepare_request env W i body =
     thn (ask_state (authorize_request W i (\<lambda>key. has_text key (json_text env body))))
    (thn (check_online env W (iv_task i)) (on_rows (reserve_model env (iv_task i) (json_len env body))))"

definition retry_status :: "int \<Rightarrow> bool" where
  "retry_status n = (n = 429 \<or> n = 529)"

text \<open>One request: the answer, or whether its failure may be tried again.\<close>

definition send_request :: "env \<Rightarrow> world \<Rightarrow> invocation \<Rightarrow> string \<Rightarrow> decision_request \<Rightarrow> (site, decision_response + bool) oper" where
  "send_request env W i dec r =
     thn (ok_of (on_depot (attempt_started dec)))
    (bnd (call_outside W (Consult (wire_request r))) (\<lambda>reply.
     case reply of
       Provider (Answered v) \<Rightarrow>
         bnd (ok_of (thn (on_rows (consume_output env (iv_task i) (json_len env v)))
             (thn (guard (json_len env v \<le> 256 * 1024) ''decision response exceeds the size limit'')
                  (pure (validate_response env r v))))) (\<lambda>x.
         ret (case x of None \<Rightarrow> Inr False | Some y \<Rightarrow> Inl y))
     | Provider (Refused code) \<Rightarrow> ret (Inr (retry_status code))
     | Provider (Unreachable again) \<Rightarrow> ret (Inr again)
     | _ \<Rightarrow> ret (Inr False)))"

text \<open>
  The requests of one decision, with the number of requests that were sent. \<open>n\<close> counts down the
  attempts of the settings, so the loop ends.
\<close>

fun consult :: "env \<Rightarrow> world \<Rightarrow> invocation \<Rightarrow> string \<Rightarrow> decision_request \<Rightarrow> nat \<Rightarrow> nat \<Rightarrow> (site, (decision_response \<times> nat) + nat) oper" where
  "consult env W i dec r 0 sent = ret (Inr sent)"
| "consult env W i dec r (Suc n) sent =
     bnd (ok_of (prepare_request env W i (wire_request r))) (\<lambda>ok.
     if ok = None then ret (Inr sent)
     else
       bnd (send_request env W i dec r) (\<lambda>outcome.
       case outcome of
         Inl response \<Rightarrow> ret (Inl (response, Suc sent))
       | Inr again \<Rightarrow>
           bnd (ask_state (\<lambda>v. Ok (again \<and> n > 0 \<and> wd_patient W (st_trace v)))) (\<lambda>go.
           if go then consult env W i dec r n (Suc sent) else ret (Inr (Suc sent)))))"

definition decide :: "env \<Rightarrow> world \<Rightarrow> invocation \<Rightarrow> string \<Rightarrow> decision_request \<Rightarrow> (site, (decision_response \<times> nat) + nat) oper" where
  "decide env W i dec r =
     (if is_ok (validate_request env r) \<and> dr_model r = ds_model (iv_decision i) then consult env W i dec r (ds_attempts (iv_decision i)) 0
      else ret (Inr 0))"

definition response_json :: "decision_response \<Rightarrow> json" where
  "response_json r = jobj [(''answers'', JArr (map (\<lambda>a. case a of
        ChoiceA i a c ps \<Rightarrow> jobj [(''type'', JStr ''choice''), (''id'', JStr i), (''answer'', JStr a), (''confidence'', JFloat c),
          (''probabilities'', JObj (map (\<lambda>(k, p). (k, JFloat p)) ps))]
      | ScoreA i x c ps \<Rightarrow> jobj [(''type'', JStr ''score''), (''id'', JStr i), (''score'', JFloat x), (''confidence'', JFloat c),
          (''probabilities'', JObj (map (\<lambda>(k, p). (k, JFloat p)) ps))]
      | NoulA i x c \<Rightarrow> jobj [(''type'', JStr ''noul''), (''id'', JStr i), (''noul'', JFloat x),
          (''confidence'', case c of None \<Rightarrow> JNull | Some c \<Rightarrow> JFloat c)]) (dn_answers r))),
     (''usage'', jobj [(''input_tokens'', case dn_input_tokens r of None \<Rightarrow> JNull | Some n \<Rightarrow> JInt n),
        (''output_tokens'', case dn_output_tokens r of None \<Rightarrow> JNull | Some n \<Rightarrow> JInt n)])]"

definition first_choice :: "decision_response \<Rightarrow> (string \<times> rat) result" where
  "first_choice r =
     (case dn_answers r of
        ChoiceA _ a _ ps # _ \<Rightarrow> Ok (a, probability_at ps ''routine'')
      | _ \<Rightarrow> bail ''delivery decision-model response omitted choice'')"

definition veto_queued :: "invocation \<Rightarrow> string \<Rightarrow> queued_decision" where
  "veto_queued i dec = \<lparr>qd_id = dec, qd_task = iv_task i, qd_step = Some (iv_step i), qd_attempt = Some (iv_attempt i),
     qd_purpose = ''delivery:veto'', qd_policy = ds_policy (iv_decision i), qd_backend = ds_backend (iv_decision i),
     qd_model = ds_model (iv_decision i), qd_baseline = Some ''manual''\<rparr>"

definition veto_prepared :: "env \<Rightarrow> invocation \<Rightarrow> json \<Rightarrow> decision_request \<Rightarrow> int \<Rightarrow> string \<Rightarrow> prepared_decision" where
  "veto_prepared env i facts r context print_hash = \<lparr>pd_state_hash = json_hash env facts, pd_context = context,
     pd_policy_hash = policy_hash env (iv_policy i), pd_catalog_hash = sha256 env ''delivery-v1'', pd_candidates = jobj [],
     pd_fingerprint = print_hash, pd_evidence_hash = json_hash env facts, pd_request_hash = json_hash env (wire_request r),
     pd_cache_hash = [], pd_artifact = None\<rparr>"

definition decision_veto :: "env \<Rightarrow> world \<Rightarrow> invocation \<Rightarrow> json \<Rightarrow> rat \<Rightarrow> (site, string) oper" where
  "decision_veto env W i facts least =
     (let url = ud_url (wd_upkeep W) in
      bnd (pure (delivery_veto_request env (ds_model (iv_decision i)) facts)) (\<lambda>r.
      bnd (ask_state (\<lambda>v. Ok (wd_fresh W (st_trace v)))) (\<lambda>dec.
      bnd (on_depot (enqueue_bounded env (veto_queued i dec) (ds_task_limit (iv_decision i)))) (\<lambda>admitted.
      thn (guard admitted ''task decision limit reached'')
     (bnd (pure (context_of (as_i64 (jget facts ''context_version'')) ''context version'')) (\<lambda>context.
      bnd (pure (fingerprint env url (wd_show_url W) (iv_decision i))) (\<lambda>f.
      thn (on_depot (start_decision env dec (veto_prepared env i facts r context f)))
     (thn (pure (and_then (validate_decision url (iv_decision i)) (\<lambda>_. decision_endpoint url (ds_base_url (iv_decision i)))))
     (bnd (decide env W i dec r) (\<lambda>outcome.
      case outcome of
        Inr sent \<Rightarrow>
          thn (on_depot (finish_decision env dec ''failed'' ''provider_unavailable'' (int sent)))
              (throw ''delivery decision-model veto unavailable'')
      | Inl (response, sent) \<Rightarrow>
          bnd (pure (first_choice response)) (\<lambda>(answer, p).
          bnd (ask_state (\<lambda>v. Ok (wd_elapsed W (st_trace v)))) (\<lambda>ms.
          thn (on_depot (complete_decision env dec \<lparr>cp_result = response_json response, cp_proposed = Some answer,
                 cp_abstention = (answer \<noteq> ''routine''), cp_provider_ms = ms, cp_attempts = int sent,
                 cp_usage = jget (response_json response) ''usage''\<rparr>))
         (thn (guard (answer = ''routine'' \<and> p \<ge> least) ''decision model escalated automatic delivery'')
              (ret dec))))))))))))))"

section \<open>The authorization of a merge\<close>

definition clean_workspace :: "world \<Rightarrow> string \<Rightarrow> (site, unit) oper" where
  "clean_workspace W head =
     bnd (git_read W [''rev-parse'', ''HEAD'']) (\<lambda>h.
     thn (guard (h = head) ''integrated head changed'')
    (bnd (git_read W [''status'', ''--porcelain'', ''--untracked-files=all'']) (\<lambda>out.
     guard (out = []) ''integrated workspace is dirty'')))"

definition branch_endpoint :: "string \<Rightarrow> string \<Rightarrow> string" where
  "branch_endpoint repository base = ''repos/'' @ repository @ ''/branches/'' @ str_replace ''/'' ''%2F'' base"

definition base_oid :: "env \<Rightarrow> world \<Rightarrow> invocation \<Rightarrow> (site, string) oper" where
  "base_oid env W i =
     (let base = de_base (iv_delivery i); endpoint = branch_endpoint (de_repository (iv_delivery i)) base in
      bnd (git_read W [''rev-parse'', ''--verify'', ''refs/remotes/origin/'' @ base @ ''^{commit}'']) (\<lambda>local.
      bnd (gh env W i [''api'', endpoint]) (\<lambda>remote.
      bnd (pure (context_of (as_str (jget (jget remote ''commit'') ''sha'')) ''GitHub base SHA'')) (\<lambda>actual.
      thn (guard (actual = local) ''local base ref is stale relative to GitHub'')
     (bnd (gh env W i [''api'', endpoint @ ''/protection'']) (\<lambda>protection.
      thn (guard (strict_protection protection (iv_policy i))
             ''automatic merge requires strict up-to-date branch protection enforced for admins'')
          (ret local)))))))"

definition preflight_snapshot :: "env \<Rightarrow> invocation \<Rightarrow> string \<Rightarrow> depot \<Rightarrow> json result" where
  "preflight_snapshot env i head t =
     (let task = iv_task i; s = bn_store t in
      and_then (context_of (map_of (dl_preflights t) task) ''Query returned no rows'') (\<lambda>snap.
      and_then (revision_and_context env task s) (\<lambda>(revision, context).
      and_then (require (jget snap ''head'' = JStr head \<and> jget snap ''revision'' = JInt revision \<and> jget snap ''context_version'' = JInt context \<and>
          jget snap ''non_delivery_ops_hash'' = JStr (non_delivery_ops env task s)) ''automatic-delivery review snapshot is stale'') (\<lambda>_.
      and_then (context_of (as_str (jget (jget snap ''review'') ''id'')) ''review id'') (\<lambda>rid.
      and_then (context_of (find (\<lambda>(r, _). rw_id r = rid) (joined_reviews task t)) ''review checkpoint vanished'') (\<lambda>(r, c).
      and_then (require (rw_head r = Some head \<and> rw_revision r = Some revision \<and> rw_context r = Some context \<and> dc_state c = ''succeeded'' \<and>
          jstr_opt (rw_evidence_hash r) = jget (jget snap ''review'') ''evidence_hash'' \<and>
          jstr_opt (rw_manifest_hash r) = jget (jget snap ''review'') ''manifest_hash'') ''review checkpoint changed'') (\<lambda>_.
      and_then (context_of (rw_coverage r) ''review coverage'') (\<lambda>coverage.
      and_then (require (jget coverage ''complete'' = JBool True) ''review coverage is incomplete'') (\<lambda>_.
      and_then (context_of (dc_result c) ''review result'') (\<lambda>signals.
      and_then (require (review_signals_clear signals (ad_confidence (iv_policy i)) \<and>
          jget (jget snap ''review'') ''signals_hash'' = JStr (json_hash env signals))
        ''review signals changed or flagged an unresolved concern'') (\<lambda>_.
      and_then (independent_review env task head revision t) (\<lambda>peer.
      and_then (require (peer = jget snap ''independent_review'') ''independent review evidence changed'') (\<lambda>_.
      Ok snap)))))))))))))"

definition routine_manifest :: "world \<Rightarrow> string \<Rightarrow> string \<Rightarrow> (site, string list \<times> json) oper" where
  "routine_manifest W base head =
     bnd (outside W (Diff_manifest (''refs/remotes/origin/'' @ base) head)) (\<lambda>m.
     bnd (pure (routine_paths m)) (\<lambda>paths. ret (paths, m)))"

text \<open>The secrets of the task, the credential of the service and their escaped forms are taken out.\<close>

definition escaped_form :: "env \<Rightarrow> string \<Rightarrow> string option" where
  "escaped_form env v =
     (let encoded = json_text env (JStr v); inner = take (length encoded - 2) (drop 1 encoded) in
      if length encoded \<ge> 2 \<and> inner \<noteq> v then Some inner else None)"

definition redacted_manifest :: "env \<Rightarrow> world \<Rightarrow> invocation \<Rightarrow> json \<Rightarrow> json result" where
  "redacted_manifest env W i m =
     and_then (secret_values env (iv_task i)) (\<lambda>values.
     and_then (wd_credential W (ds_key_env (iv_decision i))) (\<lambda>key.
     and_then (require (key \<noteq> []) ''decision credential unavailable'') (\<lambda>_.
     let values = bt_insert ''__delivery_credential'' key values;
         values = fold (\<lambda>v acc. case escaped_form env v of None \<Rightarrow> acc
           | Some inner \<Rightarrow> bt_insert (''__escaped_'' @ show_nat (length acc)) inner acc) (map snd values) values in
     Ok (redact_walk values m))))"

definition pr_fields :: string where
  "pr_fields = ''number,url,state,headRefOid,baseRefName,author''"

definition pr_view :: "env \<Rightarrow> world \<Rightarrow> invocation \<Rightarrow> string \<Rightarrow> string \<Rightarrow> (site, json) oper" where
  "pr_view env W i which wanted = gh env W i [''pr'', ''view'', which, ''--repo'', de_repository (iv_delivery i), ''--json'', wanted]"

definition checks_endpoint :: "invocation \<Rightarrow> string \<Rightarrow> string" where
  "checks_endpoint i head = ''repos/'' @ de_repository (iv_delivery i) @ ''/commits/'' @ head @ ''/check-runs?per_page=100''"

definition reviews_endpoint :: "invocation \<Rightarrow> string \<Rightarrow> string" where
  "reviews_endpoint i number = ''repos/'' @ de_repository (iv_delivery i) @ ''/pulls/'' @ number @ ''/reviews?per_page=100''"

definition required_runs :: "env \<Rightarrow> world \<Rightarrow> invocation \<Rightarrow> string \<Rightarrow> (site, json) oper" where
  "required_runs env W i head =
     bnd (gh env W i [''api'', checks_endpoint i head]) (\<lambda>v. pure (check_runs v head (ad_checks (iv_policy i))))"

definition required_approvals :: "env \<Rightarrow> world \<Rightarrow> invocation \<Rightarrow> string \<Rightarrow> string \<Rightarrow> string \<Rightarrow> (site, json) oper" where
  "required_approvals env W i head number author =
     bnd (gh env W i [''api'', reviews_endpoint i number]) (\<lambda>v. pure (approvals v head author (ad_approvals (iv_policy i))))"

definition active_delivery_attempt :: "invocation \<Rightarrow> store \<Rightarrow> unit result" where
  "active_delivery_attempt i s =
     require (count_rows (\<lambda>a. at_id a = iv_attempt i \<and> at_state a = ''running'' \<and>
         exists_row (\<lambda>r. st_id r = at_step a \<and> st_id r = iv_step i \<and> st_state r = ''running'' \<and>
           exists_row (\<lambda>t. tk_id t = st_task r \<and> tk_id t = iv_task i \<and> tk_status t = ''running'') (tasks s)) (steps s)) (attempts s) = 1)
       ''delivery task, step, or attempt is no longer active''"

definition same_pr :: "invocation \<Rightarrow> string \<Rightarrow> string \<Rightarrow> json \<Rightarrow> bool" where
  "same_pr i head number pr =
     (jget pr ''state'' = JStr ''OPEN'' \<and> jget pr ''headRefOid'' = JStr head \<and> jget pr ''baseRefName'' = JStr (de_base (iv_delivery i)) \<and>
      as_u64 (jget pr ''number'') = (case parse_u64 number of Inl _ \<Rightarrow> None | Inr n \<Rightarrow> Some (int n)))"

definition delivery_facts :: "invocation \<Rightarrow> string \<Rightarrow> string \<Rightarrow> string \<Rightarrow> string list \<Rightarrow> json \<Rightarrow> json \<Rightarrow> json \<Rightarrow> json \<Rightarrow> json" where
  "delivery_facts i head base_sha environment paths manifest checks approved review = jobj [(''head'', JStr head),
     (''repo'', JStr (de_repository (iv_delivery i))), (''base'', JStr (de_base (iv_delivery i))), (''base_oid'', JStr base_sha),
     (''environment'', JStr environment), (''paths'', strings_json paths), (''manifest'', manifest), (''checks'', checks),
     (''approvals'', approved), (''review'', jget review ''review''), (''independent_review'', jget review ''independent_review''),
     (''context_version'', jget review ''context_version'')]"

definition authorization_data :: "env \<Rightarrow> invocation \<Rightarrow> json \<Rightarrow> string \<Rightarrow> string \<Rightarrow> string \<Rightarrow> json" where
  "authorization_data env i facts dec number head = jobj [(''facts'', facts), (''decision'', JStr dec), (''pr'', JStr number), (''head'', JStr head),
     (''policy_hash'', JStr (policy_hash env (iv_policy i))), (''merge'', JStr ''squash''),
     (''deploy_workflow'', jstr_opt (de_workflow (iv_delivery i))), (''version_url'', jstr_opt (ad_version_url (iv_policy i)))]"

definition record_authorization :: "authorization_row \<Rightarrow> depot \<Rightarrow> depot" where
  "record_authorization z t =
     (if az_id z \<in> az_id ` set (dl_authorizations t) then t else t\<lparr>dl_authorizations := dl_authorizations t @ [z]\<rparr>)"

text \<open>The facts are read, the service is asked, and then every fact is read again.\<close>

definition recheck :: "env \<Rightarrow> world \<Rightarrow> invocation \<Rightarrow> string \<Rightarrow> string \<Rightarrow> string \<Rightarrow> string \<Rightarrow> json \<Rightarrow> json \<Rightarrow> json \<Rightarrow> json \<Rightarrow> (site, unit) oper" where
  "recheck env W i head number author base_sha manifest pr checks approved =
     thn (policy_now env W i)
    (thn (clean_workspace W head)
    (thn (ask_depot (preflight_snapshot env i head))
    (bnd (routine_manifest W (de_base (iv_delivery i)) head) (\<lambda>(_, manifest').
     thn (guard (manifest' = manifest) ''patch changed during delivery decision'')
    (bnd (base_oid env W i) (\<lambda>base'.
     thn (guard (base' = base_sha) ''base branch changed during delivery decision'')
    (bnd (pr_view env W i number pr_fields) (\<lambda>pr'.
     thn (guard (pr' = pr) ''PR changed during delivery decision'')
    (bnd (required_runs env W i head) (\<lambda>checks'.
     thn (guard (checks' = checks) ''checks changed during delivery decision'')
    (bnd (required_approvals env W i head number author) (\<lambda>approved'.
     thn (guard (approved' = approved) ''approvals changed during delivery decision'')
         (ask_rows (active_delivery_attempt i))))))))))))))"

definition authorize_merge :: "env \<Rightarrow> world \<Rightarrow> invocation \<Rightarrow> string \<Rightarrow> string \<Rightarrow> (site, json) oper" where
  "authorize_merge env W i head number =
     thn (ask_rows (active_delivery_attempt i))
    (bnd (policy_now env W i) (\<lambda>p.
     bnd (ask_rows (scoped env i p)) (\<lambda>environment.
     thn (clean_workspace W head)
    (bnd (ask_depot (preflight_snapshot env i head)) (\<lambda>review.
     bnd (routine_manifest W (de_base (iv_delivery i)) head) (\<lambda>(paths, manifest).
     thn (pure (validate_paths paths (ad_paths p)))
    (bnd (pr_view env W i number pr_fields) (\<lambda>pr.
     thn (guard (same_pr i head number pr) ''PR identity changed before automatic merge'')
    (bnd (pure (context_of (as_str (jget (jget pr ''author'') ''login'')) ''PR author'')) (\<lambda>author.
     bnd (base_oid env W i) (\<lambda>base_sha.
     bnd (required_runs env W i head) (\<lambda>checks.
     bnd (required_approvals env W i head number author) (\<lambda>approved.
     bnd (pure (redacted_manifest env W i manifest)) (\<lambda>redacted.
     let facts = delivery_facts i head base_sha environment paths redacted checks approved review in
     bnd (decision_veto env W i facts (ad_routine p)) (\<lambda>dec.
     thn (recheck env W i head number author base_sha manifest pr checks approved)
    (let details = authorization_data env i facts dec number head; key = json_hash env details in
     thn (on_depot (modify (record_authorization \<lparr>az_id = key, az_task = iv_task i, az_head = head, az_data = details\<rparr>)))
    (thn (on_rows (event env (iv_task i) ''delivery.authorized'' (jobj [(''authorization'', JStr key), (''head'', JStr head), (''pr'', JStr number)])))
         (ret (jobj [(''id'', JStr key), (''head'', JStr head), (''decision'', JStr dec)])))))))))))))))))))"

definition find_authorization :: "string \<Rightarrow> string \<Rightarrow> string \<Rightarrow> depot \<Rightarrow> authorization_row option" where
  "find_authorization key task head t =
     find (\<lambda>z. az_id z = key \<and> az_task z = task \<and> az_head z = head) (dl_authorizations t)"

text \<open>Right before the merge: the policy is still the one of the authorization, the attempt still runs.\<close>

definition validate_merge_boundary :: "env \<Rightarrow> world \<Rightarrow> invocation \<Rightarrow> json \<Rightarrow> site \<Rightarrow> unit result" where
  "validate_merge_boundary env W i authorization v =
     and_then (current_policy env W i v) (\<lambda>p.
     and_then (context_of p ''automatic delivery disabled'') (\<lambda>p.
     and_then (context_of (as_str (jget authorization ''id'')) ''authorization id'') (\<lambda>key.
     and_then (context_of (as_str (jget authorization ''head'')) ''authorization head'') (\<lambda>head.
     and_then (context_of (find_authorization key (iv_task i) head (st_depot v)) ''delivery authorization missing'') (\<lambda>z.
     and_then (require (jget (az_data z) ''policy_hash'' = JStr (policy_hash env p)) ''operator delivery policy changed before merge'') (\<lambda>_.
     active_delivery_attempt i (bn_store (st_depot v))))))))"

definition insert_intent :: "intent_row \<Rightarrow> depot \<Rightarrow> depot" where
  "insert_intent m t = (if mi_task m \<in> mi_task ` set (dl_intents t) then t else t\<lparr>dl_intents := dl_intents t @ [m]\<rparr>)"

text \<open>A task has one intent for good: an attempt that wants to merge something else fails.\<close>

definition record_merge_intent :: "invocation \<Rightarrow> json \<Rightarrow> string \<Rightarrow> string \<Rightarrow> (depot, unit) oper" where
  "record_merge_intent i authorization number head =
     bnd (ask_state (\<lambda>_. context_of (as_str (jget authorization ''id'')) ''authorization identity'')) (\<lambda>key.
     bnd (ask_state (\<lambda>t. context_of (find_authorization key (iv_task i) head t) ''authorization row missing'')) (\<lambda>z.
     thn (guard (jget (az_data z) ''pr'' = JStr number \<and> jget (az_data z) ''decision'' = jget authorization ''decision'')
            ''merge intent does not match authorization'')
    (thn (modify (insert_intent \<lparr>mi_task = iv_task i, mi_authorization = key, mi_pr = number, mi_head = head\<rparr>))
    (bnd (ask_state (\<lambda>t. context_of (find (\<lambda>m. mi_task m = iv_task i) (dl_intents t)) ''merge intent missing'')) (\<lambda>m.
     guard (mi_authorization m = key \<and> mi_pr m = number \<and> mi_head m = head) ''automatic merge intent differs from prior attempt'')))))"

definition require_prior_authorization :: "env \<Rightarrow> invocation \<Rightarrow> string \<Rightarrow> string \<Rightarrow> depot \<Rightarrow> string result" where
  "require_prior_authorization env i head number t =
     and_then (preflight_snapshot env i head t) (\<lambda>_.
     and_then (context_of (find (\<lambda>m. mi_task m = iv_task i \<and> find_authorization (mi_authorization m) (iv_task i) (mi_head m) t \<noteq> None) (dl_intents t))
       ''merged PR has no recorded automatic-delivery intent'') (\<lambda>m.
     and_then (require (mi_head m = head \<and> mi_pr m = number) ''merge intent PR or head changed'') (\<lambda>_.
     and_then (context_of (find_authorization (mi_authorization m) (iv_task i) head t) ''merged PR has no recorded automatic-delivery intent'') (\<lambda>z.
     and_then (require (jget (az_data z) ''head'' = JStr head \<and> jget (az_data z) ''pr'' = JStr (mi_pr m) \<and>
         jget (az_data z) ''policy_hash'' = JStr (policy_hash env (iv_policy i))) ''merge intent does not match authorization'') (\<lambda>_.
     and_then (context_of (as_str (jget (az_data z) ''decision'')) ''delivery decision'') (\<lambda>dec.
     and_then (context_of (find (\<lambda>c. dc_id c = dec \<and> dc_task c = iv_task i \<and> dc_purpose c = ''delivery:veto'') (bn_decisions t))
       ''delivery decision missing'') (\<lambda>c.
     and_then (require (dc_state c = ''succeeded'' \<and> dc_proposed c = Some ''routine'') ''delivery decision did not authorize routine delivery'') (\<lambda>_.
     context_of (as_str (jget (jget (az_data z) ''facts'') ''base_oid'')) ''authorized base SHA''))))))))"

section \<open>Delivery of a task\<close>

definition branch_of :: "invocation \<Rightarrow> string" where
  "branch_of i = ''horde/'' @ iv_task i"

definition push_args :: "invocation \<Rightarrow> string list" where
  "push_args i =
     (if automatic i
      then [''git'', ''-c'', ''core.hooksPath=/dev/null'', ''push'', ''origin'', ''HEAD:refs/heads/'' @ branch_of i]
      else [''git'', ''push'', ''origin'', ''HEAD:refs/heads/'' @ branch_of i])"

definition body_text :: "invocation \<Rightarrow> string \<Rightarrow> string" where
  "body_text i head = iv_instructions i @ [CHR 0x0A, CHR 0x0A] @ ''Implemented and verified by task `'' @ iv_task i @ ''`.'' @
     [CHR 0x0A, CHR 0x0A] @ ''Integrated head: `'' @ head @ ''`'' @ [CHR 0x0A]"

definition create_pr :: "env \<Rightarrow> world \<Rightarrow> invocation \<Rightarrow> string \<Rightarrow> (site, json) oper" where
  "create_pr env W i head =
     (let d = iv_delivery i in
      thn (save env i ''pr'' ''intent'' (jobj [(''branch'', JStr (branch_of i)), (''head'', JStr head)]))
     (bnd (delivery_command env W i (Push (automatic i) (push_args i))) (\<lambda>out.
      thn (guard (jget out ''success'' = JBool True) ''push failed'')
     (thn (outside W (Write_body (body_text i head)))
     (thn (gh env W i [''pr'', ''create'', ''--repo'', de_repository d, ''--base'', de_base d, ''--head'', branch_of i, ''--title'',
             take 120 (iv_instructions i), ''--body-file'', ''pr-'' @ iv_task i @ ''.md''])
          (pr_view env W i (branch_of i) ''number,url,state,headRefOid,mergedAt''))))))"

definition find_pr :: "env \<Rightarrow> world \<Rightarrow> invocation \<Rightarrow> (site, json option) oper" where
  "find_pr env W i =
     bnd (gh env W i [''pr'', ''list'', ''--repo'', de_repository (iv_delivery i), ''--head'', branch_of i, ''--state'', ''all'', ''--json'',
            ''number,url,state,headRefOid,mergedAt'']) (\<lambda>v.
     pure (and_then (context_of (as_array v) ''malformed GitHub PR list'') (\<lambda>rows. Ok (case rows of [] \<Rightarrow> None | r # _ \<Rightarrow> Some r))))"

definition merge_args :: "invocation \<Rightarrow> string \<Rightarrow> string \<Rightarrow> string list" where
  "merge_args i head number = [''pr'', ''merge'', number, ''--repo'', de_repository (iv_delivery i), ''--squash'', ''--match-head-commit'', head]"

text \<open>The merge: authorized first, when automatic delivery is on, with the intent recorded before the command.\<close>

definition merge_pr :: "env \<Rightarrow> world \<Rightarrow> invocation \<Rightarrow> string \<Rightarrow> string \<Rightarrow> (site, unit) oper" where
  "merge_pr env W i head number =
     bnd (if ad_enabled (iv_policy i) then bnd (authorize_merge env W i head number) (\<lambda>a. ret (Some a)) else ret None) (\<lambda>authorization.
     thn (case authorization of None \<Rightarrow> ret () | Some a \<Rightarrow> on_depot (record_merge_intent i a number head))
    (thn (save env i ''merge'' ''intent'' (jobj [(''pr'', JStr number), (''head'', JStr head), (''authorization'', unwrap_or authorization JNull)]))
    (thn (case authorization of None \<Rightarrow> ret () | Some a \<Rightarrow> ask_state (validate_merge_boundary env W i a))
    (thn (gh env W i (merge_args i head number)) (ret ())))))"

text \<open>The deployment of the merge commit that its push started, looked for thirty times.\<close>

definition deployment_fields :: string where
  "deployment_fields = ''databaseId,headSha,headBranch,event,status,conclusion''"

fun find_run :: "env \<Rightarrow> world \<Rightarrow> invocation \<Rightarrow> string \<Rightarrow> string \<Rightarrow> nat \<Rightarrow> (site, json) oper" where
  "find_run env W i workflow sha 0 = throw ''no deployment run found for merge commit; configure a push-triggered workflow''"
| "find_run env W i workflow sha (Suc n) =
     bnd (gh env W i [''run'', ''list'', ''--repo'', de_repository (iv_delivery i), ''--workflow'', workflow, ''--commit'', sha, ''--json'',
            deployment_fields, ''--limit'', ''100'']) (\<lambda>runs.
     bnd (pure (if automatic i then select_deployment_run runs sha (de_base (iv_delivery i))
                else Ok (case as_array runs of Some (r # _) \<Rightarrow> r | _ \<Rightarrow> JNull))) (\<lambda>found.
     if found \<noteq> JNull then ret found else find_run env W i workflow sha n))"

definition run_id :: "json \<Rightarrow> string" where
  "run_id v = (case v of JInt n \<Rightarrow> show_int n | JStr s \<Rightarrow> CHR 0x22 # s @ [CHR 0x22] | _ \<Rightarrow> ''null'')"

definition deployed_well :: "json \<Rightarrow> json \<Rightarrow> string \<Rightarrow> string \<Rightarrow> bool" where
  "deployed_well run checked sha base =
     (jget checked ''databaseId'' = jget run ''databaseId'' \<and> jget checked ''headSha'' = JStr sha \<and> jget checked ''headBranch'' = JStr base \<and>
      jget checked ''event'' = JStr ''push'' \<and> jget checked ''status'' = JStr ''completed'' \<and> jget checked ''conclusion'' = JStr ''success'')"

definition merge_commit :: "json \<Rightarrow> string result" where
  "merge_commit merged = context_of (as_str (jget (jget merged ''mergeCommit'') ''oid'')) ''merge commit''"

definition observe_deployment :: "env \<Rightarrow> world \<Rightarrow> invocation \<Rightarrow> string \<Rightarrow> json \<Rightarrow> (site, unit) oper" where
  "observe_deployment env W i workflow merged =
     bnd (pure (merge_commit merged)) (\<lambda>sha.
     bnd (find_run env W i workflow sha 30) (\<lambda>run.
     thn (save env i ''deployment'' ''observing'' run)
    (thn (gh env W i [''run'', ''watch'', run_id (jget run ''databaseId''), ''--repo'', de_repository (iv_delivery i), ''--exit-status''])
    (thn (when_op (automatic i)
           (bnd (gh env W i [''run'', ''view'', run_id (jget run ''databaseId''), ''--repo'', de_repository (iv_delivery i), ''--json'', deployment_fields])
              (\<lambda>checked. guard (deployed_well run checked sha (de_base (iv_delivery i)))
                 ''deployment run did not complete successfully for merge commit'')))
         (save env i ''deployment'' ''succeeded'' run)))))"

fun check_health :: "world \<Rightarrow> string \<Rightarrow> nat \<Rightarrow> (site, unit) oper" where
  "check_health W url 0 = throw ''deployment health check failed''"
| "check_health W url (Suc n) = bnd (ok_of (outside W (Probe url))) (\<lambda>r. if r \<noteq> None then ret () else check_health W url n)"

definition observe_health :: "env \<Rightarrow> world \<Rightarrow> invocation \<Rightarrow> string \<Rightarrow> (site, unit) oper" where
  "observe_health env W i url =
     bnd (ok_of (check_health W url 5)) (\<lambda>r.
     if r = None then
       thn (save env i ''health'' ''failed'' (jobj [(''url'', JStr url), (''error'', JStr ''deployment health check failed'')]))
           (throw ''deployment health check failed'')
     else save env i ''health'' ''succeeded'' (jobj [(''url'', JStr url)]))"

definition commit_json :: "json \<Rightarrow> invocation \<Rightarrow> json" where
  "commit_json merged i = jobj [(''commit'', jget (jget merged ''mergeCommit'') ''oid''), (''environment'', jstr_opt (de_environment (iv_delivery i)))]"

definition verify_assertion :: "world \<Rightarrow> string option \<Rightarrow> string \<Rightarrow> json \<Rightarrow> invocation \<Rightarrow> (json \<Rightarrow> bool) \<Rightarrow> string \<Rightarrow> (site, unit) oper" where
  "verify_assertion W url missing merged i extra msg =
     bnd (pure (context_of url missing)) (\<lambda>u.
     bnd (pure (merge_commit merged)) (\<lambda>sha.
     bnd (pure (context_of (de_environment (iv_delivery i)) ''environment'')) (\<lambda>e.
     bnd (outside W (Fetch u)) (\<lambda>v.
     guard (extra v \<and> jget v ''commit'' = JStr sha \<and> jget v ''environment'' = JStr e) msg))))"

definition observe_application :: "env \<Rightarrow> world \<Rightarrow> invocation \<Rightarrow> json \<Rightarrow> (site, unit) oper" where
  "observe_application env W i merged =
     thn (verify_assertion W (ad_version_url (iv_policy i)) ''version URL'' merged i (\<lambda>_. True)
            ''deployment version does not match merge commit and environment'')
    (thn (save env i ''version'' ''succeeded'' (commit_json merged i))
    (thn (verify_assertion W (ad_smoke_url (iv_policy i)) ''smoke URL'' merged i (\<lambda>v. jget v ''ok'' = JBool True)
            ''application smoke check failed for deployed commit and environment'')
         (save env i ''smoke'' ''succeeded'' (commit_json merged i))))"

definition confirm_merge :: "env \<Rightarrow> world \<Rightarrow> invocation \<Rightarrow> string \<Rightarrow> string \<Rightarrow> (site, json) oper" where
  "confirm_merge env W i head number =
     bnd (pr_view env W i number ''state,mergeCommit,url'') (\<lambda>merged.
     thn (guard (jget merged ''state'' = JStr ''MERGED'') ''merge has not completed'')
    (thn (when_op (automatic i)
           (bnd (ask_depot (require_prior_authorization env i head number)) (\<lambda>base_sha.
            bnd (pure (merge_commit merged)) (\<lambda>sha.
            bnd (gh env W i [''api'', ''repos/'' @ de_repository (iv_delivery i) @ ''/commits/'' @ sha]) (\<lambda>commit.
            guard (merge_parent_matches commit base_sha)
              ''squash merge parent differs from authorized base; reconcile deployment effects'')))))
         (ret merged)))"

definition delivered :: "json \<Rightarrow> json" where
  "delivered merged = jobj [(''result'', jget merged ''url''), (''accepted'', JBool True), (''delivery'', JStr ''complete'')]"

definition after_merge :: "env \<Rightarrow> world \<Rightarrow> invocation \<Rightarrow> json \<Rightarrow> (site, json) oper" where
  "after_merge env W i merged =
     thn (save env i ''merge'' ''succeeded'' merged)
    (if ad_package (iv_policy i) \<noteq> None then outside W (Release_package merged)
     else
       thn (case de_workflow (iv_delivery i) of None \<Rightarrow> ret () | Some w \<Rightarrow> observe_deployment env W i w merged)
      (thn (case de_health (iv_delivery i) of None \<Rightarrow> ret () | Some u \<Rightarrow> observe_health env W i u)
      (thn (when_op (automatic i) (observe_application env W i merged))
           (ret (delivered merged)))))"

definition deliver_pr :: "env \<Rightarrow> world \<Rightarrow> invocation \<Rightarrow> string \<Rightarrow> json \<Rightarrow> (site, json) oper" where
  "deliver_pr env W i head pr =
     thn (save env i ''pr'' ''succeeded'' pr)
    (bnd (pure (context_of (as_u64 (jget pr ''number'')) ''PR number'')) (\<lambda>n.
     let number = show_int n; d = iv_delivery i in
     thn (guard (jget pr ''headRefOid'' = JStr head) ''PR head differs from verified integrated head; reconciliation required'')
    (thn (when_op (jget pr ''state'' \<noteq> JStr ''MERGED'')
           (thn (save env i ''checks'' ''observing'' (jobj [(''pr'', JStr number), (''head'', JStr head)]))
           (thn (gh env W i [''pr'', ''checks'', number, ''--repo'', de_repository d, ''--watch'', ''--fail-fast''])
                (save env i ''checks'' ''succeeded'' (jobj [(''head'', JStr head)])))))
    (if jget pr ''state'' \<noteq> JStr ''MERGED'' \<and> \<not> de_merge d
     then ret (jobj [(''result'', jget pr ''url''), (''accepted'', JBool True), (''delivery'', JStr ''pr_ready'')])
     else
       thn (when_op (jget pr ''state'' \<noteq> JStr ''MERGED'') (merge_pr env W i head number))
      (bnd (confirm_merge env W i head number) (after_merge env W i))))))"

definition execute_delivery :: "env \<Rightarrow> world \<Rightarrow> invocation \<Rightarrow> (site, json) oper" where
  "execute_delivery env W i =
     (let d = iv_delivery i in
      thn (guard (de_enabled d \<and> de_repository d \<noteq> [] \<and> de_base d \<noteq> []) ''delivery requires enabled=true, repository, and base in TOML settings'')
     (bnd (gh env W i [''repo'', ''view'', ''--json'', ''nameWithOwner'']) (\<lambda>remote.
      thn (guard (case as_str (jget remote ''nameWithOwner'') of None \<Rightarrow> False | Some n \<Rightarrow> same_ignoring_case n (de_repository d))
             ''configured delivery repository does not match checkout origin'')
     (bnd (git_read W [''rev-parse'', ''HEAD'']) (\<lambda>head.
      bnd (find_pr env W i) (\<lambda>existing.
      thn (when_op (case existing of None \<Rightarrow> True | Some r \<Rightarrow> jget r ''state'' \<noteq> JStr ''MERGED'') (preflight env W i head))
     (bnd (case existing of
             None \<Rightarrow> create_pr env W i head
           | Some pr \<Rightarrow> thn (guard (jget pr ''state'' \<noteq> JStr ''CLOSED'') ''task PR was closed without merging; reconcile explicitly'') (ret pr))
        (deliver_pr env W i head))))))))"

end
