(* ===== verification/Delivery_Facts.thy ===== *)
theory Delivery_Facts
  imports Delivery
begin

text \<open>
  What must have happened before automatic delivery merges: every fact read from outside, the answer
  of the service, every fact read again, the durable intent, and the checks at the boundary.
\<close>

section \<open>Calls of an operation\<close>

definition is_merge :: "outside_call \<Rightarrow> bool" where
  "is_merge c = (case c of Gh p args \<Rightarrow> take 2 args = [''pr'', ''merge''] | _ \<Rightarrow> False)"

text \<open>
  \<open>guards Q m v\<close>: from \<open>v\<close> the operation only adds to the trace, and \<open>Q\<close> holds of the calls before
  each merge command that it adds.
\<close>

definition guards :: "(exchange list \<Rightarrow> exchange \<Rightarrow> bool) \<Rightarrow> (site, 'b) oper \<Rightarrow> site \<Rightarrow> bool" where
  "guards Q m v = (\<forall>v' r. m v = (v', r) \<longrightarrow> (\<exists>new. st_trace v' = st_trace v @ new \<and>
     (\<forall>pre e post. new = pre @ e # post \<longrightarrow> is_merge (ex_call e) \<longrightarrow> Q (st_trace v @ pre) e)))"

lemma guardsI:
  assumes "\<And>v' r. m v = (v', r) \<Longrightarrow> \<exists>new. st_trace v' = st_trace v @ new \<and>
     (\<forall>pre e post. new = pre @ e # post \<longrightarrow> is_merge (ex_call e) \<longrightarrow> Q (st_trace v @ pre) e)"
  shows "guards Q m v"
  using assms by (simp add: guards_def)

lemma guards_same: "(\<And>v' r. m v = (v', r) \<Longrightarrow> st_trace v' = st_trace v) \<Longrightarrow> guards Q m v"
  by (rule guardsI) simp

lemma guards_bnd:
  assumes m: "guards Q m v" and f: "\<And>x v1. m v = (v1, Ok x) \<Longrightarrow> guards Q (f x) v1"
  shows "guards Q (bnd m f) v"
proof (rule guardsI)
  fix v' r assume run: "bnd m f v = (v', r)"
  obtain v1 y where m1: "m v = (v1, y)" by fastforce
  from m m1 obtain n1 where n1: "st_trace v1 = st_trace v @ n1"
    and q1: "\<And>pre e post. n1 = pre @ e # post \<Longrightarrow> is_merge (ex_call e) \<Longrightarrow> Q (st_trace v @ pre) e"
    unfolding guards_def by blast
  show "\<exists>new. st_trace v' = st_trace v @ new \<and>
     (\<forall>pre e post. new = pre @ e # post \<longrightarrow> is_merge (ex_call e) \<longrightarrow> Q (st_trace v @ pre) e)"
  proof (cases y)
    case (Inl e)
    with run m1 have "v' = v1" by (simp add: bnd_def)
    with n1 q1 show ?thesis by blast
  next
    case (Inr x)
    with run m1 have "f x v1 = (v', r)" by (simp add: bnd_def)
    with f [of v1 x] m1 Inr obtain n2 where n2: "st_trace v' = st_trace v1 @ n2"
      and q2: "\<And>pre e post. n2 = pre @ e # post \<Longrightarrow> is_merge (ex_call e) \<Longrightarrow> Q (st_trace v1 @ pre) e"
      unfolding guards_def by blast
    have "Q (st_trace v @ pre) e" if new: "n1 @ n2 = pre @ e # post" and merge: "is_merge (ex_call e)" for pre e post
    proof -
      from new consider us where "n1 = pre @ e # us" | us where "pre = n1 @ us" "n2 = us @ e # post"
        by (auto simp: append_eq_append_conv2 Cons_eq_append_conv append_eq_Cons_conv)
      then show ?thesis
      proof cases
        case 1
        then show ?thesis using q1 merge by blast
      next
        case 2
        then show ?thesis using q2 [OF 2(2) merge] n1 by simp
      qed
    qed
    moreover have "st_trace v' = st_trace v @ (n1 @ n2)" using n1 n2 by simp
    ultimately show ?thesis by blast
  qed
qed

lemma guards_thn: "guards Q m v \<Longrightarrow> (\<And>x v1. m v = (v1, Ok x) \<Longrightarrow> guards Q n v1) \<Longrightarrow> guards Q (thn m n) v"
  unfolding thn_def by (rule guards_bnd)

text \<open>Operations without a merge command guard anything, from any state.\<close>

definition mergeless :: "(site, 'b) oper \<Rightarrow> bool" where
  "mergeless m = (\<forall>Q v. guards Q m v)"

named_theorems mergeless_rules "operations that run no merge command"

lemma mergeless_guards: "mergeless m \<Longrightarrow> guards Q m v"
  by (simp add: mergeless_def)

lemma mergeless_bnd [mergeless_rules]: "mergeless m \<Longrightarrow> (\<And>x. mergeless (f x)) \<Longrightarrow> mergeless (bnd m f)"
  by (simp add: mergeless_def guards_bnd)

lemma mergeless_thn [mergeless_rules]: "mergeless m \<Longrightarrow> mergeless n \<Longrightarrow> mergeless (thn m n)"
  by (simp add: mergeless_def guards_thn)

lemma mergeless_same: "(\<And>v v' r. m v = (v', r) \<Longrightarrow> st_trace v' = st_trace v) \<Longrightarrow> mergeless m"
  unfolding mergeless_def by (blast intro: guards_same)

lemma mergeless_leaves [mergeless_rules]:
  "mergeless (ret x)" "mergeless (throw msg)" "mergeless (ask_state f)" "mergeless (guard b msg)" "mergeless (pure y)" "mergeless (on_depot m)"
  "mergeless (on_rows n)" "mergeless (ask_depot g)" "mergeless (ask_rows h)"
  by (rule mergeless_same, force simp: ret_def throw_def ask_state_def guard_def pure_def on_depot_def on_rows_def ask_depot_def
      ask_rows_def split: prod.splits)+

lemma mergeless_if [mergeless_rules]: "mergeless m \<Longrightarrow> mergeless n \<Longrightarrow> mergeless (if b then m else n)"
  by simp

lemma mergeless_option [mergeless_rules]: "mergeless m \<Longrightarrow> (\<And>x. mergeless (f x)) \<Longrightarrow> mergeless (case a of None \<Rightarrow> m | Some x \<Rightarrow> f x)"
  by (cases a) simp_all

lemma mergeless_sum [mergeless_rules]: "(\<And>x. mergeless (f x)) \<Longrightarrow> (\<And>x. mergeless (g x)) \<Longrightarrow> mergeless (case a of Inl x \<Rightarrow> f x | Inr x \<Rightarrow> g x)"
  by (cases a) simp_all

lemma mergeless_prod [mergeless_rules]: "(\<And>x y. mergeless (f x y)) \<Longrightarrow> mergeless (case a of (x, y) \<Rightarrow> f x y)"
  by (cases a) simp

lemma mergeless_when [mergeless_rules]: "mergeless m \<Longrightarrow> mergeless (when_op b m)"
  by (simp add: when_op_def mergeless_leaves)

lemma mergeless_let [mergeless_rules]: "(\<And>x. mergeless (f x)) \<Longrightarrow> mergeless (let x = a in f x)"
  by simp

lemma mergeless_attempted [mergeless_rules]: "mergeless m \<Longrightarrow> mergeless (ok_of m)"
  unfolding mergeless_def guards_def ok_of_def by (fastforce split: prod.splits sum.splits)

lemma mergeless_call [mergeless_rules]:
  assumes "\<not> is_merge c"
  shows "mergeless (call_outside W c)"
  unfolding mergeless_def guards_def call_outside_def Let_def using assms by (auto simp: append_eq_Cons_conv Cons_eq_append_conv)

lemma mergeless_reply [mergeless_rules]:
  "(\<And>x. mergeless (f x)) \<Longrightarrow> (\<And>x. mergeless (g x)) \<Longrightarrow> mergeless (case a of Said x \<Rightarrow> f x | Provider x \<Rightarrow> g x)"
  by (cases a) simp_all

lemma mergeless_provider [mergeless_rules]:
  "(\<And>x. mergeless (f x)) \<Longrightarrow> (\<And>x. mergeless (g x)) \<Longrightarrow> (\<And>x. mergeless (h x)) \<Longrightarrow> mergeless l \<Longrightarrow>
     mergeless (case a of Answered x \<Rightarrow> f x | Refused x \<Rightarrow> g x | Unreachable x \<Rightarrow> h x | Too_late \<Rightarrow> l)"
  by (cases a) simp_all

lemma mergeless_outside [mergeless_rules]: "\<not> is_merge c \<Longrightarrow> mergeless (outside W c)"
  unfolding outside_def by (intro mergeless_rules)

lemma mergeless_git [mergeless_rules]: "mergeless (git_read W args)"
  unfolding git_read_def by (intro mergeless_rules) (simp add: is_merge_def)

lemma mergeless_online [mergeless_rules]: "mergeless (check_online env W task)"
  unfolding check_online_def by (intro mergeless_rules) (simp add: is_merge_def)

lemma mergeless_child [mergeless_rules]:
  assumes "\<not> is_merge c"
  shows "mergeless (run_child W c attempt)"
  unfolding mergeless_def guards_def run_child_def Let_def using assms by (auto simp: append_eq_Cons_conv Cons_eq_append_conv)

lemma mergeless_process [mergeless_rules]: "\<not> is_merge c \<Longrightarrow> mergeless (run_process env W c attempt)"
  unfolding run_process_def by (intro mergeless_rules) (simp_all add: is_merge_def)

lemma mergeless_delivery_command [mergeless_rules]: "\<not> is_merge c \<Longrightarrow> mergeless (delivery_command env W i c)"
  unfolding delivery_command_def run_command_env_def run_command_def run_task_command_env_def by (intro mergeless_rules)

lemma mergeless_gh: "take 2 args \<noteq> [''pr'', ''merge''] \<Longrightarrow> mergeless (gh env W i args)"
  unfolding gh_def by (intro mergeless_rules) (simp add: is_merge_def)

lemma mergeless_save [mergeless_rules]: "mergeless (save env i name st data)"
  unfolding save_def by (rule mergeless_leaves)

lemma mergeless_api [mergeless_rules]: "mergeless (gh env W i [''api'', x])"
  by (rule mergeless_gh) simp

lemma mergeless_view [mergeless_rules]: "mergeless (pr_view env W i which wanted)"
  unfolding pr_view_def by (rule mergeless_gh) simp

lemma mergeless_reviews [mergeless_rules]: "mergeless (list_reviews env W task c n)"
  unfolding list_reviews_def by (intro mergeless_rules) (simp add: is_merge_def)

lemma mergeless_pages [mergeless_rules]: "mergeless (review_pages env W task head revision context least n c sel)"
  by (induction n arbitrary: c sel) (auto intro!: mergeless_rules)

lemma mergeless_preflight [mergeless_rules]: "mergeless (preflight env W i head)"
  unfolding preflight_def review_snapshot_def Let_def by (intro mergeless_rules)

lemma mergeless_send [mergeless_rules]: "mergeless (send_request env W i dec r)" "mergeless (prepare_request env W i body)"
  unfolding send_request_def prepare_request_def by (intro mergeless_rules; simp add: is_merge_def)+

lemma mergeless_consult [mergeless_rules]: "mergeless (consult env W i dec r n sent)"
  by (induction n arbitrary: sent) (auto intro!: mergeless_rules)

lemma mergeless_veto [mergeless_rules]: "mergeless (decision_veto env W i facts least)"
  unfolding decision_veto_def decide_def Let_def by (intro mergeless_rules)

lemma mergeless_checks [mergeless_rules]:
  "mergeless (clean_workspace W head)" "mergeless (base_oid env W i)" "mergeless (routine_manifest W base head)"
  "mergeless (required_runs env W i head)" "mergeless (required_approvals env W i head number author)" "mergeless (policy_now env W i)"
  unfolding clean_workspace_def base_oid_def routine_manifest_def required_runs_def required_approvals_def policy_now_def Let_def
  by (intro mergeless_rules; simp add: is_merge_def)+

lemma mergeless_recheck [mergeless_rules]: "mergeless (recheck env W i head number author base_sha manifest pr checks approved)"
  unfolding recheck_def by (intro mergeless_rules)

lemma mergeless_authorize [mergeless_rules]: "mergeless (authorize_merge env W i head number)"
  unfolding authorize_merge_def Let_def by (intro mergeless_rules)

lemma mergeless_find_run [mergeless_rules]: "mergeless (find_run env W i workflow sha n)"
  by (induction n) (auto intro!: mergeless_rules mergeless_gh)

lemma mergeless_deployment [mergeless_rules]: "mergeless (observe_deployment env W i workflow merged)"
  unfolding observe_deployment_def by (intro mergeless_rules mergeless_gh) simp_all

lemma mergeless_check_health [mergeless_rules]: "mergeless (check_health W url n)"
  by (induction n) (auto simp: is_merge_def intro!: mergeless_rules)

lemma mergeless_assertion [mergeless_rules]: "mergeless (verify_assertion W url missing merged i extra msg)"
  unfolding verify_assertion_def by (intro mergeless_rules) (simp add: is_merge_def)

lemma mergeless_after [mergeless_rules]:
  "mergeless (after_merge env W i merged)" "mergeless (confirm_merge env W i head number)"
  unfolding after_merge_def confirm_merge_def observe_health_def observe_application_def
  by (intro mergeless_rules; simp add: is_merge_def)+

lemma mergeless_create [mergeless_rules]: "mergeless (create_pr env W i head)" "mergeless (find_pr env W i)"
  unfolding create_pr_def find_pr_def Let_def by (intro mergeless_rules mergeless_gh; simp add: is_merge_def)+

section \<open>What the trace shows\<close>

definition reply_ok :: "exchange \<Rightarrow> json option" where
  "reply_ok e = (case ex_reply e of Said (Inr v) \<Rightarrow> Some v | _ \<Rightarrow> None)"

definition answered :: "env \<Rightarrow> invocation \<Rightarrow> string list \<Rightarrow> (json \<Rightarrow> bool) \<Rightarrow> exchange list \<Rightarrow> bool" where
  "answered env i args P tr = list_ex (\<lambda>e. ex_call e = Gh (gh_program i) args \<and>
     (case reply_ok e of None \<Rightarrow> False | Some out \<Rightarrow> (case gh_payload env out of Inl _ \<Rightarrow> False | Inr v \<Rightarrow> P v))) tr"

definition diff_read :: "env \<Rightarrow> invocation \<Rightarrow> string \<Rightarrow> exchange list \<Rightarrow> bool" where
  "diff_read env i head tr = list_ex (\<lambda>e.
     ex_call e = Diff_manifest (''refs/remotes/origin/'' @ de_base (iv_delivery i)) head \<and> is_ok (preflight_snapshot env i head (ex_depot e)) \<and>
     (case reply_ok e of None \<Rightarrow> False
      | Some m \<Rightarrow> (case routine_paths m of Inl _ \<Rightarrow> False | Inr paths \<Rightarrow> validate_paths paths (ad_paths (iv_policy i)) = Ok ()))) tr"

definition pr_author :: "json \<Rightarrow> string option" where
  "pr_author pr = as_str (jget (jget pr ''author'') ''login'')"

text \<open>Every fact that a merge depends on was read: the diff and its review, the PR, the protection of the base, the checks and the approvals.\<close>

definition facts_read :: "env \<Rightarrow> invocation \<Rightarrow> string \<Rightarrow> string \<Rightarrow> string \<Rightarrow> exchange list \<Rightarrow> bool" where
  "facts_read env i head number author tr =
     (diff_read env i head tr \<and>
      answered env i [''pr'', ''view'', number, ''--repo'', de_repository (iv_delivery i), ''--json'', pr_fields]
        (\<lambda>pr. same_pr i head number pr \<and> pr_author pr = Some author) tr \<and>
      answered env i [''api'', branch_endpoint (de_repository (iv_delivery i)) (de_base (iv_delivery i)) @ ''/protection'']
        (\<lambda>v. strict_protection v (iv_policy i)) tr \<and>
      answered env i [''api'', checks_endpoint i head] (\<lambda>v. is_ok (check_runs v head (ad_checks (iv_policy i)))) tr \<and>
      answered env i [''api'', reviews_endpoint i number] (\<lambda>v. is_ok (approvals v head author (ad_approvals (iv_policy i)))) tr)"

text \<open>The service was asked about this head and called the change routine, with enough confidence.\<close>

definition routine_answer :: "env \<Rightarrow> invocation \<Rightarrow> string \<Rightarrow> exchange \<Rightarrow> bool" where
  "routine_answer env i head e =
     (case (ex_call e, ex_reply e) of
        (Consult body, Provider (Answered v)) \<Rightarrow>
          jget (jget body ''state'') ''head'' = JStr head \<and>
          (case delivery_veto_request env (ds_model (iv_decision i)) (jget body ''state'') of Inl _ \<Rightarrow> False
           | Inr r \<Rightarrow> body = wire_request r \<and>
               (case validate_response env r v of Inl _ \<Rightarrow> False
                | Inr response \<Rightarrow> (case first_choice response of Inl _ \<Rightarrow> False
                    | Inr (a, p) \<Rightarrow> a = ''routine'' \<and> p \<ge> ad_routine (iv_policy i))))
      | _ \<Rightarrow> False)"

text \<open>At the boundary: the policy is the operator's, the attempt runs, and the intent and its authorization are recorded.\<close>

definition boundary :: "env \<Rightarrow> world \<Rightarrow> invocation \<Rightarrow> string \<Rightarrow> string \<Rightarrow> site \<Rightarrow> bool" where
  "boundary env W i head number v =
     (current_policy env W i v = Ok (Some (iv_policy i)) \<and> active_delivery_attempt i (bn_store (st_depot v)) = Ok () \<and>
      list_ex (\<lambda>m. mi_task m = iv_task i \<and> mi_pr m = number \<and> mi_head m = head \<and>
        (case find_authorization (mi_authorization m) (iv_task i) head (st_depot v) of None \<Rightarrow> False
         | Some z \<Rightarrow> jget (az_data z) ''pr'' = JStr number \<and> jget (az_data z) ''policy_hash'' = JStr (policy_hash env (iv_policy i))))
        (dl_intents (st_depot v)))"

definition is_authority_check :: "outside_call \<Rightarrow> bool" where
  "is_authority_check c = (case c of Check_authority _ \<Rightarrow> True | _ \<Rightarrow> False)"

definition is_launch :: "exchange list \<Rightarrow> bool" where
  "is_launch us = (us \<noteq> [] \<and> length us \<le> 3 \<and> ex_call (last us) = Pause \<and> (\<forall>x \<in> set (butlast us). is_authority_check (ex_call x)))"

text \<open>
  A merge command after the calls \<open>tr\<close> is authorized: the facts, the answer, the facts again, and the
  boundary at the state in which the launch of the command began. What lies between the boundary and the
  command is a launch: at most two questions to the authority of maintenance, then the pause of storage.
\<close>

definition merge_authorized :: "env \<Rightarrow> world \<Rightarrow> invocation \<Rightarrow> exchange list \<Rightarrow> exchange \<Rightarrow> bool" where
  "merge_authorized env W i tr e =
     (\<exists>head number author.
        ex_call e = Gh (ad_program (iv_policy i)) (merge_args i head number) \<and>
        (\<exists>a c b. tr = a @ c # b \<and> facts_read env i head number author a \<and> routine_answer env i head c \<and> facts_read env i head number author b) \<and>
        (\<exists>tr0 x us. tr = tr0 @ x # us \<and> is_launch (x # us) \<and> boundary env W i head number \<lparr>st_depot = ex_depot x, st_trace = tr0\<rparr>))"

lemma answered_within: "answered env i args P tr \<Longrightarrow> answered env i args P (us @ tr @ vs)"
  by (auto simp: answered_def)

lemma facts_read_within: "facts_read env i head number author tr \<Longrightarrow> facts_read env i head number author (us @ tr @ vs)"
  by (auto simp: facts_read_def diff_read_def answered_within)

lemma mergeless_extends: "mergeless m \<Longrightarrow> m v = (v', r) \<Longrightarrow> \<exists>new. st_trace v' = st_trace v @ new"
  unfolding mergeless_def guards_def by blast

lemma outside_run:
  assumes "outside W c v = (v', Ok x)"
  shows "\<exists>e. st_trace v' = st_trace v @ [e] \<and> ex_depot e = st_depot v \<and> ex_call e = c \<and> reply_ok e = Some x"
proof -
  have "wd_reply W (st_trace v) c = Said (Ok x) \<and> st_trace v' = st_trace v @ [\<lparr>ex_depot = st_depot v, ex_call = c, ex_reply = Said (Ok x)\<rparr>]"
    using assms by (auto simp: outside_def bnd_run call_outside_def Let_def pure_def throw_def ask_state_def split: outside_reply.splits)
  then show ?thesis by (intro exI [of _ "\<lparr>ex_depot = st_depot v, ex_call = c, ex_reply = Said (Ok x)\<rparr>"]) (simp add: reply_ok_def)
qed

lemma child_run:
  assumes "run_child W c attempt v = (v', Ok x)"
  shows "\<exists>e. st_trace v' = st_trace v @ [e] \<and> ex_call e = c \<and> reply_ok e = Some x"
  using assms
  by (intro exI [of _ "last (st_trace v')"]) (auto simp: run_child_def Let_def reply_ok_def split: option.splits outside_reply.splits)

lemma redact_nothing: "redact_walk [] v = v"
  by (induction v) (auto simp: redact_values_def intro: map_idI)

text \<open>The command of an automatic delivery: whatever ran before it, its output is the result.\<close>

lemma delivery_command_run:
  assumes "delivery_command env W i c v = (v', Ok out)" and "automatic i"
  shows "\<exists>new e. st_trace v' = st_trace v @ new @ [e] \<and> ex_call e = c \<and> reply_ok e = Some out"
proof -
  from assms obtain task v1 v2 u w where "check_online env W task v = (v1, Ok u)" and "call_outside W Pause v1 = (v2, Ok w)"
    and child: "run_child W c (iv_attempt i) v2 = (v', Ok out)"
    by (auto simp: delivery_command_def run_command_env_def run_process_def bnd_run thn_run ask_run ret_run redact_nothing split: if_splits)
  moreover have "mergeless (call_outside W Pause)" by (rule mergeless_call) (simp add: is_merge_def)
  ultimately obtain n1 n2 where "st_trace v1 = st_trace v @ n1" "st_trace v2 = st_trace v1 @ n2"
    using mergeless_extends mergeless_online by metis
  with child_run [OF child] show ?thesis by (metis append.assoc)
qed

lemma gh_answered:
  assumes "automatic i" and "gh env W i args v = (v', Ok x)" and "P x"
  shows "\<exists>new. st_trace v' = st_trace v @ new \<and> answered env i args P new"
proof -
  from assms(2) obtain v1 out u where online: "check_online env W (iv_task i) v = (v1, Ok u)"
    and out: "delivery_command env W i (Gh (gh_program i) args) v1 = (v', Ok out)" "gh_payload env out = Ok x"
    by (auto simp: gh_def bnd_run thn_run pure_def ask_run)
  from mergeless_extends [OF mergeless_online online] obtain n1 where "st_trace v1 = st_trace v @ n1" by blast
  moreover from delivery_command_run [OF out(1) assms(1)] obtain n2 e where "st_trace v' = st_trace v1 @ n2 @ [e]"
    "ex_call e = Gh (gh_program i) args" "reply_ok e = Some out" by blast
  ultimately have "st_trace v' = st_trace v @ (n1 @ n2 @ [e])" "answered env i args P (n1 @ n2 @ [e])"
    using out(2) assms(3) by (simp_all add: answered_def)
  then show ?thesis by blast
qed

lemma wire_state: "jget (wire_request r) ''state'' = dr_state r"
  by (simp add: wire_request_def jget_jobj)

section \<open>The answer of the service\<close>

lemma same_trace:
  "on_depot m v = (v', x) \<Longrightarrow> st_trace v' = st_trace v" "on_rows n v = (v', y) \<Longrightarrow> st_trace v' = st_trace v"
  by (auto simp: on_rows_def on_depot_def split: prod.splits)

lemma ok_of_run: "ok_of m v = (v', Ok x) \<longleftrightarrow> (\<exists>r. m v = (v', r) \<and> x = (case r of Inl _ \<Rightarrow> None | Inr y \<Rightarrow> Some y))"
  by (auto simp: ok_of_def split: prod.splits sum.splits)

lemma ok_of_Some: "ok_of m v = (v', Ok (Some y)) \<longleftrightarrow> m v = (v', Ok y)"
  by (auto simp: ok_of_def split: prod.splits sum.splits)

lemma send_answered:
  assumes "send_request env W i dec r v = (v', Ok (Inl response))"
  shows "\<exists>c x. st_trace v' = st_trace v @ [c] \<and> ex_call c = Consult (wire_request r) \<and> ex_reply c = Provider (Answered x) \<and>
     validate_response env r x = Ok response"
proof -
  from assms obtain v1 y v2 reply where v1: "ok_of (on_depot (attempt_started dec)) v = (v1, Ok y)"
    and v2: "call_outside W (Consult (wire_request r)) v1 = (v2, Ok reply)"
    and rest: "(case reply of
       Provider (Answered v) \<Rightarrow>
         bnd (ok_of (thn (on_rows (consume_output env (iv_task i) (json_len env v)))
             (thn (guard (json_len env v \<le> 256 * 1024) ''decision response exceeds the size limit'')
                  (pure (validate_response env r v))))) (\<lambda>x.
         ret (case x of None \<Rightarrow> Inr False | Some y \<Rightarrow> Inl y))
     | Provider (Refused code) \<Rightarrow> ret (Inr (retry_status code))
     | Provider (Unreachable again) \<Rightarrow> ret (Inr again)
     | _ \<Rightarrow> ret (Inr False)) v2 = (v', Ok (Inl response))"
    unfolding send_request_def thn_run bnd_run by blast
  from rest obtain x where x: "reply = Provider (Answered x)"
    by (auto simp: ret_def split: outside_reply.splits provider_reply.splits)
  with rest obtain z where z: "ok_of (thn (on_rows (consume_output env (iv_task i) (json_len env x)))
      (thn (guard (json_len env x \<le> 256 * 1024) ''decision response exceeds the size limit'')
           (pure (validate_response env r x)))) v2 = (v', Ok z)" "(case z of None \<Rightarrow> Inr False | Some y \<Rightarrow> Inl y) = Inl response"
    by (auto simp: bnd_run ret_run)
  from z(2) have "z = Some response" by (auto split: option.splits)
  with z(1) obtain v3 where "on_rows (consume_output env (iv_task i) (json_len env x)) v2 = (v3, Ok ())"
    and "validate_response env r x = Ok response" and "v' = v3"
    by (auto simp: ok_of_Some thn_run guard_run pure_def ask_run)
  moreover have "st_trace v1 = st_trace v" using v1 by (auto simp: ok_of_run dest: same_trace)
  ultimately have "st_trace v' = st_trace v @ [last (st_trace v')] \<and> ex_call (last (st_trace v')) = Consult (wire_request r) \<and>
      ex_reply (last (st_trace v')) = Provider (Answered x) \<and> validate_response env r x = Ok response"
    using v2 x by (auto simp: call_outside_def Let_def dest: same_trace)
  then show ?thesis by blast
qed

lemma consult_answered:
  "consult env W i dec r n sent v = (v', Ok (Inl (response, k))) \<Longrightarrow>
     \<exists>a c x. st_trace v' = st_trace v @ a @ [c] \<and> ex_call c = Consult (wire_request r) \<and> ex_reply c = Provider (Answered x) \<and>
       validate_response env r x = Ok response"
proof (induction n arbitrary: sent v)
  case 0
  then show ?case by (simp add: ret_def)
next
  case (Suc n)
  from Suc.prems obtain v1 ok v2 outcome where v1: "ok_of (prepare_request env W i (wire_request r)) v = (v1, Ok ok)"
    and v2: "send_request env W i dec r v1 = (v2, Ok outcome)"
    and rest: "(case outcome of
         Inl response \<Rightarrow> ret (Inl (response, Suc sent))
       | Inr again \<Rightarrow>
           bnd (ask_state (\<lambda>v. Ok (again \<and> n > 0 \<and> wd_patient W (st_trace v)))) (\<lambda>go.
           if go then consult env W i dec r n (Suc sent) else ret (Inr (Suc sent)))) v2 = (v', Ok (Inl (response, k)))"
    by (auto simp: bnd_run ret_run split: if_splits)
  obtain n1 where n1: "st_trace v1 = st_trace v @ n1"
    using mergeless_extends [OF mergeless_attempted [OF mergeless_send(2)] v1] by blast
  show ?case
  proof (cases outcome)
    case (Inl y)
    with rest have "y = response" "v' = v2" by (auto simp: ret_run)
    with send_answered [of env W i dec r v1 v2 response] v2 Inl n1 show ?thesis by (metis append.assoc)
  next
    case (Inr again)
    with rest have go: "consult env W i dec r n (Suc sent) v2 = (v', Ok (Inl (response, k)))"
      by (auto simp: bnd_run ask_run ret_run split: if_splits)
    obtain n2 where "st_trace v2 = st_trace v1 @ n2" using mergeless_extends [OF mergeless_send(1) v2] by blast
    with Suc.IH [OF go] n1 show ?thesis by (metis append.assoc)
  qed
qed

lemma veto_answered:
  assumes "decision_veto env W i facts (ad_routine (iv_policy i)) v = (v', Ok dec)" and "jget facts ''head'' = JStr head"
  shows "\<exists>a c. st_trace v' = st_trace v @ a @ [c] \<and> routine_answer env i head c"
proof -
  let ?d = "iv_decision i"
  let ?rest = "\<lambda>dec outcome. case outcome of
        Inr sent \<Rightarrow>
          thn (on_depot (finish_decision env dec ''failed'' ''provider_unavailable'' (int sent)))
              (throw ''delivery decision-model veto unavailable'')
      | Inl (response, sent) \<Rightarrow>
          bnd (pure (first_choice response)) (\<lambda>(answer, p).
          bnd (ask_state (\<lambda>v. Ok (wd_elapsed W (st_trace v)))) (\<lambda>ms.
          thn (on_depot (complete_decision env dec \<lparr>cp_result = response_json response, cp_proposed = Some answer,
                 cp_abstention = (answer \<noteq> ''routine''), cp_provider_ms = ms, cp_attempts = int sent,
                 cp_usage = jget (response_json response) ''usage''\<rparr>))
         (thn (guard (answer = ''routine'' \<and> p \<ge> ad_routine (iv_policy i)) ''decision model escalated automatic delivery'')
              (ret dec))))"
  from assms(1) obtain r dec' v1 v2 outcome where r: "delivery_veto_request env (ds_model ?d) facts = Ok r"
    and v1: "st_trace v1 = st_trace v" and d: "decide env W i dec' r v1 = (v2, Ok outcome)"
    and rest: "?rest dec' outcome v2 = (v', Ok dec)"
    unfolding decision_veto_def Let_def bnd_run thn_run guard_run pure_def ask_run by (auto dest!: same_trace)
  obtain response k where out: "outcome = Inl (response, k)"
    using rest by (cases outcome) (auto simp: thn_run throw_run)
  with rest obtain p where p: "first_choice response = Ok (''routine'', p)" "p \<ge> ad_routine (iv_policy i)" and v': "st_trace v' = st_trace v2"
    by (auto simp: bnd_run thn_run guard_run ret_run pure_def ask_run dest!: same_trace)
  note d = d [unfolded out]
  from d have "consult env W i dec' r (ds_attempts ?d) 0 v1 = (v2, Ok (Inl (response, k)))"
    by (auto simp: decide_def ret_run split: if_splits)
  from consult_answered [OF this] obtain a c x where c: "st_trace v2 = st_trace v1 @ a @ [c]" "ex_call c = Consult (wire_request r)"
    "ex_reply c = Provider (Answered x)" "validate_response env r x = Ok response" by blast
  have "dr_state r = facts" using r by (auto simp: delivery_veto_request_def and_then_Ok_iff Let_def)
  then have "routine_answer env i head c"
    using c r p assms(2) by (simp add: routine_answer_def wire_state)
  with v1 v' c show ?thesis by (intro exI [of _ a] exI [of _ c]) simp
qed

section \<open>The facts\<close>

lemma manifest_read:
  assumes "routine_manifest W (de_base (iv_delivery i)) head v = (v', Ok (paths, m))" and "is_ok (preflight_snapshot env i head (st_depot v))"
    and "validate_paths paths (ad_paths (iv_policy i)) = Ok ()"
  shows "\<exists>new. st_trace v' = st_trace v @ new \<and> diff_read env i head new"
proof -
  from assms(1) have out: "outside W (Diff_manifest (''refs/remotes/origin/'' @ de_base (iv_delivery i)) head) v = (v', Ok m)"
    and paths: "routine_paths m = Ok paths"
    by (auto simp: routine_manifest_def bnd_run pure_def ask_run ret_run)
  from outside_run [OF out] paths assms(2,3) show ?thesis by (fastforce simp: diff_read_def)
qed

lemma routine_manifest_paths: "routine_manifest W base head v = (v', Ok (paths, m)) \<Longrightarrow> routine_paths m = Ok paths"
  by (auto simp: routine_manifest_def bnd_run pure_def ask_run ret_run)

lemma base_read:
  assumes auto: "automatic i" and run: "base_oid env W i v = (v', Ok b)"
  shows "\<exists>new. st_trace v' = st_trace v @ new \<and>
     answered env i [''api'', branch_endpoint (de_repository (iv_delivery i)) (de_base (iv_delivery i)) @ ''/protection'']
       (\<lambda>v. strict_protection v (iv_policy i)) new"
proof -
  let ?e = "branch_endpoint (de_repository (iv_delivery i)) (de_base (iv_delivery i))"
  from run obtain v1 v2 x y z where v1: "git_read W [''rev-parse'', ''--verify'', ''refs/remotes/origin/'' @ de_base (iv_delivery i) @ ''^{commit}''] v = (v1, Ok x)"
    and v2: "gh env W i [''api'', ?e] v1 = (v2, Ok y)" and v3: "gh env W i [''api'', ?e @ ''/protection''] v2 = (v', Ok z)"
    and z: "strict_protection z (iv_policy i)"
    by (auto simp: base_oid_def Let_def bnd_run thn_run guard_run pure_def ask_run ret_run)
  obtain n1 n2 where "st_trace v1 = st_trace v @ n1" "st_trace v2 = st_trace v1 @ n2"
    using mergeless_extends [OF mergeless_git v1] mergeless_extends [OF mergeless_api v2] by blast
  moreover obtain n3 where "st_trace v' = st_trace v2 @ n3"
    and "answered env i [''api'', ?e @ ''/protection''] (\<lambda>v. strict_protection v (iv_policy i)) n3"
    using gh_answered [OF auto v3, of "\<lambda>v. strict_protection v (iv_policy i)"] z by blast
  ultimately show ?thesis using answered_within [of env i _ _ n3 "n1 @ n2" "[]"] by (intro exI [of _ "n1 @ n2 @ n3"]) simp
qed

lemma pr_read:
  assumes "automatic i" and "pr_view env W i number pr_fields v = (v', Ok pr)" "same_pr i head number pr" "pr_author pr = Some author"
  shows "\<exists>new. st_trace v' = st_trace v @ new \<and>
     answered env i [''pr'', ''view'', number, ''--repo'', de_repository (iv_delivery i), ''--json'', pr_fields]
        (\<lambda>pr. same_pr i head number pr \<and> pr_author pr = Some author) new"
  using gh_answered [of i env W _ v v' pr "\<lambda>pr. same_pr i head number pr \<and> pr_author pr = Some author"] assms unfolding pr_view_def by blast

lemma runs_read:
  assumes "automatic i" and "required_runs env W i head v = (v', Ok c)"
  shows "\<exists>new. st_trace v' = st_trace v @ new \<and>
     answered env i [''api'', checks_endpoint i head] (\<lambda>v. is_ok (check_runs v head (ad_checks (iv_policy i)))) new"
  using assms gh_answered [of i env W "[''api'', checks_endpoint i head]" v v' _ "\<lambda>v. is_ok (check_runs v head (ad_checks (iv_policy i)))"]
  by (auto simp: required_runs_def bnd_run pure_def ask_run)

lemma approvals_read:
  assumes "automatic i" and "required_approvals env W i head number author v = (v', Ok c)"
  shows "\<exists>new. st_trace v' = st_trace v @ new \<and>
     answered env i [''api'', reviews_endpoint i number] (\<lambda>v. is_ok (approvals v head author (ad_approvals (iv_policy i)))) new"
  using assms gh_answered [of i env W "[''api'', reviews_endpoint i number]" v v' _ "\<lambda>v. is_ok (approvals v head author (ad_approvals (iv_policy i)))"]
  by (auto simp: required_approvals_def bnd_run pure_def ask_run)

text \<open>The five reads in their order, whatever is read in between.\<close>

lemma facts_from_reads:
  assumes "diff_read env i head n1"
    and "answered env i [''pr'', ''view'', number, ''--repo'', de_repository (iv_delivery i), ''--json'', pr_fields]
        (\<lambda>pr. same_pr i head number pr \<and> pr_author pr = Some author) n2"
    and "answered env i [''api'', branch_endpoint (de_repository (iv_delivery i)) (de_base (iv_delivery i)) @ ''/protection'']
        (\<lambda>v. strict_protection v (iv_policy i)) n3"
    and "answered env i [''api'', checks_endpoint i head] (\<lambda>v. is_ok (check_runs v head (ad_checks (iv_policy i)))) n4"
    and "answered env i [''api'', reviews_endpoint i number] (\<lambda>v. is_ok (approvals v head author (ad_approvals (iv_policy i)))) n5"
    and "set n1 \<union> set n2 \<union> set n3 \<union> set n4 \<union> set n5 \<subseteq> set tr"
  shows "facts_read env i head number author tr"
  using assms unfolding facts_read_def diff_read_def answered_def list_ex_iff by blast

lemma policy_now_run: "policy_now env W i v = (v', Ok p) \<Longrightarrow> v' = v \<and> p = iv_policy i"
  by (auto simp: policy_now_def ask_run current_policy_def and_then_Ok_iff context_of_Ok_iff split: if_splits)

lemma recheck_reads:
  assumes auto: "automatic i" and run: "recheck env W i head number author base_sha manifest pr checks approved v = (v', Ok u)"
    and pr: "same_pr i head number pr" "pr_author pr = Some author"
    and paths: "routine_paths manifest = Ok paths" "validate_paths paths (ad_paths (iv_policy i)) = Ok ()"
  shows "\<exists>new. st_trace v' = st_trace v @ new \<and> facts_read env i head number author new"
proof -
  from run obtain v1 u1 snap v2 p2 v3 v4 v5 where
    r1: "clean_workspace W head v = (v1, Ok u1)" and snap: "preflight_snapshot env i head (st_depot v1) = Ok snap"
    and r2: "routine_manifest W (de_base (iv_delivery i)) head v1 = (v2, Ok (p2, manifest))"
    and r3: "base_oid env W i v2 = (v3, Ok base_sha)" and r4: "pr_view env W i number pr_fields v3 = (v4, Ok pr)"
    and r5: "required_runs env W i head v4 = (v5, Ok checks)"
    and r6: "required_approvals env W i head number author v5 = (v', Ok approved)"
    by (auto simp: recheck_def bnd_run thn_run guard_run ask_depot_def ask_rows_def ask_run dest!: policy_now_run)
  have "p2 = paths" using routine_manifest_paths [OF r2] paths(1) by simp
  note r2 = r2 [unfolded this]
  obtain n1 where n1: "st_trace v1 = st_trace v @ n1" using mergeless_extends [OF mergeless_checks(1) r1] by blast
  obtain n2 where n2: "st_trace v2 = st_trace v1 @ n2" "diff_read env i head n2" using manifest_read [OF r2 _ paths(2), of env] snap by auto
  obtain n3 where n3: "st_trace v3 = st_trace v2 @ n3" and b3: "answered env i [''api'', branch_endpoint (de_repository (iv_delivery i)) (de_base (iv_delivery i)) @ ''/protection'']
        (\<lambda>v. strict_protection v (iv_policy i)) n3" using base_read [OF auto r3] by blast
  obtain n4 where n4: "st_trace v4 = st_trace v3 @ n4" and b4: "answered env i [''pr'', ''view'', number, ''--repo'', de_repository (iv_delivery i), ''--json'', pr_fields]
        (\<lambda>pr. same_pr i head number pr \<and> pr_author pr = Some author) n4" using pr_read [OF auto r4 pr] by blast
  obtain n5 where n5: "st_trace v5 = st_trace v4 @ n5" and b5: "answered env i [''api'', checks_endpoint i head]
        (\<lambda>v. is_ok (check_runs v head (ad_checks (iv_policy i)))) n5" using runs_read [OF auto r5] by blast
  obtain n6 where n6: "st_trace v' = st_trace v5 @ n6" and b6: "answered env i [''api'', reviews_endpoint i number]
        (\<lambda>v. is_ok (approvals v head author (ad_approvals (iv_policy i)))) n6" using approvals_read [OF auto r6] by blast
  have "facts_read env i head number author (n1 @ n2 @ n3 @ n4 @ n5 @ n6)"
    by (rule facts_from_reads [OF n2(2) b4 b3 b5 b6]) auto
  moreover have "st_trace v' = st_trace v @ (n1 @ n2 @ n3 @ n4 @ n5 @ n6)" using n1 n2(1) n3 n4 n5 n6 by simp
  ultimately show ?thesis by blast
qed

text \<open>A successful authorization read the facts, heard the service, and read the facts again.\<close>

lemma authorize_reads:
  assumes auto: "automatic i" and run: "authorize_merge env W i head number v = (v', Ok z)"
  shows "\<exists>author a c b. st_trace v' = st_trace v @ a @ c # b \<and> facts_read env i head number author a \<and> routine_answer env i head c \<and>
    facts_read env i head number author b \<and> as_str (jget z ''head'') = Some head"
proof -
  from run obtain environment v1 u1 review v2 paths manifest pr v3 author v4 base_sha v5 checks v6 approved redacted v7 dec v8 u8 where
    r1: "clean_workspace W head v = (v1, Ok u1)" and snap: "preflight_snapshot env i head (st_depot v1) = Ok review"
    and r2: "routine_manifest W (de_base (iv_delivery i)) head v1 = (v2, Ok (paths, manifest))"
    and ok: "validate_paths paths (ad_paths (iv_policy i)) = Ok ()"
    and r3: "pr_view env W i number pr_fields v2 = (v3, Ok pr)" and pr: "same_pr i head number pr" "pr_author pr = Some author"
    and r4: "base_oid env W i v3 = (v4, Ok base_sha)"
    and r5: "required_runs env W i head v4 = (v5, Ok checks)"
    and r6: "required_approvals env W i head number author v5 = (v6, Ok approved)"
    and veto: "decision_veto env W i (delivery_facts i head base_sha environment paths redacted checks approved review) (ad_routine (iv_policy i)) v6 = (v7, Ok dec)"
    and again: "recheck env W i head number author base_sha manifest pr checks approved v7 = (v8, Ok u8)"
    and v': "st_trace v' = st_trace v8" and z: "as_str (jget z ''head'') = Some head"
    by (auto simp: authorize_merge_def Let_def bnd_run thn_run guard_run ask_depot_def ask_rows_def ask_run pure_def context_of_Ok_iff
        pr_author_def ret_run jget_jobj dest!: policy_now_run same_trace)
  obtain n1 where n1: "st_trace v1 = st_trace v @ n1" using mergeless_extends [OF mergeless_checks(1) r1] by blast
  obtain n2 where n2: "st_trace v2 = st_trace v1 @ n2" "diff_read env i head n2" using manifest_read [OF r2 _ ok, of env] snap by auto
  obtain n3 where n3: "st_trace v3 = st_trace v2 @ n3" and b3: "answered env i [''pr'', ''view'', number, ''--repo'', de_repository (iv_delivery i), ''--json'', pr_fields]
        (\<lambda>pr. same_pr i head number pr \<and> pr_author pr = Some author) n3" using pr_read [OF auto r3 pr] by blast
  obtain n4 where n4: "st_trace v4 = st_trace v3 @ n4" and b4: "answered env i [''api'', branch_endpoint (de_repository (iv_delivery i)) (de_base (iv_delivery i)) @ ''/protection'']
        (\<lambda>v. strict_protection v (iv_policy i)) n4" using base_read [OF auto r4] by blast
  obtain n5 where n5: "st_trace v5 = st_trace v4 @ n5" and b5: "answered env i [''api'', checks_endpoint i head]
        (\<lambda>v. is_ok (check_runs v head (ad_checks (iv_policy i)))) n5" using runs_read [OF auto r5] by blast
  obtain n6 where n6: "st_trace v6 = st_trace v5 @ n6" and b6: "answered env i [''api'', reviews_endpoint i number]
        (\<lambda>v. is_ok (approvals v head author (ad_approvals (iv_policy i)))) n6" using approvals_read [OF auto r6] by blast
  obtain n7 c where n7: "st_trace v7 = st_trace v6 @ n7 @ [c]" "routine_answer env i head c"
    using veto_answered [OF veto, of head] by (auto simp: delivery_facts_def jget_jobj)
  obtain n8 where n8: "st_trace v8 = st_trace v7 @ n8" "facts_read env i head number author n8"
    using recheck_reads [OF auto again pr routine_manifest_paths [OF r2] ok] by blast
  let ?a = "n1 @ n2 @ n3 @ n4 @ n5 @ n6 @ n7"
  have "facts_read env i head number author ?a"
    by (rule facts_from_reads [OF n2(2) b3 b4 b5 b6]) auto
  moreover have "st_trace v' = st_trace v @ ?a @ c # n8" using v' n1 n2(1) n3 n4 n5 n6 n7(1) n8(1) by simp
  ultimately show ?thesis using n7(2) n8(2) z by blast
qed

section \<open>The boundary\<close>

lemma save_tables:
  "save env i name st data v = (v', r) \<Longrightarrow> \<exists>s. st_depot v' = (st_depot v)\<lparr>bn_store := s\<rparr> \<and> st_trace v' = st_trace v"
  by (auto simp: save_def on_rows_def on_depot_def on_bench_def split: prod.splits)

lemma intent_recorded:
  assumes "record_merge_intent i a number head t = (t', Ok u)"
  shows "\<exists>m z. as_str (jget a ''id'') = Some (mi_authorization m) \<and> m \<in> set (dl_intents t') \<and> mi_task m = iv_task i \<and> mi_pr m = number \<and> mi_head m = head \<and>
    find_authorization (mi_authorization m) (iv_task i) head t' = Some z \<and> jget (az_data z) ''pr'' = JStr number"
proof -
  from assms obtain key z m where key: "as_str (jget a ''id'') = Some key" and z: "find_authorization key (iv_task i) head t = Some z"
    "jget (az_data z) ''pr'' = JStr number"
    and t': "t' = insert_intent \<lparr>mi_task = iv_task i, mi_authorization = key, mi_pr = number, mi_head = head\<rparr> t"
    and m: "find (\<lambda>m. mi_task m = iv_task i) (dl_intents t') = Some m" "mi_authorization m = key" "mi_pr m = number" "mi_head m = head"
    by (auto simp: record_merge_intent_def runs context_of_Ok_iff)
  have "dl_authorizations t' = dl_authorizations t" by (simp add: t' insert_intent_def)
  with key z m show ?thesis by (auto simp: find_authorization_def find_Some_iff in_set_conv_nth)
qed

text \<open>
  \<open>calls_after v us v'\<close>: from \<open>v\<close> the calls \<open>us\<close> were made, and the tables were as in \<open>v\<close> at the first.
\<close>

definition calls_after :: "site \<Rightarrow> exchange list \<Rightarrow> site \<Rightarrow> bool" where
  "calls_after v us v' = (st_trace v' = st_trace v @ us \<and> (if us = [] then v' = v else ex_depot (hd us) = st_depot v))"

lemma calls_trans: "calls_after v us w \<Longrightarrow> calls_after w vs x \<Longrightarrow> calls_after v (us @ vs) x"
  by (cases us) (auto simp: calls_after_def)

lemma online_calls:
  assumes "check_online env W task v = (v', Ok u)"
  shows "\<exists>us. calls_after v us v' \<and> length us \<le> 1 \<and> (\<forall>x \<in> set us. is_authority_check (ex_call x))"
proof -
  have "v' = v \<or> (\<exists>x. st_trace v' = st_trace v @ [x] \<and> ex_depot x = st_depot v \<and> is_authority_check (ex_call x))"
    using assms
    by (auto simp: check_online_def ask_rows_def ask_depot_def bnd_run thn_run ask_run guard_run pure_def ret_run call_outside_def Let_def is_authority_check_def
        split: option.splits)
  then show ?thesis
  proof
    assume "v' = v"
    then show ?thesis by (intro exI [of _ "[]"]) (simp add: calls_after_def)
  next
    assume "\<exists>x. st_trace v' = st_trace v @ [x] \<and> ex_depot x = st_depot v \<and> is_authority_check (ex_call x)"
    then obtain x where "st_trace v' = st_trace v @ [x]" "ex_depot x = st_depot v" "is_authority_check (ex_call x)" by blast
    then show ?thesis by (intro exI [of _ "[x]"]) (simp add: calls_after_def)
  qed
qed

lemma pause_calls: "call_outside W Pause v = (v', r) \<Longrightarrow> \<exists>p. calls_after v [p] v' \<and> ex_call p = Pause"
  by (auto simp: calls_after_def call_outside_def Let_def)

lemma is_launch_calls:
  assumes "length us \<le> 1" "length vs \<le> 1" and "\<forall>x \<in> set us. is_authority_check (ex_call x)"
    "\<forall>x \<in> set vs. is_authority_check (ex_call x)" and "ex_call p = Pause"
  shows "is_launch (us @ vs @ [p])"
  using assms by (auto simp: is_launch_def butlast_append)

lemma guards_child:
  assumes "\<And>r. Q (st_trace v) \<lparr>ex_depot = st_depot v, ex_call = c, ex_reply = r\<rparr>"
  shows "guards Q (run_child W c attempt) v"
  by (rule guardsI) (auto simp: run_child_def Let_def append_eq_Cons_conv Cons_eq_append_conv assms)

text \<open>The command of an automatic delivery starts after a launch, which began in the state the command was given in.\<close>

lemma guards_command:
  assumes auto: "automatic i"
    and launched: "\<And>us t r. is_launch us \<Longrightarrow> ex_depot (hd us) = st_depot v \<Longrightarrow>
      Q (st_trace v @ us) \<lparr>ex_depot = t, ex_call = Gh (gh_program i) args, ex_reply = r\<rparr>"
  shows "guards Q (gh env W i args) v"
  unfolding gh_def delivery_command_def if_P [OF auto] run_command_env_def run_process_def
proof (intro guards_thn guards_bnd)
  fix u1 v1 task v2 u3 v3 u4 v4
  assume r1: "check_online env W (iv_task i) v = (v1, Ok u1)" and r2: "ask_state (command_owner W (iv_attempt i)) v1 = (v2, Ok task)"
    and r3: "check_online env W task v2 = (v3, Ok u3)" and r4: "call_outside W Pause v3 = (v4, Ok u4)"
  have "v2 = v1" using r2 by (simp add: ask_run)
  with online_calls [OF r1] online_calls [OF r3] pause_calls [OF r4] obtain us vs p where
    calls: "calls_after v us v1" "calls_after v1 vs v3" "calls_after v3 [p] v4" and us: "is_launch (us @ vs @ [p])"
    by (metis is_launch_calls)
  have all: "calls_after v (us @ vs @ [p]) v4" by (rule calls_trans [OF calls(1) calls_trans [OF calls(2,3)]])
  have "st_trace v4 = st_trace v @ (us @ vs @ [p])" "ex_depot (hd (us @ vs @ [p])) = st_depot v"
    using all by (auto simp: calls_after_def split: if_splits)
  with launched [OF us] have "Q (st_trace v4) \<lparr>ex_depot = st_depot v4, ex_call = Gh (gh_program i) args, ex_reply = r\<rparr>" for r
    by simp
  then show "guards Q (run_child W (Gh (gh_program i) args) (iv_attempt i)) v4" by (rule guards_child)
qed (intro mergeless_guards mergeless_rules; simp add: is_merge_def)+

lemma boundary_holds:
  assumes "record_merge_intent i a number head t = (t', Ok u)" and "st_depot v = t'\<lparr>bn_store := s\<rparr>"
    and "validate_merge_boundary env W i a v = Ok ()" and "as_str (jget a ''head'') = Some head"
  shows "boundary env W i head number v"
proof -
  from intent_recorded [OF assms(1)] obtain m z where m: "as_str (jget a ''id'') = Some (mi_authorization m)" "m \<in> set (dl_intents t')"
    "mi_task m = iv_task i" "mi_pr m = number" "mi_head m = head" "find_authorization (mi_authorization m) (iv_task i) head t' = Some z"
    "jget (az_data z) ''pr'' = JStr number" by blast
  have "dl_intents (st_depot v) = dl_intents t'" "find_authorization k y h (st_depot v) = find_authorization k y h t'" for k y h
    by (simp_all add: assms(2) find_authorization_def)
  with m assms(3,4) show ?thesis
    by (auto simp: boundary_def validate_merge_boundary_def and_then_Ok_iff context_of_Ok_iff list_ex_iff current_policy_def
        split: if_splits intro!: bexI [of _ m])
qed

lemma merge_authorizedI:
  assumes "ex_call e = Gh (ad_program (iv_policy i)) (merge_args i head number)" and "tr = a @ c # b"
    and "facts_read env i head number author a" "routine_answer env i head c" "facts_read env i head number author b"
    and "tr = tr0 @ x # us" "is_launch (x # us)" "boundary env W i head number \<lparr>st_depot = ex_depot x, st_trace = tr0\<rparr>"
  shows "merge_authorized env W i tr e"
  using assms unfolding merge_authorized_def by blast

lemma merge_guarded:
  assumes auto: "automatic i"
  shows "guards (merge_authorized env W i) (merge_pr env W i head number) v"
proof -
  let ?Q = "merge_authorized env W i" and ?args = "merge_args i head number"
  have on: "ad_enabled (iv_policy i)" "gh_program i = ad_program (iv_policy i)" using auto by (simp_all add: automatic_def gh_program_def)
  show ?thesis unfolding merge_pr_def if_P [OF on(1)]
  proof (rule guards_bnd)
    show "guards ?Q (bnd (authorize_merge env W i head number) (\<lambda>a. ret (Some a))) v" by (intro mergeless_guards mergeless_rules)
    fix x v1 assume "bnd (authorize_merge env W i head number) (\<lambda>a. ret (Some a)) v = (v1, Ok x)"
    then obtain z where x: "x = Some z" and "authorize_merge env W i head number v = (v1, Ok z)" by (auto simp: bnd_run ret_run)
    from authorize_reads [OF auto this(2)] obtain author a c b where tr1: "st_trace v1 = st_trace v @ a @ c # b"
      and facts: "facts_read env i head number author a" "facts_read env i head number author b"
      and yes: "routine_answer env i head c" and z: "as_str (jget z ''head'') = Some head" by blast
    show "guards ?Q (thn (case x of None \<Rightarrow> ret () | Some a \<Rightarrow> on_depot (record_merge_intent i a number head))
      (thn (save env i ''merge'' ''intent'' (jobj [(''pr'', JStr number), (''head'', JStr head), (''authorization'', unwrap_or x JNull)]))
      (thn (case x of None \<Rightarrow> ret () | Some a \<Rightarrow> ask_state (validate_merge_boundary env W i a))
      (thn (gh env W i ?args) (ret ()))))) v1"
      unfolding x option.case
    proof (intro guards_thn)
      fix u2 v2 u3 v3 u4 v4
      assume r2: "on_depot (record_merge_intent i z number head) v1 = (v2, Ok u2)"
        and r3: "save env i ''merge'' ''intent'' (jobj [(''pr'', JStr number), (''head'', JStr head), (''authorization'', unwrap_or (Some z) JNull)]) v2 = (v3, Ok u3)"
        and r4: "ask_state (validate_merge_boundary env W i z) v3 = (v4, Ok u4)"
      from r4 have v4: "v4 = v3" and valid: "validate_merge_boundary env W i z v3 = Ok ()" by (auto simp: ask_run)
      from r2 have "record_merge_intent i z number head (st_depot v1) = (st_depot v2, Ok u2)" by (auto simp: on_depot_def split: prod.splits)
      moreover from save_tables [OF r3] obtain s where s: "st_depot v3 = (st_depot v2)\<lparr>bn_store := s\<rparr>" and tr3: "st_trace v3 = st_trace v2" by blast
      ultimately have bound: "boundary env W i head number v3" by (intro boundary_holds [OF _ s valid z])
      have tr: "st_trace v3 = (st_trace v @ a) @ c # b" using tr3 same_trace(1) [OF r2] tr1 by simp
      have facts_a: "facts_read env i head number author (st_trace v @ a)" using facts_read_within [OF facts(1), of "st_trace v" "[]"] by simp
      show "guards ?Q (gh env W i ?args) v4" unfolding v4
      proof (rule guards_command [OF auto], unfold on(2))
        fix us t r assume us: "is_launch us" "ex_depot (hd us) = st_depot v3"
        then obtain x xs where xs: "us = x # xs" by (cases us) (auto simp: is_launch_def)
        have facts_b: "facts_read env i head number author (b @ us)" using facts_read_within [OF facts(2), of "[]" us] by simp
        have split: "st_trace v3 @ us = (st_trace v @ a) @ c # (b @ us)" using tr by simp
        have "boundary env W i head number \<lparr>st_depot = ex_depot x, st_trace = st_trace v3\<rparr>" using bound us(2) xs by (cases v3) simp
        then show "?Q (st_trace v3 @ us) \<lparr>ex_depot = t, ex_call = Gh (ad_program (iv_policy i)) ?args, ex_reply = r\<rparr>"
          using us(1) xs by (intro merge_authorizedI [OF _ split facts_a yes facts_b]) simp_all
      qed
    qed (intro mergeless_guards mergeless_rules)+
  qed
qed

lemma deliver_guarded:
  assumes "automatic i"
  shows "guards (merge_authorized env W i) (deliver_pr env W i head pr) v"
  unfolding deliver_pr_def Let_def
proof (intro guards_thn guards_bnd mergeless_guards [OF mergeless_save])
  fix n u
  let ?Q = "merge_authorized env W i" and ?open = "jget pr ''state'' \<noteq> JStr ''MERGED''"
  show "guards ?Q (if ?open \<and> \<not> de_merge (iv_delivery i)
      then ret (jobj [(''result'', jget pr ''url''), (''accepted'', JBool True), (''delivery'', JStr ''pr_ready'')])
      else thn (when_op ?open (merge_pr env W i head (show_int n))) (bnd (confirm_merge env W i head (show_int n)) (after_merge env W i))) w" for w
  proof (cases "?open \<and> \<not> de_merge (iv_delivery i)")
    case False
    have "guards ?Q (when_op ?open (merge_pr env W i head (show_int n))) w"
      by (cases ?open) (simp_all add: when_op_def merge_guarded [OF assms] mergeless_guards mergeless_leaves)
    then have "guards ?Q (thn (when_op ?open (merge_pr env W i head (show_int n))) (bnd (confirm_merge env W i head (show_int n)) (after_merge env W i))) w"
      by (rule guards_thn) (intro mergeless_guards mergeless_rules)
    then show ?thesis unfolding if_not_P [OF False] .
  qed (unfold if_P, intro mergeless_guards mergeless_rules)
qed (intro mergeless_guards mergeless_rules mergeless_gh; simp)+

section \<open>Properties\<close>

text \<open>
  C40. Automatic delivery merges only what it was authorized to merge. In every delivery of a task with
  automatic delivery, whatever the commands, the addresses and the decision service answer and
  whatever else happens to the tables meanwhile, each merge command is the one of the operator's program
  for one pull request and one head, and the calls before it show: the complete diff was read with a
  preflight review that holds for the head, all its paths allowed and none sensitive; the pull request
  was open at that head; the base was strictly protected; every required check had succeeded at that
  head and enough others had approved it; then the decision service called that change routine
  with enough confidence, and after its answer all of these facts were read again. When the launch of
  the command began, the operator's policy was in force and qualified, the attempt was running, and
  the intent and its authorization were recorded for this pull request, head and policy. Between
  that boundary and the command lies only the launch itself: at most two questions to the authority
  of maintenance and the pause of storage, while which other parts may still change the tables.
\<close>

theorem merge_only_authorized:
  assumes "execute_delivery env W i \<lparr>st_depot = d, st_trace = []\<rparr> = (v, r)" and "automatic i"
    and "st_trace v = pre @ e # post" and "is_merge (ex_call e)"
  shows "merge_authorized env W i pre e"
proof -
  have "guards (merge_authorized env W i) (execute_delivery env W i) \<lparr>st_depot = d, st_trace = []\<rparr>"
    unfolding execute_delivery_def Let_def
    by (intro guards_thn guards_bnd deliver_guarded [OF assms(2)] mergeless_guards mergeless_rules mergeless_gh) simp_all
  then show ?thesis using assms(1,3,4) unfolding guards_def by fastforce
qed

end
