(* ===== verification/Delivery_Examples.thy ===== *)
theory Delivery_Examples
  imports Delivery_Facts
begin

text \<open>
  A reviewed task with automatic delivery that reaches its merge command: the witness of
  \<open>Delivery_Facts\<close>. The checks of the concrete settings, tables and replies are computed; the
  operations between them are followed with a small logic of runs (\<open>succeeds\<close>, \<open>stops\<close>).
\<close>

section \<open>The task and its settings\<close>

definition shop_digest :: string where
  "shop_digest = replicate 64 CHR ''a''"

definition shop_policy :: delivery_policy where
  "shop_policy = \<lparr>ad_enabled = True, ad_program = ''/gh'', ad_repositories = [''o/r''], ad_bases = [''main''], ad_environments = [''prod''],
     ad_workflows = [''deploy''], ad_paths = [''src''], ad_checks = [''ci''], ad_approvals = 1, ad_independent = True,
     ad_version_url = Some ''https://v'', ad_smoke_url = Some ''https://s'', ad_qualification = ''q'', ad_routine = 3 / 4,
     ad_confidence = 3 / 4, ad_package = None\<rparr>"

definition shop_decision :: decision_settings where
  "shop_decision = default_decision\<lparr>ds_mode := DecisionShadow, ds_base_url := ''https://d'', ds_key_env := ''KEY''\<rparr>"

definition shop_invocation :: invocation where
  "shop_invocation = \<lparr>iv_task = ''t'', iv_step = ''s2'', iv_attempt = ''a2'', iv_instructions = ''ship it'',
     iv_delivery = \<lparr>de_program = None, de_enabled = True, de_repository = ''o/r'', de_base = ''main'', de_merge = True,
       de_workflow = Some ''deploy'', de_health = None, de_environment = Some ''prod''\<rparr>,
     iv_policy = shop_policy, iv_decision = shop_decision\<rparr>"

section \<open>What the world says\<close>

definition shop_pr :: json where
  "shop_pr = jobj [(''number'', JInt 7), (''state'', JStr ''OPEN''), (''headRefOid'', JStr ''h''), (''baseRefName'', JStr ''main''),
     (''author'', jobj [(''login'', JStr ''bot'')])]"

definition shop_protection :: json where
  "shop_protection = jobj [(''required_status_checks'', jobj [(''strict'', JBool True), (''contexts'', JArr [JStr ''ci''])]),
     (''enforce_admins'', jobj [(''enabled'', JBool True)]),
     (''required_pull_request_reviews'', jobj [(''required_approving_review_count'', JInt 1),
        (''bypass_pull_request_allowances'', jobj [(''users'', JArr []), (''teams'', JArr []), (''apps'', JArr [])])])]"

definition shop_checks :: json where
  "shop_checks = jobj [(''total_count'', JInt 1), (''check_runs'', JArr [jobj [(''id'', JInt 3), (''name'', JStr ''ci''), (''head_sha'', JStr ''h''),
     (''status'', JStr ''completed''), (''conclusion'', JStr ''success'')]])]"

definition shop_reviews :: json where
  "shop_reviews = JArr [jobj [(''id'', JInt 5), (''user'', jobj [(''login'', JStr ''ann'')]), (''submitted_at'', JStr ''2025''),
     (''state'', JStr ''APPROVED''), (''commit_id'', JStr ''h'')]]"

definition shop_manifest :: json where
  "shop_manifest = jobj [(''complete'', JBool True), (''paths'', JArr [jobj [(''status'', JStr ''M''), (''path'', JStr ''src/a'')]]),
     (''excerpts'', JArr [jobj [(''excerpt'', JStr ''+x'')]])]"

definition shop_answer :: json where
  "shop_answer = jobj [(''model'', JStr (ds_model shop_decision)), (''answers'', jobj [(''delivery'', jobj [(''type'', JStr ''choice''),
     (''choice'', JStr ''routine''), (''confidence'', JInt 1),
     (''probabilities'', jobj [(''routine'', JInt 1), (''escalate'', JInt 0)])])])]"

definition shop_report :: json where
  "shop_report = jobj [(''backend'', JStr (ds_backend shop_decision)), (''model'', JStr (ds_model shop_decision)),
     (''backend_fingerprint'', JStr shop_digest), (''policy'', JStr (ds_policy shop_decision)), (''purpose'', JStr ''delivery:veto''),
     (''catalog'', JStr ''delivery-v1''), (''delivery_policy_hash'', JStr shop_digest), (''minimum_routine_probability'', JFloat (3 / 4)),
     (''held_out'', jobj [(''cases'', JInt 50), (''candidate_quality'', JInt 1), (''baseline_quality'', JInt 1),
        (''candidate_critical_defect_recall'', JInt 1), (''baseline_critical_defect_recall'', JInt 1),
        (''baseline_verified_completion_ms'', JInt 2), (''candidate_verified_completion_ms'', JInt 1)])]"

definition shop_texts :: "(string \<times> json) list" where
  "shop_texts = [(''remote'', jobj [(''nameWithOwner'', JStr ''o/r'')]), (''list'', JArr [shop_pr]), (''view'', shop_pr),
     (''branch'', jobj [(''commit'', jobj [(''sha'', JStr ''b'')])]), (''protection'', shop_protection), (''runs'', shop_checks),
     (''reviews'', shop_reviews), (''report'', shop_report)]"

definition shop_env :: env where
  "shop_env = sample_env\<lparr>sha256 := (\<lambda>_. shop_digest), json_len := (\<lambda>_. 1), json_text := (\<lambda>_. []), parse_json := map_of shop_texts\<rparr>"

text \<open>The text that a command of GitHub prints. The merge itself fails: GitHub refuses it.\<close>

definition shop_prints :: "string list \<Rightarrow> string" where
  "shop_prints args = (case args of
       a # b # _ \<Rightarrow>
         if a = ''repo'' then ''remote''
         else if a = ''pr'' then b
         else if b = branch_endpoint ''o/r'' ''main'' then ''branch''
         else if b = branch_endpoint ''o/r'' ''main'' @ ''/protection'' then ''protection''
         else if b = checks_endpoint shop_invocation ''h'' then ''runs''
         else ''reviews''
     | _ \<Rightarrow> [])"

definition shop_reply :: "outside_call \<Rightarrow> outside_reply" where
  "shop_reply c = (case c of
       Gh _ args \<Rightarrow> if take 2 args = [''pr'', ''merge''] then Said (bail ''merge refused'')
                    else Said (Ok (jobj [(''success'', JBool True), (''stdout'', JStr (shop_prints args))]))
     | Git_read args \<Rightarrow> Said (Ok (JStr (if args = [''rev-parse'', ''HEAD''] then ''h'' else if take 1 args = [''status''] then [] else ''b'')))
     | Diff_manifest _ _ \<Rightarrow> Said (Ok shop_manifest)
     | Workspace_exists \<Rightarrow> Said (Ok (JBool True))
     | Consult _ \<Rightarrow> Provider (Answered shop_answer)
     | Pause \<Rightarrow> Said (Ok JNull)
     | _ \<Rightarrow> Said (bail ''offline''))"

definition shop_world :: world where
  "shop_world = \<lparr>wd_reply = (\<lambda>_. shop_reply), wd_meanwhile = (\<lambda>_ d. d), wd_operator = (\<lambda>_ _. Ok (shop_policy, shop_decision)),
     wd_upkeep = \<lparr>ud_url = (\<lambda>_. Ok \<lparr>ul_scheme = ''https'', ul_host = Some ''d'', ul_loopback = False, ul_username = [], ul_password = None,
        ul_query = None, ul_fragment = None, ul_path = []\<rparr>), ud_branch = (\<lambda>_ _. Ok ()), ud_token = Ok\<rparr>,
     wd_show_url = ul_path, wd_credential = (\<lambda>_. Ok ''key''), wd_artifact = (\<lambda>_ _. Ok ''report''), wd_fresh = (\<lambda>_. ''veto''),
     wd_elapsed = (\<lambda>_. 5), wd_patient = (\<lambda>_. False), wd_pid = (\<lambda>_. Some 9), wd_environments = (\<lambda>_ _. []),
     wd_private = (\<lambda>_ _. Ok ())\<rparr>"

section \<open>The tables\<close>

definition shop_signals :: json where
  "shop_signals = jobj [(''answers'', JArr (jobj [(''id'', JStr ''specialist''), (''answer'', JStr ''none''), (''confidence'', JInt 1)] #
     map (\<lambda>n. jobj [(''id'', JStr n), (''type'', JStr ''noul''), (''noul'', JInt 0), (''confidence'', JInt 1)])
       [''n1'', ''n2'', ''n3'', ''n4'', ''n5'', ''n6'']))]"

definition reviewer_step :: step where
  "reviewer_step = (default_step ''review'')\<lparr>s_role := ''reviewer'', s_kind := ''agent'', s_output_types := fold (\<lambda>(k, v). bt_insert k v) reviewer_outputs []\<rparr>"

definition reviewer_result :: json where
  "reviewer_result = jobj [(''accepted'', JBool True), (''verdict'', JStr ''pass''), (''risk'', JStr ''routine''), (''coverage_complete'', JBool True),
     (''findings'', JArr []), (''reviewed_head'', JStr ''h''), (''reviewed_revision'', JInt 0)]"

definition shop_store :: store where
  "shop_store = empty_store\<lparr>tasks := [sample_task ''t''], revisions := [\<lparr>rv_task = ''t'', rv_revision = 0, rv_plan = empty_plan\<rparr>],
     task_projects := [\<lparr>tp_task = ''t'', tp_project = default_project, tp_repository = None\<rparr>],
     task_tree := [\<lparr>tt_task = ''t'', tt_root = ''t'', tt_parent = None, tt_caller_worker = None, tt_depth = 0, tt_version = 1,
        tt_limits = default_limits, tt_request_id = None, tt_request_hash = None\<rparr>],
     steps := [\<lparr>st_id = ''s1'', st_task = ''t'', st_name = ''review'', st_spec = reviewer_step, st_state = ''succeeded'', st_result = None\<rparr>,
        \<lparr>st_id = ''s2'', st_task = ''t'', st_name = ''ship'', st_spec = default_step ''ship'', st_state = ''running'', st_result = None\<rparr>],
     attempts := [\<lparr>at_id = ''a1'', at_step = ''s1'', at_worker = Some ''w'', at_state = ''succeeded'', at_started = 10, at_finished = Some 20,
          at_pid = None, at_result = Some reviewer_result, at_usage = None\<rparr>,
        \<lparr>at_id = ''a2'', at_step = ''s2'', at_worker = None, at_state = ''running'', at_started = 30, at_finished = None, at_pid = Some 9,
          at_result = None, at_usage = None\<rparr>]\<rparr>"

definition shop_review :: review_row where
  "shop_review = \<lparr>rw_id = ''r'', rw_event = 1, rw_task = ''t'', rw_kind = ''checkpoint'', rw_revision = Some 0, rw_context = Some 1, rw_head = Some ''h'',
     rw_external_hash = Some shop_digest, rw_manifest_hash = Some shop_digest, rw_evidence_hash = Some shop_digest,
     rw_coverage = Some (jobj [(''complete'', JBool True)])\<rparr>"

definition shop_queue :: "string \<Rightarrow> queued_decision" where
  "shop_queue i = \<lparr>qd_id = i, qd_task = ''t'', qd_step = None, qd_attempt = None, qd_purpose = ''review'', qd_policy = ''routing-v1'',
     qd_backend = ''tuara'', qd_model = ''jev-1.13.0'', qd_baseline = None\<rparr>"

section \<open>Running the operations\<close>

text \<open>
  \<open>succeeds X m Y\<close>: where the tables satisfy \<open>X\<close> the operation succeeds, with a result and tables that
  satisfy \<open>Y\<close>. \<open>stops X m\<close>: there it fails, after a merge command.
\<close>

definition succeeds :: "(depot \<Rightarrow> bool) \<Rightarrow> (site, 'b) oper \<Rightarrow> ('b \<Rightarrow> depot \<Rightarrow> bool) \<Rightarrow> bool" where
  "succeeds X m Y = (\<forall>v. X (st_depot v) \<longrightarrow> (\<exists>v' x. m v = (v', Ok x) \<and> Y x (st_depot v')))"

definition stops :: "(depot \<Rightarrow> bool) \<Rightarrow> (site, 'b) oper \<Rightarrow> bool" where
  "stops X m = (\<forall>v. X (st_depot v) \<longrightarrow> (\<exists>v' e. m v = (v', Inl e) \<and> list_ex (\<lambda>x. is_merge (ex_call x)) (st_trace v')))"

definition gives :: "'b \<Rightarrow> (depot \<Rightarrow> bool) \<Rightarrow> 'b \<Rightarrow> depot \<Rightarrow> bool" where
  "gives c X x D = (x = c \<and> X D)"

lemma succeeds_bnd:
  assumes "succeeds X m (gives c Y)" and "succeeds Y (f c) Z" shows "succeeds X (bnd m f) Z"
  using assms unfolding succeeds_def gives_def bnd_def by (fastforce split: prod.splits sum.splits)

lemma succeeds_thn: "succeeds X m (\<lambda>_. Y) \<Longrightarrow> succeeds Y n Z \<Longrightarrow> succeeds X (thn m n) Z"
  unfolding succeeds_def thn_def bnd_def by (fastforce split: prod.splits sum.splits)

lemma stops_bnd:
  assumes "succeeds X m (gives c Y)" and "stops Y (f c)" shows "stops X (bnd m f)"
  using assms unfolding succeeds_def stops_def gives_def bnd_def by (fastforce split: prod.splits sum.splits)

lemma stops_thn: "succeeds X m (\<lambda>_. Y) \<Longrightarrow> stops Y n \<Longrightarrow> stops X (thn m n)"
  unfolding succeeds_def stops_def thn_def bnd_def by (fastforce split: prod.splits sum.splits)

lemma stops_first: "stops X m \<Longrightarrow> stops X (bnd m f)" "stops X k \<Longrightarrow> stops X (thn k n)"
  unfolding stops_def thn_def bnd_def by (fastforce split: prod.splits sum.splits)+

lemma succeeds_weaken: "succeeds X m Y \<Longrightarrow> (\<And>x D. Y x D \<Longrightarrow> Z x D) \<Longrightarrow> succeeds X m Z"
  unfolding succeeds_def by blast

lemma gives_any: "succeeds X m (gives c Y) \<Longrightarrow> succeeds X m (\<lambda>_. Y)"
  unfolding succeeds_def gives_def by blast

lemma succeeds_ret: "succeeds X (ret c) (gives c X)"
  by (simp add: succeeds_def gives_def ret_def)

lemma succeeds_guard: "b \<Longrightarrow> succeeds X (guard b msg) (\<lambda>_. X)"
  by (simp add: succeeds_def guard_def require_def)

lemma succeeds_pure: "r = Ok c \<Longrightarrow> succeeds X (pure r) (gives c X)"
  by (simp add: succeeds_def gives_def pure_def ask_state_def)

lemma succeeds_ask:
  "(\<And>v. X (st_depot v) \<Longrightarrow> f v = Ok c) \<Longrightarrow> succeeds X (ask_state f) (gives c X)"
  "(\<And>D. X D \<Longrightarrow> g D = Ok c) \<Longrightarrow> succeeds X (ask_depot g) (gives c X)"
  "(\<And>D. X D \<Longrightarrow> h (bn_store D) = Ok c) \<Longrightarrow> succeeds X (ask_rows h) (gives c X)"
  by (simp_all add: succeeds_def gives_def ask_state_def ask_depot_def ask_rows_def)

lemma succeeds_on_depot:
  "(\<And>D. X D \<Longrightarrow> \<exists>D' x. m D = (D', Ok x) \<and> Y x D') \<Longrightarrow> succeeds X (on_depot m) Y"
  unfolding succeeds_def on_depot_def by fastforce

lemma succeeds_ok_of: "succeeds X m (gives c Y) \<Longrightarrow> succeeds X (ok_of m) (gives (Some c) Y)"
  unfolding succeeds_def gives_def ok_of_def by fastforce

lemma succeeds_outside: "shop_reply c = Said (Ok y) \<Longrightarrow> succeeds X (outside shop_world c) (gives y X)"
  by (auto simp: succeeds_def gives_def outside_def bnd_def call_outside_def Let_def shop_world_def pure_def ask_state_def)

section \<open>The tables while the task is delivered\<close>

definition shop_row :: decision_row where
  "shop_row = (queued_row shop_env (shop_queue ''r'') True)\<lparr>dc_state := ''succeeded'', dc_result := Some shop_signals\<rparr>"

definition shop_snap :: json where
  "shop_snap = preflight_data ''h'' shop_digest 0 1 shop_digest
     (review_summary shop_env \<lparr>lr_row = shop_review, lr_state = ''succeeded'', lr_result = Some shop_signals, lr_fresh = True\<rparr> ''h'' 0 1)
     (jobj [(''attempt'', JStr ''a1''), (''worker'', JStr ''w''), (''result_hash'', JStr shop_digest),
       (''reviewed_head'', JStr ''h''), (''reviewed_revision'', JInt 0)])"

definition shop_depot :: "decision_row list \<Rightarrow> authorization_row list \<Rightarrow> intent_row list \<Rightarrow> external_op_row list \<Rightarrow> event_row list \<Rightarrow> int \<Rightarrow> depot" where
  "shop_depot rows zs ms ops es n = \<lparr>bn_store = shop_store\<lparr>external_ops := ops, events := es, event_seq := n\<rparr>, bn_decisions = shop_row # rows,
     bn_reviews = [shop_review], dl_preflights = [(''t'', shop_snap)], dl_authorizations = zs, dl_intents = ms,
     dl_qualifications = [qualification_of shop_env ''q'' shop_digest shop_policy shop_decision],
     dl_integrations = [\<lparr>ig_task = ''t'', ig_worker = ''dev'', ig_state = ''succeeded'', ig_created = 5\<rparr>], dl_artifacts = [shop_digest]\<rparr>"

definition in_shop :: "decision_row list \<Rightarrow> authorization_row list \<Rightarrow> intent_row list \<Rightarrow> depot \<Rightarrow> bool" where
  "in_shop rows zs ms D = (\<exists>ops es n. D = shop_depot rows zs ms ops es n \<and> (\<forall>x \<in> set ops. eo_name x \<noteq> binding_name))"

lemma shop_policy_now: "current_policy shop_env shop_world shop_invocation \<lparr>st_depot = shop_depot rows zs ms ops es n, st_trace = tr\<rparr> = Ok (Some shop_policy)"
  by code_simp

lemma shop_snapshot: "preflight_snapshot shop_env shop_invocation ''h'' (shop_depot rows zs ms ops es n) = Ok shop_snap"
  by code_simp

lemma shop_scoped: "scoped shop_env shop_invocation shop_policy (bn_store (shop_depot rows zs ms ops es n)) = Ok ''prod''"
  by code_simp

lemma shop_active: "active_delivery_attempt shop_invocation (bn_store (shop_depot rows zs ms ops es n)) = Ok ()"
  by code_simp

lemma shop_unbound:
  assumes "in_shop rows zs ms D" shows "upkeep_binding_of ''t'' (bn_store D) = Ok None"
proof -
  from assms obtain ops es n where D: "D = shop_depot rows zs ms ops es n" and ops: "\<forall>x \<in> set ops. eo_name x \<noteq> binding_name"
    unfolding in_shop_def by blast
  have "upkeep_root ''t'' (bn_store D) = ''t''" by (simp add: D shop_depot_def upkeep_root_def shop_store_def)
  moreover have "find (\<lambda>x. eo_task x = ''t'' \<and> eo_name x = binding_name) ops = None" using ops by (simp add: find_None_iff)
  ultimately show ?thesis by (simp add: upkeep_binding_of_def D shop_depot_def)
qed

text \<open>Where the task is not bound to maintenance and its attempts are as they were, commands run.\<close>

definition quiet :: "(depot \<Rightarrow> bool) \<Rightarrow> bool" where
  "quiet X = (\<forall>D. X D \<longrightarrow> upkeep_binding_of ''t'' (bn_store D) = Ok None \<and>
     steps (bn_store D) = steps shop_store \<and> attempts (bn_store D) = attempts shop_store)"

lemma shop_rows: "in_shop rows zs ms D \<Longrightarrow> steps (bn_store D) = steps shop_store \<and> attempts (bn_store D) = attempts shop_store"
  by (auto simp: in_shop_def shop_depot_def)

lemma quiet_shop: "quiet (in_shop rows zs ms)"
  by (simp add: quiet_def shop_unbound shop_rows)

lemma shop_fields: "iv_task shop_invocation = ''t''" "iv_policy shop_invocation = shop_policy" "iv_decision shop_invocation = shop_decision"
  "gh_program shop_invocation = ''/gh''" "automatic shop_invocation" "ad_enabled shop_policy" "de_repository (iv_delivery shop_invocation) = ''o/r''"
  "de_base (iv_delivery shop_invocation) = ''main''" "de_merge (iv_delivery shop_invocation)"
  by (simp_all add: shop_invocation_def gh_program_def automatic_def shop_policy_def)

lemma shop_online: "quiet X \<Longrightarrow> succeeds X (check_online shop_env shop_world ''t'') (\<lambda>_. X)"
  unfolding check_online_def by (rule succeeds_bnd [OF succeeds_ask(3)], auto simp: quiet_def intro!: gives_any [OF succeeds_ret])

definition shop_payload :: "string list \<Rightarrow> json" where
  "shop_payload args = (case map_of shop_texts (shop_prints args) of None \<Rightarrow> JStr (trim (shop_prints args)) | Some v \<Rightarrow> v)"

lemma shop_owner:
  assumes "quiet X" and "X (st_depot v)"
  shows "command_owner shop_world ''a2'' v = Ok ''t''"
  using assms by (simp add: quiet_def command_owner_def Let_def shop_world_def shop_store_def)

lemma shop_pid:
  assumes "quiet X" and "X D"
  shows "record_pid ''a2'' 9 D = D"
proof -
  have "attempts (bn_store D) = attempts shop_store" using assms by (simp add: quiet_def)
  moreover have "map (\<lambda>a. if at_id a = ''a2'' then a\<lparr>at_pid := Some 9\<rparr> else a) (attempts shop_store) = attempts shop_store"
    by (simp add: shop_store_def)
  ultimately show ?thesis unfolding record_pid_def by simp
qed

lemma shop_child:
  "quiet X \<Longrightarrow> shop_reply c = Said (Ok y) \<Longrightarrow> succeeds X (run_child shop_world c ''a2'') (gives y X)"
  using shop_pid [of X] by (auto simp: succeeds_def gives_def run_child_def Let_def) (auto simp: shop_world_def)

lemma shop_command:
  assumes "quiet X"
  shows "shop_reply c = Said (Ok y) \<Longrightarrow> succeeds X (delivery_command shop_env shop_world shop_invocation c) (gives y X)"
    and "stops X (run_child shop_world c ''a2'') \<Longrightarrow> stops X (delivery_command shop_env shop_world shop_invocation c)"
proof -
  have attempt: "iv_attempt shop_invocation = ''a2''" by (simp add: shop_invocation_def)
  have owner: "succeeds X (ask_state (command_owner shop_world ''a2'')) (gives ''t'' X)"
    by (rule succeeds_ask(1)) (rule shop_owner [OF assms])
  have paused: "succeeds X (call_outside shop_world Pause) (\<lambda>_. X)"
    by (simp add: succeeds_def call_outside_def Let_def shop_world_def)
  show "succeeds X (delivery_command shop_env shop_world shop_invocation c) (gives y X)" if "shop_reply c = Said (Ok y)"
    unfolding delivery_command_def if_P [OF shop_fields(5)] run_command_env_def run_process_def attempt redact_nothing
    by (rule succeeds_bnd, rule succeeds_bnd [OF owner], rule succeeds_thn [OF shop_online [OF assms]], rule succeeds_thn [OF paused],
        rule shop_child [OF assms that], rule succeeds_ret)
  show "stops X (delivery_command shop_env shop_world shop_invocation c)" if "stops X (run_child shop_world c ''a2'')"
    unfolding delivery_command_def if_P [OF shop_fields(5)] run_command_env_def run_process_def attempt
    by (rule stops_first, rule stops_bnd [OF owner], rule stops_thn [OF shop_online [OF assms]], rule stops_thn [OF paused], rule that)
qed

lemma shop_gh:
  assumes "quiet X" and "take 2 args \<noteq> [''pr'', ''merge'']"
  shows "succeeds X (gh shop_env shop_world shop_invocation args) (gives (shop_payload args) X)"
  unfolding gh_def shop_fields
proof (rule succeeds_thn [OF shop_online [OF assms(1)]], rule succeeds_bnd, rule shop_command(1) [OF assms(1)])
  show "shop_reply (Gh ''/gh'' args) = Said (Ok (jobj [(''success'', JBool True), (''stdout'', JStr (shop_prints args))]))"
    using assms(2) by (simp add: shop_reply_def)
  show "succeeds X (pure (gh_payload shop_env (jobj [(''success'', JBool True), (''stdout'', JStr (shop_prints args))]))) (gives (shop_payload args) X)"
    by (rule succeeds_pure) (simp add: gh_payload_def jget_jobj and_then_def require_def shop_payload_def shop_env_def unwrap_or_def Let_def split: option.splits)
qed

lemma shop_git: "succeeds X (git_read shop_world args)
    (gives (if args = [''rev-parse'', ''HEAD''] then ''h'' else if take 1 args = [''status''] then [] else ''b'') X)"
  unfolding git_read_def by (rule succeeds_bnd [OF succeeds_outside], simp add: shop_reply_def, rule succeeds_pure) (simp add: context_of_def)

lemma shop_event:
  assumes "tk_id ` set (tasks s) = {''t''}"
  shows "\<exists>es n. event shop_env ''t'' kind data s = (s\<lparr>events := es, event_seq := n\<rparr>, Ok ())"
  unfolding event_def Let_def assms by (simp, blast)

lemma shop_tasks: "tk_id ` set (tasks (shop_store\<lparr>external_ops := ops, events := es, event_seq := n\<rparr>)) = {''t''}"
  by (simp add: shop_store_def sample_task_def)

lemma on_bench_run: "m (bn_store D) = (t, r) \<Longrightarrow> on_bench m D = (D\<lparr>bn_store := t\<rparr>, r)"
  by (simp add: on_bench_def)

lemma on_bench_modify: "m (f (bn_store D)) = (t, Ok y) \<Longrightarrow> on_bench (thn (modify f) m) D = (D\<lparr>bn_store := t\<rparr>, Ok y)"
  by (simp add: on_bench_def thn_def bnd_def modify_def)

lemma shop_save:
  assumes "name \<noteq> binding_name"
  shows "succeeds (in_shop rows zs ms) (save shop_env shop_invocation name st data) (\<lambda>_. in_shop rows zs ms)"
  unfolding save_def on_rows_def shop_fields
proof (rule succeeds_on_depot)
  fix D assume "in_shop rows zs ms D"
  then obtain ops es n where D: "D = shop_depot rows zs ms ops es n" and ops: "\<forall>x \<in> set ops. eo_name x \<noteq> binding_name" unfolding in_shop_def by blast
  let ?up = "\<lambda>s. s\<lparr>external_ops := upsert (\<lambda>o'. (eo_task o', eo_name o')) (\<lambda>o'. o'\<lparr>eo_state := st, eo_data := data\<rparr>)
    \<lparr>eo_task = ''t'', eo_name = name, eo_state = st, eo_data = data\<rparr> (external_ops s)\<rparr>"
  have "tk_id ` set (tasks (?up (bn_store D))) = {''t''}" by (simp add: shop_store_def sample_task_def D shop_depot_def)
  from shop_event [OF this] obtain es' n' where run: "event shop_env ''t'' (''delivery.'' @ name @ ''.'' @ st) data (?up (bn_store D)) =
      ((?up (bn_store D))\<lparr>events := es', event_seq := n'\<rparr>, Ok ())" by blast
  have "\<forall>x \<in> set (external_ops (?up (bn_store D))). eo_name x \<noteq> binding_name"
    using ops assms by (auto simp: upsert_def D shop_depot_def split: if_splits)
  then have "in_shop rows zs ms (D\<lparr>bn_store := (?up (bn_store D))\<lparr>events := es', event_seq := n'\<rparr>\<rparr>)"
    unfolding in_shop_def by (intro exI [of _ "external_ops (?up (bn_store D))"] exI [of _ es'] exI [of _ n']) (simp add: D shop_depot_def)
  with on_bench_modify [where f = ?up and m = "event shop_env ''t'' (''delivery.'' @ name @ ''.'' @ st) data", OF run]
  show "\<exists>D' x. on_bench (thn (modify ?up) (event shop_env ''t'' (''delivery.'' @ name @ ''.'' @ st) data)) D = (D', Ok x) \<and> in_shop rows zs ms D'"
    by blast
qed

lemma shop_log: "succeeds (in_shop rows zs ms) (on_rows (event shop_env ''t'' kind data)) (\<lambda>_. in_shop rows zs ms)"
  unfolding on_rows_def
proof (rule succeeds_on_depot)
  fix D assume "in_shop rows zs ms D"
  then obtain ops es n where D: "D = shop_depot rows zs ms ops es n" and ops: "\<forall>x \<in> set ops. eo_name x \<noteq> binding_name" unfolding in_shop_def by blast
  from shop_event [OF shop_tasks] obtain es' n' where run: "event shop_env ''t'' kind data (bn_store D) = ((bn_store D)\<lparr>events := es', event_seq := n'\<rparr>, Ok ())"
    unfolding D shop_depot_def bench.simps by blast
  have "in_shop rows zs ms (D\<lparr>bn_store := (bn_store D)\<lparr>events := es', event_seq := n'\<rparr>\<rparr>)"
    unfolding in_shop_def using ops by (intro exI [of _ ops] exI [of _ es'] exI [of _ n']) (simp add: D shop_depot_def)
  with on_bench_run [where m = "event shop_env ''t'' kind data", OF run]
  show "\<exists>D' x. on_bench (event shop_env ''t'' kind data) D = (D', Ok x) \<and> in_shop rows zs ms D'" by blast
qed

section \<open>The facts\<close>

definition shop_runs :: json where
  "shop_runs = JArr [jobj [(''id'', JInt 3), (''name'', JStr ''ci''), (''head_sha'', JStr ''h''), (''status'', JStr ''completed''),
     (''conclusion'', JStr ''success''), (''completed_at'', JNull)]]"

definition shop_approved :: json where
  "shop_approved = JArr [jobj [(''user'', JStr ''ann''), (''id'', JInt 5), (''commit_id'', JStr ''h''), (''state'', JStr ''APPROVED''),
     (''submitted_at'', JStr ''2025'')]]"

lemma shop_replies:
  "map_of shop_texts ''branch'' = Some (jobj [(''commit'', jobj [(''sha'', JStr ''b'')])])" "map_of shop_texts ''protection'' = Some shop_protection"
  "map_of shop_texts ''runs'' = Some shop_checks" "map_of shop_texts ''reviews'' = Some shop_reviews" "map_of shop_texts ''view'' = Some shop_pr"
  "map_of shop_texts ''list'' = Some (JArr [shop_pr])" "map_of shop_texts ''remote'' = Some (jobj [(''nameWithOwner'', JStr ''o/r'')])"
  by (simp_all add: shop_texts_def)

lemma shop_prints_api:
  "shop_prints [''api'', branch_endpoint ''o/r'' ''main''] = ''branch''"
  "shop_prints [''api'', branch_endpoint ''o/r'' ''main'' @ ''/protection''] = ''protection''"
  "shop_prints [''api'', checks_endpoint shop_invocation ''h''] = ''runs''"
  "shop_prints [''api'', reviews_endpoint shop_invocation ''7''] = ''reviews''"
  by code_simp+

lemma shop_payloads:
  "shop_payload [''api'', branch_endpoint ''o/r'' ''main''] = jobj [(''commit'', jobj [(''sha'', JStr ''b'')])]"
  "shop_payload [''api'', branch_endpoint ''o/r'' ''main'' @ ''/protection''] = shop_protection"
  "shop_payload [''api'', checks_endpoint shop_invocation ''h''] = shop_checks"
  "shop_payload [''api'', reviews_endpoint shop_invocation ''7''] = shop_reviews"
  "shop_payload (''pr'' # ''view'' # args) = shop_pr" "shop_payload (''pr'' # ''list'' # args) = JArr [shop_pr]"
  "shop_payload (''repo'' # ''view'' # args) = jobj [(''nameWithOwner'', JStr ''o/r'')]"
  unfolding shop_payload_def shop_prints_api shop_replies by (simp_all add: shop_prints_def shop_replies)

lemma shop_checked:
  "strict_protection shop_protection shop_policy" "check_runs shop_checks ''h'' (ad_checks shop_policy) = Ok shop_runs"
  "approvals shop_reviews ''h'' ''bot'' (ad_approvals shop_policy) = Ok shop_approved"
  "routine_paths shop_manifest = Ok [''src/a'']" "validate_paths [''src/a''] (ad_paths shop_policy) = Ok ()" "same_pr shop_invocation ''h'' ''7'' shop_pr"
  by code_simp+

lemma shop_clean: "succeeds X (clean_workspace shop_world ''h'') (\<lambda>_. X)"
  unfolding clean_workspace_def
  by (rule succeeds_bnd [OF shop_git], rule succeeds_thn [OF succeeds_guard], simp, rule succeeds_bnd [OF shop_git], rule succeeds_guard, simp)

lemma shop_base: "quiet X \<Longrightarrow> succeeds X (base_oid shop_env shop_world shop_invocation) (gives ''b'' X)"
  unfolding base_oid_def Let_def shop_fields
  by (rule succeeds_bnd [OF shop_git], rule succeeds_bnd [OF shop_gh], assumption, simp, unfold shop_payloads,
      rule succeeds_bnd [OF succeeds_pure], simp add: jget_jobj context_of_def, rule succeeds_thn [OF succeeds_guard], simp,
      rule succeeds_bnd [OF shop_gh], assumption, simp, unfold shop_payloads,
      rule succeeds_thn [OF succeeds_guard], rule shop_checked, simp, rule succeeds_ret)

lemma shop_view: "quiet X \<Longrightarrow> succeeds X (pr_view shop_env shop_world shop_invocation which wanted) (gives shop_pr X)"
  unfolding pr_view_def using shop_gh [of X "''pr'' # ''view'' # args" for args] by (simp add: shop_payloads)

lemma shop_required_runs: "quiet X \<Longrightarrow> succeeds X (required_runs shop_env shop_world shop_invocation ''h'') (gives shop_runs X)"
  unfolding required_runs_def shop_fields
  by (rule succeeds_bnd [OF shop_gh], assumption, simp, unfold shop_payloads, rule succeeds_pure, rule shop_checked)

lemma shop_required_approvals: "quiet X \<Longrightarrow> succeeds X (required_approvals shop_env shop_world shop_invocation ''h'' ''7'' ''bot'') (gives shop_approved X)"
  unfolding required_approvals_def shop_fields
  by (rule succeeds_bnd [OF shop_gh], assumption, simp, unfold shop_payloads, rule succeeds_pure, rule shop_checked)

lemma shop_diff: "succeeds X (routine_manifest shop_world ''main'' ''h'') (gives ([''src/a''], shop_manifest) X)"
  unfolding routine_manifest_def
  by (rule succeeds_bnd [OF succeeds_outside], simp add: shop_reply_def, rule succeeds_bnd [OF succeeds_pure], rule shop_checked, rule succeeds_ret)

lemma in_shop_site:
  assumes "in_shop rows zs ms (st_depot v)"
  obtains ops es n tr where "v = \<lparr>st_depot = shop_depot rows zs ms ops es n, st_trace = tr\<rparr>"
  using assms by (cases v) (auto simp: in_shop_def)

lemma shop_now: "succeeds (in_shop rows zs ms) (policy_now shop_env shop_world shop_invocation) (gives shop_policy (in_shop rows zs ms))"
  unfolding policy_now_def by (rule succeeds_ask, erule in_shop_site) (simp add: shop_policy_now context_of_def)

lemma shop_state:
  "succeeds (in_shop rows zs ms) (ask_depot (preflight_snapshot shop_env shop_invocation ''h'')) (gives shop_snap (in_shop rows zs ms))"
  "succeeds (in_shop rows zs ms) (ask_rows (scoped shop_env shop_invocation shop_policy)) (gives ''prod'' (in_shop rows zs ms))"
  "succeeds (in_shop rows zs ms) (ask_rows (active_delivery_attempt shop_invocation)) (gives () (in_shop rows zs ms))"
  by (rule succeeds_ask, force simp: in_shop_def shop_snapshot shop_scoped shop_active)+

lemma shop_recheck:
  "succeeds (in_shop rows zs ms) (recheck shop_env shop_world shop_invocation ''h'' ''7'' ''bot'' ''b'' shop_manifest shop_pr shop_runs shop_approved)
     (\<lambda>_. in_shop rows zs ms)"
  unfolding recheck_def shop_fields
  by (rule succeeds_thn [OF gives_any [OF shop_now]], rule succeeds_thn [OF shop_clean], rule succeeds_thn [OF gives_any [OF shop_state(1)]],
      rule succeeds_bnd [OF shop_diff], unfold prod.case, rule succeeds_thn [OF succeeds_guard], simp,
      rule succeeds_bnd [OF shop_base [OF quiet_shop]], rule succeeds_thn [OF succeeds_guard], simp,
      rule succeeds_bnd [OF shop_view [OF quiet_shop]], rule succeeds_thn [OF succeeds_guard], simp,
      rule succeeds_bnd [OF shop_required_runs [OF quiet_shop]], rule succeeds_thn [OF succeeds_guard], simp,
      rule succeeds_bnd [OF shop_required_approvals [OF quiet_shop]], rule succeeds_thn [OF succeeds_guard], simp,
      rule gives_any [OF shop_state(3)])

section \<open>The veto\<close>

definition shop_question :: "json \<Rightarrow> decision_request" where
  "shop_question facts = \<lparr>dr_model = ds_model shop_decision, dr_state = facts, dr_questions = [ChoiceQ ''delivery''
     ''Should this already policy-eligible routine change be escalated for manual delivery? Escalate on uncertainty, consequential API or migration effects, or security concerns.''
     [''routine'', ''escalate'']]\<rparr>"

definition shop_response :: decision_response where
  "shop_response = \<lparr>dn_answers = [ChoiceA ''delivery'' ''routine'' 1 [(''escalate'', 0), (''routine'', 1)]], dn_input_tokens = None, dn_output_tokens = None\<rparr>"

lemma shop_valid: "validate_request shop_env (shop_question (JObj m)) = Ok ()"
  by code_simp

lemma shop_asked: "delivery_veto_request shop_env (ds_model shop_decision) (JObj m) = Ok (shop_question (JObj m))"
  using shop_valid [of m] unfolding delivery_veto_request_def Let_def shop_question_def by (simp add: and_then_def)

lemma shop_answered: "validate_response shop_env (shop_question (JObj m)) shop_answer = Ok shop_response"
proof -
  have "validate_response shop_env (shop_question (JObj m)) shop_answer =
      validate_response shop_env (shop_question (JObj [])) shop_answer"
    by (simp add: validate_response_def shop_valid) (simp add: shop_question_def)
  also have "\<dots> = Ok shop_response" by code_simp
  finally show ?thesis .
qed

lemma shop_settings:
  "validate_decision (ud_url (wd_upkeep shop_world)) shop_decision = Ok ()" "is_ok (decision_endpoint (ud_url (wd_upkeep shop_world)) (ds_base_url shop_decision))"
  "is_ok (fingerprint shop_env (ud_url (wd_upkeep shop_world)) (wd_show_url shop_world) shop_decision)"
  by code_simp+

lemma shop_key: "in_shop rows zs ms (st_depot v) \<Longrightarrow> authorize_request shop_world shop_invocation (\<lambda>key. has_text key []) v = Ok ''key''"
proof (erule in_shop_site)
  fix ops es n tr assume v: "v = \<lparr>st_depot = shop_depot rows zs ms ops es n, st_trace = tr\<rparr>"
  show ?thesis unfolding v by code_simp
qed

lemma shop_prepared: "succeeds (in_shop rows zs ms) (prepare_request shop_env shop_world shop_invocation body) (gives () (in_shop rows zs ms))"
proof -
  have body_text: "json_text shop_env body = []" by (simp add: shop_env_def)
  show ?thesis unfolding prepare_request_def body_text shop_fields
  proof (rule succeeds_thn [OF gives_any [OF succeeds_ask(1)]], erule shop_key, rule succeeds_thn [OF shop_online [OF quiet_shop]])
    show "succeeds (in_shop rows zs ms) (on_rows (reserve_model shop_env ''t'' (json_len shop_env body))) (gives () (in_shop rows zs ms))"
      unfolding on_rows_def by (rule succeeds_on_depot)
        (auto simp: gives_def on_bench_def reserve_model_def bnd_def ask_state_def ret_def shop_unbound)
  qed
qed

text \<open>The tables with the one decision of the veto in a state.\<close>

definition deciding :: "string \<Rightarrow> depot \<Rightarrow> bool" where
  "deciding st D = (\<exists>r. dc_id r = ''veto'' \<and> dc_state r = st \<and> in_shop [r] [] [] D)"

lemma quiet_deciding: "quiet (deciding st)"
  by (auto simp: quiet_def deciding_def shop_unbound shop_rows)

lemma deciding_lift:
  "(\<And>r. succeeds (in_shop [r] [] []) m (gives c (in_shop [r] [] []))) \<Longrightarrow> succeeds (deciding st) m (gives c (deciding st))"
  "(\<And>r. succeeds (in_shop [r] [] []) m (\<lambda>_. in_shop [r] [] [])) \<Longrightarrow> succeeds (deciding st) m (\<lambda>_. deciding st)"
  unfolding succeeds_def gives_def deciding_def by blast+

lemma in_shop_rows:
  assumes "in_shop rows zs ms D"
  shows "bn_decisions D = shop_row # rows" "in_shop rows' zs ms (D\<lparr>bn_decisions := shop_row # rows'\<rparr>)"
proof -
  from assms obtain ops es n where D: "D = shop_depot rows zs ms ops es n" and ops: "\<forall>x \<in> set ops. eo_name x \<noteq> binding_name" unfolding in_shop_def by blast
  show "bn_decisions D = shop_row # rows" by (simp add: D shop_depot_def)
  have "D\<lparr>bn_decisions := shop_row # rows'\<rparr> = shop_depot rows' zs ms ops es n" by (simp add: D shop_depot_def)
  with ops show "in_shop rows' zs ms (D\<lparr>bn_decisions := shop_row # rows'\<rparr>)" unfolding in_shop_def by blast
qed

lemma shop_update:
  assumes "st \<in> set states" and "\<And>r. dc_id r = ''veto'' \<Longrightarrow> dc_state r = st \<Longrightarrow> dc_id (f r) = ''veto'' \<and> dc_state (f r) = st'"
  shows "succeeds (deciding st) (on_depot (update_decision ''veto'' states f msg)) (gives () (deciding st'))"
proof (rule succeeds_on_depot)
  fix D assume "deciding st D"
  then obtain r where r: "dc_id r = ''veto''" "dc_state r = st" and D: "in_shop [r] [] [] D" unfolding deciding_def by blast
  have "dc_id shop_row \<noteq> ''veto''" by (simp add: shop_row_def queued_row_def shop_queue_def)
  then have "update_decision ''veto'' states f msg D = (D\<lparr>bn_decisions := [shop_row, f r]\<rparr>, Ok ())"
    using r assms(1) by (simp add: update_decision_def Let_def in_shop_rows [OF D] update_rows_def count_rows_def require_def)
  then show "\<exists>D' x. update_decision ''veto'' states f msg D = (D', Ok x) \<and> gives () (deciding st') x D'"
    using assms(2) [OF r] in_shop_rows(2) [OF D, of "[f r]"] unfolding gives_def deciding_def by auto
qed

definition shop_veto :: decision_row where
  "shop_veto = queued_row shop_env (veto_queued shop_invocation ''veto'') True"

lemma shop_enqueue:
  "succeeds (in_shop [] [] []) (on_depot (enqueue_bounded shop_env (veto_queued shop_invocation ''veto'') (ds_task_limit shop_decision))) (gives True (deciding ''queued''))"
proof (rule succeeds_on_depot)
  fix D assume D: "in_shop [] [] [] D"
  let ?q = "veto_queued shop_invocation ''veto''"
  have label: "bounded_label (qd_purpose ?q) 256" and few: "count_rows (\<lambda>r. dc_task r = qd_task ?q) [shop_row] < ds_task_limit shop_decision" by code_simp+
  have veto: "dc_id shop_veto = ''veto''" "dc_state shop_veto = ''queued''" by (simp_all add: shop_veto_def queued_row_def veto_queued_def)
  from D obtain t where t: "get_task (qd_task ?q) (bn_store D) = Ok t"
    by (auto simp: in_shop_def shop_depot_def shop_store_def get_task_def veto_queued_def shop_fields sample_task_def context_of_def)
  have "insert_decision shop_veto D = (D\<lparr>bn_decisions := [shop_row, shop_veto]\<rparr>, Ok ())"
    unfolding insert_decision_def in_shop_rows(1) [OF D] veto by (simp add: shop_row_def queued_row_def shop_queue_def)
  then have "enqueue_bounded shop_env ?q (ds_task_limit shop_decision) D = (D\<lparr>bn_decisions := [shop_row, shop_veto]\<rparr>, Ok True)"
    unfolding enqueue_bounded_def thn_def bnd_def guard_def require_def atomic_def ask_bench_def ask_state_def ret_def t in_shop_rows(1) [OF D]
      if_P [OF label] sum.case prod.case using few by (simp add: shop_veto_def)
  moreover have "deciding ''queued'' (D\<lparr>bn_decisions := [shop_row, shop_veto]\<rparr>)"
    using in_shop_rows(2) [OF D, of "[shop_veto]"] veto unfolding deciding_def by blast
  ultimately show "\<exists>D' x. enqueue_bounded shop_env ?q (ds_task_limit shop_decision) D = (D', Ok x) \<and> gives True (deciding ''queued'') x D'"
    unfolding gives_def by blast
qed

lemma shop_called: "succeeds X (call_outside shop_world c) (gives (shop_reply c) X)"
  by (simp add: succeeds_def gives_def call_outside_def Let_def shop_world_def)

lemma shop_started: "succeeds (deciding ''running'') (ok_of (on_depot (attempt_started ''veto''))) (\<lambda>_. deciding ''running'')"
  unfolding attempt_started_def by (rule gives_any [OF succeeds_ok_of [OF shop_update]]) simp_all

lemma shop_consumed: "succeeds (deciding st) (on_rows (consume_output shop_env ''t'' n)) (\<lambda>_. deciding st)"
  unfolding on_rows_def
  by (rule succeeds_on_depot)
    (use quiet_deciding in \<open>auto simp: on_bench_def consume_output_def bnd_def ask_state_def ret_def quiet_def\<close>)

lemma shop_sent:
  "succeeds (deciding ''running'') (send_request shop_env shop_world shop_invocation ''veto'' (shop_question (JObj m)))
     (gives (Inl shop_response) (deciding ''running''))"
  unfolding send_request_def
proof (rule succeeds_thn [OF shop_started], rule succeeds_bnd [OF shop_called])
  have reply: "shop_reply (Consult c) = Provider (Answered shop_answer)" for c by (simp add: shop_reply_def)
  have "succeeds (deciding ''running'')
      (thn (on_rows (consume_output shop_env (iv_task shop_invocation) (json_len shop_env shop_answer)))
        (thn (guard (json_len shop_env shop_answer \<le> 256 * 1024) ''decision response exceeds the size limit'')
          (pure (validate_response shop_env (shop_question (JObj m)) shop_answer)))) (gives shop_response (deciding ''running''))"
    unfolding shop_fields shop_answered
    by (rule succeeds_thn [OF shop_consumed], rule succeeds_thn [OF succeeds_guard], simp add: shop_env_def, rule succeeds_pure, rule refl)
  from succeeds_bnd [OF succeeds_ok_of [OF this], of "\<lambda>x. ret (case x of None \<Rightarrow> Inr False | Some y \<Rightarrow> Inl y)"]
  show "succeeds (deciding ''running'')
     (case shop_reply (Consult (wire_request (shop_question (JObj m)))) of
       Provider (Answered v) \<Rightarrow>
         bnd (ok_of (thn (on_rows (consume_output shop_env (iv_task shop_invocation) (json_len shop_env v)))
             (thn (guard (json_len shop_env v \<le> 256 * 1024) ''decision response exceeds the size limit'')
                  (pure (validate_response shop_env (shop_question (JObj m)) v))))) (\<lambda>x.
         ret (case x of None \<Rightarrow> Inr False | Some y \<Rightarrow> Inl y))
     | Provider (Refused code) \<Rightarrow> ret (Inr (retry_status code))
     | Provider (Unreachable again) \<Rightarrow> ret (Inr again)
     | _ \<Rightarrow> ret (Inr False)) (gives (Inl shop_response) (deciding ''running''))"
    unfolding reply by (simp add: succeeds_ret)
qed

lemma shop_decided:
  "succeeds (deciding ''running'') (decide shop_env shop_world shop_invocation ''veto'' (shop_question (JObj m)))
     (gives (Inl (shop_response, 1)) (deciding ''running''))"
proof -
  have two: "ds_attempts shop_decision = Suc (Suc 0)" by (simp add: shop_decision_def default_decision_def)
  have asks: "is_ok (validate_request shop_env (shop_question (JObj m))) \<and> dr_model (shop_question (JObj m)) = ds_model shop_decision"
    by (simp add: shop_valid) (simp add: shop_question_def)
  have "succeeds (deciding ''running'') (consult shop_env shop_world shop_invocation ''veto'' (shop_question (JObj m)) (Suc (Suc 0)) 0)
      (gives (Inl (shop_response, 1)) (deciding ''running''))"
    unfolding consult.simps(2)
    by (rule succeeds_bnd [OF succeeds_ok_of [OF deciding_lift(1) [OF shop_prepared]]], subst if_not_P, simp,
        rule succeeds_bnd [OF shop_sent]) (simp add: succeeds_ret)
  then show ?thesis unfolding decide_def shop_fields two if_P [OF asks] .
qed

lemma shop_vetoed:
  assumes version: "jget (JObj m) ''context_version'' = JInt 1"
  shows "succeeds (in_shop [] [] []) (decision_veto shop_env shop_world shop_invocation (JObj m) (ad_routine shop_policy)) (gives ''veto'' (deciding ''succeeded''))"
proof -
  from shop_settings(2,3) obtain u f where u: "decision_endpoint (ud_url (wd_upkeep shop_world)) (ds_base_url shop_decision) = Ok u"
    and f: "fingerprint shop_env (ud_url (wd_upkeep shop_world)) (wd_show_url shop_world) shop_decision = Ok f" by (auto simp: is_ok_def split: sum.splits)
  have fresh: "succeeds X (ask_state (\<lambda>v. Ok (wd_fresh shop_world (st_trace v)))) (gives ''veto'' X)"
    "succeeds X (ask_state (\<lambda>v. Ok (wd_elapsed shop_world (st_trace v)))) (gives 5 X)" for X
    by (rule succeeds_ask(1), simp add: shop_world_def)+
  have choice: "first_choice shop_response = Ok (''routine'', 1)" by code_simp
  have start: "succeeds (deciding ''queued'') (on_depot (start_decision shop_env ''veto'' p)) (\<lambda>_. deciding ''running'')" for p
    unfolding start_decision_def by (rule gives_any [OF shop_update]) simp_all
  have complete: "succeeds (deciding ''running'') (on_depot (complete_decision shop_env ''veto'' c)) (\<lambda>_. deciding ''succeeded'')" for c
    unfolding complete_decision_def by (rule gives_any [OF shop_update]) simp_all
  have ctx: "context_of (as_i64 (jget (JObj m) ''context_version'')) ''context version'' = Ok 1"
    unfolding version by (simp add: context_of_def)
  have ready: "and_then (validate_decision (ud_url (wd_upkeep shop_world)) shop_decision)
      (\<lambda>_. decision_endpoint (ud_url (wd_upkeep shop_world)) (ds_base_url shop_decision)) = Ok u"
    by (simp add: shop_settings(1) u and_then_def)
  show ?thesis unfolding decision_veto_def Let_def shop_fields shop_asked
    by (rule succeeds_bnd [OF succeeds_pure [OF refl]], rule succeeds_bnd [OF fresh(1)], rule succeeds_bnd [OF shop_enqueue],
        rule succeeds_thn [OF succeeds_guard], simp, rule succeeds_bnd [OF succeeds_pure [OF ctx]],
        rule succeeds_bnd [OF succeeds_pure [OF f]], rule succeeds_thn [OF start],
        rule succeeds_thn [OF gives_any [OF succeeds_pure [OF ready]]],
        rule succeeds_bnd [OF shop_decided], unfold sum.case prod.case, rule succeeds_bnd [OF succeeds_pure [OF choice]], unfold prod.case,
        rule succeeds_bnd [OF fresh(2)], rule succeeds_thn [OF complete], rule succeeds_thn [OF succeeds_guard],
        simp add: shop_policy_def, rule succeeds_ret)
qed

section \<open>The merge\<close>

definition sealed :: "authorization_row list \<Rightarrow> intent_row list \<Rightarrow> depot \<Rightarrow> bool" where
  "sealed zs ms D = (\<exists>r. in_shop [r] zs ms D)"

lemma quiet_sealed: "quiet (sealed zs ms)"
  by (auto simp: quiet_def sealed_def shop_unbound shop_rows)

lemma sealed_lift:
  "(\<And>r. succeeds (in_shop [r] zs ms) m (gives c (in_shop [r] zs ms))) \<Longrightarrow> succeeds (sealed zs ms) m (gives c (sealed zs ms))"
  "(\<And>r. succeeds (in_shop [r] zs ms) m (\<lambda>_. in_shop [r] zs ms)) \<Longrightarrow> succeeds (sealed zs ms) m (\<lambda>_. sealed zs ms)"
  unfolding succeeds_def gives_def sealed_def by blast+

lemma shop_hash: "json_hash shop_env v = shop_digest"
  by (simp add: json_hash_def shop_env_def)

definition shop_seal :: "json \<Rightarrow> authorization_row" where
  "shop_seal facts = \<lparr>az_id = shop_digest, az_task = ''t'', az_head = ''h'', az_data = authorization_data shop_env shop_invocation facts ''veto'' ''7'' ''h''\<rparr>"

definition shop_intent :: intent_row where
  "shop_intent = \<lparr>mi_task = ''t'', mi_authorization = shop_digest, mi_pr = ''7'', mi_head = ''h''\<rparr>"

definition shop_token :: json where
  "shop_token = jobj [(''id'', JStr shop_digest), (''head'', JStr ''h''), (''decision'', JStr ''veto'')]"

lemma in_shop_seals:
  assumes "in_shop rows zs ms D"
  shows "dl_authorizations D = zs" "dl_intents D = ms" "in_shop rows zs' ms (D\<lparr>dl_authorizations := zs'\<rparr>)" "in_shop rows zs ms' (D\<lparr>dl_intents := ms'\<rparr>)"
proof -
  from assms obtain ops es n where D: "D = shop_depot rows zs ms ops es n" and ops: "\<forall>x \<in> set ops. eo_name x \<noteq> binding_name" unfolding in_shop_def by blast
  show "dl_authorizations D = zs" "dl_intents D = ms" by (simp_all add: D shop_depot_def)
  have "D\<lparr>dl_authorizations := zs'\<rparr> = shop_depot rows zs' ms ops es n" "D\<lparr>dl_intents := ms'\<rparr> = shop_depot rows zs ms' ops es n"
    by (simp_all add: D shop_depot_def)
  with ops show "in_shop rows zs' ms (D\<lparr>dl_authorizations := zs'\<rparr>)" "in_shop rows zs ms' (D\<lparr>dl_intents := ms'\<rparr>)" unfolding in_shop_def by blast+
qed

lemma shop_recorded: "succeeds (sealed [] []) (on_depot (modify (record_authorization z))) (\<lambda>_. sealed [z] [])"
proof (rule succeeds_on_depot)
  fix D assume "sealed [] [] D"
  then obtain r where D: "in_shop [r] [] [] D" unfolding sealed_def by blast
  have "record_authorization z D = D\<lparr>dl_authorizations := [z]\<rparr>" by (simp add: record_authorization_def in_shop_seals [OF D])
  moreover have "sealed [z] [] (D\<lparr>dl_authorizations := [z]\<rparr>)" unfolding sealed_def using in_shop_seals(3) [OF D] by blast
  ultimately show "\<exists>D' x. modify (record_authorization z) D = (D', Ok x) \<and> sealed [z] [] D'" by (simp add: modify_def)
qed

lemma shop_seal_data:
  "jget (az_data (shop_seal facts)) ''pr'' = JStr ''7''" "jget (az_data (shop_seal facts)) ''decision'' = JStr ''veto''"
  "jget (az_data (shop_seal facts)) ''policy_hash'' = JStr shop_digest" "jget shop_token ''decision'' = JStr ''veto''"
  "jget shop_token ''id'' = JStr shop_digest" "jget shop_token ''head'' = JStr ''h''"
  by (simp_all add: shop_seal_def authorization_data_def jget_jobj policy_hash_def shop_hash shop_token_def)

lemma shop_sealed_row: "sealed [shop_seal facts] ms D \<Longrightarrow> find_authorization shop_digest ''t'' ''h'' D = Some (shop_seal facts)"
  by (auto simp: sealed_def find_authorization_def in_shop_seals shop_seal_def)

lemma shop_intended:
  "succeeds (sealed [shop_seal facts] []) (on_depot (record_merge_intent shop_invocation shop_token ''7'' ''h'')) (\<lambda>_. sealed [shop_seal facts] [shop_intent])"
proof (rule succeeds_on_depot)
  fix D assume sealed: "sealed [shop_seal facts] [] D"
  then obtain r where D: "in_shop [r] [shop_seal facts] [] D" unfolding sealed_def by blast
  have intents: "insert_intent shop_intent D = D\<lparr>dl_intents := [shop_intent]\<rparr>" by (simp add: insert_intent_def in_shop_seals [OF D])
  have "record_merge_intent shop_invocation shop_token ''7'' ''h'' D = (D\<lparr>dl_intents := [shop_intent]\<rparr>, Ok ())"
    using intents unfolding record_merge_intent_def shop_seal_data shop_fields
    by (simp add: bnd_def thn_def ask_state_def context_of_def shop_sealed_row [OF sealed] guard_def shop_seal_data require_def modify_def shop_intent_def)
  moreover have "sealed [shop_seal facts] [shop_intent] (D\<lparr>dl_intents := [shop_intent]\<rparr>)" unfolding sealed_def using in_shop_seals(4) [OF D] by blast
  ultimately show "\<exists>D' x. record_merge_intent shop_invocation shop_token ''7'' ''h'' D = (D', Ok x) \<and> sealed [shop_seal facts] [shop_intent] D'" by blast
qed

lemma shop_boundary:
  "succeeds (sealed [shop_seal facts] ms) (ask_state (validate_merge_boundary shop_env shop_world shop_invocation shop_token)) (gives () (sealed [shop_seal facts] ms))"
proof (rule succeeds_ask)
  fix v :: site assume sealed: "sealed [shop_seal facts] ms (st_depot v)"
  then obtain r where "in_shop [r] [shop_seal facts] ms (st_depot v)" unfolding sealed_def by blast
  then obtain ops es n tr where v: "v = \<lparr>st_depot = shop_depot [r] [shop_seal facts] ms ops es n, st_trace = tr\<rparr>" by (rule in_shop_site)
  from sealed have row: "find_authorization shop_digest ''t'' ''h'' (shop_depot [r] [shop_seal facts] ms ops es n) = Some (shop_seal facts)"
    unfolding v by (auto dest: shop_sealed_row)
  show "validate_merge_boundary shop_env shop_world shop_invocation shop_token v = Ok ()"
    unfolding validate_merge_boundary_def v shop_policy_now shop_seal_data shop_fields
    by (simp add: and_then_def context_of_def row shop_seal_data policy_hash_def shop_hash require_def shop_active)
qed

lemma shop_merging: "quiet X \<Longrightarrow> stops X (gh shop_env shop_world shop_invocation (merge_args shop_invocation ''h'' ''7''))"
  unfolding gh_def shop_fields
proof (rule stops_thn [OF shop_online], assumption, rule stops_first, rule shop_command(2))
  show "stops X (run_child shop_world (Gh ''/gh'' (merge_args shop_invocation ''h'' ''7'')) ''a2'')"
    unfolding stops_def
    by (auto simp: run_child_def Let_def shop_world_def shop_reply_def merge_args_def is_merge_def bail_def)
qed

definition shop_facts :: json where
  "shop_facts = delivery_facts shop_invocation ''h'' ''b'' ''prod'' [''src/a''] shop_manifest shop_runs shop_approved shop_snap"

lemma shop_facts_object: "\<exists>m. shop_facts = JObj m" "jget shop_facts ''context_version'' = JInt 1"
proof -
  show "\<exists>m. shop_facts = JObj m" by (simp add: shop_facts_def delivery_facts_def jobj_def)
  have "jget shop_snap ''context_version'' = JInt 1" by (simp add: shop_snap_def preflight_data_def jget_jobj)
  then show "jget shop_facts ''context_version'' = JInt 1" by (simp add: shop_facts_def delivery_facts_def jget_jobj)
qed

lemma shop_redacted: "redacted_manifest shop_env shop_world shop_invocation shop_manifest = Ok shop_manifest"
  by code_simp

lemma shop_author: "context_of (as_str (jget (jget shop_pr ''author'') ''login'')) ''PR author'' = Ok ''bot''"
  by (simp add: shop_pr_def jget_jobj context_of_def)

lemma shop_vetoed_facts:
  "succeeds (in_shop [] [] []) (decision_veto shop_env shop_world shop_invocation shop_facts (ad_routine shop_policy)) (gives ''veto'' (deciding ''succeeded''))"
  using shop_facts_object shop_vetoed by metis

lemma shop_rechecked:
  "succeeds (deciding ''succeeded'') (recheck shop_env shop_world shop_invocation ''h'' ''7'' ''bot'' ''b'' shop_manifest shop_pr shop_runs shop_approved)
     (\<lambda>_. sealed [] [])"
  by (rule succeeds_weaken [OF deciding_lift(2) [OF shop_recheck]]) (auto simp: deciding_def sealed_def)

lemma shop_sealing:
  "succeeds (sealed [] []) (on_depot (modify (record_authorization \<lparr>az_id = json_hash shop_env (authorization_data shop_env shop_invocation facts ''veto'' ''7'' ''h''),
     az_task = ''t'', az_head = ''h'', az_data = authorization_data shop_env shop_invocation facts ''veto'' ''7'' ''h''\<rparr>))) (\<lambda>_. sealed [shop_seal facts] [])"
  using shop_recorded [of "shop_seal facts"] by (simp add: shop_seal_def shop_hash)

lemma shop_authorized:
  "succeeds (in_shop [] [] []) (authorize_merge shop_env shop_world shop_invocation ''h'' ''7'') (gives shop_token (sealed [shop_seal shop_facts] []))"
  unfolding authorize_merge_def Let_def shop_fields
  by (rule succeeds_thn [OF gives_any [OF shop_state(3)]], rule succeeds_bnd [OF shop_now], rule succeeds_bnd [OF shop_state(2)],
      rule succeeds_thn [OF shop_clean], rule succeeds_bnd [OF shop_state(1)], rule succeeds_bnd [OF shop_diff], unfold prod.case,
      rule succeeds_thn [OF gives_any [OF succeeds_pure [OF shop_checked(5)]]], rule succeeds_bnd [OF shop_view [OF quiet_shop]],
      rule succeeds_thn [OF succeeds_guard [OF shop_checked(6)]], rule succeeds_bnd [OF succeeds_pure [OF shop_author]],
      rule succeeds_bnd [OF shop_base [OF quiet_shop]], rule succeeds_bnd [OF shop_required_runs [OF quiet_shop]],
      rule succeeds_bnd [OF shop_required_approvals [OF quiet_shop]], rule succeeds_bnd [OF succeeds_pure [OF shop_redacted]],
      fold shop_facts_def, rule succeeds_bnd [OF shop_vetoed_facts], rule succeeds_thn [OF shop_rechecked], rule succeeds_thn [OF shop_sealing],
      rule succeeds_thn [OF sealed_lift(2) [OF shop_log]], unfold shop_hash shop_token_def [symmetric], rule succeeds_ret)

lemma shop_merge: "stops (in_shop [] [] []) (merge_pr shop_env shop_world shop_invocation ''h'' ''7'')"
proof -
  have authorize: "succeeds (in_shop [] [] []) (bnd (authorize_merge shop_env shop_world shop_invocation ''h'' ''7'') (\<lambda>a. ret (Some a)))
      (gives (Some shop_token) (sealed [shop_seal shop_facts] []))"
    by (rule succeeds_bnd [OF shop_authorized], rule succeeds_ret)
  have named: "''merge'' \<noteq> binding_name" by (simp add: binding_name_def)
  show ?thesis unfolding merge_pr_def shop_fields if_P [OF shop_fields(6)]
    by (rule stops_bnd [OF authorize], unfold option.case, rule stops_thn [OF shop_intended], rule stops_thn [OF sealed_lift(2) [OF shop_save [OF named]]],
        rule stops_thn [OF gives_any [OF shop_boundary]], rule stops_first(2), rule shop_merging, rule quiet_sealed)
qed

lemma shop_deliver: "stops (in_shop [] [] []) (deliver_pr shop_env shop_world shop_invocation ''h'' shop_pr)"
proof -
  have names: "''pr'' \<noteq> binding_name" "''checks'' \<noteq> binding_name" by (simp_all add: binding_name_def)
  have number: "context_of (as_u64 (jget shop_pr ''number'')) ''PR number'' = Ok 7" "show_int 7 = ''7''"
    by (simp add: shop_pr_def jget_jobj context_of_def, code_simp)
  have head: "jget shop_pr ''headRefOid'' = JStr ''h''" and opened: "jget shop_pr ''state'' \<noteq> JStr ''MERGED''"
    by (simp_all add: shop_pr_def jget_jobj)
  have watched: "succeeds (in_shop [] [] [])
     (thn (save shop_env shop_invocation ''checks'' ''observing'' a) (thn (gh shop_env shop_world shop_invocation (''pr'' # ''checks'' # args))
       (save shop_env shop_invocation ''checks'' ''succeeded'' b))) (\<lambda>_. in_shop [] [] [])" for a b args
    by (rule succeeds_thn [OF shop_save [OF names(2)]], rule succeeds_thn [OF gives_any [OF shop_gh [OF quiet_shop]]], simp, rule shop_save [OF names(2)])
  have merging: "\<not> (jget shop_pr ''state'' \<noteq> JStr ''MERGED'' \<and> \<not> de_merge (iv_delivery shop_invocation))" by (simp add: shop_fields)
  show ?thesis unfolding deliver_pr_def Let_def when_op_def if_P [OF opened] if_not_P [OF merging] shop_fields
    by (rule stops_thn [OF shop_save [OF names(1)]], rule stops_bnd [OF succeeds_pure [OF number(1)]], unfold number(2),
        rule stops_thn [OF succeeds_guard [OF head]], rule stops_thn [OF watched], rule stops_first(2), rule shop_merge)
qed

section \<open>The whole delivery\<close>

definition shop0 :: depot where
  "shop0 = (shop_depot [] [] [] [] [] 0)\<lparr>dl_preflights := []\<rparr>"

lemma shop_preflight:
  "case preflight shop_env shop_world shop_invocation ''h'' \<lparr>st_depot = shop0, st_trace = tr\<rparr> of
     (v, r) \<Rightarrow> dl_preflights (st_depot v) = [(''t'', shop_snap)] \<and> r = Ok ()"
  by code_simp

text \<open>The preflight writes only its own table.\<close>

definition frames :: "(site, 'b) oper \<Rightarrow> bool" where
  "frames m = (\<forall>v. \<exists>ps. st_depot (fst (m v)) = (st_depot v)\<lparr>dl_preflights := ps\<rparr>)"

named_theorems frame_rules "operations that write only the preflights"

lemma frames_at: "\<exists>ps. D = D\<lparr>dl_preflights := ps\<rparr>" for D :: depot
  by (rule exI [of _ "dl_preflights D"]) simp

lemma frames_same: "(\<And>v. st_depot (fst (m v)) = st_depot v) \<Longrightarrow> frames m"
  using frames_at by (simp add: frames_def)

lemma frames_bnd [frame_rules]:
  assumes "frames m" and "\<And>x. frames (f x)" shows "frames (bnd m f)"
  unfolding frames_def
proof
  fix v
  from assms(1) obtain ps where ps: "st_depot (fst (m v)) = (st_depot v)\<lparr>dl_preflights := ps\<rparr>" unfolding frames_def by blast
  show "\<exists>ps. st_depot (fst (bnd m f v)) = (st_depot v)\<lparr>dl_preflights := ps\<rparr>"
  proof (cases "m v")
    case (Pair u r)
    show ?thesis
    proof (cases r)
      case (Inr x)
      from assms(2) obtain qs where "st_depot (fst (f x u)) = (st_depot u)\<lparr>dl_preflights := qs\<rparr>" unfolding frames_def by blast
      then have "st_depot (fst (f x u)) = (st_depot v)\<lparr>dl_preflights := qs\<rparr>" using ps Pair by simp
      then show ?thesis using Pair Inr by (auto simp: bnd_def)
    qed (use Pair ps in \<open>auto simp: bnd_def\<close>)
  qed
qed

lemma frames_thn [frame_rules]: "frames m \<Longrightarrow> frames n \<Longrightarrow> frames (thn m n)"
  unfolding thn_def by (rule frames_bnd)

lemma frames_ok_of [frame_rules]: "frames m \<Longrightarrow> frames (ok_of m)"
  unfolding frames_def ok_of_def by (auto split: prod.splits sum.splits) (metis fst_conv)+

lemma frames_leaves [frame_rules]:
  "frames (ret x)" "frames (throw msg)" "frames (ask_state g)" "frames (guard b msg)" "frames (pure y)" "frames (ask_depot h)" "frames (ask_rows k)"
  "frames (outside shop_world c)"
  by (rule frames_same, simp add: ret_def throw_def ask_state_def guard_def pure_def ask_depot_def ask_rows_def outside_def bnd_def call_outside_def
      Let_def shop_world_def split: outside_reply.split)+

lemma frames_insert [frame_rules]: "frames (on_depot (insert_preflight task data))"
  unfolding frames_def on_depot_def insert_preflight_def using frames_at by auto

lemma frames_choices [frame_rules]:
  "frames m \<Longrightarrow> frames n \<Longrightarrow> frames (if b then m else n)" "(\<And>x y. frames (f x y)) \<Longrightarrow> frames (case p of (x, y) \<Rightarrow> f x y)"
  "frames m \<Longrightarrow> (\<And>x. frames (g x)) \<Longrightarrow> frames (case q of None \<Rightarrow> m | Some x \<Rightarrow> g x)"
  by (auto split: prod.split option.split)

lemma frames_pages [frame_rules]: "frames (review_pages env shop_world task head revision version least n c sel)"
  by (induction n arbitrary: c sel) (auto simp: list_reviews_def git_read_def intro!: frame_rules)

lemma frames_preflight: "frames (preflight env shop_world i head)"
  unfolding preflight_def review_snapshot_def Let_def by (intro frame_rules)

lemma shop_ready: "succeeds (\<lambda>D. D = shop0) (preflight shop_env shop_world shop_invocation ''h'') (\<lambda>_. in_shop [] [] [])"
  unfolding succeeds_def
proof (intro allI impI)
  fix v :: site assume start: "st_depot v = shop0"
  then have v: "v = \<lparr>st_depot = shop0, st_trace = st_trace v\<rparr>" by simp
  obtain v' r where run: "preflight shop_env shop_world shop_invocation ''h'' v = (v', r)" by fastforce
  with shop_preflight [of "st_trace v"] v have done': "dl_preflights (st_depot v') = [(''t'', shop_snap)]" "r = Ok ()" by simp_all
  from frames_preflight [of shop_env shop_invocation "''h''"] run obtain ps where ps: "st_depot v' = (st_depot v)\<lparr>dl_preflights := ps\<rparr>"
    unfolding frames_def by (metis fst_conv)
  with done'(1) have "ps = [(''t'', shop_snap)]" by simp
  with ps start have "st_depot v' = shop_depot [] [] [] [] [] 0" by (simp add: shop0_def shop_depot_def)
  then have "in_shop [] [] [] (st_depot v')" unfolding in_shop_def by (intro exI conjI, assumption) simp
  with run done'(2) show "\<exists>v' x. preflight shop_env shop_world shop_invocation ''h'' v = (v', Ok x) \<and> in_shop [] [] [] (st_depot v')" by blast
qed

lemma shop_stops: "stops (\<lambda>D. D = shop0) (execute_delivery shop_env shop_world shop_invocation)"
proof -
  let ?X = "\<lambda>D. D = shop0"
  have quiet: "quiet ?X" unfolding quiet_def shop0_def by (simp add: shop_depot_def upkeep_binding_of_def upkeep_root_def shop_store_def Let_def)
  have on: "de_enabled (iv_delivery shop_invocation) \<and> ''o/r'' \<noteq> [] \<and> ''main'' \<noteq> []" by (simp add: shop_invocation_def)
  have same: "case as_str (jget (jobj [(''nameWithOwner'', JStr ''o/r'')]) ''nameWithOwner'') of None \<Rightarrow> False | Some n \<Rightarrow> same_ignoring_case n ''o/r''"
    by code_simp
  have rows: "and_then (context_of (as_array (JArr [shop_pr])) ''malformed GitHub PR list'') (\<lambda>rows. Ok (case rows of [] \<Rightarrow> None | r # _ \<Rightarrow> Some r)) = Ok (Some shop_pr)"
    by (simp add: context_of_def and_then_def)
  have found: "succeeds ?X (find_pr shop_env shop_world shop_invocation) (gives (Some shop_pr) ?X)"
    unfolding find_pr_def by (rule succeeds_bnd [OF shop_gh [OF quiet]], simp, unfold shop_payloads, rule succeeds_pure [OF rows])
  have opened: "jget shop_pr ''state'' \<noteq> JStr ''MERGED''" "jget shop_pr ''state'' \<noteq> JStr ''CLOSED''" by (simp_all add: shop_pr_def jget_jobj)
  have chosen: "succeeds (in_shop [] [] []) (thn (guard (jget shop_pr ''state'' \<noteq> JStr ''CLOSED'') msg) (ret shop_pr)) (gives shop_pr (in_shop [] [] []))" for msg
    by (rule succeeds_thn [OF succeeds_guard [OF opened(2)]], rule succeeds_ret)
  show ?thesis unfolding execute_delivery_def Let_def shop_fields
    by (rule stops_thn [OF succeeds_guard [OF on]], rule stops_bnd [OF shop_gh [OF quiet]], simp, unfold shop_payloads,
        rule stops_thn [OF succeeds_guard [OF same]], rule stops_bnd [OF shop_git], unfold if_P [OF refl], rule stops_bnd [OF found],
        unfold option.case when_op_def if_P [OF opened(1)], rule stops_thn [OF shop_ready], rule stops_bnd [OF chosen], rule shop_deliver)
qed

theorem merge_only_authorized_witness:
  "automatic shop_invocation \<and> (\<exists>v r pre e post. execute_delivery shop_env shop_world shop_invocation \<lparr>st_depot = shop0, st_trace = []\<rparr> = (v, r) \<and>
     st_trace v = pre @ e # post \<and> is_merge (ex_call e) \<and> merge_authorized shop_env shop_world shop_invocation pre e)"
proof -
  have "st_depot \<lparr>st_depot = shop0, st_trace = []\<rparr> = shop0" by simp
  with shop_stops obtain v r where run: "execute_delivery shop_env shop_world shop_invocation \<lparr>st_depot = shop0, st_trace = []\<rparr> = (v, Inl r)"
    and some: "list_ex (\<lambda>x. is_merge (ex_call x)) (st_trace v)" unfolding stops_def by blast
  from some obtain pre e post where split: "st_trace v = pre @ e # post" "is_merge (ex_call e)"
    by (auto simp: list_ex_iff in_set_conv_decomp)
  with run merge_only_authorized [OF run shop_fields(5) split] shop_fields(5) show ?thesis by blast
qed

end
