(* ===== verification/Spec2Isabelle.thy ===== *)
theory Spec2Isabelle
  imports Template_Facts Scheduler_Facts Topup_Examples Claims Mailbox_Facts Project_Facts Delegation_Examples Accounts_Examples Execution_Examples Dispatch_Examples Knowledge_Examples Delivery_Examples
begin

text \<open>
  Verification development for the Horde runtime, a daemon that runs workflows of agent and command
  steps in repositories and keeps its coordination state in one SQLite database.

  \<^bold>\<open>The program.\<close> A caller sends operations to the daemon (src/src/protocol.rs). A submission compiles a
  workflow template (src/src/template.rs) into the steps of a task; the scheduler (src/src/runtime.rs)
  launches the steps that are ready as attempts, within the limits of projects
  (src/src/project_runtime.rs) and accounts (src/src/accounts.rs), watches their budgets
  (src/src/budget.rs) and settles the task. Workers claim paths and exchange messages
  (src/src/store.rs), delegate parts to child tasks and ask their callers (src/src/delegation.rs),
  and share claims of knowledge (src/src/knowledge.rs). A finished task is delivered as a pull request
  (src/src/delivery.rs, src/src/delivery_policy.rs), where an advisory model may veto
  (src/src/decision); nightly maintenance works under a revocable authority
  (src/src/upstream_maintenance); the account of a provider is funded automatically
  (src/src/provider_signup). All components meet in the tables of the store.

  \<^bold>\<open>How the code is modelled.\<close> A table is a list of records in the order of its rows (\<open>Schema\<close>, and with
  the component where the table belongs to one component only). An operation of type \<open>oper\<close>
  (\<open>Prelude\<close>) takes the tables and gives the new tables and a result, an error or a value; \<open>atomic\<close> is a
  transaction, whose error brings the tables back. Every \<^verbatim>\<open>ensure!\<close>, \<^verbatim>\<open>bail!\<close> and \<^verbatim>\<open>?\<close> is a
  branch to an error. \<^verbatim>\<open>serde_json::Value\<close> is \<open>json\<close>, whose objects are sorted association lists; an \<open>i64\<close>
  that is only compared and counted is an \<open>int\<close>, a \<open>u64\<close> whose sum wraps is a word (\<open>Metrics\<close>,
  \<open>Capacity\<close>) or has its wrap-around written out (\<open>Budget\<close>), and a \<open>f64\<close> is a rational. What the code takes from outside stands in \<open>env\<close> (clock, hash,
  serialisation, canonical paths, secret values; the clock of one operation is one moment) or in a record
  of parameters of the component that uses it. Fresh identifiers are arguments. Strings are lists of
  bytes. The definitions compute, so the witnesses evaluate them.

  \<^bold>\<open>The theories.\<close>

  \<^item> \<open>Prelude\<close>, \<open>Numerals\<close>, \<open>Strings\<close>, \<open>Json\<close>, \<open>Paths\<close>: results, operations with their collections of
    rules (\<open>oper_defs\<close>, \<open>run_iffs\<close>, \<open>runs\<close>, \<open>keeps_rules\<close>), decimal numbers, strings of the standard library,
    JSON, and the paths \<^verbatim>\<open>scope\<close>, \<^verbatim>\<open>contains\<close> and \<^verbatim>\<open>overlaps\<close> of src/src/store.rs.
  \<^item> \<open>Template\<close>, \<open>Config\<close>, \<open>Schema\<close>: steps, plans and \<^verbatim>\<open>compile\<close>; the settings of src/src/config.rs; the tables.
    \<open>Template_Facts\<close>: an accepted plan has an execution order, expansion ends and refuses
    recursion, and accepted references resolve.
  \<^item> \<open>Store_Base\<close>, \<open>Claims\<close>, \<open>Mailbox\<close>, \<open>Submission\<close> (src/src/store.rs, src/src/secrets.rs): events, redaction,
    workers, ownership of paths, messages, submission of a task. \<open>Claims\<close> ends with one writer per
    path; \<open>Mailbox_Facts\<close> has cursors that skip nothing, idempotent sends and recipients.
  \<^item> \<open>Delegation\<close> (src/src/delegation.rs) with \<open>Delegation_Facts\<close>: bounded trees, staleness after a
    revision, final answers, and the end of the walk up a tree.
  \<^item> \<open>Projects\<close>, \<open>Project_Runtime\<close> (src/src/projects.rs, src/src/project_runtime.rs, src/src/management.rs) with
    \<open>Project_Facts\<close>: dedicated and revoked runtimes, owners, fair turns, admission, leases.
  \<^item> \<open>Metrics\<close>, \<open>Capacity\<close>, \<open>Accounts\<close>, \<open>Credentials\<close> (src/src/metrics.rs, src/src/capacity.rs, src/src/accounts,
    and the writers of the account tables in src/src/chatgpt_auth and src/src/account_auth.rs) with
    \<open>Accounts_Facts\<close>: no oversubscription, what a reservation has checked, what a revocation takes away,
    safe envelopes, the fallback chain, and releases that last.
  \<^item> \<open>Budget\<close>, \<open>Attempts\<close>, \<open>Revisions\<close>, \<open>Scheduler\<close>, \<open>Daemon\<close> (src/src/budget.rs, src/src/runtime.rs,
    src/src/protocol/resume.rs): the life of an attempt, changes of a running workflow, a round of the
    scheduler with its map of running attempts, restarts, and the review that src/src/preview/review.rs
    appends. \<open>Scheduler_Facts\<close>: settlement, and progress over repeated visits; \<open>Execution_Facts\<close> and \<open>Execution_Rounds\<close>: no step is executed twice at once.
  \<^item> \<open>Receipts\<close>, \<open>Dispatch\<close>, \<open>Operations\<close> (src/src/submission.rs, src/src/remote_submit.rs, src/src/protocol.rs):
    receipts, fences and their triggers; the entry of a call and its credentials; the table of the
    operations that change coordination state. \<open>Receipts_Facts\<close>: the receipts refine a write-once
    register; \<open>Dispatch_Facts\<close>: a call stays within its credentials.
  \<^item> \<open>Knowledge\<close> (src/src/knowledge.rs) with \<open>Knowledge_Facts\<close> and \<open>Knowledge_Typing\<close>: pages make up the
    query, the tables stay well typed, and stale cursors are refused.
  \<^item> \<open>Maintenance\<close> (src/src/upstream_maintenance): policies, bindings, the shared worker budget and the
    answer of the authority.
  \<^item> \<open>Decisions\<close> (src/src/decision, src/src/config/decision.rs, src/src/config/automatic_delivery.rs): questions,
    the check of answers, the states of a decision; a cached copy loses the abstention of its
    source (\<open>cached_abstention_lost\<close>).
  \<^item> \<open>Delivery_Checks\<close>, \<open>Delivery\<close> (src/src/delivery.rs, src/src/delivery_policy.rs and its modules): the
    checks on what GitHub and the repository say, and the delivery itself, whose commands go through the
    runner of src/src/executor.rs (owner, authority, pause, process). \<open>Delivery_Facts\<close>: a merge is
    run only after everything that authorizes it; between the last check and the process lies only
    the launch of the command, in which other parts may still change the tables.
  \<^item> \<open>Payment\<close>, \<open>Topup\<close> (src/src/provider_signup) with \<open>Payment_Facts\<close> and \<open>Topup_Facts\<close>: the parser of
    challenges, charges within the cap, at most one payment for a charge, and the monthly limit.
  \<^item> The theories \<open>..._Examples\<close> hold the histories on which the theorems are applied.

  The contracts that several operations share are locales, interpreted on the model:
  \<open>path_space\<close> (\<open>Paths\<close>), \<open>cursor_log\<close> (\<open>Mailbox_Facts\<close>) and \<open>pool\<close> (\<open>Accounts_Facts\<close>).

  \<^bold>\<open>Histories.\<close> Most invariants are about every reachable state: a step relation has a rule for each
  modelled operation of the component, and one for everything else that leaves its tables alone. The daemon
  (\<open>Daemon\<close>) interleaves rounds, ends of attempts, restarts and calls; within a round the operations run
  one after another. The funding (\<open>Topup\<close>) keeps a trail of the directory after every durable write and
  request, and a crash may leave any state of the trail; each write may fail. The delivery records
  every call to the outside with the tables at that moment, the world answers as it likes, and other
  parts of the runtime may change the tables while a call runs.

  \<^bold>\<open>Bounds and fuel.\<close> Loops carry a bound that is enough: the walk up a tree one step more than the
  depth of its origin (a theorem shows that it ends), the levels of a subtree and the ancestors of a task
  one for each row, the fallback chain one hop for each role, the pages of a query one for each row and one
  more, the reviews of a task the same. The expansion of templates is a function whose
  termination is proved. The retries of a decision count down the
  attempts of its settings, the search for a deployment is tried thirty times and the health
  of a deployment five times, as in the code.

  \<^bold>\<open>Simplifications.\<close> \<open>blank\<close> trims ASCII white space where \<^verbatim>\<open>str::trim\<close> knows all of Unicode. The walk up the
  tree in \<open>check_worker\<close> is bounded by the depth of its origin where the code loops (a theorem shows
  that the bound is enough). \<open>delegate\<close> reads the version of the tree in the same step as its
  transaction. In \<open>spent\<close> the start of a month is a parameter, and reading the ledger does not fail. The
  configuration, the key and the credential of the funding stay the same in a history, so its check for a
  changed key cannot fail. \<open>cleanup_ungranted\<close> has the loop over the accounts and not the one that removes
  profile directories. A command of a delivery is its program and arguments; the environment it runs in and
  the table of process groups are left out, and the disposable environments of an attempt are a parameter.
  The wait of a sign-out for the provider is a parameter; in the histories its two halves are two steps.

  \<^bold>\<open>Not modelled.\<close> Executors of agents and commands, their conversations and native context
  (src/src/executor.rs, src/src/native.rs and others), runs and their recovery (src/src/run), git, the
  network between runtimes (src/src/federation.rs, src/src/network.rs), fleets, capabilities and
  execution selection, logins and wallets, previews and browser tests, storage pressure, package releases
  and updates, the offline evaluation behind a qualification, observations, skills, and the command
  line: these drive processes, files, archives and sockets, and where a modelled operation calls them
  they are its parameter. Of the modelled components we left out operations that only read rows for
  display, the migrations of the database, the texts of messages to the operator, and the queues
  that prepare the evidence of advisory decisions. A round of the scheduler is not interrupted by other
  calls between its operations, which the code would allow.
\<close>

end
